(* ===== verification/Prelude.thy ===== *)
theory Prelude
  imports Main "HOL-Library.Word" "HOL-Library.Char_ord" "HOL-Library.List_Lexorder"
begin

text \<open>
  Shared vocabulary of the Queue Observatory development: the machine integers of the
  C++ sources, the status and result values every fallible operation returns
  (\<^verbatim>\<open>include/qobs/core/Result.hpp\<close>), the decimal rendering of integers
  (\<^verbatim>\<open>std::to_string\<close>), and the collections of rewrite rules that the
  component theories extend.

  Unsigned quantities are words of their width, so that \<^verbatim>\<open>+\<close> wraps the way the
  hardware does. Signed nanosecond values are \<open>int\<close>; an arithmetic operation of the
  source on them is written with \<open>wrap_i64\<close>, the two's complement reading of the
  result, because C++ leaves signed overflow undefined and the theorems have to say when
  it does not happen.
\<close>

section \<open>Collections of rules\<close>

named_theorems u64_simps
  \<open>rules that move a comparison or an arithmetic operation on words to the naturals\<close>
named_theorems status_simps \<open>rules about status values\<close>

section \<open>Machine integers\<close>

type_synonym u8 = "8 word"
type_synonym u16 = "16 word"
type_synonym u32 = "32 word"
type_synonym u64 = "64 word"
type_synonym i64 = int

definition i64_max :: i64 where "i64_max = 2 ^ 63 - 1"

definition i64_min :: i64 where "i64_min = - (2 ^ 63)"

definition wrap_i64 :: "int \<Rightarrow> i64" where
  "wrap_i64 x = (x + 2 ^ 63) mod 2 ^ 64 - 2 ^ 63"

definition is_i64 :: "int \<Rightarrow> bool" where
  "is_i64 x \<longleftrightarrow> i64_min \<le> x \<and> x \<le> i64_max"

text \<open>C++ division and remainder truncate towards zero.\<close>

definition cdiv :: "int \<Rightarrow> int \<Rightarrow> int" where
  "cdiv a b = sgn a * sgn b * (\<bar>a\<bar> div \<bar>b\<bar>)"

definition cmod :: "int \<Rightarrow> int \<Rightarrow> int" where
  "cmod a b = a - cdiv a b * b"

text \<open>\<^verbatim>\<open>static_cast<std::uint64_t>\<close> of a signed value.\<close>

definition u64_of_i64 :: "i64 \<Rightarrow> u64" where
  "u64_of_i64 x = word_of_int x"

definition u64_max :: u64 where "u64_max = - 1"

section \<open>Status and result values\<close>

datatype error_code =
    Ok | InvalidArgument | OutOfRange | Overflow | NotSupported | NotFound | AlreadyExists
  | IntegrityFailure | VersionMismatch | ParseError | LimitExceeded | Fenced | Stale_Error
  | Conflict_Error | Incomplete_Error | Unknown_Error | Cancelled | NotRunning | Busy
  | IoError | Internal

datatype status = Status (st_code: error_code) (st_message: string)

definition success :: status where "success = Status Ok []"

definition failure :: "error_code \<Rightarrow> string \<Rightarrow> status" where
  "failure c m = Status c m"

definition is_failure :: "error_code \<Rightarrow> bool" where
  "is_failure c \<longleftrightarrow> c \<noteq> Ok"

definition status_ok :: "status \<Rightarrow> bool" where
  "status_ok s \<longleftrightarrow> st_code s = Ok"

text \<open>\<^verbatim>\<open>Result<T>\<close>: the error on the left, the value on the right.\<close>

type_synonym 'a result = "status + 'a"

text \<open>The macro \<^verbatim>\<open>QOBS_TRY\<close>: leave with the failing status or go on.\<close>

definition qobs_try :: "status \<Rightarrow> status \<Rightarrow> status" where
  "qobs_try s k = (if status_ok s then k else s)"

text \<open>The macro \<^verbatim>\<open>QOBS_TRY_ASSIGN\<close>.\<close>

definition qobs_try_assign :: "'a result \<Rightarrow> ('a \<Rightarrow> 'b result) \<Rightarrow> 'b result" where
  "qobs_try_assign r k = (case r of Inl e \<Rightarrow> Inl e | Inr v \<Rightarrow> k v)"

fun error_code_text :: "error_code \<Rightarrow> string" where
  "error_code_text Ok = ''ok''"
| "error_code_text InvalidArgument = ''invalid_argument''"
| "error_code_text OutOfRange = ''out_of_range''"
| "error_code_text Overflow = ''overflow''"
| "error_code_text NotSupported = ''not_supported''"
| "error_code_text NotFound = ''not_found''"
| "error_code_text AlreadyExists = ''already_exists''"
| "error_code_text IntegrityFailure = ''integrity_failure''"
| "error_code_text VersionMismatch = ''version_mismatch''"
| "error_code_text ParseError = ''parse_error''"
| "error_code_text LimitExceeded = ''limit_exceeded''"
| "error_code_text Fenced = ''fenced''"
| "error_code_text Stale_Error = ''stale''"
| "error_code_text Conflict_Error = ''conflict''"
| "error_code_text Incomplete_Error = ''incomplete''"
| "error_code_text Unknown_Error = ''unknown''"
| "error_code_text Cancelled = ''cancelled''"
| "error_code_text NotRunning = ''not_running''"
| "error_code_text Busy = ''busy''"
| "error_code_text IoError = ''io_error''"
| "error_code_text Internal = ''internal''"

definition error_to_string :: "status \<Rightarrow> string" where
  "error_to_string e = error_code_text (st_code e) @ '': '' @ st_message e"

section \<open>Decimal rendering\<close>

definition digit_char :: "nat \<Rightarrow> char" where
  "digit_char d = char_of (48 + d)"

fun dec_nat :: "nat \<Rightarrow> string" where
  "dec_nat n = (if n < 10 then [digit_char n] else dec_nat (n div 10) @ [digit_char (n mod 10)])"

declare dec_nat.simps [simp del]

definition dec_int :: "int \<Rightarrow> string" where
  "dec_int z = (if z < 0 then CHR ''-'' # dec_nat (nat (- z)) else dec_nat (nat z))"

definition dec_u64 :: "u64 \<Rightarrow> string" where
  "dec_u64 w = dec_nat (unat w)"

section \<open>Lemmas\<close>

lemma status_ok_success [simp, status_simps]: "status_ok success"
  by (simp add: status_ok_def success_def)

lemma status_ok_failure [simp, status_simps]: "status_ok (failure c m) \<longleftrightarrow> c = Ok"
  by (simp add: status_ok_def failure_def)

lemma st_code_failure [simp, status_simps]: "st_code (failure c m) = c"
  by (simp add: failure_def)

lemma st_code_success [simp, status_simps]: "st_code success = Ok"
  by (simp add: success_def)

lemma qobs_try_ok [simp, status_simps]:
  "status_ok (qobs_try s k) \<longleftrightarrow> status_ok s \<and> status_ok k"
  by (simp add: qobs_try_def)

lemma wrap_i64_id: "is_i64 x \<Longrightarrow> wrap_i64 x = x"
  by (simp add: is_i64_def wrap_i64_def i64_min_def i64_max_def)

lemma wrap_i64_range: "is_i64 (wrap_i64 x)"
proof -
  have "0 \<le> (x + 2 ^ 63) mod 2 ^ 64" "(x + 2 ^ 63) mod 2 ^ 64 < (2 ^ 64 :: int)"
    by simp_all
  then show ?thesis
    by (simp add: is_i64_def wrap_i64_def i64_min_def i64_max_def)
qed

lemma unat_u64_bound [simp]: "unat (x :: u64) < 18446744073709551616"
  using unsigned_less [of x, where ?'a = nat] by simp

lemma u64_le_max [simp]: "x \<le> u64_max"
  by (simp add: u64_max_def)

lemma unat_u64_max: "unat u64_max = 18446744073709551615"
  by (simp add: u64_max_def unsigned_minus_1_eq_mask mask_eq_exp_minus_1)

lemmas u64_nat_simps [u64_simps] =
  word_le_nat_alt word_less_nat_alt unat_word_ariths unat_div unat_mod word_arith_nat_div

lemma cdiv_nonneg: "0 \<le> a \<Longrightarrow> 0 < b \<Longrightarrow> cdiv a b = a div b"
  by (cases "a = 0") (simp_all add: cdiv_def)

lemma cmod_nonneg: "0 \<le> a \<Longrightarrow> 0 < b \<Longrightarrow> cmod a b = a mod b"
  by (simp add: cmod_def cdiv_nonneg minus_div_mult_eq_mod)

lemma dec_nat_nonempty [simp]: "dec_nat n \<noteq> []"
  by (subst dec_nat.simps) simp

end
