(* ===== verification/Ordered_Map.thy ===== *)
theory Ordered_Map
  imports Prelude
begin

text \<open>
  \<^verbatim>\<open>std::map\<close> as the store uses it: a finite map that is iterated in ascending key
  order. The model is an association list kept strictly sorted by key. The contract the
  store relies on is the locale \<open>ordered_map\<close>; the association list is its
  interpretation, and the store's proofs use only the facts of the interpretation.
\<close>

section \<open>The association list\<close>

definition om_find :: "('k \<times> 'v) list \<Rightarrow> 'k \<Rightarrow> 'v option" where
  "om_find m k = map_of m k"

fun om_put :: "'k::linorder \<Rightarrow> 'v \<Rightarrow> ('k \<times> 'v) list \<Rightarrow> ('k \<times> 'v) list" where
  "om_put k v [] = [(k, v)]"
| "om_put k v ((k', v') # m) =
     (if k < k' then (k, v) # (k', v') # m
      else if k = k' then (k, v) # m
      else (k', v') # om_put k v m)"

definition om_entries :: "('k \<times> 'v) list \<Rightarrow> ('k \<times> 'v) list" where
  "om_entries m = m"

definition om_size :: "('k \<times> 'v) list \<Rightarrow> nat" where
  "om_size m = length m"

definition om_wf :: "('k::linorder \<times> 'v) list \<Rightarrow> bool" where
  "om_wf m \<longleftrightarrow> sorted_wrt (<) (map fst m)"

section \<open>The contract\<close>

locale ordered_map =
  fixes empty :: 'm
    and find :: "'m \<Rightarrow> 'k::linorder \<Rightarrow> 'v option"
    and put :: "'k \<Rightarrow> 'v \<Rightarrow> 'm \<Rightarrow> 'm"
    and entries :: "'m \<Rightarrow> ('k \<times> 'v) list"
    and wf :: "'m \<Rightarrow> bool"
  assumes find_empty: "find empty k = None"
    and wf_empty: "wf empty"
    and wf_put: "wf m \<Longrightarrow> wf (put k v m)"
    and find_put: "wf m \<Longrightarrow> find (put k v m) k' = (if k' = k then Some v else find m k')"
    and entries_sorted: "wf m \<Longrightarrow> sorted_wrt (<) (map fst (entries m))"
    and entries_find: "wf m \<Longrightarrow> (k, v) \<in> set (entries m) \<longleftrightarrow> find m k = Some v"
begin

lemma find_put_same: "wf m \<Longrightarrow> find (put k v m) k = Some v"
  by (simp add: find_put)

lemma keys_distinct: "wf m \<Longrightarrow> distinct (map fst (entries m))"
  using entries_sorted strict_sorted_iff by blast

lemma keys_put: "wf m \<Longrightarrow> set (map fst (entries (put k v m))) = insert k (set (map fst (entries m)))"
proof -
  assume wf: "wf m"
  have mem: "a \<in> set (map fst (entries m')) \<longleftrightarrow> find m' a \<noteq> None" if "wf m'" for a m'
    using entries_find [OF that] by (force simp: image_iff)
  show ?thesis
    using mem [OF wf] mem [OF wf_put [OF wf]]
    by (intro set_eqI) (simp only: insert_iff find_put [OF wf] split: if_split, auto)
qed

lemma size_put:
  assumes wf: "wf m"
  shows "length (entries (put k v m)) =
    (if find m k = None then Suc (length (entries m)) else length (entries m))"
proof -
  have card: "length (entries m') = card (set (map fst (entries m')))" if "wf m'" for m'
    using keys_distinct [OF that] distinct_card [of "map fst (entries m')"] by simp
  have "k \<in> set (map fst (entries m)) \<longleftrightarrow> find m k \<noteq> None"
    using entries_find [OF wf] by (force simp: image_iff)
  then show ?thesis
    using card [OF wf] card [OF wf_put [OF wf]] keys_put [OF wf]
    by (auto simp: card_insert_if)
qed

lemma all_entries_put:
  assumes "wf m" and "\<forall>(a, x) \<in> set (entries m). P a x" and "P k v"
  shows "\<forall>(a, x) \<in> set (entries (put k v m)). P a x"
  using assms entries_find [OF assms(1)] entries_find [OF wf_put [OF assms(1)]]
  by (fastforce simp: find_put split: if_splits)

lemma all_entries_find:
  assumes "wf m" and "\<forall>(a, x) \<in> set (entries m). P a x" and "find m k = Some v"
  shows "P k v"
  using assms entries_find [OF assms(1)] by fastforce

end

section \<open>The association list satisfies the contract\<close>

lemma om_put_keys: "set (map fst (om_put k v m)) = insert k (set (map fst m))"
  by (induction k v m rule: om_put.induct) (simp_all add: insert_commute)

lemma om_wf_put: "om_wf m \<Longrightarrow> om_wf (om_put k v m)"
  unfolding om_wf_def
proof (induction m)
  case (Cons p m)
  obtain k' v' where p: "p = (k', v')" by fastforce
  have "\<forall>x \<in> set (map fst (om_put k v m)). x = k \<or> x \<in> set (map fst m)"
    using om_put_keys [of k v m] by auto
  with Cons p show ?case by fastforce
qed simp

lemma om_find_put:
  "om_wf m \<Longrightarrow> om_find (om_put k v m) k' = (if k' = k then Some v else om_find m k')"
  unfolding om_find_def om_wf_def by (induction m) auto

interpretation om: ordered_map "[] :: ('k::linorder \<times> 'v) list" om_find om_put om_entries om_wf
proof unfold_locales
  fix m :: "('k \<times> 'v) list" and k v
  assume wf: "om_wf m"
  then have d: "distinct (map fst m)"
    by (simp add: om_wf_def strict_sorted_iff)
  show "(k, v) \<in> set (om_entries m) \<longleftrightarrow> om_find m k = Some v"
    by (simp add: om_entries_def om_find_def map_of_eq_Some_iff [OF d])
qed (simp_all add: om_find_def om_wf_put om_find_put [unfolded om_find_def]
      om_entries_def om_wf_def [THEN iffD1] om_wf_def [of "[]"])

lemma om_put_put: "om_put k v (om_put k w m) = om_put k v m"
  by (induction m) auto

lemma om_size_put:
  "om_wf m \<Longrightarrow> om_size (om_put k v m) = (if om_find m k = None then Suc (om_size m) else om_size m)"
  using om.size_put [of m k v] by (simp add: om_size_def om_entries_def)

end
