(* ===== verification/Ring.thy ===== *)
theory Ring
  imports Prelude
begin

text \<open>
  The circular buffer the sources use three times: the history ring of a queue
  (\<^verbatim>\<open>src/store/History.cpp\<close>), the bucket ring of a window
  (\<^verbatim>\<open>src/store/Window.cpp\<close>) and the event log of the store
  (\<^verbatim>\<open>src/store/Store.cpp\<close>). A ring is a storage vector of fixed length with a
  head index and a size; \<open>ring_items\<close> reads its logical contents, oldest first. The
  lemmas say what the index arithmetic \<^verbatim>\<open>(head + i) % capacity\<close> does to the
  contents. The locale \<open>bounded_log\<close> is the contract of the rings that overwrite
  their oldest entry when they are full.
\<close>

section \<open>Index arithmetic\<close>

definition ring_items :: "'a list \<Rightarrow> nat \<Rightarrow> nat \<Rightarrow> 'a list" where
  "ring_items st h n = map (\<lambda>i. st ! ((h + i) mod length st)) [0..<n]"

lemma length_ring_items [simp]: "length (ring_items st h n) = n"
  by (simp add: ring_items_def)

lemma nth_ring_items: "i < n \<Longrightarrow> ring_items st h n ! i = st ! ((h + i) mod length st)"
  by (simp add: ring_items_def)

lemma ring_items_0 [simp]: "ring_items st h 0 = []"
  by (simp add: ring_items_def)

lemma ring_index_inj:
  assumes "i < c" "j < c" "(h + i) mod c = (h + j) mod (c :: nat)"
  shows "i = j"
proof -
  have aux: "a = b" if "a \<le> b" "b < c" "(h + a) mod c = (h + b) mod c" for a b
  proof -
    from that(3) have "c dvd (h + b) - (h + a)"
      by (metis mod_eq_dvd_iff_nat add_le_mono1 that(1) add.commute)
    then have "c dvd b - a" by simp
    moreover have "b - a < c" using that by simp
    ultimately have "b - a = 0" by (meson dvd_imp_le not_less gr0I)
    with that show "a = b" by simp
  qed
  show ?thesis
    using aux [of i j] aux [of j i] assms by (cases "i \<le> j") auto
qed

lemma ring_items_append:
  assumes "n < length st"
  shows "ring_items (st[(h + n) mod length st := x]) h (Suc n) = ring_items st h n @ [x]"
proof (rule nth_equalityI)
  fix i assume "i < length (ring_items (st[(h + n) mod length st := x]) h (Suc n))"
  then have i: "i < Suc n" by simp
  have "(h + n) mod length st \<noteq> (h + i) mod length st" if "i < n"
    using ring_index_inj [of n "length st" i h] assms that by auto
  moreover have "(h + n) mod length st < length st"
    using assms by (intro mod_less_divisor) linarith
  ultimately show "ring_items (st[(h + n) mod length st := x]) h (Suc n) ! i =
      (ring_items st h n @ [x]) ! i"
    using i by (auto simp: nth_ring_items nth_append less_Suc_eq)
qed simp

lemma ring_items_tl:
  assumes "0 < n" "n \<le> length st"
  shows "ring_items st ((h + 1) mod length st) (n - 1) = tl (ring_items st h n)"
proof (rule nth_equalityI)
  fix i assume "i < length (ring_items st ((h + 1) mod length st) (n - 1))"
  then have i: "i < n - 1" by simp
  have "((h + 1) mod length st + i) mod length st = (h + Suc i) mod length st"
    by (simp add: mod_add_left_eq)
  with i assms show "ring_items st ((h + 1) mod length st) (n - 1) ! i = tl (ring_items st h n) ! i"
    by (simp add: nth_ring_items nth_tl)
qed simp

lemma ring_items_pop_reset:
  assumes "0 < n" "n \<le> length st" "h < length st"
  shows "ring_items (st[h := y]) ((h + 1) mod length st) (n - 1) = tl (ring_items st h n)"
proof (rule nth_equalityI)
  fix i assume "i < length (ring_items (st[h := y]) ((h + 1) mod length st) (n - 1))"
  then have i: "i < n - 1" by simp
  have eq: "((h + 1) mod length st + i) mod length st = (h + Suc i) mod length st"
    by (simp add: mod_add_left_eq)
  have "(h + Suc i) mod length st \<noteq> (h + 0) mod length st"
  proof -
    have "Suc i < length st" "0 < length st" using i assms by auto
    then show ?thesis using ring_index_inj [of "Suc i" "length st" 0 h] by auto
  qed
  then have "(h + Suc i) mod length st \<noteq> h" using assms by simp
  with i eq assms show "ring_items (st[h := y]) ((h + 1) mod length st) (n - 1) ! i =
      tl (ring_items st h n) ! i"
    by (simp add: nth_ring_items nth_tl)
qed simp

lemma ring_items_overwrite:
  assumes "0 < length st" "h < length st"
  shows "ring_items (st[h := x]) ((h + 1) mod length st) (length st) =
    tl (ring_items st h (length st)) @ [x]"
proof -
  let ?c = "length st" and ?h' = "(h + 1) mod length st"
  have idx: "(?h' + (?c - 1)) mod ?c = h"
  proof -
    have "(?h' + (?c - 1)) mod ?c = (h + 1 + (?c - 1)) mod ?c"
      by (simp add: mod_add_left_eq)
    also have "h + 1 + (?c - 1) = h + ?c" using assms by simp
    finally show ?thesis using assms by simp
  qed
  have len: "length (ring_items st ?h' (?c - 1)) = ?c - 1" by simp
  have "ring_items (st[(?h' + (?c - 1)) mod ?c := x]) ?h' (Suc (?c - 1)) =
      ring_items st ?h' (?c - 1) @ [x]"
    using assms by (intro ring_items_append) simp
  then show ?thesis
    using idx ring_items_tl [of ?c st h] assms by simp
qed

lemma ring_items_update:
  assumes "j < n" "n \<le> length st"
  shows "ring_items (st[(h + j) mod length st := y]) h n = (ring_items st h n)[j := y]"
proof (rule nth_equalityI)
  fix i assume "i < length (ring_items (st[(h + j) mod length st := y]) h n)"
  then have i: "i < n" by simp
  have "(h + j) mod length st = (h + i) mod length st \<longleftrightarrow> j = i"
    using ring_index_inj [of j "length st" i h] assms i by auto
  moreover have "(h + i) mod length st < length st"
    using assms i by (intro mod_less_divisor) linarith
  ultimately show "ring_items (st[(h + j) mod length st := y]) h n ! i =
      (ring_items st h n)[j := y] ! i"
    using i assms by (auto simp: nth_ring_items nth_list_update)
qed simp

section \<open>Keeping the newest entries\<close>

definition keep_newest :: "nat \<Rightarrow> 'a list \<Rightarrow> 'a list" where
  "keep_newest c xs = drop (length xs - c) xs"

lemma length_keep_newest: "length (keep_newest c xs) = min c (length xs)"
  by (simp add: keep_newest_def)

lemma keep_newest_id: "length xs \<le> c \<Longrightarrow> keep_newest c xs = xs"
  by (simp add: keep_newest_def)

lemma keep_newest_full: "length xs = c \<Longrightarrow> 0 < c \<Longrightarrow> keep_newest c (xs @ [x]) = tl xs @ [x]"
  by (cases xs) (simp_all add: keep_newest_def)

lemma keep_newest_append: "keep_newest c (keep_newest c xs @ ys) = keep_newest c (xs @ ys)"
proof (cases "length xs \<le> c")
  case True
  then show ?thesis by (simp add: keep_newest_id)
next
  case False
  then show ?thesis by (auto simp: keep_newest_def add.commute)
qed

lemma set_keep_newest: "set (keep_newest c xs) \<subseteq> set xs"
  by (simp add: keep_newest_def set_drop_subset)

section \<open>The contract of an overwriting log\<close>

locale bounded_log =
  fixes items :: "'r \<Rightarrow> 'a list"
    and capacity :: "'r \<Rightarrow> nat"
    and push :: "'r \<Rightarrow> 'a \<Rightarrow> 'r"
    and invar :: "'r \<Rightarrow> bool"
  assumes items_bound: "invar r \<Longrightarrow> length (items r) \<le> capacity r"
    and invar_push: "invar r \<Longrightarrow> invar (push r x)"
    and capacity_push: "invar r \<Longrightarrow> capacity (push r x) = capacity r"
    and items_push: "invar r \<Longrightarrow> items (push r x) = keep_newest (capacity r) (items r @ [x])"
begin

lemma invar_pushes: "invar r \<Longrightarrow> invar (foldl push r xs)"
  by (induction xs arbitrary: r) (simp_all add: invar_push)

lemma capacity_pushes: "invar r \<Longrightarrow> capacity (foldl push r xs) = capacity r"
  by (induction xs arbitrary: r) (simp_all add: invar_push capacity_push)

lemma items_pushes:
  "invar r \<Longrightarrow> items (foldl push r xs) = keep_newest (capacity r) (items r @ xs)"
proof (induction xs arbitrary: r)
  case Nil
  then show ?case by (simp add: keep_newest_id items_bound)
next
  case (Cons x xs)
  then show ?case
    by (simp add: invar_push capacity_push items_push keep_newest_append)
qed

lemma newest_kept: "invar r \<Longrightarrow> 0 < capacity r \<Longrightarrow> last (items (push r x)) = x"
  by (simp add: items_push keep_newest_def)

lemma size_push:
  "invar r \<Longrightarrow> length (items (push r x)) = min (capacity r) (Suc (length (items r)))"
  by (simp add: items_push length_keep_newest)

end

end
