(* ===== verification/Checked.thy ===== *)
theory Checked
  imports Prelude
begin

text \<open>
  Checked arithmetic (\<^verbatim>\<open>src/core/Checked.cpp\<close>). Every quantity that comes from
  outside goes through these functions: overflow is a reported absence of a value, never
  a wrapped value. \<^verbatim>\<open>std::size_t\<close> is taken to be 64 bits wide, as on every
  target the repository names.
\<close>

section \<open>Operations\<close>

definition add_u64 :: "u64 \<Rightarrow> u64 \<Rightarrow> u64 option" where
  "add_u64 a b = (if a > u64_max - b then None else Some (a + b))"

definition sub_u64 :: "u64 \<Rightarrow> u64 \<Rightarrow> u64 option" where
  "sub_u64 a b = (if b > a then None else Some (a - b))"

definition mul_u64 :: "u64 \<Rightarrow> u64 \<Rightarrow> u64 option" where
  "mul_u64 a b =
     (if a = 0 \<or> b = 0 then Some 0
      else if a > u64_max div b then None
      else Some (a * b))"

definition div_ceil_u64 :: "u64 \<Rightarrow> u64 \<Rightarrow> u64 option" where
  "div_ceil_u64 a b =
     (if b = 0 then None
      else let quotient = a div b; remainder = a mod b
           in if remainder = 0 then Some quotient else add_u64 quotient 1)"

definition add_i64 :: "i64 \<Rightarrow> i64 \<Rightarrow> i64 option" where
  "add_i64 a b =
     (if b > 0 \<and> a > wrap_i64 (i64_max - b) then None
      else if b < 0 \<and> a < wrap_i64 (i64_min - b) then None
      else Some (wrap_i64 (a + b)))"

definition sub_i64 :: "i64 \<Rightarrow> i64 \<Rightarrow> i64 option" where
  "sub_i64 a b =
     (if b = i64_min
      then (if a \<ge> 0 then None else add_i64 (wrap_i64 (a + i64_max)) 1)
      else add_i64 a (wrap_i64 (- b)))"

definition mul_i64 :: "i64 \<Rightarrow> i64 \<Rightarrow> i64 option" where
  "mul_i64 a b =
     (if a = 0 \<or> b = 0 then Some 0
      else if a = - 1 \<and> b = i64_min then None
      else if b = - 1 \<and> a = i64_min then None
      else let r = wrap_i64 (a * b)
           in if cdiv r b \<noteq> a then None else Some r)"

definition fits_size_t :: "u64 \<Rightarrow> bool" where
  "fits_size_t v \<longleftrightarrow> v \<le> u64_max"

definition to_size :: "u64 \<Rightarrow> nat option" where
  "to_size v = (if \<not> fits_size_t v then None else Some (unat v))"

definition narrow_u :: "u64 \<Rightarrow> 'a::len word option" where
  "narrow_u v = (if unat v > 2 ^ LENGTH('a) - 1 then None else Some (ucast v))"

definition checked_add :: "u64 \<Rightarrow> u64 \<Rightarrow> string \<Rightarrow> u64 result" where
  "checked_add a b ctx =
     (case add_u64 a b of
        None \<Rightarrow> Inl (failure Overflow (ctx @ '': addition overflow''))
      | Some s \<Rightarrow> Inr s)"

definition checked_mul :: "u64 \<Rightarrow> u64 \<Rightarrow> string \<Rightarrow> u64 result" where
  "checked_mul a b ctx =
     (case mul_u64 a b of
        None \<Rightarrow> Inl (failure Overflow (ctx @ '': multiplication overflow''))
      | Some p \<Rightarrow> Inr p)"

definition checked_size :: "u64 \<Rightarrow> string \<Rightarrow> nat result" where
  "checked_size v ctx =
     (case to_size v of
        None \<Rightarrow> Inl (failure OutOfRange (ctx @ '': value does not fit in size_t''))
      | Some s \<Rightarrow> Inr s)"

definition clamp :: "'a::linorder \<Rightarrow> 'a \<Rightarrow> 'a \<Rightarrow> 'a" where
  "clamp v low high = (if v < low then low else if v > high then high else v)"

section \<open>Unsigned operations are exact or absent\<close>

lemma unat_u64_max_minus: "unat (u64_max - b) = 18446744073709551615 - unat b"
  by (simp add: unat_sub unat_u64_max)

lemma add_u64_eq:
  "add_u64 a b = (if unat a + unat b < 2 ^ 64 then Some (a + b) else None)"
proof -
  have "18446744073709551615 - unat b < unat a \<longleftrightarrow> \<not> unat a + unat b < 18446744073709551616"
    using unat_u64_bound [of a] unat_u64_bound [of b] by arith
  then show ?thesis
    by (simp add: add_u64_def word_less_nat_alt unat_u64_max_minus)
qed

lemma add_u64_Some: "add_u64 a b = Some c \<longleftrightarrow> unat c = unat a + unat b"
proof
  assume "add_u64 a b = Some c"
  then show "unat c = unat a + unat b"
    by (auto simp: add_u64_eq unat_word_ariths split: if_splits)
next
  assume c: "unat c = unat a + unat b"
  then have lt: "unat a + unat b < 2 ^ 64"
    using unat_u64_bound [of c] by simp
  then have "unat (a + b) = unat a + unat b"
    by (simp add: unat_word_ariths)
  with c have "c = a + b" by (metis word_unat_eq_iff)
  with lt show "add_u64 a b = Some c" by (simp add: add_u64_eq)
qed

lemma sub_u64_Some: "sub_u64 a b = Some c \<longleftrightarrow> unat b \<le> unat a \<and> unat c = unat a - unat b"
  by (auto simp: sub_u64_def word_less_nat_alt unat_sub word_le_nat_alt word_unat_eq_iff)

lemma mul_u64_bound:
  assumes "b \<noteq> 0"
  shows "a > u64_max div b \<longleftrightarrow> \<not> unat a * unat b < 2 ^ 64"
proof -
  have b: "0 < unat b" using assms by (simp add: unat_gt_0)
  have "a > u64_max div b \<longleftrightarrow> 18446744073709551615 div unat b < unat a"
    by (simp add: word_less_nat_alt unat_div unat_u64_max)
  also have "\<dots> \<longleftrightarrow> 18446744073709551615 < unat a * unat b"
    using b by (simp add: div_less_iff_less_mult)
  finally show ?thesis by auto
qed

lemma mul_u64_eq:
  "mul_u64 a b = (if unat a * unat b < 2 ^ 64 then Some (a * b) else None)"
  using mul_u64_bound [of b a] by (auto simp: mul_u64_def)

lemma mul_u64_Some: "mul_u64 a b = Some c \<longleftrightarrow> unat c = unat a * unat b"
proof
  assume "mul_u64 a b = Some c"
  then show "unat c = unat a * unat b"
    by (auto simp: mul_u64_eq unat_word_ariths split: if_splits)
next
  assume c: "unat c = unat a * unat b"
  then have lt: "unat a * unat b < 2 ^ 64"
    using unat_u64_bound [of c] by simp
  then have "unat (a * b) = unat a * unat b"
    by (simp add: unat_word_ariths)
  with c have "c = a * b" by (metis word_unat_eq_iff)
  with lt show "mul_u64 a b = Some c" by (simp add: mul_u64_eq)
qed

lemma div_ceil_nat: "0 < b \<Longrightarrow> (if a mod b = 0 then a div b else a div b + 1) = (a + b - 1) div (b::nat)"
proof -
  assume b: "0 < b"
  have "a + b - 1 = (a mod b + b - 1) + (a div b) * b"
    using b mult_div_mod_eq [of b a] by (simp add: mult.commute)
  then have "(a + b - 1) div b = (a mod b + b - 1) div b + a div b"
    using b by (simp only: div_mult_self1)
  also have "(a mod b + b - 1) div b = (if a mod b = 0 then 0 else 1)"
  proof (cases "a mod b = 0")
    case False
    have "a mod b - 1 < b" using mod_less_divisor [OF b, of a] by simp
    moreover have "a mod b + b - 1 = (a mod b - 1) + b" using False by simp
    ultimately have "(a mod b + b - 1) div b = 1" using b by (simp only: div_add_self2) simp
    with False show ?thesis by simp
  qed (use b in simp)
  finally show ?thesis by simp
qed

lemma div_ceil_u64_Some:
  assumes "b \<noteq> 0"
  shows "\<exists>q. div_ceil_u64 a b = Some q \<and> unat q = (unat a + unat b - 1) div unat b"
proof -
  have b: "0 < unat b" using assms by (simp add: unat_gt_0)
  have rem: "a mod b = 0 \<longleftrightarrow> unat a mod unat b = 0"
    by (metis unat_mod unat_0_iff)
  show ?thesis
  proof (cases "unat a mod unat b = 0")
    case True
    then show ?thesis
      using assms rem div_ceil_nat [OF b, of "unat a"]
      by (auto simp: div_ceil_u64_def unat_div)
  next
    case False
    then have "unat b \<noteq> 1" "0 < unat a" by (auto intro: gr0I)
    then have "unat a div unat b < unat a"
      using b by (intro div_less_dividend) linarith+
    then have lt: "unat a div unat b + 1 < 18446744073709551616"
      using unat_u64_bound [of a] by linarith
    then have "add_u64 (a div b) 1 = Some (a div b + 1)"
      by (simp add: add_u64_eq unat_div)
    moreover have "unat (a div b + 1) = unat a div unat b + 1"
      using lt by (simp add: unat_word_ariths unat_div)
    ultimately show ?thesis
      using False assms rem div_ceil_nat [OF b, of "unat a"]
      by (auto simp: div_ceil_u64_def)
  qed
qed

section \<open>Signed operations are exact or absent\<close>

lemma add_i64_eq:
  assumes "is_i64 a" "is_i64 b"
  shows "add_i64 a b = (if is_i64 (a + b) then Some (a + b) else None)"
proof -
  have "b > 0 \<Longrightarrow> wrap_i64 (i64_max - b) = i64_max - b"
    and "b < 0 \<Longrightarrow> wrap_i64 (i64_min - b) = i64_min - b"
    using assms by (auto intro!: wrap_i64_id simp: is_i64_def i64_min_def i64_max_def)
  then show ?thesis
    using assms wrap_i64_id [of "a + b"]
    by (auto simp: add_i64_def is_i64_def)
qed

lemma sub_i64_eq:
  assumes "is_i64 a" "is_i64 b"
  shows "sub_i64 a b = (if is_i64 (a - b) then Some (a - b) else None)"
proof (cases "b = i64_min")
  case True
  show ?thesis
  proof (cases "a \<ge> 0")
    case False
    have r: "is_i64 (a + i64_max)" "is_i64 1" "is_i64 (a + i64_max + 1)"
      using False assms by (auto simp: is_i64_def i64_min_def i64_max_def)
    have eq: "a + i64_max + 1 = a - b" using True by (simp add: i64_min_def i64_max_def)
    have "sub_i64 a b = Some (a + i64_max + 1)"
      using r False True by (simp add: sub_i64_def wrap_i64_id add_i64_eq)
    with r(3) show ?thesis unfolding eq by simp
  qed (use True in \<open>simp add: sub_i64_def is_i64_def i64_min_def i64_max_def\<close>)
next
  case False
  then have "is_i64 (- b)" using assms by (auto simp: is_i64_def i64_min_def i64_max_def)
  with False assms show ?thesis
    by (simp add: sub_i64_def wrap_i64_id add_i64_eq)
qed

lemma cdiv_remainder: "b \<noteq> 0 \<Longrightarrow> \<bar>r - cdiv r b * b\<bar> < \<bar>b\<bar>"
proof -
  assume b: "b \<noteq> 0"
  have "r - cdiv r b * b = sgn r * (\<bar>r\<bar> - (\<bar>r\<bar> div \<bar>b\<bar>) * \<bar>b\<bar>)"
    by (simp add: cdiv_def algebra_simps sgn_mult_abs mult_sgn_abs abs_sgn)
  also have "\<dots> = sgn r * (\<bar>r\<bar> mod \<bar>b\<bar>)"
    by (simp add: minus_div_mult_eq_mod)
  finally have "\<bar>r - cdiv r b * b\<bar> \<le> \<bar>r\<bar> mod \<bar>b\<bar>"
    using b by (auto simp: abs_mult sgn_if)
  then show ?thesis
    using b pos_mod_bound [of "\<bar>b\<bar>" "\<bar>r\<bar>"] by linarith
qed

lemma wrap_i64_cong: "\<exists>k. wrap_i64 x = x + k * 2 ^ 64"
proof -
  have "wrap_i64 x = x + (- ((x + 2 ^ 63) div 2 ^ 64)) * 2 ^ 64"
    unfolding wrap_i64_def using minus_div_mult_eq_mod [of "x + 2 ^ 63" "2 ^ 64", symmetric]
    by (simp add: algebra_simps)
  then show ?thesis by blast
qed

lemma mul_i64_eq:
  assumes "is_i64 a" "is_i64 b"
  shows "mul_i64 a b = (if is_i64 (a * b) then Some (a * b) else None)"
proof (cases "a = 0 \<or> b = 0")
  case True
  then show ?thesis by (auto simp: mul_i64_def is_i64_def i64_min_def i64_max_def)
next
  case False
  show ?thesis
  proof (cases "is_i64 (a * b)")
    case True
    then have "\<not> (a = - 1 \<and> b = i64_min)" "\<not> (b = - 1 \<and> a = i64_min)"
      by (auto simp: is_i64_def i64_min_def i64_max_def)
    moreover have "cdiv (a * b) b = a"
      using False by (simp add: cdiv_def abs_mult sgn_mult mult.assoc) (simp add: sgn_if)
    ultimately show ?thesis
      using False True by (auto simp: mul_i64_def wrap_i64_id Let_def)
  next
    case out: False
    have "cdiv (wrap_i64 (a * b)) b \<noteq> a"
    proof
      assume eq: "cdiv (wrap_i64 (a * b)) b = a"
      obtain k where k: "wrap_i64 (a * b) = a * b + k * 2 ^ 64"
        using wrap_i64_cong by blast
      have "\<bar>wrap_i64 (a * b) - a * b\<bar> < \<bar>b\<bar>"
        using cdiv_remainder [of b "wrap_i64 (a * b)"] False eq by simp
      moreover have "\<bar>b\<bar> \<le> 2 ^ 63"
        using assms by (auto simp: is_i64_def i64_min_def i64_max_def)
      ultimately have "k = 0" using k by (cases "k = 0") auto
      with k wrap_i64_range [of "a * b"] out show False by simp
    qed
    with False out show ?thesis by (simp add: mul_i64_def Let_def)
  qed
qed

lemma narrow_u_Some:
  "narrow_u v = Some (w :: 'a::len word) \<Longrightarrow> unat w = unat v"
proof -
  assume "narrow_u v = Some w"
  then have v: "unat v \<le> 2 ^ LENGTH('a) - 1" and w: "w = ucast v"
    by (auto simp: narrow_u_def split: if_splits)
  have "unat v < 2 ^ LENGTH('a)"
    using v le_less_trans [of "unat v" "2 ^ LENGTH('a) - 1" "2 ^ LENGTH('a)"] by simp
  then show ?thesis by (simp add: w unsigned_ucast_eq take_bit_nat_eq_self)
qed

lemma clamp_range: "low \<le> high \<Longrightarrow> low \<le> clamp v low high \<and> clamp v low high \<le> high"
  by (auto simp: clamp_def)

section \<open>Properties\<close>

text \<open>The checked unsigned operations return a value exactly when the mathematical
  result fits in 64 bits, and then it is that result; ceiling division by a non-zero
  divisor always returns the rounded-up quotient.\<close>

theorem checked_unsigned_exact:
  "add_u64 a b = (if unat a + unat b < 2 ^ 64 then Some (of_nat (unat a + unat b)) else None) \<and>
   sub_u64 a b = (if unat b \<le> unat a then Some (of_nat (unat a - unat b)) else None) \<and>
   mul_u64 a b = (if unat a * unat b < 2 ^ 64 then Some (of_nat (unat a * unat b)) else None) \<and>
   div_ceil_u64 a b =
     (if b = 0 then None else Some (of_nat ((unat a + unat b - 1) div unat b)))"
proof (intro conjI)
  show "add_u64 a b = (if unat a + unat b < 2 ^ 64 then Some (of_nat (unat a + unat b)) else None)"
    by (simp add: add_u64_eq)
  show "sub_u64 a b = (if unat b \<le> unat a then Some (of_nat (unat a - unat b)) else None)"
    by (simp add: sub_u64_def word_less_nat_alt of_nat_diff not_le)
  show "mul_u64 a b = (if unat a * unat b < 2 ^ 64 then Some (of_nat (unat a * unat b)) else None)"
    by (simp add: mul_u64_eq)
  show "div_ceil_u64 a b =
      (if b = 0 then None else Some (of_nat ((unat a + unat b - 1) div unat b)))"
  proof (cases "b = 0")
    case False
    from div_ceil_u64_Some [OF this, of a] obtain q
      where "div_ceil_u64 a b = Some q" "unat q = (unat a + unat b - 1) div unat b" by blast
    then have "q = of_nat ((unat a + unat b - 1) div unat b)" by (metis of_nat_unat ucast_id)
    with False \<open>div_ceil_u64 a b = Some q\<close> show ?thesis by simp
  qed (simp add: div_ceil_u64_def)
qed

text \<open>On 64-bit signed operands the checked signed operations return a value exactly
  when the mathematical result is representable, and then it is that result, provided the
  multiplication wraps (the source multiplies before it checks).\<close>

theorem checked_signed_exact:
  assumes "is_i64 a" "is_i64 b"
  shows "add_i64 a b = (if is_i64 (a + b) then Some (a + b) else None) \<and>
    sub_i64 a b = (if is_i64 (a - b) then Some (a - b) else None) \<and>
    mul_i64 a b = (if is_i64 (a * b) then Some (a * b) else None)"
  using assms by (simp_all add: add_i64_eq sub_i64_eq mul_i64_eq)

theorem checked_signed_exact_witness:
  "add_i64 (2 ^ 63 - 1) 1 = None \<and> sub_i64 (- 5) (- (2 ^ 63)) = Some (2 ^ 63 - 5) \<and>
   mul_i64 (2 ^ 62) 4 = None"
  using checked_signed_exact [of "2 ^ 63 - 1" 1] checked_signed_exact [of "- 5" "- (2 ^ 63)"]
    checked_signed_exact [of "2 ^ 62" 4]
  by (simp add: is_i64_def i64_min_def i64_max_def)

end
