(* ===== verification/Crc32c.thy ===== *)
theory Crc32c
  imports Prelude
begin

unbundle bit_operations_syntax

text \<open>
  The CRC-32C integrity check (\<^verbatim>\<open>src/core/Crc32c.cpp\<close>): the compile-time table,
  the one-shot function and the incremental class. The reference definition is the
  bit-serial shift register; the lemmas show that the register is linear and invertible,
  from which the equivalence of the table-driven loop and the detection of a damaged byte
  follow.
\<close>

section \<open>Operations\<close>

definition kPolynomial :: u32 where "kPolynomial = 0x82F63B78"

text \<open>One round of the inner loop of the table constructor.\<close>

definition crc_shift :: "u32 \<Rightarrow> u32" where
  "crc_shift v = (if v AND 1 \<noteq> 0 then drop_bit 1 v XOR kPolynomial else drop_bit 1 v)"

definition table_entry :: "nat \<Rightarrow> u32" where
  "table_entry i = (crc_shift ^^ 8) (of_nat i)"

definition kTable :: "u32 list" where
  "kTable = map table_entry [0..<256]"

definition crc_step :: "u32 \<Rightarrow> u8 \<Rightarrow> u32" where
  "crc_step st b = kTable ! unat ((st XOR ucast b) AND 0xFF) XOR drop_bit 8 st"

definition crc32c :: "u8 list \<Rightarrow> u32" where
  "crc32c bs = NOT (foldl crc_step 0xFFFFFFFF bs)"

definition bytes_of_text :: "string \<Rightarrow> u8 list" where
  "bytes_of_text s = map of_char s"

definition crc32c_text :: "string \<Rightarrow> u32" where
  "crc32c_text s = crc32c (bytes_of_text s)"

record crc_state =
  crc_reg :: u32
  crc_count :: u64

definition crc_init :: crc_state where
  "crc_init = \<lparr>crc_reg = 0xFFFFFFFF, crc_count = 0\<rparr>"

definition crc_update :: "crc_state \<Rightarrow> u8 list \<Rightarrow> crc_state" where
  "crc_update c bs =
     c\<lparr>crc_reg := foldl crc_step (crc_reg c) bs,
       crc_count := crc_count c + of_nat (length bs)\<rparr>"

definition crc_update_text :: "crc_state \<Rightarrow> string \<Rightarrow> crc_state" where
  "crc_update_text c s = crc_update c (bytes_of_text s)"

definition crc_value :: "crc_state \<Rightarrow> u32" where
  "crc_value c = NOT (crc_reg c)"

section \<open>The bit-serial reference\<close>

definition crc_serial_byte :: "u32 \<Rightarrow> u8 \<Rightarrow> u32" where
  "crc_serial_byte st b = (crc_shift ^^ 8) (st XOR ucast b)"

definition crc32c_serial :: "u8 list \<Rightarrow> u32" where
  "crc32c_serial bs = NOT (foldl crc_serial_byte 0xFFFFFFFF bs)"

section \<open>The register is linear and invertible\<close>

lemma and_one_bit: "(v :: u32) AND 1 \<noteq> 0 \<longleftrightarrow> bit v 0"
  by (simp add: and_one_eq bit_0 odd_iff_mod_2_eq_one)

lemma drop_bit_xor_u32: "drop_bit n ((x :: u32) XOR y) = drop_bit n x XOR drop_bit n y"
  by (rule bit_eqI) (simp add: bit_simps)

lemma crc_shift_alt: "crc_shift v = drop_bit 1 v XOR (if bit v 0 then kPolynomial else 0)"
  by (simp add: crc_shift_def and_one_bit)

lemma crc_shift_xor: "crc_shift (x XOR y) = crc_shift x XOR crc_shift y"
proof (rule bit_eqI)
  fix n
  show "bit (crc_shift (x XOR y)) n \<longleftrightarrow> bit (crc_shift x XOR crc_shift y) n"
    by (cases "bit x 0"; cases "bit y 0"; auto simp: crc_shift_alt drop_bit_xor_u32 bit_xor_iff)
qed

lemma xor_cancel_right: "x XOR z = y XOR z \<longleftrightarrow> x = (y :: u32)"
  by (auto simp: bit_eq_iff bit_xor_iff)

lemma crc_shift_pow_xor: "(crc_shift ^^ n) (x XOR y) = (crc_shift ^^ n) x XOR (crc_shift ^^ n) y"
  by (induction n arbitrary: x y) (simp_all add: crc_shift_xor)

lemma crc_shift_pow_zeros:
  "(\<forall>i < n. \<not> bit x i) \<Longrightarrow> (crc_shift ^^ n) x = drop_bit n x"
proof (induction n)
  case (Suc n)
  then have "(crc_shift ^^ n) x = drop_bit n x" by simp
  moreover have "\<not> bit (drop_bit n x) 0" using Suc.prems by (simp add: bit_simps)
  ultimately have "crc_shift ((crc_shift ^^ n) x) = drop_bit 1 (drop_bit n x)"
    by (simp only: crc_shift_alt) simp
  then show ?case by simp
qed simp

lemma bit_255: "bit (0xFF :: u32) i \<longleftrightarrow> i < 8"
proof -
  have "(0xFF :: u32) = mask 8" by (simp add: mask_eq_exp_minus_1)
  then show ?thesis by (simp only: bit_mask_iff) auto
qed

lemma split_low_byte: "x = (x AND 0xFF) XOR (x AND NOT 0xFF)" for x :: u32
  by (rule bit_eqI) (auto simp: bit_simps bit_255)

lemma unat_low_byte: "unat ((x :: u32) AND 0xFF) < 256"
proof -
  have "x AND 0xFF \<le> 0xFF" by (rule word_and_le1)
  then have "unat (x AND 0xFF) \<le> unat (0xFF :: u32)" by (simp add: word_le_nat_alt)
  then show ?thesis by simp
qed

lemma drop_byte_xor: "drop_bit 8 ((st :: u32) XOR ucast (b :: u8)) = drop_bit 8 st"
  by (rule bit_eqI) (auto simp: bit_simps dest: bit_imp_le_length)

lemma crc_step_serial: "crc_step st b = crc_serial_byte st b"
proof -
  let ?x = "st XOR ucast b"
  have table: "kTable ! unat (?x AND 0xFF) = (crc_shift ^^ 8) (?x AND 0xFF)"
    using unat_low_byte [of ?x] by (simp add: kTable_def table_entry_def)
  have "(crc_shift ^^ 8) (?x AND NOT 0xFF) = drop_bit 8 (?x AND NOT 0xFF)"
    by (rule crc_shift_pow_zeros) (simp only: bit_and_iff bit_not_iff bit_255, simp)
  also have "\<dots> = drop_bit 8 ?x"
  proof (rule bit_eqI)
    fix n
    show "bit (drop_bit 8 (?x AND NOT 0xFF)) n \<longleftrightarrow> bit (drop_bit 8 ?x) n"
      using bit_imp_le_length [of ?x "8 + n"]
      by (simp only: bit_drop_bit_eq bit_and_iff bit_not_iff bit_255 o_apply possible_bit_word) auto
  qed
  also have "\<dots> = drop_bit 8 st" by (rule drop_byte_xor)
  finally show ?thesis
    using crc_shift_pow_xor [of 8 "?x AND 0xFF" "?x AND NOT 0xFF"] split_low_byte [of ?x]
    by (simp add: crc_step_def crc_serial_byte_def table)
qed

lemma crc_shift_inj: "crc_shift x = crc_shift y \<Longrightarrow> x = y"
proof -
  assume eq: "crc_shift x = crc_shift y"
  have top: "bit (crc_shift v) 31 \<longleftrightarrow> bit v 0" for v
    by (simp add: crc_shift_def and_one_bit kPolynomial_def bit_xor_iff bit_drop_bit_eq
        not_bit_length [where ?'a = 32, simplified])
  from eq top have low: "bit x 0 \<longleftrightarrow> bit y 0" by metis
  with eq have "drop_bit 1 x = drop_bit 1 y"
    by (simp add: crc_shift_alt xor_cancel_right split: if_splits)
  then have "bit (drop_bit 1 x) i \<longleftrightarrow> bit (drop_bit 1 y) i" for i by simp
  then have up: "bit x (Suc i) \<longleftrightarrow> bit y (Suc i)" for i
    by (simp add: bit_simps)
  show "x = y"
  proof (rule bit_eqI)
    fix n show "bit x n \<longleftrightarrow> bit y n" using low up by (cases n) auto
  qed
qed

lemma crc_shift_pow_inj: "(crc_shift ^^ n) x = (crc_shift ^^ n) y \<Longrightarrow> x = y"
  by (induction n) (auto dest: crc_shift_inj)

lemma crc_serial_state_inj: "crc_serial_byte s b = crc_serial_byte t b \<Longrightarrow> s = t"
  unfolding crc_serial_byte_def
  by (drule crc_shift_pow_inj) (simp add: xor_cancel_right)

lemma crc_serial_byte_inj: "crc_serial_byte s b = crc_serial_byte s c \<Longrightarrow> b = c"
proof -
  assume "crc_serial_byte s b = crc_serial_byte s c"
  then have "s XOR ucast b = s XOR (ucast c :: u32)"
    unfolding crc_serial_byte_def by (rule crc_shift_pow_inj)
  then have eq: "(ucast b :: u32) = ucast c"
    by (simp only: xor.commute [of s] xor_cancel_right)
  show "b = c"
  proof (rule bit_eqI)
    fix n assume "possible_bit TYPE(u8) n"
    then show "bit b n \<longleftrightarrow> bit c n"
      using arg_cong [OF eq, of "\<lambda>w. bit w n"] by (simp add: bit_simps)
  qed
qed

lemma crc_serial_suffix_inj:
  "foldl crc_serial_byte s bs = foldl crc_serial_byte t bs \<Longrightarrow> s = t"
  by (induction bs arbitrary: s t) (auto dest: crc_serial_state_inj)

lemma not_u32_inj: "NOT (x :: u32) = NOT y \<longleftrightarrow> x = y"
  by (metis bit.double_compl)

lemma crc32c_eq_serial: "crc32c bs = crc32c_serial bs"
proof -
  have "crc_step = crc_serial_byte" by (intro ext) (rule crc_step_serial)
  then show ?thesis by (simp add: crc32c_def crc32c_serial_def)
qed

lemma crc_state_updates:
  "crc_reg (foldl crc_update c chunks) = foldl crc_step (crc_reg c) (concat chunks)"
  by (induction chunks arbitrary: c) (simp_all add: crc_update_def)

lemma crc_bytes_updates:
  "crc_count (foldl crc_update c chunks) = crc_count c + of_nat (length (concat chunks))"
  by (induction chunks arbitrary: c) (simp_all add: crc_update_def)

section \<open>Properties\<close>

text \<open>C40: the table-driven checksum equals the bit-serial CRC-32C register on every byte
  sequence, and feeding the incremental object any split of the sequence gives the same
  value and counts every byte.\<close>

theorem crc32c_correct:
  "crc32c (concat chunks) = crc32c_serial (concat chunks) \<and>
   crc_value (foldl crc_update crc_init chunks) = crc32c (concat chunks) \<and>
   crc_count (foldl crc_update crc_init chunks) = of_nat (length (concat chunks))"
  by (simp add: crc32c_eq_serial [symmetric] crc_value_def crc_state_updates crc_bytes_updates
      crc_init_def crc32c_def)

text \<open>Damage confined to one byte is always detected: two sequences that differ in
  exactly one byte have different checksums.\<close>

theorem crc32c_detects_damaged_byte:
  "crc32c (pre @ b # post) = crc32c (pre @ c # post) \<longleftrightarrow> b = c"
proof
  assume "crc32c (pre @ b # post) = crc32c (pre @ c # post)"
  then have "foldl crc_serial_byte (foldl crc_serial_byte 0xFFFFFFFF pre) (b # post) =
      foldl crc_serial_byte (foldl crc_serial_byte 0xFFFFFFFF pre) (c # post)"
    by (simp add: crc32c_eq_serial crc32c_serial_def not_u32_inj)
  then show "b = c"
    by (auto dest!: crc_serial_suffix_inj intro: crc_serial_byte_inj)
qed simp

lemma crc32c_update:
  assumes "i < length bs" "b \<noteq> bs ! i"
  shows "crc32c (bs[i := b]) \<noteq> crc32c bs"
proof -
  have "bs[i := b] = take i bs @ b # drop (Suc i) bs" "bs = take i bs @ bs ! i # drop (Suc i) bs"
    using assms(1) by (simp_all add: upd_conv_take_nth_drop id_take_nth_drop)
  then show ?thesis using crc32c_detects_damaged_byte [of "take i bs" b "drop (Suc i) bs" "bs ! i"] assms(2) by simp
qed

end
