(* ===== verification/Text.thy ===== *)
theory Text
  imports Prelude
begin

unbundle bit_operations_syntax

text \<open>
  Text helpers (\<^verbatim>\<open>src/core/Text.cpp\<close>): prefix tests, trimming, splitting and
  joining, hexadecimal and JSON rendering, bounded display, the integer parsers that
  refuse overflow, and the FNV-1a digest. Characters are bytes; a test of the source on a
  \<^verbatim>\<open>char\<close> is a test on its code.
\<close>

section \<open>Operations\<close>

definition kHexDigits :: string where "kHexDigits = ''0123456789abcdef''"

definition is_digit :: "char \<Rightarrow> bool" where
  "is_digit c \<longleftrightarrow> 48 \<le> (of_char c :: nat) \<and> (of_char c :: nat) \<le> 57"

definition digit_value :: "char \<Rightarrow> nat" where
  "digit_value c = of_char c - 48"

definition starts_with :: "string \<Rightarrow> string \<Rightarrow> bool" where
  "starts_with v prefix \<longleftrightarrow> length v \<ge> length prefix \<and> take (length prefix) v = prefix"

definition ends_with :: "string \<Rightarrow> string \<Rightarrow> bool" where
  "ends_with v suffix \<longleftrightarrow>
     length v \<ge> length suffix \<and> drop (length v - length suffix) v = suffix"

definition is_blank :: "char \<Rightarrow> bool" where
  "is_blank c \<longleftrightarrow> c = CHR '' '' \<or> c = CHR 0x09 \<or> c = CHR 0x0D \<or> c = CHR 0x0A"

definition trim :: "string \<Rightarrow> string" where
  "trim v = rev (dropWhile is_blank (rev (dropWhile is_blank v)))"

definition lower_char :: "char \<Rightarrow> char" where
  "lower_char c =
     (if 65 \<le> (of_char c :: nat) \<and> (of_char c :: nat) \<le> 90 then char_of (of_char c - 65 + 97 :: nat) else c)"

definition to_lower_ascii :: "string \<Rightarrow> string" where
  "to_lower_ascii v = map lower_char v"

definition upper_char :: "char \<Rightarrow> char" where
  "upper_char c =
     (if 97 \<le> (of_char c :: nat) \<and> (of_char c :: nat) \<le> 122 then char_of (of_char c - 97 + 65 :: nat) else c)"

definition to_upper_ascii :: "string \<Rightarrow> string" where
  "to_upper_ascii v = map upper_char v"

function split :: "string \<Rightarrow> char \<Rightarrow> string list" where
  "split v sep =
     (if sep \<in> set v
      then takeWhile (\<lambda>c. c \<noteq> sep) v # split (tl (dropWhile (\<lambda>c. c \<noteq> sep) v)) sep
      else [v])"
  by pat_completeness auto
termination
proof (relation "measure (\<lambda>(v, sep). length v)")
  fix v :: string and sep
  assume "sep \<in> set v"
  then have "dropWhile (\<lambda>c. c \<noteq> sep) v \<noteq> []" by (simp add: dropWhile_eq_Nil_conv)
  then have "length (tl (dropWhile (\<lambda>c. c \<noteq> sep) v)) < length (dropWhile (\<lambda>c. c \<noteq> sep) v)"
    by (cases "dropWhile (\<lambda>c. c \<noteq> sep) v") auto
  also have "\<dots> \<le> length v" by (rule length_dropWhile_le)
  finally show "((tl (dropWhile (\<lambda>c. c \<noteq> sep) v), sep), v, sep) \<in> measure (\<lambda>(v, sep). length v)"
    by simp
qed simp

declare split.simps [simp del]

fun join :: "string list \<Rightarrow> string \<Rightarrow> string" where
  "join [] sep = []"
| "join [p] sep = p"
| "join (p # q # ps) sep = p @ sep @ join (q # ps) sep"

definition hex_digit :: "nat \<Rightarrow> char" where
  "hex_digit d = kHexDigits ! d"

definition to_hex_bytes :: "u8 list \<Rightarrow> string" where
  "to_hex_bytes bs =
     concat (map (\<lambda>b. [hex_digit (unat (drop_bit 4 b AND 0x0F)), hex_digit (unat (b AND 0x0F))]) bs)"

text \<open>The digits of the \<^verbatim>\<open>do ... while\<close> loop, least significant first.\<close>

function hex_digits_rev :: "u64 \<Rightarrow> string" where
  "hex_digits_rev v =
     hex_digit (unat (v AND 0x0F)) #
     (if drop_bit 4 v \<noteq> 0 then hex_digits_rev (drop_bit 4 v) else [])"
  by pat_completeness auto
termination
proof (relation "measure unat")
  fix v :: u64
  assume "drop_bit 4 v \<noteq> 0"
  then have "0 < unat (drop_bit 4 v)" by (simp add: unat_gt_0)
  moreover have "unat (drop_bit 4 v) = unat v div 16"
    by (simp add: drop_bit_eq_div unat_div)
  ultimately show "(drop_bit 4 v, v) \<in> measure unat" by simp
qed simp

declare hex_digits_rev.simps [simp del]

definition to_hex :: "u64 \<Rightarrow> nat \<Rightarrow> string" where
  "to_hex v min_digits =
     (let digits = hex_digits_rev v
      in rev (digits @ replicate (min_digits - length digits) (CHR ''0'')))"

definition escape_char :: "char \<Rightarrow> string" where
  "escape_char c =
     (if c = CHR 0x22 then [CHR 0x5C, CHR 0x22]
      else if c = CHR 0x5C then [CHR 0x5C, CHR 0x5C]
      else if c = CHR 0x08 then [CHR 0x5C, CHR ''b'']
      else if c = CHR 0x0C then [CHR 0x5C, CHR ''f'']
      else if c = CHR 0x0A then [CHR 0x5C, CHR ''n'']
      else if c = CHR 0x0D then [CHR 0x5C, CHR ''r'']
      else if c = CHR 0x09 then [CHR 0x5C, CHR ''t'']
      else if (of_char c :: nat) < 0x20
      then [CHR 0x5C] @ ''u00'' @ [hex_digit ((of_char c div 16) mod 16), hex_digit (of_char c mod 16)]
      else [c])"

definition escape_json :: "string \<Rightarrow> string" where
  "escape_json v = concat (map escape_char v)"

definition sanitize_for_display :: "string \<Rightarrow> nat \<Rightarrow> string" where
  "sanitize_for_display v limit =
     map (\<lambda>c. if (of_char c :: nat) < 0x20 \<or> (of_char c :: nat) = 0x7F then CHR ''.'' else c)
       (take (min (length v) limit) v)
     @ (if length v > limit then ''...'' else [])"

definition pad_right :: "string \<Rightarrow> nat \<Rightarrow> string" where
  "pad_right v width = (if length v < width then v @ replicate (width - length v) (CHR '' '') else v)"

definition pad_left :: "string \<Rightarrow> nat \<Rightarrow> string" where
  "pad_left v width = (if length v < width then replicate (width - length v) (CHR '' '') @ v else v)"

fun parse_u64_loop :: "u64 \<Rightarrow> string \<Rightarrow> u64 option" where
  "parse_u64_loop acc [] = Some acc"
| "parse_u64_loop acc (c # cs) =
     (if \<not> is_digit c then None
      else let digit = of_nat (digit_value c)
           in if acc > (u64_max - digit) div 10 then None
              else parse_u64_loop (acc * 10 + digit) cs)"

definition parse_u64 :: "string \<Rightarrow> u64 option" where
  "parse_u64 v = (if v = [] then None else parse_u64_loop 0 v)"

definition parse_i64 :: "string \<Rightarrow> i64 option" where
  "parse_i64 v =
     (case v of
        [] \<Rightarrow> None
      | c # cs \<Rightarrow>
          if c = CHR ''+'' then None
          else let negative = (c = CHR ''-''); digits = (if negative then cs else v)
               in if digits = [] then None
                  else case parse_u64 digits of
                    None \<Rightarrow> None
                  | Some magnitude \<Rightarrow>
                      let positive_limit = 2 ^ 63 - 1 :: u64
                      in if negative then
                           (if magnitude > positive_limit + 1 then None
                            else if magnitude = positive_limit + 1 then Some i64_min
                            else Some (- uint magnitude))
                         else if magnitude > positive_limit then None
                         else Some (uint magnitude))"

definition hex_value :: "char \<Rightarrow> nat option" where
  "hex_value c =
     (let n = of_char c :: nat
      in if 48 \<le> n \<and> n \<le> 57 then Some (n - 48)
         else if 97 \<le> n \<and> n \<le> 102 then Some (n - 97 + 10)
         else if 65 \<le> n \<and> n \<le> 70 then Some (n - 65 + 10)
         else None)"

fun parse_hex_loop :: "u64 \<Rightarrow> string \<Rightarrow> u64 option" where
  "parse_hex_loop acc [] = Some acc"
| "parse_hex_loop acc (c # cs) =
     (case hex_value c of
        None \<Rightarrow> None
      | Some d \<Rightarrow> parse_hex_loop (push_bit 4 acc OR of_nat d) cs)"

definition parse_hex_u64 :: "string \<Rightarrow> u64 option" where
  "parse_hex_u64 v =
     (let digits = (if starts_with v ''0x'' \<or> starts_with v ''0X'' then drop 2 v else v)
      in if digits = [] \<or> length digits > 16 then None else parse_hex_loop 0 digits)"

definition fnv1a64 :: "string \<Rightarrow> u64" where
  "fnv1a64 v = foldl (\<lambda>h c. (h XOR of_char c) * 1099511628211) 14695981039346656037 v"

section \<open>Decimal numbers\<close>

definition dec_value :: "string \<Rightarrow> nat" where
  "dec_value v = foldl (\<lambda>a c. a * 10 + digit_value c) 0 v"

lemma digit_value_lt: "is_digit c \<Longrightarrow> digit_value c < 10"
  unfolding is_digit_def digit_value_def by linarith

lemma digit_char_digit [simp]: "d < 10 \<Longrightarrow> is_digit (digit_char d)"
  by (simp add: is_digit_def digit_char_def of_char_of)

lemma digit_value_char [simp]: "d < 10 \<Longrightarrow> digit_value (digit_char d) = d"
  by (simp add: digit_value_def digit_char_def of_char_of)

lemma dec_fold_mono: "foldl (\<lambda>a c. a * 10 + digit_value c) a v \<ge> a"
proof (induction v arbitrary: a)
  case (Cons c v)
  have "a \<le> a * 10 + digit_value c" by simp
  also have "\<dots> \<le> foldl (\<lambda>a c. a * 10 + digit_value c) (a * 10 + digit_value c) v"
    by (rule Cons.IH)
  finally show ?case by simp
qed simp

lemma accumulator_guard:
  assumes "d < 10"
  shows "acc > (u64_max - of_nat d) div 10 \<longleftrightarrow> \<not> unat acc * 10 + d < 2 ^ 64"
proof -
  have "unat (of_nat d :: u64) = d"
    using assms by (simp add: unat_of_nat)
  then have "unat ((u64_max - of_nat d) div 10) = (18446744073709551615 - d) div 10"
    by (simp add: unat_div unat_sub unat_u64_max)
  moreover have "(18446744073709551615 - d) div 10 < unat acc \<longleftrightarrow>
      18446744073709551615 - d < unat acc * 10"
    by (simp add: div_less_iff_less_mult)
  ultimately show ?thesis
    using assms by (auto simp: word_less_nat_alt)
qed

lemma parse_u64_loop_eq:
  "parse_u64_loop acc v =
     (if list_all is_digit v \<and> foldl (\<lambda>a c. a * 10 + digit_value c) (unat acc) v < 2 ^ 64
      then Some (of_nat (foldl (\<lambda>a c. a * 10 + digit_value c) (unat acc) v)) else None)"
proof (induction v arbitrary: acc)
  case Nil
  then show ?case using unat_u64_bound [of acc] by simp
next
  case (Cons c v)
  show ?case
  proof (cases "is_digit c")
    case True
    let ?d = "digit_value c"
    note guard = accumulator_guard [OF digit_value_lt [OF True], of acc]
    show ?thesis
    proof (cases "unat acc * 10 + ?d < 2 ^ 64")
      case fits: True
      then have "unat (acc * 10 + of_nat ?d) = unat acc * 10 + ?d"
        using digit_value_lt [OF True]
        by (simp add: unat_word_ariths unat_of_nat mod_add_eq mod_mult_left_eq)
      with fits True guard Cons.IH show ?thesis by (simp add: Let_def)
    next
      case False
      then have "\<not> foldl (\<lambda>a c. a * 10 + digit_value c) (unat acc * 10 + ?d) v < 2 ^ 64"
        using dec_fold_mono [of "unat acc * 10 + ?d" v] by linarith
      with False True guard show ?thesis by (simp add: Let_def)
    qed
  qed simp
qed

lemma parse_u64_eq:
  "parse_u64 v =
     (if v \<noteq> [] \<and> list_all is_digit v \<and> dec_value v < 2 ^ 64 then Some (of_nat (dec_value v))
      else None)"
  by (simp add: parse_u64_def parse_u64_loop_eq dec_value_def)

lemma dec_nat_digits: "list_all is_digit (dec_nat n)"
proof (induction n rule: dec_nat.induct)
  case (1 n)
  then show ?case by (subst dec_nat.simps) simp
qed

lemma dec_value_dec_nat: "dec_value (dec_nat n) = n"
proof (induction n rule: dec_nat.induct)
  case (1 n)
  then show ?case by (subst dec_nat.simps) (auto simp: dec_value_def)
qed

lemma parse_dec_u64: "parse_u64 (dec_u64 w) = Some w"
  using unat_u64_bound [of w] by (simp add: parse_u64_eq dec_u64_def dec_nat_digits dec_value_dec_nat)

section \<open>Splitting\<close>

lemma split_no_sep: "sep \<notin> set v \<Longrightarrow> split v sep = [v]"
  by (simp add: split.simps)

lemma split_nonempty: "split v sep \<noteq> []"
  by (subst split.simps) simp

lemma split_append_sep: "sep \<notin> set v \<Longrightarrow> split (v @ sep # w) sep = v # split w sep"
  by (subst split.simps) (simp add: takeWhile_append dropWhile_append takeWhile_tail
      in_set_conv_decomp [symmetric] takeWhile_eq_all_conv [THEN iffD2]
      dropWhile_eq_Nil_conv [THEN iffD2])

lemma join_split: "join (split v sep) [sep] = v"
proof (induction v sep rule: split.induct)
  case (1 v sep)
  show ?case
  proof (cases "sep \<in> set v")
    case True
    obtain q qs where q: "split (tl (dropWhile (\<lambda>c. c \<noteq> sep) v)) sep = q # qs"
      using split_nonempty [of _ sep] by (meson neq_Nil_conv)
    have "dropWhile (\<lambda>c. c \<noteq> sep) v \<noteq> []"
      using True by (simp add: dropWhile_eq_Nil_conv)
    then have d: "dropWhile (\<lambda>c. c \<noteq> sep) v = sep # tl (dropWhile (\<lambda>c. c \<noteq> sep) v)"
      using hd_dropWhile [of "\<lambda>c. c \<noteq> sep" v] by (cases "dropWhile (\<lambda>c. c \<noteq> sep) v") auto
    have "join (split v sep) [sep] =
        takeWhile (\<lambda>c. c \<noteq> sep) v @ sep # tl (dropWhile (\<lambda>c. c \<noteq> sep) v)"
      using True 1 q by (subst split.simps) simp
    also have "\<dots> = v" by (metis d takeWhile_dropWhile_id)
    finally show ?thesis .
  qed (simp add: split_no_sep)
qed

section \<open>Rendering is bounded and printable\<close>

lemma sanitize_length: "length (sanitize_for_display v limit) \<le> limit + 3"
  by (simp add: sanitize_for_display_def)

lemma sanitize_printable:
  "c \<in> set (sanitize_for_display v limit) \<Longrightarrow> 0x20 \<le> (of_char c :: nat) \<and> (of_char c :: nat) \<noteq> 0x7F"
  by (auto simp: sanitize_for_display_def split: if_splits)

lemma length_pad_right: "length (pad_right v w) = max (length v) w"
  by (simp add: pad_right_def)

lemma length_pad_left: "length (pad_left v w) = max (length v) w"
  by (simp add: pad_left_def)

section \<open>Properties\<close>

text \<open>The decimal parser accepts exactly the non-empty digit strings whose value fits
  in 64 bits and returns that value, so it inverts the decimal rendering of every 64-bit
  value.\<close>

theorem parse_u64_correct:
  "parse_u64 v =
     (if v \<noteq> [] \<and> list_all is_digit v \<and> dec_value v < 2 ^ 64 then Some (of_nat (dec_value v))
      else None) \<and>
   parse_u64 (dec_u64 w) = Some w"
  using parse_u64_eq parse_dec_u64 by blast

end
