(* ===== verification/Identity.thy ===== *)
theory Identity
  imports Checked Text
begin

text \<open>
  Identities (\<^verbatim>\<open>src/core/StrongId.cpp\<close>, \<^verbatim>\<open>src/model/Identity.cpp\<close>).
  The tag types of the source keep identities apart at compile time; here an integral
  identity is a word of its width and a name identity is a string, and the tag survives
  where the code depends on it (\<^verbatim>\<open>StrongNameId<Tag>::create\<close>). Queue and port
  paths carry the lexicographic order of their \<^verbatim>\<open>operator<\<close>, an instance of
  \<open>linorder\<close>, because the store keeps its queues in a \<^verbatim>\<open>std::map\<close>.
\<close>

section \<open>Integral and name identities\<close>

definition kMaxIdentityLength :: nat where "kMaxIdentityLength = 128"

datatype name_tag =
  DeviceTag | PortTag | SchedulingClassTag | SourceTag | IncarnationTag | ClockDomainTag | QueueNameTag

definition strong_id_valid :: "'a::len word \<Rightarrow> bool" where
  "strong_id_valid v \<longleftrightarrow> v \<noteq> 0"

definition strong_id_to_string :: "'a::len word \<Rightarrow> string" where
  "strong_id_to_string v = dec_nat (unat v)"

definition strong_id_parse :: "string \<Rightarrow> 'a::len word option" where
  "strong_id_parse text =
     (case (if starts_with text ''0x'' \<or> starts_with text ''0X''
            then parse_hex_u64 text else parse_u64 text) of
        None \<Rightarrow> None
      | Some raw \<Rightarrow> if unat raw > 2 ^ LENGTH('a) - 1 then None else Some (ucast raw))"

definition is_control :: "char \<Rightarrow> bool" where
  "is_control c \<longleftrightarrow> (of_char c :: nat) < 0x20 \<or> (of_char c :: nat) = 0x7F"

definition kSeparator :: char where "kSeparator = CHR ''|''"

fun name_chars_check :: "name_tag \<Rightarrow> string \<Rightarrow> status option" where
  "name_chars_check tag [] = None"
| "name_chars_check tag (c # cs) =
     (if is_control c
      then Some (failure InvalidArgument ''identity must not contain control characters'')
      else if (tag = DeviceTag \<or> tag = PortTag) \<and> c = kSeparator
      then Some (failure InvalidArgument
             (''device and port names must not contain the queue path separator ''
              @ [CHR 0x27, kSeparator, CHR 0x27]))
      else name_chars_check tag cs)"

definition strong_name_create :: "name_tag \<Rightarrow> string \<Rightarrow> string result" where
  "strong_name_create tag text =
     (if text = [] then Inl (failure InvalidArgument ''identity must not be empty'')
      else if length text > kMaxIdentityLength
      then Inl (failure LimitExceeded
             (''identity exceeds the maximum length of '' @ dec_nat kMaxIdentityLength))
      else case name_chars_check tag text of Some e \<Rightarrow> Inl e | None \<Rightarrow> Inr text)"

definition strong_name_valid :: "string \<Rightarrow> bool" where
  "strong_name_valid v \<longleftrightarrow> v \<noteq> []"

section \<open>Queue and port paths\<close>

datatype queue_path = QueuePath (qp_device: string) (qp_port: string) (qp_queue: u32)

datatype port_path = PortPath (pp_device: string) (pp_port: string)

definition queue_path_valid :: "queue_path \<Rightarrow> bool" where
  "queue_path_valid p \<longleftrightarrow> strong_name_valid (qp_device p) \<and> strong_name_valid (qp_port p)"

definition port_path_valid :: "port_path \<Rightarrow> bool" where
  "port_path_valid p \<longleftrightarrow> strong_name_valid (pp_device p) \<and> strong_name_valid (pp_port p)"

definition empty_path :: queue_path where "empty_path = QueuePath [] [] 0"

definition queue_path_less :: "queue_path \<Rightarrow> queue_path \<Rightarrow> bool" where
  "queue_path_less l r =
     (if qp_device l \<noteq> qp_device r then qp_device l < qp_device r
      else if qp_port l \<noteq> qp_port r then qp_port l < qp_port r
      else qp_queue l < qp_queue r)"

definition port_path_less :: "port_path \<Rightarrow> port_path \<Rightarrow> bool" where
  "port_path_less l r =
     (if pp_device l \<noteq> pp_device r then pp_device l < pp_device r else pp_port l < pp_port r)"

definition queue_path_to_string :: "queue_path \<Rightarrow> string" where
  "queue_path_to_string p =
     qp_device p @ [kSeparator] @ qp_port p @ [kSeparator] @ strong_id_to_string (qp_queue p)"

definition port_path_to_string :: "port_path \<Rightarrow> string" where
  "port_path_to_string p = pp_device p @ [kSeparator] @ pp_port p"

definition queue_path_parse :: "string \<Rightarrow> queue_path result" where
  "queue_path_parse text =
     (case split text kSeparator of
        [d, p, q] \<Rightarrow>
          qobs_try_assign (strong_name_create DeviceTag d) (\<lambda>device.
          qobs_try_assign (strong_name_create PortTag p) (\<lambda>port.
          case strong_id_parse q of
            None \<Rightarrow> Inl (failure ParseError
                     ''the queue component of a path must be an unsigned integer'')
          | Some queue \<Rightarrow> Inr (QueuePath device port queue)))
      | _ \<Rightarrow> Inl (failure ParseError
               ''a queue path must have the form device/port/queue with exactly two separators''))"

section \<open>The order of paths\<close>

instantiation queue_path :: linorder
begin

definition less_queue_path :: "queue_path \<Rightarrow> queue_path \<Rightarrow> bool" where
  "less_queue_path = queue_path_less"

definition less_eq_queue_path :: "queue_path \<Rightarrow> queue_path \<Rightarrow> bool" where
  "less_eq_queue_path l r \<longleftrightarrow> \<not> queue_path_less r l"

instance
proof
  fix x y z :: queue_path
  show "x < y \<longleftrightarrow> x \<le> y \<and> \<not> y \<le> x"
    by (auto simp: less_queue_path_def less_eq_queue_path_def queue_path_less_def split: if_splits)
  show "x \<le> x"
    by (simp add: less_eq_queue_path_def queue_path_less_def)
  show "x \<le> y \<Longrightarrow> y \<le> z \<Longrightarrow> x \<le> z"
    by (force simp: less_eq_queue_path_def queue_path_less_def split: if_splits)
  show "x \<le> y \<Longrightarrow> y \<le> x \<Longrightarrow> x = y"
    by (cases x; cases y)
      (auto simp: less_eq_queue_path_def queue_path_less_def split: if_splits)
  show "x \<le> y \<or> y \<le> x"
    by (auto simp: less_eq_queue_path_def queue_path_less_def split: if_splits)
qed

end

instantiation port_path :: linorder
begin

definition less_port_path :: "port_path \<Rightarrow> port_path \<Rightarrow> bool" where
  "less_port_path = port_path_less"

definition less_eq_port_path :: "port_path \<Rightarrow> port_path \<Rightarrow> bool" where
  "less_eq_port_path l r \<longleftrightarrow> \<not> port_path_less r l"

instance
proof
  fix x y z :: port_path
  show "x < y \<longleftrightarrow> x \<le> y \<and> \<not> y \<le> x"
    by (auto simp: less_port_path_def less_eq_port_path_def port_path_less_def split: if_splits)
  show "x \<le> x"
    by (simp add: less_eq_port_path_def port_path_less_def)
  show "x \<le> y \<Longrightarrow> y \<le> z \<Longrightarrow> x \<le> z"
    by (force simp: less_eq_port_path_def port_path_less_def split: if_splits)
  show "x \<le> y \<Longrightarrow> y \<le> x \<Longrightarrow> x = y"
    by (cases x; cases y)
      (auto simp: less_eq_port_path_def port_path_less_def split: if_splits)
  show "x \<le> y \<or> y \<le> x"
    by (auto simp: less_eq_port_path_def port_path_less_def split: if_splits)
qed

end

section \<open>Names\<close>

definition name_ok :: "name_tag \<Rightarrow> string \<Rightarrow> bool" where
  "name_ok tag s \<longleftrightarrow> s \<noteq> [] \<and> length s \<le> kMaxIdentityLength \<and> (\<forall>c \<in> set s. \<not> is_control c) \<and>
     ((tag = DeviceTag \<or> tag = PortTag) \<longrightarrow> kSeparator \<notin> set s)"

lemma name_chars_check_None:
  "name_chars_check tag s = None \<longleftrightarrow>
     (\<forall>c \<in> set s. \<not> is_control c) \<and> ((tag = DeviceTag \<or> tag = PortTag) \<longrightarrow> kSeparator \<notin> set s)"
  by (induction s) auto

lemma strong_name_create_Inr: "strong_name_create tag s = Inr v \<longleftrightarrow> name_ok tag s \<and> v = s"
  using name_chars_check_None [of tag s]
  by (cases "name_chars_check tag s") (auto simp: strong_name_create_def name_ok_def)

lemma dec_nat_no_prefix:
  "\<not> starts_with (dec_nat n) ''0x'' \<and> \<not> starts_with (dec_nat n) ''0X''"
proof -
  have no: "CHR ''x'' \<notin> set (dec_nat n)" "CHR ''X'' \<notin> set (dec_nat n)"
    using dec_nat_digits [of n] by (auto simp: list_all_iff is_digit_def)
  have "set (take 2 (dec_nat n)) \<subseteq> set (dec_nat n)" by (rule set_take_subset)
  with no have "take 2 (dec_nat n) \<noteq> ''0x''" "take 2 (dec_nat n) \<noteq> ''0X''" by auto
  then show ?thesis by (simp add: starts_with_def numeral_2_eq_2)
qed

lemma dec_nat_no_separator: "kSeparator \<notin> set (dec_nat n)"
  using dec_nat_digits [of n] by (auto simp: list_all_iff is_digit_def kSeparator_def)

lemma strong_id_parse_to_string:
  fixes v :: u32
  shows "strong_id_parse (strong_id_to_string v) = Some v"
proof -
  have v: "unat v < 4294967296" using unsigned_less [of v, where ?'a = nat] by simp
  have "parse_u64 (dec_nat (unat v)) = Some (ucast v)"
    using v by (simp add: parse_u64_eq dec_nat_digits dec_value_dec_nat)
  moreover have "unat (ucast v :: u64) = unat v"
    using v by (simp add: unsigned_ucast_eq take_bit_nat_eq_self)
  moreover have "ucast (ucast v :: u64) = v"
    by (rule bit_eqI) (simp add: bit_simps)
  ultimately show ?thesis
    using v by (simp add: strong_id_parse_def strong_id_to_string_def dec_nat_no_prefix)
qed

lemma split_path:
  assumes "kSeparator \<notin> set d" "kSeparator \<notin> set p" "kSeparator \<notin> set q"
  shows "split (d @ [kSeparator] @ p @ [kSeparator] @ q) kSeparator = [d, p, q]"
  using assms by (simp add: split_append_sep split_no_sep)

section \<open>Properties\<close>

text \<open>The canonical text form of a queue path names exactly that path: it parses back
  to it whenever its device and port names are ones the constructor accepts; and every
  path the parser returns has such names, so parsing normalises a text once and for all.\<close>

theorem queue_path_round_trip:
  "(name_ok DeviceTag (qp_device p) \<and> name_ok PortTag (qp_port p) \<longrightarrow>
      queue_path_parse (queue_path_to_string p) = Inr p) \<and>
   (queue_path_parse t = Inr p \<longrightarrow>
      queue_path_valid p \<and> queue_path_parse (queue_path_to_string p) = Inr p)"
proof -
  have rt: "queue_path_parse (queue_path_to_string p) = Inr p"
    if "name_ok DeviceTag (qp_device p)" "name_ok PortTag (qp_port p)"
  proof -
    have "split (queue_path_to_string p) kSeparator =
        [qp_device p, qp_port p, strong_id_to_string (qp_queue p)]"
      unfolding queue_path_to_string_def using that
      by (intro split_path) (simp_all add: name_ok_def strong_id_to_string_def dec_nat_no_separator)
    moreover have "strong_name_create DeviceTag (qp_device p) = Inr (qp_device p)"
      "strong_name_create PortTag (qp_port p) = Inr (qp_port p)"
      using that by (simp_all add: strong_name_create_Inr)
    ultimately show ?thesis
      by (simp add: queue_path_parse_def qobs_try_assign_def strong_id_parse_to_string)
  qed
  have "name_ok DeviceTag (qp_device p) \<and> name_ok PortTag (qp_port p)"
    if "queue_path_parse t = Inr p"
    using that
    by (auto simp: queue_path_parse_def qobs_try_assign_def strong_name_create_Inr
        split: list.splits sum.splits option.splits)
  with rt show ?thesis by (auto simp: queue_path_valid_def strong_name_valid_def name_ok_def)
qed

theorem queue_path_round_trip_witness:
  "queue_path_parse (queue_path_to_string (QueuePath ''leaf-01'' ''ethernet1/1'' 3)) =
     Inr (QueuePath ''leaf-01'' ''ethernet1/1'' 3)"
  by (rule queue_path_round_trip
      [of "QueuePath ''leaf-01'' ''ethernet1/1'' 3", THEN conjunct1, THEN mp])
    (simp add: name_ok_def is_control_def kSeparator_def kMaxIdentityLength_def)

end
