(* ===== verification/Limits.thy ===== *)
theory Limits
  imports Prelude
begin

text \<open>
  Configuration limits (\<^verbatim>\<open>include/qobs/core/Limits.hpp\<close>,
  \<^verbatim>\<open>src/core/Limits.cpp\<close>): the six limit structures with their defaults and the
  validation that runs once when a component is constructed. The validators are chains of
  \<^verbatim>\<open>QOBS_TRY\<close>; the first violated requirement is the status they return.
\<close>

section \<open>Limit structures\<close>

record ingest_limits =
  max_batch_samples :: nat
  max_payload_bytes :: nat
  max_field_bytes :: nat
  max_json_depth :: nat
  max_json_nodes :: nat
  max_batch_queues :: nat
  max_batch_metadata :: nat

record history_limits =
  max_queues :: nat
  max_samples_per_queue :: nat
  max_history_bytes :: u64
  max_events_per_queue :: nat
  max_events_total :: nat
  max_windows_per_queue :: nat
  max_conflicts :: nat
  max_burst_records :: nat
  max_contention_records :: nat
  max_sources :: nat
  max_metadata_revisions :: nat

record query_limits =
  max_rows :: nat
  default_rows :: nat
  max_query_windows :: nat

record persistence_limits =
  max_segment_bytes :: u64
  max_segment_records :: u64
  max_record_bytes :: u64
  max_segments :: nat
  max_metadata_bytes :: u64

record runtime_limits =
  max_pending_batches :: nat
  max_pending_samples :: nat
  worker_threads :: nat
  max_deferred_records :: nat

record transport_limits =
  max_frame_bytes :: nat
  max_connections :: nat
  max_queued_frames :: nat
  max_connection_buffer_bytes :: nat

definition default_ingest_limits :: ingest_limits where
  "default_ingest_limits =
     \<lparr>max_batch_samples = 4096, max_payload_bytes = 8 * 1024 * 1024, max_field_bytes = 4096,
      max_json_depth = 24, max_json_nodes = 200000, max_batch_queues = 4096,
      max_batch_metadata = 1024\<rparr>"

definition default_history_limits :: history_limits where
  "default_history_limits =
     \<lparr>max_queues = 8192, max_samples_per_queue = 256, max_history_bytes = 128 * 1024 * 1024,
      max_events_per_queue = 512, max_events_total = 65536, max_windows_per_queue = 8,
      max_conflicts = 4096, max_burst_records = 4096, max_contention_records = 4096,
      max_sources = 512, max_metadata_revisions = 64\<rparr>"

definition default_query_limits :: query_limits where
  "default_query_limits = \<lparr>max_rows = 100000, default_rows = 1000, max_query_windows = 8\<rparr>"

definition default_persistence_limits :: persistence_limits where
  "default_persistence_limits =
     \<lparr>max_segment_bytes = 64 * 1024 * 1024, max_segment_records = 1000000,
      max_record_bytes = 1024 * 1024, max_segments = 8, max_metadata_bytes = 1024 * 1024\<rparr>"

definition default_runtime_limits :: runtime_limits where
  "default_runtime_limits =
     \<lparr>max_pending_batches = 256, max_pending_samples = 262144, worker_threads = 2,
      max_deferred_records = 4096\<rparr>"

definition default_transport_limits :: transport_limits where
  "default_transport_limits =
     \<lparr>max_frame_bytes = 8 * 1024 * 1024, max_connections = 32, max_queued_frames = 64,
      max_connection_buffer_bytes = 16 * 1024 * 1024\<rparr>"

section \<open>Validation\<close>

definition require_positive :: "u64 \<Rightarrow> string \<Rightarrow> status" where
  "require_positive v name =
     (if v = 0 then failure InvalidArgument (name @ '' must be non-zero'') else success)"

definition require_positive_size :: "nat \<Rightarrow> string \<Rightarrow> status" where
  "require_positive_size v name =
     (if v = 0 then failure InvalidArgument (name @ '' must be non-zero'') else success)"

definition require_le :: "nat \<Rightarrow> nat \<Rightarrow> string \<Rightarrow> string \<Rightarrow> status" where
  "require_le v limit name limit_name =
     (if v > limit then failure InvalidArgument (name @ '' must not exceed '' @ limit_name)
      else success)"

definition require_le_u64 :: "u64 \<Rightarrow> u64 \<Rightarrow> string \<Rightarrow> string \<Rightarrow> status" where
  "require_le_u64 v limit name limit_name =
     (if v > limit then failure InvalidArgument (name @ '' must not exceed '' @ limit_name)
      else success)"

definition validate_ingest_limits :: "ingest_limits \<Rightarrow> status" where
  "validate_ingest_limits l =
     qobs_try (require_positive_size (max_batch_samples l) ''max_batch_samples'')
    (qobs_try (require_positive_size (max_payload_bytes l) ''max_payload_bytes'')
    (qobs_try (require_positive_size (max_field_bytes l) ''max_field_bytes'')
    (qobs_try (require_positive_size (max_json_depth l) ''max_json_depth'')
    (qobs_try (require_positive_size (max_json_nodes l) ''max_json_nodes'')
    (qobs_try (require_positive_size (max_batch_queues l) ''max_batch_queues'')
    (qobs_try (require_positive_size (max_batch_metadata l) ''max_batch_metadata'')
    (qobs_try (require_le (max_json_depth l) 128 ''max_json_depth'' ''128'')
    (qobs_try (require_le (max_field_bytes l) (2 ^ 20) ''max_field_bytes'' ''1048576'')
     success))))))))"

definition validate_history_limits :: "history_limits \<Rightarrow> status" where
  "validate_history_limits l =
     qobs_try (require_positive_size (max_queues l) ''max_queues'')
    (qobs_try (require_positive_size (max_samples_per_queue l) ''max_samples_per_queue'')
    (qobs_try (require_positive_size (max_events_per_queue l) ''max_events_per_queue'')
    (qobs_try (require_positive_size (max_events_total l) ''max_events_total'')
    (qobs_try (require_positive_size (max_windows_per_queue l) ''max_windows_per_queue'')
    (qobs_try (require_positive_size (max_conflicts l) ''max_conflicts'')
    (qobs_try (require_positive_size (max_burst_records l) ''max_burst_records'')
    (qobs_try (require_positive_size (max_contention_records l) ''max_contention_records'')
    (qobs_try (require_positive_size (max_sources l) ''max_sources'')
    (qobs_try (require_positive_size (max_metadata_revisions l) ''max_metadata_revisions'')
    (qobs_try (require_positive (max_history_bytes l) ''max_history_bytes'')
    (qobs_try (require_le (max_events_per_queue l) (max_events_total l) ''max_events_per_queue''
                 ''max_events_total'')
    (qobs_try (require_le (max_samples_per_queue l) (2 ^ 20) ''max_samples_per_queue'' ''1048576'')
     success))))))))))))"

definition validate_query_limits :: "query_limits \<Rightarrow> status" where
  "validate_query_limits l =
     qobs_try (require_positive_size (max_rows l) ''max_rows'')
    (qobs_try (require_positive_size (default_rows l) ''default_rows'')
    (qobs_try (require_positive_size (max_query_windows l) ''max_query_windows'')
    (qobs_try (require_le (default_rows l) (max_rows l) ''default_rows'' ''max_rows'')
    (qobs_try (require_le (max_query_windows l) 32 ''max_query_windows'' ''32'')
     success))))"

definition validate_persistence_limits :: "persistence_limits \<Rightarrow> status" where
  "validate_persistence_limits l =
     qobs_try (require_positive (max_segment_bytes l) ''max_segment_bytes'')
    (qobs_try (require_positive (max_segment_records l) ''max_segment_records'')
    (qobs_try (require_positive (max_record_bytes l) ''max_record_bytes'')
    (qobs_try (require_positive_size (max_segments l) ''max_segments'')
    (qobs_try (require_positive (max_metadata_bytes l) ''max_metadata_bytes'')
    (qobs_try (require_le_u64 (max_record_bytes l) (max_segment_bytes l) ''max_record_bytes''
                 ''max_segment_bytes'')
    (qobs_try (require_le_u64 (max_metadata_bytes l) (max_segment_bytes l) ''max_metadata_bytes''
                 ''max_segment_bytes'')
    (qobs_try (require_le (max_segments l) 1024 ''max_segments'' ''1024'')
     success)))))))"

definition validate_runtime_limits :: "runtime_limits \<Rightarrow> status" where
  "validate_runtime_limits l =
     qobs_try (require_positive_size (max_pending_batches l) ''max_pending_batches'')
    (qobs_try (require_positive_size (max_pending_samples l) ''max_pending_samples'')
    (qobs_try (require_positive_size (max_deferred_records l) ''max_deferred_records'')
    (qobs_try (require_le (worker_threads l) 64 ''worker_threads'' ''64'')
    (qobs_try (require_le (max_pending_batches l) (2 ^ 20) ''max_pending_batches'' ''1048576'')
     success))))"

definition validate_transport_limits :: "transport_limits \<Rightarrow> status" where
  "validate_transport_limits l =
     qobs_try (require_positive_size (max_frame_bytes l) ''max_frame_bytes'')
    (qobs_try (require_positive_size (max_connections l) ''max_connections'')
    (qobs_try (require_positive_size (max_queued_frames l) ''max_queued_frames'')
    (qobs_try (require_positive_size (max_connection_buffer_bytes l) ''max_connection_buffer_bytes'')
    (qobs_try (require_le (max_connections l) 4096 ''max_connections'' ''4096'')
    (qobs_try (require_le (max_queued_frames l) (2 ^ 16) ''max_queued_frames'' ''65536'')
     success)))))"

section \<open>What validated limits guarantee\<close>

lemma require_ok [simp, status_simps]:
  "status_ok (require_positive v n) \<longleftrightarrow> v \<noteq> 0"
  "status_ok (require_positive_size k n) \<longleftrightarrow> k \<noteq> 0"
  "status_ok (require_le k m n n') \<longleftrightarrow> k \<le> m"
  "status_ok (require_le_u64 v w n n') \<longleftrightarrow> v \<le> w"
  by (auto simp: require_positive_def require_positive_size_def require_le_def require_le_u64_def)

lemma validate_history_limits_ok:
  assumes "status_ok (validate_history_limits l)"
  shows "0 < max_queues l" "0 < max_samples_per_queue l" "max_samples_per_queue l \<le> 2 ^ 20"
    "0 < max_events_total l" "0 < max_conflicts l" "0 < max_sources l"
  using assms by (simp_all add: validate_history_limits_def)

lemma validate_query_limits_ok:
  assumes "status_ok (validate_query_limits l)"
  shows "0 < max_rows l" "0 < default_rows l" "default_rows l \<le> max_rows l"
  using assms by (simp_all add: validate_query_limits_def)

lemma default_limits_valid:
  "status_ok (validate_ingest_limits default_ingest_limits)"
  "status_ok (validate_history_limits default_history_limits)"
  "status_ok (validate_query_limits default_query_limits)"
  "status_ok (validate_persistence_limits default_persistence_limits)"
  "status_ok (validate_runtime_limits default_runtime_limits)"
  "status_ok (validate_transport_limits default_transport_limits)"
  by (simp_all add: validate_ingest_limits_def validate_history_limits_def validate_query_limits_def
      validate_persistence_limits_def validate_runtime_limits_def validate_transport_limits_def
      default_ingest_limits_def default_history_limits_def default_query_limits_def
      default_persistence_limits_def default_runtime_limits_def default_transport_limits_def)

end
