(* ===== verification/Time.thy ===== *)
theory Time
  imports Checked Text Identity
begin

text \<open>
  Time (\<^verbatim>\<open>include/qobs/core/Time.hpp\<close>, \<^verbatim>\<open>src/core/Time.cpp\<close>): steady and
  wall instants in nanoseconds, observation times tagged with their clock domain, the
  refusal to compare across domains, the manual clock, and the text forms of instants.
  The system clocks are not modelled; a clock reading enters the model as a value.
\<close>

section \<open>Instants and clock domains\<close>

type_synonym nanos = i64

record receive_time =
  rt_steady :: nanos
  rt_wall :: nanos

record observation_time =
  ot_ns :: nanos
  ot_domain :: string

definition zero_receive :: receive_time where
  "zero_receive = \<lparr>rt_steady = 0, rt_wall = 0\<rparr>"

definition zero_observation :: observation_time where
  "zero_observation = \<lparr>ot_ns = 0, ot_domain = []\<rparr>"

definition observation_known :: "observation_time \<Rightarrow> bool" where
  "observation_known t \<longleftrightarrow> strong_name_valid (ot_domain t)"

datatype clock_comparability = Comparable | DifferentDomains | UnknownDomain

record time_comparison =
  tc_comparability :: clock_comparability
  tc_ordering :: int

definition tc_comparable :: "time_comparison \<Rightarrow> bool" where
  "tc_comparable c \<longleftrightarrow> tc_comparability c = Comparable"

definition compare_observation_times :: "observation_time \<Rightarrow> observation_time \<Rightarrow> time_comparison" where
  "compare_observation_times l r =
     (if \<not> strong_name_valid (ot_domain l) \<or> \<not> strong_name_valid (ot_domain r)
      then \<lparr>tc_comparability = UnknownDomain, tc_ordering = 0\<rparr>
      else if ot_domain l \<noteq> ot_domain r
      then \<lparr>tc_comparability = DifferentDomains, tc_ordering = 0\<rparr>
      else \<lparr>tc_comparability = Comparable,
            tc_ordering = (if ot_ns l < ot_ns r then - 1 else if ot_ns l > ot_ns r then 1 else 0)\<rparr>)"

fun comparability_text :: "clock_comparability \<Rightarrow> string" where
  "comparability_text Comparable = ''comparable''"
| "comparability_text DifferentDomains = ''different_domains''"
| "comparability_text UnknownDomain = ''unknown_domain''"

section \<open>The manual clock\<close>

record manual_clock =
  mc_steady :: nanos
  mc_wall :: nanos

definition manual_clock_new :: "nanos \<Rightarrow> manual_clock" where
  "manual_clock_new start = \<lparr>mc_steady = start, mc_wall = 0\<rparr>"

definition manual_clock_now :: "manual_clock \<Rightarrow> receive_time" where
  "manual_clock_now c = \<lparr>rt_steady = mc_steady c, rt_wall = mc_wall c\<rparr>"

definition manual_clock_advance :: "manual_clock \<Rightarrow> nanos \<Rightarrow> manual_clock" where
  "manual_clock_advance c delta =
     c\<lparr>mc_steady := wrap_i64 (mc_steady c + delta), mc_wall := wrap_i64 (mc_wall c + delta)\<rparr>"

definition manual_clock_set_steady :: "manual_clock \<Rightarrow> nanos \<Rightarrow> manual_clock" where
  "manual_clock_set_steady c v = c\<lparr>mc_steady := v\<rparr>"

definition manual_clock_set_wall :: "manual_clock \<Rightarrow> nanos \<Rightarrow> manual_clock" where
  "manual_clock_set_wall c v = c\<lparr>mc_wall := v\<rparr>"

section \<open>Civil dates and the text form of instants\<close>

definition days_from_civil :: "i64 \<Rightarrow> u32 \<Rightarrow> u32 \<Rightarrow> i64" where
  "days_from_civil year month day =
     (let year = year - (if month \<le> 2 then 1 else 0);
          era = cdiv (if year \<ge> 0 then year else year - 399) 400;
          year_of_era = word_of_int (year - era * 400) :: u32;
          day_of_year = (153 * (month + (if month > 2 then - 3 else 9)) + 2) div 5 + day - 1;
          day_of_era = year_of_era * 365 + year_of_era div 4 - year_of_era div 100 + day_of_year
      in era * 146097 + uint day_of_era - 719468)"

definition civil_from_days :: "i64 \<Rightarrow> i64 \<times> u32 \<times> u32" where
  "civil_from_days days =
     (let days = days + 719468;
          era = cdiv (if days \<ge> 0 then days else days - 146096) 146097;
          day_of_era = word_of_int (days - era * 146097) :: u32;
          year_of_era =
            (day_of_era - day_of_era div 1460 + day_of_era div 36524 - day_of_era div 146096) div 365;
          year = uint year_of_era + era * 400;
          day_of_year = day_of_era - (365 * year_of_era + year_of_era div 4 - year_of_era div 100);
          month_prime = (5 * day_of_year + 2) div 153;
          day = day_of_year - (153 * month_prime + 2) div 5 + 1;
          month = month_prime + (if month_prime < 10 then 3 else - 9)
      in (year + (if month \<le> 2 then 1 else 0), month, day))"

definition append_two :: "nat \<Rightarrow> string" where
  "append_two v = [digit_char ((v div 10) mod 10), digit_char (v mod 10)]"

definition kNanosPerSecond :: nanos where "kNanosPerSecond = 1000000000"

definition zero_fill :: "nat \<Rightarrow> string \<Rightarrow> string" where
  "zero_fill width s = replicate (width - length s) (CHR ''0'') @ s"

text \<open>The split of an instant into whole seconds and a non-negative fraction.\<close>

definition wall_fraction :: "nanos \<Rightarrow> nanos" where
  "wall_fraction tot =
     (let fraction = cmod tot kNanosPerSecond
      in if fraction < 0 then fraction + kNanosPerSecond else fraction)"

definition wall_seconds :: "nanos \<Rightarrow> nanos" where
  "wall_seconds tot =
     (if cmod tot kNanosPerSecond < 0 then cdiv tot kNanosPerSecond - 1
      else cdiv tot kNanosPerSecond)"

definition wall_second_of_day :: "nanos \<Rightarrow> nanos" where
  "wall_second_of_day tot =
     (let s = cmod (wall_seconds tot) 86400 in if s < 0 then s + 86400 else s)"

definition wall_days :: "nanos \<Rightarrow> i64" where
  "wall_days tot = cdiv (wall_seconds tot) 86400"

definition format_wall_utc :: "nanos \<Rightarrow> string" where
  "format_wall_utc tot =
     (let second_of_day = wall_second_of_day tot;
          (year, month, day) = civil_from_days (wall_days tot);
          hour = nat (cdiv second_of_day 3600);
          minute = nat (cdiv (cmod second_of_day 3600) 60);
          second = nat (cmod second_of_day 60)
      in (if year < 0 then ''-'' else []) @ zero_fill 4 (dec_nat (nat \<bar>year\<bar>)) @ ''-''
         @ append_two (unat month) @ ''-'' @ append_two (unat day) @ ''T''
         @ append_two hour @ '':'' @ append_two minute @ '':'' @ append_two second @ ''.''
         @ zero_fill 9 (dec_nat (nat (wall_fraction tot))) @ ''Z'')"

definition format_steady :: "nanos \<Rightarrow> string" where
  "format_steady v = ''steady+'' @ dec_int v @ ''ns''"

definition digits_at :: "string \<Rightarrow> nat \<Rightarrow> nat \<Rightarrow> nat option" where
  "digits_at body offset count =
     (let ds = take count (drop offset body)
      in if list_all is_digit ds then Some (dec_value ds) else None)"

definition parse_fraction :: "string \<Rightarrow> nat result" where
  "parse_fraction body =
     (if length body > 19 then
        if body ! 19 \<noteq> CHR ''.'' then
          Inl (failure ParseError ''expected a fractional-second separator'')
        else let fraction = drop 20 body in
          if fraction = [] \<or> length fraction > 9 then
            Inl (failure ParseError ''fractional seconds must have 1 to 9 digits'')
          else if \<not> list_all is_digit fraction then
            Inl (failure ParseError ''fractional seconds must be digits'')
          else Inr (dec_value fraction * 10 ^ (9 - length fraction))
      else Inr 0)"

definition scale_timestamp :: "i64 \<Rightarrow> i64 \<Rightarrow> nat \<Rightarrow> nanos result" where
  "scale_timestamp days seconds_of_day fraction_nanos =
     (let outside = Inl (failure Overflow ''timestamp is outside the supported range'')
      in case mul_i64 days 86400 of None \<Rightarrow> outside | Some total_seconds \<Rightarrow>
         case add_i64 total_seconds seconds_of_day of None \<Rightarrow> outside | Some with_day \<Rightarrow>
         case mul_i64 with_day kNanosPerSecond of None \<Rightarrow> outside | Some scaled \<Rightarrow>
         case add_i64 scaled (int fraction_nanos) of None \<Rightarrow> outside | Some t \<Rightarrow> Inr t)"

definition parse_wall_utc :: "string \<Rightarrow> nanos result" where
  "parse_wall_utc text =
     (if length text < 20 \<or> last text \<noteq> CHR ''Z'' then
        Inl (failure ParseError ''timestamp must end with Z (UTC designator)'')
      else let body = take (length text - 1) text in
      if length body < 19 then Inl (failure ParseError ''timestamp is too short'')
      else if body ! 4 \<noteq> CHR ''-'' \<or> body ! 7 \<noteq> CHR ''-'' \<or> body ! 10 \<noteq> CHR ''T''
              \<or> body ! 13 \<noteq> CHR '':'' \<or> body ! 16 \<noteq> CHR '':'' then
        Inl (failure ParseError ''timestamp separators are not in the expected positions'')
      else case (digits_at body 0 4, digits_at body 5 2, digits_at body 8 2,
                 digits_at body 11 2, digits_at body 14 2, digits_at body 17 2) of
        (Some year, Some month, Some day, Some hour, Some minute, Some second) \<Rightarrow>
          if month < 1 \<or> month > 12 \<or> day < 1 \<or> day > 31 \<or> hour > 23 \<or> minute > 59 \<or> second > 60
          then Inl (failure OutOfRange ''timestamp field is outside its valid range'')
          else qobs_try_assign (parse_fraction body) (\<lambda>fraction_nanos.
            scale_timestamp
              (days_from_civil (int year) (of_nat month) (of_nat day))
              (int hour * 3600 + int minute * 60 + int second) fraction_nanos)
      | _ \<Rightarrow> Inl (failure ParseError ''timestamp contains a non-digit in a numeric field''))"

definition parse_steady :: "string \<Rightarrow> nanos result" where
  "parse_steady text =
     (if \<not> starts_with text ''steady+'' \<or> \<not> ends_with text ''ns'' then
        Inl (failure ParseError ''steady timestamp must use the steady+<nanos>ns form'')
      else case parse_i64 (take (length text - 7 - 2) (drop 7 text)) of
        None \<Rightarrow> Inl (failure ParseError ''steady timestamp payload is not an integer'')
      | Some v \<Rightarrow> Inr v)"

section \<open>Lemmas\<close>

lemma compare_comparable_iff:
  "tc_comparable (compare_observation_times l r) \<longleftrightarrow>
     observation_known l \<and> observation_known r \<and> ot_domain l = ot_domain r"
  by (auto simp: compare_observation_times_def tc_comparable_def observation_known_def)

lemma compare_refused_ordering:
  "\<not> tc_comparable (compare_observation_times l r) \<Longrightarrow>
     tc_ordering (compare_observation_times l r) = 0"
  by (auto simp: compare_observation_times_def tc_comparable_def)

lemma cdiv_neg: "a < 0 \<Longrightarrow> 0 < b \<Longrightarrow> cdiv a b = - ((- a) div b)"
  by (simp add: cdiv_def)

lemma cmod_floor:
  assumes "0 < b"
  shows "(if cmod a b < 0 then cmod a b + b else cmod a b) = a mod b"
    and "(if cmod a b < 0 then cdiv a b - 1 else cdiv a b) = a div b"
proof -
  have neg: "cmod a b = - ((- a) mod b)" "cdiv a b = - ((- a) div b)" if "a < 0"
    using that assms minus_div_mult_eq_mod [of "- a" b] by (simp_all add: cmod_def cdiv_neg)
  have nonneg: "(- a) mod b = 0 \<or> 0 < (- a) mod b"
    using pos_mod_sign [OF assms, of "- a"] by linarith
  show "(if cmod a b < 0 then cmod a b + b else cmod a b) = a mod b"
    using assms neg zmod_zminus1_eq_if [of "- a" b] nonneg leD [OF pos_mod_sign [OF assms, of a]]
    by (cases "a < 0") (auto simp: cmod_nonneg)
  show "(if cmod a b < 0 then cdiv a b - 1 else cdiv a b) = a div b"
    using assms neg zdiv_zminus1_eq_if [of b "- a"] nonneg leD [OF pos_mod_sign [OF assms, of a]]
    by (cases "a < 0") (auto simp: cmod_nonneg cdiv_nonneg)
qed

lemma kNanos_pos: "0 < kNanosPerSecond"
  by (simp add: kNanosPerSecond_def)

lemma wall_split:
  "wall_seconds t = t div kNanosPerSecond" "wall_fraction t = t mod kNanosPerSecond"
  unfolding wall_seconds_def wall_fraction_def Let_def by (rule cmod_floor [OF kNanos_pos])+

lemma wall_fraction_range: "0 \<le> wall_fraction t \<and> wall_fraction t < kNanosPerSecond"
  by (simp add: wall_split kNanosPerSecond_def)

lemma wall_second_of_day_eq: "wall_second_of_day t = wall_seconds t mod 86400"
  unfolding wall_second_of_day_def Let_def by (rule cmod_floor) simp

lemma pre_epoch_seconds:
  assumes "- 86399 * kNanosPerSecond \<le> t" "t < 0"
  shows "- 86399 \<le> wall_seconds t" "wall_seconds t < 0"
proof -
  have "(- 86399 * kNanosPerSecond) div kNanosPerSecond \<le> t div kNanosPerSecond"
    using assms(1) kNanos_pos by (rule zdiv_mono1)
  moreover have "(- 86399 * kNanosPerSecond) div kNanosPerSecond = - 86399"
    using kNanos_pos by (intro nonzero_mult_div_cancel_right) simp
  ultimately show "- 86399 \<le> wall_seconds t" by (simp only: wall_split)
  show "wall_seconds t < 0"
    using assms(2) kNanos_pos by (simp add: wall_split div_neg_pos_less0)
qed

lemma wall_day_later:
  "wall_seconds (t + 86400 * kNanosPerSecond) = wall_seconds t + 86400"
  "wall_fraction (t + 86400 * kNanosPerSecond) = wall_fraction t"
  using kNanos_pos by (simp_all add: wall_split)

section \<open>Properties\<close>

text \<open>An instant of the last day before the epoch is rendered with the date of the
  following day: its text equals the text of the instant exactly one day later, although
  the text form is meant to identify the instant.\<close>

theorem format_wall_pre_epoch_off_by_one_day:
  assumes "- 86399 * kNanosPerSecond \<le> t" "t < 0"
  shows "format_wall_utc t = format_wall_utc (t + 86400 * kNanosPerSecond)"
proof -
  let ?u = "t + 86400 * kNanosPerSecond"
  note range = pre_epoch_seconds [OF assms]
  have "wall_days ?u = 0" "wall_days t = 0"
    using range by (simp_all add: wall_days_def wall_day_later cdiv_nonneg cdiv_neg)
  moreover have "wall_second_of_day ?u = wall_second_of_day t"
    by (simp add: wall_second_of_day_eq wall_day_later)
  ultimately show ?thesis by (simp add: format_wall_utc_def wall_day_later)
qed

theorem format_wall_pre_epoch_off_by_one_day_witness:
  "format_wall_utc (- 1) = format_wall_utc 86399999999999"
  using format_wall_pre_epoch_off_by_one_day [of "- 1"] by (simp add: kNanosPerSecond_def)

end
