(* ===== verification/Counter.thy ===== *)
theory Counter
  imports Time
begin

text \<open>
  Counter continuity (\<^verbatim>\<open>include/qobs/model/Counter.hpp\<close>,
  \<^verbatim>\<open>src/model/Counter.cpp\<close>): folding a raw reading of a device counter into the
  retained state, with every outcome named. The lemmas relate a claimed delta to the
  readings modulo the width of the counter; the run-level property relates the total the
  runtime claims to the progress of the device.
\<close>

section \<open>Data\<close>

datatype counter_width = Bits32 | Bits64

definition counter_modulus :: "counter_width \<Rightarrow> u64" where
  "counter_modulus w = (if w = Bits32 then 0x100000000 else 0)"

definition wraps_within_64_bits :: "counter_width \<Rightarrow> bool" where
  "wraps_within_64_bits w \<longleftrightarrow> w = Bits32"

datatype counter_continuity =
    FirstObservation | Continuous | Unchanged | Wrapped | Reset | Discontinuous | AmbiguousWrap
  | Undetermined

record continuity_policy =
  cp_width :: counter_width
  cp_max_sample_gap :: nanos
  cp_max_rate :: "u64 option"
  cp_reset_detection :: bool

definition default_continuity_policy :: continuity_policy where
  "default_continuity_policy =
     \<lparr>cp_width = Bits32, cp_max_sample_gap = 30000000000, cp_max_rate = None,
      cp_reset_detection = True\<rparr>"

record counter_state =
  cs_initialized :: bool
  cs_width :: counter_width
  cs_last_raw :: u64
  cs_last_observed :: observation_time
  cs_last_received :: receive_time
  cs_known_total :: u64
  cs_wraps :: u64
  cs_resets :: u64
  cs_ambiguous :: u64
  cs_discontinuities :: u64
  cs_known_deltas :: u64
  cs_unknown_deltas :: u64

definition counter_state_init :: counter_state where
  "counter_state_init =
     \<lparr>cs_initialized = False, cs_width = Bits32, cs_last_raw = 0,
      cs_last_observed = zero_observation, cs_last_received = zero_receive,
      cs_known_total = 0, cs_wraps = 0, cs_resets = 0, cs_ambiguous = 0,
      cs_discontinuities = 0, cs_known_deltas = 0, cs_unknown_deltas = 0\<rparr>"

record counter_update =
  cu_continuity :: counter_continuity
  cu_delta_known :: bool
  cu_delta :: u64
  cu_regressed :: bool
  cu_reason :: string

record counter_delta =
  cd_continuity :: counter_continuity
  cd_known :: bool
  cd_delta :: u64

definition empty_delta :: counter_delta where
  "empty_delta = \<lparr>cd_continuity = Undetermined, cd_known = False, cd_delta = 0\<rparr>"

section \<open>Operations\<close>

fun counter_width_text :: "counter_width \<Rightarrow> string" where
  "counter_width_text Bits32 = ''32''"
| "counter_width_text Bits64 = ''64''"

fun continuity_text :: "counter_continuity \<Rightarrow> string" where
  "continuity_text FirstObservation = ''first_observation''"
| "continuity_text Continuous = ''continuous''"
| "continuity_text Unchanged = ''unchanged''"
| "continuity_text Wrapped = ''wrapped''"
| "continuity_text Reset = ''reset''"
| "continuity_text Discontinuous = ''discontinuous''"
| "continuity_text AmbiguousWrap = ''ambiguous_wrap''"
| "continuity_text Undetermined = ''undetermined''"

definition continuity_yields_known_delta :: "counter_continuity \<Rightarrow> bool" where
  "continuity_yields_known_delta c \<longleftrightarrow> c = Continuous \<or> c = Unchanged \<or> c = Wrapped"

definition describe_gap :: "nanos \<Rightarrow> string" where
  "describe_gap gap = dec_int gap @ ''ns''"

definition max_advance_in_gap :: "continuity_policy \<Rightarrow> nanos \<Rightarrow> u64 option" where
  "max_advance_in_gap policy gap =
     (case cp_max_rate policy of
        None \<Rightarrow> None
      | Some rate \<Rightarrow>
          if gap < 0 then None
          else case mul_u64 rate (u64_of_i64 gap) of
            None \<Rightarrow> None
          | Some scaled \<Rightarrow> Some (scaled div 1000000000))"

definition counter_gap :: "counter_state \<Rightarrow> observation_time \<Rightarrow> receive_time \<Rightarrow> nanos" where
  "counter_gap st observed received =
     (if tc_comparable (compare_observation_times (cs_last_observed st) observed)
      then wrap_i64 (ot_ns observed - ot_ns (cs_last_observed st))
      else wrap_i64 (rt_steady received - rt_steady (cs_last_received st)))"

text \<open>The test both wrap branches share: could another full wrap fit inside the gap?\<close>

definition extra_wrap_possible :: "u64 option \<Rightarrow> u64 \<Rightarrow> u64 \<Rightarrow> bool" where
  "extra_wrap_possible max_advance delta modulus =
     (case max_advance of
        None \<Rightarrow> False
      | Some adv \<Rightarrow> (case add_u64 delta modulus of None \<Rightarrow> False | Some extra \<Rightarrow> adv \<ge> extra))"

definition no_delta :: "counter_continuity \<Rightarrow> bool \<Rightarrow> string \<Rightarrow> counter_update" where
  "no_delta c regressed reason =
     \<lparr>cu_continuity = c, cu_delta_known = False, cu_delta = 0, cu_regressed = regressed,
      cu_reason = reason\<rparr>"

definition known_delta :: "counter_continuity \<Rightarrow> u64 \<Rightarrow> bool \<Rightarrow> counter_update" where
  "known_delta c delta regressed =
     \<lparr>cu_continuity = c, cu_delta_known = True, cu_delta = delta, cu_regressed = regressed,
      cu_reason = []\<rparr>"

text \<open>The comparison of the two readings, once the gap is known and within its limit.\<close>

definition counter_compare ::
    "counter_state \<Rightarrow> u64 \<Rightarrow> u64 \<Rightarrow> u64 option \<Rightarrow> continuity_policy
     \<Rightarrow> counter_update \<times> counter_state" where
  "counter_compare st previous raw max_advance policy =
     (let modulus = counter_modulus (cp_width policy);
          wraps = wraps_within_64_bits (cp_width policy);
          ambiguous = st\<lparr>cs_ambiguous := cs_ambiguous st + 1,
                         cs_unknown_deltas := cs_unknown_deltas st + 1\<rparr>
      in if raw = previous then
           (known_delta Unchanged 0 False, st\<lparr>cs_known_deltas := cs_known_deltas st + 1\<rparr>)
         else if raw > previous then
           (let delta = raw - previous
            in if wraps \<and> extra_wrap_possible max_advance delta modulus then
                 (no_delta AmbiguousWrap False
                    ''the counter could have wrapped at least once inside the gap; no delta is claimed'',
                  ambiguous)
               else
                 (known_delta Continuous delta False,
                  st\<lparr>cs_known_total := cs_known_total st + delta,
                     cs_known_deltas := cs_known_deltas st + 1\<rparr>))
         else
           (let backwards = previous - raw
            in if wraps \<and> backwards > modulus div 2 then
                 (let delta = modulus - previous + raw
                  in if extra_wrap_possible max_advance delta modulus then
                       (no_delta AmbiguousWrap False
                          ''the counter could have wrapped more than once inside the gap; no delta is claimed'',
                        ambiguous)
                     else
                       (known_delta Wrapped delta True,
                        st\<lparr>cs_wraps := cs_wraps st + 1,
                           cs_known_total := cs_known_total st + delta,
                           cs_known_deltas := cs_known_deltas st + 1\<rparr>))
               else if cp_reset_detection policy then
                 (no_delta Reset True
                    (''counter decreased by '' @ dec_u64 backwards
                     @ '' which is too small for a wrap of a ''
                     @ counter_width_text (cp_width policy) @ ''-bit counter''),
                  st\<lparr>cs_resets := cs_resets st + 1,
                     cs_unknown_deltas := cs_unknown_deltas st + 1\<rparr>)
               else
                 (no_delta Undetermined True
                    ''counter decreased and reset detection is disabled; no delta is claimed'',
                  st\<lparr>cs_unknown_deltas := cs_unknown_deltas st + 1\<rparr>)))"

definition update_counter ::
    "counter_state \<Rightarrow> u64 \<Rightarrow> observation_time \<Rightarrow> receive_time \<Rightarrow> continuity_policy
     \<Rightarrow> counter_update \<times> counter_state" where
  "update_counter st raw observed received policy =
     (if \<not> cs_initialized st then
        (no_delta FirstObservation False
           ''first observation of this counter establishes the baseline'',
         st\<lparr>cs_initialized := True, cs_width := cp_width policy, cs_last_raw := raw,
            cs_last_observed := observed, cs_last_received := received\<rparr>)
      else if wraps_within_64_bits (cp_width policy) \<and> raw \<ge> counter_modulus (cp_width policy) then
        (no_delta Undetermined False
           ''the reported value exceeds the width of the counter it belongs to'',
         st\<lparr>cs_last_observed := observed, cs_last_received := received,
            cs_unknown_deltas := cs_unknown_deltas st + 1\<rparr>)
      else
        (let gap = counter_gap st observed received;
             st' = st\<lparr>cs_last_raw := raw, cs_last_observed := observed,
                      cs_last_received := received\<rparr>
         in if gap < 0 then
              (no_delta Undetermined False
                 ''observation time precedes the previous sample; no delta is claimed'',
               st'\<lparr>cs_unknown_deltas := cs_unknown_deltas st + 1\<rparr>)
            else if cp_max_sample_gap policy > 0 \<and> gap > cp_max_sample_gap policy then
              (no_delta Discontinuous False
                 (''gap of '' @ describe_gap gap @ '' exceeds the continuity limit of ''
                  @ describe_gap (cp_max_sample_gap policy)),
               st'\<lparr>cs_discontinuities := cs_discontinuities st + 1,
                  cs_unknown_deltas := cs_unknown_deltas st + 1\<rparr>)
            else counter_compare st' (cs_last_raw st) raw (max_advance_in_gap policy gap) policy))"

text \<open>Folding a sequence of readings.\<close>

fun counter_run ::
    "continuity_policy \<Rightarrow> counter_state \<Rightarrow> (u64 \<times> observation_time \<times> receive_time) list
     \<Rightarrow> counter_state" where
  "counter_run policy st [] = st"
| "counter_run policy st ((raw, observed, received) # rs) =
     counter_run policy (snd (update_counter st raw observed received policy)) rs"

section \<open>What one update does\<close>

lemmas update_defs =
  update_counter_def counter_compare_def no_delta_def known_delta_def Let_def

definition in_width :: "counter_width \<Rightarrow> u64 \<Rightarrow> bool" where
  "in_width w v \<longleftrightarrow> (w = Bits32 \<longrightarrow> unat v < 2 ^ 32)"

lemma counter_modulus_32: "unat (counter_modulus Bits32) = 2 ^ 32"
  by (simp add: counter_modulus_def)

lemma update_known_iff:
  "cu_delta_known (fst (update_counter st raw obs rec policy)) \<longleftrightarrow>
     continuity_yields_known_delta (cu_continuity (fst (update_counter st raw obs rec policy)))"
  by (simp add: update_defs continuity_yields_known_delta_def)

lemma update_unknown_delta:
  "\<not> cu_delta_known (fst (update_counter st raw obs rec policy)) \<Longrightarrow>
     cu_delta (fst (update_counter st raw obs rec policy)) = 0"
  by (auto simp: update_defs split: if_splits)

lemma update_known_total:
  "cs_known_total (snd (update_counter st raw obs rec policy)) =
     cs_known_total st + cu_delta (fst (update_counter st raw obs rec policy))"
  by (simp add: update_defs)

lemma update_initialized: "cs_initialized (snd (update_counter st raw obs rec policy))"
  by (simp add: update_defs)

lemma update_counts:
  "cs_initialized st \<Longrightarrow>
     cs_known_deltas (snd (update_counter st raw obs rec policy)) +
       cs_unknown_deltas (snd (update_counter st raw obs rec policy)) =
     cs_known_deltas st + cs_unknown_deltas st + 1"
  by (simp add: update_defs)

lemma update_last_raw:
  "cs_last_raw (snd (update_counter st raw obs rec policy)) =
     (if cs_initialized st \<and> wraps_within_64_bits (cp_width policy) \<and>
         raw \<ge> counter_modulus (cp_width policy)
      then cs_last_raw st else raw)"
  by (simp add: update_defs)

lemma out_of_width_iff:
  "wraps_within_64_bits w \<and> raw \<ge> counter_modulus w \<longleftrightarrow> \<not> in_width w raw"
  by (auto simp: wraps_within_64_bits_def in_width_def counter_modulus_def word_le_nat_alt)

lemma update_in_width:
  assumes "cs_initialized st \<Longrightarrow> in_width (cp_width policy) (cs_last_raw st)"
    and "cs_initialized st \<or> in_width (cp_width policy) raw"
  shows "in_width (cp_width policy) (cs_last_raw (snd (update_counter st raw obs rec policy)))"
  using assms out_of_width_iff [of "cp_width policy" raw] by (auto simp: update_last_raw)

lemma wrapped_delta:
  assumes "unat p < 2 ^ 32" "unat r < 2 ^ 32"
  shows "unat (0x100000000 - p + r :: u64) = 2 ^ 32 - unat p + unat r"
proof -
  have "unat (0x100000000 - p :: u64) = 2 ^ 32 - unat p"
    using assms by (simp add: unat_sub word_le_nat_alt)
  then show ?thesis using assms by (simp add: unat_word_ariths)
qed

lemma mod_difference:
  fixes r p m :: nat
  assumes "r < m" "p < m"
  shows "(r + m - p) mod m = (if p \<le> r then r - p else m - p + r)"
  using assms by (auto simp: mod_if)

lemma mod_shifted_difference:
  fixes t t' m :: nat
  assumes "t \<le> t'" "0 < m"
  shows "(t' mod m + m - t mod m) mod m = (t' - t) mod m"
proof -
  have "t mod m \<le> t' mod m + m"
    using assms(2) mod_less_divisor [of m t] by linarith
  then have "int ((t' mod m + m - t mod m) mod m) = int ((t' - t) mod m)"
    using assms(1) by (simp add: of_nat_mod of_nat_diff) (metis mod_add_self2 mod_diff_eq add_diff_eq mod_diff_left_eq diff_add_eq)
  then show ?thesis by (simp only: of_nat_eq_iff)
qed

lemma update_delta_exact:
  assumes "cs_initialized st" "cp_width policy = Bits32" "in_width Bits32 (cs_last_raw st)"
    and "cu_delta_known (fst (update_counter st raw obs rec policy))"
  shows "unat raw < 2 ^ 32 \<and>
    unat (cu_delta (fst (update_counter st raw obs rec policy))) =
      (unat raw + 2 ^ 32 - unat (cs_last_raw st)) mod 2 ^ 32"
proof -
  let ?p = "cs_last_raw st"
  have raw: "unat raw < 2 ^ 32"
    using assms out_of_width_iff [of Bits32 raw]
    by (auto simp: update_defs in_width_def split: if_splits)
  have p: "unat ?p < 2 ^ 32" using assms(3) by (simp add: in_width_def)
  have delta: "cu_delta (fst (update_counter st raw obs rec policy)) =
      (if raw \<ge> ?p then raw - ?p else 0x100000000 - ?p + raw)"
    using assms
    by (auto simp: update_defs counter_modulus_def wraps_within_64_bits_def not_less
        split: if_splits)
  show ?thesis
    using raw mod_difference [OF raw p] wrapped_delta [OF p raw]
    by (auto simp: delta unat_sub word_le_nat_alt)
qed

lemma update_delta_exact_64:
  assumes "cs_initialized st" "cp_width policy = Bits64" "cs_last_raw st \<le> raw"
    and "cu_delta_known (fst (update_counter st raw obs rec policy))"
  shows "cu_delta (fst (update_counter st raw obs rec policy)) = raw - cs_last_raw st"
  using assms
  by (auto simp: update_defs counter_modulus_def wraps_within_64_bits_def not_less split: if_splits)

section \<open>Runs against the device\<close>

text \<open>
  The device keeps a count below \<open>2 ^ 64\<close>; a reading is its low bits, as many as the counter is
  wide. The invariant of a run: the last reading is the low part of the last count, and the total
  claimed so far is at most the progress since the first count.
\<close>

fun width_bits :: "counter_width \<Rightarrow> nat" where
  "width_bits Bits32 = 32"
| "width_bits Bits64 = 64"

definition device_reading :: "counter_width \<Rightarrow> nat \<Rightarrow> u64" where
  "device_reading w t = of_nat (t mod 2 ^ width_bits w)"

lemma unat_device_reading: "unat (device_reading w t) = t mod 2 ^ width_bits w"
  by (cases w) (simp_all add: device_reading_def unat_of_nat mod_less [OF less_trans [OF mod_less_divisor]])

lemma device_reading_in_width: "in_width w (device_reading w t)"
  by (cases w) (simp_all add: in_width_def unat_device_reading)

definition tracks :: "counter_width \<Rightarrow> counter_state \<Rightarrow> nat \<Rightarrow> nat \<Rightarrow> bool" where
  "tracks w st base current \<longleftrightarrow>
     cs_initialized st \<and> base \<le> current \<and> cs_last_raw st = device_reading w current \<and>
     unat (cs_known_total st) \<le> current - base"

lemma update_delta_bounded:
  assumes tracks: "tracks w st base t" and mono: "t \<le> t'" and bound: "t' < 2 ^ 64" and width: "cp_width policy = w"
    and known: "cu_delta_known (fst (update_counter st (device_reading w t') obs rec policy))"
  shows "unat (cu_delta (fst (update_counter st (device_reading w t') obs rec policy))) \<le> t' - t"
proof (cases w)
  case Bits32
  have "unat (cu_delta (fst (update_counter st (device_reading w t') obs rec policy))) =
      (t' mod 2 ^ 32 + 2 ^ 32 - t mod 2 ^ 32) mod 2 ^ 32"
    using update_delta_exact [of st policy "device_reading w t'" obs rec] tracks width known Bits32
      device_reading_in_width [of Bits32 t] by (simp add: tracks_def unat_device_reading)
  also have "\<dots> = (t' - t) mod 2 ^ 32" using mono by (rule mod_shifted_difference) simp
  also have "\<dots> \<le> t' - t" by (rule mod_less_eq_dividend)
  finally show ?thesis .
next
  case Bits64
  have "unat (device_reading w t) = t" "unat (device_reading w t') = t'"
    using Bits64 mono bound by (simp_all add: unat_device_reading)
  then show ?thesis
    using update_delta_exact_64 [of st policy "device_reading w t'" obs rec] tracks width known Bits64 mono
    by (simp add: tracks_def unat_sub word_le_nat_alt)
qed

lemma tracks_step:
  assumes tracks: "tracks w st base t" and mono: "t \<le> t'" and bound: "t' < 2 ^ 64" and width: "cp_width policy = w"
  shows "tracks w (snd (update_counter st (device_reading w t') obs rec policy)) base t'"
proof -
  let ?u = "fst (update_counter st (device_reading w t') obs rec policy)"
  let ?s = "snd (update_counter st (device_reading w t') obs rec policy)"
  have last: "cs_last_raw ?s = device_reading w t'"
    using width out_of_width_iff [of w "device_reading w t'"] device_reading_in_width by (auto simp: update_last_raw)
  have delta: "unat (cu_delta ?u) \<le> t' - t"
    using update_delta_bounded [OF assms] update_unknown_delta [of st "device_reading w t'" obs rec policy] by fastforce
  have "unat (cs_known_total st) + unat (cu_delta ?u) \<le> t' - base"
    using tracks delta mono unfolding tracks_def by linarith
  moreover from this have "unat (cs_known_total st + cu_delta ?u) =
      unat (cs_known_total st) + unat (cu_delta ?u)"
    using bound by (simp add: unat_word_ariths)
  ultimately show ?thesis
    using last tracks mono by (simp add: tracks_def update_initialized update_known_total)
qed

lemma tracks_run:
  assumes "tracks w st base t" "sorted (t # ts)" "\<forall>x \<in> set ts. x < 2 ^ 64" "cp_width policy = w"
    and "length stamps = length ts"
  shows "tracks w (counter_run policy st
      (map2 (\<lambda>x (obs, rec). (device_reading w x, obs, rec)) ts stamps)) base (last (t # ts))"
  using assms
proof (induction ts arbitrary: st t stamps)
  case (Cons x xs)
  then obtain obs rec stamps' where stamps: "stamps = (obs, rec) # stamps'"
    by (cases stamps) auto
  have "tracks w (snd (update_counter st (device_reading w x) obs rec policy)) base x"
    using Cons.prems by (intro tracks_step) auto
  then show ?case
    using Cons.prems Cons.IH [of _ x stamps'] stamps by auto
qed simp

section \<open>Properties\<close>

text \<open>The accounting of one update. The total grows by exactly the claimed delta; a
  delta is claimed exactly for the continuous, unchanged and wrapped outcomes and is zero
  otherwise; every reading after the first is counted once, as known or unknown.\<close>

theorem update_counter_accounting:
  "let (u, s) = update_counter st raw obs rec policy
   in cs_known_total s = cs_known_total st + cu_delta u \<and>
      cu_delta_known u = continuity_yields_known_delta (cu_continuity u) \<and>
      (\<not> cu_delta_known u \<longrightarrow> cu_delta u = 0) \<and>
      (cs_initialized st \<longrightarrow>
         cs_known_deltas s + cs_unknown_deltas s = cs_known_deltas st + cs_unknown_deltas st + 1)"
  using update_known_total [of st raw obs rec policy] update_known_iff [of st raw obs rec policy]
    update_unknown_delta [of st raw obs rec policy] update_counts [of st raw obs rec policy]
  by (auto split: prod.splits)

theorem update_counter_accounting_witness:
  "cs_known_deltas
     (snd (update_counter (counter_state_init\<lparr>cs_initialized := True\<rparr>) 5 zero_observation
        zero_receive default_continuity_policy)) +
   cs_unknown_deltas
     (snd (update_counter (counter_state_init\<lparr>cs_initialized := True\<rparr>) 5 zero_observation
        zero_receive default_continuity_policy)) = 1"
  using update_counter_accounting
    [of "counter_state_init\<lparr>cs_initialized := True\<rparr>" 5 zero_observation zero_receive
      default_continuity_policy]
  by (simp add: counter_state_init_def split: prod.splits)

text \<open>C37: The total never invents progress. For a counter of either width whose readings, the first one
  included, are the low bits of a device count that never decreases and stays below \<open>2 ^ 64\<close>, the total
  claimed after any number of readings, at any times, is at most the real progress since the first
  reading.\<close>

theorem known_total_never_invents_progress:
  assumes "sorted (t # ts)" "\<forall>x \<in> set (t # ts). x < 2 ^ 64" "length stamps = length ts"
  shows "unat (cs_known_total
      (counter_run policy counter_state_init
        ((device_reading (cp_width policy) t, obs, rec) #
         map2 (\<lambda>x (obs, rec). (device_reading (cp_width policy) x, obs, rec)) ts stamps)))
    \<le> last (t # ts) - t"
proof -
  let ?w = "cp_width policy"
  let ?s = "snd (update_counter counter_state_init (device_reading ?w t) obs rec policy)"
  have "tracks ?w ?s t t"
    by (simp add: tracks_def update_defs counter_state_init_def)
  then have "tracks ?w (counter_run policy ?s
      (map2 (\<lambda>x (obs, rec). (device_reading ?w x, obs, rec)) ts stamps)) t (last (t # ts))"
    using assms by (intro tracks_run) auto
  then show ?thesis by (simp add: tracks_def)
qed

theorem known_total_never_invents_progress_witness:
  "unat (cs_known_total
      (counter_run (default_continuity_policy\<lparr>cp_width := Bits32\<rparr>) counter_state_init
        [(4294967290, zero_observation, zero_receive), (4, zero_observation, zero_receive)])) \<le> 10"
  using known_total_never_invents_progress
    [of 4294967290 "[4294967300]" "[(zero_observation, zero_receive)]" "default_continuity_policy\<lparr>cp_width := Bits32\<rparr>"
      zero_observation zero_receive]
  by (simp add: device_reading_def)

text \<open>The baseline is not checked against the width. A first reading of \<open>2 ^ 33\<close> or
  more is accepted as the baseline of a 32-bit counter, and the next in-range reading is
  then claimed as a single wrap with a delta that no 32-bit counter can produce.\<close>

theorem oversized_baseline_invents_progress:
  assumes "cp_width policy = Bits32" "cp_max_rate policy = None" "0 < cp_max_sample_gap policy"
    and "2 ^ 33 \<le> unat r0" "unat r1 < 2 ^ 32"
    and "0 \<le> counter_gap (snd (update_counter counter_state_init r0 obs0 rec0 policy)) obs1 rec1"
    and "counter_gap (snd (update_counter counter_state_init r0 obs0 rec0 policy)) obs1 rec1
      \<le> cp_max_sample_gap policy"
  shows "cu_continuity (fst (update_counter
      (snd (update_counter counter_state_init r0 obs0 rec0 policy)) r1 obs1 rec1 policy)) = Wrapped \<and>
    2 ^ 32 \<le> unat (cu_delta (fst (update_counter
      (snd (update_counter counter_state_init r0 obs0 rec0 policy)) r1 obs1 rec1 policy)))"
proof -
  let ?s = "snd (update_counter counter_state_init r0 obs0 rec0 policy)"
  have s: "cs_initialized ?s" "cs_last_raw ?s = r0"
    by (simp_all add: update_initialized update_last_raw counter_state_init_def)
  have r1: "\<not> r1 \<ge> 0x100000000" "\<not> r1 > r0" "r1 \<noteq> r0"
    using assms(4,5) by (auto simp: word_le_nat_alt word_less_nat_alt)
  have down: "r0 - r1 > 0x80000000"
    using assms(4,5) by (simp add: word_less_nat_alt unat_sub word_le_nat_alt)
  have adv: "max_advance_in_gap policy (counter_gap ?s obs1 rec1) = None"
    using assms(2) by (simp add: max_advance_in_gap_def)
  have upd: "fst (update_counter ?s r1 obs1 rec1 policy) = known_delta Wrapped (0x100000000 - r0 + r1) True"
    using s r1 down adv assms(1,6,7)
    by (simp add: update_counter_def counter_compare_def wraps_within_64_bits_def
        counter_modulus_def extra_wrap_possible_def Let_def)
  have "unat (0x100000000 - r0 + r1) = 2 ^ 64 + 2 ^ 32 - unat r0 + unat r1"
  proof -
    have "unat (0x100000000 - r0) = 2 ^ 64 + 2 ^ 32 - unat r0"
      using assms(4) by (simp add: unat_sub_if_size word_size)
    moreover have "2 ^ 64 + 2 ^ 32 - unat r0 + unat r1 < 2 ^ 64"
      using assms(4,5) by simp
    ultimately show ?thesis by (simp add: unat_word_ariths)
  qed
  moreover have "4294967296 \<le> 18446744073709551616 + 4294967296 - unat r0 + unat r1"
    using unat_u64_bound [of r0] by linarith
  ultimately show ?thesis
    using upd by (simp add: known_delta_def)
qed

theorem oversized_baseline_invents_progress_witness:
  "2 ^ 32 \<le> unat (cu_delta (fst (update_counter
      (snd (update_counter counter_state_init (2 ^ 33) zero_observation zero_receive
        default_continuity_policy)) 7 zero_observation zero_receive default_continuity_policy)))"
  using oversized_baseline_invents_progress
    [of default_continuity_policy "2 ^ 33" 7 zero_observation zero_receive zero_observation
      zero_receive]
  by (simp add: default_continuity_policy_def update_defs counter_state_init_def counter_gap_def
      zero_observation_def zero_receive_def compare_observation_times_def tc_comparable_def
      strong_name_valid_def wrap_i64_def)

end
