(* ===== verification/Evidence.thy ===== *)
theory Evidence
  imports Time
begin

unbundle bit_operations_syntax

text \<open>
  Evidence assessments (\<^verbatim>\<open>include/qobs/model/Evidence.hpp\<close>,
  \<^verbatim>\<open>src/model/Evidence.cpp\<close>): freshness bands over the receive-clock age, quality,
  provenance and declared authority of a source, the bit mask of orthogonal flags, and the
  rule that decides whether evidence may speak for the present. The lemmas give the
  algebra of the flag mask, the monotonicity of the bands and that the rendering of a mask
  determines its flags.
\<close>

section \<open>Data\<close>

datatype freshness = F_Unknown | F_Fresh | F_Aging | F_Stale | F_Expired

record freshness_policy =
  fresh_within :: nanos
  aging_within :: nanos
  stale_within :: nanos

definition default_freshness_policy :: freshness_policy where
  "default_freshness_policy =
     \<lparr>fresh_within = 5000000000, aging_within = 15000000000, stale_within = 60000000000\<rparr>"

datatype evidence_quality = Q_Unknown | Q_Complete | Q_Incomplete | Q_Conflicting | Q_Unsupported

datatype provenance =
    P_Unknown | P_Observed | P_DerivedFromMetadata | P_Correlated | P_RecoveredFromPersistence

datatype source_authority = A_Unknown | A_Secondary | A_Primary | A_Authoritative

datatype evidence_flag =
    OrderAnomaly | ClockDomainUnknown | ClockDomainMismatch | DuplicateSuppressed
  | IncarnationChanged | GenerationChanged | CoverageInsufficient | Recovered
  | ClassResolvedFromMetadata | SyntheticTransport | PartialBatch | PeerDisagreement
  | CounterDiscontinuity

type_synonym evidence_flags = u32

record evidence_assessment =
  ea_freshness :: freshness
  ea_quality :: evidence_quality
  ea_provenance :: provenance
  ea_authority :: source_authority
  ea_flags :: evidence_flags
  ea_age :: nanos
  ea_reason :: string

definition empty_assessment :: evidence_assessment where
  "empty_assessment =
     \<lparr>ea_freshness = F_Unknown, ea_quality = Q_Unknown, ea_provenance = P_Unknown,
      ea_authority = A_Unknown, ea_flags = 0, ea_age = 0, ea_reason = []\<rparr>"

section \<open>The order of authorities\<close>

fun authority_value :: "source_authority \<Rightarrow> nat" where
  "authority_value A_Unknown = 0"
| "authority_value A_Secondary = 1"
| "authority_value A_Primary = 2"
| "authority_value A_Authoritative = 3"

lemma authority_value_inj: "authority_value a = authority_value b \<longleftrightarrow> a = b"
  by (cases a; cases b) auto

instantiation source_authority :: linorder
begin

definition less_eq_source_authority :: "source_authority \<Rightarrow> source_authority \<Rightarrow> bool" where
  "less_eq_source_authority a b \<longleftrightarrow> authority_value a \<le> authority_value b"

definition less_source_authority :: "source_authority \<Rightarrow> source_authority \<Rightarrow> bool" where
  "less_source_authority a b \<longleftrightarrow> authority_value a < authority_value b"

instance
  by standard
    (auto simp: less_eq_source_authority_def less_source_authority_def authority_value_inj)

end

section \<open>Operations\<close>

fun freshness_text :: "freshness \<Rightarrow> string" where
  "freshness_text F_Unknown = ''unknown''"
| "freshness_text F_Fresh = ''fresh''"
| "freshness_text F_Aging = ''aging''"
| "freshness_text F_Stale = ''stale''"
| "freshness_text F_Expired = ''expired''"

definition is_fresh :: "freshness \<Rightarrow> bool" where
  "is_fresh f \<longleftrightarrow> f = F_Fresh"

definition assess_freshness :: "nanos \<Rightarrow> freshness_policy \<Rightarrow> freshness" where
  "assess_freshness age policy =
     (if age < 0 then F_Fresh
      else if age < fresh_within policy then F_Fresh
      else if age < aging_within policy then F_Aging
      else if age < stale_within policy then F_Stale
      else F_Expired)"

fun quality_text :: "evidence_quality \<Rightarrow> string" where
  "quality_text Q_Unknown = ''unknown''"
| "quality_text Q_Complete = ''complete''"
| "quality_text Q_Incomplete = ''incomplete''"
| "quality_text Q_Conflicting = ''conflicting''"
| "quality_text Q_Unsupported = ''unsupported''"

fun provenance_text :: "provenance \<Rightarrow> string" where
  "provenance_text P_Unknown = ''unknown''"
| "provenance_text P_Observed = ''observed''"
| "provenance_text P_DerivedFromMetadata = ''derived_from_metadata''"
| "provenance_text P_Correlated = ''correlated''"
| "provenance_text P_RecoveredFromPersistence = ''recovered_from_persistence''"

fun authority_text :: "source_authority \<Rightarrow> string" where
  "authority_text A_Unknown = ''unknown''"
| "authority_text A_Secondary = ''secondary''"
| "authority_text A_Primary = ''primary''"
| "authority_text A_Authoritative = ''authoritative''"

text \<open>The authority and the \<^verbatim>\<open>recognised\<close> out-parameter.\<close>

definition parse_source_authority :: "string \<Rightarrow> source_authority \<times> bool" where
  "parse_source_authority v =
     (if v = ''unknown'' then (A_Unknown, True)
      else if v = ''secondary'' then (A_Secondary, True)
      else if v = ''primary'' then (A_Primary, True)
      else if v = ''authoritative'' then (A_Authoritative, True)
      else (A_Unknown, False))"

fun flag_position :: "evidence_flag \<Rightarrow> nat" where
  "flag_position OrderAnomaly = 0"
| "flag_position ClockDomainUnknown = 1"
| "flag_position ClockDomainMismatch = 2"
| "flag_position DuplicateSuppressed = 3"
| "flag_position IncarnationChanged = 4"
| "flag_position GenerationChanged = 5"
| "flag_position CoverageInsufficient = 6"
| "flag_position Recovered = 7"
| "flag_position ClassResolvedFromMetadata = 8"
| "flag_position SyntheticTransport = 9"
| "flag_position PartialBatch = 10"
| "flag_position PeerDisagreement = 11"
| "flag_position CounterDiscontinuity = 12"

definition flag_bit :: "evidence_flag \<Rightarrow> evidence_flags" where
  "flag_bit f = push_bit (flag_position f) 1"

definition has_flag :: "evidence_flags \<Rightarrow> evidence_flag \<Rightarrow> bool" where
  "has_flag fl f \<longleftrightarrow> fl AND flag_bit f \<noteq> 0"

definition with_flag :: "evidence_flags \<Rightarrow> evidence_flag \<Rightarrow> evidence_flags" where
  "with_flag fl f = fl OR flag_bit f"

definition without_flag :: "evidence_flags \<Rightarrow> evidence_flag \<Rightarrow> evidence_flags" where
  "without_flag fl f = fl AND NOT (flag_bit f)"

definition flag_names :: "(evidence_flag \<times> string) list" where
  "flag_names =
     [(OrderAnomaly, ''order_anomaly''), (ClockDomainUnknown, ''clock_domain_unknown''),
      (ClockDomainMismatch, ''clock_domain_mismatch''),
      (DuplicateSuppressed, ''duplicate_suppressed''),
      (IncarnationChanged, ''incarnation_changed''), (GenerationChanged, ''generation_changed''),
      (CoverageInsufficient, ''coverage_insufficient''), (Recovered, ''recovered''),
      (ClassResolvedFromMetadata, ''class_resolved_from_metadata''),
      (SyntheticTransport, ''synthetic_transport''), (PartialBatch, ''partial_batch''),
      (PeerDisagreement, ''peer_disagreement''), (CounterDiscontinuity, ''counter_discontinuity'')]"

text \<open>The loop that renders the selected entries of a name table, separated by commas.\<close>

fun append_selected :: "('a \<Rightarrow> bool) \<Rightarrow> ('a \<times> string) list \<Rightarrow> string \<Rightarrow> string" where
  "append_selected sel [] out = out"
| "append_selected sel ((k, name) # es) out =
     (if sel k then append_selected sel es ((if out \<noteq> [] then out @ '','' else out) @ name)
      else append_selected sel es out)"

definition describe_flags :: "evidence_flags \<Rightarrow> string" where
  "describe_flags fl =
     (let out = append_selected (has_flag fl) flag_names []
      in if out = [] then ''none'' else out)"

definition establishes_current_pressure :: "evidence_assessment \<Rightarrow> bool" where
  "establishes_current_pressure a =
     (if ea_freshness a \<noteq> F_Fresh then False
      else if ea_quality a \<noteq> Q_Complete then False
      else if ea_provenance a = P_RecoveredFromPersistence then False
      else if has_flag (ea_flags a) Recovered then False
      else ea_authority a \<ge> A_Primary)"

definition is_degraded :: "evidence_assessment \<Rightarrow> bool" where
  "is_degraded a \<longleftrightarrow> ea_freshness a \<noteq> F_Fresh \<or> ea_quality a \<noteq> Q_Complete"

definition describe_assessment :: "evidence_assessment \<Rightarrow> string" where
  "describe_assessment a =
     ''freshness='' @ freshness_text (ea_freshness a) @
     '' quality='' @ quality_text (ea_quality a) @
     '' provenance='' @ provenance_text (ea_provenance a) @
     '' authority='' @ authority_text (ea_authority a) @
     '' age_ns='' @ dec_int (ea_age a) @
     '' flags='' @ describe_flags (ea_flags a) @
     (if ea_reason a \<noteq> [] then '' reason='' @ ea_reason a else [])"

section \<open>The flag mask\<close>

lemma flag_position_inj: "flag_position f = flag_position g \<longleftrightarrow> f = g"
  by (cases f; cases g) auto

lemma flag_position_lt: "flag_position f < 32"
  by (cases f) auto

lemma has_flag_bit: "has_flag fl f \<longleftrightarrow> bit fl (flag_position f)"
proof
  assume "has_flag fl f"
  then obtain n where "bit (fl AND flag_bit f) n"
    unfolding has_flag_def by (metis bit_eq_iff bit_0_eq bot_apply bot_bool_def)
  then show "bit fl (flag_position f)"
    by (auto simp: flag_bit_def bit_simps)
next
  assume "bit fl (flag_position f)"
  then have "bit (fl AND flag_bit f) (flag_position f)"
    using flag_position_lt [of f] by (simp add: flag_bit_def bit_simps)
  then show "has_flag fl f"
    unfolding has_flag_def by (metis bit_0_eq bot_apply bot_bool_def)
qed

lemma has_flag_with [simp]: "has_flag (with_flag fl f) g \<longleftrightarrow> g = f \<or> has_flag fl g"
  using flag_position_lt [of g] flag_position_lt [of f] flag_position_inj [of g f]
  by (auto simp: has_flag_bit with_flag_def flag_bit_def bit_simps)

lemma has_flag_without [simp]: "has_flag (without_flag fl f) g \<longleftrightarrow> g \<noteq> f \<and> has_flag fl g"
  using flag_position_lt [of g] flag_position_lt [of f] flag_position_inj [of g f]
  by (auto simp: has_flag_bit without_flag_def flag_bit_def bit_simps)

lemma has_flag_zero [simp]: "\<not> has_flag 0 f"
  by (simp add: has_flag_def)

lemma has_flag_or [simp]: "has_flag (a OR b) f \<longleftrightarrow> has_flag a f \<or> has_flag b f"
  by (simp add: has_flag_bit bit_simps)

section \<open>Bands\<close>

fun freshness_rank :: "freshness \<Rightarrow> nat" where
  "freshness_rank F_Unknown = 4"
| "freshness_rank F_Fresh = 0"
| "freshness_rank F_Aging = 1"
| "freshness_rank F_Stale = 2"
| "freshness_rank F_Expired = 3"

lemma assess_freshness_mono:
  assumes "age \<le> age'"
  shows "freshness_rank (assess_freshness age policy) \<le> freshness_rank (assess_freshness age' policy)"
  using assms by (simp add: assess_freshness_def)

lemma assess_freshness_fresh:
  "0 < fresh_within policy \<Longrightarrow>
     assess_freshness age policy = F_Fresh \<longleftrightarrow> age < fresh_within policy"
  by (simp add: assess_freshness_def)

section \<open>Rendering\<close>

lemma append_selected_join:
  assumes "\<forall>(k, name) \<in> set es. name \<noteq> []"
  shows "append_selected sel es out =
    join ((if out = [] then [] else [out]) @ map snd (filter (sel \<circ> fst) es)) '',''"
  using assms
proof (induction es arbitrary: out)
  case (Cons e es)
  obtain k name where e: "e = (k, name)" by fastforce
  have join2: "join ((p @ '','' @ q) # r) '','' = join (p # q # r) '',''" for p q r
    by (cases r) simp_all
  show ?case
    using Cons join2 by (auto simp: e)
qed simp

lemma split_join_comma:
  assumes "ps \<noteq> []" "\<forall>p \<in> set ps. CHR '','' \<notin> set p"
  shows "split (join ps '','') CHR '','' = ps"
  using assms
proof (induction ps "'',''" rule: join.induct)
  case (3 p q ps)
  then show ?case by (simp add: split_append_sep)
qed (simp_all add: split_no_sep)

lemma join_eq_Nil: "\<forall>p \<in> set ps. p \<noteq> [] \<Longrightarrow> join ps sep = [] \<longleftrightarrow> ps = []"
  by (induction ps sep rule: join.induct) auto

lemma selected_names_inj:
  assumes "distinct (map snd es)"
    and "map snd (filter (sel \<circ> fst) es) = map snd (filter (sel' \<circ> fst) es)"
    and "(k, name) \<in> set es"
  shows "sel k \<longleftrightarrow> sel' k"
proof -
  have mem: "name \<in> set (map snd (filter (s \<circ> fst) es)) \<longleftrightarrow> s k" for s
    using assms(1,3) by (force simp: distinct_map inj_on_def)
  show ?thesis using mem [of sel] mem [of sel'] assms(2) by simp
qed

lemma flag_names_facts:
  "distinct (map snd flag_names)" "\<forall>(f, name) \<in> set flag_names. name \<noteq> []"
  "\<forall>(f, name) \<in> set flag_names. CHR '','' \<notin> set name" "''none'' \<notin> set (map snd flag_names)"
  "f \<in> fst ` set flag_names"
  by (simp_all add: flag_names_def) (cases f; simp)

lemma describe_flags_split:
  "split (describe_flags fl) CHR '','' =
     (let names = map snd (filter (has_flag fl \<circ> fst) flag_names)
      in if names = [] then [''none''] else names)"
proof -
  let ?names = "map snd (filter (has_flag fl \<circ> fst) flag_names)"
  have out: "append_selected (has_flag fl) flag_names [] = join ?names '',''"
    using append_selected_join [OF flag_names_facts(2)] by simp
  have ne: "\<forall>p \<in> set ?names. p \<noteq> [] \<and> CHR '','' \<notin> set p"
    using flag_names_facts(2,3) by auto
  have "join ?names '','' = [] \<longleftrightarrow> ?names = []"
    using ne by (intro join_eq_Nil) blast
  then show ?thesis
    using split_join_comma [of ?names] ne
    by (auto simp: describe_flags_def Let_def out split_no_sep)
qed

section \<open>Properties\<close>

text \<open>The freshness bands. Age only moves evidence towards expiry, and with a
  positive fresh boundary evidence is fresh exactly below it, so that the boundary itself
  is no longer fresh.\<close>

theorem freshness_bands:
  assumes "0 < fresh_within policy" "age \<le> age'"
  shows "freshness_rank (assess_freshness age policy) \<le> freshness_rank (assess_freshness age' policy) \<and>
    (assess_freshness age policy = F_Fresh \<longleftrightarrow> age < fresh_within policy)"
  using assess_freshness_mono [OF assms(2)] assess_freshness_fresh [OF assms(1)] by simp

theorem freshness_bands_witness:
  "assess_freshness 5000000000 default_freshness_policy \<noteq> F_Fresh"
  using freshness_bands [of default_freshness_policy 5000000000 5000000000]
  by (simp add: default_freshness_policy_def)

text \<open>The rendering of a flag mask determines its flags: two masks are rendered alike
  exactly when they agree on every flag.\<close>

theorem describe_flags_faithful:
  "describe_flags m = describe_flags m' \<longleftrightarrow> (\<forall>f. has_flag m f = has_flag m' f)"
proof
  assume eq: "describe_flags m = describe_flags m'"
  let ?names = "\<lambda>m. map snd (filter (has_flag m \<circ> fst) flag_names)"
  have none: "?names k \<noteq> [''none'']" for k
    using flag_names_facts(4) by (metis (no_types, lifting) filter_is_subset image_mono list.set_intros(1)
        set_map subset_code(1))
  have "?names m = ?names m'"
    using arg_cong [OF eq, of "\<lambda>s. split s CHR '',''"] none [of m] none [of m']
    by (auto simp: describe_flags_split Let_def split: if_splits)
  then show "\<forall>f. has_flag m f = has_flag m' f"
    using selected_names_inj [OF flag_names_facts(1)] flag_names_facts(5) by (metis imageE prod.collapse)
next
  assume "\<forall>f. has_flag m f = has_flag m' f"
  then have "has_flag m = has_flag m'" by auto
  then show "describe_flags m = describe_flags m'" by (simp add: describe_flags_def)
qed

end
