(* ===== verification/Sample.thy ===== *)
theory Sample
  imports Counter Evidence
begin

text \<open>
  Queue samples (\<^verbatim>\<open>include/qobs/model/Sample.hpp\<close>, \<^verbatim>\<open>src/model/Sample.cpp\<close>): the
  fixed enumeration of fields, the mask of reported fields and the array of values behind
  it. An absent field is not a zero: every accessor returns an option. The array
  \<^verbatim>\<open>values_\<close> is a function of the field; the enumerator \<^verbatim>\<open>Count\<close> stands for an
  index past its end, which the accessors refuse.
\<close>

section \<open>Fields\<close>

datatype sample_field =
    OccupancyBytes | OccupancyCells | QueueDepthPackets | SharedBufferCells | HeadroomCells
  | ReservedCells | StaticThresholdCells | DynamicThresholdCells | MaxDepthPackets
  | HighWatermarkCells | EnqueuePackets | DequeuePackets | DropPackets | DropBytes | MarkPackets
  | PauseFrames | PauseDurationNanos | Count

type_synonym field_mask = u64

fun field_index :: "sample_field \<Rightarrow> nat" where
  "field_index OccupancyBytes = 0"
| "field_index OccupancyCells = 1"
| "field_index QueueDepthPackets = 2"
| "field_index SharedBufferCells = 3"
| "field_index HeadroomCells = 4"
| "field_index ReservedCells = 5"
| "field_index StaticThresholdCells = 6"
| "field_index DynamicThresholdCells = 7"
| "field_index MaxDepthPackets = 8"
| "field_index HighWatermarkCells = 9"
| "field_index EnqueuePackets = 10"
| "field_index DequeuePackets = 11"
| "field_index DropPackets = 12"
| "field_index DropBytes = 13"
| "field_index MarkPackets = 14"
| "field_index PauseFrames = 15"
| "field_index PauseDurationNanos = 16"
| "field_index Count = 17"

definition kSampleFieldCount :: nat where "kSampleFieldCount = field_index Count"

definition field_bit :: "sample_field \<Rightarrow> field_mask" where
  "field_bit f = push_bit (field_index f) 1"

definition has_field :: "field_mask \<Rightarrow> sample_field \<Rightarrow> bool" where
  "has_field m f \<longleftrightarrow> m AND field_bit f \<noteq> 0"

definition kFieldNames :: "(sample_field \<times> string) list" where
  "kFieldNames =
     [(OccupancyBytes, ''occupancy_bytes''), (OccupancyCells, ''occupancy_cells''),
      (QueueDepthPackets, ''queue_depth_packets''), (SharedBufferCells, ''shared_buffer_cells''),
      (HeadroomCells, ''headroom_cells''), (ReservedCells, ''reserved_cells''),
      (StaticThresholdCells, ''static_threshold_cells''),
      (DynamicThresholdCells, ''dynamic_threshold_cells''),
      (MaxDepthPackets, ''max_depth_packets''), (HighWatermarkCells, ''high_watermark_cells''),
      (EnqueuePackets, ''enqueue_packets''), (DequeuePackets, ''dequeue_packets''),
      (DropPackets, ''drop_packets''), (DropBytes, ''drop_bytes''), (MarkPackets, ''mark_packets''),
      (PauseFrames, ''pause_frames''), (PauseDurationNanos, ''pause_duration_nanos'')]"

definition sample_field_text :: "sample_field \<Rightarrow> string" where
  "sample_field_text f =
     (if field_index f \<ge> length kFieldNames then ''unknown'' else snd (kFieldNames ! field_index f))"

definition parse_sample_field :: "string \<Rightarrow> sample_field option" where
  "parse_sample_field v = map_option fst (find (\<lambda>(f, name). name = v) kFieldNames)"

fun is_counter_field :: "sample_field \<Rightarrow> bool" where
  "is_counter_field EnqueuePackets = True"
| "is_counter_field DequeuePackets = True"
| "is_counter_field DropPackets = True"
| "is_counter_field DropBytes = True"
| "is_counter_field MarkPackets = True"
| "is_counter_field PauseFrames = True"
| "is_counter_field PauseDurationNanos = True"
| "is_counter_field _ = False"

datatype attribute_origin = Unspecified | ObservedInSample | ResolvedFromMetadata

fun attribute_origin_text :: "attribute_origin \<Rightarrow> string" where
  "attribute_origin_text Unspecified = ''unspecified''"
| "attribute_origin_text ObservedInSample = ''observed_in_sample''"
| "attribute_origin_text ResolvedFromMetadata = ''resolved_from_metadata''"

section \<open>Samples\<close>

text \<open>Traffic classes, generations, revisions and sequences are numeric strong identifiers;
  sources, incarnations and scheduling classes are strong names.\<close>

record queue_class_attributes =
  ca_traffic_class :: "u16 option"
  ca_scheduling_class :: "string option"
  ca_origin :: attribute_origin
  ca_metadata_revision :: u64

definition empty_attributes :: queue_class_attributes where
  "empty_attributes =
     \<lparr>ca_traffic_class = None, ca_scheduling_class = None, ca_origin = Unspecified,
      ca_metadata_revision = 0\<rparr>"

record queue_sample =
  qs_queue :: queue_path
  qs_classes :: queue_class_attributes
  qs_source :: string
  qs_incarnation :: string
  qs_sequence :: u64
  qs_authority :: source_authority
  qs_generation :: u64
  qs_revision :: u64
  qs_observed :: observation_time
  qs_received :: receive_time
  qs_reported :: field_mask
  qs_declared :: field_mask
  qs_declared_version :: u32
  qs_declared_crc :: "u32 option"
  qs_values :: "sample_field \<Rightarrow> u64"

definition empty_sample :: queue_sample where
  "empty_sample =
     \<lparr>qs_queue = empty_path, qs_classes = empty_attributes, qs_source = [], qs_incarnation = [],
      qs_sequence = 0, qs_authority = A_Unknown, qs_generation = 0, qs_revision = 0,
      qs_observed = zero_observation, qs_received = zero_receive, qs_reported = 0,
      qs_declared = 0, qs_declared_version = 0, qs_declared_crc = None, qs_values = (\<lambda>_. 0)\<rparr>"

definition sample_has :: "queue_sample \<Rightarrow> sample_field \<Rightarrow> bool" where
  "sample_has s f = has_field (qs_reported s) f"

definition sample_value :: "queue_sample \<Rightarrow> sample_field \<Rightarrow> u64 option" where
  "sample_value s f =
     (if field_index f \<ge> kSampleFieldCount then None
      else if \<not> has_field (qs_reported s) f then None
      else Some (qs_values s f))"

definition set_value :: "queue_sample \<Rightarrow> sample_field \<Rightarrow> u64 \<Rightarrow> queue_sample" where
  "set_value s f v =
     (if field_index f \<ge> kSampleFieldCount then s
      else s\<lparr>qs_values := (qs_values s)(f := v), qs_reported := qs_reported s OR field_bit f\<rparr>)"

definition clear_value :: "queue_sample \<Rightarrow> sample_field \<Rightarrow> queue_sample" where
  "clear_value s f =
     (if field_index f \<ge> kSampleFieldCount then s
      else s\<lparr>qs_values := (qs_values s)(f := 0),
             qs_reported := qs_reported s AND NOT (field_bit f)\<rparr>)"

definition raw_value_or_zero :: "queue_sample \<Rightarrow> sample_field \<Rightarrow> u64" where
  "raw_value_or_zero s f = (if field_index f < kSampleFieldCount then qs_values s f else 0)"

definition occupancy_for_pressure :: "queue_sample \<Rightarrow> u64 option" where
  "occupancy_for_pressure s =
     (case sample_value s OccupancyCells of
        Some cells \<Rightarrow> Some cells
      | None \<Rightarrow> sample_value s OccupancyBytes)"

definition missing_required :: "queue_sample \<Rightarrow> field_mask \<Rightarrow> field_mask" where
  "missing_required s required = required AND NOT (qs_reported s)"

section \<open>Lemmas\<close>

lemma field_index_inj: "field_index f = field_index g \<longleftrightarrow> f = g"
  by (cases f; cases g) auto

lemma field_index_lt: "field_index f < 64"
  by (cases f) auto

lemma field_index_past_end [simp]: "17 \<le> field_index f \<longleftrightarrow> f = Count"
  by (cases f) auto

lemma field_index_Count: "field_index f \<ge> kSampleFieldCount \<longleftrightarrow> f = Count"
  by (simp add: kSampleFieldCount_def)

lemma has_field_bit: "has_field m f \<longleftrightarrow> bit m (field_index f)"
proof
  assume "has_field m f"
  then obtain n where "bit (m AND field_bit f) n"
    unfolding has_field_def by (metis bit_eq_iff bit_0_eq bot_apply bot_bool_def)
  then show "bit m (field_index f)"
    by (auto simp: field_bit_def bit_simps)
next
  assume "bit m (field_index f)"
  then have "bit (m AND field_bit f) (field_index f)"
    using field_index_lt [of f] by (simp add: field_bit_def bit_simps)
  then show "has_field m f"
    unfolding has_field_def by (metis bit_0_eq bot_apply bot_bool_def)
qed

lemma has_field_set: "has_field (m OR field_bit f) g \<longleftrightarrow> g = f \<or> has_field m g"
  using field_index_lt [of g] field_index_inj [of g f]
  by (auto simp: has_field_bit field_bit_def bit_simps)

lemma has_field_clear: "has_field (m AND NOT (field_bit f)) g \<longleftrightarrow> g \<noteq> f \<and> has_field m g"
  using field_index_lt [of g] field_index_inj [of g f]
  by (auto simp: has_field_bit field_bit_def bit_simps)

lemma has_field_zero [simp]: "\<not> has_field 0 f"
  by (simp add: has_field_def)

lemma sample_value_Some:
  "sample_value s f = Some v \<longleftrightarrow> f \<noteq> Count \<and> has_field (qs_reported s) f \<and> qs_values s f = v"
  by (auto simp: sample_value_def field_index_Count)

lemma parse_field_text: "f \<noteq> Count \<Longrightarrow> parse_sample_field (sample_field_text f) = Some f"
  by (cases f) (simp_all add: parse_sample_field_def sample_field_text_def kFieldNames_def)

lemma missing_required_zero:
  "missing_required s required = 0 \<longleftrightarrow>
     (\<forall>n. bit required n \<longrightarrow> bit (qs_reported s) n)"
  using bit_imp_le_length [of required] by (auto simp: missing_required_def bit_eq_iff bit_simps)

section \<open>Properties\<close>

text \<open>A sample is a partial map from fields to values. Reading after a write gives the
  written value and leaves every other field alone; a cleared field is absent, not zero;
  the index past the end can neither be written nor read.\<close>

theorem sample_field_laws:
  "sample_value (set_value s f v) g = (if g = f \<and> f \<noteq> Count then Some v else sample_value s g) \<and>
   sample_value (clear_value s f) g = (if g = f then None else sample_value s g) \<and>
   sample_value empty_sample g = None"
  by (auto simp: sample_value_def set_value_def clear_value_def kSampleFieldCount_def has_field_set
      has_field_clear empty_sample_def)

end
