(* ===== verification/Metadata.thy ===== *)
theory Metadata
  imports Sample
begin

text \<open>
  Class metadata (\<^verbatim>\<open>include/qobs/model/Metadata.hpp\<close>,
  \<^verbatim>\<open>src/model/Metadata.cpp\<close>): the versioned table of traffic classes, scheduling classes
  and queue bindings, the lookup operations, the resolution of a queue's class attributes
  against the table, and the validation of a table.
\<close>

section \<open>Data\<close>

record traffic_class_descriptor =
  tcd_id :: u16
  tcd_name :: string
  tcd_dscp :: "u16 option"
  tcd_priority_code_point :: "u16 option"
  tcd_scheduling_class :: "string option"

record scheduling_class_descriptor =
  scd_id :: string
  scd_mode :: string
  scd_weight :: "u64 option"

record queue_class_binding =
  qcb_queue :: queue_path
  qcb_traffic_class :: "u16 option"
  qcb_scheduling_class :: "string option"

record class_metadata_table =
  mt_revision :: u64
  mt_generation :: u64
  mt_source :: string
  mt_authority :: source_authority
  mt_received :: receive_time
  mt_traffic_classes :: "traffic_class_descriptor list"
  mt_scheduling_classes :: "scheduling_class_descriptor list"
  mt_bindings :: "queue_class_binding list"

definition empty_metadata :: class_metadata_table where
  "empty_metadata =
     \<lparr>mt_revision = 0, mt_generation = 0, mt_source = [], mt_authority = A_Unknown,
      mt_received = zero_receive, mt_traffic_classes = [], mt_scheduling_classes = [],
      mt_bindings = []\<rparr>"

record metadata_resolution =
  mr_attributes :: queue_class_attributes
  mr_used_metadata :: bool
  mr_referenced_unknown_class :: bool

section \<open>Operations\<close>

definition metadata_valid :: "class_metadata_table \<Rightarrow> bool" where
  "metadata_valid t \<longleftrightarrow> strong_id_valid (mt_revision t) \<and> strong_id_valid (mt_generation t)"

definition find_traffic_class :: "class_metadata_table \<Rightarrow> u16 \<Rightarrow> traffic_class_descriptor option" where
  "find_traffic_class t i = find (\<lambda>e. tcd_id e = i) (mt_traffic_classes t)"

definition find_scheduling_class ::
    "class_metadata_table \<Rightarrow> string \<Rightarrow> scheduling_class_descriptor option" where
  "find_scheduling_class t i = find (\<lambda>e. scd_id e = i) (mt_scheduling_classes t)"

definition find_binding :: "class_metadata_table \<Rightarrow> queue_path \<Rightarrow> queue_class_binding option" where
  "find_binding t q = find (\<lambda>e. qcb_queue e = q) (mt_bindings t)"

definition fill_from_binding ::
    "class_metadata_table \<Rightarrow> queue_path \<Rightarrow> metadata_resolution \<Rightarrow> metadata_resolution" where
  "fill_from_binding t q r =
     (case find_binding t q of
        None \<Rightarrow> r
      | Some b \<Rightarrow>
          (let r1 = (if ca_traffic_class (mr_attributes r) = None \<and> qcb_traffic_class b \<noteq> None
                     then r\<lparr>mr_attributes := (mr_attributes r)\<lparr>ca_traffic_class := qcb_traffic_class b\<rparr>,
                            mr_used_metadata := True\<rparr>
                     else r)
           in if ca_scheduling_class (mr_attributes r1) = None \<and> qcb_scheduling_class b \<noteq> None
              then r1\<lparr>mr_attributes :=
                        (mr_attributes r1)\<lparr>ca_scheduling_class := qcb_scheduling_class b\<rparr>,
                      mr_used_metadata := True\<rparr>
              else r1))"

definition fill_from_descriptor ::
    "class_metadata_table \<Rightarrow> metadata_resolution \<Rightarrow> metadata_resolution" where
  "fill_from_descriptor t r =
     (if ca_scheduling_class (mr_attributes r) = None
      then case ca_traffic_class (mr_attributes r) of
             None \<Rightarrow> r
           | Some tc \<Rightarrow>
               (case find_traffic_class t tc of
                  None \<Rightarrow> r
                | Some d \<Rightarrow>
                    if tcd_scheduling_class d \<noteq> None
                    then r\<lparr>mr_attributes :=
                             (mr_attributes r)\<lparr>ca_scheduling_class := tcd_scheduling_class d\<rparr>,
                           mr_used_metadata := True\<rparr>
                    else r)
      else r)"

definition mark_origin ::
    "class_metadata_table \<Rightarrow> queue_class_attributes \<Rightarrow> metadata_resolution \<Rightarrow> metadata_resolution" where
  "mark_origin t observed r =
     (if mr_used_metadata r
      then r\<lparr>mr_attributes := (mr_attributes r)\<lparr>ca_origin := ResolvedFromMetadata,
                                               ca_metadata_revision := mt_revision t\<rparr>\<rparr>
      else if ca_traffic_class observed \<noteq> None \<or> ca_scheduling_class observed \<noteq> None
      then r\<lparr>mr_attributes := (mr_attributes r)\<lparr>ca_origin := ObservedInSample\<rparr>\<rparr>
      else r)"

definition mark_unknown_classes ::
    "class_metadata_table \<Rightarrow> metadata_resolution \<Rightarrow> metadata_resolution" where
  "mark_unknown_classes t r =
     (let unknown_traffic = (case ca_traffic_class (mr_attributes r) of
                               None \<Rightarrow> False | Some i \<Rightarrow> find_traffic_class t i = None);
          unknown_scheduling = (case ca_scheduling_class (mr_attributes r) of
                                  None \<Rightarrow> False | Some i \<Rightarrow> find_scheduling_class t i = None)
      in if unknown_traffic \<or> unknown_scheduling
         then r\<lparr>mr_referenced_unknown_class := True\<rparr> else r)"

definition resolve_class_attributes ::
    "class_metadata_table \<Rightarrow> queue_path \<Rightarrow> queue_class_attributes \<Rightarrow> metadata_resolution" where
  "resolve_class_attributes t q observed =
     mark_unknown_classes t
       (mark_origin t observed
         (fill_from_descriptor t
           (fill_from_binding t q
             \<lparr>mr_attributes = observed, mr_used_metadata = False,
              mr_referenced_unknown_class = False\<rparr>)))"

text \<open>The three validation loops: a bad entry is reported before a duplicate of an earlier
  one, in the order of the entries.\<close>

fun check_entries :: "('a \<Rightarrow> 'k) \<Rightarrow> ('k \<Rightarrow> bool) \<Rightarrow> string \<Rightarrow> string \<Rightarrow> 'a list \<Rightarrow> status" where
  "check_entries key ok bad dup [] = success"
| "check_entries key ok bad dup (e # es) =
     (if \<not> ok (key e) then failure InvalidArgument bad
      else if \<exists>x \<in> set es. key e = key x then failure InvalidArgument dup
      else check_entries key ok bad dup es)"

definition validate_metadata :: "class_metadata_table \<Rightarrow> nat \<Rightarrow> status" where
  "validate_metadata t max_entries =
     (if \<not> strong_id_valid (mt_revision t) then
        failure InvalidArgument ''metadata revision must be a non-zero revision number''
      else if \<not> strong_id_valid (mt_generation t) then
        failure InvalidArgument ''metadata generation must be a non-zero generation number''
      else if \<not> strong_name_valid (mt_source t) then
        failure InvalidArgument ''metadata source must be named''
      else if length (mt_traffic_classes t) > max_entries then
        failure LimitExceeded ''metadata traffic class section exceeds the configured limit''
      else if length (mt_scheduling_classes t) > max_entries then
        failure LimitExceeded ''metadata scheduling class section exceeds the configured limit''
      else if length (mt_bindings t) > max_entries then
        failure LimitExceeded ''metadata binding section exceeds the configured limit''
      else
        qobs_try (check_entries tcd_id strong_id_valid
            ''metadata traffic class entries require a non-zero identifier''
            ''metadata contains a duplicate traffic class identifier'' (mt_traffic_classes t))
        (qobs_try (check_entries scd_id strong_name_valid
            ''metadata scheduling class entries require a non-empty identifier''
            ''metadata contains a duplicate scheduling class identifier'' (mt_scheduling_classes t))
        (check_entries qcb_queue queue_path_valid
            ''metadata bindings require a queue path with a device and a port''
            ''metadata contains a duplicate queue binding'' (mt_bindings t))))"

section \<open>Lemmas\<close>

lemma check_entries_ok:
  "status_ok (check_entries key ok bad dup es) \<longleftrightarrow>
     distinct (map key es) \<and> (\<forall>e \<in> set es. ok (key e))"
  by (induction es) auto

lemma validate_metadata_ok:
  "status_ok (validate_metadata t n) \<longleftrightarrow>
     strong_id_valid (mt_revision t) \<and> strong_id_valid (mt_generation t) \<and>
     strong_name_valid (mt_source t) \<and>
     length (mt_traffic_classes t) \<le> n \<and> length (mt_scheduling_classes t) \<le> n \<and>
     length (mt_bindings t) \<le> n \<and>
     distinct (map tcd_id (mt_traffic_classes t)) \<and>
     (\<forall>e \<in> set (mt_traffic_classes t). strong_id_valid (tcd_id e)) \<and>
     distinct (map scd_id (mt_scheduling_classes t)) \<and>
     (\<forall>e \<in> set (mt_scheduling_classes t). strong_name_valid (scd_id e)) \<and>
     distinct (map qcb_queue (mt_bindings t)) \<and>
     (\<forall>e \<in> set (mt_bindings t). queue_path_valid (qcb_queue e))"
  by (auto simp: validate_metadata_def check_entries_ok)

lemma find_distinct:
  assumes "distinct (map key es)" "e \<in> set es"
  shows "find (\<lambda>x. key x = key e) es = Some e"
  using assms by (induction es) (auto simp: image_iff)

lemma fills_keep:
  "ca_traffic_class (mr_attributes r) = None \<or>
     ca_traffic_class (mr_attributes (fill_from_descriptor t (fill_from_binding t q r))) =
       ca_traffic_class (mr_attributes r)"
  "ca_scheduling_class (mr_attributes r) = None \<or>
     ca_scheduling_class (mr_attributes (fill_from_descriptor t (fill_from_binding t q r))) =
       ca_scheduling_class (mr_attributes r)"
  by (auto simp: fill_from_descriptor_def fill_from_binding_def Let_def split: option.splits)

lemma marks_keep_classes [simp]:
  "ca_traffic_class (mr_attributes (mark_origin t ob r)) = ca_traffic_class (mr_attributes r)"
  "ca_scheduling_class (mr_attributes (mark_origin t ob r)) = ca_scheduling_class (mr_attributes r)"
  "mr_attributes (mark_unknown_classes t r) = mr_attributes r"
  "mr_used_metadata (mark_origin t ob r) = mr_used_metadata r"
  "mr_used_metadata (mark_unknown_classes t r) = mr_used_metadata r"
  by (simp_all add: mark_origin_def mark_unknown_classes_def Let_def)

lemma origin_marked:
  "mr_used_metadata r \<Longrightarrow> ca_origin (mr_attributes (mark_origin t ob r)) = ResolvedFromMetadata"
  "mr_used_metadata r \<Longrightarrow> ca_metadata_revision (mr_attributes (mark_origin t ob r)) = mt_revision t"
  by (simp_all add: mark_origin_def)

lemma used_iff_changed:
  assumes "\<not> mr_used_metadata r"
  shows "mr_used_metadata (fill_from_descriptor t (fill_from_binding t q r)) \<longleftrightarrow>
    ca_traffic_class (mr_attributes (fill_from_descriptor t (fill_from_binding t q r))) \<noteq>
      ca_traffic_class (mr_attributes r) \<or>
    ca_scheduling_class (mr_attributes (fill_from_descriptor t (fill_from_binding t q r))) \<noteq>
      ca_scheduling_class (mr_attributes r)"
  using assms
  by (auto simp: fill_from_descriptor_def fill_from_binding_def Let_def split: option.splits if_splits)

section \<open>Properties\<close>

text \<open>A validated table has unique, valid keys, and so the first match the lookups
  return is the only entry with that key.\<close>

theorem validated_metadata_lookup:
  assumes "status_ok (validate_metadata t n)"
  shows "(\<forall>e \<in> set (mt_traffic_classes t). find_traffic_class t (tcd_id e) = Some e) \<and>
    (\<forall>e \<in> set (mt_scheduling_classes t). find_scheduling_class t (scd_id e) = Some e) \<and>
    (\<forall>e \<in> set (mt_bindings t). find_binding t (qcb_queue e) = Some e \<and> queue_path_valid (qcb_queue e))"
  using assms
  by (auto simp: validate_metadata_ok find_traffic_class_def find_scheduling_class_def
      find_binding_def intro!: find_distinct)

text \<open>Observed attributes win. Resolution never changes a class the sample reported,
  and it says it used metadata exactly when it filled a class the sample did not report;
  then the attributes carry the revision of the table they came from.\<close>

theorem resolution_observed_wins:
  "let r = resolve_class_attributes t q observed; a = mr_attributes r
   in (ca_traffic_class observed = None \<or> ca_traffic_class a = ca_traffic_class observed) \<and>
      (ca_scheduling_class observed = None \<or>
         ca_scheduling_class a = ca_scheduling_class observed) \<and>
      (mr_used_metadata r = (\<not> (ca_traffic_class a = ca_traffic_class observed \<and>
                                ca_scheduling_class a = ca_scheduling_class observed))) \<and>
      (if mr_used_metadata r
       then ca_origin a = ResolvedFromMetadata \<and> ca_metadata_revision a = mt_revision t
       else ca_metadata_revision a = ca_metadata_revision observed)"
proof -
  let ?init = "\<lparr>mr_attributes = observed, mr_used_metadata = False, mr_referenced_unknown_class = False\<rparr>"
  let ?r = "fill_from_descriptor t (fill_from_binding t q ?init)"
  have unused: "ca_metadata_revision (mr_attributes (mark_origin t observed ?r)) =
      ca_metadata_revision observed" if "\<not> mr_used_metadata ?r"
    using that
    by (auto simp: mark_origin_def fill_from_descriptor_def fill_from_binding_def Let_def
        split: option.splits if_splits)
  have keeps: "ca_traffic_class observed = None \<or>
      ca_traffic_class (mr_attributes ?r) = ca_traffic_class observed"
    "ca_scheduling_class observed = None \<or>
      ca_scheduling_class (mr_attributes ?r) = ca_scheduling_class observed"
    using fills_keep [of ?init t q] by simp_all
  show ?thesis
  proof (cases "mr_used_metadata ?r")
    case True
    then show ?thesis
      using keeps used_iff_changed [of ?init t q] origin_marked [OF True, of t observed]
      by (simp add: resolve_class_attributes_def Let_def)
  next
    case False
    then show ?thesis
      using keeps used_iff_changed [of ?init t q] unused
      by (simp add: resolve_class_attributes_def Let_def)
  qed
qed

definition sample_table :: class_metadata_table where
  "sample_table = empty_metadata
     \<lparr>mt_revision := 1, mt_generation := 1, mt_source := ''agent'',
      mt_traffic_classes := [\<lparr>tcd_id = 3, tcd_name = ''gold'', tcd_dscp = Some 46,
        tcd_priority_code_point = None, tcd_scheduling_class = Some ''strict''\<rparr>]\<rparr>"

theorem validated_metadata_lookup_witness:
  "mt_traffic_classes sample_table \<noteq> [] \<and>
   find_traffic_class sample_table (tcd_id (hd (mt_traffic_classes sample_table))) =
     Some (hd (mt_traffic_classes sample_table))"
proof -
  have ok: "status_ok (validate_metadata sample_table 4)"
    by (simp add: validate_metadata_ok sample_table_def empty_metadata_def strong_id_valid_def
        strong_name_valid_def)
  moreover have "mt_traffic_classes sample_table \<noteq> []"
    by (simp add: sample_table_def)
  ultimately show ?thesis
    using validated_metadata_lookup [OF ok] by simp
qed

end
