(* ===== verification/Event.thy ===== *)
theory Event
  imports Evidence
begin

text \<open>
  Events (\<^verbatim>\<open>include/qobs/model/Event.hpp\<close>, \<^verbatim>\<open>src/model/Event.cpp\<close>): the record of
  every decision the runtime takes, and its one-line rendering.
\<close>

section \<open>Data\<close>

datatype event_kind =
    SampleAccepted | SampleRejected | SampleFenced | DuplicateReplay | ConflictDetected
  | ConflictCleared | CounterWrap | CounterReset | CounterAmbiguous | CounterDiscontinuous
  | SourceRegistered | SourceIncarnationChanged | SourceAuthorityChanged
  | SourceSequenceRegression | MetadataUpdated | MetadataRevisionFenced | StateTransition
  | MicroburstDetected | MicroburstInsufficientCoverage | ContentionDetected
  | PersistenceWritten | PersistenceRecovered | PersistenceFailed | HistoryEvicted
  | QueueLimitReached | RuntimeStarted | RuntimeStopped

datatype severity = Sev_Debug | Sev_Info | Sev_Notice | Sev_Warning | Sev_Error

record event_record =
  ev_kind :: event_kind
  ev_severity :: severity
  ev_received :: receive_time
  ev_observed :: observation_time
  ev_queue :: queue_path
  ev_source :: string
  ev_incarnation :: string
  ev_sequence :: u64
  ev_revision :: u64
  ev_detail :: string

definition empty_event :: event_record where
  "empty_event =
     \<lparr>ev_kind = SampleAccepted, ev_severity = Sev_Info, ev_received = zero_receive,
      ev_observed = zero_observation, ev_queue = empty_path, ev_source = [], ev_incarnation = [],
      ev_sequence = 0, ev_revision = 0, ev_detail = []\<rparr>"

section \<open>Operations\<close>

fun event_kind_text :: "event_kind \<Rightarrow> string" where
  "event_kind_text SampleAccepted = ''sample_accepted''"
| "event_kind_text SampleRejected = ''sample_rejected''"
| "event_kind_text SampleFenced = ''sample_fenced''"
| "event_kind_text DuplicateReplay = ''duplicate_replay''"
| "event_kind_text ConflictDetected = ''conflict_detected''"
| "event_kind_text ConflictCleared = ''conflict_cleared''"
| "event_kind_text CounterWrap = ''counter_wrap''"
| "event_kind_text CounterReset = ''counter_reset''"
| "event_kind_text CounterAmbiguous = ''counter_ambiguous''"
| "event_kind_text CounterDiscontinuous = ''counter_discontinuous''"
| "event_kind_text SourceRegistered = ''source_registered''"
| "event_kind_text SourceIncarnationChanged = ''source_incarnation_changed''"
| "event_kind_text SourceAuthorityChanged = ''source_authority_changed''"
| "event_kind_text SourceSequenceRegression = ''source_sequence_regression''"
| "event_kind_text MetadataUpdated = ''metadata_updated''"
| "event_kind_text MetadataRevisionFenced = ''metadata_revision_fenced''"
| "event_kind_text StateTransition = ''state_transition''"
| "event_kind_text MicroburstDetected = ''microburst_detected''"
| "event_kind_text MicroburstInsufficientCoverage = ''microburst_insufficient_coverage''"
| "event_kind_text ContentionDetected = ''contention_detected''"
| "event_kind_text PersistenceWritten = ''persistence_written''"
| "event_kind_text PersistenceRecovered = ''persistence_recovered''"
| "event_kind_text PersistenceFailed = ''persistence_failed''"
| "event_kind_text HistoryEvicted = ''history_evicted''"
| "event_kind_text QueueLimitReached = ''queue_limit_reached''"
| "event_kind_text RuntimeStarted = ''runtime_started''"
| "event_kind_text RuntimeStopped = ''runtime_stopped''"

fun severity_text :: "severity \<Rightarrow> string" where
  "severity_text Sev_Debug = ''debug''"
| "severity_text Sev_Info = ''info''"
| "severity_text Sev_Notice = ''notice''"
| "severity_text Sev_Warning = ''warning''"
| "severity_text Sev_Error = ''error''"

definition event_has_queue :: "event_record \<Rightarrow> bool" where
  "event_has_queue e = queue_path_valid (ev_queue e)"

definition render_event :: "event_record \<Rightarrow> string" where
  "render_event e =
     format_wall_utc (rt_wall (ev_received e)) @ '' '' @ severity_text (ev_severity e) @ '' ''
     @ event_kind_text (ev_kind e)
     @ (if event_has_queue e then '' queue='' @ queue_path_to_string (ev_queue e) else [])
     @ (if strong_name_valid (ev_source e)
        then '' source='' @ sanitize_for_display (ev_source e) 64 else [])
     @ (if strong_name_valid (ev_incarnation e)
        then '' incarnation='' @ sanitize_for_display (ev_incarnation e) 64 else [])
     @ (if strong_id_valid (ev_sequence e)
        then '' sequence='' @ strong_id_to_string (ev_sequence e) else [])
     @ (if strong_id_valid (ev_revision e)
        then '' revision='' @ strong_id_to_string (ev_revision e) else [])
     @ (if ev_detail e \<noteq> [] then '' detail='' @ sanitize_for_display (ev_detail e) 512 else [])"

section \<open>Lemmas\<close>

text \<open>The kind names are distinct, so that a rendered kind identifies the event.\<close>

lemma event_kind_text_distinct:
  "distinct (map event_kind_text
     [SampleAccepted, SampleRejected, SampleFenced, DuplicateReplay, ConflictDetected,
      ConflictCleared, CounterWrap, CounterReset, CounterAmbiguous, CounterDiscontinuous,
      SourceRegistered, SourceIncarnationChanged, SourceAuthorityChanged,
      SourceSequenceRegression, MetadataUpdated, MetadataRevisionFenced, StateTransition,
      MicroburstDetected, MicroburstInsufficientCoverage, ContentionDetected,
      PersistenceWritten, PersistenceRecovered, PersistenceFailed, HistoryEvicted,
      QueueLimitReached, RuntimeStarted, RuntimeStopped])"
  by simp

end
