(* ===== verification/Policy.thy ===== *)
theory Policy
  imports Sample
begin

text \<open>
  The classification policy (\<^verbatim>\<open>include/qobs/policy/Policy.hpp\<close>,
  \<^verbatim>\<open>src/policy/Policy.cpp\<close>): the ten pressure states, absolute and per-mille
  thresholds, the nested policies, the validation of a policy and the scaling of a limit.
  The lemmas say what a validated policy guarantees and that scaling is an exact ceiling.
\<close>

section \<open>Data\<close>

datatype pressure_state =
    PS_Unknown | PS_Idle | PS_Normal | PS_Elevated | PS_Pressured | PS_Saturated | PS_Dropping
  | PS_Paused | PS_Stale | PS_Conflicting

datatype pressure_basis_kind = PB_None | CellsAgainstThreshold | PacketsAgainstDepth | PB_Absolute

record pressure_thresholds =
  elevated_at :: "u64 option"
  pressured_at :: "u64 option"
  saturated_at :: "u64 option"
  dropping_at_drops :: u64
  paused_at_pause_frames :: u64
  paused_at_pause_nanos :: u64
  marks_indicate_pressure_at :: u64

record relative_thresholds =
  elevated_permille :: u32
  pressured_permille :: u32
  saturated_permille :: u32

record microburst_policy =
  mb_window :: nanos
  mb_bucket :: nanos
  mb_min_excursion :: u64
  mb_min_covered_buckets :: u32
  mb_max_buckets :: nat
  mb_report_insufficient_coverage :: bool

record contention_policy =
  cn_window :: nanos
  cn_min_covered_buckets :: u32
  cn_min_simultaneous_buckets :: u32
  cn_count_pressured :: bool
  cn_count_saturated :: bool
  cn_count_dropping :: bool
  cn_count_paused :: bool

record conflict_policy =
  cf_enabled :: bool
  cf_window :: nanos
  cf_absolute_tolerance :: u64
  cf_relative_permille :: u32

record pressure_policy =
  pol_version :: u32
  pol_name :: string
  pol_freshness :: freshness_policy
  pol_continuity :: continuity_policy
  pol_required_fields :: field_mask
  pol_required_any_fields :: field_mask
  pol_prefer_cells_over_packets :: bool
  pol_allow_absolute_thresholds :: bool
  pol_allow_byte_basis :: bool
  pol_absolute :: pressure_thresholds
  pol_relative :: relative_thresholds
  pol_evaluation_window :: nanos
  pol_conflict :: conflict_policy
  pol_microburst :: microburst_policy
  pol_contention :: contention_policy

definition default_pressure_policy :: pressure_policy where
  "default_pressure_policy =
     \<lparr>pol_version = 1, pol_name = ''default'', pol_freshness = default_freshness_policy,
      pol_continuity = default_continuity_policy, pol_required_fields = 0,
      pol_required_any_fields =
        field_bit OccupancyCells OR field_bit OccupancyBytes OR field_bit QueueDepthPackets,
      pol_prefer_cells_over_packets = True, pol_allow_absolute_thresholds = True,
      pol_allow_byte_basis = False,
      pol_absolute = \<lparr>elevated_at = None, pressured_at = None, saturated_at = None,
        dropping_at_drops = 1, paused_at_pause_frames = 1, paused_at_pause_nanos = 1,
        marks_indicate_pressure_at = 1\<rparr>,
      pol_relative = \<lparr>elevated_permille = 500, pressured_permille = 750,
        saturated_permille = 950\<rparr>,
      pol_evaluation_window = 1000000000,
      pol_conflict = \<lparr>cf_enabled = True, cf_window = 5000000000, cf_absolute_tolerance = 0,
        cf_relative_permille = 100\<rparr>,
      pol_microburst = \<lparr>mb_window = 1000000000, mb_bucket = 10000000, mb_min_excursion = 1,
        mb_min_covered_buckets = 3, mb_max_buckets = 1024,
        mb_report_insufficient_coverage = True\<rparr>,
      pol_contention = \<lparr>cn_window = 5000000000, cn_min_covered_buckets = 4,
        cn_min_simultaneous_buckets = 1, cn_count_pressured = True, cn_count_saturated = True,
        cn_count_dropping = True, cn_count_paused = True\<rparr>\<rparr>"

section \<open>Operations\<close>

fun pressure_state_text :: "pressure_state \<Rightarrow> string" where
  "pressure_state_text PS_Unknown = ''unknown''"
| "pressure_state_text PS_Idle = ''idle''"
| "pressure_state_text PS_Normal = ''normal''"
| "pressure_state_text PS_Elevated = ''elevated''"
| "pressure_state_text PS_Pressured = ''pressured''"
| "pressure_state_text PS_Saturated = ''saturated''"
| "pressure_state_text PS_Dropping = ''dropping''"
| "pressure_state_text PS_Paused = ''paused''"
| "pressure_state_text PS_Stale = ''stale''"
| "pressure_state_text PS_Conflicting = ''conflicting''"

definition parse_pressure_state :: "string \<Rightarrow> pressure_state option" where
  "parse_pressure_state v =
     find (\<lambda>s. pressure_state_text s = v)
       [PS_Unknown, PS_Idle, PS_Normal, PS_Elevated, PS_Pressured, PS_Saturated, PS_Dropping,
        PS_Paused, PS_Stale, PS_Conflicting]"

fun pressure_severity_rank :: "pressure_state \<Rightarrow> u32" where
  "pressure_severity_rank PS_Unknown = 5"
| "pressure_severity_rank PS_Idle = 0"
| "pressure_severity_rank PS_Normal = 1"
| "pressure_severity_rank PS_Elevated = 2"
| "pressure_severity_rank PS_Pressured = 3"
| "pressure_severity_rank PS_Saturated = 4"
| "pressure_severity_rank PS_Paused = 6"
| "pressure_severity_rank PS_Dropping = 7"
| "pressure_severity_rank PS_Stale = 8"
| "pressure_severity_rank PS_Conflicting = 9"

fun basis_kind_text :: "pressure_basis_kind \<Rightarrow> string" where
  "basis_kind_text PB_None = ''none''"
| "basis_kind_text CellsAgainstThreshold = ''cells_against_threshold''"
| "basis_kind_text PacketsAgainstDepth = ''packets_against_depth''"
| "basis_kind_text PB_Absolute = ''absolute''"

text \<open>\<^verbatim>\<open>validate_policy\<close>, one definition per group of checks, in the order of the source.\<close>

definition reject :: "bool \<Rightarrow> error_code \<Rightarrow> string \<Rightarrow> status" where
  "reject bad code message = (if bad then failure code message else success)"

definition below :: "u64 option \<Rightarrow> u64 option \<Rightarrow> bool" where
  "below a b = (case (a, b) of (Some x, Some y) \<Rightarrow> x < y | _ \<Rightarrow> False)"

definition validate_relative :: "relative_thresholds \<Rightarrow> status" where
  "validate_relative r =
     qobs_try (reject (elevated_permille r = 0 \<or> elevated_permille r > 1000) InvalidArgument
         ''elevated_permille must be within 1..1000'')
     (qobs_try (reject (pressured_permille r > 1000 \<or> saturated_permille r > 1000) InvalidArgument
         ''relative thresholds must not exceed 1000 permille'')
     (reject (elevated_permille r > pressured_permille r \<or> pressured_permille r > saturated_permille r)
         InvalidArgument ''relative thresholds must be non-decreasing from elevated to saturated''))"

definition validate_absolute :: "pressure_thresholds \<Rightarrow> status" where
  "validate_absolute a =
     qobs_try (reject (below (pressured_at a) (elevated_at a)) InvalidArgument
         ''absolute pressured threshold must not be below the elevated one'')
     (qobs_try (reject (below (saturated_at a) (pressured_at a)) InvalidArgument
         ''absolute saturated threshold must not be below the pressured one'')
     (reject (below (saturated_at a) (elevated_at a)) InvalidArgument
         ''absolute saturated threshold must not be below the elevated one''))"

definition validate_freshness :: "freshness_policy \<Rightarrow> status" where
  "validate_freshness f =
     qobs_try (reject (fresh_within f \<le> 0 \<or> aging_within f < 0 \<or> stale_within f < 0) InvalidArgument
         ''freshness boundaries must be non-negative and ordered'')
     (reject (fresh_within f > aging_within f \<or> aging_within f > stale_within f) InvalidArgument
         ''freshness boundaries must be non-decreasing'')"

definition validate_microburst :: "microburst_policy \<Rightarrow> status" where
  "validate_microburst m =
     qobs_try (reject (mb_window m \<le> 0 \<or> mb_bucket m \<le> 0) InvalidArgument
         ''microburst window and bucket must be positive durations'')
     (qobs_try (reject (mb_bucket m > mb_window m) InvalidArgument
         ''microburst bucket must not be longer than the window'')
     (qobs_try (reject (mb_max_buckets m = 0) InvalidArgument
         ''microburst bucket budget must be non-zero'')
     (case div_ceil_u64 (u64_of_i64 (mb_window m)) (u64_of_i64 (mb_bucket m)) of
        None \<Rightarrow> failure Overflow ''microburst bucket count overflows''
      | Some requested \<Rightarrow>
          qobs_try (reject (unat requested > mb_max_buckets m) LimitExceeded
              ''microburst window needs more buckets than the policy allows'')
          (qobs_try (reject (mb_min_covered_buckets m = 0) InvalidArgument
              ''microburst requires at least one covered bucket'')
          (reject (ucast (mb_min_covered_buckets m) > requested) InvalidArgument
              ''microburst coverage requirement exceeds the bucket count'')))))"

definition validate_policy :: "pressure_policy \<Rightarrow> status" where
  "validate_policy p =
     qobs_try (reject (pol_version p = 0) InvalidArgument ''policy version must be non-zero'')
     (qobs_try (reject (pol_name p = []) InvalidArgument ''policy name must not be empty'')
     (qobs_try (reject (pol_required_fields p = 0 \<and> pol_required_any_fields p = 0) InvalidArgument
         ''policy must require at least one sample field, either individually or as one of a set'')
     (qobs_try (reject (pol_evaluation_window p \<le> 0) InvalidArgument
         ''policy evaluation window must be a positive duration'')
     (qobs_try (validate_relative (pol_relative p))
     (qobs_try (validate_absolute (pol_absolute p))
     (qobs_try (validate_freshness (pol_freshness p))
     (qobs_try (reject (cp_max_sample_gap (pol_continuity p) < 0) InvalidArgument
         ''continuity gap limit must not be negative'')
     (qobs_try (validate_microburst (pol_microburst p))
     (qobs_try (reject (cf_relative_permille (pol_conflict p) > 1000) InvalidArgument
         ''conflict relative tolerance must not exceed 1000 permille'')
     (qobs_try (reject (cf_window (pol_conflict p) \<le> 0) InvalidArgument
         ''conflict comparison window must be a positive duration'')
     (qobs_try (reject (cn_window (pol_contention p) \<le> 0) InvalidArgument
         ''contention window must be a positive duration'')
     (reject (\<not> cn_count_pressured (pol_contention p) \<and> \<not> cn_count_saturated (pol_contention p) \<and>
              \<not> cn_count_dropping (pol_contention p) \<and> \<not> cn_count_paused (pol_contention p))
         InvalidArgument ''contention policy must count at least one state''))))))))))))"

definition permille_of :: "u64 \<Rightarrow> u32 \<Rightarrow> u64 result" where
  "permille_of limit permille =
     (if permille > 1000 then Inl (failure OutOfRange ''permille value must not exceed 1000'')
      else case mul_u64 limit (ucast permille) of
        None \<Rightarrow> Inl (failure Overflow ''scaling a limit by a permille factor overflowed'')
      | Some scaled \<Rightarrow>
          (case div_ceil_u64 scaled 1000 of
             None \<Rightarrow> Inl (failure Internal ''permille division failed'')
           | Some rounded \<Rightarrow> Inr rounded))"

section \<open>What validation guarantees\<close>

lemma reject_ok [simp, status_simps]: "code \<noteq> Ok \<Longrightarrow> status_ok (reject bad code m) \<longleftrightarrow> \<not> bad"
  by (simp add: reject_def)

lemma validate_relative_ok:
  "status_ok (validate_relative r) \<longleftrightarrow>
     0 < elevated_permille r \<and> elevated_permille r \<le> pressured_permille r \<and>
     pressured_permille r \<le> saturated_permille r \<and> saturated_permille r \<le> 1000"
  by (auto simp: validate_relative_def word_gt_0)

lemma validate_freshness_ok:
  "status_ok (validate_freshness f) \<longleftrightarrow>
     0 < fresh_within f \<and> fresh_within f \<le> aging_within f \<and> aging_within f \<le> stale_within f"
  by (auto simp: validate_freshness_def)

lemma validate_policy_parts:
  assumes "status_ok (validate_policy p)"
  shows "status_ok (validate_relative (pol_relative p))" "status_ok (validate_absolute (pol_absolute p))"
    "status_ok (validate_freshness (pol_freshness p))"
    "status_ok (validate_microburst (pol_microburst p))"
    "0 < pol_evaluation_window p" "0 < cf_window (pol_conflict p)" "0 < cn_window (pol_contention p)"
    "0 \<le> cp_max_sample_gap (pol_continuity p)" "cf_relative_permille (pol_conflict p) \<le> 1000"
  using assms by (simp_all add: validate_policy_def not_less not_le)

lemma default_policy_valid: "status_ok (validate_policy default_pressure_policy)"
  by (simp add: validate_policy_def default_pressure_policy_def validate_relative_def
      validate_absolute_def below_def validate_freshness_def default_freshness_policy_def
      default_continuity_policy_def validate_microburst_def div_ceil_u64_def u64_of_i64_def
      field_bit_def)

section \<open>Scaling\<close>

lemma unat_permille: "unat (ucast (p :: u32) :: u64) = unat p"
proof -
  have "unat p < 2 ^ 32" using unsigned_less [of p, where ?'a = nat] by simp
  then show ?thesis by (simp add: unsigned_ucast_eq take_bit_nat_eq_self)
qed

lemma permille_of_cases:
  "permille_of limit p =
     (if p > 1000 then Inl (failure OutOfRange ''permille value must not exceed 1000'')
      else if \<not> unat limit * unat p < 2 ^ 64
      then Inl (failure Overflow ''scaling a limit by a permille factor overflowed'')
      else Inr (of_nat ((unat limit * unat p + 999) div 1000)))"
proof (cases "\<not> p > 1000 \<and> unat limit * unat p < 2 ^ 64")
  case True
  then have scaled: "mul_u64 limit (ucast p) = Some (limit * ucast p)"
    by (simp add: mul_u64_eq unat_permille)
  then have "unat (limit * ucast p) = unat limit * unat p"
    by (simp add: mul_u64_Some unat_permille)
  then obtain q where q: "div_ceil_u64 (limit * ucast p) 1000 = Some q"
      "unat q = (unat limit * unat p + 999) div 1000"
    using div_ceil_u64_Some [of 1000 "limit * ucast p"] by auto
  have "q = of_nat (unat q)" by simp
  then have "q = of_nat ((unat limit * unat p + 999) div 1000)" by (simp only: q(2))
  with True scaled q(1) show ?thesis by (simp add: permille_of_def)
next
  case False
  then show ?thesis by (auto simp: permille_of_def mul_u64_eq unat_permille)
qed

lemma permille_of_Inr:
  "permille_of limit p = Inr t \<longleftrightarrow>
     p \<le> 1000 \<and> unat limit * unat p < 2 ^ 64 \<and> unat t = (unat limit * unat p + 999) div 1000"
proof -
  have bound: "(unat limit * unat p + 999) div 1000 < 18446744073709551616"
    if "unat limit * unat p < 18446744073709551616"
  proof -
    have "(unat limit * unat p + 999) div 1000 \<le> (18446744073709551616 + 999) div 1000"
      using that by (intro div_le_mono) simp
    then show ?thesis by simp
  qed
  show ?thesis
    using bound
    by (auto simp: permille_of_cases not_less unat_of_nat word_unat_eq_iff split: if_splits)
qed

section \<open>Properties\<close>

text \<open>Scaling a limit is an exact ceiling on every branch: a factor above 1000 is out
  of range, a product that does not fit 64 bits is an overflow, and otherwise the value is
  the product divided by 1000, rounded up, computed without wrap-around.\<close>

theorem permille_of_exact:
  "permille_of limit p =
     (if unat p > 1000 then Inl (failure OutOfRange ''permille value must not exceed 1000'')
      else if unat limit * unat p \<ge> 2 ^ 64
      then Inl (failure Overflow ''scaling a limit by a permille factor overflowed'')
      else Inr (of_nat ((unat limit * unat p + 999) div 1000))) \<and>
   (case permille_of limit p of
      Inl _ \<Rightarrow> True
    | Inr t \<Rightarrow> unat t = (unat limit * unat p + 999) div 1000)"
proof (rule conjI)
  show "case permille_of limit p of
      Inl _ \<Rightarrow> True
    | Inr t \<Rightarrow> unat t = (unat limit * unat p + 999) div 1000"
    by (simp add: permille_of_Inr split: sum.splits)
qed (simp add: permille_of_cases [of limit p] word_less_nat_alt not_less)

text \<open>A validated policy has ordered level thresholds. When the saturation threshold
  of a limit can be computed, so can the other two, and elevated, pressured, saturated and
  the limit itself are in this order.\<close>

theorem validated_thresholds_ordered:
  assumes "status_ok (validate_policy p)"
    and "permille_of limit (saturated_permille (pol_relative p)) = Inr s"
  shows "\<exists>e q. permille_of limit (elevated_permille (pol_relative p)) = Inr e \<and>
    permille_of limit (pressured_permille (pol_relative p)) = Inr q \<and> e \<le> q \<and> q \<le> s \<and> s \<le> limit"
proof -
  let ?r = "pol_relative p"
  have ord: "unat (elevated_permille ?r) \<le> unat (pressured_permille ?r)"
    "unat (pressured_permille ?r) \<le> unat (saturated_permille ?r)" "saturated_permille ?r \<le> 1000"
    using validate_policy_parts(1) [OF assms(1)]
    by (simp_all add: validate_relative_ok word_le_nat_alt)
  have le: "\<exists>t. permille_of limit k = Inr t \<and> unat t = (unat limit * unat k + 999) div 1000"
    if "unat k \<le> unat (saturated_permille ?r)" for k
  proof -
    have "unat limit * unat k < 2 ^ 64"
      using that assms(2) by (auto simp: permille_of_Inr intro: le_less_trans [OF mult_le_mono2])
    moreover have "k \<le> 1000" using that ord(3) by (simp add: word_le_nat_alt)
    ultimately have "permille_of limit k = Inr (of_nat ((unat limit * unat k + 999) div 1000))"
      by (simp add: permille_of_cases not_less)
    then show ?thesis using permille_of_Inr by blast
  qed
  obtain e where e: "permille_of limit (elevated_permille ?r) = Inr e"
      "unat e = (unat limit * unat (elevated_permille ?r) + 999) div 1000"
    using le ord by (meson order_trans)
  obtain q where q: "permille_of limit (pressured_permille ?r) = Inr q"
      "unat q = (unat limit * unat (pressured_permille ?r) + 999) div 1000"
    using le ord by blast
  have s: "unat s = (unat limit * unat (saturated_permille ?r) + 999) div 1000"
    using assms(2) by (simp add: permille_of_Inr)
  have "unat e \<le> unat q" "unat q \<le> unat s"
    unfolding e(2) q(2) s using ord by (auto intro!: div_le_mono mult_le_mono2 add_le_mono1)
  moreover have "unat s \<le> unat limit"
  proof -
    have "unat limit * unat (saturated_permille ?r) \<le> unat limit * 1000"
      using ord(3) by (intro mult_le_mono2) (simp add: word_le_nat_alt)
    then have "unat s \<le> (unat limit * 1000 + 999) div 1000"
      unfolding s by (intro div_le_mono) simp
    then show ?thesis by simp
  qed
  ultimately show ?thesis using e(1) q(1) by (auto simp: word_le_nat_alt)
qed

theorem validated_thresholds_ordered_witness:
  "\<exists>e q. permille_of 1000 (elevated_permille (pol_relative default_pressure_policy)) = Inr e \<and>
    permille_of 1000 (pressured_permille (pol_relative default_pressure_policy)) = Inr q \<and>
    e \<le> q \<and> q \<le> 950 \<and> (950 :: u64) \<le> 1000"
  by (rule validated_thresholds_ordered [OF default_policy_valid])
    (simp add: default_pressure_policy_def permille_of_cases)

end
