(* ===== verification/Explanation.thy ===== *)
theory Explanation
  imports Policy
begin

text \<open>
  The result of a classification and its deterministic rendering
  (\<^verbatim>\<open>include/qobs/policy/Classification.hpp\<close>,
  \<^verbatim>\<open>include/qobs/policy/Explanation.hpp\<close>, \<^verbatim>\<open>src/policy/Explanation.cpp\<close>): the ordered
  rules, the decision trace, the explanation lines and the digest over them.
\<close>

section \<open>Data\<close>

datatype rule_id =
    EvidencePresence | EvidenceConflict | EvidenceUnsupported | EvidenceFreshness
  | RequiredFields | PressureBasis | DroppingEvidence | PauseEvidence | SaturationLevel
  | PressureLevel | ElevationLevel | IdleEvidence | DefaultNormal

fun rule_number :: "rule_id \<Rightarrow> nat" where
  "rule_number EvidencePresence = 0"
| "rule_number EvidenceConflict = 1"
| "rule_number EvidenceUnsupported = 2"
| "rule_number EvidenceFreshness = 3"
| "rule_number RequiredFields = 4"
| "rule_number PressureBasis = 5"
| "rule_number DroppingEvidence = 6"
| "rule_number PauseEvidence = 7"
| "rule_number SaturationLevel = 8"
| "rule_number PressureLevel = 9"
| "rule_number ElevationLevel = 10"
| "rule_number IdleEvidence = 11"
| "rule_number DefaultNormal = 12"

record pressure_basis =
  pb_kind :: pressure_basis_kind
  pb_value_field :: sample_field
  pb_value :: "u64 option"
  pb_limit_field :: sample_field
  pb_limit :: "u64 option"
  pb_label :: string

definition empty_basis :: pressure_basis where
  "empty_basis =
     \<lparr>pb_kind = PB_None, pb_value_field = Count, pb_value = None, pb_limit_field = Count,
      pb_limit = None, pb_label = []\<rparr>"

record trace_entry =
  te_rule :: rule_id
  te_matched :: bool
  te_detail :: string
  te_operand :: u64
  te_threshold :: u64

record classification_result =
  cr_state :: pressure_state
  cr_queue_text :: string
  cr_trace :: "trace_entry list"
  cr_basis :: pressure_basis
  cr_assessment :: evidence_assessment
  cr_policy_version :: u32
  cr_policy_name :: string
  cr_explanation_digest :: u64
  cr_deciding_rule :: rule_id

definition empty_result :: classification_result where
  "empty_result =
     \<lparr>cr_state = PS_Unknown, cr_queue_text = [], cr_trace = [], cr_basis = empty_basis,
      cr_assessment = empty_assessment, cr_policy_version = 0, cr_policy_name = [],
      cr_explanation_digest = 0, cr_deciding_rule = EvidencePresence\<rparr>"

section \<open>Rendering\<close>

fun rule_name :: "rule_id \<Rightarrow> string" where
  "rule_name EvidencePresence = ''evidence_presence''"
| "rule_name EvidenceConflict = ''evidence_conflict''"
| "rule_name EvidenceUnsupported = ''evidence_unsupported''"
| "rule_name EvidenceFreshness = ''evidence_freshness''"
| "rule_name RequiredFields = ''required_fields''"
| "rule_name PressureBasis = ''pressure_basis''"
| "rule_name DroppingEvidence = ''dropping_evidence''"
| "rule_name PauseEvidence = ''pause_evidence''"
| "rule_name SaturationLevel = ''saturation_level''"
| "rule_name PressureLevel = ''pressure_level''"
| "rule_name ElevationLevel = ''elevation_level''"
| "rule_name IdleEvidence = ''idle_evidence''"
| "rule_name DefaultNormal = ''default_normal''"

definition reported_text :: "u64 option \<Rightarrow> string" where
  "reported_text v = (case v of None \<Rightarrow> ''not_reported'' | Some x \<Rightarrow> dec_u64 x)"

definition trace_line :: "nat \<Rightarrow> trace_entry \<Rightarrow> string \<times> string" where
  "trace_line index e =
     (''trace.'' @ dec_nat index,
      ''rule='' @ rule_name (te_rule e) @ '' matched='' @ (if te_matched e then ''true'' else ''false'')
      @ '' operand='' @ dec_u64 (te_operand e) @ '' threshold='' @ dec_u64 (te_threshold e)
      @ '' detail='' @ te_detail e)"

definition explanation_lines :: "classification_result \<Rightarrow> (string \<times> string) list" where
  "explanation_lines r =
     [(''policy'', cr_policy_name r @ ''@'' @ dec_nat (unat (cr_policy_version r))),
      (''queue'', if cr_queue_text r = [] then ''<unset>'' else cr_queue_text r),
      (''state'', pressure_state_text (cr_state r)),
      (''severity_rank'', dec_nat (unat (pressure_severity_rank (cr_state r)))),
      (''deciding_rule'',
         rule_name (cr_deciding_rule r) @ ''#'' @ dec_nat (rule_number (cr_deciding_rule r))),
      (''basis'', pb_label (cr_basis r) @ '' ('' @ basis_kind_text (pb_kind (cr_basis r)) @ '')''),
      (''basis_value'', reported_text (pb_value (cr_basis r))),
      (''basis_limit'', reported_text (pb_limit (cr_basis r))),
      (''assessment'', describe_assessment (cr_assessment r))]
     @ map2 trace_line [0..<length (cr_trace r)] (cr_trace r)"

definition render_explanation :: "classification_result \<Rightarrow> string" where
  "render_explanation r =
     concat (map (\<lambda>(key, value). key @ '': '' @ value @ [CHR 0x0A]) (explanation_lines r))"

definition render_explanation_summary :: "classification_result \<Rightarrow> string" where
  "render_explanation_summary r =
     ''state='' @ pressure_state_text (cr_state r) @ '' rule='' @ rule_name (cr_deciding_rule r)
     @ '' basis='' @ pb_label (cr_basis r) @ '' value='' @ reported_text (pb_value (cr_basis r))
     @ '' limit='' @ reported_text (pb_limit (cr_basis r))
     @ '' freshness='' @ freshness_text (ea_freshness (cr_assessment r))
     @ '' quality='' @ quality_text (ea_quality (cr_assessment r))
     @ '' policy='' @ cr_policy_name r @ ''@'' @ dec_nat (unat (cr_policy_version r))"

definition explanation_digest :: "classification_result \<Rightarrow> u64" where
  "explanation_digest r = fnv1a64 (render_explanation r @ render_explanation_summary r)"

section \<open>Lemmas\<close>

lemma rule_number_inj: "rule_number a = rule_number b \<longleftrightarrow> a = b"
  by (cases a; cases b) auto

lemma explanation_lines_length: "length (explanation_lines r) = 9 + length (cr_trace r)"
  by (simp add: explanation_lines_def)

text \<open>The digest does not depend on the digest field it is stored in.\<close>

lemma explanation_digest_stored:
  "explanation_digest (r\<lparr>cr_explanation_digest := d\<rparr>) = explanation_digest r"
  by (simp add: explanation_digest_def render_explanation_def render_explanation_summary_def
      explanation_lines_def)

end
