(* ===== verification/Classification.thy ===== *)
theory Classification
  imports Explanation
begin

text \<open>
  The classifier (\<^verbatim>\<open>src/policy/Classification.cpp\<close>): the choice of the measurement basis
  and the thirteen ordered rules. Each rule is a definition that either decides the result
  or appends its entry to the trace and goes on. The specification is a decision table,
  one row per rule with its condition and its state; the refinement lemma says that the
  classifier returns the first row that matches and that its trace is the path to it.
\<close>

section \<open>Input\<close>

record classification_input =
  ci_queue :: queue_path
  ci_assessment :: evidence_assessment
  ci_reported :: field_mask
  ci_preferred_basis :: pressure_basis_kind
  ci_occupancy_cells :: "u64 option"
  ci_occupancy_bytes :: "u64 option"
  ci_queue_depth_packets :: "u64 option"
  ci_dynamic_threshold_cells :: "u64 option"
  ci_static_threshold_cells :: "u64 option"
  ci_max_depth_packets :: "u64 option"
  ci_drops :: counter_delta
  ci_marks :: counter_delta
  ci_pause_frames :: counter_delta
  ci_pause_duration :: counter_delta
  ci_enqueues :: counter_delta
  ci_dequeues :: counter_delta
  ci_peer_conflict :: bool

definition empty_input :: classification_input where
  "empty_input =
     \<lparr>ci_queue = empty_path, ci_assessment = empty_assessment, ci_reported = 0,
      ci_preferred_basis = CellsAgainstThreshold, ci_occupancy_cells = None,
      ci_occupancy_bytes = None, ci_queue_depth_packets = None,
      ci_dynamic_threshold_cells = None, ci_static_threshold_cells = None,
      ci_max_depth_packets = None, ci_drops = empty_delta, ci_marks = empty_delta,
      ci_pause_frames = empty_delta, ci_pause_duration = empty_delta,
      ci_enqueues = empty_delta, ci_dequeues = empty_delta, ci_peer_conflict = False\<rparr>"

definition make_classification_input :: "queue_sample \<Rightarrow> classification_input" where
  "make_classification_input s = empty_input
     \<lparr>ci_queue := qs_queue s, ci_reported := qs_reported s,
      ci_occupancy_cells := sample_value s OccupancyCells,
      ci_occupancy_bytes := sample_value s OccupancyBytes,
      ci_queue_depth_packets := sample_value s QueueDepthPackets,
      ci_dynamic_threshold_cells := sample_value s DynamicThresholdCells,
      ci_static_threshold_cells := sample_value s StaticThresholdCells,
      ci_max_depth_packets := sample_value s MaxDepthPackets\<rparr>"

definition field_list :: "field_mask \<Rightarrow> string" where
  "field_list m =
     (let out = append_selected (has_field m) kFieldNames [] in if out = [] then ''none'' else out)"

section \<open>The measurement basis\<close>

definition usable :: "classification_input \<Rightarrow> sample_field \<Rightarrow> u64 option \<Rightarrow> bool" where
  "usable i f v \<longleftrightarrow> v \<noteq> None \<and> has_field (ci_reported i) f"

definition cells_basis :: "classification_input \<Rightarrow> sample_field \<Rightarrow> u64 option \<Rightarrow> string \<Rightarrow> pressure_basis" where
  "cells_basis i limit_field limit label =
     \<lparr>pb_kind = CellsAgainstThreshold, pb_value_field = OccupancyCells,
      pb_value = ci_occupancy_cells i, pb_limit_field = limit_field, pb_limit = limit,
      pb_label = label\<rparr>"

definition try_cells :: "classification_input \<Rightarrow> pressure_basis option" where
  "try_cells i =
     (if \<not> usable i OccupancyCells (ci_occupancy_cells i) then None
      else if usable i DynamicThresholdCells (ci_dynamic_threshold_cells i)
      then Some (cells_basis i DynamicThresholdCells (ci_dynamic_threshold_cells i)
                   ''cells:dynamic_threshold'')
      else if usable i StaticThresholdCells (ci_static_threshold_cells i)
      then Some (cells_basis i StaticThresholdCells (ci_static_threshold_cells i)
                   ''cells:static_threshold'')
      else None)"

definition try_packets :: "classification_input \<Rightarrow> pressure_basis option" where
  "try_packets i =
     (if usable i QueueDepthPackets (ci_queue_depth_packets i) \<and>
         usable i MaxDepthPackets (ci_max_depth_packets i)
      then Some \<lparr>pb_kind = PacketsAgainstDepth, pb_value_field = QueueDepthPackets,
                 pb_value = ci_queue_depth_packets i, pb_limit_field = MaxDepthPackets,
                 pb_limit = ci_max_depth_packets i, pb_label = ''packets:max_depth''\<rparr>
      else None)"

definition try_absolute :: "pressure_policy \<Rightarrow> classification_input \<Rightarrow> pressure_basis option" where
  "try_absolute p i =
     (if pol_allow_absolute_thresholds p then
        (let have_absolute = elevated_at (pol_absolute p) \<noteq> None \<or>
                             pressured_at (pol_absolute p) \<noteq> None \<or>
                             saturated_at (pol_absolute p) \<noteq> None
         in if have_absolute \<and> usable i OccupancyCells (ci_occupancy_cells i)
            then Some (empty_basis\<lparr>pb_kind := PB_Absolute, pb_value_field := OccupancyCells,
                         pb_value := ci_occupancy_cells i, pb_label := ''cells:absolute''\<rparr>)
            else if have_absolute \<and> pol_allow_byte_basis p \<and>
                    usable i OccupancyBytes (ci_occupancy_bytes i)
            then Some (empty_basis\<lparr>pb_kind := PB_Absolute, pb_value_field := OccupancyBytes,
                         pb_value := ci_occupancy_bytes i, pb_label := ''bytes:absolute''\<rparr>)
            else None)
      else None)"

definition missing_basis :: "classification_input \<Rightarrow> pressure_basis" where
  "missing_basis i =
     (if usable i OccupancyCells (ci_occupancy_cells i)
      then empty_basis\<lparr>pb_value_field := OccupancyCells, pb_value := ci_occupancy_cells i,
             pb_label := ''cells:no_threshold_reported''\<rparr>
      else if usable i QueueDepthPackets (ci_queue_depth_packets i)
      then empty_basis\<lparr>pb_value_field := QueueDepthPackets, pb_value := ci_queue_depth_packets i,
             pb_label := ''packets:no_depth_limit_reported''\<rparr>
      else if usable i OccupancyBytes (ci_occupancy_bytes i)
      then empty_basis\<lparr>pb_value_field := OccupancyBytes, pb_value := ci_occupancy_bytes i,
             pb_label := ''bytes:no_threshold_reported''\<rparr>
      else empty_basis\<lparr>pb_label := ''no_measurement_reported''\<rparr>)"

definition or_else :: "'a option \<Rightarrow> 'a option \<Rightarrow> 'a option" where
  "or_else a b = (case a of None \<Rightarrow> b | Some x \<Rightarrow> Some x)"

definition resolve_pressure_basis :: "pressure_policy \<Rightarrow> classification_input \<Rightarrow> pressure_basis" where
  "resolve_pressure_basis p i =
     (let relative = (if pol_prefer_cells_over_packets p then or_else (try_cells i) (try_packets i)
                      else or_else (try_packets i) (try_cells i))
      in case or_else relative (try_absolute p i) of
           Some b \<Rightarrow> b
         | None \<Rightarrow> missing_basis i)"

section \<open>The rules\<close>

datatype rule_outcome =
    Decided (outcome_result: classification_result)
  | Continue (outcome_result: classification_result)

definition add_trace ::
    "classification_result \<Rightarrow> rule_id \<Rightarrow> bool \<Rightarrow> string \<Rightarrow> u64 \<Rightarrow> u64 \<Rightarrow> classification_result" where
  "add_trace r rule matched detail operand threshold = r\<lparr>cr_trace := cr_trace r @
     [\<lparr>te_rule = rule, te_matched = matched, te_detail = detail, te_operand = operand,
       te_threshold = threshold\<rparr>]\<rparr>"

definition conclude :: "classification_result \<Rightarrow> pressure_state \<Rightarrow> rule_id \<Rightarrow> classification_result" where
  "conclude r state rule =
     (let r' = r\<lparr>cr_state := state, cr_deciding_rule := rule\<rparr>
      in r'\<lparr>cr_explanation_digest := explanation_digest r'\<rparr>)"

definition decide ::
    "classification_result \<Rightarrow> rule_id \<Rightarrow> pressure_state \<Rightarrow> string \<Rightarrow> u64 \<Rightarrow> u64 \<Rightarrow> rule_outcome" where
  "decide r rule state detail operand threshold =
     Decided (conclude (add_trace r rule True detail operand threshold) state rule)"

definition go_on ::
    "classification_result \<Rightarrow> rule_id \<Rightarrow> string \<Rightarrow> u64 \<Rightarrow> u64 \<Rightarrow> rule_outcome" where
  "go_on r rule detail operand threshold = Continue (add_trace r rule False detail operand threshold)"

definition initial_result :: "pressure_policy \<Rightarrow> classification_input \<Rightarrow> classification_result" where
  "initial_result p i = empty_result
     \<lparr>cr_queue_text := queue_path_to_string (ci_queue i), cr_policy_version := pol_version p,
      cr_policy_name := pol_name p, cr_assessment := ci_assessment i\<rparr>"

definition rule_evidence_presence :: "classification_input \<Rightarrow> classification_result \<Rightarrow> rule_outcome" where
  "rule_evidence_presence i r =
     (if ea_quality (ci_assessment i) = Q_Unknown \<or> ci_reported i = 0
      then decide r EvidencePresence PS_Unknown ''no evidence has been recorded for this queue'' 0 0
      else go_on r EvidencePresence
             (''evidence present: '' @ describe_assessment (ci_assessment i)) 0 0)"

definition rule_evidence_conflict :: "classification_input \<Rightarrow> classification_result \<Rightarrow> rule_outcome" where
  "rule_evidence_conflict i r =
     (if ci_peer_conflict i \<or> ea_quality (ci_assessment i) = Q_Conflicting
      then decide r EvidenceConflict PS_Conflicting
             ''equally authoritative sources disagree beyond the configured tolerance'' 0 0
      else go_on r EvidenceConflict ''no peer disagreement is recorded'' 0 0)"

definition rule_evidence_unsupported :: "classification_input \<Rightarrow> classification_result \<Rightarrow> rule_outcome" where
  "rule_evidence_unsupported i r =
     (if ea_quality (ci_assessment i) = Q_Unsupported
      then decide r EvidenceUnsupported PS_Unknown
             ''the reported evidence is not interpreted by this runtime'' 0 0
      else go_on r EvidenceUnsupported ''evidence is supported'' 0 0)"

definition age_text :: "evidence_assessment \<Rightarrow> string" where
  "age_text a = dec_u64 (u64_of_i64 (if ea_age a < 0 then 0 else ea_age a))"

definition rule_evidence_freshness :: "classification_input \<Rightarrow> classification_result \<Rightarrow> rule_outcome" where
  "rule_evidence_freshness i r =
     (if ea_freshness (ci_assessment i) \<noteq> F_Fresh
      then decide r EvidenceFreshness PS_Stale
             (''freshness is '' @ freshness_text (ea_freshness (ci_assessment i)) @ '' with age ''
              @ age_text (ci_assessment i) @ ''ns; only fresh evidence defines the current state'') 0 0
      else go_on r EvidenceFreshness
             (''evidence is fresh with age '' @ age_text (ci_assessment i) @ ''ns'') 0 0)"

definition rule_required_fields ::
    "pressure_policy \<Rightarrow> classification_input \<Rightarrow> classification_result \<Rightarrow> rule_outcome" where
  "rule_required_fields p i r =
     (let missing = pol_required_fields p AND NOT (ci_reported i)
      in if missing \<noteq> 0
         then decide r RequiredFields PS_Unknown
                (''required fields were not reported: '' @ field_list missing) 0 0
         else if pol_required_any_fields p \<noteq> 0 \<and> pol_required_any_fields p AND ci_reported i = 0
         then decide r RequiredFields PS_Unknown
                (''none of the alternative measurement fields were reported: ''
                 @ field_list (pol_required_any_fields p)) 0 0
         else go_on r RequiredFields ''all required fields were reported'' 0 0)"

definition value_or :: "u64 \<Rightarrow> u64 option \<Rightarrow> u64" where
  "value_or d v = (case v of None \<Rightarrow> d | Some x \<Rightarrow> x)"

definition rule_pressure_basis :: "pressure_basis \<Rightarrow> classification_result \<Rightarrow> rule_outcome" where
  "rule_pressure_basis basis r =
     (let r' = r\<lparr>cr_basis := basis\<rparr>
      in if pb_kind basis = PB_None
         then decide r' PressureBasis PS_Unknown (''no usable pressure basis: '' @ pb_label basis) 0 0
         else go_on r' PressureBasis (''pressure basis is '' @ pb_label basis)
                (value_or 0 (pb_value basis)) (value_or 0 (pb_limit basis)))"

definition rule_dropping ::
    "pressure_policy \<Rightarrow> classification_input \<Rightarrow> classification_result \<Rightarrow> rule_outcome" where
  "rule_dropping p i r =
     (let threshold = dropping_at_drops (pol_absolute p)
      in if cd_known (ci_drops i) \<and> cd_delta (ci_drops i) \<ge> threshold
         then decide r DroppingEvidence PS_Dropping
                ''drop counter advanced inside the evaluation window'' (cd_delta (ci_drops i)) threshold
         else if \<not> cd_known (ci_drops i)
         then go_on r DroppingEvidence
                ''drop delta is unknown for this window; no drop claim is made'' 0 0
         else go_on r DroppingEvidence ''no drop evidence inside the evaluation window''
                (cd_delta (ci_drops i)) threshold)"

definition pause_by_frames :: "pressure_policy \<Rightarrow> classification_input \<Rightarrow> bool" where
  "pause_by_frames p i \<longleftrightarrow> cd_known (ci_pause_frames i) \<and>
     cd_delta (ci_pause_frames i) \<ge> paused_at_pause_frames (pol_absolute p)"

definition pause_by_time :: "pressure_policy \<Rightarrow> classification_input \<Rightarrow> bool" where
  "pause_by_time p i \<longleftrightarrow> cd_known (ci_pause_duration i) \<and>
     cd_delta (ci_pause_duration i) \<ge> paused_at_pause_nanos (pol_absolute p)"

definition rule_pause ::
    "pressure_policy \<Rightarrow> classification_input \<Rightarrow> classification_result \<Rightarrow> rule_outcome" where
  "rule_pause p i r =
     (if pause_by_frames p i \<or> pause_by_time p i
      then decide r PauseEvidence PS_Paused ''pause evidence was observed inside the window''
             (if pause_by_frames p i then cd_delta (ci_pause_frames i)
              else cd_delta (ci_pause_duration i))
             (if pause_by_frames p i then paused_at_pause_frames (pol_absolute p)
              else paused_at_pause_nanos (pol_absolute p))
      else go_on r PauseEvidence ''no pause evidence inside the evaluation window'' 0 0)"

text \<open>The level thresholds: configured absolute values, or per-mille of the limit.\<close>

definition level_threshold ::
    "(pressure_thresholds \<Rightarrow> u64 option) \<Rightarrow> (relative_thresholds \<Rightarrow> u32) \<Rightarrow> pressure_policy
     \<Rightarrow> pressure_basis \<Rightarrow> u64 option" where
  "level_threshold at permille p basis =
     (if pb_kind basis = PB_Absolute then at (pol_absolute p)
      else case permille_of (value_or 0 (pb_limit basis)) (permille (pol_relative p)) of
             Inl _ \<Rightarrow> None
           | Inr t \<Rightarrow> Some t)"

definition reaches :: "u64 \<Rightarrow> u64 option \<Rightarrow> bool" where
  "reaches measurement threshold =
     (case threshold of None \<Rightarrow> False | Some t \<Rightarrow> measurement \<ge> t)"

definition rule_saturation ::
    "pressure_policy \<Rightarrow> pressure_basis \<Rightarrow> classification_result \<Rightarrow> rule_outcome" where
  "rule_saturation p basis r =
     (let threshold = level_threshold saturated_at saturated_permille p basis;
          measurement = value_or 0 (pb_value basis)
      in if reaches measurement threshold
         then decide r SaturationLevel PS_Saturated
                ''measurement is at or above the saturation threshold'' measurement
                (value_or 0 threshold)
         else go_on r SaturationLevel ''measurement is below the saturation threshold'' measurement
                (value_or 0 threshold))"

definition marks_indicate_pressure :: "pressure_policy \<Rightarrow> classification_input \<Rightarrow> bool" where
  "marks_indicate_pressure p i \<longleftrightarrow> cd_known (ci_marks i) \<and>
     cd_delta (ci_marks i) \<ge> marks_indicate_pressure_at (pol_absolute p)"

definition rule_pressure ::
    "pressure_policy \<Rightarrow> classification_input \<Rightarrow> pressure_basis \<Rightarrow> classification_result \<Rightarrow> rule_outcome" where
  "rule_pressure p i basis r =
     (let threshold = level_threshold pressured_at pressured_permille p basis;
          measurement = value_or 0 (pb_value basis)
      in if reaches measurement threshold
         then decide r PressureLevel PS_Pressured
                ''measurement is at or above the pressure threshold'' measurement
                (value_or 0 threshold)
         else if marks_indicate_pressure p i
         then decide r PressureLevel PS_Pressured
                ''congestion marks were observed inside the window even though occupancy is below the pressure threshold''
                (cd_delta (ci_marks i)) (marks_indicate_pressure_at (pol_absolute p))
         else go_on r PressureLevel ''measurement is below the pressure threshold'' measurement
                (value_or 0 threshold))"

definition rule_elevation ::
    "pressure_policy \<Rightarrow> pressure_basis \<Rightarrow> classification_result \<Rightarrow> rule_outcome" where
  "rule_elevation p basis r =
     (let threshold = level_threshold elevated_at elevated_permille p basis;
          measurement = value_or 0 (pb_value basis)
      in if reaches measurement threshold
         then decide r ElevationLevel PS_Elevated
                ''measurement is at or above the elevated threshold'' measurement
                (value_or 0 threshold)
         else go_on r ElevationLevel ''measurement is below the elevated threshold'' measurement
                (value_or 0 threshold))"

definition rule_idle ::
    "classification_input \<Rightarrow> pressure_basis \<Rightarrow> classification_result \<Rightarrow> rule_outcome" where
  "rule_idle i basis r =
     (let measurement = value_or 0 (pb_value basis)
      in if measurement = 0 \<and> cd_known (ci_enqueues i) \<and> cd_delta (ci_enqueues i) = 0
         then decide r IdleEvidence PS_Idle ''occupancy is zero and no traffic was enqueued'' 0 0
         else if measurement = 0 \<and> \<not> cd_known (ci_enqueues i)
         then go_on r IdleEvidence
                ''occupancy is zero but the enqueue delta is unknown, so idleness is not claimed'' 0 0
         else if measurement \<noteq> 0
         then go_on r IdleEvidence ''occupancy is non-zero'' measurement 0
         else go_on r IdleEvidence ''traffic was enqueued inside the window''
                (cd_delta (ci_enqueues i)) 0)"

definition rule_default_normal :: "classification_result \<Rightarrow> rule_outcome" where
  "rule_default_normal r =
     decide r DefaultNormal PS_Normal
       ''no rule above matched; the queue is operating without observed pressure'' 0 0"

fun run_rules :: "(classification_result \<Rightarrow> rule_outcome) list \<Rightarrow> classification_result \<Rightarrow> rule_outcome" where
  "run_rules [] r = Continue r"
| "run_rules (f # fs) r = (case f r of Decided r' \<Rightarrow> Decided r' | Continue r' \<Rightarrow> run_rules fs r')"

definition classification_rules ::
    "pressure_policy \<Rightarrow> classification_input \<Rightarrow> (classification_result \<Rightarrow> rule_outcome) list" where
  "classification_rules p i =
     (let basis = resolve_pressure_basis p i
      in [rule_evidence_presence i, rule_evidence_conflict i, rule_evidence_unsupported i,
          rule_evidence_freshness i, rule_required_fields p i, rule_pressure_basis basis,
          rule_dropping p i, rule_pause p i, rule_saturation p basis, rule_pressure p i basis,
          rule_elevation p basis, rule_idle i basis, rule_default_normal])"

definition classify :: "pressure_policy \<Rightarrow> classification_input \<Rightarrow> classification_result" where
  "classify p i = outcome_result (run_rules (classification_rules p i) (initial_result p i))"

section \<open>The decision table\<close>

definition decision_table ::
    "pressure_policy \<Rightarrow> classification_input \<Rightarrow> (rule_id \<times> bool \<times> pressure_state) list" where
  "decision_table p i =
     (let a = ci_assessment i;
          basis = resolve_pressure_basis p i;
          measurement = value_or 0 (pb_value basis)
      in [(EvidencePresence, ea_quality a = Q_Unknown \<or> ci_reported i = 0, PS_Unknown),
          (EvidenceConflict, ci_peer_conflict i \<or> ea_quality a = Q_Conflicting, PS_Conflicting),
          (EvidenceUnsupported, ea_quality a = Q_Unsupported, PS_Unknown),
          (EvidenceFreshness, ea_freshness a \<noteq> F_Fresh, PS_Stale),
          (RequiredFields,
             pol_required_fields p AND NOT (ci_reported i) \<noteq> 0 \<or>
             (pol_required_any_fields p \<noteq> 0 \<and> pol_required_any_fields p AND ci_reported i = 0),
             PS_Unknown),
          (PressureBasis, pb_kind basis = PB_None, PS_Unknown),
          (DroppingEvidence, cd_known (ci_drops i) \<and>
             cd_delta (ci_drops i) \<ge> dropping_at_drops (pol_absolute p), PS_Dropping),
          (PauseEvidence, pause_by_frames p i \<or> pause_by_time p i, PS_Paused),
          (SaturationLevel,
             reaches measurement (level_threshold saturated_at saturated_permille p basis),
             PS_Saturated),
          (PressureLevel,
             reaches measurement (level_threshold pressured_at pressured_permille p basis) \<or>
             marks_indicate_pressure p i, PS_Pressured),
          (ElevationLevel,
             reaches measurement (level_threshold elevated_at elevated_permille p basis),
             PS_Elevated),
          (IdleEvidence, measurement = 0 \<and> cd_known (ci_enqueues i) \<and>
             cd_delta (ci_enqueues i) = 0, PS_Idle),
          (DefaultNormal, True, PS_Normal)])"

fun first_match :: "(rule_id \<times> bool \<times> pressure_state) list \<Rightarrow> (rule_id \<times> pressure_state) option" where
  "first_match [] = None"
| "first_match ((rule, matched, state) # rows) =
     (if matched then Some (rule, state) else first_match rows)"

fun path_to_match :: "(rule_id \<times> bool \<times> pressure_state) list \<Rightarrow> (rule_id \<times> bool) list" where
  "path_to_match [] = []"
| "path_to_match ((rule, matched, state) # rows) =
     (rule, matched) # (if matched then [] else path_to_match rows)"

section \<open>Refinement\<close>

text \<open>A rule implements a row: it decides the row's state when the row matches and goes on
  otherwise, and in both cases it appends exactly one entry, named after the row.\<close>

definition implements ::
    "(classification_result \<Rightarrow> rule_outcome) \<Rightarrow> rule_id \<times> bool \<times> pressure_state \<Rightarrow> bool" where
  "implements f row = (case row of (rule, matched, state) \<Rightarrow>
     \<forall>r. (case f r of
            Decided r' \<Rightarrow> matched \<and> cr_state r' = state \<and> cr_deciding_rule r' = rule \<and>
              cr_explanation_digest r' = explanation_digest r'
          | Continue r' \<Rightarrow> \<not> matched) \<and>
         map (\<lambda>e. (te_rule e, te_matched e)) (cr_trace (outcome_result (f r))) =
           map (\<lambda>e. (te_rule e, te_matched e)) (cr_trace r) @ [(rule, matched)] \<and>
         cr_assessment (outcome_result (f r)) = cr_assessment r \<and>
         cr_policy_version (outcome_result (f r)) = cr_policy_version r \<and>
         cr_queue_text (outcome_result (f r)) = cr_queue_text r)"

named_theorems rule_defs \<open>the definitions of the classification rules\<close>

lemmas rule_definitions [rule_defs] =
  rule_evidence_presence_def rule_evidence_conflict_def rule_evidence_unsupported_def
  rule_evidence_freshness_def rule_required_fields_def rule_pressure_basis_def
  rule_dropping_def rule_pause_def rule_saturation_def rule_pressure_def rule_elevation_def
  rule_idle_def rule_default_normal_def

lemma rules_implement_table: "list_all2 implements (classification_rules p i) (decision_table p i)"
  unfolding classification_rules_def decision_table_def Let_def list.rel_inject
  by (intro conjI list.rel_intros)
    (simp_all add: implements_def rule_defs decide_def go_on_def conclude_def add_trace_def Let_def
      explanation_digest_stored)

definition rule_path :: "classification_result \<Rightarrow> (rule_id \<times> bool) list" where
  "rule_path r = map (\<lambda>e. (te_rule e, te_matched e)) (cr_trace r)"

lemma run_rules_refines:
  assumes "list_all2 implements fs rows" "first_match rows = Some (rule, state)"
  shows "\<exists>r'. run_rules fs r = Decided r' \<and> cr_state r' = state \<and> cr_deciding_rule r' = rule \<and>
    cr_explanation_digest r' = explanation_digest r' \<and>
    rule_path r' = rule_path r @ path_to_match rows \<and> cr_assessment r' = cr_assessment r \<and>
    cr_policy_version r' = cr_policy_version r \<and> cr_queue_text r' = cr_queue_text r"
  using assms
proof (induction fs rows arbitrary: r rule: list_all2_induct)
  case (Cons f fs row rows)
  obtain rl m st where row: "row = (rl, m, st)" by (cases row)
  note impl = Cons.hyps(1) [unfolded implements_def row, simplified, THEN spec, of r]
  show ?case
  proof (cases "f r")
    case (Decided r')
    then show ?thesis using impl Cons.prems by (simp add: row rule_path_def)
  next
    case (Continue r')
    then obtain r'' where "run_rules fs r' = Decided r''" "cr_state r'' = state"
        "cr_deciding_rule r'' = rule" "cr_explanation_digest r'' = explanation_digest r''"
        "rule_path r'' = rule_path r' @ path_to_match rows"
        "cr_assessment r'' = cr_assessment r'" "cr_policy_version r'' = cr_policy_version r'"
        "cr_queue_text r'' = cr_queue_text r'"
      using impl Cons.prems Cons.IH [of r'] by (auto simp: row)
    then show ?thesis using impl Continue by (simp add: row rule_path_def)
  qed
qed simp

lemma table_decides: "\<exists>rule state. first_match (decision_table p i) = Some (rule, state)"
  by (simp add: decision_table_def Let_def)

lemma classify_facts:
  "first_match (decision_table p i) = Some (cr_deciding_rule (classify p i), cr_state (classify p i))"
  "rule_path (classify p i) = path_to_match (decision_table p i)"
  "cr_explanation_digest (classify p i) = explanation_digest (classify p i)"
  "cr_assessment (classify p i) = ci_assessment i"
  "cr_policy_version (classify p i) = pol_version p"
proof -
  obtain rule state where "first_match (decision_table p i) = Some (rule, state)"
    using table_decides by blast
  then show
    "first_match (decision_table p i) = Some (cr_deciding_rule (classify p i), cr_state (classify p i))"
    "rule_path (classify p i) = path_to_match (decision_table p i)"
    "cr_explanation_digest (classify p i) = explanation_digest (classify p i)"
    "cr_assessment (classify p i) = ci_assessment i"
    "cr_policy_version (classify p i) = pol_version p"
    using run_rules_refines [OF rules_implement_table, of p i rule state "initial_result p i"]
    by (auto simp: classify_def initial_result_def rule_path_def empty_result_def)
qed

lemma classify_state:
  "first_match (decision_table p i) = Some (rule, state) \<Longrightarrow> cr_state (classify p i) = state"
  using classify_facts(1) by simp

text \<open>The states that claim something about the present load of a queue.\<close>

definition live_state :: "pressure_state \<Rightarrow> bool" where
  "live_state s \<longleftrightarrow> s \<notin> {PS_Unknown, PS_Stale, PS_Conflicting}"

lemma live_state_evidence:
  assumes "live_state (cr_state (classify p i))"
  shows "ea_freshness (ci_assessment i) = F_Fresh \<and> ci_reported i \<noteq> 0 \<and> \<not> ci_peer_conflict i \<and>
    ea_quality (ci_assessment i) \<in> {Q_Complete, Q_Incomplete} \<and>
    pol_required_fields p AND NOT (ci_reported i) = 0 \<and>
    pb_kind (resolve_pressure_basis p i) \<noteq> PB_None"
  using assms classify_facts(1) [of p i]
  by (cases "ea_quality (ci_assessment i)")
    (auto simp: live_state_def decision_table_def Let_def split: if_splits)

text \<open>An input with fresh, complete evidence of an occupancy of \<open>cells\<close> against a dynamic
  threshold of 1000 cells; it is used to exhibit the states.\<close>

definition probe :: "u64 \<Rightarrow> classification_input" where
  "probe cells = empty_input
     \<lparr>ci_assessment := empty_assessment\<lparr>ea_freshness := F_Fresh, ea_quality := Q_Complete\<rparr>,
      ci_reported := 0x82, ci_occupancy_cells := Some cells,
      ci_dynamic_threshold_cells := Some 1000\<rparr>"

definition seen_delta :: "u64 \<Rightarrow> counter_delta" where
  "seen_delta n = \<lparr>cd_continuity = Continuous, cd_known = True, cd_delta = n\<rparr>"

lemma probe_masks:
  "has_field 0x82 OccupancyCells" "has_field 0x82 DynamicThresholdCells"
  "pol_required_any_fields default_pressure_policy AND 0x82 \<noteq> 0"
  "pol_required_fields default_pressure_policy = 0"
  by (simp_all add: has_field_def field_bit_def default_pressure_policy_def)

lemma probe_basis:
  "resolve_pressure_basis default_pressure_policy
     (probe cells\<lparr>ci_drops := d, ci_pause_frames := pf, ci_enqueues := e\<rparr>) =
   cells_basis (probe cells) DynamicThresholdCells (Some 1000) ''cells:dynamic_threshold''"
  by (simp add: resolve_pressure_basis_def or_else_def try_cells_def usable_def probe_def
      probe_masks default_pressure_policy_def cells_basis_def Let_def)

lemma probe_levels:
  "level_threshold saturated_at saturated_permille default_pressure_policy
     (cells_basis i DynamicThresholdCells (Some 1000) l) = Some 950"
  "level_threshold pressured_at pressured_permille default_pressure_policy
     (cells_basis i DynamicThresholdCells (Some 1000) l) = Some 750"
  "level_threshold elevated_at elevated_permille default_pressure_policy
     (cells_basis i DynamicThresholdCells (Some 1000) l) = Some 500"
  by (simp_all add: level_threshold_def cells_basis_def default_pressure_policy_def value_or_def
      permille_of_cases)

lemma probe_table:
  "first_match (decision_table default_pressure_policy
     (probe cells\<lparr>ci_drops := d, ci_pause_frames := pf, ci_enqueues := e\<rparr>)) =
   Some (if cd_known d \<and> cd_delta d \<ge> 1 then (DroppingEvidence, PS_Dropping)
         else if cd_known pf \<and> cd_delta pf \<ge> 1 then (PauseEvidence, PS_Paused)
         else if cells \<ge> 950 then (SaturationLevel, PS_Saturated)
         else if cells \<ge> 750 then (PressureLevel, PS_Pressured)
         else if cells \<ge> 500 then (ElevationLevel, PS_Elevated)
         else if cells = 0 \<and> cd_known e \<and> cd_delta e = 0 then (IdleEvidence, PS_Idle)
         else (DefaultNormal, PS_Normal))"
proof -
  have simple: "ci_reported (probe cells) = 0x82" "\<not> ci_peer_conflict (probe cells)"
    "ea_quality (ci_assessment (probe cells)) = Q_Complete"
    "ea_freshness (ci_assessment (probe cells)) = F_Fresh"
    "\<not> cd_known (ci_marks (probe cells))" "\<not> cd_known (ci_pause_duration (probe cells))"
    by (simp_all add: probe_def empty_input_def empty_delta_def)
  have abs: "dropping_at_drops (pol_absolute default_pressure_policy) = 1"
    "paused_at_pause_frames (pol_absolute default_pressure_policy) = 1"
    by (simp_all add: default_pressure_policy_def)
  have basis: "pb_kind (cells_basis (probe cells) f l t) \<noteq> PB_None"
    "pb_value (cells_basis (probe cells) f l t) = Some cells" for f l t
    by (simp_all add: cells_basis_def probe_def)
  show ?thesis
    unfolding decision_table_def Let_def probe_basis probe_levels
    by (simp add: simple basis probe_masks abs pause_by_frames_def pause_by_time_def
        marks_indicate_pressure_def reaches_def value_or_def if_distrib [of Some] cong: if_cong
        split del: if_split)
qed

lemma probe_state:
  "cr_state (classify default_pressure_policy
     (probe cells\<lparr>ci_drops := d, ci_pause_frames := pf, ci_enqueues := e\<rparr>)) =
   snd (if cd_known d \<and> cd_delta d \<ge> 1 then (DroppingEvidence, PS_Dropping)
        else if cd_known pf \<and> cd_delta pf \<ge> 1 then (PauseEvidence, PS_Paused)
        else if cells \<ge> 950 then (SaturationLevel, PS_Saturated)
        else if cells \<ge> 750 then (PressureLevel, PS_Pressured)
        else if cells \<ge> 500 then (ElevationLevel, PS_Elevated)
        else if cells = 0 \<and> cd_known e \<and> cd_delta e = 0 then (IdleEvidence, PS_Idle)
        else (DefaultNormal, PS_Normal))"
  using arg_cong [OF trans [OF sym [OF classify_facts(1)] probe_table], of "snd \<circ> the"]
  by (simp only: o_apply option.sel snd_conv)

section \<open>Monotonicity in the load\<close>

text \<open>The rules before the level rules, and the level rules on a measurement.\<close>

definition gate_rules :: "pressure_policy \<Rightarrow> classification_input \<Rightarrow> (rule_id \<times> bool \<times> pressure_state) list" where
  "gate_rules p i = take 8 (decision_table p i)"

definition level_state :: "pressure_policy \<Rightarrow> classification_input \<Rightarrow> pressure_basis \<Rightarrow> u64 \<Rightarrow> pressure_state" where
  "level_state p i basis m =
     (if reaches m (level_threshold saturated_at saturated_permille p basis) then PS_Saturated
      else if reaches m (level_threshold pressured_at pressured_permille p basis) \<or>
              marks_indicate_pressure p i then PS_Pressured
      else if reaches m (level_threshold elevated_at elevated_permille p basis) then PS_Elevated
      else if m = 0 \<and> cd_known (ci_enqueues i) \<and> cd_delta (ci_enqueues i) = 0 then PS_Idle
      else PS_Normal)"

lemma first_match_append:
  "first_match (xs @ ys) = (case first_match xs of None \<Rightarrow> first_match ys | Some r \<Rightarrow> Some r)"
  by (induction xs rule: first_match.induct) auto

lemma classify_split:
  "cr_state (classify p i) =
     (case first_match (gate_rules p i) of
        Some (rule, state) \<Rightarrow> state
      | None \<Rightarrow> level_state p i (resolve_pressure_basis p i)
                 (value_or 0 (pb_value (resolve_pressure_basis p i))))"
proof -
  have levels: "map_option snd (first_match (drop 8 (decision_table p i))) =
      Some (level_state p i (resolve_pressure_basis p i)
        (value_or 0 (pb_value (resolve_pressure_basis p i))))"
    by (simp add: decision_table_def Let_def level_state_def)
  have "first_match (decision_table p i) =
      (case first_match (take 8 (decision_table p i)) of
         None \<Rightarrow> first_match (drop 8 (decision_table p i)) | Some r \<Rightarrow> Some r)"
    by (metis first_match_append append_take_drop_id)
  then show ?thesis
    using levels classify_facts(1) [of p i] by (auto simp: gate_rules_def split: option.splits)
qed

lemma reaches_mono: "reaches m t \<Longrightarrow> m \<le> m' \<Longrightarrow> reaches m' t"
  by (auto simp: reaches_def split: option.splits)

lemma level_state_mono:
  "m \<le> m' \<Longrightarrow> pressure_severity_rank (level_state p i b m) \<le> pressure_severity_rank (level_state p i b m')"
  by (auto simp: level_state_def dest: reaches_mono)

definition with_occupancy :: "u64 \<Rightarrow> pressure_basis \<Rightarrow> pressure_basis" where
  "with_occupancy m b = (if pb_value_field b = OccupancyCells then b\<lparr>pb_value := Some m\<rparr> else b)"

lemma parts_other_occupancy:
  assumes "ci_occupancy_cells i = Some m"
  shows "try_cells (i\<lparr>ci_occupancy_cells := Some m'\<rparr>) = map_option (with_occupancy m') (try_cells i)"
    "try_packets (i\<lparr>ci_occupancy_cells := Some m'\<rparr>) = map_option (with_occupancy m') (try_packets i)"
    "try_absolute p (i\<lparr>ci_occupancy_cells := Some m'\<rparr>) = map_option (with_occupancy m') (try_absolute p i)"
    "missing_basis (i\<lparr>ci_occupancy_cells := Some m'\<rparr>) = with_occupancy m' (missing_basis i)"
  using assms
  by (auto simp: try_cells_def try_packets_def try_absolute_def missing_basis_def usable_def
      cells_basis_def with_occupancy_def empty_basis_def Let_def)

lemma or_else_map: "or_else (map_option f a) (map_option f b) = map_option f (or_else a b)"
  by (simp add: or_else_def split: option.splits)

lemma basis_other_occupancy:
  assumes "ci_occupancy_cells i = Some m"
  shows "resolve_pressure_basis p (i\<lparr>ci_occupancy_cells := Some m'\<rparr>) =
    with_occupancy m' (resolve_pressure_basis p i)"
  by (simp add: resolve_pressure_basis_def parts_other_occupancy [OF assms] or_else_map Let_def
      split: option.splits)

lemma basis_value_occupancy:
  assumes "ci_occupancy_cells i = Some m"
  shows "with_occupancy m (resolve_pressure_basis p i) = resolve_pressure_basis p i"
proof -
  have "i\<lparr>ci_occupancy_cells := Some m\<rparr> = i" using assms by (cases i) simp
  then show ?thesis using basis_other_occupancy [OF assms, of p m] by simp
qed

lemma with_occupancy_keeps [simp]:
  "pb_kind (with_occupancy m b) = pb_kind b" "pb_limit (with_occupancy m b) = pb_limit b"
  by (simp_all add: with_occupancy_def)

lemma level_state_basis:
  "level_state p (i\<lparr>ci_occupancy_cells := c\<rparr>) (with_occupancy x b) m = level_state p i b m"
  by (simp add: level_state_def level_threshold_def marks_indicate_pressure_def)

lemma measurement_mono:
  "with_occupancy m b = b \<Longrightarrow> m \<le> m' \<Longrightarrow>
     value_or 0 (pb_value b) \<le> value_or 0 (pb_value (with_occupancy m' b))"
  by (metis (no_types, lifting) order_refl option.simps(5) pressure_basis.select_convs(3)
      pressure_basis.surjective pressure_basis.update_convs(3) value_or_def with_occupancy_def)

lemma gate_rules_occupancy:
  assumes "ci_occupancy_cells i = Some m"
  shows "gate_rules p (i\<lparr>ci_occupancy_cells := Some m'\<rparr>) = gate_rules p i"
  using assms
  by (simp add: gate_rules_def decision_table_def Let_def basis_other_occupancy [OF assms]
      pause_by_frames_def pause_by_time_def)

lemma classify_mono_occupancy:
  assumes "ci_occupancy_cells i = Some m" "m \<le> m'"
  shows "pressure_severity_rank (cr_state (classify p i)) \<le>
    pressure_severity_rank (cr_state (classify p (i\<lparr>ci_occupancy_cells := Some m'\<rparr>)))"
proof -
  let ?b = "resolve_pressure_basis p i"
  have "pressure_severity_rank (level_state p i ?b (value_or 0 (pb_value ?b))) \<le>
      pressure_severity_rank (level_state p i ?b (value_or 0 (pb_value (with_occupancy m' ?b))))"
    by (intro level_state_mono measurement_mono [OF basis_value_occupancy [OF assms(1)] assms(2)])
  then show ?thesis
    by (simp add: classify_split gate_rules_occupancy [OF assms(1)] basis_other_occupancy [OF assms(1)]
        level_state_basis split: option.splits)
qed

section \<open>Authority\<close>

lemma basis_ignores_assessment:
  "try_cells (i\<lparr>ci_assessment := a\<rparr>) = try_cells i"
  "try_packets (i\<lparr>ci_assessment := a\<rparr>) = try_packets i"
  "try_absolute p (i\<lparr>ci_assessment := a\<rparr>) = try_absolute p i"
  "missing_basis (i\<lparr>ci_assessment := a\<rparr>) = missing_basis i"
  by (simp_all add: try_cells_def try_packets_def try_absolute_def missing_basis_def usable_def
      cells_basis_def Let_def cong: if_cong split del: if_split)

lemma table_ignores_authority:
  assumes "ea_quality a = Q_Complete \<or> ea_quality a = Q_Incomplete"
    and "ea_quality a' = Q_Complete \<or> ea_quality a' = Q_Incomplete"
    and "ea_freshness a = ea_freshness a'"
  shows "decision_table p (i\<lparr>ci_assessment := a\<rparr>) = decision_table p (i\<lparr>ci_assessment := a'\<rparr>)"
proof -
  have "resolve_pressure_basis p (i\<lparr>ci_assessment := a\<rparr>) = resolve_pressure_basis p (i\<lparr>ci_assessment := a'\<rparr>)"
    by (simp add: resolve_pressure_basis_def basis_ignores_assessment cong: option.case_cong)
  then show ?thesis
    using assms by (auto simp: decision_table_def Let_def pause_by_frames_def pause_by_time_def
        marks_indicate_pressure_def)
qed

lemma classify_ignores_authority:
  assumes "ea_quality a = Q_Complete \<or> ea_quality a = Q_Incomplete"
    and "ea_quality a' = Q_Complete \<or> ea_quality a' = Q_Incomplete"
    and "ea_freshness a = ea_freshness a'"
  shows "cr_state (classify p (i\<lparr>ci_assessment := a\<rparr>)) = cr_state (classify p (i\<lparr>ci_assessment := a'\<rparr>))"
  using table_ignores_authority [OF assms, of p i] classify_facts(1) by (metis option.inject prod.inject)

section \<open>Properties\<close>

text \<open>C5: the classifier refines the decision table. Its state and deciding rule are those
  of the first row that matches, its trace names the rows up to that one in order, with
  only the last one matched, and the stored digest is the digest of the result.\<close>

theorem classify_refines_table:
  "first_match (decision_table p i) = Some (cr_deciding_rule (classify p i), cr_state (classify p i)) \<and>
   map (\<lambda>e. (te_rule e, te_matched e)) (cr_trace (classify p i)) = path_to_match (decision_table p i) \<and>
   cr_explanation_digest (classify p i) = explanation_digest (classify p i)"
  using classify_facts [of p i] by (simp add: rule_path_def)

text \<open>C9: a live state needs live evidence. A queue is reported idle, normal, elevated,
  pressured, saturated, dropping or paused only from fresh, supported, undisputed evidence
  that reports every required field and has a measurement with a limit.\<close>

theorem live_state_needs_evidence:
  assumes "cr_state (classify p i) \<notin> {PS_Unknown, PS_Stale, PS_Conflicting}"
  shows "ea_freshness (ci_assessment i) = F_Fresh \<and> ci_reported i \<noteq> 0 \<and> \<not> ci_peer_conflict i \<and>
    ea_quality (ci_assessment i) \<in> {Q_Complete, Q_Incomplete} \<and>
    pol_required_fields p AND NOT (ci_reported i) = 0 \<and>
    pb_kind (resolve_pressure_basis p i) \<noteq> PB_None"
  using live_state_evidence [of p i] assms by (simp add: live_state_def)

theorem live_state_needs_evidence_witness:
  "ea_freshness (ci_assessment (probe 10\<lparr>ci_drops := empty_delta, ci_pause_frames := empty_delta,
     ci_enqueues := empty_delta\<rparr>)) = F_Fresh"
  using live_state_needs_evidence
      [of default_pressure_policy "probe 10\<lparr>ci_drops := empty_delta, ci_pause_frames := empty_delta,
         ci_enqueues := empty_delta\<rparr>"]
    probe_state [where cells = 10 and d = empty_delta and pf = empty_delta and e = empty_delta]
  by (simp add: empty_delta_def)

text \<open>Every one of the ten states is reachable under the default policy.\<close>

theorem all_states_reachable: "\<exists>i. cr_state (classify default_pressure_policy i) = state"
proof -
  have quiet: "\<not> cd_known empty_delta" by (simp add: empty_delta_def)
  have seen: "cd_known (seen_delta n)" "cd_delta (seen_delta n) = n" for n
    by (simp_all add: seen_delta_def)
  have probe: "\<exists>i. cr_state (classify default_pressure_policy i) = s"
    if "cr_state (classify default_pressure_policy
      (probe cells\<lparr>ci_drops := d, ci_pause_frames := pf, ci_enqueues := e\<rparr>)) = s" for cells d pf e s
    using that by blast
  show ?thesis
  proof (cases state)
    case PS_Unknown
    then show ?thesis
      by (intro exI [of _ empty_input] classify_state [of _ _ EvidencePresence])
        (simp add: decision_table_def Let_def empty_input_def)
  next
    case PS_Stale
    then show ?thesis
      by (intro exI [of _ "probe 0\<lparr>ci_assessment := empty_assessment\<lparr>ea_freshness := F_Stale,
            ea_quality := Q_Complete\<rparr>\<rparr>"] classify_state [of _ _ EvidenceFreshness])
        (simp add: decision_table_def Let_def probe_def empty_input_def)
  next
    case PS_Conflicting
    then show ?thesis
      by (intro exI [of _ "probe 0\<lparr>ci_peer_conflict := True\<rparr>"]
          classify_state [of _ _ EvidenceConflict])
        (simp add: decision_table_def Let_def probe_def empty_input_def)
  next
    case PS_Idle
    show ?thesis
      by (rule probe [where cells = 0 and d = empty_delta and pf = empty_delta
          and e = "seen_delta 0"]) (simp add: probe_state quiet seen PS_Idle)
  next
    case PS_Normal
    show ?thesis
      by (rule probe [where cells = 10 and d = empty_delta and pf = empty_delta
          and e = empty_delta]) (simp add: probe_state quiet seen PS_Normal)
  next
    case PS_Elevated
    show ?thesis
      by (rule probe [where cells = 500 and d = empty_delta and pf = empty_delta
          and e = empty_delta]) (simp add: probe_state quiet seen PS_Elevated)
  next
    case PS_Pressured
    show ?thesis
      by (rule probe [where cells = 750 and d = empty_delta and pf = empty_delta
          and e = empty_delta]) (simp add: probe_state quiet seen PS_Pressured)
  next
    case PS_Saturated
    show ?thesis
      by (rule probe [where cells = 950 and d = empty_delta and pf = empty_delta
          and e = empty_delta]) (simp add: probe_state quiet seen PS_Saturated)
  next
    case PS_Dropping
    show ?thesis
      by (rule probe [where cells = 0 and d = "seen_delta 1" and pf = empty_delta
          and e = empty_delta]) (simp add: probe_state quiet seen PS_Dropping)
  next
    case PS_Paused
    show ?thesis
      by (rule probe [where cells = 0 and d = empty_delta and pf = "seen_delta 1"
          and e = empty_delta]) (simp add: probe_state quiet seen PS_Paused)
  qed
qed

text \<open>C10: the reported severity is monotone in the occupancy. All else being equal, a
  higher occupancy in cells never gives a less severe state.\<close>

theorem severity_monotone_in_occupancy:
  assumes "ci_occupancy_cells i = Some m" "m \<le> m'"
  shows "pressure_severity_rank (cr_state (classify p i)) \<le>
    pressure_severity_rank (cr_state (classify p (i\<lparr>ci_occupancy_cells := Some m'\<rparr>)))"
  using assms by (rule classify_mono_occupancy)

theorem severity_monotone_in_occupancy_witness:
  "pressure_severity_rank (cr_state (classify default_pressure_policy (probe 100))) \<le>
   pressure_severity_rank (cr_state (classify default_pressure_policy
     (probe 100\<lparr>ci_occupancy_cells := Some 960\<rparr>)))"
  by (rule severity_monotone_in_occupancy [of _ 100]) (simp_all add: probe_def)

text \<open>The authority of a source and the completeness of its report play no part in the
  classification, although only complete evidence from a source of at least primary
  authority is documented to establish current pressure: two assessments that differ in
  authority, provenance, flags, age, reason or between complete and incomplete, and agree
  in freshness, give the same state.\<close>

theorem classification_ignores_authority:
  assumes "ea_quality a = Q_Complete \<or> ea_quality a = Q_Incomplete"
    and "ea_quality a' = Q_Complete \<or> ea_quality a' = Q_Incomplete"
    and "ea_freshness a = ea_freshness a'"
  shows "cr_state (classify p (i\<lparr>ci_assessment := a\<rparr>)) = cr_state (classify p (i\<lparr>ci_assessment := a'\<rparr>))"
  using assms by (rule classify_ignores_authority)

theorem classification_ignores_authority_witness:
  "(let trusted = empty_assessment\<lparr>ea_freshness := F_Fresh, ea_quality := Q_Complete,
                    ea_authority := A_Primary\<rparr>;
        doubtful = empty_assessment\<lparr>ea_freshness := F_Fresh, ea_quality := Q_Incomplete\<rparr>
    in establishes_current_pressure trusted \<and> \<not> establishes_current_pressure doubtful \<and>
       cr_state (classify default_pressure_policy (probe 10\<lparr>ci_assessment := doubtful\<rparr>)) =
         cr_state (classify default_pressure_policy (probe 10\<lparr>ci_assessment := trusted\<rparr>)))"
  unfolding Let_def
  by (intro conjI classification_ignores_authority)
    (simp_all add: establishes_current_pressure_def empty_assessment_def)

end
