(* ===== verification/History.thy ===== *)
theory History
  imports Ring Policy
begin

text \<open>
  History (\<^verbatim>\<open>include/qobs/store/History.hpp\<close>, \<^verbatim>\<open>src/store/History.cpp\<close>): the retained
  form of an observation and the fixed-capacity ring that holds the newest ones of a
  queue. The ring is an interpretation of \<open>bounded_log\<close>: whatever is pushed, its snapshot
  is the newest part of the sequence of pushes.
\<close>

section \<open>Data\<close>

record history_record =
  hr_received :: receive_time
  hr_observed :: observation_time
  hr_source :: string
  hr_generation :: u64
  hr_incarnation_ordinal :: u64
  hr_sequence :: u64
  hr_authority :: source_authority
  hr_reported :: field_mask
  hr_freshness :: freshness
  hr_quality :: evidence_quality
  hr_flags :: evidence_flags
  hr_age :: nanos
  hr_values :: "sample_field \<Rightarrow> u64"
  hr_deltas :: "sample_field \<Rightarrow> counter_delta"
  hr_state :: pressure_state
  hr_state_digest :: u64

definition empty_history_record :: history_record where
  "empty_history_record =
     \<lparr>hr_received = zero_receive, hr_observed = zero_observation, hr_source = [],
      hr_generation = 0, hr_incarnation_ordinal = 0, hr_sequence = 0, hr_authority = A_Unknown,
      hr_reported = 0, hr_freshness = F_Unknown, hr_quality = Q_Unknown, hr_flags = 0, hr_age = 0,
      hr_values = (\<lambda>_. 0), hr_deltas = (\<lambda>_. empty_delta), hr_state = PS_Unknown,
      hr_state_digest = 0\<rparr>"

definition history_value :: "history_record \<Rightarrow> sample_field \<Rightarrow> u64 option" where
  "history_value r f =
     (if field_index f \<ge> kSampleFieldCount \<or> \<not> has_field (hr_reported r) f then None
      else Some (hr_values r f))"

definition history_delta :: "history_record \<Rightarrow> sample_field \<Rightarrow> counter_delta" where
  "history_delta r f = (if field_index f < kSampleFieldCount then hr_deltas r f else empty_delta)"

definition history_establishes_current :: "history_record \<Rightarrow> bool" where
  "history_establishes_current r = establishes_current_pressure
     (empty_assessment\<lparr>ea_freshness := hr_freshness r, ea_quality := hr_quality r,
        ea_authority := hr_authority r, ea_flags := hr_flags r, ea_age := hr_age r\<rparr>)"

record history_ring =
  ring_storage :: "history_record list"
  ring_head :: nat
  ring_size :: nat
  ring_capacity :: nat
  ring_evicted :: u64

section \<open>Operations\<close>

definition empty_ring :: history_ring where
  "empty_ring = \<lparr>ring_storage = [], ring_head = 0, ring_size = 0, ring_capacity = 0, ring_evicted = 0\<rparr>"

definition ring_reserve :: "nat \<Rightarrow> history_ring" where
  "ring_reserve capacity =
     \<lparr>ring_storage = replicate capacity empty_history_record, ring_head = 0, ring_size = 0,
      ring_capacity = capacity, ring_evicted = 0\<rparr>"

definition ring_clear :: "history_ring \<Rightarrow> history_ring" where
  "ring_clear r = r\<lparr>ring_head := 0, ring_size := 0, ring_evicted := 0\<rparr>"

definition ring_push :: "history_ring \<Rightarrow> history_record \<Rightarrow> history_ring" where
  "ring_push r x =
     (if ring_capacity r = 0 \<or> ring_storage r = [] then r\<lparr>ring_evicted := ring_evicted r + 1\<rparr>
      else if ring_size r < ring_capacity r then
        r\<lparr>ring_storage := (ring_storage r)[(ring_head r + ring_size r) mod ring_capacity r := x],
          ring_size := ring_size r + 1\<rparr>
      else
        r\<lparr>ring_storage := (ring_storage r)[ring_head r := x],
          ring_head := (ring_head r + 1) mod ring_capacity r,
          ring_evicted := ring_evicted r + 1\<rparr>)"

definition ring_at :: "history_ring \<Rightarrow> nat \<Rightarrow> history_record" where
  "ring_at r index =
     (if index \<ge> ring_size r \<or> ring_capacity r = 0 then empty_history_record
      else ring_storage r ! ((ring_head r + index) mod ring_capacity r))"

definition ring_newest :: "history_ring \<Rightarrow> history_record" where
  "ring_newest r = ring_at r (ring_size r - 1)"

definition ring_snapshot :: "history_ring \<Rightarrow> history_record list" where
  "ring_snapshot r = map (ring_at r) [0..<ring_size r]"

definition ring_since :: "history_ring \<Rightarrow> nanos \<Rightarrow> history_record list" where
  "ring_since r steady =
     rev (takeWhile (\<lambda>x. \<not> rt_steady (hr_received x) < steady)
       (map (\<lambda>offset. ring_at r (ring_size r - 1 - offset)) [0..<ring_size r]))"

text \<open>The byte count of a ring depends on the layout of a record, which the compiler
  chooses; it is a parameter.\<close>

definition ring_bytes :: "nat \<Rightarrow> history_ring \<Rightarrow> nat" where
  "ring_bytes record_size r = ring_capacity r * record_size"

section \<open>The ring is a bounded log\<close>

definition ring_invar :: "history_ring \<Rightarrow> bool" where
  "ring_invar r \<longleftrightarrow>
     length (ring_storage r) = ring_capacity r \<and> ring_size r \<le> ring_capacity r \<and>
     (ring_head r < ring_capacity r \<or> ring_capacity r = 0)"

lemma ring_snapshot_items:
  assumes "ring_invar r"
  shows "ring_snapshot r = ring_items (ring_storage r) (ring_head r) (ring_size r)"
  using assms by (auto simp: ring_snapshot_def ring_items_def ring_at_def ring_invar_def)

lemma ring_invar_push: "ring_invar r \<Longrightarrow> ring_invar (ring_push r x)"
  by (auto simp: ring_invar_def ring_push_def intro: mod_less_divisor)

lemma ring_invar_reserve [simp]: "ring_invar (ring_reserve c)"
  by (auto simp: ring_invar_def ring_reserve_def)

lemma ring_snapshot_reserve [simp]: "ring_snapshot (ring_reserve c) = []"
  by (simp add: ring_snapshot_def ring_reserve_def)

lemma ring_capacity_reserve [simp]: "ring_capacity (ring_reserve c) = c"
  by (simp add: ring_reserve_def)

lemma ring_capacity_push [simp]: "ring_capacity (ring_push r x) = ring_capacity r"
  by (simp add: ring_push_def)

lemma ring_snapshot_push:
  assumes inv: "ring_invar r"
  shows "ring_snapshot (ring_push r x) = keep_newest (ring_capacity r) (ring_snapshot r @ [x])"
proof -
  note items = ring_snapshot_items [OF ring_invar_push [OF inv]] ring_snapshot_items [OF inv]
  consider "ring_capacity r = 0" | "ring_size r < ring_capacity r"
    | "ring_size r = ring_capacity r" "0 < ring_capacity r"
    using inv by (force simp: ring_invar_def)
  then show ?thesis
  proof cases
    case 1
    then show ?thesis
      using inv by (simp add: ring_snapshot_def ring_push_def ring_invar_def keep_newest_def)
  next
    case 2
    then have "ring_storage r \<noteq> []" using inv by (auto simp: ring_invar_def)
    then show ?thesis
      using 2 inv ring_items_append [of "ring_size r" "ring_storage r" "ring_head r" x]
      unfolding items by (simp add: ring_push_def ring_invar_def keep_newest_id)
  next
    case 3
    then have "ring_storage r \<noteq> []" using inv by (auto simp: ring_invar_def)
    then show ?thesis
      using 3 inv ring_items_overwrite [of "ring_storage r" "ring_head r" x]
      unfolding items by (simp add: ring_push_def ring_invar_def keep_newest_full)
  qed
qed

interpretation history: bounded_log ring_snapshot ring_capacity ring_push ring_invar
proof unfold_locales
  fix r assume "ring_invar r"
  then show "length (ring_snapshot r) \<le> ring_capacity r"
    by (simp add: ring_snapshot_def ring_invar_def)
qed (simp_all add: ring_invar_push ring_snapshot_push)

lemma ring_size_snapshot: "ring_size r = length (ring_snapshot r)"
  by (simp add: ring_snapshot_def)

text \<open>Nothing is lost without being counted.\<close>

lemma ring_evicted_push:
  "ring_evicted (ring_push r x) + of_nat (ring_size (ring_push r x)) =
     ring_evicted r + of_nat (ring_size r) + 1"
  by (simp add: ring_push_def)

lemma ring_evicted_pushes:
  "ring_evicted (foldl ring_push r xs) + of_nat (ring_size (foldl ring_push r xs)) =
     ring_evicted r + of_nat (ring_size r) + of_nat (length xs)"
  by (induction xs arbitrary: r) (simp_all add: ring_evicted_push)

section \<open>Reading since an instant\<close>

lemma ring_since_eq:
  "ring_since r t = rev (takeWhile (\<lambda>x. \<not> rt_steady (hr_received x) < t) (rev (ring_snapshot r)))"
proof -
  have "map (\<lambda>offset. ring_at r (ring_size r - 1 - offset)) [0..<ring_size r] = rev (ring_snapshot r)"
    by (rule nth_equalityI) (simp_all add: ring_snapshot_def rev_nth)
  then show ?thesis by (simp add: ring_since_def)
qed

lemma takeWhile_filter_mono:
  "sorted_wrt (\<lambda>a b. P b \<longrightarrow> P a) xs \<Longrightarrow> takeWhile P xs = filter P xs"
  by (induction xs) (auto simp: filter_empty_conv)

lemma ring_since_filter:
  assumes "sorted (map (rt_steady \<circ> hr_received) (ring_snapshot r))"
  shows "ring_since r t = filter (\<lambda>x. t \<le> rt_steady (hr_received x)) (ring_snapshot r)"
proof -
  let ?P = "\<lambda>x. \<not> rt_steady (hr_received x) < t"
  have "sorted_wrt (\<lambda>a b. rt_steady (hr_received a) \<le> rt_steady (hr_received b)) (ring_snapshot r)"
    using assms by (simp add: sorted_map)
  then have "sorted_wrt (\<lambda>a b. ?P a \<longrightarrow> ?P b) (ring_snapshot r)"
    by (rule sorted_wrt_mono_rel [rotated]) auto
  then have "sorted_wrt (\<lambda>a b. ?P b \<longrightarrow> ?P a) (rev (ring_snapshot r))"
    by (simp only: sorted_wrt_rev)
  then show ?thesis
    by (simp add: ring_since_eq takeWhile_filter_mono rev_filter not_less)
qed

section \<open>Properties\<close>

text \<open>C38: the ring refines the abstract log. After any pushes into a reserved ring the
  snapshot is the newest part of the pushed sequence, in order and within the capacity,
  and the evicted and the retained records together are exactly the pushed ones.\<close>

theorem history_ring_refines_log:
  "ring_snapshot (foldl ring_push (ring_reserve c) xs) = keep_newest c xs \<and>
   ring_size (foldl ring_push (ring_reserve c) xs) \<le> c \<and>
   ring_evicted (foldl ring_push (ring_reserve c) xs) +
     of_nat (ring_size (foldl ring_push (ring_reserve c) xs)) = of_nat (length xs)"
proof -
  have base: "ring_capacity (ring_reserve c) = c" "ring_evicted (ring_reserve c) = 0"
    "ring_size (ring_reserve c) = 0"
    by (simp_all add: ring_reserve_def)
  show ?thesis
    using history.items_pushes [of "ring_reserve c" xs] ring_evicted_pushes [of "ring_reserve c" xs]
    by (simp add: base ring_size_snapshot [of "foldl ring_push (ring_reserve c) xs"]
        length_keep_newest)
qed

text \<open>Reading since an instant. When the receive times of the retained records do not
  decrease, the early-stopping backward scan returns exactly the records received at or
  after the instant, in order.\<close>

theorem history_since_exact:
  assumes "sorted (map (rt_steady \<circ> hr_received) (ring_snapshot r))"
  shows "ring_since r t = filter (\<lambda>x. t \<le> rt_steady (hr_received x)) (ring_snapshot r)"
  using assms by (rule ring_since_filter)

theorem history_since_exact_witness:
  "(let at = (\<lambda>t. empty_history_record\<lparr>hr_received := zero_receive\<lparr>rt_steady := t\<rparr>\<rparr>)
    in ring_since (foldl ring_push (ring_reserve 1) [at 5, at 9]) 7 = [at 9])"
  using history_since_exact [of "foldl ring_push (ring_reserve 1)
      [empty_history_record\<lparr>hr_received := zero_receive\<lparr>rt_steady := 5\<rparr>\<rparr>,
       empty_history_record\<lparr>hr_received := zero_receive\<lparr>rt_steady := 9\<rparr>\<rparr>]" 7]
  unfolding Let_def history.items_pushes [OF ring_invar_reserve]
  by (simp add: keep_newest_def)

end
