(* ===== verification/Window.thy ===== *)
theory Window
  imports Ring Policy
begin

text \<open>
  Windows (\<^verbatim>\<open>include/qobs/store/Window.hpp\<close>, \<^verbatim>\<open>src/store/Window.cpp\<close>): the bucketed
  accumulator of a queue's recent observations, its aggregate with an assessment, and the
  peak-to-trough evidence for microbursts. The accumulator is a ring of buckets; its
  contents are read as a list, oldest first, and \<open>observe_spec\<close> says on that list what one
  observation does. The refinement lemma relates the two.
\<close>

section \<open>Data\<close>

record window_spec =
  ws_name :: string
  ws_duration :: nanos
  ws_bucket :: nanos
  ws_min_covered_buckets :: u32
  ws_max_buckets :: nat

record window_bucket =
  wb_start :: nanos
  wb_sample_count :: nat
  wb_has_occupancy :: bool
  wb_occupancy_max :: u64
  wb_occupancy_min :: u64
  wb_occupancy_last :: u64
  wb_drops :: u64
  wb_marks :: u64
  wb_pause_frames :: u64
  wb_pause_nanos :: u64
  wb_enqueues :: u64
  wb_dequeues :: u64
  wb_unknown_delta_samples :: u64
  wb_non_current_samples :: u64
  wb_saturation_events :: u64
  wb_last_received :: nanos

definition empty_bucket :: window_bucket where
  "empty_bucket =
     \<lparr>wb_start = 0, wb_sample_count = 0, wb_has_occupancy = False, wb_occupancy_max = 0,
      wb_occupancy_min = 0, wb_occupancy_last = 0, wb_drops = 0, wb_marks = 0,
      wb_pause_frames = 0, wb_pause_nanos = 0, wb_enqueues = 0, wb_dequeues = 0,
      wb_unknown_delta_samples = 0, wb_non_current_samples = 0, wb_saturation_events = 0,
      wb_last_received = 0\<rparr>"

record window_observation =
  wo_steady :: nanos
  wo_has_occupancy :: bool
  wo_occupancy :: u64
  wo_drops :: counter_delta
  wo_marks :: counter_delta
  wo_pause_frames :: counter_delta
  wo_pause_duration :: counter_delta
  wo_enqueues :: counter_delta
  wo_dequeues :: counter_delta
  wo_establishes_current :: bool
  wo_any_delta_unknown :: bool

record window_aggregate =
  wa_spec :: window_spec
  wa_window_start :: nanos
  wa_window_end :: nanos
  wa_bucket_count :: nat
  wa_covered_buckets :: nat
  wa_sample_count :: nat
  wa_occupancy_max :: "u64 option"
  wa_occupancy_min :: "u64 option"
  wa_occupancy_last :: "u64 option"
  wa_occupancy_excursion :: u64
  wa_drops :: u64
  wa_marks :: u64
  wa_pause_frames :: u64
  wa_pause_nanos :: u64
  wa_enqueues :: u64
  wa_dequeues :: u64
  wa_unknown_delta_samples :: u64
  wa_non_current_samples :: u64
  wa_saturation_events :: u64
  wa_newest_received :: nanos
  wa_coverage_sufficient :: bool
  wa_assessment :: evidence_assessment

record bucket_accumulator =
  acc_spec :: window_spec
  acc_configured :: bool
  acc_storage :: "window_bucket list"
  acc_size :: nat
  acc_head :: nat
  acc_evicted :: u64
  acc_observations :: u64
  acc_late_dropped :: u64

definition empty_spec :: window_spec where
  "empty_spec = \<lparr>ws_name = [], ws_duration = 0, ws_bucket = 0, ws_min_covered_buckets = 1,
     ws_max_buckets = 64\<rparr>"

definition empty_accumulator :: bucket_accumulator where
  "empty_accumulator =
     \<lparr>acc_spec = empty_spec, acc_configured = False, acc_storage = [], acc_size = 0, acc_head = 0,
      acc_evicted = 0, acc_observations = 0, acc_late_dropped = 0\<rparr>"

record burst_evidence =
  be_evaluated :: bool
  be_detected :: bool
  be_coverage_sufficient :: bool
  be_peak :: u64
  be_trough :: u64
  be_excursion :: u64
  be_required_excursion :: u64
  be_covered_buckets :: nat
  be_required_buckets :: nat
  be_peak_at :: nanos
  be_trough_at :: nanos
  be_sub_sample_reconstructed :: bool

section \<open>Arithmetic\<close>

definition accumulate :: "u64 \<Rightarrow> u64 \<Rightarrow> bool \<times> u64" where
  "accumulate acc v = (case add_u64 acc v of None \<Rightarrow> (False, u64_max) | Some exact \<Rightarrow> (True, exact))"

definition subtract_clamped :: "nanos \<Rightarrow> nanos \<Rightarrow> nanos" where
  "subtract_clamped v delta =
     (if delta \<le> 0 then v
      else if v < wrap_i64 (i64_min + delta) then i64_min
      else wrap_i64 (v - delta))"

definition align_bucket :: "nanos \<Rightarrow> nanos \<Rightarrow> nanos" where
  "align_bucket v bucket =
     (if bucket \<le> 0 then v
      else let quotient = cdiv v bucket; remainder = cmod v bucket;
               quotient' = (if remainder < 0 then quotient - 1 else quotient)
           in wrap_i64 (quotient' * bucket))"

definition bucket_count_of :: "window_spec \<Rightarrow> u64 option" where
  "bucket_count_of spec = div_ceil_u64 (u64_of_i64 (ws_duration spec)) (u64_of_i64 (ws_bucket spec))"

definition validate_window_spec :: "window_spec \<Rightarrow> status" where
  "validate_window_spec spec =
     qobs_try (reject (ws_name spec = []) InvalidArgument ''window spec requires a name'')
     (qobs_try (reject (ws_duration spec \<le> 0) InvalidArgument
         ''window duration must be a positive duration'')
     (qobs_try (reject (ws_bucket spec \<le> 0) InvalidArgument
         ''window bucket must be a positive duration'')
     (qobs_try (reject (ws_bucket spec > ws_duration spec) InvalidArgument
         ''window bucket must not be longer than the window'')
     (qobs_try (reject (ws_max_buckets spec = 0) InvalidArgument
         ''window bucket budget must be non-zero'')
     (case bucket_count_of spec of
        None \<Rightarrow> failure Overflow ''window bucket count overflows''
      | Some count \<Rightarrow>
          qobs_try (reject (unat count > ws_max_buckets spec) LimitExceeded
              ''window requires more buckets than the specification allows'')
          (qobs_try (reject (ws_min_covered_buckets spec = 0) InvalidArgument
              ''window requires at least one covered bucket'')
          (reject (ucast (ws_min_covered_buckets spec) > count) InvalidArgument
              ''window coverage requirement exceeds its bucket count'')))))))"

section \<open>The accumulator\<close>

definition acc_configure :: "bucket_accumulator \<Rightarrow> window_spec \<Rightarrow> status \<times> bucket_accumulator" where
  "acc_configure a spec =
     (let s = validate_window_spec spec
      in if \<not> status_ok s then (s, a)
         else (success,
               \<lparr>acc_spec = spec, acc_configured = True,
                acc_storage = replicate (unat (the (bucket_count_of spec))) empty_bucket,
                acc_size = 0, acc_head = 0, acc_evicted = 0, acc_observations = 0,
                acc_late_dropped = 0\<rparr>))"

definition acc_clear :: "bucket_accumulator \<Rightarrow> bucket_accumulator" where
  "acc_clear a = a\<lparr>acc_storage := replicate (length (acc_storage a)) empty_bucket, acc_size := 0,
     acc_head := 0, acc_evicted := 0, acc_observations := 0, acc_late_dropped := 0\<rparr>"

definition new_bucket :: "nanos \<Rightarrow> window_bucket" where
  "new_bucket start = empty_bucket\<lparr>wb_start := start\<rparr>"

definition find_or_create_bucket :: "bucket_accumulator \<Rightarrow> nanos \<Rightarrow> nat option \<times> bucket_accumulator" where
  "find_or_create_bucket a start =
     (let capacity = length (acc_storage a);
          slot = (\<lambda>offset. (acc_head a + acc_size a - 1 - offset) mod capacity)
      in if capacity = 0 then (None, a)
         else case find (\<lambda>offset. wb_start (acc_storage a ! slot offset) = start) [0..<acc_size a] of
           Some offset \<Rightarrow> (Some (slot offset), a)
         | None \<Rightarrow>
             if acc_size a > 0 \<and> start < wb_start (acc_storage a ! acc_head a) then
               (None, a\<lparr>acc_late_dropped := acc_late_dropped a + 1\<rparr>)
             else if acc_size a < capacity then
               (let index = (acc_head a + acc_size a) mod capacity
                in (Some index, a\<lparr>acc_storage := (acc_storage a)[index := new_bucket start],
                                  acc_size := acc_size a + 1\<rparr>))
             else
               (let index = acc_head a
                in (Some index, a\<lparr>acc_storage := (acc_storage a)[index := new_bucket start],
                                  acc_head := (acc_head a + 1) mod capacity,
                                  acc_evicted := acc_evicted a + 1\<rparr>)))"

function expire_loop :: "nanos \<Rightarrow> bucket_accumulator \<Rightarrow> bucket_accumulator" where
  "expire_loop cutoff a =
     (if acc_size a > 0 \<and> wb_start (acc_storage a ! acc_head a) < cutoff
      then expire_loop cutoff
             (a\<lparr>acc_storage := (acc_storage a)[acc_head a := empty_bucket],
                acc_head := (acc_head a + 1) mod length (acc_storage a),
                acc_size := acc_size a - 1, acc_evicted := acc_evicted a + 1\<rparr>)
      else a)"
  by pat_completeness auto
termination
  by (relation "measure (\<lambda>(cutoff, a). acc_size a)") auto

declare expire_loop.simps [simp del]

definition acc_expire :: "bucket_accumulator \<Rightarrow> nanos \<Rightarrow> bucket_accumulator" where
  "acc_expire a now =
     (if length (acc_storage a) = 0 \<or> acc_size a = 0 then a
      else expire_loop (subtract_clamped now (ws_duration (acc_spec a))) a)"

definition fold_occupancy :: "window_observation \<Rightarrow> window_bucket \<Rightarrow> window_bucket" where
  "fold_occupancy ob b =
     (if wo_has_occupancy ob then
        (if \<not> wb_has_occupancy b
         then b\<lparr>wb_has_occupancy := True, wb_occupancy_max := wo_occupancy ob,
                wb_occupancy_min := wo_occupancy ob\<rparr>
         else b\<lparr>wb_occupancy_max := (if wo_occupancy ob > wb_occupancy_max b then wo_occupancy ob
                                      else wb_occupancy_max b),
                wb_occupancy_min := (if wo_occupancy ob < wb_occupancy_min b then wo_occupancy ob
                                      else wb_occupancy_min b)\<rparr>)
        \<lparr>wb_occupancy_last := wo_occupancy ob\<rparr>
      else b)"

text \<open>The lambda \<^verbatim>\<open>add_delta\<close>: the field is given by its reader and its update.\<close>

definition add_delta ::
    "(window_bucket \<Rightarrow> u64) \<Rightarrow> ((u64 \<Rightarrow> u64) \<Rightarrow> window_bucket \<Rightarrow> window_bucket) \<Rightarrow> counter_delta
     \<Rightarrow> window_bucket \<Rightarrow> window_bucket" where
  "add_delta get upd d b =
     (if cd_known d then
        (case accumulate (get b) (cd_delta d) of
           (True, exact) \<Rightarrow> upd (\<lambda>_. exact) b
         | (False, pinned) \<Rightarrow>
             (upd (\<lambda>_. pinned) b)\<lparr>wb_saturation_events := wb_saturation_events b + 1\<rparr>)
      else b)"

definition fold_deltas :: "window_observation \<Rightarrow> window_bucket \<Rightarrow> window_bucket" where
  "fold_deltas ob =
     add_delta wb_dequeues wb_dequeues_update (wo_dequeues ob) \<circ>
     add_delta wb_enqueues wb_enqueues_update (wo_enqueues ob) \<circ>
     add_delta wb_pause_nanos wb_pause_nanos_update (wo_pause_duration ob) \<circ>
     add_delta wb_pause_frames wb_pause_frames_update (wo_pause_frames ob) \<circ>
     add_delta wb_marks wb_marks_update (wo_marks ob) \<circ>
     add_delta wb_drops wb_drops_update (wo_drops ob)"

definition fold_observation :: "window_observation \<Rightarrow> window_bucket \<Rightarrow> window_bucket" where
  "fold_observation ob b =
     (let b1 = fold_deltas ob (fold_occupancy ob (b\<lparr>wb_sample_count := wb_sample_count b + 1\<rparr>));
          b2 = (if wo_any_delta_unknown ob
                then b1\<lparr>wb_unknown_delta_samples := wb_unknown_delta_samples b1 + 1\<rparr> else b1);
          b3 = (if \<not> wo_establishes_current ob
                then b2\<lparr>wb_non_current_samples := wb_non_current_samples b2 + 1\<rparr> else b2)
      in if wo_steady ob > wb_last_received b3 then b3\<lparr>wb_last_received := wo_steady ob\<rparr> else b3)"

definition acc_observe :: "bucket_accumulator \<Rightarrow> window_observation \<Rightarrow> bucket_accumulator" where
  "acc_observe a ob =
     (if \<not> acc_configured a \<or> acc_storage a = [] then a
      else let a1 = acc_expire (a\<lparr>acc_observations := acc_observations a + 1\<rparr>) (wo_steady ob);
               start = align_bucket (wo_steady ob) (ws_bucket (acc_spec a1))
           in case find_or_create_bucket a1 start of
                (None, a2) \<Rightarrow> a2
              | (Some index, a2) \<Rightarrow>
                  a2\<lparr>acc_storage := (acc_storage a2)
                       [index := fold_observation ob (acc_storage a2 ! index)]\<rparr>)"

definition acc_buckets :: "bucket_accumulator \<Rightarrow> window_bucket list" where
  "acc_buckets a =
     map (\<lambda>offset. acc_storage a ! ((acc_head a + offset) mod length (acc_storage a)))
       [0..<acc_size a]"

section \<open>The aggregate\<close>

text \<open>The loop of \<^verbatim>\<open>aggregate\<close>: one covered bucket after the other. The pair of
  \<^verbatim>\<open>newest_received\<close> and \<^verbatim>\<open>newest_received_set\<close> is an option.\<close>

definition aggregate_bucket ::
    "window_bucket \<Rightarrow> window_aggregate \<times> nanos option \<Rightarrow> window_aggregate \<times> nanos option" where
  "aggregate_bucket b acc = (case acc of (g, newest) \<Rightarrow>
     if wb_sample_count b = 0 then (g, newest)
     else
       (let g1 = g\<lparr>wa_covered_buckets := wa_covered_buckets g + 1,
                   wa_sample_count := wa_sample_count g + wb_sample_count b,
                   wa_drops := wa_drops g + wb_drops b,
                   wa_marks := wa_marks g + wb_marks b,
                   wa_pause_frames := wa_pause_frames g + wb_pause_frames b,
                   wa_pause_nanos := wa_pause_nanos g + wb_pause_nanos b,
                   wa_enqueues := wa_enqueues g + wb_enqueues b,
                   wa_dequeues := wa_dequeues g + wb_dequeues b,
                   wa_unknown_delta_samples :=
                     wa_unknown_delta_samples g + wb_unknown_delta_samples b,
                   wa_non_current_samples := wa_non_current_samples g + wb_non_current_samples b,
                   wa_saturation_events := wa_saturation_events g + wb_saturation_events b\<rparr>;
            g2 = (if wb_has_occupancy b
                  then g1\<lparr>wa_occupancy_max :=
                            (case wa_occupancy_max g1 of
                               None \<Rightarrow> Some (wb_occupancy_max b)
                             | Some m \<Rightarrow> Some (if wb_occupancy_max b > m then wb_occupancy_max b else m)),
                          wa_occupancy_min :=
                            (case wa_occupancy_min g1 of
                               None \<Rightarrow> Some (wb_occupancy_min b)
                             | Some m \<Rightarrow> Some (if wb_occupancy_min b < m then wb_occupancy_min b else m)),
                          wa_occupancy_last := Some (wb_occupancy_last b)\<rparr>
                  else g1);
            newest' = (if wb_last_received b > 0 \<and>
                          (case newest of None \<Rightarrow> True | Some n \<Rightarrow> wb_last_received b > n)
                       then Some (wb_last_received b) else newest)
        in (g2, newest')))"

definition aggregate_assessment ::
    "window_spec \<Rightarrow> window_aggregate \<Rightarrow> bool \<Rightarrow> nanos option \<Rightarrow> nanos \<Rightarrow> freshness_policy
     \<Rightarrow> evidence_assessment" where
  "aggregate_assessment spec g coverage_ok newest now policy =
     (let a = empty_assessment\<lparr>ea_provenance := P_Correlated\<rparr>
      in if wa_covered_buckets g = 0 then
           a\<lparr>ea_quality := Q_Unknown, ea_freshness := F_Unknown,
             ea_reason := ''the window contains no observations''\<rparr>
         else
           (let age = (case newest of None \<Rightarrow> 0 | Some n \<Rightarrow> wrap_i64 (now - n));
                a1 = a\<lparr>ea_age := (if age < 0 then 0 else age),
                       ea_freshness := assess_freshness age policy\<rparr>
            in if \<not> coverage_ok then
                 a1\<lparr>ea_quality := Q_Incomplete,
                    ea_flags := with_flag (ea_flags a1) CoverageInsufficient,
                    ea_reason := ''only '' @ dec_nat (wa_covered_buckets g) @ '' of the required ''
                      @ dec_nat (unat (ws_min_covered_buckets spec)) @ '' buckets contain observations''\<rparr>
               else if wa_unknown_delta_samples g > 0 then
                 a1\<lparr>ea_quality := Q_Incomplete,
                    ea_flags := with_flag (ea_flags a1) CounterDiscontinuity,
                    ea_reason := dec_u64 (wa_unknown_delta_samples g)
                      @ '' samples in the window had no established counter delta''\<rparr>
               else if wa_non_current_samples g > 0 then
                 a1\<lparr>ea_quality := Q_Incomplete, ea_flags := with_flag (ea_flags a1) Recovered,
                    ea_reason := dec_u64 (wa_non_current_samples g)
                      @ '' samples in the window cannot speak for the present''\<rparr>
               else a1\<lparr>ea_quality := Q_Complete\<rparr>))"

definition initial_aggregate :: "bucket_accumulator \<Rightarrow> nanos \<Rightarrow> window_aggregate" where
  "initial_aggregate a now =
     \<lparr>wa_spec = acc_spec a, wa_window_start = subtract_clamped now (ws_duration (acc_spec a)),
      wa_window_end = now, wa_bucket_count = acc_size a, wa_covered_buckets = 0,
      wa_sample_count = 0, wa_occupancy_max = None, wa_occupancy_min = None,
      wa_occupancy_last = None, wa_occupancy_excursion = 0, wa_drops = 0, wa_marks = 0,
      wa_pause_frames = 0, wa_pause_nanos = 0, wa_enqueues = 0, wa_dequeues = 0,
      wa_unknown_delta_samples = 0, wa_non_current_samples = 0, wa_saturation_events = 0,
      wa_newest_received = 0, wa_coverage_sufficient = False, wa_assessment = empty_assessment\<rparr>"

definition acc_aggregate :: "bucket_accumulator \<Rightarrow> nanos \<Rightarrow> freshness_policy \<Rightarrow> window_aggregate" where
  "acc_aggregate a now policy =
     (case fold aggregate_bucket (acc_buckets a) (initial_aggregate a now, None) of (g, newest) \<Rightarrow>
        let g1 = (case (wa_occupancy_max g, wa_occupancy_min g) of
                    (Some hi, Some lo) \<Rightarrow> g\<lparr>wa_occupancy_excursion := hi - lo\<rparr>
                  | _ \<Rightarrow> g);
            coverage_ok = (wa_covered_buckets g1 \<ge> unat (ws_min_covered_buckets (acc_spec a)))
        in g1\<lparr>wa_coverage_sufficient := coverage_ok,
              wa_assessment :=
                aggregate_assessment (acc_spec a) g1 coverage_ok newest now policy\<rparr>)"

section \<open>Microburst evidence\<close>

record burst_scan =
  bs_peak :: u64
  bs_trough :: u64
  bs_peak_at :: nanos
  bs_trough_at :: nanos
  bs_covered :: nat

text \<open>\<open>None\<close> is the loop state before the first covered bucket (\<^verbatim>\<open>seen\<close> is false).\<close>

definition burst_bucket :: "window_bucket \<Rightarrow> burst_scan option \<Rightarrow> burst_scan option" where
  "burst_bucket b scan =
     (if wb_sample_count b = 0 \<or> \<not> wb_has_occupancy b then scan
      else case scan of
        None \<Rightarrow> Some \<lparr>bs_peak = wb_occupancy_max b, bs_trough = wb_occupancy_min b,
                      bs_peak_at = wb_start b, bs_trough_at = wb_start b, bs_covered = 1\<rparr>
      | Some s \<Rightarrow>
          (let s1 = s\<lparr>bs_covered := bs_covered s + 1\<rparr>;
               s2 = (if wb_occupancy_max b > bs_peak s1
                     then s1\<lparr>bs_peak := wb_occupancy_max b, bs_peak_at := wb_start b\<rparr> else s1)
           in Some (if wb_occupancy_min b < bs_trough s2
                    then s2\<lparr>bs_trough := wb_occupancy_min b, bs_trough_at := wb_start b\<rparr> else s2)))"

definition acc_burst_evidence :: "bucket_accumulator \<Rightarrow> u64 \<Rightarrow> u32 \<Rightarrow> burst_evidence" where
  "acc_burst_evidence a min_excursion min_covered =
     (let scan = fold burst_bucket (acc_buckets a) None;
          covered = (case scan of None \<Rightarrow> 0 | Some s \<Rightarrow> bs_covered s);
          excursion = (case scan of None \<Rightarrow> 0 | Some s \<Rightarrow> bs_peak s - bs_trough s);
          sufficient = (covered \<ge> unat min_covered)
      in \<lparr>be_evaluated = True, be_detected = (sufficient \<and> excursion \<ge> min_excursion),
          be_coverage_sufficient = sufficient,
          be_peak = (case scan of None \<Rightarrow> 0 | Some s \<Rightarrow> bs_peak s),
          be_trough = (case scan of None \<Rightarrow> 0 | Some s \<Rightarrow> bs_trough s),
          be_excursion = excursion, be_required_excursion = min_excursion,
          be_covered_buckets = covered, be_required_buckets = unat min_covered,
          be_peak_at = (case scan of None \<Rightarrow> 0 | Some s \<Rightarrow> bs_peak_at s),
          be_trough_at = (case scan of None \<Rightarrow> 0 | Some s \<Rightarrow> bs_trough_at s),
          be_sub_sample_reconstructed = False\<rparr>)"

section \<open>Specification\<close>

definition acc_cutoff :: "bucket_accumulator \<Rightarrow> nanos \<Rightarrow> nanos" where
  "acc_cutoff a now = subtract_clamped now (ws_duration (acc_spec a))"

text \<open>What an observation does to the list of buckets: drop the expired ones, fold into the
  bucket of its start if there is one, ignore it when it is older than everything
  retained, and append a new bucket otherwise, keeping the newest ones. Where the source
  appends a bucket for a late observation that falls into a gap, so does this specification: it
  says what the code does at any times, and \<open>Window_Properties\<close> says what a window holds when
  observations arrive in the order of time.\<close>

definition observe_spec ::
    "nat \<Rightarrow> nanos \<Rightarrow> nanos \<Rightarrow> window_observation \<Rightarrow> window_bucket list \<Rightarrow> window_bucket list" where
  "observe_spec capacity cutoff start ob bs =
     (let live = dropWhile (\<lambda>b. wb_start b < cutoff) bs
      in if start \<in> wb_start ` set live
         then map (\<lambda>b. if wb_start b = start then fold_observation ob b else b) live
         else if live \<noteq> [] \<and> start < wb_start (hd live) then live
         else keep_newest capacity (live @ [fold_observation ob (new_bucket start)]))"

definition acc_invar :: "bucket_accumulator \<Rightarrow> bool" where
  "acc_invar a \<longleftrightarrow>
     acc_size a \<le> length (acc_storage a) \<and>
     (acc_head a < length (acc_storage a) \<or> acc_storage a = []) \<and>
     distinct (map wb_start (acc_buckets a))"

section \<open>Refinement of the ring\<close>

lemma acc_buckets_items: "acc_buckets a = ring_items (acc_storage a) (acc_head a) (acc_size a)"
  by (simp add: acc_buckets_def ring_items_def)

lemma length_acc_buckets [simp]: "length (acc_buckets a) = acc_size a"
  by (simp add: acc_buckets_items)

lemma nth_acc_buckets:
  "i < acc_size a \<Longrightarrow>
     acc_buckets a ! i = acc_storage a ! ((acc_head a + i) mod length (acc_storage a))"
  by (simp add: acc_buckets_items nth_ring_items)

lemma hd_acc_buckets:
  assumes "0 < acc_size a" "acc_head a < length (acc_storage a)"
  shows "hd (acc_buckets a) = acc_storage a ! acc_head a"
  using assms nth_acc_buckets [of 0 a] by (simp add: hd_conv_nth flip: length_greater_0_conv)

lemma expire_loop_refines:
  assumes "acc_size a \<le> length (acc_storage a)" "acc_head a < length (acc_storage a)"
  shows "acc_buckets (expire_loop c a) = dropWhile (\<lambda>b. wb_start b < c) (acc_buckets a) \<and>
    length (acc_storage (expire_loop c a)) = length (acc_storage a) \<and>
    acc_size (expire_loop c a) \<le> acc_size a \<and>
    acc_head (expire_loop c a) < length (acc_storage a) \<and>
    acc_spec (expire_loop c a) = acc_spec a \<and> acc_configured (expire_loop c a) = acc_configured a"
  using assms
proof (induction c a rule: expire_loop.induct)
  case (1 c a)
  show ?case
  proof (cases "acc_size a > 0 \<and> wb_start (acc_storage a ! acc_head a) < c")
    case True
    let ?a = "a\<lparr>acc_storage := (acc_storage a)[acc_head a := empty_bucket],
       acc_head := (acc_head a + 1) mod length (acc_storage a),
       acc_size := acc_size a - 1, acc_evicted := acc_evicted a + 1\<rparr>"
    have "acc_buckets ?a = tl (acc_buckets a)"
      using ring_items_pop_reset [of "acc_size a" "acc_storage a" "acc_head a" empty_bucket] True 1
      by (simp add: acc_buckets_items)
    moreover have "wb_start (hd (acc_buckets a)) < c" "acc_buckets a \<noteq> []"
      using True 1 hd_acc_buckets [of a] by (auto simp flip: length_greater_0_conv)
    ultimately have "dropWhile (\<lambda>b. wb_start b < c) (acc_buckets a) =
        dropWhile (\<lambda>b. wb_start b < c) (acc_buckets ?a)"
      by (cases "acc_buckets a") auto
    moreover have "(acc_head a + 1) mod length (acc_storage a) < length (acc_storage a)"
      using 1 by (intro mod_less_divisor) linarith
    moreover have "acc_size a - 1 \<le> length (acc_storage a)" using 1 by simp
    ultimately show ?thesis
      using "1.IH" [OF True] True by (auto simp: expire_loop.simps [of c a])
  next
    case False
    then have "dropWhile (\<lambda>b. wb_start b < c) (acc_buckets a) = acc_buckets a"
      using "1.prems" hd_acc_buckets [of a] by (cases "acc_size a") (auto simp: dropWhile_eq_self_iff acc_buckets_def)
    with False "1.prems" show ?thesis by (auto simp: expire_loop.simps [of c a])
  qed
qed

lemma acc_expire_refines:
  assumes "acc_invar a"
  shows "acc_buckets (acc_expire a now) = dropWhile (\<lambda>b. wb_start b < acc_cutoff a now) (acc_buckets a)"
    "length (acc_storage (acc_expire a now)) = length (acc_storage a)"
    "acc_spec (acc_expire a now) = acc_spec a" "acc_configured (acc_expire a now) = acc_configured a"
    "acc_invar (acc_expire a now)"
proof -
  have *: "acc_buckets (acc_expire a now) =
      dropWhile (\<lambda>b. wb_start b < acc_cutoff a now) (acc_buckets a) \<and>
    length (acc_storage (acc_expire a now)) = length (acc_storage a) \<and>
    acc_size (acc_expire a now) \<le> acc_size a \<and>
    (acc_head (acc_expire a now) < length (acc_storage a) \<or> acc_storage a = []) \<and>
    acc_spec (acc_expire a now) = acc_spec a \<and> acc_configured (acc_expire a now) = acc_configured a"
  proof (cases "acc_storage a = [] \<or> acc_size a = 0")
    case True
    then have "acc_buckets a = []" using assms by (auto simp: acc_invar_def acc_buckets_def)
    with True assms show ?thesis by (auto simp: acc_expire_def acc_invar_def)
  next
    case False
    with assms show ?thesis
      using expire_loop_refines [of a "acc_cutoff a now"]
      by (auto simp: acc_expire_def acc_invar_def acc_cutoff_def)
  qed
  then show "acc_buckets (acc_expire a now) =
      dropWhile (\<lambda>b. wb_start b < acc_cutoff a now) (acc_buckets a)"
    "length (acc_storage (acc_expire a now)) = length (acc_storage a)"
    "acc_spec (acc_expire a now) = acc_spec a" "acc_configured (acc_expire a now) = acc_configured a"
    by simp_all
  have "distinct (map wb_start (dropWhile (\<lambda>b. wb_start b < acc_cutoff a now) (acc_buckets a)))"
    using assms by (metis acc_invar_def distinct_drop dropWhile_eq_drop drop_map)
  then show "acc_invar (acc_expire a now)"
    using * assms by (auto simp: acc_invar_def)
qed

lemma found_slot:
  assumes "acc_size a \<le> length (acc_storage a)"
    and "find (\<lambda>offset. wb_start (acc_storage a !
        ((acc_head a + acc_size a - 1 - offset) mod length (acc_storage a))) = s) [0..<acc_size a] = Some k"
  shows "\<exists>j < acc_size a. (acc_head a + acc_size a - 1 - k) mod length (acc_storage a) =
      (acc_head a + j) mod length (acc_storage a) \<and> wb_start (acc_buckets a ! j) = s"
proof -
  have k: "k < acc_size a" "wb_start (acc_storage a !
        ((acc_head a + acc_size a - 1 - k) mod length (acc_storage a))) = s"
    using assms(2) by (auto simp: find_Some_iff)
  then have "acc_head a + acc_size a - 1 - k = acc_head a + (acc_size a - 1 - k)" by simp
  with k show ?thesis
    by (intro exI [of _ "acc_size a - 1 - k"]) (simp add: nth_acc_buckets)
qed

lemma missing_slot:
  assumes "find (\<lambda>offset. wb_start (acc_storage a !
        ((acc_head a + acc_size a - 1 - offset) mod length (acc_storage a))) = s) [0..<acc_size a] = None"
  shows "s \<notin> wb_start ` set (acc_buckets a)"
proof
  assume "s \<in> wb_start ` set (acc_buckets a)"
  then obtain j where j: "j < acc_size a" "wb_start (acc_buckets a ! j) = s"
    by (auto simp: in_set_conv_nth)
  have "acc_size a - 1 - j \<in> set [0..<acc_size a]" using j by auto
  then have "wb_start (acc_storage a !
      ((acc_head a + acc_size a - 1 - (acc_size a - 1 - j)) mod length (acc_storage a))) \<noteq> s"
    using assms unfolding find_None_iff by blast
  moreover have "acc_head a + acc_size a - 1 - (acc_size a - 1 - j) = acc_head a + j"
    using j by simp
  ultimately show False
    using j by (simp add: nth_acc_buckets)
qed

lemma add_delta_other:
  assumes "\<And>g b. f (upd g b) = f b" "\<And>g b. f (wb_saturation_events_update g b) = f b"
  shows "f (add_delta get upd d b) = f b"
  using assms by (simp add: add_delta_def accumulate_def split: option.splits)

text \<open>Every field that the counters and the saturation count do not touch is kept.\<close>

lemma fold_deltas_other:
  assumes "\<And>g b. f (wb_drops_update g b) = f b" "\<And>g b. f (wb_marks_update g b) = f b"
    "\<And>g b. f (wb_pause_frames_update g b) = f b" "\<And>g b. f (wb_pause_nanos_update g b) = f b"
    "\<And>g b. f (wb_enqueues_update g b) = f b" "\<And>g b. f (wb_dequeues_update g b) = f b"
    "\<And>g b. f (wb_saturation_events_update g b) = f b"
  shows "f (fold_deltas ob b) = f b"
  using assms by (simp add: fold_deltas_def add_delta_other [where f = f])

lemma fold_deltas_keeps:
  "wb_start (fold_deltas ob b) = wb_start b"
  "wb_sample_count (fold_deltas ob b) = wb_sample_count b"
  "wb_has_occupancy (fold_deltas ob b) = wb_has_occupancy b"
  "wb_occupancy_min (fold_deltas ob b) = wb_occupancy_min b"
  "wb_occupancy_last (fold_deltas ob b) = wb_occupancy_last b"
  "wb_occupancy_max (fold_deltas ob b) = wb_occupancy_max b"
  by (rule fold_deltas_other, simp_all)+

lemma fold_occupancy_keeps:
  "wb_start (fold_occupancy ob b) = wb_start b"
  "wb_sample_count (fold_occupancy ob b) = wb_sample_count b"
  by (simp_all add: fold_occupancy_def)

lemma fold_observation_fields:
  "wb_start (fold_observation ob b) = wb_start b"
  "wb_sample_count (fold_observation ob b) = wb_sample_count b + 1"
  "wb_has_occupancy (fold_observation ob b) = wb_has_occupancy (fold_occupancy ob b)"
  "wb_occupancy_min (fold_observation ob b) = wb_occupancy_min (fold_occupancy ob b)"
  "wb_occupancy_last (fold_observation ob b) = wb_occupancy_last (fold_occupancy ob b)"
  "wb_occupancy_max (fold_observation ob b) = wb_occupancy_max (fold_occupancy ob b)"
  by (simp_all add: fold_observation_def fold_deltas_keeps fold_occupancy_keeps Let_def)
    (simp_all add: fold_occupancy_def)

lemmas fold_observation_start [simp] = fold_observation_fields(1)

lemma new_bucket_start [simp]: "wb_start (new_bucket s) = s"
  by (simp add: new_bucket_def)

lemma map_unique_update:
  assumes "distinct (map f xs)" "j < length xs" "f (xs ! j) = s"
  shows "map (\<lambda>x. if f x = s then g x else x) xs = xs[j := g (xs ! j)]"
proof (rule nth_equalityI)
  fix i assume i: "i < length (map (\<lambda>x. if f x = s then g x else x) xs)"
  have "f (xs ! i) = s \<longleftrightarrow> i = j"
    using nth_eq_iff_index_eq [OF assms(1), of i j] i assms(2,3) by auto
  with i assms(2) show "map (\<lambda>x. if f x = s then g x else x) xs ! i = xs[j := g (xs ! j)] ! i"
    by (auto simp: nth_list_update)
qed simp

lemma distinct_observe_spec:
  assumes "distinct (map wb_start bs)"
  shows "distinct (map wb_start (observe_spec n c s ob bs))"
proof -
  let ?live = "dropWhile (\<lambda>b. wb_start b < c) bs"
  have live: "distinct (map wb_start ?live)"
    using assms by (metis distinct_drop dropWhile_eq_drop drop_map)
  have keep: "distinct (map wb_start (keep_newest n (?live @ [fold_observation ob (new_bucket s)])))"
    if "s \<notin> wb_start ` set ?live"
  proof -
    have "distinct (map wb_start (?live @ [fold_observation ob (new_bucket s)]))"
      using that live by simp
    then show ?thesis
      unfolding keep_newest_def drop_map [symmetric] by (rule distinct_drop)
  qed
  have same: "map wb_start (map (\<lambda>b. if wb_start b = s then fold_observation ob b else b) ?live) =
      map wb_start ?live"
    by simp
  show ?thesis
    using live keep same by (auto simp: observe_spec_def Let_def simp del: map_map)
qed

lemma length_observe_spec: "length bs \<le> n \<Longrightarrow> length (observe_spec n c s ob bs) \<le> n"
  using length_dropWhile_le [of "\<lambda>b. wb_start b < c" bs]
  by (auto simp: observe_spec_def Let_def length_keep_newest)

text \<open>Folding into the slot that was found or created.\<close>

lemma slot_refines:
  assumes inv: "acc_invar a" and ne: "acc_storage a \<noteq> []"
    and live: "dropWhile (\<lambda>b. wb_start b < c) (acc_buckets a) = acc_buckets a"
    and a': "a' = (case find_or_create_bucket a s of
                (None, a2) \<Rightarrow> a2
              | (Some index, a2) \<Rightarrow> a2\<lparr>acc_storage := (acc_storage a2)
                  [index := fold_observation ob (acc_storage a2 ! index)]\<rparr>)"
  shows "acc_buckets a' = observe_spec (length (acc_storage a)) c s ob (acc_buckets a) \<and>
    length (acc_storage a') = length (acc_storage a) \<and> acc_spec a' = acc_spec a \<and>
    acc_configured a' = acc_configured a \<and> acc_head a' < length (acc_storage a)"
proof -
  let ?n = "length (acc_storage a)" and ?h = "acc_head a" and ?m = "acc_size a"
  let ?look = "find (\<lambda>offset. wb_start (acc_storage a ! ((?h + ?m - 1 - offset) mod ?n)) = s) [0..<?m]"
  have n: "0 < ?n" "?m \<le> ?n" "?h < ?n" "distinct (map wb_start (acc_buckets a))"
    using inv ne by (auto simp: acc_invar_def)
  have h': "(?h + 1) mod ?n < ?n" using n(1) by (intro mod_less_divisor)
  show ?thesis
  proof (cases ?look)
    case (Some k)
    obtain j where j: "j < ?m" "(?h + ?m - 1 - k) mod ?n = (?h + j) mod ?n"
        "wb_start (acc_buckets a ! j) = s"
      using found_slot [OF n(2) Some] by blast
    have "a' = a\<lparr>acc_storage := (acc_storage a)
        [(?h + j) mod ?n := fold_observation ob (acc_buckets a ! j)]\<rparr>"
      using Some j n(1) by (simp add: a' find_or_create_bucket_def Let_def nth_acc_buckets)
    moreover have "s \<in> wb_start ` set (acc_buckets a)"
      using j by (metis image_eqI length_acc_buckets nth_mem)
    ultimately show ?thesis
      using live n j ring_items_update [of j ?m "acc_storage a" ?h] map_unique_update [OF n(4), of j s]
      by (simp add: observe_spec_def acc_buckets_items Let_def)
  next
    case None
    then have notin: "s \<notin> wb_start ` set (acc_buckets a)" by (rule missing_slot)
    have hd: "0 < ?m \<Longrightarrow> hd (acc_buckets a) = acc_storage a ! ?h"
      using n(3) by (rule hd_acc_buckets [rotated])
    have empty: "acc_buckets a = [] \<longleftrightarrow> ?m = 0"
      using length_acc_buckets [of a] by (metis length_0_conv)
    consider "0 < ?m" "s < wb_start (acc_storage a ! ?h)"
      | "\<not> (0 < ?m \<and> s < wb_start (acc_storage a ! ?h))" "?m < ?n"
      | "\<not> (0 < ?m \<and> s < wb_start (acc_storage a ! ?h))" "?m = ?n"
      using n(2) by linarith
    then show ?thesis
    proof cases
      case 1
      with None n show ?thesis
        using live notin hd empty
        by (simp add: a' find_or_create_bucket_def observe_spec_def Let_def acc_buckets_items)
    next
      case 2
      have "a' = a\<lparr>acc_storage := (acc_storage a)
          [(?h + ?m) mod ?n := fold_observation ob (new_bucket s)], acc_size := ?m + 1\<rparr>"
        using None 2 n(1) by (auto simp: a' find_or_create_bucket_def Let_def)
      moreover have "keep_newest ?n (acc_buckets a @ [fold_observation ob (new_bucket s)]) =
          acc_buckets a @ [fold_observation ob (new_bucket s)]"
        using 2 by (intro keep_newest_id) simp
      ultimately show ?thesis
        using live notin hd empty 2 n ring_items_append [of ?m "acc_storage a" ?h]
        by (auto simp: observe_spec_def acc_buckets_items Let_def)
    next
      case 3
      have "a' = a\<lparr>acc_storage := (acc_storage a)[?h := fold_observation ob (new_bucket s)],
          acc_head := (?h + 1) mod ?n, acc_evicted := acc_evicted a + 1\<rparr>"
        using None 3 n by (auto simp: a' find_or_create_bucket_def Let_def)
      moreover have "keep_newest ?n (acc_buckets a @ [fold_observation ob (new_bucket s)]) =
          tl (acc_buckets a) @ [fold_observation ob (new_bucket s)]"
        using 3 n(1) by (intro keep_newest_full) simp_all
      ultimately show ?thesis
        using live notin hd empty 3 n h' ring_items_overwrite [of "acc_storage a" ?h]
        by (auto simp: observe_spec_def acc_buckets_items Let_def)
    qed
  qed
qed

lemma observe_spec_live:
  "observe_spec n c s ob (dropWhile (\<lambda>b. wb_start b < c) bs) = observe_spec n c s ob bs"
  by (simp add: observe_spec_def dropWhile_idem)

lemma acc_observe_refines:
  assumes inv: "acc_invar a" and conf: "acc_configured a" and ne: "acc_storage a \<noteq> []"
  shows "acc_buckets (acc_observe a ob) =
      observe_spec (length (acc_storage a)) (acc_cutoff a (wo_steady ob))
        (align_bucket (wo_steady ob) (ws_bucket (acc_spec a))) ob (acc_buckets a)"
    "length (acc_storage (acc_observe a ob)) = length (acc_storage a)"
    "acc_spec (acc_observe a ob) = acc_spec a" "acc_configured (acc_observe a ob)"
    "acc_invar (acc_observe a ob)"
proof -
  let ?a = "a\<lparr>acc_observations := acc_observations a + 1\<rparr>"
  let ?e = "acc_expire ?a (wo_steady ob)"
  let ?s = "align_bucket (wo_steady ob) (ws_bucket (acc_spec a))"
  let ?c = "acc_cutoff a (wo_steady ob)"
  have same: "acc_buckets ?a = acc_buckets a" "acc_cutoff ?a = acc_cutoff a"
    by (simp_all add: acc_buckets_def acc_cutoff_def fun_eq_iff)
  have inv': "acc_invar ?a" using inv by (simp add: acc_invar_def same)
  note ex = acc_expire_refines [OF inv', of "wo_steady ob", unfolded same, simplified]
  have obs: "acc_observe a ob = (case find_or_create_bucket ?e ?s of
      (None, a2) \<Rightarrow> a2
    | (Some index, a2) \<Rightarrow> a2\<lparr>acc_storage := (acc_storage a2)
        [index := fold_observation ob (acc_storage a2 ! index)]\<rparr>)"
    using conf ne ex(3) by (simp add: acc_observe_def Let_def)
  have ne': "acc_storage ?e \<noteq> []" using ex(2) ne by (metis length_0_conv)
  have idem: "dropWhile (\<lambda>b. wb_start b < ?c) (acc_buckets ?e) = acc_buckets ?e"
    using ex(1) by (simp add: dropWhile_idem)
  have main: "acc_buckets (acc_observe a ob) = observe_spec (length (acc_storage a)) ?c ?s ob (acc_buckets a) \<and>
      length (acc_storage (acc_observe a ob)) = length (acc_storage a) \<and>
      acc_spec (acc_observe a ob) = acc_spec a \<and> acc_configured (acc_observe a ob) \<and>
      acc_head (acc_observe a ob) < length (acc_storage a)"
    using slot_refines [OF ex(5) ne' idem obs] ex conf by (simp add: observe_spec_live)
  then show "acc_buckets (acc_observe a ob) = observe_spec (length (acc_storage a)) ?c ?s ob (acc_buckets a)"
    "length (acc_storage (acc_observe a ob)) = length (acc_storage a)"
    "acc_spec (acc_observe a ob) = acc_spec a" "acc_configured (acc_observe a ob)"
    by simp_all
  have "acc_size (acc_observe a ob) \<le> length (acc_storage a)"
    using main length_observe_spec [of "acc_buckets a"] inv
    by (metis acc_invar_def length_acc_buckets)
  then show "acc_invar (acc_observe a ob)"
    using main distinct_observe_spec [of "acc_buckets a"] inv by (simp add: acc_invar_def)
qed

section \<open>Configured windows\<close>

definition window_step :: "nat \<Rightarrow> window_spec \<Rightarrow> window_bucket list \<Rightarrow> window_observation \<Rightarrow> window_bucket list" where
  "window_step n spec bs ob =
     observe_spec n (subtract_clamped (wo_steady ob) (ws_duration spec))
       (align_bucket (wo_steady ob) (ws_bucket spec)) ob bs"

definition window_capacity :: "window_spec \<Rightarrow> nat" where
  "window_capacity spec = unat (the (bucket_count_of spec))"

lemma valid_spec_bucket:
  assumes "status_ok (validate_window_spec spec)"
  shows "0 < ws_bucket spec" "ws_bucket spec \<le> ws_duration spec" "0 < window_capacity spec"
    "window_capacity spec \<le> ws_max_buckets spec"
proof -
  show "0 < ws_bucket spec" "ws_bucket spec \<le> ws_duration spec"
    using assms by (auto simp: validate_window_spec_def)
  obtain count where count: "bucket_count_of spec = Some count" "ws_min_covered_buckets spec \<noteq> 0"
      "\<not> ucast (ws_min_covered_buckets spec) > count" "\<not> unat count > ws_max_buckets spec"
    using assms by (auto simp: validate_window_spec_def split: option.splits)
  have "unat (ws_min_covered_buckets spec) \<le> unat count"
    using count(3) unat_permille [of "ws_min_covered_buckets spec"]
    by (simp add: not_less word_le_nat_alt)
  moreover have "0 < unat (ws_min_covered_buckets spec)"
    using count(2) by (simp add: unat_gt_0)
  ultimately show "0 < window_capacity spec" "window_capacity spec \<le> ws_max_buckets spec"
    using count by (simp_all add: window_capacity_def)
qed

lemma configured_window:
  assumes "status_ok (validate_window_spec spec)"
  shows "acc_invar (snd (acc_configure a spec))" "acc_configured (snd (acc_configure a spec))"
    "length (acc_storage (snd (acc_configure a spec))) = window_capacity spec"
    "acc_spec (snd (acc_configure a spec)) = spec" "acc_buckets (snd (acc_configure a spec)) = []"
proof -
  show "acc_invar (snd (acc_configure a spec))" "acc_configured (snd (acc_configure a spec))"
    "length (acc_storage (snd (acc_configure a spec))) = window_capacity spec"
    "acc_spec (snd (acc_configure a spec)) = spec" "acc_buckets (snd (acc_configure a spec)) = []"
    using assms valid_spec_bucket(3) [OF assms]
    by (simp_all add: acc_configure_def acc_invar_def acc_buckets_def window_capacity_def Let_def)
qed

lemma observe_run:
  assumes "acc_invar a" "acc_configured a" "acc_storage a \<noteq> []"
  shows "acc_buckets (foldl acc_observe a obs) =
      foldl (window_step (length (acc_storage a)) (acc_spec a)) (acc_buckets a) obs \<and>
    acc_invar (foldl acc_observe a obs) \<and>
    length (acc_storage (foldl acc_observe a obs)) = length (acc_storage a)"
  using assms
proof (induction obs arbitrary: a)
  case (Cons ob obs)
  note step = acc_observe_refines [OF Cons.prems, of ob]
  have "acc_storage (acc_observe a ob) \<noteq> []" using step(2) Cons.prems(3) by (metis length_0_conv)
  from Cons.IH [OF step(5,4) this] step show ?case
    by (simp add: window_step_def acc_cutoff_def)
qed simp

section \<open>Buckets in time order\<close>

definition bucket_ok :: "nanos \<Rightarrow> window_bucket \<Rightarrow> bool" where
  "bucket_ok width b \<longleftrightarrow>
     0 < wb_sample_count b \<and> width dvd wb_start b \<and>
     (wb_has_occupancy b \<longrightarrow>
        wb_occupancy_min b \<le> wb_occupancy_last b \<and> wb_occupancy_last b \<le> wb_occupancy_max b)"

lemma align_bucket_floor:
  assumes "0 < w" "0 \<le> v" "v \<le> i64_max"
  shows "align_bucket v w = v div w * w"
proof -
  have "0 \<le> v div w * w" using assms by (simp add: pos_imp_zdiv_nonneg_iff)
  moreover have "v div w * w \<le> v"
    using assms(1) by (metis mult.commute mult_div_mod_eq pos_mod_sign le_add_same_cancel1)
  ultimately have "is_i64 (v div w * w)"
    using assms by (simp add: is_i64_def i64_min_def)
  moreover have "\<not> v mod w < 0" using assms(1) by (simp add: not_less)
  ultimately show ?thesis
    using assms by (simp add: align_bucket_def cdiv_nonneg cmod_nonneg wrap_i64_id Let_def)
qed

lemma align_bucket_mono:
  assumes "0 < w" "0 \<le> v" "v \<le> v'" "v' \<le> i64_max"
  shows "align_bucket v w \<le> align_bucket v' w"
  using assms by (simp add: align_bucket_floor zdiv_mono1)

lemma fold_observation_ok:
  assumes "bucket_ok w b \<or> (b = new_bucket s \<and> w dvd s)"
  shows "bucket_ok w (fold_observation ob b)"
proof -
  have "w dvd wb_start b" using assms by (auto simp: bucket_ok_def)
  moreover have "wb_has_occupancy b \<Longrightarrow> wb_occupancy_min b \<le> wb_occupancy_last b \<and>
      wb_occupancy_last b \<le> wb_occupancy_max b"
    using assms by (auto simp: bucket_ok_def new_bucket_def empty_bucket_def)
  ultimately show ?thesis
    by (simp add: bucket_ok_def fold_observation_fields) (auto simp: fold_occupancy_def)
qed

definition ordered_window :: "nanos \<Rightarrow> nanos \<Rightarrow> window_bucket list \<Rightarrow> bool" where
  "ordered_window w s bs \<longleftrightarrow>
     sorted_wrt (<) (map wb_start bs) \<and> (\<forall>b \<in> set bs. wb_start b \<le> s \<and> bucket_ok w b)"

lemma sorted_wrt_keep_newest: "sorted_wrt P xs \<Longrightarrow> sorted_wrt P (keep_newest n xs)"
  by (simp add: keep_newest_def sorted_wrt_drop)

lemma ordered_window_observe:
  assumes "ordered_window w s bs" "s \<le> s'" "w dvd s'"
  shows "ordered_window w s' (observe_spec n c s' ob bs)"
proof -
  let ?live = "dropWhile (\<lambda>b. wb_start b < c) bs"
  have sorted: "sorted_wrt (<) (map wb_start ?live)"
    using assms(1) by (metis ordered_window_def dropWhile_eq_drop drop_map sorted_wrt_drop)
  have live: "\<forall>b \<in> set ?live. wb_start b \<le> s' \<and> bucket_ok w b"
    using assms(1,2) by (auto simp: ordered_window_def dest!: set_dropWhileD)
  let ?new = "?live @ [fold_observation ob (new_bucket s')]"
  let ?upd = "map (\<lambda>b. if wb_start b = s' then fold_observation ob b else b) ?live"
  have upd: "ordered_window w s' ?upd"
  proof -
    have "map wb_start ?upd = map wb_start ?live" by simp
    moreover have "\<forall>b \<in> set ?upd. wb_start b \<le> s' \<and> bucket_ok w b"
      using live by (auto intro: fold_observation_ok)
    ultimately show ?thesis unfolding ordered_window_def using sorted by argo
  qed
  have new: "ordered_window w s' (keep_newest n ?new)" if "s' \<notin> wb_start ` set ?live"
  proof -
    have "\<forall>b \<in> set ?live. wb_start b < s'" using live that by force
    then have "sorted_wrt (<) (map wb_start ?new)"
      using sorted by (auto simp: sorted_wrt_append)
    then have "sorted_wrt (<) (map wb_start (keep_newest n ?new))"
      unfolding keep_newest_def drop_map [symmetric] by (rule sorted_wrt_drop)
    moreover have "\<forall>b \<in> set ?new. wb_start b \<le> s' \<and> bucket_ok w b"
      using live assms(3) by (auto intro: fold_observation_ok)
    ultimately show ?thesis
      unfolding ordered_window_def using set_keep_newest [of n ?new] by blast
  qed
  have "ordered_window w s' ?live" using sorted live by (simp add: ordered_window_def)
  with upd new show ?thesis by (auto simp: observe_spec_def Let_def)
qed

lemma ordered_window_run:
  assumes "0 < ws_bucket spec" "ordered_window (ws_bucket spec) (align_bucket t (ws_bucket spec)) bs"
    and "sorted (t # map wo_steady obs)" "0 \<le> t" "\<forall>ob \<in> set obs. wo_steady ob \<le> i64_max"
  shows "\<exists>s. ordered_window (ws_bucket spec) s (foldl (window_step n spec) bs obs)"
  using assms
proof (induction obs arbitrary: t bs)
  case (Cons ob obs)
  let ?w = "ws_bucket spec"
  have "align_bucket t ?w \<le> align_bucket (wo_steady ob) ?w"
    using Cons.prems by (intro align_bucket_mono) auto
  moreover have "?w dvd align_bucket (wo_steady ob) ?w"
    using Cons.prems by (simp add: align_bucket_floor)
  ultimately have "ordered_window ?w (align_bucket (wo_steady ob) ?w) (window_step n spec bs ob)"
    unfolding window_step_def using Cons.prems(2) by (rule_tac ordered_window_observe)
  then show ?case
    using Cons.prems Cons.IH [of "wo_steady ob" "window_step n spec bs ob"] by auto
qed auto

section \<open>Microburst evidence\<close>

definition burst_covered :: "window_bucket list \<Rightarrow> window_bucket list" where
  "burst_covered bs = filter (\<lambda>b. wb_sample_count b \<noteq> 0 \<and> wb_has_occupancy b) bs"

definition scan_summary :: "burst_scan \<Rightarrow> u64 \<times> u64 \<times> nat" where
  "scan_summary s = (bs_peak s, bs_trough s, bs_covered s)"

lemma burst_bucket_skip:
  "\<not> (wb_sample_count b \<noteq> 0 \<and> wb_has_occupancy b) \<Longrightarrow> burst_bucket b st = st"
  by (auto simp: burst_bucket_def)

lemma burst_fold_covered: "fold burst_bucket bs st = fold burst_bucket (burst_covered bs) st"
  by (induction bs arbitrary: st) (simp_all add: burst_covered_def burst_bucket_skip)

lemma burst_bucket_summary:
  assumes "wb_sample_count b \<noteq> 0" "wb_has_occupancy b"
  shows "map_option scan_summary (burst_bucket b (Some s)) =
    Some (max (wb_occupancy_max b) (bs_peak s), min (wb_occupancy_min b) (bs_trough s), bs_covered s + 1)"
    "map_option scan_summary (burst_bucket b None) = Some (wb_occupancy_max b, wb_occupancy_min b, 1)"
  using assms by (auto simp: burst_bucket_def scan_summary_def Let_def max_def min_def)

lemma burst_fold_summary:
  assumes "\<forall>b \<in> set cs. wb_sample_count b \<noteq> 0 \<and> wb_has_occupancy b"
  shows "map_option scan_summary (fold burst_bucket cs (Some s)) =
    Some (fold max (map wb_occupancy_max cs) (bs_peak s),
          fold min (map wb_occupancy_min cs) (bs_trough s), bs_covered s + length cs)"
  using assms
proof (induction cs arbitrary: s)
  case (Cons b cs)
  obtain s1 where s1: "burst_bucket b (Some s) = Some s1"
      "scan_summary s1 = (max (wb_occupancy_max b) (bs_peak s),
        min (wb_occupancy_min b) (bs_trough s), bs_covered s + 1)"
    using burst_bucket_summary(1) [of b s] Cons.prems by auto
  then show ?case
    using Cons.IH [of s1] Cons.prems by (auto simp: scan_summary_def)
qed (simp add: scan_summary_def)

lemma burst_scan_spec:
  "map_option scan_summary (fold burst_bucket bs None) =
     (if burst_covered bs = [] then None
      else Some (Max (wb_occupancy_max ` set (burst_covered bs)),
                 Min (wb_occupancy_min ` set (burst_covered bs)), length (burst_covered bs)))"
proof (cases "burst_covered bs")
  case (Cons b cs)
  have "\<forall>x \<in> set (burst_covered bs). wb_sample_count x \<noteq> 0 \<and> wb_has_occupancy x"
    by (simp add: burst_covered_def)
  then have all: "\<forall>x \<in> set (b # cs). wb_sample_count x \<noteq> 0 \<and> wb_has_occupancy x"
    by (simp only: Cons)
  obtain s where s: "burst_bucket b None = Some s"
      "scan_summary s = (wb_occupancy_max b, wb_occupancy_min b, 1)"
    using burst_bucket_summary(2) [of b] all by auto
  have "Max (wb_occupancy_max ` set (b # cs)) = fold max (map wb_occupancy_max cs) (wb_occupancy_max b)"
    "Min (wb_occupancy_min ` set (b # cs)) = fold min (map wb_occupancy_min cs) (wb_occupancy_min b)"
    using Max.set_eq_fold [of "wb_occupancy_max b" "map wb_occupancy_max cs"]
      Min.set_eq_fold [of "wb_occupancy_min b" "map wb_occupancy_min cs"] by simp_all
  then show ?thesis
    using s burst_fold_summary [of cs s] all burst_fold_covered [of bs None]
    by (simp add: Cons scan_summary_def)
qed (simp add: burst_fold_covered [of bs None])

section \<open>Runs of a configured window\<close>

lemma configured_run:
  assumes "status_ok (validate_window_spec spec)"
  shows "acc_buckets (foldl acc_observe (snd (acc_configure a spec)) obs) =
      foldl (window_step (window_capacity spec) spec) [] obs"
    "acc_size (foldl acc_observe (snd (acc_configure a spec)) obs) \<le> window_capacity spec"
proof -
  note conf = configured_window [OF assms, of a]
  have ne: "acc_storage (snd (acc_configure a spec)) \<noteq> []"
    using conf(3) valid_spec_bucket(3) [OF assms] by (metis length_0_conv less_not_refl)
  note run = observe_run [OF conf(1,2) ne, of obs, unfolded conf]
  show "acc_buckets (foldl acc_observe (snd (acc_configure a spec)) obs) =
      foldl (window_step (window_capacity spec) spec) [] obs"
    "acc_size (foldl acc_observe (snd (acc_configure a spec)) obs) \<le> window_capacity spec"
    using run by (simp_all add: acc_invar_def)
qed

definition demo_spec :: window_spec where
  "demo_spec = \<lparr>ws_name = ''demo'', ws_duration = 100, ws_bucket = 10, ws_min_covered_buckets = 1,
     ws_max_buckets = 64\<rparr>"

definition demo_observation :: "nanos \<Rightarrow> window_observation" where
  "demo_observation t = \<lparr>wo_steady = t, wo_has_occupancy = False, wo_occupancy = 0,
     wo_drops = empty_delta, wo_marks = empty_delta, wo_pause_frames = empty_delta,
     wo_pause_duration = empty_delta, wo_enqueues = empty_delta, wo_dequeues = empty_delta,
     wo_establishes_current = True, wo_any_delta_unknown = False\<rparr>"

lemma demo_spec_valid:
  "status_ok (validate_window_spec demo_spec)" "window_capacity demo_spec = 10"
  by (simp_all add: validate_window_spec_def demo_spec_def bucket_count_of_def u64_of_i64_def
      div_ceil_u64_def window_capacity_def Let_def)

lemma demo_starts:
  "map wb_start (acc_buckets (foldl acc_observe (snd (acc_configure a demo_spec))
     [demo_observation 5, demo_observation 35, demo_observation 15])) = [0, 30, 10]"
  unfolding configured_run [OF demo_spec_valid(1)] demo_spec_valid(2)
  by (simp add: window_step_def demo_spec_def demo_observation_def align_bucket_floor i64_max_def
      subtract_clamped_def i64_min_def wrap_i64_def observe_spec_def keep_newest_def Let_def)

section \<open>Properties\<close>

text \<open>The accumulator refines its list specification. After a window has been
  configured with a valid specification, any sequence of observations, at any times,
  leaves the bucket ring with exactly the buckets of the list specification, at most as
  many as the specification's bucket count and its budget allow.\<close>

theorem window_refines_spec:
  assumes "status_ok (validate_window_spec spec)"
  shows "acc_buckets (foldl acc_observe (snd (acc_configure a spec)) obs) =
      foldl (window_step (window_capacity spec) spec) [] obs \<and>
    length (acc_buckets (foldl acc_observe (snd (acc_configure a spec)) obs)) \<le> ws_max_buckets spec"
  using configured_run [OF assms, of a obs] valid_spec_bucket(4) [OF assms]
  by (metis length_acc_buckets order_trans)

theorem window_refines_spec_witness:
  "acc_buckets (foldl acc_observe (snd (acc_configure empty_accumulator demo_spec)) [demo_observation 5]) =
     foldl (window_step 10 demo_spec) [] [demo_observation 5]"
  using window_refines_spec [OF demo_spec_valid(1)] by (simp only: demo_spec_valid(2))

text \<open>A window over a steady clock is well formed. When the observations arrive in
  non-decreasing receive time, the buckets are strictly ascending, each is aligned to the
  bucket width and holds at least one sample, and the last occupancy of a bucket lies
  between its minimum and its maximum.\<close>

theorem window_ordered:
  assumes "status_ok (validate_window_spec spec)"
    and "sorted (map wo_steady obs)" "\<forall>ob \<in> set obs. 0 \<le> wo_steady ob \<and> wo_steady ob \<le> i64_max"
  shows "sorted_wrt (<) (map wb_start (acc_buckets (foldl acc_observe (snd (acc_configure a spec)) obs))) \<and>
    (\<forall>b \<in> set (acc_buckets (foldl acc_observe (snd (acc_configure a spec)) obs)).
       bucket_ok (ws_bucket spec) b)"
proof -
  have "\<exists>s. ordered_window (ws_bucket spec) s (foldl (window_step (window_capacity spec) spec) [] obs)"
    using assms(2,3) valid_spec_bucket(1) [OF assms(1)]
    by (intro ordered_window_run [where t = 0]) (auto simp: ordered_window_def)
  then show ?thesis
    unfolding configured_run [OF assms(1)] by (auto simp: ordered_window_def)
qed

theorem window_ordered_witness:
  "sorted_wrt (<) (map wb_start (acc_buckets
     (foldl acc_observe (snd (acc_configure empty_accumulator demo_spec))
       [demo_observation 5, demo_observation 35, demo_observation 36])))"
  using window_ordered [OF demo_spec_valid(1), of "[demo_observation 5, demo_observation 35, demo_observation 36]"]
  by (simp add: demo_observation_def i64_max_def)

text \<open>Microburst evidence is the observed extremes. Over the buckets that hold an
  occupancy, the peak is their maximum, the trough their minimum and the coverage their
  number; a burst is detected exactly when the coverage and the excursion both reach what
  the caller requires, and nothing is reconstructed between samples.\<close>

theorem burst_evidence_exact:
  "let cs = filter (\<lambda>b. wb_sample_count b \<noteq> 0 \<and> wb_has_occupancy b) (acc_buckets a);
       e = acc_burst_evidence a least required
   in be_covered_buckets e = length cs \<and>
      be_peak e = (if cs = [] then 0 else Max (wb_occupancy_max ` set cs)) \<and>
      be_trough e = (if cs = [] then 0 else Min (wb_occupancy_min ` set cs)) \<and>
      be_excursion e = be_peak e - be_trough e \<and>
      be_detected e = (length cs \<ge> unat required \<and> be_peak e - be_trough e \<ge> least) \<and>
      \<not> be_sub_sample_reconstructed e"
proof -
  have "map_option scan_summary (fold burst_bucket (acc_buckets a) None) =
      (let cs = burst_covered (acc_buckets a)
       in if cs = [] then None
          else Some (Max (wb_occupancy_max ` set cs), Min (wb_occupancy_min ` set cs), length cs))"
    by (simp add: burst_scan_spec Let_def)
  then show ?thesis
    unfolding burst_covered_def
    by (cases "fold burst_bucket (acc_buckets a) None")
      (auto simp: acc_burst_evidence_def scan_summary_def Let_def split: if_splits)
qed

text \<open>Time order is lost when the clock steps back into a gap. A late observation that
  is newer than the oldest bucket but has no bucket of its own is appended as the newest
  one, so that the buckets, which are documented to be in ascending time order, are not.\<close>

theorem late_observation_misplaced:
  "\<exists>spec obs. status_ok (validate_window_spec spec) \<and>
     \<not> sorted (map wb_start (acc_buckets (foldl acc_observe (snd (acc_configure a spec)) obs)))"
  by (intro exI [of _ demo_spec]
      exI [of _ "[demo_observation 5, demo_observation 35, demo_observation 15]"])
    (simp only: demo_spec_valid(1) demo_starts, simp)

end
