(* ===== verification/Window_Properties.thy ===== *)
theory Window_Properties
  imports Window
begin

text \<open>
  What a window holds when its observations arrive in the order of time, as the store feeds them from a
  steady clock: the observations grouped by bucket, less the buckets that fell out of the window and
  the oldest ones beyond the bucket count. The description does not follow the code step by step.
\<close>

section \<open>Observations by bucket\<close>

definition bucket_of :: "nanos \<Rightarrow> window_observation \<Rightarrow> nanos" where
  "bucket_of w ob = wo_steady ob div w * w"

definition bucket_group :: "nanos \<Rightarrow> window_observation list \<Rightarrow> nanos \<Rightarrow> window_bucket" where
  "bucket_group w obs s = foldl (\<lambda>b ob. fold_observation ob b) (new_bucket s) (filter (\<lambda>ob. bucket_of w ob = s) obs)"

definition bucket_groups :: "nanos \<Rightarrow> window_observation list \<Rightarrow> window_bucket list" where
  "bucket_groups w obs = map (bucket_group w obs) (sorted_list_of_set (bucket_of w ` set obs))"

definition window_contents :: "window_spec \<Rightarrow> window_observation list \<Rightarrow> window_bucket list" where
  "window_contents spec obs =
     keep_newest (window_capacity spec)
       (filter (\<lambda>b. wo_steady (last obs) - ws_duration spec \<le> wb_start b) (bucket_groups (ws_bucket spec) obs))"

text \<open>Observations in the order of time, at times that a steady clock can have.\<close>

definition timely :: "window_observation list \<Rightarrow> bool" where
  "timely obs \<longleftrightarrow> sorted (map wo_steady obs) \<and> (\<forall>ob\<in>set obs. 0 \<le> wo_steady ob \<and> wo_steady ob \<le> i64_max)"

lemma timely_snoc:
  "timely (obs @ [ob]) \<longleftrightarrow> timely obs \<and> (\<forall>o'\<in>set obs. wo_steady o' \<le> wo_steady ob) \<and> 0 \<le> wo_steady ob \<and> wo_steady ob \<le> i64_max"
  by (auto simp: timely_def sorted_append)

lemma bucket_of_mono: "0 < w \<Longrightarrow> wo_steady a \<le> wo_steady b \<Longrightarrow> bucket_of w a \<le> bucket_of w b"
  by (simp add: bucket_of_def zdiv_mono1)

lemma bucket_group_start [simp]: "wb_start (bucket_group w obs s) = s"
proof -
  have "wb_start (foldl (\<lambda>b ob. fold_observation ob b) b obs') = wb_start b" for b obs'
    by (induction obs' arbitrary: b) simp_all
  then show ?thesis by (simp add: bucket_group_def)
qed

lemma bucket_groups_starts [simp]: "map wb_start (bucket_groups w obs) = sorted_list_of_set (bucket_of w ` set obs)"
  by (simp add: bucket_groups_def comp_def)

lemma bucket_group_snoc:
  "bucket_group w (obs @ [ob]) s = (if bucket_of w ob = s then fold_observation ob (bucket_group w obs s) else bucket_group w obs s)"
  by (simp add: bucket_group_def)

lemma bucket_group_none: "s \<notin> bucket_of w ` set obs \<Longrightarrow> bucket_group w obs s = new_bucket s"
proof -
  assume "s \<notin> bucket_of w ` set obs"
  then have "filter (\<lambda>ob. bucket_of w ob = s) obs = []" by (auto simp: filter_empty_conv)
  then show ?thesis by (simp add: bucket_group_def)
qed

lemma sorted_starts: "sorted_wrt (<) (map wb_start (bucket_groups w obs))"
  by simp

lemma sorted_list_of_set_snoc:
  assumes "finite A" "\<forall>x\<in>A. x < (s :: 'a::linorder)"
  shows "sorted_list_of_set (insert s A) = sorted_list_of_set A @ [s]"
proof -
  let ?xs = "sorted_list_of_set A @ [s]"
  have "sorted ?xs" "distinct ?xs" "set ?xs = insert s A"
    using assms by (auto simp: sorted_append less_imp_le)
  then show ?thesis by (metis sorted_list_of_set.idem_if_sorted_distinct)
qed

text \<open>One more observation, in the order of time.\<close>

lemma bucket_groups_snoc:
  assumes "timely (obs @ [ob])" "0 < w"
  shows "bucket_groups w (obs @ [ob]) =
    (if bucket_of w ob \<in> wb_start ` set (bucket_groups w obs)
     then map (\<lambda>b. if wb_start b = bucket_of w ob then fold_observation ob b else b) (bucket_groups w obs)
     else bucket_groups w obs @ [fold_observation ob (new_bucket (bucket_of w ob))])"
proof -
  let ?s = "bucket_of w ob"
  let ?A = "bucket_of w ` set obs"
  have set: "wb_start ` set (bucket_groups w obs) = ?A"
    by (simp add: bucket_groups_def image_image)
  have le: "\<forall>x\<in>?A. x \<le> ?s" using assms by (auto simp: timely_snoc bucket_of_mono)
  show ?thesis
  proof (cases "?s \<in> ?A")
    case True
    then show ?thesis using set by (simp add: bucket_groups_def bucket_group_snoc insert_absorb)
  next
    case False
    then have "\<forall>x\<in>?A. x < ?s" using le by (metis order_le_imp_less_or_eq)
    then have "sorted_list_of_set (insert ?s ?A) = sorted_list_of_set ?A @ [?s]"
      by (intro sorted_list_of_set_snoc) simp_all
    moreover have "map (bucket_group w (obs @ [ob])) (sorted_list_of_set ?A) = map (bucket_group w obs) (sorted_list_of_set ?A)"
      using False by (auto simp: bucket_group_snoc)
    ultimately show ?thesis
      using False set by (simp add: bucket_groups_def bucket_group_snoc bucket_group_none del: sorted_list_of_set_insert_remove)
  qed
qed

section \<open>Expiry and eviction\<close>

lemma keep_newest_Cons: "keep_newest n (x # xs) = (if length xs < n then x # xs else keep_newest n xs)"
  by (auto simp: keep_newest_def Suc_diff_le not_less)

lemma keep_newest_map: "keep_newest n (map f xs) = map f (keep_newest n xs)"
  by (simp add: keep_newest_def drop_map)

text \<open>Keeping the newest commutes with dropping what lies before a time.\<close>

lemma filter_keep_newest:
  assumes "sorted_wrt (<) (map f xs)"
  shows "filter (\<lambda>x. c \<le> f x) (keep_newest n xs) = keep_newest n (filter (\<lambda>x. (c :: 'b::linorder) \<le> f x) xs)"
  using assms
proof (induction xs)
  case (Cons x xs)
  show ?case
  proof (cases "c \<le> f x")
    case True
    then have "filter (\<lambda>x. c \<le> f x) xs = xs" using Cons.prems by (auto simp: filter_id_conv)
    then show ?thesis using True Cons by (auto simp: keep_newest_Cons)
  next
    case False
    moreover have "length (filter (\<lambda>x. c \<le> f x) xs) \<le> length xs" by simp
    ultimately show ?thesis using Cons by (auto simp: keep_newest_Cons keep_newest_id)
  qed
qed (simp add: keep_newest_def)

lemma dropWhile_filter_sorted:
  "sorted_wrt (<) (map f xs) \<Longrightarrow> dropWhile (\<lambda>x. f x < c) xs = filter (\<lambda>x. (c :: 'b::linorder) \<le> f x) xs"
proof (induction xs)
  case (Cons x xs)
  have "filter (\<lambda>x. c \<le> f x) xs = xs" if "c \<le> f x" using Cons.prems that by (auto simp: filter_id_conv)
  then show ?case using Cons by auto
qed simp

lemma filter_filter_later: "c \<le> c' \<Longrightarrow> filter (\<lambda>x. c' \<le> f x) (filter (\<lambda>x. (c :: 'b::linorder) \<le> f x) xs) = filter (\<lambda>x. c' \<le> f x) xs"
  by (auto intro!: filter_cong)

section \<open>Runs in the order of time\<close>

lemma subtract_clamped_exact:
  "\<lbrakk>0 \<le> t; t \<le> i64_max; 0 < d; d \<le> i64_max\<rbrakk> \<Longrightarrow> subtract_clamped t d = t - d"
  by (auto simp: subtract_clamped_def wrap_i64_id is_i64_def i64_min_def i64_max_def)

lemma bucket_of_bounds:
  assumes "0 < w"
  shows "bucket_of w ob \<le> wo_steady ob" "wo_steady ob - w < bucket_of w ob"
  using assms pos_mod_bound [of w "wo_steady ob"] pos_mod_sign [of w "wo_steady ob"] div_mult_mod_eq [of "wo_steady ob" w]
  unfolding bucket_of_def by linarith+

lemma contents_sorted: "sorted_wrt (<) (map wb_start (filter P (bucket_groups w obs)))"
  using sorted_starts [of w obs] by (simp add: sorted_wrt_map sorted_wrt_filter del: bucket_groups_starts)

lemma newest_run_kept:
  "\<lbrakk>sorted_wrt (<) (map f xs); x \<in> set xs; \<forall>y\<in>set xs. f y \<le> (f x :: 'b::linorder); 0 < n\<rbrakk> \<Longrightarrow> x \<in> set (keep_newest n xs)"
proof (induction xs)
  case (Cons a xs)
  show ?case
  proof (cases "length xs < n")
    case False
    then obtain y where "y \<in> set xs" using Cons.prems(4) by (cases xs) auto
    then have "x \<noteq> a" using Cons.prems by fastforce
    then show ?thesis using Cons False by (simp add: keep_newest_Cons)
  qed (use Cons in \<open>simp add: keep_newest_Cons\<close>)
qed simp

text \<open>One step, on buckets that are the newest of those in the window.\<close>

lemma window_step_contents:
  assumes "timely (obs @ [ob])" "0 < ws_bucket spec" "ws_bucket spec \<le> ws_duration spec" "ws_duration spec \<le> i64_max"
    and "0 < n" "c \<le> wo_steady ob - ws_duration spec"
  shows "window_step n spec (keep_newest n (filter (\<lambda>b. c \<le> wb_start b) (bucket_groups (ws_bucket spec) obs))) ob =
    keep_newest n (filter (\<lambda>b. wo_steady ob - ws_duration spec \<le> wb_start b) (bucket_groups (ws_bucket spec) (obs @ [ob])))"
proof -
  let ?w = "ws_bucket spec" and ?s = "bucket_of (ws_bucket spec) ob" and ?c = "wo_steady ob - ws_duration spec"
  let ?G = "bucket_groups (ws_bucket spec) obs"
  let ?F = "filter (\<lambda>b. ?c \<le> wb_start b) ?G"
  let ?upd = "\<lambda>b. if wb_start b = ?s then fold_observation ob b else b"
  have time: "0 \<le> wo_steady ob" "wo_steady ob \<le> i64_max" using assms(1) by (simp_all add: timely_snoc)
  have align: "align_bucket (wo_steady ob) ?w = ?s"
    using time assms(2) by (simp add: align_bucket_floor bucket_of_def)
  have cutoff: "subtract_clamped (wo_steady ob) (ws_duration spec) = ?c"
    using time assms(2-4) by (intro subtract_clamped_exact) simp_all
  have recent: "?c \<le> ?s" using bucket_of_bounds(2) [OF assms(2), of ob] assms(3) by linarith
  have live: "dropWhile (\<lambda>b. wb_start b < ?c) (keep_newest n (filter (\<lambda>b. c \<le> wb_start b) ?G)) = keep_newest n ?F"
    using contents_sorted [of "\<lambda>b. c \<le> wb_start b" ?w obs] assms(6)
    by (subst dropWhile_filter_sorted) (simp_all add: keep_newest_map [symmetric] sorted_wrt_keep_newest filter_keep_newest filter_filter_later
        del: filter_filter)
  have groups: "bucket_groups ?w (obs @ [ob]) =
      (if ?s \<in> wb_start ` set ?G then map ?upd ?G else ?G @ [fold_observation ob (new_bucket ?s)])"
    by (rule bucket_groups_snoc [OF assms(1,2)])
  have below: "wb_start b \<le> ?s" if "b \<in> set ?G" for b
    using that assms(1,2) by (auto simp: bucket_groups_def timely_snoc bucket_of_mono)
  show ?thesis
  proof (cases "?s \<in> wb_start ` set ?G")
    case True
    then obtain b where b: "b \<in> set ?G" "wb_start b = ?s" by auto
    then have "b \<in> set (keep_newest n ?F)"
      using below recent assms(5) contents_sorted by (intro newest_run_kept [where f = wb_start]) auto
    then have "?s \<in> wb_start ` set (keep_newest n ?F)" using b(2) by force
    moreover have "filter (\<lambda>b. ?c \<le> wb_start b) (map ?upd ?G) = map ?upd ?F"
      by (auto simp: filter_map comp_def intro!: arg_cong [where f = "map ?upd"] filter_cong)
    ultimately show ?thesis
      using True groups live by (simp add: window_step_def align cutoff observe_spec_def Let_def keep_newest_map)
  next
    case False
    then have "?s \<notin> wb_start ` set (keep_newest n ?F)" using set_keep_newest [of n ?F] by auto
    moreover have "\<not> (keep_newest n ?F \<noteq> [] \<and> ?s < wb_start (hd (keep_newest n ?F)))"
    proof
      assume *: "keep_newest n ?F \<noteq> [] \<and> ?s < wb_start (hd (keep_newest n ?F))"
      then have "hd (keep_newest n ?F) \<in> set ?G" using set_keep_newest [of n ?F] hd_in_set by fastforce
      with below * show False by fastforce
    qed
    ultimately show ?thesis
      using False groups live recent
      by (auto simp: window_step_def align cutoff observe_spec_def Let_def keep_newest_append)
  qed
qed

lemma window_run_contents:
  assumes "status_ok (validate_window_spec spec)" "ws_duration spec \<le> i64_max" "timely obs" "obs \<noteq> []"
  shows "foldl (window_step (window_capacity spec) spec) [] obs = window_contents spec obs"
  using assms(3,4)
proof (induction obs rule: rev_induct)
  case (snoc ob obs)
  note valid = valid_spec_bucket [OF assms(1)]
  have "\<exists>c \<le> wo_steady ob - ws_duration spec. foldl (window_step (window_capacity spec) spec) [] obs =
      keep_newest (window_capacity spec) (filter (\<lambda>b. c \<le> wb_start b) (bucket_groups (ws_bucket spec) obs))"
  proof (cases "obs = []")
    case True
    then show ?thesis by (auto simp: bucket_groups_def keep_newest_def)
  next
    case False
    then have "wo_steady (last obs) - ws_duration spec \<le> wo_steady ob - ws_duration spec"
      using snoc.prems(1) by (simp add: timely_snoc)
    moreover have "foldl (window_step (window_capacity spec) spec) [] obs = window_contents spec obs"
      using snoc False by (simp add: timely_snoc)
    ultimately show ?thesis unfolding window_contents_def by blast
  qed
  then show ?case
    using window_step_contents [OF snoc.prems(1) valid(1,2) assms(2) valid(3)] by (auto simp: window_contents_def)
qed simp

section \<open>Properties\<close>

text \<open>C39: Windows hold the observations of their time. When a window has been configured with a valid
  specification whose length is in the range of a signed time, and observations arrive in the order of
  time at nonnegative steady times, the bucket ring holds exactly this: the
  observations folded bucket by bucket in ascending order of start, without the buckets that start
  before the window of the latest observation, and of those only the newest, at most as many as the
  specification's bucket count. (An observation that arrives late into a gap is misplaced,
  see \<open>Window.late_observation_misplaced\<close>.)\<close>

theorem window_holds_recent_buckets:
  assumes "status_ok (validate_window_spec spec)" "ws_duration spec \<le> i64_max" "timely obs" "obs \<noteq> []"
  shows "acc_buckets (foldl acc_observe (snd (acc_configure a spec)) obs) =
      keep_newest (window_capacity spec)
        (filter (\<lambda>b. wo_steady (last obs) - ws_duration spec \<le> wb_start b) (bucket_groups (ws_bucket spec) obs))
    \<and> sorted_wrt (<) (map wb_start (acc_buckets (foldl acc_observe (snd (acc_configure a spec)) obs)))"
proof -
  have run: "acc_buckets (foldl acc_observe (snd (acc_configure a spec)) obs) = window_contents spec obs"
    using configured_run(1) [OF assms(1)] window_run_contents [OF assms] by simp
  show ?thesis
    using contents_sorted
    by (simp add: run window_contents_def keep_newest_map [symmetric] sorted_wrt_keep_newest)
qed

lemma map_filter_key: "map f (filter (\<lambda>x. P (f x)) xs) = filter P (map f xs)"
  by (induction xs) simp_all

theorem window_holds_recent_buckets_witness:
  "map wb_start (acc_buckets (foldl acc_observe (snd (acc_configure empty_accumulator demo_spec))
     [demo_observation 5, demo_observation 35, demo_observation 117])) = [30, 110]"
proof -
  let ?obs = "[demo_observation 5, demo_observation 35, demo_observation 117]"
  have timely: "timely ?obs" by (simp add: timely_def demo_observation_def i64_max_def)
  have "bucket_of 10 ` set ?obs = {0, 30, 110}" by (simp add: bucket_of_def demo_observation_def)
  moreover have "sorted_list_of_set {0, 30, 110 :: nanos} = [0, 30, 110]" by simp
  ultimately have starts: "map wb_start (bucket_groups 10 ?obs) = [0, 30, 110]" by (simp only: bucket_groups_starts)
  have "acc_buckets (foldl acc_observe (snd (acc_configure empty_accumulator demo_spec)) ?obs) =
      keep_newest 10 (filter (\<lambda>b. 17 \<le> wb_start b) (bucket_groups 10 ?obs))"
    using window_holds_recent_buckets [OF demo_spec_valid(1) _ timely, of empty_accumulator]
    by (simp only: demo_spec_valid(2)) (simp add: demo_spec_def demo_observation_def i64_max_def)
  then have "map wb_start (acc_buckets (foldl acc_observe (snd (acc_configure empty_accumulator demo_spec)) ?obs)) =
      keep_newest 10 (filter (\<lambda>s. 17 \<le> s) [0, 30, 110])"
    by (simp only: keep_newest_map [symmetric] map_filter_key starts)
  then show ?thesis by (simp add: keep_newest_def)
qed

end
