(* ===== verification/Correlation.thy ===== *)
theory Correlation
  imports Window
begin

text \<open>
  Correlation records (\<^verbatim>\<open>include/qobs/store/Correlation.hpp\<close>,
  \<^verbatim>\<open>src/store/Correlation.cpp\<close>): the evidence for sibling contention and microbursts as
  reported to a caller, and the reduction of the contention ratio to lowest terms.
\<close>

section \<open>Data\<close>

record contention_record =
  cor_port :: port_path
  cor_scheduling_class :: string
  cor_queue_a :: queue_path
  cor_queue_b :: queue_path
  cor_window :: window_spec
  cor_covered_buckets :: nat
  cor_simultaneous_buckets :: nat
  cor_union_buckets :: nat
  cor_ratio_numerator :: u64
  cor_ratio_denominator :: u64
  cor_window_start :: nanos
  cor_window_end :: nanos
  cor_assessment :: evidence_assessment

record microburst_record =
  mbr_queue :: queue_path
  mbr_window :: window_spec
  mbr_peak :: u64
  mbr_trough :: u64
  mbr_excursion :: u64
  mbr_required_excursion :: u64
  mbr_covered_buckets :: nat
  mbr_required_buckets :: nat
  mbr_peak_at :: nanos
  mbr_trough_at :: nanos
  mbr_detected :: bool
  mbr_coverage_sufficient :: bool
  mbr_sub_sample_reconstructed :: bool
  mbr_assessment :: evidence_assessment

section \<open>Operations\<close>

function greatest_common_divisor :: "u64 \<Rightarrow> u64 \<Rightarrow> u64" where
  "greatest_common_divisor a b = (if b \<noteq> 0 then greatest_common_divisor b (a mod b) else a)"
  by pat_completeness auto
termination
  by (relation "measure (\<lambda>(a, b). unat b)") (auto simp: unat_mod unat_gt_0)

declare greatest_common_divisor.simps [simp del]

definition reduce_fraction :: "u64 \<Rightarrow> u64 \<Rightarrow> u64 \<times> u64" where
  "reduce_fraction numerator denominator =
     (if denominator = 0 then (0, 1)
      else if numerator = 0 then (numerator, 1)
      else let divisor = greatest_common_divisor numerator denominator
           in if divisor > 1 then (numerator div divisor, denominator div divisor)
              else (numerator, denominator))"

section \<open>Lemmas\<close>

lemma greatest_common_divisor_gcd: "unat (greatest_common_divisor a b) = gcd (unat a) (unat b)"
proof (induction a b rule: greatest_common_divisor.induct)
  case (1 a b)
  show ?case
  proof (cases "b = 0")
    case False
    then have "unat (greatest_common_divisor a b) = gcd (unat b) (unat (a mod b))"
      using 1 by (simp add: greatest_common_divisor.simps [of a b])
    also have "\<dots> = gcd (unat a) (unat b)"
      using False by (simp add: unat_mod gcd.commute [of _ "unat a mod unat b"] gcd_red_nat [symmetric] gcd.commute)
    finally show ?thesis .
  qed (simp add: greatest_common_divisor.simps)
qed

lemma reduce_fraction_nat:
  "reduce_fraction n d =
     (if unat d = 0 then (0, 1)
      else (of_nat (unat n div gcd (unat n) (unat d)), of_nat (unat d div gcd (unat n) (unat d))))"
proof (cases "d = 0 \<or> n = 0")
  case True
  then show ?thesis by (auto simp: reduce_fraction_def unat_eq_zero)
next
  case False
  let ?g = "greatest_common_divisor n d"
  have g: "unat ?g = gcd (unat n) (unat d)" by (rule greatest_common_divisor_gcd)
  have "0 < unat ?g" using False by (simp add: g unat_gt_0)
  then have "?g > 1 \<or> unat ?g = 1" by (auto simp: word_less_nat_alt)
  then show ?thesis
    using False by (auto simp: reduce_fraction_def Let_def word_arith_nat_div g [symmetric] unat_eq_zero)
qed

section \<open>Properties\<close>

text \<open>The contention ratio is exact. Reduction keeps the ratio and leaves a fraction in
  lowest terms with a positive denominator; a zero denominator becomes 0/1.\<close>

theorem reduce_fraction_lowest_terms:
  "let (n', d') = reduce_fraction n d
   in coprime (unat n') (unat d') \<and> 0 < unat d' \<and>
      (if d = 0 then n' = 0 \<and> d' = 1 else unat n' * unat d = unat n * unat d')"
proof (cases "d = 0")
  case False
  let ?g = "gcd (unat n) (unat d)"
  have d: "0 < unat d" using False by (simp add: unat_gt_0)
  have small: "unat (of_nat (unat x div ?g) :: u64) = unat x div ?g" for x :: u64
    using le_less_trans [OF div_le_dividend unat_u64_bound, of x ?g]
    by (simp add: unat_of_nat mod_less)
  have "coprime (unat n div ?g) (unat d div ?g)" using d by (intro div_gcd_coprime) simp
  moreover have "0 < unat d div ?g" using d by (simp add: div_greater_zero_iff gcd_le2_nat)
  moreover have "unat n div ?g * unat d = unat n * (unat d div ?g)"
    by (metis div_mult_swap dvd_div_mult gcd_dvd1 gcd_dvd2)
  ultimately show ?thesis
    using False d by (simp add: reduce_fraction_nat small)
qed (simp add: reduce_fraction_def)

end
