(* ===== verification/Store_State.thy ===== *)
theory Store_State
  imports Ordered_Map History Correlation Classification Event Metadata Limits
begin

text \<open>
  The state of the evidence store (\<^verbatim>\<open>include/qobs/store/Store.hpp\<close> and the private part of
  \<^verbatim>\<open>src/store/Store.cpp\<close>): its records, the constructor, the event log, the registration of
  a queue, the assessment of a sample and the detection of conflicts between sources.

  The store is a record and every operation returns the updated record. The three fields
  of the event log are grouped in a record of their own. A reading of the clock is
  external input: the store carries the sequence of readings it will make and how many it
  has made, and \<open>read_clock\<close> takes the next one. The size of a history record in bytes,
  which the compiler chooses, is a field too. The mutex and the lock-rank guard are not part of this
  theory: every operation of the store runs as one critical section.
\<close>

section \<open>Data\<close>

datatype admission_outcome =
    Accepted | AcceptedNewSource | AcceptedNewIncarnation | AcceptedNewGeneration
  | AcceptedLateButFresh | RejectedInvalid | RejectedLimit | RejectedNotRunning
  | FencedStaleIncarnation | FencedStaleSequence | FencedStaleGeneration
  | FencedAuthorityDowngrade

record source_record =
  s_id :: string
  s_authority :: source_authority
  s_declared_authority :: source_authority
  s_incarnation :: string
  s_incarnation_ordinal :: u64
  s_last_sequence :: u64
  s_generation :: u64
  s_clock_domain :: string
  s_first_seen :: receive_time
  s_last_seen :: receive_time
  s_accepted :: u64
  s_fenced :: u64
  s_duplicates :: u64
  s_rejected :: u64
  s_last_observed :: u64
  s_recent_incarnations :: "(string \<times> u64) list"

record conflict_record =
  co_queue :: queue_path
  co_detected :: receive_time
  co_source_a :: string
  co_source_b :: string
  co_value_a :: u64
  co_value_b :: u64
  co_difference :: u64
  co_tolerance :: u64
  co_active :: bool

record admission_result =
  ar_outcome :: admission_outcome
  ar_accepted :: bool
  ar_reason :: string
  ar_queue :: queue_path
  ar_classification :: classification_result
  ar_conflict_detected :: bool
  ar_state_changed :: bool
  ar_previous_state :: pressure_state
  ar_queue_created :: bool

definition empty_admission :: admission_result where
  "empty_admission =
     \<lparr>ar_outcome = Accepted, ar_accepted = False, ar_reason = [], ar_queue = empty_path,
      ar_classification = empty_result, ar_conflict_detected = False, ar_state_changed = False,
      ar_previous_state = PS_Unknown, ar_queue_created = False\<rparr>"

record admission_failure =
  af_index :: nat
  af_outcome :: admission_outcome
  af_queue :: queue_path
  af_reason :: string

record batch_admission =
  ba_presented :: nat
  ba_accepted :: nat
  ba_rejected :: nat
  ba_fenced :: nat
  ba_duplicates :: nat
  ba_conflicts :: nat
  ba_state_changes :: nat
  ba_queues_created :: nat
  ba_failures :: "admission_failure list"
  ba_failures_truncated :: bool

definition empty_batch :: batch_admission where
  "empty_batch =
     \<lparr>ba_presented = 0, ba_accepted = 0, ba_rejected = 0, ba_fenced = 0, ba_duplicates = 0,
      ba_conflicts = 0, ba_state_changes = 0, ba_queues_created = 0, ba_failures = [],
      ba_failures_truncated = False\<rparr>"

record metadata_admission =
  ma_accepted :: bool
  ma_fenced :: bool
  ma_reason :: string
  ma_previous_revision :: u64

record store_counters =
  c_samples_presented :: u64
  c_samples_accepted :: u64
  c_samples_rejected :: u64
  c_samples_fenced :: u64
  c_duplicates_suppressed :: u64
  c_conflicts_detected :: u64
  c_conflicts_cleared :: u64
  c_state_transitions :: u64
  c_events_recorded :: u64
  c_events_evicted :: u64
  c_history_records_pushed :: u64
  c_history_records_evicted :: u64
  c_sources_registered :: u64
  c_metadata_updates :: u64
  c_metadata_fenced :: u64
  c_counter_wraps :: u64
  c_counter_resets :: u64
  c_counter_ambiguous :: u64
  c_counter_discontinuous :: u64

definition zero_counters :: store_counters where
  "zero_counters =
     \<lparr>c_samples_presented = 0, c_samples_accepted = 0, c_samples_rejected = 0,
      c_samples_fenced = 0, c_duplicates_suppressed = 0, c_conflicts_detected = 0,
      c_conflicts_cleared = 0, c_state_transitions = 0, c_events_recorded = 0,
      c_events_evicted = 0, c_history_records_pushed = 0, c_history_records_evicted = 0,
      c_sources_registered = 0, c_metadata_updates = 0, c_metadata_fenced = 0,
      c_counter_wraps = 0, c_counter_resets = 0, c_counter_ambiguous = 0,
      c_counter_discontinuous = 0\<rparr>"

record session_info =
  se_runtime_id :: string
  se_started :: receive_time
  se_policy_version :: u32
  se_policy_name :: string
  se_persistence_format_version :: u32
  se_wire_format_version :: u32
  se_runtime_version :: "u32 \<times> u32 \<times> u32"

record peer_observation =
  po_source :: string
  po_authority :: source_authority
  po_occupancy :: u64
  po_has_occupancy :: bool
  po_reported :: field_mask
  po_occupancy_field :: sample_field
  po_received :: nanos
  po_observed :: observation_time

record queue_state =
  q_queue :: queue_path
  q_classes :: queue_class_attributes
  q_classes_known :: bool
  q_counters :: "sample_field \<Rightarrow> counter_state"
  q_history :: history_ring
  q_latest :: classification_result
  q_last_received :: receive_time
  q_last_observed :: observation_time
  q_peers :: "peer_observation list"
  q_counters_seen :: field_mask
  q_last_input :: classification_input
  q_class_reference_unsupported :: bool
  q_conflict_active :: bool
  q_conflict_since :: receive_time
  q_accepted :: u64
  q_conflicts :: u64

definition new_queue_state :: "queue_path \<Rightarrow> queue_state" where
  "new_queue_state queue =
     \<lparr>q_queue = queue, q_classes = empty_attributes, q_classes_known = False,
      q_counters = (\<lambda>_. counter_state_init), q_history = empty_ring, q_latest = empty_result,
      q_last_received = zero_receive, q_last_observed = zero_observation, q_peers = [],
      q_counters_seen = 0, q_last_input = empty_input, q_class_reference_unsupported = False,
      q_conflict_active = False, q_conflict_since = zero_receive, q_accepted = 0,
      q_conflicts = 0\<rparr>"

record event_log =
  el_storage :: "event_record list"
  el_head :: nat
  el_size :: nat

record store =
  st_policy :: pressure_policy
  st_history_limits :: history_limits
  st_query_limits :: query_limits
  st_record_size :: nat
  st_clock :: "nat \<Rightarrow> receive_time"
  st_ticks :: nat
  st_evaluation_spec :: window_spec
  st_microburst_spec :: window_spec
  st_contention_spec :: window_spec
  st_config_status :: status
  st_queues :: "(queue_path \<times> queue_state) list"
  st_sources :: "(string \<times> source_record) list"
  st_metadata :: class_metadata_table
  st_has_metadata :: bool
  st_recovered_mode :: bool
  st_conflicts :: "conflict_record list"
  st_events :: event_log
  st_next_incarnation_ordinal :: u64
  st_history_bytes :: u64
  st_counters :: store_counters
  st_session :: session_info

section \<open>Texts\<close>

fun admission_outcome_text :: "admission_outcome \<Rightarrow> string" where
  "admission_outcome_text Accepted = ''accepted''"
| "admission_outcome_text AcceptedNewSource = ''accepted_new_source''"
| "admission_outcome_text AcceptedNewIncarnation = ''accepted_new_incarnation''"
| "admission_outcome_text AcceptedNewGeneration = ''accepted_new_generation''"
| "admission_outcome_text AcceptedLateButFresh = ''accepted_late_but_fresh''"
| "admission_outcome_text RejectedInvalid = ''rejected_invalid''"
| "admission_outcome_text RejectedLimit = ''rejected_limit''"
| "admission_outcome_text RejectedNotRunning = ''rejected_not_running''"
| "admission_outcome_text FencedStaleIncarnation = ''fenced_stale_incarnation''"
| "admission_outcome_text FencedStaleSequence = ''fenced_stale_sequence''"
| "admission_outcome_text FencedStaleGeneration = ''fenced_stale_generation''"
| "admission_outcome_text FencedAuthorityDowngrade = ''fenced_authority_downgrade''"

fun outcome_admitted :: "admission_outcome \<Rightarrow> bool" where
  "outcome_admitted Accepted = True"
| "outcome_admitted AcceptedNewSource = True"
| "outcome_admitted AcceptedNewIncarnation = True"
| "outcome_admitted AcceptedNewGeneration = True"
| "outcome_admitted AcceptedLateButFresh = True"
| "outcome_admitted _ = False"

fun fence_reason :: "admission_outcome \<Rightarrow> string" where
  "fence_reason FencedStaleIncarnation =
     ''the sample names an incarnation that this runtime has already superseded''"
| "fence_reason FencedStaleSequence =
     ''the sample sequence is not strictly newer than the last accepted sequence''"
| "fence_reason FencedStaleGeneration =
     ''the sample names a device generation older than the current one''"
| "fence_reason FencedAuthorityDowngrade =
     ''the source declared a lower authority than it previously established''"
| "fence_reason _ = []"

definition make_runtime_id :: "u64 \<Rightarrow> string" where
  "make_runtime_id seed = ''qobs-'' @ to_hex seed 16"

section \<open>The constructor\<close>

definition kMaxFailureDetails :: nat where "kMaxFailureDetails = 64"

definition kMaxRecentIncarnations :: nat where "kMaxRecentIncarnations = 4"

definition kEvaluationBuckets :: nat where "kEvaluationBuckets = 8"

definition kContentionBuckets :: nat where "kContentionBuckets = 8"

definition make_spec :: "string \<Rightarrow> nanos \<Rightarrow> nanos \<Rightarrow> u32 \<Rightarrow> nat \<Rightarrow> window_spec" where
  "make_spec name duration bucket min_covered max_buckets =
     \<lparr>ws_name = name, ws_duration = duration, ws_bucket = bucket,
      ws_min_covered_buckets = min_covered, ws_max_buckets = max_buckets\<rparr>"

definition bucket_for :: "nanos \<Rightarrow> nat \<Rightarrow> nanos" where
  "bucket_for duration buckets =
     (if buckets = 0 \<or> duration \<le> 0 then duration
      else let bucket = cdiv duration (int buckets) in if bucket \<le> 0 then duration else bucket)"

definition evaluation_spec_of :: "pressure_policy \<Rightarrow> window_spec" where
  "evaluation_spec_of p =
     make_spec ''evaluation'' (pol_evaluation_window p)
       (bucket_for (pol_evaluation_window p) kEvaluationBuckets) 1 kEvaluationBuckets"

definition microburst_spec_of :: "pressure_policy \<Rightarrow> window_spec" where
  "microburst_spec_of p =
     make_spec ''microburst'' (mb_window (pol_microburst p)) (mb_bucket (pol_microburst p))
       (mb_min_covered_buckets (pol_microburst p)) (mb_max_buckets (pol_microburst p))"

definition contention_spec_of :: "pressure_policy \<Rightarrow> window_spec" where
  "contention_spec_of p =
     make_spec ''contention'' (cn_window (pol_contention p))
       (bucket_for (cn_window (pol_contention p)) kContentionBuckets)
       (cn_min_covered_buckets (pol_contention p)) kContentionBuckets"

definition configuration_status :: "pressure_policy \<Rightarrow> history_limits \<Rightarrow> query_limits \<Rightarrow> status" where
  "configuration_status p h q =
     qobs_try (validate_history_limits h)
     (qobs_try (validate_query_limits q)
     (qobs_try (validate_policy p)
     (qobs_try (validate_window_spec (evaluation_spec_of p))
     (qobs_try (validate_window_spec (microburst_spec_of p))
     (validate_window_spec (contention_spec_of p))))))"

definition new_store ::
    "pressure_policy \<Rightarrow> history_limits \<Rightarrow> query_limits \<Rightarrow> nat \<Rightarrow> (nat \<Rightarrow> receive_time) \<Rightarrow> store" where
  "new_store p h q record_size clock =
     \<lparr>st_policy = p, st_history_limits = h, st_query_limits = q, st_record_size = record_size,
      st_clock = clock, st_ticks = 1, st_evaluation_spec = evaluation_spec_of p,
      st_microburst_spec = microburst_spec_of p, st_contention_spec = contention_spec_of p,
      st_config_status = configuration_status p h q, st_queues = [], st_sources = [],
      st_metadata = empty_metadata, st_has_metadata = False, st_recovered_mode = False,
      st_conflicts = [],
      st_events = \<lparr>el_storage = replicate (max_events_total h) empty_event, el_head = 0, el_size = 0\<rparr>,
      st_next_incarnation_ordinal = 1, st_history_bytes = 0, st_counters = zero_counters,
      st_session = \<lparr>se_runtime_id = make_runtime_id (u64_of_i64 (rt_wall (clock 0))),
        se_started = clock 0, se_policy_version = pol_version p, se_policy_name = pol_name p,
        se_persistence_format_version = 1, se_wire_format_version = 1,
        se_runtime_version = (1, 0, 0)\<rparr>\<rparr>"

section \<open>The clock and the event log\<close>

definition read_clock :: "store \<Rightarrow> receive_time \<times> store" where
  "read_clock st = (st_clock st (st_ticks st), st\<lparr>st_ticks := Suc (st_ticks st)\<rparr>)"

definition count ::
    "((u64 \<Rightarrow> u64) \<Rightarrow> store_counters \<Rightarrow> store_counters) \<Rightarrow> store \<Rightarrow> store" where
  "count field st = st\<lparr>st_counters := field (\<lambda>n. n + 1) (st_counters st)\<rparr>"

definition event_log_push :: "event_log \<Rightarrow> event_record \<Rightarrow> event_log" where
  "event_log_push l e =
     (if el_storage l = [] then l
      else if el_size l < length (el_storage l) then
        l\<lparr>el_storage := (el_storage l)[(el_head l + el_size l) mod length (el_storage l) := e],
          el_size := el_size l + 1\<rparr>
      else
        l\<lparr>el_storage := (el_storage l)[el_head l := e],
          el_head := (el_head l + 1) mod length (el_storage l)\<rparr>)"

definition event_log_amend :: "(event_record \<Rightarrow> event_record) \<Rightarrow> event_log \<Rightarrow> event_log" where
  "event_log_amend f l =
     (if el_size l = 0 then l
      else let index = (el_head l + el_size l - 1) mod length (el_storage l)
           in l\<lparr>el_storage := (el_storage l)[index := f (el_storage l ! index)]\<rparr>)"

definition record_event_global :: "event_kind \<Rightarrow> severity \<Rightarrow> string \<Rightarrow> store \<Rightarrow> store" where
  "record_event_global kind sev detail st =
     (if el_storage (st_events st) = [] then st
      else case read_clock st of (now, st1) \<Rightarrow>
        let e = empty_event\<lparr>ev_kind := kind, ev_severity := sev, ev_received := now,
                            ev_detail := detail\<rparr>;
            full = \<not> el_size (st_events st1) < length (el_storage (st_events st1));
            st2 = st1\<lparr>st_events := event_log_push (st_events st1) e\<rparr>;
            st3 = (if full then count c_events_evicted_update st2 else st2)
        in count c_events_recorded_update st3)"

definition event_identity :: "queue_sample option \<Rightarrow> queue_path \<Rightarrow> event_record \<Rightarrow> event_record" where
  "event_identity sample queue e =
     (let e1 = e\<lparr>ev_queue := queue\<rparr>
      in case sample of
           None \<Rightarrow> e1
         | Some s \<Rightarrow> e1\<lparr>ev_observed := qs_observed s, ev_source := qs_source s,
                        ev_incarnation := qs_incarnation s, ev_sequence := qs_sequence s,
                        ev_revision := qs_revision s\<rparr>)"

definition record_event ::
    "event_kind \<Rightarrow> severity \<Rightarrow> queue_sample option \<Rightarrow> queue_path \<Rightarrow> string \<Rightarrow> store \<Rightarrow> store" where
  "record_event kind sev sample queue detail st =
     (let st1 = record_event_global kind sev detail st
      in st1\<lparr>st_events := event_log_amend (event_identity sample queue) (st_events st1)\<rparr>)"

definition event_list :: "event_log \<Rightarrow> event_record list" where
  "event_list l =
     map (\<lambda>offset. el_storage l ! ((el_head l + offset) mod length (el_storage l))) [0..<el_size l]"

section \<open>Registering a queue\<close>

definition per_queue_bytes :: "store \<Rightarrow> u64" where
  "per_queue_bytes st =
     of_nat (max_samples_per_queue (st_history_limits st)) * of_nat (st_record_size st)"

definition acquire_queue :: "queue_path \<Rightarrow> store \<Rightarrow> bool \<times> queue_state \<times> store" where
  "acquire_queue queue st =
     (case om_find (st_queues st) queue of
        Some state \<Rightarrow> (False, state, st)
      | None \<Rightarrow>
          (let state = new_queue_state queue;
               (state', bytes) =
                 (case add_u64 (st_history_bytes st) (per_queue_bytes st) of
                    None \<Rightarrow> (state, st_history_bytes st)
                  | Some needed \<Rightarrow>
                      (state\<lparr>q_history :=
                         ring_reserve (max_samples_per_queue (st_history_limits st))\<rparr>, needed))
           in (True, state',
               st\<lparr>st_queues := om_put queue state' (st_queues st), st_history_bytes := bytes\<rparr>)))"

section \<open>Assessment\<close>

definition describe_missing :: "field_mask \<Rightarrow> string" where
  "describe_missing m =
     (let out = append_selected (has_field m) kFieldNames [] in if out = [] then ''none'' else out)"

definition assess_provenance :: "bool \<Rightarrow> bool \<Rightarrow> freshness \<Rightarrow> provenance \<times> freshness" where
  "assess_provenance recovered metadata_derived f =
     (if recovered
      then (P_RecoveredFromPersistence, if f = F_Fresh \<or> f = F_Unknown then F_Stale else f)
      else (if metadata_derived then P_DerivedFromMetadata else P_Observed, f))"

definition assess_flags :: "bool \<Rightarrow> bool \<Rightarrow> nanos \<Rightarrow> queue_sample \<Rightarrow> source_record \<Rightarrow> evidence_flags" where
  "assess_flags recovered metadata_derived age sample source =
     (let f1 = (if age < 0 then with_flag 0 OrderAnomaly else 0);
          f2 = (if \<not> observation_known (qs_observed sample) then with_flag f1 ClockDomainUnknown
                else if strong_name_valid (s_clock_domain source) \<and>
                        s_clock_domain source \<noteq> ot_domain (qs_observed sample)
                then with_flag f1 ClockDomainMismatch
                else f1);
          f3 = (if metadata_derived then with_flag f2 ClassResolvedFromMetadata else f2)
      in if recovered then with_flag f3 Recovered else f3)"

definition assess ::
    "queue_sample \<Rightarrow> source_record \<Rightarrow> bool \<Rightarrow> store \<Rightarrow> evidence_assessment \<times> store" where
  "assess sample source metadata_derived st =
     (case read_clock st of (now, st1) \<Rightarrow>
        let age = wrap_i64 (rt_steady now - rt_steady (qs_received sample));
            recovered = st_recovered_mode st;
            (prov, fresh) =
              assess_provenance recovered metadata_derived
                (assess_freshness age (pol_freshness (st_policy st)));
            missing = pol_required_fields (st_policy st) AND NOT (qs_reported sample);
            a = \<lparr>ea_freshness = fresh,
                 ea_quality = (if missing \<noteq> 0 then Q_Incomplete else Q_Complete),
                 ea_provenance = prov, ea_authority = s_authority source,
                 ea_flags = assess_flags recovered metadata_derived age sample source,
                 ea_age = (if age < 0 then 0 else age),
                 ea_reason = (if missing \<noteq> 0
                              then ''required fields were not reported: '' @ describe_missing missing
                              else [])\<rparr>
        in (if recovered
            then a\<lparr>ea_quality := Q_Incomplete, ea_reason :=
                   ''evidence was read back from persistence and cannot define the current state''\<rparr>
            else a, st1))"

section \<open>Sums over the evaluation window\<close>

record window_sums =
  su_drops :: counter_delta
  su_marks :: counter_delta
  su_pause_frames :: counter_delta
  su_pause_duration :: counter_delta
  su_enqueues :: counter_delta
  su_dequeues :: counter_delta
  su_any_unknown :: bool
  su_considered :: nat

definition zero_sums :: window_sums where
  "zero_sums =
     \<lparr>su_drops = empty_delta, su_marks = empty_delta, su_pause_frames = empty_delta,
      su_pause_duration = empty_delta, su_enqueues = empty_delta, su_dequeues = empty_delta,
      su_any_unknown = False, su_considered = 0\<rparr>"

definition accumulate_delta :: "counter_delta \<Rightarrow> counter_delta \<Rightarrow> counter_delta" where
  "accumulate_delta target v =
     (if \<not> cd_known v then target
      else let t = (if \<not> cd_known target
                    then \<lparr>cd_continuity = Continuous, cd_known = True, cd_delta = 0\<rparr> else target)
           in t\<lparr>cd_delta := (case add_u64 (cd_delta t) (cd_delta v) of None \<Rightarrow> u64_max | Some s \<Rightarrow> s)\<rparr>)"

definition accumulate_field ::
    "history_record \<Rightarrow> sample_field \<Rightarrow> (window_sums \<Rightarrow> counter_delta)
     \<Rightarrow> ((counter_delta \<Rightarrow> counter_delta) \<Rightarrow> window_sums \<Rightarrow> window_sums) \<Rightarrow> window_sums \<Rightarrow> window_sums" where
  "accumulate_field record f get upd sums =
     (let delta = history_delta record f
      in if \<not> has_field (hr_reported record) f then sums\<lparr>su_any_unknown := True\<rparr>
         else if \<not> cd_known delta then sums\<lparr>su_any_unknown := True\<rparr>
         else upd (\<lambda>_. accumulate_delta (get sums) delta) sums)"

definition accumulate_record :: "window_sums \<Rightarrow> history_record \<Rightarrow> window_sums" where
  "accumulate_record sums record =
     (let s1 = sums\<lparr>su_considered := su_considered sums + 1\<rparr>;
          s2 = (if \<not> history_establishes_current record then s1\<lparr>su_any_unknown := True\<rparr> else s1)
      in (accumulate_field record DequeuePackets su_dequeues su_dequeues_update \<circ>
          accumulate_field record EnqueuePackets su_enqueues su_enqueues_update \<circ>
          accumulate_field record PauseDurationNanos su_pause_duration su_pause_duration_update \<circ>
          accumulate_field record PauseFrames su_pause_frames su_pause_frames_update \<circ>
          accumulate_field record MarkPackets su_marks su_marks_update \<circ>
          accumulate_field record DropPackets su_drops su_drops_update) s2)"

definition window_sums_of :: "history_ring \<Rightarrow> nanos \<Rightarrow> window_sums" where
  "window_sums_of history cutoff =
     foldl accumulate_record zero_sums
       (takeWhile (\<lambda>r. \<not> rt_steady (hr_received r) < cutoff)
         (map (\<lambda>offset. ring_at history (ring_size history - 1 - offset)) [0..<ring_size history]))"

definition to_observation :: "history_record \<Rightarrow> window_observation" where
  "to_observation record =
     (let occupancy = (case history_value record OccupancyCells of
                         Some v \<Rightarrow> Some v | None \<Rightarrow> history_value record OccupancyBytes);
          drops = history_delta record DropPackets;
          marks = history_delta record MarkPackets;
          pause_frames = history_delta record PauseFrames;
          pause_duration = history_delta record PauseDurationNanos;
          enqueues = history_delta record EnqueuePackets;
          dequeues = history_delta record DequeuePackets
      in \<lparr>wo_steady = rt_steady (hr_received record), wo_has_occupancy = (occupancy \<noteq> None),
          wo_occupancy = value_or 0 occupancy, wo_drops = drops, wo_marks = marks,
          wo_pause_frames = pause_frames, wo_pause_duration = pause_duration,
          wo_enqueues = enqueues, wo_dequeues = dequeues,
          wo_establishes_current = history_establishes_current record,
          wo_any_delta_unknown =
            (\<not> cd_known drops \<or> \<not> cd_known marks \<or> \<not> cd_known pause_frames \<or>
             \<not> cd_known pause_duration \<or> \<not> cd_known enqueues \<or> \<not> cd_known dequeues)\<rparr>)"

section \<open>Conflicts\<close>

definition resolve_conflict_tolerance :: "store \<Rightarrow> u64 \<Rightarrow> u64 \<Rightarrow> u64" where
  "resolve_conflict_tolerance st a b =
     (let tolerance = cf_absolute_tolerance (pol_conflict (st_policy st))
      in case permille_of (max a b) (cf_relative_permille (pol_conflict (st_policy st))) of
           Inl _ \<Rightarrow> tolerance
         | Inr relative \<Rightarrow> if relative > tolerance then relative else tolerance)"

definition occupancy_field_of :: "queue_sample \<Rightarrow> sample_field" where
  "occupancy_field_of sample =
     (if sample_has sample OccupancyCells then OccupancyCells else OccupancyBytes)"

definition distance :: "u64 \<Rightarrow> u64 \<Rightarrow> u64" where
  "distance a b = (if a > b then a - b else b - a)"

definition peer_conflicts ::
    "store \<Rightarrow> queue_sample \<Rightarrow> source_record \<Rightarrow> u64 \<Rightarrow> peer_observation \<Rightarrow> bool" where
  "peer_conflicts st sample source occupancy peer =
     (let now = rt_steady (qs_received sample)
      in \<not> (po_source peer = qs_source sample \<or> \<not> po_has_occupancy peer) \<and>
         \<not> po_occupancy_field peer \<noteq> occupancy_field_of sample \<and>
         \<not> (wrap_i64 (now - po_received peer) > cf_window (pol_conflict (st_policy st)) \<or>
            po_received peer > now) \<and>
         \<not> po_authority peer \<noteq> s_authority source \<and>
         distance occupancy (po_occupancy peer) >
           resolve_conflict_tolerance st occupancy (po_occupancy peer))"

definition find_conflict ::
    "store \<Rightarrow> queue_sample \<Rightarrow> source_record \<Rightarrow> queue_state \<Rightarrow> (peer_observation \<times> u64) option" where
  "find_conflict st sample source state =
     (case occupancy_for_pressure sample of
        None \<Rightarrow> None
      | Some occupancy \<Rightarrow>
          map_option (\<lambda>peer. (peer, occupancy))
            (find (peer_conflicts st sample source occupancy) (q_peers state)))"

fun deactivate_last :: "queue_path \<Rightarrow> conflict_record list \<Rightarrow> conflict_record list" where
  "deactivate_last queue [] = []"
| "deactivate_last queue (c # cs) =
     (if \<exists>x \<in> set cs. co_queue x = queue \<and> co_active x then c # deactivate_last queue cs
      else if co_queue c = queue \<and> co_active c then c\<lparr>co_active := False\<rparr> # cs
      else c # cs)"

definition detect_conflict ::
    "queue_sample \<Rightarrow> source_record \<Rightarrow> queue_state \<Rightarrow> admission_result \<Rightarrow> store
     \<Rightarrow> queue_state \<times> admission_result \<times> store" where
  "detect_conflict sample source state result st =
     (if \<not> cf_enabled (pol_conflict (st_policy st)) then (state, result, st)
      else case find_conflict st sample source state of
        Some (peer, occupancy) \<Rightarrow>
          if \<not> q_conflict_active state then
            (let difference = distance occupancy (po_occupancy peer);
                 tolerance = resolve_conflict_tolerance st occupancy (po_occupancy peer);
                 record = \<lparr>co_queue = q_queue state, co_detected = qs_received sample,
                           co_source_a = qs_source sample, co_source_b = po_source peer,
                           co_value_a = occupancy, co_value_b = po_occupancy peer,
                           co_difference = difference, co_tolerance = tolerance,
                           co_active = True\<rparr>;
                 kept = (if length (st_conflicts st) \<ge> max_conflicts (st_history_limits st)
                         then tl (st_conflicts st) else st_conflicts st)
             in (state\<lparr>q_conflict_active := True, q_conflict_since := qs_received sample,
                       q_conflicts := q_conflicts state + 1\<rparr>,
                 result\<lparr>ar_conflict_detected := True\<rparr>,
                 record_event ConflictDetected Sev_Warning (Some sample) (q_queue state)
                   (''sources '' @ qs_source sample @ '' and '' @ po_source peer @ '' disagree by ''
                    @ dec_u64 difference @ '' (tolerance '' @ dec_u64 tolerance @ '')'')
                   ((count c_conflicts_detected_update st)\<lparr>st_conflicts := kept @ [record]\<rparr>)))
          else (state, result\<lparr>ar_conflict_detected := True\<rparr>, st)
      | None \<Rightarrow>
          if q_conflict_active state then
            (state\<lparr>q_conflict_active := False\<rparr>, result,
             record_event ConflictCleared Sev_Notice (Some sample) (q_queue state)
               ''peer sources agree again within tolerance''
               ((count c_conflicts_cleared_update st)
                  \<lparr>st_conflicts := deactivate_last (q_queue state) (st_conflicts st)\<rparr>))
          else (state, result, st))"

end
