(* ===== verification/Store_Ingest.thy ===== *)
theory Store_Ingest
  imports Store_State
begin

text \<open>
  Admission (\<^verbatim>\<open>QueueStore::ingest_locked\<close> and the operations around it in
  \<^verbatim>\<open>src/store/Store.cpp\<close>). The handler is one definition per section of the source, each
  with its early returns: a stage either returns the final answer (\<open>Inl\<close>) or hands its
  results to the next stage (\<open>Inr\<close>). The references \<^verbatim>\<open>source\<close> and \<^verbatim>\<open>state\<close> of the
  source are values here; they are written back to their maps before the handler leaves.
\<close>

section \<open>Leaving the handler\<close>

type_synonym admission = "status \<times> admission_result \<times> store"

definition reject_sample ::
    "queue_sample \<Rightarrow> admission_outcome \<Rightarrow> error_code \<Rightarrow> string \<Rightarrow> admission_result \<Rightarrow> store \<Rightarrow> admission" where
  "reject_sample sample outcome code reason result st =
     (failure code reason,
      result\<lparr>ar_outcome := outcome, ar_accepted := False, ar_reason := reason\<rparr>,
      record_event SampleRejected Sev_Warning (Some sample) (qs_queue sample) reason
        (count c_samples_rejected_update st))"

definition fence_sample ::
    "queue_sample \<Rightarrow> admission_outcome \<Rightarrow> admission_result \<Rightarrow> store \<Rightarrow> admission" where
  "fence_sample sample outcome result st =
     (let reason = fence_reason outcome;
          st1 = count c_samples_fenced_update st;
          st2 = (case om_find (st_sources st1) (qs_source sample) of
                   None \<Rightarrow> st1
                 | Some source \<Rightarrow>
                     st1\<lparr>st_sources :=
                       om_put (qs_source sample) (source\<lparr>s_fenced := s_fenced source + 1\<rparr>)
                         (st_sources st1)\<rparr>);
          kind = (if outcome = FencedStaleSequence then DuplicateReplay else SampleFenced)
      in (success,
          result\<lparr>ar_outcome := outcome, ar_accepted := False, ar_reason := reason\<rparr>,
          record_event kind Sev_Warning (Some sample) (qs_queue sample) reason st2))"

section \<open>Presentation and validation\<close>

definition present_sample :: "queue_sample \<Rightarrow> store \<Rightarrow> queue_sample \<times> store" where
  "present_sample sample st =
     (let st1 = count c_samples_presented_update st
      in if rt_steady (qs_received sample) = 0 \<and> rt_wall (qs_received sample) = 0
         then case read_clock st1 of (now, st2) \<Rightarrow> (sample\<lparr>qs_received := now\<rparr>, st2)
         else (sample, st1))"

definition validate_sample ::
    "queue_sample \<Rightarrow> admission_result \<Rightarrow> store \<Rightarrow> admission option" where
  "validate_sample sample result st =
     (let undeclared = qs_reported sample AND NOT (qs_declared sample)
      in if \<not> queue_path_valid (qs_queue sample) \<or> \<not> strong_name_valid (qs_source sample) \<or>
            \<not> strong_name_valid (qs_incarnation sample) \<or> \<not> strong_id_valid (qs_generation sample) \<or>
            \<not> strong_id_valid (qs_sequence sample)
         then Some (reject_sample sample RejectedInvalid InvalidArgument
                ''sample identity is incomplete: queue, source, incarnation, generation and sequence are all required''
                result st)
         else if qs_reported sample = 0
         then Some (reject_sample sample RejectedInvalid InvalidArgument
                ''sample reports no measurement fields'' result st)
         else if qs_declared sample \<noteq> 0 \<and> undeclared \<noteq> 0
         then Some (reject_sample sample RejectedInvalid InvalidArgument
                (''sample reports fields it did not declare: '' @ describe_missing undeclared)
                result st)
         else None)"

section \<open>The source registry and its fences\<close>

definition put_source :: "queue_sample \<Rightarrow> source_record \<Rightarrow> store \<Rightarrow> store" where
  "put_source sample source st =
     st\<lparr>st_sources := om_put (qs_source sample) source (st_sources st)\<rparr>"

definition register_source :: "queue_sample \<Rightarrow> store \<Rightarrow> source_record \<times> store" where
  "register_source sample st =
     (let ordinal = st_next_incarnation_ordinal st;
          source = \<lparr>s_id = qs_source sample, s_authority = qs_authority sample,
                    s_declared_authority = qs_authority sample,
                    s_incarnation = qs_incarnation sample, s_incarnation_ordinal = ordinal,
                    s_last_sequence = 0, s_generation = qs_generation sample,
                    s_clock_domain = ot_domain (qs_observed sample),
                    s_first_seen = qs_received sample, s_last_seen = qs_received sample,
                    s_accepted = 0, s_fenced = 0, s_duplicates = 0, s_rejected = 0,
                    s_last_observed = u64_of_i64 (ot_ns (qs_observed sample)),
                    s_recent_incarnations = [(qs_incarnation sample, ordinal)]\<rparr>;
          st1 = count c_sources_registered_update
                  (put_source sample source (st\<lparr>st_next_incarnation_ordinal := ordinal + 1\<rparr>))
      in (source,
          record_event SourceRegistered Sev_Notice (Some sample) (qs_queue sample)
            (''registered source with authority '' @ authority_text (qs_authority sample)) st1))"

definition switch_incarnation ::
    "queue_sample \<Rightarrow> source_record \<Rightarrow> store \<Rightarrow> admission_outcome \<times> source_record \<times> store" where
  "switch_incarnation sample source st =
     (let ordinal = st_next_incarnation_ordinal st;
          source' = source\<lparr>s_incarnation := qs_incarnation sample, s_incarnation_ordinal := ordinal,
                      s_last_sequence := 0,
                      s_recent_incarnations := take kMaxRecentIncarnations
                        ((qs_incarnation sample, ordinal) # s_recent_incarnations source)\<rparr>;
          st1 = put_source sample source' (st\<lparr>st_next_incarnation_ordinal := ordinal + 1\<rparr>)
      in (AcceptedNewIncarnation, source',
          record_event SourceIncarnationChanged Sev_Notice (Some sample) (qs_queue sample)
            ''source presented a new incarnation token; its sequence space was reset'' st1))"

definition fence_incarnation ::
    "queue_sample \<Rightarrow> admission_result \<Rightarrow> admission_outcome \<times> source_record \<times> store
     \<Rightarrow> admission + admission_outcome \<times> source_record \<times> store" where
  "fence_incarnation sample result acc = (case acc of (outcome, source, st) \<Rightarrow>
     if s_incarnation source \<noteq> qs_incarnation sample then
       (case map_of (s_recent_incarnations source) (qs_incarnation sample) of
          Some known \<Rightarrow>
            if known < s_incarnation_ordinal source \<or> known = s_incarnation_ordinal source
            then Inl (fence_sample sample FencedStaleIncarnation result st)
            else Inr (switch_incarnation sample source st)
        | None \<Rightarrow> Inr (switch_incarnation sample source st))
     else Inr (outcome, source, st))"

definition fence_generation ::
    "queue_sample \<Rightarrow> admission_result \<Rightarrow> admission_outcome \<times> source_record \<times> store
     \<Rightarrow> admission + admission_outcome \<times> source_record \<times> store" where
  "fence_generation sample result acc = (case acc of (outcome, source, st) \<Rightarrow>
     if qs_generation sample < s_generation source
     then Inl (fence_sample sample FencedStaleGeneration result st)
     else if qs_generation sample > s_generation source
     then (let source' = source\<lparr>s_generation := qs_generation sample\<rparr>
           in Inr (if outcome = Accepted then AcceptedNewGeneration else outcome, source',
                   record_event SampleAccepted Sev_Notice (Some sample) (qs_queue sample)
                     (''source advanced to generation '' @ strong_id_to_string (qs_generation sample))
                     (put_source sample source' st)))
     else Inr (outcome, source, st))"

definition fence_authority ::
    "queue_sample \<Rightarrow> admission_result \<Rightarrow> admission_outcome \<times> source_record \<times> store
     \<Rightarrow> admission + admission_outcome \<times> source_record \<times> store" where
  "fence_authority sample result acc = (case acc of (outcome, source, st) \<Rightarrow>
     if qs_authority sample < s_authority source
     then Inl (fence_sample sample FencedAuthorityDowngrade result st)
     else if qs_authority sample > s_authority source
     then (let source' = source\<lparr>s_authority := qs_authority sample,
                               s_declared_authority := qs_authority sample\<rparr>
           in Inr (outcome, source',
                   record_event SourceAuthorityChanged Sev_Notice (Some sample) (qs_queue sample)
                     (''source raised its authority to '' @ authority_text (qs_authority sample))
                     (put_source sample source' st)))
     else Inr (outcome, source, st))"

definition fence_sequence ::
    "queue_sample \<Rightarrow> admission_result \<Rightarrow> admission_outcome \<times> source_record \<times> store
     \<Rightarrow> admission + admission_outcome \<times> source_record \<times> store" where
  "fence_sequence sample result acc = (case acc of (outcome, source, st) \<Rightarrow>
     if qs_sequence sample \<le> s_last_sequence source
     then Inl (fence_sample sample FencedStaleSequence result
            (count c_duplicates_suppressed_update
              (put_source sample (source\<lparr>s_duplicates := s_duplicates source + 1\<rparr>) st)))
     else Inr (outcome, source, st))"

definition and_then :: "'a + 'b \<Rightarrow> ('b \<Rightarrow> 'a + 'c) \<Rightarrow> 'a + 'c" where
  "and_then r k = (case r of Inl e \<Rightarrow> Inl e | Inr v \<Rightarrow> k v)"

definition admit_source ::
    "queue_sample \<Rightarrow> admission_result \<Rightarrow> store
     \<Rightarrow> admission + admission_outcome \<times> source_record \<times> store" where
  "admit_source sample result st =
     (case om_find (st_sources st) (qs_source sample) of
        None \<Rightarrow>
          if om_size (st_sources st) \<ge> max_sources (st_history_limits st)
          then Inl (reject_sample sample RejectedLimit LimitExceeded
                 ''the source registry is full; no further sources may be registered'' result st)
          else (case register_source sample st of (source, st1) \<Rightarrow> Inr (AcceptedNewSource, source, st1))
      | Some source \<Rightarrow>
          and_then (fence_incarnation sample result (Accepted, source, st))
         (\<lambda>a. and_then (fence_generation sample result a)
         (\<lambda>b. and_then (fence_authority sample result b)
              (fence_sequence sample result))))"

definition touch_source :: "queue_sample \<Rightarrow> source_record \<Rightarrow> store \<Rightarrow> source_record \<times> store" where
  "touch_source sample source st =
     (let s1 = source\<lparr>s_last_sequence := qs_sequence sample, s_last_seen := qs_received sample,
                      s_last_observed := u64_of_i64 (ot_ns (qs_observed sample))\<rparr>;
          s2 = (if observation_known (qs_observed sample)
                then s1\<lparr>s_clock_domain := ot_domain (qs_observed sample)\<rparr> else s1)
      in (s2, put_source sample s2 st))"

section \<open>Queue bookkeeping\<close>

definition admit_queue ::
    "queue_sample \<Rightarrow> admission_result \<Rightarrow> store \<Rightarrow> admission + bool \<times> queue_state \<times> store" where
  "admit_queue sample result st =
     (let absent = (om_find (st_queues st) (qs_queue sample) = None);
          needed = add_u64 (st_history_bytes st) (per_queue_bytes st)
      in if om_size (st_queues st) \<ge> max_queues (st_history_limits st) \<and> absent
         then Inl (reject_sample sample RejectedLimit LimitExceeded
                ''the queue registry is full; no further queues may be tracked'' result st)
         else if absent \<and> (case needed of None \<Rightarrow> True
                           | Some n \<Rightarrow> n > max_history_bytes (st_history_limits st))
         then Inl (reject_sample sample RejectedLimit LimitExceeded
                ''the history byte budget is exhausted; no further queue history may be allocated''
                result st)
         else case acquire_queue (qs_queue sample) st of (created, state, st1) \<Rightarrow>
           Inr (if created
                then (True,
                      state\<lparr>q_latest := (q_latest state)\<lparr>cr_state := PS_Unknown,
                              cr_queue_text := queue_path_to_string (qs_queue sample)\<rparr>\<rparr>,
                      record_event QueueLimitReached Sev_Debug (Some sample) (qs_queue sample)
                        ''queue state created'' st1)
                else (False, state, st1)))"

definition resolve_classes ::
    "queue_sample \<Rightarrow> queue_state \<Rightarrow> store \<Rightarrow> bool \<times> queue_state \<times> store" where
  "resolve_classes sample state st =
     (let resolution = resolve_class_attributes (st_metadata st) (qs_queue sample) (qs_classes sample);
          derived = (st_has_metadata st \<and> mr_used_metadata resolution);
          s1 = (if derived
                then state\<lparr>q_classes := mr_attributes resolution, q_classes_known := True\<rparr>
                else if ca_traffic_class (qs_classes sample) \<noteq> None \<or>
                        ca_scheduling_class (qs_classes sample) \<noteq> None
                then state\<lparr>q_classes := qs_classes sample, q_classes_known := True\<rparr>
                else state)
      in if st_has_metadata st \<and> mr_referenced_unknown_class resolution \<and>
            \<not> q_class_reference_unsupported s1
         then (derived, s1\<lparr>q_class_reference_unsupported := True\<rparr>,
               record_event SampleAccepted Sev_Notice (Some sample) (qs_queue sample)
                 ''the sample names a class that the current metadata table does not describe'' st)
         else (derived, s1, st))"

section \<open>Counter continuity\<close>

definition counters_reported :: "queue_sample \<Rightarrow> field_mask" where
  "counters_reported sample =
     foldl (\<lambda>m f. if is_counter_field f \<and> sample_has sample f then m OR field_bit f else m) 0
       (map fst kFieldNames)"

definition count_continuity ::
    "counter_update \<Rightarrow> queue_sample \<Rightarrow> sample_field \<Rightarrow> store \<Rightarrow> store" where
  "count_continuity update sample f st =
     (let detail = sample_field_text f @ '': '' @ cu_reason update;
          note = (\<lambda>kind field.
            record_event kind Sev_Warning (Some sample) (qs_queue sample) detail (count field st))
      in case cu_continuity update of
           Wrapped \<Rightarrow> note CounterWrap c_counter_wraps_update
         | Reset \<Rightarrow> note CounterReset c_counter_resets_update
         | AmbiguousWrap \<Rightarrow> note CounterAmbiguous c_counter_ambiguous_update
         | Discontinuous \<Rightarrow> note CounterDiscontinuous c_counter_discontinuous_update
         | _ \<Rightarrow> st)"

type_synonym deltas = "sample_field \<Rightarrow> counter_delta"

text \<open>One turn of the loop over the fields. The local flag \<^verbatim>\<open>any_unknown_delta\<close> is not read
  afterwards and is left out.\<close>

definition step_counter ::
    "queue_sample \<Rightarrow> deltas \<times> queue_state \<times> store \<Rightarrow> sample_field \<Rightarrow> deltas \<times> queue_state \<times> store" where
  "step_counter sample acc f = (case acc of (deltas, state, st) \<Rightarrow>
     if \<not> is_counter_field f \<or> \<not> has_field (q_counters_seen state) f then (deltas, state, st)
     else if \<not> sample_has sample f then (deltas, state, st)
     else case update_counter (q_counters state f) (raw_value_or_zero sample f) (qs_observed sample)
                 (qs_received sample) (pol_continuity (st_policy st)) of (update, counter) \<Rightarrow>
       (deltas(f := \<lparr>cd_continuity = cu_continuity update, cd_known = cu_delta_known update,
                     cd_delta = cu_delta update\<rparr>),
        state\<lparr>q_counters := (q_counters state)(f := counter)\<rparr>,
        count_continuity update sample f st))"

definition update_counters ::
    "queue_sample \<Rightarrow> queue_state \<Rightarrow> store \<Rightarrow> deltas \<times> queue_state \<times> store" where
  "update_counters sample state st =
     foldl (step_counter sample)
       (\<lambda>_. empty_delta,
        state\<lparr>q_counters_seen := q_counters_seen state OR counters_reported sample\<rparr>, st)
       (map fst kFieldNames)"

section \<open>Classification, history and peers\<close>

definition sample_sums :: "queue_sample \<Rightarrow> deltas \<Rightarrow> queue_state \<Rightarrow> store \<Rightarrow> window_sums" where
  "sample_sums sample deltas state st =
     (let sums = window_sums_of (q_history state)
            (wrap_i64 (rt_steady (qs_received sample) - pol_evaluation_window (st_policy st)))
      in sums\<lparr>su_drops := accumulate_delta (su_drops sums) (deltas DropPackets),
              su_marks := accumulate_delta (su_marks sums) (deltas MarkPackets),
              su_pause_frames := accumulate_delta (su_pause_frames sums) (deltas PauseFrames),
              su_pause_duration :=
                accumulate_delta (su_pause_duration sums) (deltas PauseDurationNanos),
              su_enqueues := accumulate_delta (su_enqueues sums) (deltas EnqueuePackets),
              su_dequeues := accumulate_delta (su_dequeues sums) (deltas DequeuePackets)\<rparr>)"

definition sample_input ::
    "queue_sample \<Rightarrow> evidence_assessment \<Rightarrow> window_sums \<Rightarrow> bool \<Rightarrow> classification_input" where
  "sample_input sample assessment sums conflict_active =
     (make_classification_input sample)
       \<lparr>ci_assessment := assessment, ci_peer_conflict := conflict_active,
        ci_drops := su_drops sums, ci_marks := su_marks sums,
        ci_pause_frames := su_pause_frames sums, ci_pause_duration := su_pause_duration sums,
        ci_enqueues := su_enqueues sums, ci_dequeues := su_dequeues sums\<rparr>"

definition classify_sample ::
    "queue_sample \<Rightarrow> evidence_assessment \<Rightarrow> deltas \<Rightarrow> queue_state \<Rightarrow> admission_result \<Rightarrow> store
     \<Rightarrow> classification_result \<times> queue_state \<times> admission_result \<times> store" where
  "classify_sample sample assessment deltas state result st =
     (let input = sample_input sample assessment (sample_sums sample deltas state st)
                    (q_conflict_active state);
          classification = classify (st_policy st) input;
          previous = cr_state (q_latest state);
          changed = (ring_size (q_history state) \<noteq> 0 \<and> previous \<noteq> cr_state classification);
          st1 = (if changed
                 then record_event StateTransition Sev_Notice (Some sample) (qs_queue sample)
                        (pressure_state_text previous @ '' -> ''
                         @ pressure_state_text (cr_state classification) @ '' by ''
                         @ rule_name (cr_deciding_rule classification))
                        (count c_state_transitions_update st)
                 else st)
      in (classification, state\<lparr>q_latest := classification, q_last_input := input\<rparr>,
          result\<lparr>ar_previous_state := previous, ar_state_changed := changed\<rparr>, st1))"

definition history_record_of ::
    "queue_sample \<Rightarrow> source_record \<Rightarrow> evidence_assessment \<Rightarrow> deltas \<Rightarrow> classification_result
     \<Rightarrow> history_record" where
  "history_record_of sample source assessment deltas classification =
     \<lparr>hr_received = qs_received sample, hr_observed = qs_observed sample,
      hr_source = qs_source sample, hr_generation = qs_generation sample,
      hr_incarnation_ordinal = s_incarnation_ordinal source, hr_sequence = qs_sequence sample,
      hr_authority = s_authority source, hr_reported = qs_reported sample,
      hr_freshness = ea_freshness assessment, hr_quality = ea_quality assessment,
      hr_flags = ea_flags assessment, hr_age = ea_age assessment,
      hr_values = raw_value_or_zero sample, hr_deltas = deltas,
      hr_state = cr_state classification,
      hr_state_digest = cr_explanation_digest classification\<rparr>"

definition push_history ::
    "queue_sample \<Rightarrow> history_record \<Rightarrow> queue_state \<Rightarrow> store \<Rightarrow> queue_state \<times> store" where
  "push_history sample record state st =
     (let before = ring_evicted (q_history state);
          history = ring_push (q_history state) record;
          newly = ring_evicted history - before;
          st1 = count c_history_records_pushed_update st;
          st2 = (if ring_evicted history > before
                 then record_event HistoryEvicted Sev_Debug (Some sample) (qs_queue sample)
                        (''evicted '' @ dec_u64 newly
                         @ '' history records to stay inside the ring capacity'')
                        (st1\<lparr>st_counters := (st_counters st1)
                           \<lparr>c_history_records_evicted :=
                              c_history_records_evicted (st_counters st1) + newly\<rparr>\<rparr>)
                 else st1)
      in (state\<lparr>q_history := history, q_last_received := qs_received sample,
                q_last_observed := qs_observed sample, q_accepted := q_accepted state + 1\<rparr>, st2))"

definition peer_of :: "queue_sample \<Rightarrow> source_record \<Rightarrow> peer_observation" where
  "peer_of sample source =
     (let occupancy = occupancy_for_pressure sample
      in \<lparr>po_source = qs_source sample, po_authority = s_authority source,
          po_occupancy = value_or 0 occupancy, po_has_occupancy = (occupancy \<noteq> None),
          po_reported = qs_reported sample,
          po_occupancy_field = (if occupancy \<noteq> None then occupancy_field_of sample else Count),
          po_received = rt_steady (qs_received sample), po_observed = qs_observed sample\<rparr>)"

fun replace_peer :: "peer_observation \<Rightarrow> peer_observation list \<Rightarrow> peer_observation list" where
  "replace_peer peer [] = []"
| "replace_peer peer (p # ps) =
     (if po_source p = po_source peer then peer # ps else p # replace_peer peer ps)"

definition update_peers :: "nat \<Rightarrow> peer_observation \<Rightarrow> peer_observation list \<Rightarrow> peer_observation list" where
  "update_peers limit peer peers =
     (if \<exists>p \<in> set peers. po_source p = po_source peer then replace_peer peer peers
      else (if length peers \<ge> limit then tl peers else peers) @ [peer])"

section \<open>The handler\<close>

text \<open>Everything after the source has been admitted and its queue acquired.\<close>

definition ingest_tail ::
    "queue_sample \<Rightarrow> admission_outcome \<Rightarrow> source_record \<Rightarrow> queue_state \<Rightarrow> admission_result \<Rightarrow> store
     \<Rightarrow> admission" where
  "ingest_tail sample outcome source state0 result0 st0 =
     (case resolve_classes sample state0 st0 of (derived, state1, st1) \<Rightarrow>
      case assess sample source derived st1 of (assessment, st2) \<Rightarrow>
      case update_counters sample state1 st2 of (deltas, state2, st3) \<Rightarrow>
      case detect_conflict sample source state2 result0 st3 of (state3, result1, st4) \<Rightarrow>
      case classify_sample sample assessment deltas state3 result1 st4 of
        (classification, state4, result2, st5) \<Rightarrow>
      case push_history sample
             (history_record_of sample source assessment deltas classification) state4 st5 of
        (state5, st6) \<Rightarrow>
      let state6 = state5\<lparr>q_peers := update_peers (max_sources (st_history_limits st6))
                            (peer_of sample source) (q_peers state5)\<rparr>;
          st7 = put_source sample (source\<lparr>s_accepted := s_accepted source + 1\<rparr>)
                  (st6\<lparr>st_queues := om_put (qs_queue sample) state6 (st_queues st6)\<rparr>)
      in (success,
          result2\<lparr>ar_outcome := outcome, ar_accepted := True, ar_classification := classification\<rparr>,
          count c_samples_accepted_update st7))"

definition ingest_locked :: "queue_sample \<Rightarrow> admission_result \<Rightarrow> store \<Rightarrow> admission" where
  "ingest_locked sample0 result0 st0 =
     (let result = result0\<lparr>ar_queue := qs_queue sample0\<rparr>
      in case present_sample sample0 st0 of (sample, st1) \<Rightarrow>
         case validate_sample sample result st1 of
           Some answer \<Rightarrow> answer
         | None \<Rightarrow>
             (case admit_source sample result st1 of
                Inl answer \<Rightarrow> answer
              | Inr (outcome, source, st2) \<Rightarrow>
                  (case touch_source sample source st2 of (source', st3) \<Rightarrow>
                   case admit_queue sample result st3 of
                     Inl answer \<Rightarrow> answer
                   | Inr (created, state, st4) \<Rightarrow>
                       ingest_tail sample outcome source' state
                         (result\<lparr>ar_queue_created := created\<rparr>) st4)))"

definition ingest :: "queue_sample \<Rightarrow> admission_result \<Rightarrow> store \<Rightarrow> admission" where
  "ingest sample result st =
     (if \<not> status_ok (st_config_status st) then (st_config_status st, result, st)
      else ingest_locked sample result st)"

section \<open>Batches\<close>

definition note_failure ::
    "nat \<Rightarrow> status \<Rightarrow> admission_result \<Rightarrow> batch_admission \<Rightarrow> batch_admission" where
  "note_failure index status r b =
     (if length (ba_failures b) < kMaxFailureDetails
      then b\<lparr>ba_failures := ba_failures b @
               [\<lparr>af_index = index, af_outcome = ar_outcome r, af_queue = ar_queue r,
                 af_reason = (if ar_reason r = [] then st_message status else ar_reason r)\<rparr>]\<rparr>
      else b\<lparr>ba_failures_truncated := True\<rparr>)"

definition tally_batch ::
    "nat \<Rightarrow> status \<Rightarrow> admission_result \<Rightarrow> batch_admission \<Rightarrow> batch_admission" where
  "tally_batch index status r b0 =
     (let b = b0\<lparr>ba_presented := ba_presented b0 + 1\<rparr>
      in if \<not> status_ok status
         then note_failure index status r (b\<lparr>ba_rejected := ba_rejected b + 1\<rparr>)
         else
           (let b1 = (if outcome_admitted (ar_outcome r) then b\<lparr>ba_accepted := ba_accepted b + 1\<rparr>
                      else if ar_outcome r = FencedStaleSequence
                      then b\<lparr>ba_duplicates := ba_duplicates b + 1, ba_fenced := ba_fenced b + 1\<rparr>
                      else b\<lparr>ba_fenced := ba_fenced b + 1\<rparr>);
                b2 = (if ar_conflict_detected r then b1\<lparr>ba_conflicts := ba_conflicts b1 + 1\<rparr> else b1);
                b3 = (if ar_state_changed r then b2\<lparr>ba_state_changes := ba_state_changes b2 + 1\<rparr>
                      else b2)
            in if ar_queue_created r then b3\<lparr>ba_queues_created := ba_queues_created b3 + 1\<rparr> else b3))"

text \<open>The poll of the stop token before each sample is an input, indexed by the position.\<close>

fun ingest_loop ::
    "(nat \<Rightarrow> bool) \<Rightarrow> nat \<Rightarrow> nat \<Rightarrow> queue_sample list \<Rightarrow> batch_admission \<Rightarrow> store
     \<Rightarrow> status \<times> batch_admission \<times> store" where
  "ingest_loop stop_requested tot index [] b st = (success, b, st)"
| "ingest_loop stop_requested tot index (s # ss) b st =
     (if stop_requested index
      then (failure Cancelled (''batch ingest was cancelled after '' @ dec_nat index @ '' of ''
              @ dec_nat tot @ '' samples''), b, st)
      else case ingest_locked s empty_admission st of (status, r, st') \<Rightarrow>
        ingest_loop stop_requested tot (Suc index) ss (tally_batch index status r b) st')"

definition ingest_batch ::
    "queue_sample list \<Rightarrow> (nat \<Rightarrow> bool) \<Rightarrow> store \<Rightarrow> status \<times> batch_admission \<times> store" where
  "ingest_batch samples stop_requested st =
     (if \<not> status_ok (st_config_status st) then (st_config_status st, empty_batch, st)
      else ingest_loop stop_requested (length samples) 0 samples empty_batch st)"

definition tally_recovered ::
    "nat \<Rightarrow> status \<Rightarrow> admission_result \<Rightarrow> batch_admission \<Rightarrow> batch_admission" where
  "tally_recovered index status r b0 =
     (let b = b0\<lparr>ba_presented := ba_presented b0 + 1\<rparr>;
          b1 = (if \<not> status_ok status
                then note_failure index status r (b\<lparr>ba_rejected := ba_rejected b + 1\<rparr>)
                else if outcome_admitted (ar_outcome r) then b\<lparr>ba_accepted := ba_accepted b + 1\<rparr>
                else if ar_outcome r = FencedStaleSequence
                then b\<lparr>ba_fenced := ba_fenced b + 1, ba_duplicates := ba_duplicates b + 1\<rparr>
                else b\<lparr>ba_fenced := ba_fenced b + 1\<rparr>);
          b2 = (if ar_conflict_detected r then b1\<lparr>ba_conflicts := ba_conflicts b1 + 1\<rparr> else b1)
      in if ar_queue_created r then b2\<lparr>ba_queues_created := ba_queues_created b2 + 1\<rparr> else b2)"

fun recover_loop ::
    "nat \<Rightarrow> queue_sample list \<Rightarrow> batch_admission \<Rightarrow> store \<Rightarrow> batch_admission \<times> store" where
  "recover_loop index [] b st = (b, st)"
| "recover_loop index (s # ss) b st =
     (case ingest_locked s empty_admission st of (status, r, st') \<Rightarrow>
        recover_loop (Suc index) ss (tally_recovered index status r b) st')"

definition admit_recovered ::
    "queue_sample list \<Rightarrow> store \<Rightarrow> status \<times> batch_admission \<times> store" where
  "admit_recovered samples st =
     (if \<not> status_ok (st_config_status st) then (st_config_status st, empty_batch, st)
      else case recover_loop 0 samples empty_batch (st\<lparr>st_recovered_mode := True\<rparr>) of (b, st') \<Rightarrow>
        (success, b, st'\<lparr>st_recovered_mode := False\<rparr>))"

section \<open>Imported events and metadata\<close>

definition imported_event :: "event_record \<Rightarrow> event_record \<Rightarrow> event_record" where
  "imported_event e stored =
     stored\<lparr>ev_received := ev_received e, ev_observed := ev_observed e, ev_queue := ev_queue e,
            ev_source := ev_source e, ev_incarnation := ev_incarnation e,
            ev_sequence := ev_sequence e, ev_revision := ev_revision e\<rparr>"

fun import_loop :: "event_record list \<Rightarrow> nat \<Rightarrow> store \<Rightarrow> nat \<times> store" where
  "import_loop [] imported st = (imported, st)"
| "import_loop (e # es) imported st =
     (if el_size (st_events st) \<ge> max_events_total (st_history_limits st) then (imported, st)
      else let st1 = record_event_global (ev_kind e) (ev_severity e) (ev_detail e) st
           in if el_size (st_events st1) = 0 then (imported, st1)
              else import_loop es (Suc imported)
                     (st1\<lparr>st_events := event_log_amend (imported_event e) (st_events st1)\<rparr>))"

definition import_events :: "event_record list \<Rightarrow> store \<Rightarrow> status \<times> nat \<times> store" where
  "import_events es st =
     (if \<not> status_ok (st_config_status st) then (st_config_status st, 0, st)
      else case import_loop es 0 st of (imported, st') \<Rightarrow> (success, imported, st'))"

definition empty_metadata_admission :: metadata_admission where
  "empty_metadata_admission =
     \<lparr>ma_accepted = False, ma_fenced = False, ma_reason = [], ma_previous_revision = 0\<rparr>"

definition metadata_newer :: "class_metadata_table \<Rightarrow> class_metadata_table \<Rightarrow> bool" where
  "metadata_newer t current \<longleftrightarrow>
     mt_generation t > mt_generation current \<or>
     (mt_generation t = mt_generation current \<and> mt_revision t > mt_revision current)"

definition apply_metadata ::
    "class_metadata_table \<Rightarrow> store \<Rightarrow> status \<times> metadata_admission \<times> store" where
  "apply_metadata t st =
     (if \<not> status_ok (st_config_status st) then (st_config_status st, empty_metadata_admission, st)
      else let valid = validate_metadata t (max_queues (st_history_limits st))
      in if \<not> status_ok valid then (valid, empty_metadata_admission, st)
      else if st_has_metadata st \<and> \<not> metadata_newer t (st_metadata st) then
        (let reason = ''metadata revision is not newer than the stored revision for this generation''
         in (success,
             empty_metadata_admission\<lparr>ma_fenced := True, ma_reason := reason,
               ma_previous_revision := mt_revision (st_metadata st)\<rparr>,
             record_event_global MetadataRevisionFenced Sev_Warning
               (reason @ '' (revision '' @ strong_id_to_string (mt_revision t) @ '', source ''
                @ mt_source t @ '')'')
               (count c_metadata_fenced_update st)))
      else
        (success,
         empty_metadata_admission\<lparr>ma_accepted := True,
           ma_previous_revision :=
             (if st_has_metadata st then mt_revision (st_metadata st) else 0)\<rparr>,
         record_event_global MetadataUpdated Sev_Notice
           (''metadata revision '' @ strong_id_to_string (mt_revision t) @ '' for generation ''
            @ strong_id_to_string (mt_generation t) @ '' accepted'')
           (count c_metadata_updates_update
             (st\<lparr>st_metadata := t, st_has_metadata := True\<rparr>))))"

end
