(* ===== verification/Store_Invariants.thy ===== *)
theory Store_Invariants
  imports Store_Ingest
begin

text \<open>
  The invariant of the store and its preservation by every operation that changes state.
  The invariant is split into the part about the queues, which the handler breaks while it
  works on one of them, and the rest. \<open>rest_inv n\<close> says that \<open>n\<close> presented samples have not
  been answered yet: the handler runs with one pending sample and every way out of it
  settles that sample. The step relation \<open>store_step\<close> collects the operations; the
  invariant holds in every reachable state.
\<close>

section \<open>What bookkeeping leaves alone\<close>

named_theorems store_frame \<open>fields that an operation leaves unchanged\<close>

lemma read_clock_frame [store_frame, simp]:
  "st_policy (snd (read_clock st)) = st_policy st"
  "st_history_limits (snd (read_clock st)) = st_history_limits st"
  "st_query_limits (snd (read_clock st)) = st_query_limits st"
  "st_record_size (snd (read_clock st)) = st_record_size st"
  "st_evaluation_spec (snd (read_clock st)) = st_evaluation_spec st"
  "st_microburst_spec (snd (read_clock st)) = st_microburst_spec st"
  "st_contention_spec (snd (read_clock st)) = st_contention_spec st"
  "st_config_status (snd (read_clock st)) = st_config_status st"
  "st_queues (snd (read_clock st)) = st_queues st"
  "st_sources (snd (read_clock st)) = st_sources st"
  "st_metadata (snd (read_clock st)) = st_metadata st"
  "st_has_metadata (snd (read_clock st)) = st_has_metadata st"
  "st_recovered_mode (snd (read_clock st)) = st_recovered_mode st"
  "st_conflicts (snd (read_clock st)) = st_conflicts st"
  "st_next_incarnation_ordinal (snd (read_clock st)) = st_next_incarnation_ordinal st"
  "st_history_bytes (snd (read_clock st)) = st_history_bytes st"
  "st_events (snd (read_clock st)) = st_events st"
  "st_counters (snd (read_clock st)) = st_counters st"
  by (simp_all add: read_clock_def)

lemma count_frame [store_frame, simp]:
  "st_policy (count f st) = st_policy st"
  "st_history_limits (count f st) = st_history_limits st"
  "st_query_limits (count f st) = st_query_limits st"
  "st_record_size (count f st) = st_record_size st"
  "st_evaluation_spec (count f st) = st_evaluation_spec st"
  "st_microburst_spec (count f st) = st_microburst_spec st"
  "st_contention_spec (count f st) = st_contention_spec st"
  "st_config_status (count f st) = st_config_status st"
  "st_queues (count f st) = st_queues st"
  "st_sources (count f st) = st_sources st"
  "st_metadata (count f st) = st_metadata st"
  "st_has_metadata (count f st) = st_has_metadata st"
  "st_recovered_mode (count f st) = st_recovered_mode st"
  "st_conflicts (count f st) = st_conflicts st"
  "st_next_incarnation_ordinal (count f st) = st_next_incarnation_ordinal st"
  "st_history_bytes (count f st) = st_history_bytes st"
  "st_events (count f st) = st_events st"
  "st_counters (count f st) = f (\<lambda>n. n + 1) (st_counters st)"
  by (simp_all add: count_def)

lemma record_event_global_frame [store_frame, simp]:
  "st_policy (record_event_global k s d st) = st_policy st"
  "st_history_limits (record_event_global k s d st) = st_history_limits st"
  "st_query_limits (record_event_global k s d st) = st_query_limits st"
  "st_record_size (record_event_global k s d st) = st_record_size st"
  "st_evaluation_spec (record_event_global k s d st) = st_evaluation_spec st"
  "st_microburst_spec (record_event_global k s d st) = st_microburst_spec st"
  "st_contention_spec (record_event_global k s d st) = st_contention_spec st"
  "st_config_status (record_event_global k s d st) = st_config_status st"
  "st_queues (record_event_global k s d st) = st_queues st"
  "st_sources (record_event_global k s d st) = st_sources st"
  "st_metadata (record_event_global k s d st) = st_metadata st"
  "st_has_metadata (record_event_global k s d st) = st_has_metadata st"
  "st_recovered_mode (record_event_global k s d st) = st_recovered_mode st"
  "st_conflicts (record_event_global k s d st) = st_conflicts st"
  "st_next_incarnation_ordinal (record_event_global k s d st) = st_next_incarnation_ordinal st"
  "st_history_bytes (record_event_global k s d st) = st_history_bytes st"
  by (simp_all add: record_event_global_def read_clock_def count_def Let_def)

lemma record_event_frame [store_frame, simp]:
  "st_policy (record_event k s m q d st) = st_policy st"
  "st_history_limits (record_event k s m q d st) = st_history_limits st"
  "st_query_limits (record_event k s m q d st) = st_query_limits st"
  "st_record_size (record_event k s m q d st) = st_record_size st"
  "st_evaluation_spec (record_event k s m q d st) = st_evaluation_spec st"
  "st_microburst_spec (record_event k s m q d st) = st_microburst_spec st"
  "st_contention_spec (record_event k s m q d st) = st_contention_spec st"
  "st_config_status (record_event k s m q d st) = st_config_status st"
  "st_queues (record_event k s m q d st) = st_queues st"
  "st_sources (record_event k s m q d st) = st_sources st"
  "st_metadata (record_event k s m q d st) = st_metadata st"
  "st_has_metadata (record_event k s m q d st) = st_has_metadata st"
  "st_recovered_mode (record_event k s m q d st) = st_recovered_mode st"
  "st_conflicts (record_event k s m q d st) = st_conflicts st"
  "st_next_incarnation_ordinal (record_event k s m q d st) = st_next_incarnation_ordinal st"
  "st_history_bytes (record_event k s m q d st) = st_history_bytes st"
  by (simp_all add: record_event_def Let_def)

lemma put_source_frame [store_frame, simp]:
  "st_policy (put_source m s st) = st_policy st"
  "st_history_limits (put_source m s st) = st_history_limits st"
  "st_query_limits (put_source m s st) = st_query_limits st"
  "st_record_size (put_source m s st) = st_record_size st"
  "st_evaluation_spec (put_source m s st) = st_evaluation_spec st"
  "st_microburst_spec (put_source m s st) = st_microburst_spec st"
  "st_contention_spec (put_source m s st) = st_contention_spec st"
  "st_config_status (put_source m s st) = st_config_status st"
  "st_queues (put_source m s st) = st_queues st"
  "st_sources (put_source m s st) = om_put (qs_source m) s (st_sources st)"
  "st_metadata (put_source m s st) = st_metadata st"
  "st_has_metadata (put_source m s st) = st_has_metadata st"
  "st_recovered_mode (put_source m s st) = st_recovered_mode st"
  "st_conflicts (put_source m s st) = st_conflicts st"
  "st_events (put_source m s st) = st_events st"
  "st_counters (put_source m s st) = st_counters st"
  "st_next_incarnation_ordinal (put_source m s st) = st_next_incarnation_ordinal st"
  "st_history_bytes (put_source m s st) = st_history_bytes st"
  by (simp_all add: put_source_def)

section \<open>The event log is a bounded log\<close>

definition events_inv :: "nat \<Rightarrow> event_log \<Rightarrow> bool" where
  "events_inv n l \<longleftrightarrow>
     length (el_storage l) = n \<and> el_size l \<le> n \<and> (el_head l < n \<or> n = 0)"

lemma event_list_items: "event_list l = ring_items (el_storage l) (el_head l) (el_size l)"
  by (simp add: event_list_def ring_items_def)

lemma event_list_push:
  assumes "events_inv n l"
  shows "event_list (event_log_push l e) = keep_newest n (event_list l @ [e])"
proof -
  consider "n = 0" | "el_size l < n" | "el_size l = n" "0 < n"
    using assms by (force simp: events_inv_def)
  then show ?thesis
  proof cases
    case 1
    then show ?thesis
      using assms by (simp add: events_inv_def event_log_push_def keep_newest_def event_list_def)
  next
    case 2
    then have "el_storage l \<noteq> []" using assms by (auto simp: events_inv_def)
    then show ?thesis
      using 2 assms ring_items_append [of "el_size l" "el_storage l" "el_head l" e]
      by (simp add: events_inv_def event_log_push_def event_list_items keep_newest_id)
  next
    case 3
    then have "el_storage l \<noteq> []" using assms by (auto simp: events_inv_def)
    then show ?thesis
      using 3 assms ring_items_overwrite [of "el_storage l" "el_head l" e]
      by (simp add: events_inv_def event_log_push_def event_list_items keep_newest_full)
  qed
qed

lemma events_inv_push: "events_inv n l \<Longrightarrow> events_inv n (event_log_push l e)"
  by (auto simp: events_inv_def event_log_push_def intro: mod_less_divisor)

interpretation event_ring: bounded_log event_list "length \<circ> el_storage" event_log_push
  "\<lambda>l. events_inv (length (el_storage l)) l"
proof unfold_locales
  fix l e assume inv: "events_inv (length (el_storage l)) l"
  show "length (event_list l) \<le> (length \<circ> el_storage) l"
    using inv by (simp add: events_inv_def event_list_def)
  show cap: "(length \<circ> el_storage) (event_log_push l e) = (length \<circ> el_storage) l"
    by (simp add: event_log_push_def)
  show "events_inv (length (el_storage (event_log_push l e))) (event_log_push l e)"
    using events_inv_push [OF inv, of e] cap by simp
  show "event_list (event_log_push l e) = keep_newest ((length \<circ> el_storage) l) (event_list l @ [e])"
    using event_list_push [OF inv] by simp
qed

lemma events_inv_amend: "events_inv n l \<Longrightarrow> events_inv n (event_log_amend f l)"
  by (auto simp: events_inv_def event_log_amend_def Let_def)

lemma events_inv_record_global:
  "events_inv n (st_events st) \<Longrightarrow> events_inv n (st_events (record_event_global k s d st))"
  by (simp add: record_event_global_def read_clock_def Let_def events_inv_push)

lemma events_inv_record:
  "events_inv n (st_events st) \<Longrightarrow> events_inv n (st_events (record_event k s m q d st))"
  by (simp add: record_event_def Let_def events_inv_record_global events_inv_amend)

section \<open>The invariant\<close>

definition totals :: "u64 \<Rightarrow> store_counters \<Rightarrow> bool" where
  "totals n c \<longleftrightarrow>
     c_samples_presented c = c_samples_accepted c + c_samples_rejected c + c_samples_fenced c + n"

lemma totals_record_global [simp]:
  "totals n (st_counters (record_event_global k s d st)) = totals n (st_counters st)"
  by (simp add: record_event_global_def read_clock_def Let_def totals_def)

lemma totals_record [simp]:
  "totals n (st_counters (record_event k s m q d st)) = totals n (st_counters st)"
  by (simp add: record_event_def Let_def)

definition source_ok :: "string \<Rightarrow> source_record \<Rightarrow> bool" where
  "source_ok k s \<longleftrightarrow>
     s_id s = k \<and> length (s_recent_incarnations s) \<le> kMaxRecentIncarnations \<and>
     s_recent_incarnations s \<noteq> [] \<and>
     hd (s_recent_incarnations s) = (s_incarnation s, s_incarnation_ordinal s)"

definition sources_inv :: "nat \<Rightarrow> (string \<times> source_record) list \<Rightarrow> bool" where
  "sources_inv n m \<longleftrightarrow>
     om_wf m \<and> om_size m \<le> n \<and> (\<forall>(k, s) \<in> set (om_entries m). source_ok k s)"

definition queue_ok :: "pressure_policy \<Rightarrow> history_limits \<Rightarrow> queue_path \<Rightarrow> queue_state \<Rightarrow> bool" where
  "queue_ok p h k q \<longleftrightarrow>
     q_queue q = k \<and> ring_invar (q_history q) \<and>
     ring_capacity (q_history q) = max_samples_per_queue h \<and>
     length (q_peers q) \<le> max_sources h \<and> distinct (map po_source (q_peers q)) \<and>
     q_latest q = classify p (q_last_input q)"

definition queues_inv ::
    "pressure_policy \<Rightarrow> history_limits \<Rightarrow> nat \<Rightarrow> u64 \<Rightarrow> (queue_path \<times> queue_state) list \<Rightarrow> bool" where
  "queues_inv p h record_size bytes m \<longleftrightarrow>
     om_wf m \<and> om_size m \<le> max_queues h \<and>
     unat bytes = om_size m * unat (of_nat (max_samples_per_queue h) * of_nat record_size :: u64) \<and>
     bytes \<le> max_history_bytes h \<and>
     (\<forall>(k, q) \<in> set (om_entries m). queue_ok p h k q)"

definition configured :: "store \<Rightarrow> bool" where
  "configured st \<longleftrightarrow>
     st_config_status st = configuration_status (st_policy st) (st_history_limits st) (st_query_limits st) \<and>
     status_ok (st_config_status st)"

definition rest_inv :: "u64 \<Rightarrow> store \<Rightarrow> bool" where
  "rest_inv n st \<longleftrightarrow>
     configured st \<and> sources_inv (max_sources (st_history_limits st)) (st_sources st) \<and>
     length (st_conflicts st) \<le> max_conflicts (st_history_limits st) \<and>
     events_inv (max_events_total (st_history_limits st)) (st_events st) \<and>
     totals n (st_counters st)"

definition store_inv :: "u64 \<Rightarrow> store \<Rightarrow> bool" where
  "store_inv n st \<longleftrightarrow>
     rest_inv n st \<and>
     queues_inv (st_policy st) (st_history_limits st) (st_record_size st) (st_history_bytes st)
       (st_queues st)"

section \<open>Bookkeeping keeps the invariant\<close>

lemma configured_frame [simp]:
  "configured (record_event_global k s d st) = configured st"
  "configured (record_event k s x q d st) = configured st"
  "configured (snd (read_clock st)) = configured st"
  "configured (count f st) = configured st"
  "configured (put_source m src st) = configured st"
  by (simp_all add: configured_def)

lemma rest_inv_record [simp]: "rest_inv n st \<Longrightarrow> rest_inv n (record_event k s m q d st)"
  by (simp add: rest_inv_def events_inv_record)

lemma rest_inv_record_global [simp]: "rest_inv n st \<Longrightarrow> rest_inv n (record_event_global k s d st)"
  by (simp add: rest_inv_def events_inv_record_global)

lemma rest_inv_read_clock [simp]: "rest_inv n (snd (read_clock st)) = rest_inv n st"
  by (simp add: rest_inv_def)

lemma rest_inv_count_other:
  assumes "\<And>g c. c_samples_presented (f g c) = c_samples_presented c"
    "\<And>g c. c_samples_accepted (f g c) = c_samples_accepted c"
    "\<And>g c. c_samples_rejected (f g c) = c_samples_rejected c"
    "\<And>g c. c_samples_fenced (f g c) = c_samples_fenced c"
  shows "rest_inv n (count f st) = rest_inv n st"
  using assms by (simp add: rest_inv_def totals_def)

lemma rest_inv_count_kept [simp]:
  "rest_inv n (count c_duplicates_suppressed_update st) = rest_inv n st"
  "rest_inv n (count c_conflicts_detected_update st) = rest_inv n st"
  "rest_inv n (count c_conflicts_cleared_update st) = rest_inv n st"
  "rest_inv n (count c_state_transitions_update st) = rest_inv n st"
  "rest_inv n (count c_history_records_pushed_update st) = rest_inv n st"
  "rest_inv n (count c_sources_registered_update st) = rest_inv n st"
  "rest_inv n (count c_metadata_updates_update st) = rest_inv n st"
  "rest_inv n (count c_metadata_fenced_update st) = rest_inv n st"
  "rest_inv n (count c_counter_wraps_update st) = rest_inv n st"
  "rest_inv n (count c_counter_resets_update st) = rest_inv n st"
  "rest_inv n (count c_counter_ambiguous_update st) = rest_inv n st"
  "rest_inv n (count c_counter_discontinuous_update st) = rest_inv n st"
  by (rule rest_inv_count_other; simp)+

lemma rest_inv_settle [simp]:
  "rest_inv 1 st \<Longrightarrow> rest_inv 0 (count c_samples_accepted_update st)"
  "rest_inv 1 st \<Longrightarrow> rest_inv 0 (count c_samples_rejected_update st)"
  "rest_inv 1 st \<Longrightarrow> rest_inv 0 (count c_samples_fenced_update st)"
  by (simp_all add: rest_inv_def totals_def algebra_simps)

lemma rest_inv_present [simp]: "rest_inv 0 st \<Longrightarrow> rest_inv 1 (count c_samples_presented_update st)"
  by (simp add: rest_inv_def totals_def)

lemma sources_inv_put:
  assumes "sources_inv n m" "source_ok k s" "om_find m k \<noteq> None \<or> om_size m < n"
  shows "sources_inv n (om_put k s m)"
  using assms om.all_entries_put [of m source_ok k s]
  by (auto simp: sources_inv_def om.wf_put om_size_put)

lemma rest_inv_put_source:
  assumes "rest_inv n st" "source_ok (qs_source m) s"
    "om_find (st_sources st) (qs_source m) \<noteq> None \<or>
     om_size (st_sources st) < max_sources (st_history_limits st)"
  shows "rest_inv n (put_source m s st)"
  using assms by (simp add: rest_inv_def sources_inv_put)

lemma source_ok_find:
  assumes "rest_inv n st" "om_find (st_sources st) k = Some s"
  shows "source_ok k s"
  using assms om.all_entries_find [of "st_sources st" source_ok k s]
  by (auto simp: rest_inv_def sources_inv_def)

section \<open>Ways out of the handler\<close>

definition answer_store :: "admission \<Rightarrow> store" where
  "answer_store a = snd (snd a)"

definition answer_result :: "admission \<Rightarrow> admission_result" where
  "answer_result a = fst (snd a)"

lemma reject_sample_store:
  "answer_store (reject_sample m oc code reason r st) =
     record_event SampleRejected Sev_Warning (Some m) (qs_queue m) reason
       (count c_samples_rejected_update st)"
  by (simp add: answer_store_def reject_sample_def)

lemma fence_sample_store:
  "\<exists>k. answer_store (fence_sample m oc r st) =
     record_event k Sev_Warning (Some m) (qs_queue m) (fence_reason oc)
       (case om_find (st_sources st) (qs_source m) of
          None \<Rightarrow> count c_samples_fenced_update st
        | Some s \<Rightarrow> put_source m (s\<lparr>s_fenced := s_fenced s + 1\<rparr>) (count c_samples_fenced_update st))"
  by (auto simp: answer_store_def fence_sample_def put_source_def Let_def split: option.splits)

lemma source_ok_update [simp]:
  "source_ok k (s\<lparr>s_fenced := a\<rparr>) = source_ok k s"
  "source_ok k (s\<lparr>s_duplicates := a\<rparr>) = source_ok k s"
  "source_ok k (s\<lparr>s_generation := g\<rparr>) = source_ok k s"
  "source_ok k (s\<lparr>s_authority := x, s_declared_authority := y\<rparr>) = source_ok k s"
  "source_ok k (s\<lparr>s_accepted := a\<rparr>) = source_ok k s"
  by (simp_all add: source_ok_def)

text \<open>The queue part of the invariant depends on five fields only; the mode of the store goes
  with them, because the verdict on a queue depends on it.\<close>

definition queue_part ::
    "store \<Rightarrow> pressure_policy \<times> history_limits \<times> nat \<times> u64 \<times> (queue_path \<times> queue_state) list \<times> bool" where
  "queue_part st =
     (st_policy st, st_history_limits st, st_record_size st, st_history_bytes st, st_queues st,
      st_recovered_mode st)"

definition queues_ok :: "store \<Rightarrow> bool" where
  "queues_ok st = (case queue_part st of (p, h, n, b, m, _) \<Rightarrow> queues_inv p h n b m)"

lemma store_inv_parts: "store_inv n st \<longleftrightarrow> rest_inv n st \<and> queues_ok st"
  by (simp add: store_inv_def queues_ok_def queue_part_def)

lemma queue_part_frame [simp]:
  "queue_part (record_event_global k s d st) = queue_part st"
  "queue_part (record_event k s x q d st) = queue_part st"
  "queue_part (snd (read_clock st)) = queue_part st"
  "queue_part (count f st) = queue_part st"
  "queue_part (put_source m src st) = queue_part st"
  by (simp_all add: queue_part_def)

lemma queues_ok_part: "queue_part st' = queue_part st \<Longrightarrow> queues_ok st' = queues_ok st"
  by (simp add: queues_ok_def)

lemma reject_sample_inv:
  assumes "rest_inv 1 st"
  shows "rest_inv 0 (answer_store (reject_sample m oc code reason r st))"
    "queue_part (answer_store (reject_sample m oc code reason r st)) = queue_part st"
  using assms by (simp_all add: reject_sample_store)

lemma fence_sample_inv:
  assumes "rest_inv 1 st"
  shows "rest_inv 0 (answer_store (fence_sample m oc r st))"
    "queue_part (answer_store (fence_sample m oc r st)) = queue_part st"
proof -
  obtain k where k: "answer_store (fence_sample m oc r st) =
      record_event k Sev_Warning (Some m) (qs_queue m) (fence_reason oc)
       (case om_find (st_sources st) (qs_source m) of
          None \<Rightarrow> count c_samples_fenced_update st
        | Some s \<Rightarrow> put_source m (s\<lparr>s_fenced := s_fenced s + 1\<rparr>) (count c_samples_fenced_update st))"
    using fence_sample_store by blast
  show "rest_inv 0 (answer_store (fence_sample m oc r st))"
    using assms source_ok_find [OF assms]
    by (auto simp: k intro!: rest_inv_record rest_inv_put_source split: option.splits)
  show "queue_part (answer_store (fence_sample m oc r st)) = queue_part st"
    by (simp add: k split: option.splits)
qed

section \<open>Sources only grow\<close>

definition source_le :: "source_record \<Rightarrow> source_record \<Rightarrow> bool" where
  "source_le s s' \<longleftrightarrow>
     s_id s = s_id s' \<and> s_generation s \<le> s_generation s' \<and> s_authority s \<le> s_authority s'"

definition sources_le :: "(string \<times> source_record) list \<Rightarrow> (string \<times> source_record) list \<Rightarrow> bool" where
  "sources_le m m' \<longleftrightarrow>
     (\<forall>k s. om_find m k = Some s \<longrightarrow> (\<exists>s'. om_find m' k = Some s' \<and> source_le s s'))"

lemma source_le_refl [simp]: "source_le s s"
  by (simp add: source_le_def)

lemma source_le_trans: "source_le a b \<Longrightarrow> source_le b c \<Longrightarrow> source_le a c"
  by (auto simp: source_le_def)

lemma sources_le_refl [simp]: "sources_le m m"
  by (simp add: sources_le_def)

lemma sources_le_trans: "sources_le a b \<Longrightarrow> sources_le b c \<Longrightarrow> sources_le a c"
  unfolding sources_le_def by (meson source_le_trans)

lemma sources_le_put:
  assumes "om_wf m" "\<And>s0. om_find m k = Some s0 \<Longrightarrow> source_le s0 s" "sources_le m0 m"
  shows "sources_le m0 (om_put k s m)"
proof -
  have "sources_le m (om_put k s m)"
    using assms(1,2) by (auto simp: sources_le_def om.find_put)
  then show ?thesis using sources_le_trans [OF assms(3)] by blast
qed

lemma source_le_update [simp]:
  "source_le s (s\<lparr>s_fenced := a\<rparr>)"
  "source_le s (s\<lparr>s_duplicates := a\<rparr>)"
  "source_le s (s\<lparr>s_accepted := a\<rparr>)"
  "source_le s (s\<lparr>s_generation := g\<rparr>) = (s_generation s \<le> g)"
  "source_le s (s\<lparr>s_authority := x, s_declared_authority := y\<rparr>) = (s_authority s \<le> x)"
  by (simp_all add: source_le_def)

section \<open>Admitting the source\<close>

text \<open>A stage that may leave: an answer settles the pending sample without admitting it, a
  continuation still has it pending and has its source registered. Neither touches the
  queues, and neither lowers the generation or the authority of a registered source.\<close>

type_synonym source_step = "admission_outcome \<times> source_record \<times> store"

definition carries :: "queue_sample \<Rightarrow> store \<Rightarrow> source_step \<Rightarrow> bool" where
  "carries m st0 acc = (case acc of (oc, s, st) \<Rightarrow>
     rest_inv 1 st \<and> queue_part st = queue_part st0 \<and> sources_le (st_sources st0) (st_sources st) \<and>
     om_find (st_sources st) (qs_source m) = Some s)"

definition settles :: "store \<Rightarrow> admission \<Rightarrow> bool" where
  "settles st0 a \<longleftrightarrow>
     rest_inv 0 (answer_store a) \<and> queue_part (answer_store a) = queue_part st0 \<and>
     sources_le (st_sources st0) (st_sources (answer_store a)) \<and>
     \<not> ar_accepted (answer_result a) \<and> \<not> outcome_admitted (ar_outcome (answer_result a))"

definition stage_ok :: "queue_sample \<Rightarrow> store \<Rightarrow> admission + source_step \<Rightarrow> bool" where
  "stage_ok m st0 r = (case r of Inl a \<Rightarrow> settles st0 a | Inr acc \<Rightarrow> carries m st0 acc)"

lemma stage_ok_then:
  assumes "stage_ok m st0 r" "\<And>acc. carries m st0 acc \<Longrightarrow> stage_ok m st0 (k acc)"
  shows "stage_ok m st0 (and_then r k)"
  using assms by (cases r) (simp_all add: stage_ok_def and_then_def)

lemma rest_inv_wf: "rest_inv n st \<Longrightarrow> om_wf (st_sources st)"
  by (simp add: rest_inv_def sources_inv_def)

lemma fence_settles:
  assumes "rest_inv 1 st" "queue_part st = queue_part st0" "\<not> outcome_admitted oc"
    "sources_le (st_sources st0) (st_sources st)"
  shows "settles st0 (fence_sample m oc r st)"
proof -
  have "sources_le (st_sources st0) (st_sources (answer_store (fence_sample m oc r st)))"
    using fence_sample_store [of m oc r st] assms(4) rest_inv_wf [OF assms(1)]
    by (auto split: option.splits intro!: sources_le_put)
  then show ?thesis
    using assms
    by (simp add: settles_def fence_sample_inv answer_result_def) (simp add: fence_sample_def Let_def)
qed

lemma reject_settles:
  assumes "rest_inv 1 st" "queue_part st = queue_part st0" "\<not> outcome_admitted oc"
    "sources_le (st_sources st0) (st_sources st)"
  shows "settles st0 (reject_sample m oc code reason r st)"
  using assms
  by (simp add: settles_def reject_sample_inv answer_result_def) (simp add: reject_sample_def answer_store_def)

lemma carries_put:
  assumes "rest_inv 1 st" "queue_part st = queue_part st0" "source_ok (qs_source m) s"
    "om_find (st_sources st) (qs_source m) \<noteq> None \<or>
     om_size (st_sources st) < max_sources (st_history_limits st)"
    "sources_le (st_sources st0) (st_sources st)"
    "\<And>s0. om_find (st_sources st) (qs_source m) = Some s0 \<Longrightarrow> source_le s0 s"
  shows "carries m st0 (oc, s, record_event k sev x q d (put_source m s st))"
  using assms rest_inv_wf [OF assms(1)]
  by (simp add: carries_def rest_inv_put_source om.find_put_same sources_le_put)

lemma rest_inv_next [simp]: "rest_inv n (st\<lparr>st_next_incarnation_ordinal := v\<rparr>) = rest_inv n st"
  by (simp add: rest_inv_def configured_def)

lemma queue_part_next [simp]: "queue_part (st\<lparr>st_next_incarnation_ordinal := v\<rparr>) = queue_part st"
  by (simp add: queue_part_def)

lemma switch_carries:
  assumes "carries m st0 (oc, s, st)"
  shows "carries m st0 (switch_incarnation m s st)"
proof -
  have "source_ok (qs_source m) s"
    using assms source_ok_find by (auto simp: carries_def)
  then have "source_ok (qs_source m) (s\<lparr>s_incarnation := qs_incarnation m, s_incarnation_ordinal := v,
      s_last_sequence := 0, s_recent_incarnations := take kMaxRecentIncarnations
        ((qs_incarnation m, v) # s_recent_incarnations s)\<rparr>)" for v
    by (simp add: source_ok_def kMaxRecentIncarnations_def)
  then show ?thesis
    unfolding switch_incarnation_def Let_def
    by (intro carries_put) (use assms in \<open>simp_all add: carries_def source_le_def\<close>)
qed

lemma fence_incarnation_ok:
  assumes "carries m st0 acc"
  shows "stage_ok m st0 (fence_incarnation m r acc)"
proof -
  obtain oc s st where acc: "acc = (oc, s, st)" by (cases acc)
  have "settles st0 (fence_sample m FencedStaleIncarnation r st)"
    using assms by (intro fence_settles) (simp_all add: carries_def acc)
  then show ?thesis
    using assms switch_carries [of m st0 oc s st]
    by (simp add: fence_incarnation_def acc stage_ok_def split: option.splits)
qed

lemma fence_generation_ok:
  assumes "carries m st0 acc"
  shows "stage_ok m st0 (fence_generation m r acc)"
proof -
  obtain oc s st where acc: "acc = (oc, s, st)" by (cases acc)
  have st: "rest_inv 1 st" "queue_part st = queue_part st0" "om_find (st_sources st) (qs_source m) = Some s"
    "sources_le (st_sources st0) (st_sources st)"
    using assms by (simp_all add: carries_def acc)
  note ok = source_ok_find [OF st(1,3)]
  show ?thesis
    using st ok assms by (auto simp: fence_generation_def acc stage_ok_def Let_def intro!: fence_settles carries_put)
qed

lemma fence_authority_ok:
  assumes "carries m st0 acc"
  shows "stage_ok m st0 (fence_authority m r acc)"
proof -
  obtain oc s st where acc: "acc = (oc, s, st)" by (cases acc)
  have st: "rest_inv 1 st" "queue_part st = queue_part st0" "om_find (st_sources st) (qs_source m) = Some s"
    "sources_le (st_sources st0) (st_sources st)"
    using assms by (simp_all add: carries_def acc)
  note ok = source_ok_find [OF st(1,3)]
  show ?thesis
    using st ok assms by (auto simp: fence_authority_def acc stage_ok_def Let_def intro!: fence_settles carries_put)
qed

lemma fence_sequence_ok:
  assumes "carries m st0 acc"
  shows "stage_ok m st0 (fence_sequence m r acc)"
proof -
  obtain oc s st where acc: "acc = (oc, s, st)" by (cases acc)
  have st: "rest_inv 1 st" "queue_part st = queue_part st0" "om_find (st_sources st) (qs_source m) = Some s"
    "sources_le (st_sources st0) (st_sources st)"
    using assms by (simp_all add: carries_def acc)
  note ok = source_ok_find [OF st(1,3)]
  show ?thesis
    using st ok assms
    by (auto simp: fence_sequence_def acc stage_ok_def
        intro!: fence_settles rest_inv_put_source sources_le_put intro: rest_inv_wf)
qed

lemma register_carries:
  assumes "rest_inv 1 st" "om_find (st_sources st) (qs_source m) = None"
    "om_size (st_sources st) < max_sources (st_history_limits st)"
  shows "carries m st (AcceptedNewSource, register_source m st)"
proof -
  obtain s d where s: "register_source m st =
      (s, record_event SourceRegistered Sev_Notice (Some m) (qs_queue m) d
        (count c_sources_registered_update (put_source m s
          (st\<lparr>st_next_incarnation_ordinal := st_next_incarnation_ordinal st + 1\<rparr>))))"
    "source_ok (qs_source m) s"
    by (simp add: register_source_def Let_def source_ok_def kMaxRecentIncarnations_def)
  have "rest_inv 1 (put_source m s
      (st\<lparr>st_next_incarnation_ordinal := st_next_incarnation_ordinal st + 1\<rparr>))"
    using assms s(2) by (intro rest_inv_put_source) simp_all
  then show ?thesis
    using assms(2) rest_inv_wf [OF assms(1)]
    by (auto simp: s(1) carries_def om.find_put_same intro!: sources_le_put)
qed

lemma admit_source_ok:
  assumes "rest_inv 1 st"
  shows "stage_ok m st (admit_source m r st)"
proof (cases "om_find (st_sources st) (qs_source m)")
  case None
  have "settles st (reject_sample m RejectedLimit LimitExceeded
      ''the source registry is full; no further sources may be registered'' r st)"
    using assms by (intro reject_settles) simp_all
  then show ?thesis
    using None register_carries [OF assms None] assms
    by (auto simp: admit_source_def stage_ok_def not_le split: prod.splits)
next
  case (Some s)
  then have "carries m st (Accepted, s, st)" using assms by (simp add: carries_def)
  then show ?thesis
    unfolding admit_source_def Some option.case
    by (intro stage_ok_then fence_incarnation_ok fence_generation_ok fence_authority_ok fence_sequence_ok)
qed

lemma touch_carries:
  assumes "carries m st0 (oc, s, st)"
  shows "carries m st0 (oc, touch_source m s st)"
proof -
  have st: "rest_inv 1 st" "queue_part st = queue_part st0" "om_find (st_sources st) (qs_source m) = Some s"
    "sources_le (st_sources st0) (st_sources st)"
    using assms by (simp_all add: carries_def)
  obtain t where t: "touch_source m s st = (t, put_source m t st)" "source_ok (qs_source m) t"
      "source_le s t"
    using source_ok_find [OF st(1,3)] by (simp add: touch_source_def Let_def source_ok_def source_le_def)
  then show ?thesis
    using st rest_inv_wf [OF st(1)]
    by (auto simp: carries_def om.find_put_same rest_inv_put_source intro!: sources_le_put)
qed

section \<open>Acquiring the queue\<close>

lemma rest_inv_queues [simp]:
  "rest_inv n (st\<lparr>st_queues := m\<rparr>) = rest_inv n st"
  "rest_inv n (st\<lparr>st_history_bytes := b\<rparr>) = rest_inv n st"
  by (simp_all add: rest_inv_def configured_def)

definition queue_shape :: "queue_state \<Rightarrow> queue_path \<times> history_ring \<times> peer_observation list" where
  "queue_shape q = (q_queue q, q_history q, q_peers q)"

definition shape_ok :: "history_limits \<Rightarrow> queue_path \<Rightarrow> queue_state \<Rightarrow> bool" where
  "shape_ok h k q \<longleftrightarrow>
     q_queue q = k \<and> ring_invar (q_history q) \<and>
     ring_capacity (q_history q) = max_samples_per_queue h \<and>
     length (q_peers q) \<le> max_sources h \<and> distinct (map po_source (q_peers q))"

lemma queue_ok_shape: "queue_ok p h k q \<longleftrightarrow> shape_ok h k q \<and> q_latest q = classify p (q_last_input q)"
  by (auto simp: queue_ok_def shape_ok_def)

lemma shape_ok_cong: "queue_shape q' = queue_shape q \<Longrightarrow> shape_ok h k q' = shape_ok h k q"
  by (simp add: shape_ok_def queue_shape_def)

text \<open>The queue table with a hole for the queue under work: any good state may be put there.\<close>

definition fillable :: "queue_path \<Rightarrow> store \<Rightarrow> bool" where
  "fillable k st = (case queue_part st of (p, h, n, b, m, _) \<Rightarrow>
     \<forall>q. queue_ok p h k q \<longrightarrow> queues_inv p h n b (om_put k q m))"

lemma fillable_part: "queue_part st' = queue_part st \<Longrightarrow> fillable k st' = fillable k st"
  by (simp add: fillable_def)

lemma queues_inv_replace:
  assumes "queues_inv p h n b m" "queue_ok p h k q" "om_find m k \<noteq> None"
  shows "queues_inv p h n b (om_put k q m)"
  using assms om.all_entries_put [of m "queue_ok p h" k q]
  by (auto simp: queues_inv_def om.wf_put om_size_put)

lemma queues_inv_extend:
  assumes "queues_inv p h n b m" "queue_ok p h k q" "om_find m k = None" "om_size m < max_queues h"
    "add_u64 b (of_nat (max_samples_per_queue h) * of_nat n) = Some b'" "b' \<le> max_history_bytes h"
  shows "queues_inv p h n b' (om_put k q m)"
proof -
  have "unat b' = unat b + unat (of_nat (max_samples_per_queue h) * of_nat n :: u64)"
    using assms(5) by (simp add: add_u64_Some)
  then show ?thesis
    using assms om.all_entries_put [of m "queue_ok p h" k q]
    by (auto simp: queues_inv_def om.wf_put om_size_put)
qed

lemma queue_found_ok:
  assumes "queues_ok st" "om_find (st_queues st) k = Some q"
  shows "queue_ok (st_policy st) (st_history_limits st) k q"
  using assms om.all_entries_find [of "st_queues st" "queue_ok (st_policy st) (st_history_limits st)" k q]
  by (auto simp: queues_ok_def queue_part_def queues_inv_def)

text \<open>Bookkeeping that leaves queues, sources and modes alone and keeps the rest of the
  invariant.\<close>

definition quiet :: "store \<Rightarrow> store \<Rightarrow> bool" where
  "quiet st st' \<longleftrightarrow>
     (rest_inv 1 st \<longrightarrow> rest_inv 1 st') \<and> queue_part st' = queue_part st \<and>
     st_sources st' = st_sources st \<and> st_recovered_mode st' = st_recovered_mode st \<and>
     st_next_incarnation_ordinal st' = st_next_incarnation_ordinal st"

lemma quiet_refl [simp]: "quiet st st"
  by (simp add: quiet_def)

lemma quiet_trans: "quiet st st' \<Longrightarrow> quiet st' st'' \<Longrightarrow> quiet st st''"
  by (simp add: quiet_def)

lemma quiet_record [simp]: "quiet st (record_event k s x q d st)"
  by (simp add: quiet_def)

lemma quiet_read_clock [simp]: "quiet st (snd (read_clock st))"
  by (simp add: quiet_def)

lemma quiet_count [simp]:
  "quiet st (record_event k s x q d (count c_counter_wraps_update st))"
  "quiet st (record_event k s x q d (count c_counter_resets_update st))"
  "quiet st (record_event k s x q d (count c_counter_ambiguous_update st))"
  "quiet st (record_event k s x q d (count c_counter_discontinuous_update st))"
  "quiet st (record_event k s x q d (count c_state_transitions_update st))"
  "quiet st (count c_history_records_pushed_update st)"
  by (simp_all add: quiet_def)

definition acquired :: "queue_sample \<Rightarrow> store \<Rightarrow> bool \<times> queue_state \<times> store \<Rightarrow> bool" where
  "acquired m st r = (case r of (created, q, st') \<Rightarrow>
     rest_inv 1 st' \<and> fillable (qs_queue m) st' \<and> shape_ok (st_history_limits st') (qs_queue m) q \<and>
     st_policy st' = st_policy st \<and> st_history_limits st' = st_history_limits st \<and>
     st_sources st' = st_sources st \<and> st_recovered_mode st' = st_recovered_mode st \<and>
     st_next_incarnation_ordinal st' = st_next_incarnation_ordinal st)"

lemma admit_queue_ok:
  assumes inv: "rest_inv 1 st" "queues_ok st"
  shows "case admit_queue m r st of Inl a \<Rightarrow> settles st a | Inr x \<Rightarrow> acquired m st x"
proof -
  let ?k = "qs_queue m" and ?h = "st_history_limits st"
  have qi: "queues_inv (st_policy st) ?h (st_record_size st) (st_history_bytes st) (st_queues st)"
    using inv(2) by (simp add: queues_ok_def queue_part_def)
  have rej: "settles st (reject_sample m RejectedLimit code reason r st)" for code reason
    using inv(1) by (intro reject_settles) simp_all
  show ?thesis
  proof (cases "om_find (st_queues st) ?k")
    case (Some q)
    have "queue_ok (st_policy st) ?h ?k q" using queue_found_ok [OF inv(2) Some] .
    then have "acquired m st (False, q, st)"
      using inv(1) queues_inv_replace [OF qi] Some
      by (auto simp: acquired_def fillable_def queue_part_def queue_ok_shape)
    then show ?thesis by (simp add: admit_queue_def acquire_queue_def Some)
  next
    case None
    show ?thesis
    proof (cases "add_u64 (st_history_bytes st) (per_queue_bytes st)")
      case None': None
      then show ?thesis using rej by (simp add: admit_queue_def None Let_def)
    next
      case Some: (Some b)
      have pos: "0 < max_sources ?h" "0 < max_samples_per_queue ?h"
        using inv(1) validate_history_limits_ok [of ?h]
        by (auto simp: rest_inv_def configured_def configuration_status_def)
      let ?q = "(new_queue_state ?k)\<lparr>q_history := ring_reserve (max_samples_per_queue ?h)\<rparr>"
      let ?st = "st\<lparr>st_queues := om_put ?k ?q (st_queues st), st_history_bytes := b\<rparr>"
      have acq: "acquire_queue ?k st = (True, ?q, ?st)"
        by (simp add: acquire_queue_def None Some Let_def)
      have fill: "fillable ?k ?st"
        if "om_size (st_queues st) < max_queues ?h" "b \<le> max_history_bytes ?h"
        using queues_inv_extend [OF qi _ None] that Some
        by (auto simp: fillable_def queue_part_def om_put_put per_queue_bytes_def)
      have "rest_inv 1 ?st" using inv(1) by simp
      moreover have "shape_ok ?h ?k (?q\<lparr>q_latest := l\<rparr>)" for l
        by (simp add: shape_ok_def new_queue_state_def)
      ultimately have "acquired m st (True, ?q\<lparr>q_latest := l\<rparr>, record_event kind sev x k d ?st)"
        if "om_size (st_queues st) < max_queues ?h" "b \<le> max_history_bytes ?h" for l kind sev x k d
        using fill [OF that] by (simp add: acquired_def fillable_part [of "record_event kind sev x k d ?st" ?st])
      then show ?thesis
        using rej by (simp add: admit_queue_def None Some acq Let_def not_le not_less)
    qed
  qed
qed

section \<open>Working on the queue\<close>

lemma resolve_classes_quiet:
  "resolve_classes m q st = (d, q', st') \<Longrightarrow> quiet st st' \<and> queue_shape q' = queue_shape q"
  by (auto simp: resolve_classes_def Let_def queue_shape_def split: if_splits)

lemma assess_quiet: "assess m s d st = (a, st') \<Longrightarrow> quiet st st'"
  by (auto simp: assess_def Let_def split: prod.splits) (metis quiet_read_clock snd_conv)+

lemma count_continuity_quiet: "quiet st (count_continuity u m f st)"
  by (simp add: count_continuity_def Let_def split: counter_continuity.splits)

lemma step_counter_quiet:
  assumes "step_counter m (ds, q, st) f = (ds', q', st')"
  shows "quiet st st' \<and> queue_shape q' = queue_shape q"
  using assms
  by (auto simp: step_counter_def queue_shape_def count_continuity_quiet split: if_splits prod.splits)

lemma steps_quiet:
  assumes "foldl (step_counter m) (ds, q, st) fs = (ds', q', st')"
  shows "quiet st st' \<and> queue_shape q' = queue_shape q"
  using assms
proof (induction fs arbitrary: ds q st)
  case (Cons f fs)
  obtain ds1 q1 st1 where one: "step_counter m (ds, q, st) f = (ds1, q1, st1)"
    by (cases "step_counter m (ds, q, st) f")
  then show ?case
    using Cons.IH [of ds1 q1 st1] Cons.prems step_counter_quiet [OF one] quiet_trans by auto
qed simp

lemma update_counters_quiet:
  "update_counters m q st = (ds, q', st') \<Longrightarrow> quiet st st' \<and> queue_shape q' = queue_shape q"
  unfolding update_counters_def by (drule steps_quiet) (simp add: queue_shape_def)

lemma length_deactivate_last [simp]: "length (deactivate_last k cs) = length cs"
  by (induction cs) auto

lemma quiet_conflicts:
  assumes "rest_inv 1 st \<longrightarrow> length cs \<le> max_conflicts (st_history_limits st)"
  shows "quiet st ((count c_conflicts_detected_update st)\<lparr>st_conflicts := cs\<rparr>)"
    "quiet st ((count c_conflicts_cleared_update st)\<lparr>st_conflicts := cs\<rparr>)"
  using assms by (auto simp: quiet_def rest_inv_def queue_part_def configured_def totals_def)

lemma detect_conflict_quiet:
  assumes "detect_conflict m s q r st = (q', r', st')"
  shows "quiet st st' \<and> queue_shape q' = queue_shape q"
proof -
  have pos: "rest_inv 1 st \<Longrightarrow> 0 < max_conflicts (st_history_limits st)"
    using validate_history_limits_ok [of "st_history_limits st"]
    by (auto simp: rest_inv_def configured_def configuration_status_def)
  let ?kept = "if length (st_conflicts st) \<ge> max_conflicts (st_history_limits st)
    then tl (st_conflicts st) else st_conflicts st"
  have "quiet st ((count c_conflicts_detected_update st)\<lparr>st_conflicts := ?kept @ [c]\<rparr>)" for c
    using pos by (intro quiet_conflicts) (auto simp: rest_inv_def)
  moreover have "quiet st ((count c_conflicts_cleared_update st)
      \<lparr>st_conflicts := deactivate_last (q_queue q) (st_conflicts st)\<rparr>)"
    by (intro quiet_conflicts) (auto simp: rest_inv_def)
  ultimately show ?thesis
    using assms
    by (auto simp: detect_conflict_def Let_def queue_shape_def split: if_splits option.splits prod.splits
        intro: quiet_trans [OF _ quiet_record])
qed

lemma classify_sample_quiet:
  assumes "classify_sample m a ds q r st = (c, q', r', st')"
  shows "quiet st st' \<and> queue_shape q' = queue_shape q \<and>
    q_latest q' = classify (st_policy st) (q_last_input q') \<and> c = q_latest q'"
  using assms by (auto simp: classify_sample_def Let_def queue_shape_def)

lemma push_history_quiet:
  assumes "push_history m rec q st = (q', st')"
  shows "quiet st st' \<and> q_queue q' = q_queue q \<and> q_peers q' = q_peers q \<and>
    q_history q' = ring_push (q_history q) rec \<and>
    q_latest q' = q_latest q \<and> q_last_input q' = q_last_input q"
proof -
  have "quiet st (record_event k s x p d
      ((count c_history_records_pushed_update st)\<lparr>st_counters := (st_counters
         (count c_history_records_pushed_update st))\<lparr>c_history_records_evicted := v\<rparr>\<rparr>))" for k s x p d v
    by (intro quiet_trans [OF _ quiet_record])
      (auto simp: quiet_def rest_inv_def queue_part_def configured_def totals_def)
  then show ?thesis using assms by (auto simp: push_history_def Let_def)
qed

lemma replace_peer_shape [simp]:
  "length (replace_peer p ps) = length ps"
  "map po_source (replace_peer p ps) = map po_source ps"
  by (induction ps) auto

lemma update_peers_shape:
  assumes "length ps \<le> n" "0 < n" "distinct (map po_source ps)"
  shows "length (update_peers n p ps) \<le> n" "distinct (map po_source (update_peers n p ps))"
proof -
  show "length (update_peers n p ps) \<le> n"
    using assms by (auto simp: update_peers_def)
  have "distinct (map po_source (tl ps))"
    using assms(3) by (metis distinct_tl map_tl)
  then show "distinct (map po_source (update_peers n p ps))"
    using assms by (auto simp: update_peers_def dest: list.set_sel(2) [rotated])
qed

lemma shape_ok_push:
  assumes "shape_ok h k q" "q_queue q' = q_queue q" "q_history q' = ring_push (q_history q) rec"
    "q_peers q' = update_peers (max_sources h) p (q_peers q)" "0 < max_sources h"
  shows "shape_ok h k q'"
  using assms update_peers_shape [of "q_peers q" "max_sources h" p]
    history.invar_push [of "q_history q" rec] history.capacity_push [of "q_history q" rec]
  by (simp add: shape_ok_def)

lemma assess_recovered:
  "assess m s d st = (a, st') \<Longrightarrow> st_recovered_mode st \<Longrightarrow> ea_freshness a \<noteq> F_Fresh"
  by (auto simp: assess_def assess_provenance_def Let_def split: prod.splits if_splits)

lemma classify_sample_assessment:
  "classify_sample m a ds q r st = (c, q', r', st') \<Longrightarrow> ci_assessment (q_last_input q') = a"
  by (auto simp: classify_sample_def sample_input_def Let_def)

text \<open>What the tail does, as one update of the queue and one of the source.\<close>

lemma ingest_tail_cases:
  obtains st6 q6 r6 a ds c where
    "quiet st st6"
    "ingest_tail m oc s q r st =
       (success, r6, count c_samples_accepted_update
          (put_source m (s\<lparr>s_accepted := s_accepted s + 1\<rparr>)
            (st6\<lparr>st_queues := om_put (qs_queue m) q6 (st_queues st6)\<rparr>)))"
    "ar_outcome r6 = oc" "ar_accepted r6" "ar_classification r6 = q_latest q6"
    "q_latest q6 = classify (st_policy st) (q_last_input q6)"
    "q_queue q6 = q_queue q"
    "q_history q6 = ring_push (q_history q) (history_record_of m s a ds c)" "c = q_latest q6"
    "q_peers q6 = update_peers (max_sources (st_history_limits st)) (peer_of m s) (q_peers q)"
    "ci_assessment (q_last_input q6) = a" "st_recovered_mode st \<longrightarrow> ea_freshness a \<noteq> F_Fresh"
proof -
  obtain d q1 st1 where 1: "resolve_classes m q st = (d, q1, st1)"
    by (cases "resolve_classes m q st")
  obtain a st2 where 2: "assess m s d st1 = (a, st2)" by (cases "assess m s d st1")
  obtain ds q3 st3 where 3: "update_counters m q1 st2 = (ds, q3, st3)"
    by (cases "update_counters m q1 st2")
  obtain q4 r4 st4 where 4: "detect_conflict m s q3 r st3 = (q4, r4, st4)"
    by (cases "detect_conflict m s q3 r st3")
  obtain c q5 r5 st5 where 5: "classify_sample m a ds q4 r4 st4 = (c, q5, r5, st5)"
    by (cases "classify_sample m a ds q4 r4 st4")
  let ?rec = "history_record_of m s a ds c"
  obtain q6 st6 where 6: "push_history m ?rec q5 st5 = (q6, st6)"
    by (cases "push_history m ?rec q5 st5")
  note steps = resolve_classes_quiet [OF 1] assess_quiet [OF 2] update_counters_quiet [OF 3]
    detect_conflict_quiet [OF 4] classify_sample_quiet [OF 5] push_history_quiet [OF 6]
  have quiet: "quiet st st6" "quiet st st4" "quiet st st1"
    using steps quiet_trans by meson+
  then have same: "st_policy st4 = st_policy st" "st_history_limits st6 = st_history_limits st"
    "st_recovered_mode st1 = st_recovered_mode st"
    by (simp_all add: quiet_def queue_part_def)
  have shape: "queue_shape q5 = queue_shape q" using steps by metis
  let ?q = "q6\<lparr>q_peers := update_peers (max_sources (st_history_limits st)) (peer_of m s) (q_peers q6)\<rparr>"
  let ?r = "r5\<lparr>ar_outcome := oc, ar_accepted := True, ar_classification := c\<rparr>"
  have tail: "ingest_tail m oc s q r st =
       (success, ?r, count c_samples_accepted_update
          (put_source m (s\<lparr>s_accepted := s_accepted s + 1\<rparr>)
            (st6\<lparr>st_queues := om_put (qs_queue m) ?q (st_queues st6)\<rparr>)))"
    using same(2) by (simp add: ingest_tail_def 1 2 3 4 5 6 Let_def)
  show thesis
    by (rule that [of st6 ?r ?q a ds c, OF quiet(1) tail])
      (use steps same shape classify_sample_assessment [OF 5] assess_recovered [OF 2]
        in \<open>simp_all add: queue_shape_def\<close>)
qed

lemma ingest_tail_inv:
  assumes q: "rest_inv 1 st" "fillable (qs_queue m) st" "shape_ok (st_history_limits st) (qs_queue m) q"
    and s: "om_find (st_sources st) (qs_source m) = Some s"
  shows "store_inv 0 (answer_store (ingest_tail m oc s q r st))"
proof -
  obtain st6 q6 r6 a ds c where tail:
    "quiet st st6"
    "ingest_tail m oc s q r st =
       (success, r6, count c_samples_accepted_update
          (put_source m (s\<lparr>s_accepted := s_accepted s + 1\<rparr>)
            (st6\<lparr>st_queues := om_put (qs_queue m) q6 (st_queues st6)\<rparr>)))"
    "q_latest q6 = classify (st_policy st) (q_last_input q6)" "q_queue q6 = q_queue q"
    "q_history q6 = ring_push (q_history q) (history_record_of m s a ds c)"
    "q_peers q6 = update_peers (max_sources (st_history_limits st)) (peer_of m s) (q_peers q)"
    by (rule ingest_tail_cases)
  let ?st7 = "st6\<lparr>st_queues := om_put (qs_queue m) q6 (st_queues st6)\<rparr>"
  have pos: "0 < max_sources (st_history_limits st)"
    using q(1) validate_history_limits_ok [of "st_history_limits st"]
    by (auto simp: rest_inv_def configured_def configuration_status_def)
  have "shape_ok (st_history_limits st) (qs_queue m) q6"
    by (rule shape_ok_push [OF q(3) tail(4-6) pos])
  then have "queue_ok (st_policy st) (st_history_limits st) (qs_queue m) q6"
    using tail(3) by (simp add: queue_ok_shape)
  then have filled: "queues_ok ?st7"
    using q(2) tail(1) by (simp add: quiet_def fillable_def queues_ok_def queue_part_def)
  have rest: "rest_inv 1 st6" and src: "om_find (st_sources st6) (qs_source m) = Some s"
    using tail(1) q(1) s by (simp_all add: quiet_def)
  have "rest_inv 1 (put_source m (s\<lparr>s_accepted := s_accepted s + 1\<rparr>) ?st7)"
    by (rule rest_inv_put_source) (use rest src source_ok_find [OF rest src] in simp_all)
  then show ?thesis
    using filled queues_ok_part [of "answer_store (ingest_tail m oc s q r st)" ?st7]
    by (simp add: tail(2) answer_store_def store_inv_parts)
qed

section \<open>The handler keeps the invariant\<close>

lemma present_sample_inv:
  assumes "store_inv 0 st" "present_sample m st = (m', st')"
  shows "rest_inv 1 st'" "queues_ok st'"
    "st_sources st' = st_sources st \<and> st_recovered_mode st' = st_recovered_mode st \<and>
     queue_part st' = queue_part st \<and> qs_queue m' = qs_queue m \<and> qs_source m' = qs_source m \<and>
     qs_sequence m' = qs_sequence m"
proof -
  have "st' = count c_samples_presented_update st \<or>
      st' = snd (read_clock (count c_samples_presented_update st))"
    using assms(2) by (auto simp: present_sample_def Let_def split: if_splits prod.splits)
  then show "rest_inv 1 st'" "queues_ok st'"
    using assms(1) by (auto simp: store_inv_parts queues_ok_def)
  show "st_sources st' = st_sources st \<and> st_recovered_mode st' = st_recovered_mode st \<and>
     queue_part st' = queue_part st \<and> qs_queue m' = qs_queue m \<and> qs_source m' = qs_source m \<and>
     qs_sequence m' = qs_sequence m"
    using assms(2) by (auto simp: present_sample_def Let_def read_clock_def queue_part_def split: if_splits)
qed

lemma validate_sample_settles:
  assumes "rest_inv 1 st" "validate_sample m r st = Some a"
  shows "settles st a"
  using assms
  by (auto simp: validate_sample_def Let_def simp del: fun_upd_apply split: if_splits intro: reject_settles)

lemma settles_before:
  assumes "settles st1 a" "queue_part st1 = queue_part st" "sources_le (st_sources st) (st_sources st1)"
  shows "settles st a"
  using assms sources_le_trans [OF assms(3)] by (auto simp: settles_def)

text \<open>Every run of the handler either settles the sample without touching a queue, or reaches
  the tail with its source and queue acquired.\<close>

lemma ingest_locked_cases:
  assumes inv: "store_inv 0 st"
  obtains (refused) "settles st (ingest_locked m r st)"
  | (admitted) m1 st1 oc s st2 s3 st3 created q st4 where
      "present_sample m st = (m1, st1)"
      "admit_source m1 (r\<lparr>ar_queue := qs_queue m\<rparr>) st1 = Inr (oc, s, st2)"
      "touch_source m1 s st2 = (s3, st3)" "carries m1 st (oc, s3, st3)"
      "acquired m1 st3 (created, q, st4)"
      "admit_queue m1 (r\<lparr>ar_queue := qs_queue m\<rparr>) st3 = Inr (created, q, st4)"
      "ingest_locked m r st =
         ingest_tail m1 oc s3 q (r\<lparr>ar_queue := qs_queue m, ar_queue_created := created\<rparr>) st4"
proof -
  obtain m1 st1 where p: "present_sample m st = (m1, st1)" by (cases "present_sample m st")
  note st1 = present_sample_inv [OF inv p]
  have st: "queue_part st1 = queue_part st" "sources_le (st_sources st) (st_sources st1)"
    using st1(3) by simp_all
  let ?r = "r\<lparr>ar_queue := qs_queue m\<rparr>"
  show thesis
  proof (cases "validate_sample m1 ?r st1")
    case (Some a)
    then show thesis
      using refused settles_before [OF validate_sample_settles [OF st1(1) Some] st]
      by (simp add: ingest_locked_def p)
  next
    case valid: None
    note adm = admit_source_ok [OF st1(1), of m1 ?r]
    show thesis
    proof (cases "admit_source m1 ?r st1")
      case (Inl a)
      then show thesis
        using refused adm settles_before [OF _ st] by (simp add: ingest_locked_def p valid stage_ok_def)
    next
      case inr: (Inr acc)
      obtain oc s st2 where acc: "acc = (oc, s, st2)" by (cases acc)
      obtain s3 st3 where t: "touch_source m1 s st2 = (s3, st3)" by (cases "touch_source m1 s st2")
      have c1: "carries m1 st1 (oc, s3, st3)"
        using adm inr acc touch_carries [of m1 st1 oc s st2] by (simp add: stage_ok_def t)
      then have c: "carries m1 st (oc, s3, st3)"
        using st sources_le_trans [OF st(2)] by (simp add: carries_def)
      then have st3: "rest_inv 1 st3" "queues_ok st3" "queue_part st3 = queue_part st"
          "sources_le (st_sources st) (st_sources st3)"
        using st1(2) st queues_ok_part [of st3 st1] by (simp_all add: carries_def)
      note q = admit_queue_ok [OF st3(1,2), of m1 ?r]
      show thesis
      proof (cases "admit_queue m1 ?r st3")
        case (Inl a)
        then show thesis
          using refused q settles_before [OF _ st3(3,4)] inr acc t
          by (simp add: ingest_locked_def p valid)
      next
        case in2: (Inr b)
        then show thesis
          using admitted p inr acc t c q by (cases b) (simp add: ingest_locked_def valid)
      qed
    qed
  qed
qed

lemma settles_inv: "settles st a \<Longrightarrow> queues_ok st \<Longrightarrow> store_inv 0 (answer_store a)"
  using queues_ok_part [of "answer_store a" st] by (simp add: settles_def store_inv_parts)

lemma ingest_locked_inv:
  assumes "store_inv 0 st"
  shows "store_inv 0 (answer_store (ingest_locked m r st))"
proof (cases rule: ingest_locked_cases [OF assms, of m r])
  case 1
  then show ?thesis using assms settles_inv by (simp add: store_inv_parts)
next
  case (2 m1 st1 oc s st2 s3 st3 created q st4)
  show ?thesis
    unfolding 2(7) by (rule ingest_tail_inv) (use 2(4,5) in \<open>auto simp: acquired_def carries_def\<close>)
qed

section \<open>Batches, imports and metadata keep the invariant\<close>

lemma ingest_inv: "store_inv 0 st \<Longrightarrow> store_inv 0 (answer_store (ingest m r st))"
  by (simp add: ingest_def ingest_locked_inv) (simp add: answer_store_def)

lemma ingest_locked_store:
  "store_inv 0 st \<Longrightarrow> ingest_locked m r st = (status, r', st') \<Longrightarrow> store_inv 0 st'"
  using ingest_locked_inv [of st m r] by (simp add: answer_store_def)

lemma ingest_loop_inv:
  "store_inv 0 st \<Longrightarrow> store_inv 0 (snd (snd (ingest_loop stop n i ms b st)))"
  by (induction stop n i ms b st rule: ingest_loop.induct)
    (auto split: prod.splits dest: ingest_locked_store)

lemma ingest_batch_inv: "store_inv 0 st \<Longrightarrow> store_inv 0 (snd (snd (ingest_batch ms stop st)))"
  by (simp add: ingest_batch_def ingest_loop_inv)

lemma store_inv_mode [simp]: "store_inv n (st\<lparr>st_recovered_mode := b\<rparr>) = store_inv n st"
  by (simp add: store_inv_def rest_inv_def configured_def)

lemma recover_loop_inv: "store_inv 0 st \<Longrightarrow> store_inv 0 (snd (recover_loop i ms b st))"
  by (induction i ms b st rule: recover_loop.induct)
    (auto split: prod.splits dest: ingest_locked_store)

lemma admit_recovered_inv: "store_inv 0 st \<Longrightarrow> store_inv 0 (snd (snd (admit_recovered ms st)))"
  using recover_loop_inv [of "st\<lparr>st_recovered_mode := True\<rparr>" 0 ms empty_batch]
  by (auto simp: admit_recovered_def split: prod.splits)

lemma store_inv_record_global [simp]:
  "store_inv n st \<Longrightarrow> store_inv n (record_event_global k s d st)"
  by (simp add: store_inv_def)

lemma store_inv_amend [simp]:
  "store_inv n st \<Longrightarrow> store_inv n (st\<lparr>st_events := event_log_amend f (st_events st)\<rparr>)"
  by (auto simp: store_inv_def rest_inv_def configured_def events_inv_amend)

lemma import_loop_inv: "store_inv 0 st \<Longrightarrow> store_inv 0 (snd (import_loop es n st))"
  by (induction es n st rule: import_loop.induct) (auto simp: Let_def)

lemma import_events_inv: "store_inv 0 st \<Longrightarrow> store_inv 0 (snd (snd (import_events es st)))"
  using import_loop_inv [of st es 0] by (auto simp: import_events_def split: prod.splits)

lemma store_inv_metadata [simp]:
  "store_inv n (st\<lparr>st_metadata := t, st_has_metadata := b\<rparr>) = store_inv n st"
  "store_inv n (count c_metadata_updates_update st) = store_inv n st"
  "store_inv n (count c_metadata_fenced_update st) = store_inv n st"
  by (simp_all add: store_inv_def) (simp add: rest_inv_def configured_def)

lemma apply_metadata_inv: "store_inv 0 st \<Longrightarrow> store_inv 0 (snd (snd (apply_metadata t st)))"
  by (simp add: apply_metadata_def Let_def)

section \<open>Reachable states\<close>

inductive store_step :: "store \<Rightarrow> store \<Rightarrow> bool" where
  step_ingest: "ingest m r st = (status, r', st') \<Longrightarrow> store_step st st'"
| step_batch: "ingest_batch ms stop st = (status, b, st') \<Longrightarrow> store_step st st'"
| step_recover: "admit_recovered ms st = (status, b, st') \<Longrightarrow> store_step st st'"
| step_import: "import_events es st = (status, n, st') \<Longrightarrow> store_step st st'"
| step_metadata: "apply_metadata t st = (status, a, st') \<Longrightarrow> store_step st st'"

inductive store_reachable :: "store \<Rightarrow> bool" where
  reach_new: "status_ok (configuration_status p h q) \<Longrightarrow> store_reachable (new_store p h q n clock)"
| reach_step: "store_reachable st \<Longrightarrow> store_step st st' \<Longrightarrow> store_reachable st'"

inductive_cases store_stepE: "store_step st st'"

lemma store_step_inv: "store_step st st' \<Longrightarrow> store_inv 0 st \<Longrightarrow> store_inv 0 st'"
  by (erule store_stepE)
    (metis answer_store_def snd_conv ingest_inv ingest_batch_inv admit_recovered_inv
      import_events_inv apply_metadata_inv)+

lemma new_store_inv:
  "status_ok (configuration_status p h q) \<Longrightarrow> store_inv 0 (new_store p h q n clock)"
  by (auto simp: new_store_def store_inv_def rest_inv_def configured_def sources_inv_def
      queues_inv_def events_inv_def totals_def zero_counters_def
      om_wf_def om_size_def om_entries_def)

lemma store_reachable_inv: "store_reachable st \<Longrightarrow> store_inv 0 st"
  by (induction rule: store_reachable.induct) (auto intro: new_store_inv store_step_inv)

end
