(* ===== verification/Store_Properties.thy ===== *)
theory Store_Properties
  imports Store_Invariants
begin

text \<open>
  What the store promises its callers: the bounds of every reachable state, the admission
  decision as a table over the source registry and the queue table, and what admission does
  to sources and queues. A small concrete store and sample instantiate the hypotheses.
\<close>

section \<open>A concrete store\<close>

definition sample_clock :: "nat \<Rightarrow> receive_time" where
  "sample_clock n = \<lparr>rt_steady = 1000 + int n, rt_wall = 0\<rparr>"

definition demo_store :: store where
  "demo_store =
     new_store default_pressure_policy default_history_limits default_query_limits 600 sample_clock"

definition demo_sample :: queue_sample where
  "demo_sample = empty_sample
     \<lparr>qs_queue := QueuePath ''leaf1'' ''eth0'' 3,
      qs_source := ''agent'', qs_incarnation := ''boot-1'', qs_sequence := 7, qs_generation := 2,
      qs_authority := A_Primary,
      qs_received := \<lparr>rt_steady = 900, rt_wall = 0\<rparr>,
      qs_reported := field_bit OccupancyCells\<rparr>"

lemma default_configuration_ok:
  "status_ok (configuration_status default_pressure_policy default_history_limits default_query_limits)"
  by (simp add: configuration_status_def default_limits_valid default_policy_valid)
    (simp add: evaluation_spec_of_def microburst_spec_of_def contention_spec_of_def
      validate_window_spec_def make_spec_def bucket_for_def bucket_count_of_def
      default_pressure_policy_def kEvaluationBuckets_def kContentionBuckets_def cdiv_nonneg
      u64_of_i64_def div_ceil_u64_def)

lemma demo_store_reachable: "store_reachable demo_store"
  unfolding demo_store_def by (rule reach_new [OF default_configuration_ok])

section \<open>The admission decision\<close>

text \<open>The decision of the handler as a table over the fields it reads: no state is threaded
  and nothing is written. The store that the decision reads is the one before the call.\<close>

definition sample_wellformed :: "queue_sample \<Rightarrow> bool" where
  "sample_wellformed m \<longleftrightarrow>
     queue_path_valid (qs_queue m) \<and> strong_name_valid (qs_source m) \<and>
     strong_name_valid (qs_incarnation m) \<and> strong_id_valid (qs_generation m) \<and>
     strong_id_valid (qs_sequence m) \<and> qs_reported m \<noteq> 0 \<and>
     (qs_declared m = 0 \<or> qs_reported m AND NOT (qs_declared m) = 0)"

definition source_room :: "store \<Rightarrow> bool" where
  "source_room st \<longleftrightarrow> om_size (st_sources st) < max_sources (st_history_limits st)"

definition queue_room :: "store \<Rightarrow> queue_path \<Rightarrow> bool" where
  "queue_room st k \<longleftrightarrow>
     om_find (st_queues st) k \<noteq> None \<or>
     om_size (st_queues st) < max_queues (st_history_limits st) \<and>
     (\<exists>n. add_u64 (st_history_bytes st) (per_queue_bytes st) = Some n \<and>
          n \<le> max_history_bytes (st_history_limits st))"

definition superseded :: "source_record \<Rightarrow> queue_sample \<Rightarrow> bool" where
  "superseded s m \<longleftrightarrow>
     s_incarnation s \<noteq> qs_incarnation m \<and>
     (\<exists>known. map_of (s_recent_incarnations s) (qs_incarnation m) = Some known \<and>
              known \<le> s_incarnation_ordinal s)"

definition source_decision :: "store \<Rightarrow> queue_sample \<Rightarrow> admission_outcome" where
  "source_decision st m =
     (case om_find (st_sources st) (qs_source m) of
        None \<Rightarrow> if source_room st then AcceptedNewSource else RejectedLimit
      | Some s \<Rightarrow>
          if superseded s m then FencedStaleIncarnation
          else if qs_generation m < s_generation s then FencedStaleGeneration
          else if qs_authority m < s_authority s then FencedAuthorityDowngrade
          else if s_incarnation s = qs_incarnation m \<and> qs_sequence m \<le> s_last_sequence s
          then FencedStaleSequence
          else if s_incarnation s \<noteq> qs_incarnation m then AcceptedNewIncarnation
          else if qs_generation m > s_generation s then AcceptedNewGeneration
          else Accepted)"

definition admission_decision :: "store \<Rightarrow> queue_sample \<Rightarrow> admission_outcome" where
  "admission_decision st m =
     (if \<not> sample_wellformed m then RejectedInvalid
      else let oc = source_decision st m
           in if outcome_admitted oc \<and> \<not> queue_room st (qs_queue m) then RejectedLimit else oc)"

lemma answer_reject [simp]:
  "answer_result (reject_sample m oc code reason r st) =
     r\<lparr>ar_outcome := oc, ar_accepted := False, ar_reason := reason\<rparr>"
  by (simp add: answer_result_def reject_sample_def)

lemma answer_fence [simp]:
  "answer_result (fence_sample m oc r st) =
     r\<lparr>ar_outcome := oc, ar_accepted := False, ar_reason := fence_reason oc\<rparr>"
  by (simp add: answer_result_def fence_sample_def Let_def)

lemma validate_sample_decision:
  "validate_sample m r st = None \<longleftrightarrow> sample_wellformed m"
  "validate_sample m r st = Some a \<Longrightarrow>
     ar_outcome (answer_result a) = RejectedInvalid \<and> \<not> ar_accepted (answer_result a)"
  by (auto simp: validate_sample_def sample_wellformed_def Let_def split: if_splits)

lemma register_source_established:
  "s_incarnation (fst (register_source m st)) = qs_incarnation m"
  "s_generation (fst (register_source m st)) = qs_generation m"
  "s_authority (fst (register_source m st)) = qs_authority m"
  by (simp_all add: register_source_def Let_def)

definition established :: "queue_sample \<Rightarrow> source_record \<Rightarrow> bool" where
  "established m s \<longleftrightarrow>
     s_incarnation s = qs_incarnation m \<and> s_generation s = qs_generation m \<and>
     s_authority s = qs_authority m"

text \<open>A stage decides \<open>oc\<close>: an early return answers with \<open>oc\<close>, which is not an admission; a
  continuation carries the admission \<open>oc\<close>.\<close>

definition decides :: "queue_sample \<Rightarrow> admission_outcome \<Rightarrow> admission + source_step \<Rightarrow> bool" where
  "decides m oc res = (case res of
     Inl a \<Rightarrow> ar_outcome (answer_result a) = oc \<and> \<not> outcome_admitted oc \<and>
       \<not> ar_accepted (answer_result a)
   | Inr (oc', s, st') \<Rightarrow> oc' = oc \<and> outcome_admitted oc \<and> established m s)"

lemma late_fences_decision:
  assumes "s_incarnation s = qs_incarnation m" "outcome_admitted oc"
  shows "decides m
    (if qs_generation m < s_generation s then FencedStaleGeneration
     else if qs_authority m < s_authority s then FencedAuthorityDowngrade
     else if qs_sequence m \<le> s_last_sequence s then FencedStaleSequence
     else if qs_generation m > s_generation s \<and> oc = Accepted then AcceptedNewGeneration else oc)
    (and_then (fence_generation m r (oc, s, st))
       (\<lambda>b. and_then (fence_authority m r b) (fence_sequence m r)))"
proof -
  consider "qs_generation m < s_generation s" | "qs_generation m = s_generation s"
    | "qs_generation m > s_generation s" by fastforce
  then show ?thesis
  proof cases
    case 1
    then show ?thesis by (simp add: decides_def and_then_def fence_generation_def)
  next
    case 2
    then show ?thesis
      using assms
      by (simp add: decides_def and_then_def fence_generation_def fence_authority_def
          fence_sequence_def established_def Let_def)
  next
    case 3
    then show ?thesis
      using assms
      by (simp add: decides_def and_then_def fence_generation_def fence_authority_def
          fence_sequence_def established_def Let_def)
  qed
qed

lemma fence_incarnation_decision:
  "superseded s m \<Longrightarrow>
     fence_incarnation m r (oc, s, st) = Inl (fence_sample m FencedStaleIncarnation r st)"
  "\<not> superseded s m \<Longrightarrow>
     fence_incarnation m r (oc, s, st) =
       (if s_incarnation s \<noteq> qs_incarnation m then Inr (switch_incarnation m s st)
        else Inr (oc, s, st))"
  by (auto simp: fence_incarnation_def superseded_def le_less split: option.splits)

lemma admit_source_decision:
  assumes "strong_id_valid (qs_sequence m)"
  shows "decides m (source_decision st m) (admit_source m r st)"
proof (cases "om_find (st_sources st) (qs_source m)")
  case None
  then show ?thesis
    using register_source_established [of m st]
    by (auto simp: admit_source_def source_decision_def source_room_def decides_def established_def
        split: prod.splits)
next
  case (Some s)
  have seq: "\<not> qs_sequence m \<le> 0" using assms by (simp add: strong_id_valid_def)
  have adm: "admit_source m r st = and_then (fence_incarnation m r (Accepted, s, st))
      (\<lambda>a. and_then (fence_generation m r a)
      (\<lambda>b. and_then (fence_authority m r b) (fence_sequence m r)))"
    by (simp add: admit_source_def Some)
  consider "superseded s m" | "\<not> superseded s m" "s_incarnation s = qs_incarnation m"
    | "\<not> superseded s m" "s_incarnation s \<noteq> qs_incarnation m" by blast
  then show ?thesis
  proof cases
    case 1
    then show ?thesis
      by (simp add: adm fence_incarnation_decision and_then_def decides_def source_decision_def Some)
  next
    case 2
    then show ?thesis
      using late_fences_decision [of s m Accepted r st]
      by (simp add: adm fence_incarnation_decision and_then_def [of "Inr _"] source_decision_def Some
          cong: if_cong split del: if_split)
  next
    case 3
    obtain s1 st1 where sw: "switch_incarnation m s st = (AcceptedNewIncarnation, s1, st1)"
      and s1: "s_incarnation s1 = qs_incarnation m" "s_generation s1 = s_generation s"
        "s_authority s1 = s_authority s" "s_last_sequence s1 = 0"
      by (simp add: switch_incarnation_def Let_def)
    show ?thesis
      using 3 seq s1 late_fences_decision [of s1 m AcceptedNewIncarnation r st1]
      by (simp add: adm fence_incarnation_decision sw and_then_def [of "Inr _"] source_decision_def Some
          cong: if_cong split del: if_split)
  qed
qed

lemma admit_queue_decision:
  "case admit_queue m r st of
     Inl a \<Rightarrow> \<not> queue_room st (qs_queue m) \<and> ar_outcome (answer_result a) = RejectedLimit \<and>
       \<not> ar_accepted (answer_result a)
   | Inr x \<Rightarrow> queue_room st (qs_queue m)"
  by (auto simp: admit_queue_def queue_room_def Let_def not_le not_less
      split: option.splits prod.splits if_splits sum.splits)

lemma ingest_tail_result:
  "status_ok (fst (ingest_tail m oc s q r st)) \<and>
   ar_outcome (answer_result (ingest_tail m oc s q r st)) = oc \<and>
   ar_accepted (answer_result (ingest_tail m oc s q r st))"
  by (simp add: ingest_tail_def answer_result_def Let_def split: prod.splits)

lemma present_decision:
  assumes "store_inv 0 st" "present_sample m st = (m1, st1)"
  shows "sample_wellformed m1 = sample_wellformed m" "source_decision st1 m1 = source_decision st m"
    "queue_room st1 (qs_queue m1) = queue_room st (qs_queue m)"
proof -
  note same = present_sample_inv(3) [OF assms]
  have m1: "qs_incarnation m1 = qs_incarnation m" "qs_generation m1 = qs_generation m"
    "qs_authority m1 = qs_authority m" "qs_reported m1 = qs_reported m" "qs_declared m1 = qs_declared m"
    using assms(2) by (auto simp: present_sample_def Let_def split: if_splits prod.splits)
  show "sample_wellformed m1 = sample_wellformed m" "source_decision st1 m1 = source_decision st m"
    "queue_room st1 (qs_queue m1) = queue_room st (qs_queue m)"
    using same m1
    by (simp_all add: sample_wellformed_def source_decision_def superseded_def source_room_def
        queue_room_def queue_part_def per_queue_bytes_def cong: if_cong option.case_cong)
qed

lemma ingest_locked_decision:
  assumes inv: "store_inv 0 st"
  shows "ar_outcome (answer_result (ingest_locked m r st)) = admission_decision st m \<and>
    ar_accepted (answer_result (ingest_locked m r st)) = outcome_admitted (admission_decision st m)"
proof -
  obtain m1 st1 where p: "present_sample m st = (m1, st1)" by (cases "present_sample m st")
  note st1 = present_sample_inv [OF inv p] and dec = present_decision [OF inv p]
  let ?r = "r\<lparr>ar_queue := qs_queue m\<rparr>"
  show ?thesis
  proof (cases "validate_sample m1 ?r st1")
    case (Some a)
    moreover have "\<not> sample_wellformed m1"
      using Some validate_sample_decision(1) [of m1 ?r st1] by simp
    ultimately show ?thesis
      using validate_sample_decision(2) [OF Some] dec
      by (simp add: ingest_locked_def p admission_decision_def)
  next
    case valid: None
    then have wf: "sample_wellformed m1" by (simp add: validate_sample_decision)
    then have adm: "decides m1 (source_decision st1 m1) (admit_source m1 ?r st1)"
      by (intro admit_source_decision) (simp add: sample_wellformed_def)
    show ?thesis
    proof (cases "admit_source m1 ?r st1")
      case (Inl a)
      then show ?thesis
        using adm wf dec by (simp add: ingest_locked_def p valid decides_def admission_decision_def)
    next
      case inr: (Inr acc)
      obtain oc s st2 where acc: "acc = (oc, s, st2)" by (cases acc)
      have oc: "oc = source_decision st m" "outcome_admitted oc"
        using adm inr acc dec by (simp_all add: decides_def)
      obtain s3 st3 where t: "touch_source m1 s st2 = (s3, st3)" by (cases "touch_source m1 s st2")
      have "carries m1 st1 (oc, s3, st3)"
        using admit_source_ok [OF st1(1), of m1 ?r] inr acc touch_carries [of m1 st1 oc s st2]
        by (simp add: stage_ok_def t)
      then have "queue_room st3 (qs_queue m1) = queue_room st (qs_queue m)"
        using dec(3) by (simp add: carries_def queue_room_def queue_part_def per_queue_bytes_def)
      then show ?thesis
        using admit_queue_decision [where m = m1 and r = ?r and st = st3] oc wf dec inr acc t
        by (cases "admit_queue m1 ?r st3")
          (auto simp: ingest_locked_def p valid admission_decision_def ingest_tail_result)
    qed
  qed
qed

text \<open>Fencing is an answer, not a failure: the status of a fenced sample is a success.\<close>

definition fence_answer :: "admission \<Rightarrow> bool" where
  "fence_answer a \<longleftrightarrow>
     status_ok (fst a) \<or> ar_outcome (answer_result a) \<in> {RejectedInvalid, RejectedLimit}"

lemma fence_answer_fence [simp]: "fence_answer (fence_sample m oc r st)"
  by (simp add: fence_answer_def) (simp add: fence_sample_def Let_def)

lemma fence_answer_reject [simp]:
  "oc \<in> {RejectedInvalid, RejectedLimit} \<Longrightarrow> fence_answer (reject_sample m oc code reason r st)"
  by (simp add: fence_answer_def)

lemma admit_source_answer: "admit_source m r st = Inl a \<Longrightarrow> fence_answer a"
  by (auto simp: admit_source_def and_then_def fence_incarnation_def fence_generation_def
      fence_authority_def fence_sequence_def Let_def switch_incarnation_def
      split: option.splits if_splits sum.splits prod.splits)

lemma ingest_locked_answer: "fence_answer (ingest_locked m r st)"
proof -
  have "validate_sample m1 r1 st1 = Some a \<Longrightarrow> fence_answer a" for m1 r1 st1 a
    using validate_sample_decision(2) by (simp add: fence_answer_def)
  moreover have "admit_queue m1 r1 st1 = Inl a \<Longrightarrow> fence_answer a" for m1 r1 st1 a
    using admit_queue_decision [where m = m1 and r = r1 and st = st1] by (simp add: fence_answer_def)
  moreover have "fence_answer (ingest_tail m1 oc s q r1 st1)" for m1 oc s q r1 st1
    using ingest_tail_result by (simp add: fence_answer_def)
  ultimately show ?thesis
    using admit_source_answer
    by (auto simp: ingest_locked_def Let_def split: prod.splits option.splits sum.splits)
qed

lemma fenced_status:
  assumes "store_inv 0 st" "ingest_locked m r st = (status, r', st')"
    "ar_outcome r' \<notin> {RejectedInvalid, RejectedLimit}"
  shows "status_ok status"
  using ingest_locked_answer [of m r st] assms(2,3) by (simp add: fence_answer_def answer_result_def)

section \<open>After an admission\<close>

lemma ingest_configured:
  assumes "store_inv 0 st"
  shows "ingest m r st = ingest_locked m r st"
proof -
  have "status_ok (st_config_status st)"
    using assms unfolding store_inv_def rest_inv_def configured_def by blast
  then show ?thesis by (simp add: ingest_def)
qed

lemma admitted_source:
  assumes inv: "store_inv 0 st" and acc: "ar_accepted (answer_result (ingest_locked m r st))"
  obtains s where "om_find (st_sources (answer_store (ingest_locked m r st))) (qs_source m) = Some s"
    "established m s" "s_last_sequence s = qs_sequence m"
proof (cases rule: ingest_locked_cases [OF inv, of m r])
  case 1
  then show ?thesis using acc by (simp add: settles_def)
next
  case (2 m1 st1 oc s st2 s3 st3 created q st4)
  note same = present_sample_inv(3) [OF inv 2(1)]
  have m1: "established m1 = established m"
    using 2(1) by (auto simp: present_sample_def Let_def established_def fun_eq_iff split: if_splits prod.splits)
  have "sample_wellformed m1"
    using 2(1,7) acc validate_sample_decision [of m1 "r\<lparr>ar_queue := qs_queue m\<rparr>" st1]
    by (cases "validate_sample m1 (r\<lparr>ar_queue := qs_queue m\<rparr>) st1")
      (auto simp: ingest_locked_def)
  then have "decides m1 (source_decision st1 m1) (admit_source m1 (r\<lparr>ar_queue := qs_queue m\<rparr>) st1)"
    by (intro admit_source_decision) (simp add: sample_wellformed_def)
  then have "established m1 s" using 2(2) by (simp add: decides_def)
  then have s3: "established m1 s3" "s_last_sequence s3 = qs_sequence m1"
    using 2(3) by (auto simp: touch_source_def Let_def established_def)
  obtain st6 q6 r6 a ds c where tail: "quiet st4 st6"
    "ingest_tail m1 oc s3 q (r\<lparr>ar_queue := qs_queue m, ar_queue_created := created\<rparr>) st4 =
       (success, r6, count c_samples_accepted_update
          (put_source m1 (s3\<lparr>s_accepted := s_accepted s3 + 1\<rparr>)
            (st6\<lparr>st_queues := om_put (qs_queue m1) q6 (st_queues st6)\<rparr>)))"
    by (rule ingest_tail_cases)
  have "om_wf (st_sources st6)"
    using tail(1) 2(5) rest_inv_wf [of 1 st6] by (simp add: quiet_def acquired_def)
  then show ?thesis
    using that [of "s3\<lparr>s_accepted := s_accepted s3 + 1\<rparr>"] same s3 m1 2(7) tail(2)
    by (simp add: answer_store_def om.find_put_same established_def)
qed

lemma replay_decision:
  assumes "sample_wellformed m" "om_find (st_sources st) (qs_source m) = Some s" "established m s"
    "s_last_sequence s = qs_sequence m"
  shows "admission_decision st m = FencedStaleSequence"
  using assms
  by (simp add: admission_decision_def source_decision_def superseded_def established_def)

lemma refused_queues:
  assumes "store_inv 0 st" "\<not> ar_accepted (answer_result (ingest_locked m r st))"
  shows "st_queues (answer_store (ingest_locked m r st)) = st_queues st \<and>
    st_history_bytes (answer_store (ingest_locked m r st)) = st_history_bytes st"
proof (cases rule: ingest_locked_cases [OF assms(1), of m r])
  case 1
  then show ?thesis by (simp add: settles_def queue_part_def)
next
  case (2 m1 st1 oc s st2 s3 st3 created q st4)
  then show ?thesis using assms(2) ingest_tail_result by (metis (no_types, lifting))
qed

section \<open>Steps of the store and its sources\<close>

lemma ingest_locked_grows:
  assumes inv: "store_inv 0 st"
  shows "sources_le (st_sources st) (st_sources (answer_store (ingest_locked m r st)))"
proof (cases rule: ingest_locked_cases [OF inv, of m r])
  case 1
  then show ?thesis by (simp add: settles_def)
next
  case (2 m1 st1 oc s st2 s3 st3 created q st4)
  obtain st6 q6 r6 a ds c where tail: "quiet st4 st6"
    "ingest_tail m1 oc s3 q (r\<lparr>ar_queue := qs_queue m, ar_queue_created := created\<rparr>) st4 =
       (success, r6, count c_samples_accepted_update
          (put_source m1 (s3\<lparr>s_accepted := s_accepted s3 + 1\<rparr>)
            (st6\<lparr>st_queues := om_put (qs_queue m1) q6 (st_queues st6)\<rparr>)))"
    by (rule ingest_tail_cases)
  have st6: "st_sources st6 = st_sources st3" "rest_inv 1 st3"
    "om_find (st_sources st3) (qs_source m1) = Some s3" "sources_le (st_sources st) (st_sources st3)"
    using tail(1) 2(4,5) by (simp_all add: quiet_def acquired_def carries_def)
  then have "sources_le (st_sources st)
      (om_put (qs_source m1) (s3\<lparr>s_accepted := s_accepted s3 + 1\<rparr>) (st_sources st3))"
    by (intro sources_le_put rest_inv_wf [OF st6(2)]) auto
  then show ?thesis using tail(2) st6(1) 2(7) by (simp add: answer_store_def)
qed

lemma ingest_loop_grows:
  "store_inv 0 st \<Longrightarrow> sources_le (st_sources st) (st_sources (snd (snd (ingest_loop stop n i ms b st))))"
proof (induction stop n i ms b st rule: ingest_loop.induct)
  case (2 stop n i m ms b st)
  then show ?case
    using ingest_locked_grows [OF 2(2), of m empty_admission] ingest_locked_inv [OF 2(2), of m empty_admission]
    by (auto simp: answer_store_def split: prod.splits intro: sources_le_trans)
qed simp

lemma recover_loop_grows:
  "store_inv 0 st \<Longrightarrow> sources_le (st_sources st) (st_sources (snd (recover_loop i ms b st)))"
proof (induction i ms b st rule: recover_loop.induct)
  case (2 i m ms b st)
  then show ?case
    using ingest_locked_grows [OF 2(2), of m empty_admission] ingest_locked_inv [OF 2(2), of m empty_admission]
    by (auto simp: answer_store_def split: prod.splits intro: sources_le_trans)
qed simp

lemma import_loop_sources: "st_sources (snd (import_loop es n st)) = st_sources st"
  by (induction es n st rule: import_loop.induct) (auto simp: Let_def)

lemma apply_metadata_sources: "st_sources (snd (snd (apply_metadata t st))) = st_sources st"
  by (simp add: apply_metadata_def Let_def)

lemma store_step_grows:
  assumes "store_step st st'" "store_inv 0 st"
  shows "sources_le (st_sources st) (st_sources st')"
  using assms(1)
proof cases
  case (step_ingest m r status r')
  then show ?thesis
    using ingest_locked_grows [OF assms(2), of m r] ingest_configured [OF assms(2), of m r]
    by (simp add: answer_store_def)
next
  case (step_batch ms stop status b)
  then show ?thesis
    using ingest_loop_grows [OF assms(2), of stop "length ms" 0 ms empty_batch]
    by (auto simp: ingest_batch_def split: if_splits)
next
  case (step_recover ms status b)
  have "store_inv 0 (st\<lparr>st_recovered_mode := True\<rparr>)" using assms(2) by simp
  then show ?thesis
    using step_recover recover_loop_grows [of "st\<lparr>st_recovered_mode := True\<rparr>" 0 ms empty_batch]
    by (auto simp: admit_recovered_def split: if_splits prod.splits)
next
  case (step_import es status n)
  then show ?thesis
    using import_loop_sources [of es 0 st] by (auto simp: import_events_def split: if_splits prod.splits)
next
  case (step_metadata t status a)
  then show ?thesis using apply_metadata_sources [of t st] by simp
qed

section \<open>Recovered evidence\<close>

text \<open>Queues whose verdict differs from \<open>m0\<close> are not live.\<close>

definition not_revived :: "(queue_path \<times> queue_state) list \<Rightarrow> (queue_path \<times> queue_state) list \<Rightarrow> bool" where
  "not_revived m0 m \<longleftrightarrow>
     (\<forall>k q. om_find m k = Some q \<longrightarrow>
        \<not> live_state (cr_state (q_latest q)) \<or>
        (\<exists>q0. om_find m0 k = Some q0 \<and> q_latest q0 = q_latest q))"

lemma acquired_queues:
  assumes "admit_queue m r st = Inr (created, q, st')"
  shows "\<forall>k. k \<noteq> qs_queue m \<longrightarrow> om_wf (st_queues st) \<longrightarrow> om_find (st_queues st') k = om_find (st_queues st) k"
  using assms
  by (auto simp: admit_queue_def acquire_queue_def Let_def om.find_put split: if_splits option.splits prod.splits)

lemma acquired_wf:
  assumes "admit_queue m r st = Inr (created, q, st')" "om_wf (st_queues st)"
  shows "om_wf (st_queues st')"
  using assms
  by (auto simp: admit_queue_def acquire_queue_def Let_def om.wf_put split: if_splits option.splits prod.splits)

lemma recovered_not_live:
  assumes "ea_freshness (ci_assessment i) \<noteq> F_Fresh"
  shows "\<not> live_state (cr_state (classify p i))"
  using assms live_state_evidence by blast

lemma queues_wf: "store_inv n st \<Longrightarrow> om_wf (st_queues st)"
  by (simp add: store_inv_def queues_inv_def)

lemma recovered_ingest:
  assumes inv: "store_inv 0 st" and mode: "st_recovered_mode st"
    and m0: "not_revived m0 (st_queues st)"
  shows "not_revived m0 (st_queues (answer_store (ingest_locked m r st))) \<and>
    st_recovered_mode (answer_store (ingest_locked m r st))"
proof (cases rule: ingest_locked_cases [OF inv, of m r])
  case 1
  then show ?thesis using m0 mode by (simp add: settles_def queue_part_def)
next
  case (2 m1 st1 oc s st2 s3 st3 created q st4)
  obtain st6 q6 r6 a ds c where tail: "quiet st4 st6"
    "ingest_tail m1 oc s3 q (r\<lparr>ar_queue := qs_queue m, ar_queue_created := created\<rparr>) st4 =
       (success, r6, count c_samples_accepted_update
          (put_source m1 (s3\<lparr>s_accepted := s_accepted s3 + 1\<rparr>)
            (st6\<lparr>st_queues := om_put (qs_queue m1) q6 (st_queues st6)\<rparr>)))"
    "q_latest q6 = classify (st_policy st4) (q_last_input q6)"
    "ci_assessment (q_last_input q6) = a" "st_recovered_mode st4 \<longrightarrow> ea_freshness a \<noteq> F_Fresh"
    by (rule ingest_tail_cases)
  have st3: "st_queues st3 = st_queues st" "st_recovered_mode st3"
    using 2(4) mode by (simp_all add: carries_def queue_part_def)
  have mode6: "st_recovered_mode st4" "st_recovered_mode st6" "st_queues st6 = st_queues st4"
    using 2(5) st3 tail(1) by (simp_all add: acquired_def quiet_def queue_part_def)
  have wf: "om_wf (st_queues st3)" "om_wf (st_queues st4)"
    using queues_wf [OF inv] st3(1) acquired_wf [OF 2(6)] by simp_all
  have "\<not> live_state (cr_state (q_latest q6))"
    using tail(3-5) mode6 recovered_not_live by simp
  then have "not_revived m0 (om_put (qs_queue m1) q6 (st_queues st4))"
    using m0 acquired_queues [OF 2(6)] wf st3(1)
    by (auto simp: not_revived_def om.find_put)
  then show ?thesis using tail(2) mode6 2(7) by (simp add: answer_store_def)
qed

lemma recovered_loop:
  "store_inv 0 st \<Longrightarrow> st_recovered_mode st \<Longrightarrow> not_revived m0 (st_queues st) \<Longrightarrow>
   not_revived m0 (st_queues (snd (recover_loop i ms b st)))"
proof (induction i ms b st rule: recover_loop.induct)
  case (2 i m ms b st)
  then show ?case
    using recovered_ingest [OF 2(2,3,4), of m empty_admission]
      ingest_locked_inv [OF 2(2), of m empty_admission]
    by (auto simp: answer_store_def split: prod.splits)
qed simp

section \<open>Batches\<close>

definition batch_balanced :: "nat \<Rightarrow> batch_admission \<Rightarrow> bool" where
  "batch_balanced n b \<longleftrightarrow>
     ba_presented b = n \<and> ba_presented b = ba_accepted b + ba_rejected b + ba_fenced b \<and>
     ba_duplicates b \<le> ba_fenced b \<and> length (ba_failures b) \<le> kMaxFailureDetails"

lemma note_failure_balanced [simp]:
  "ba_presented (note_failure i s r b) = ba_presented b"
  "ba_accepted (note_failure i s r b) = ba_accepted b"
  "ba_rejected (note_failure i s r b) = ba_rejected b"
  "ba_fenced (note_failure i s r b) = ba_fenced b"
  "ba_duplicates (note_failure i s r b) = ba_duplicates b"
  "length (ba_failures b) \<le> kMaxFailureDetails \<Longrightarrow>
     length (ba_failures (note_failure i s r b)) \<le> kMaxFailureDetails"
  by (simp_all add: note_failure_def)

lemma tally_batch_balanced: "batch_balanced n b \<Longrightarrow> batch_balanced (Suc n) (tally_batch i s r b)"
  by (simp add: batch_balanced_def tally_batch_def Let_def)

lemma ingest_loop_balanced:
  assumes "batch_balanced i b" "ingest_loop stop n i ms b st = (status, b', st')"
  shows "\<exists>k. batch_balanced k b' \<and> i \<le> k \<and> k \<le> i + length ms \<and>
    (status_ok status \<longleftrightarrow> k = i + length ms) \<and> (status_ok status \<or> stop k)"
  using assms
proof (induction stop n i ms b st rule: ingest_loop.induct)
  case (2 stop n i m ms b st)
  show ?case
  proof (cases "stop i")
    case True
    then show ?thesis using 2(2,3) by auto
  next
    case False
    obtain s r st1 where one: "ingest_locked m empty_admission st = (s, r, st1)"
      by (cases "ingest_locked m empty_admission st")
    then show ?thesis
      using 2(1) [OF False one [symmetric] refl tally_batch_balanced [OF 2(2)]] 2(3) False by auto
  qed
qed auto

section \<open>Windows the constructor refuses\<close>

lemma bucket_for_eighth:
  assumes "8 \<le> d"
  shows "bucket_for d 8 = d div 8"
  using assms by (simp add: bucket_for_def cdiv_nonneg Let_def)

lemma unat_u64_of_i64: "0 \<le> d \<Longrightarrow> d \<le> i64_max \<Longrightarrow> unat (u64_of_i64 d) = nat d"
  by (simp add: u64_of_i64_def i64_max_def unsigned_of_int nat_take_bit_eq take_bit_nat_eq_self)

lemma eighth_bucket_count:
  assumes d: "8 \<le> d" "d \<le> i64_max" and m: "d mod 8 \<noteq> 0"
  shows "\<exists>n. div_ceil_u64 (u64_of_i64 d) (u64_of_i64 (d div 8)) = Some n \<and> 8 < unat n"
proof -
  define b where "b = nat (d div 8)"
  have d8: "0 \<le> d div 8" "d div 8 \<le> i64_max" "1 \<le> d div 8" using d by (simp_all add: i64_max_def)
  then have b: "unat (u64_of_i64 (d div 8)) = b" "1 \<le> b"
    by (simp_all add: unat_u64_of_i64 b_def)
  then have nz: "u64_of_i64 (d div 8) \<noteq> 0" by auto
  have ub: "unat (u64_of_i64 d) = nat d" using d by (simp add: unat_u64_of_i64)
  have "8 * (d div 8) < d" using m by presburger
  then have "8 * b < nat d" using d8 by (simp add: b_def nat_less_iff)
  then have "9 * b \<le> nat d + b - 1" by simp
  then have "9 \<le> (nat d + b - 1) div b"
    using b(2) div_le_mono [of "9 * b" "nat d + b - 1" b] by simp
  then show ?thesis
    using div_ceil_u64_Some [OF nz, of "u64_of_i64 d"] by (auto simp: b(1) ub)
qed

lemma eighth_window_refused:
  assumes "8 \<le> d" "d \<le> i64_max" "d mod 8 \<noteq> 0"
  shows "\<not> status_ok (validate_window_spec (make_spec name d (bucket_for d 8) c 8))"
  using eighth_bucket_count [OF assms] bucket_for_eighth [OF assms(1)]
  by (auto simp: validate_window_spec_def bucket_count_of_def make_spec_def)

lemma admitted_queue:
  assumes inv: "store_inv 0 st" and acc: "ar_accepted (answer_result (ingest_locked m r st))"
  obtains q where "om_find (st_queues (answer_store (ingest_locked m r st))) (qs_queue m) = Some q"
    "ar_classification (answer_result (ingest_locked m r st)) = q_latest q"
proof (cases rule: ingest_locked_cases [OF inv, of m r])
  case 1
  then show ?thesis using acc by (simp add: settles_def)
next
  case (2 m1 st1 oc s st2 s3 st3 created q st4)
  obtain st6 q6 r6 where tail: "quiet st4 st6"
    "ingest_tail m1 oc s3 q (r\<lparr>ar_queue := qs_queue m, ar_queue_created := created\<rparr>) st4 =
       (success, r6, count c_samples_accepted_update
          (put_source m1 (s3\<lparr>s_accepted := s_accepted s3 + 1\<rparr>)
            (st6\<lparr>st_queues := om_put (qs_queue m1) q6 (st_queues st6)\<rparr>)))"
    "ar_classification r6 = q_latest q6"
    by (rule ingest_tail_cases)
  have "om_wf (st_queues st3)" using 2(4) queues_wf [OF inv] by (simp add: carries_def queue_part_def)
  then have "om_wf (st_queues st6)"
    using tail(1) acquired_wf [OF 2(6)] by (simp add: quiet_def queue_part_def)
  then show ?thesis
    using that [of q6] tail(2,3) 2(7) present_sample_inv(3) [OF inv 2(1)]
    by (simp add: answer_store_def answer_result_def om.find_put_same)
qed

lemma displaced_source:
  assumes inv: "store_inv 0 st" and s: "om_find (st_sources st) (qs_source m) = Some s"
    and m: "sample_wellformed m" "map_of (s_recent_incarnations s) (qs_incarnation m) = None"
      "qs_generation m < s_generation s" "s_incarnation s \<noteq> qs_incarnation m"
  obtains s' where "om_find (st_sources (answer_store (ingest_locked m r st))) (qs_source m) = Some s'"
    "s_incarnation s' = qs_incarnation m" "s_incarnation_ordinal s' = st_next_incarnation_ordinal st"
    "s_recent_incarnations s' = take kMaxRecentIncarnations
       ((qs_incarnation m, st_next_incarnation_ordinal st) # s_recent_incarnations s)"
proof -
  obtain m1 st1 where p: "present_sample m st = (m1, st1)" by (cases "present_sample m st")
  note st1 = present_sample_inv [OF inv p]
  have m1: "qs_incarnation m1 = qs_incarnation m" "qs_generation m1 = qs_generation m"
      "st_next_incarnation_ordinal st1 = st_next_incarnation_ordinal st"
    using p by (auto simp: present_sample_def Let_def read_clock_def split: if_splits)
  let ?r = "r\<lparr>ar_queue := qs_queue m\<rparr>"
  obtain s1 st2 where sw: "switch_incarnation m1 s st1 = (AcceptedNewIncarnation, s1, st2)"
    and s1: "s_generation s1 = s_generation s" "s_incarnation s1 = qs_incarnation m"
      "s_incarnation_ordinal s1 = st_next_incarnation_ordinal st"
      "s_recent_incarnations s1 = take kMaxRecentIncarnations
         ((qs_incarnation m, st_next_incarnation_ordinal st) # s_recent_incarnations s)"
      "st_sources st2 = om_put (qs_source m1) s1 (st_sources st1)"
    by (simp add: switch_incarnation_def Let_def m1)
  have "validate_sample m1 ?r st1 = None"
    using m(1) present_decision(1) [OF inv p] by (simp add: validate_sample_decision)
  moreover have "admit_source m1 ?r st1 = Inl (fence_sample m1 FencedStaleGeneration ?r st2)"
    using s m st1(3) m1 s1(1)
    by (simp add: admit_source_def fence_incarnation_def and_then_def sw fence_generation_def)
  ultimately have a: "ingest_locked m r st = fence_sample m1 FencedStaleGeneration ?r st2"
    by (simp add: ingest_locked_def p)
  have wf: "om_wf (st_sources st1)" using rest_inv_wf [OF st1(1)] .
  then have "om_find (st_sources (answer_store (ingest_locked m r st))) (qs_source m) =
      Some (s1\<lparr>s_fenced := s_fenced s1 + 1\<rparr>)"
    using fence_sample_store [of m1 FencedStaleGeneration ?r st2] st1(3) s1(5)
    by (auto simp: a om.find_put_same om.wf_put)
  then show thesis using that [of "s1\<lparr>s_fenced := s_fenced s1 + 1\<rparr>"] s1 by simp
qed

section \<open>The concrete store after one sample\<close>

lemma demo_sample_wellformed: "sample_wellformed demo_sample"
  by (simp add: sample_wellformed_def demo_sample_def empty_sample_def queue_path_valid_def
      strong_name_valid_def strong_id_valid_def field_bit_def)

lemma demo_store_empty:
  "st_sources demo_store = []" "st_queues demo_store = []" "st_history_bytes demo_store = 0"
  "st_history_limits demo_store = default_history_limits" "st_record_size demo_store = 600"
  "st_next_incarnation_ordinal demo_store = 1"
  by (simp_all add: demo_store_def new_store_def)

lemma demo_decision: "admission_decision demo_store demo_sample = AcceptedNewSource"
  by (simp add: admission_decision_def demo_sample_wellformed source_decision_def source_room_def
      queue_room_def demo_store_empty om_find_def om_size_def per_queue_bytes_def add_u64_def
      default_history_limits_def u64_max_def)

definition demo_next :: store where
  "demo_next = answer_store (ingest demo_sample empty_admission demo_store)"

lemma demo_next_reachable: "store_reachable demo_next"
  unfolding demo_next_def answer_store_def
  by (rule reach_step [OF demo_store_reachable])
    (metis prod.collapse step_ingest)

lemma demo_accepted: "ar_accepted (answer_result (ingest demo_sample empty_admission demo_store))"
  using ingest_locked_decision [OF store_reachable_inv [OF demo_store_reachable]] demo_decision
  by (simp add: ingest_configured [OF store_reachable_inv [OF demo_store_reachable]])

lemma demo_next_source:
  obtains s where "om_find (st_sources demo_next) ''agent'' = Some s" "s_incarnation s = ''boot-1''"
    "s_generation s = 2" "s_authority s = A_Primary" "s_last_sequence s = 7"
    "s_recent_incarnations s = [(''boot-1'', 1)]" "s_incarnation_ordinal s = 1"
    "st_next_incarnation_ordinal demo_next = 2"
proof -
  have inv: "store_inv 0 demo_store" using demo_store_reachable by (rule store_reachable_inv)
  show thesis
  proof (cases rule: ingest_locked_cases [OF inv, of demo_sample empty_admission])
    case 1
    then show thesis
      using demo_accepted by (simp add: settles_def ingest_configured [OF inv])
  next
    case (2 m1 st1 oc s st2 s3 st3 created q st4)
    have m1: "m1 = demo_sample" "st_next_incarnation_ordinal st1 = 1" "st_sources st1 = []"
      using 2(1)
      by (auto simp: present_sample_def Let_def demo_sample_def demo_store_empty split: if_splits)
    have reg: "register_source demo_sample st1 = (s, st2)"
      using 2(2) m1 by (auto simp: admit_source_def om_find_def split: if_splits prod.splits)
    obtain st6 q6 r6 a ds c where tail: "quiet st4 st6"
      "ingest_tail m1 oc s3 q (empty_admission\<lparr>ar_queue := qs_queue demo_sample,
           ar_queue_created := created\<rparr>) st4 =
         (success, r6, count c_samples_accepted_update
            (put_source m1 (s3\<lparr>s_accepted := s_accepted s3 + 1\<rparr>)
              (st6\<lparr>st_queues := om_put (qs_queue m1) q6 (st_queues st6)\<rparr>)))"
      by (rule ingest_tail_cases)
    have wf: "om_wf (st_sources st6)"
      using tail(1) 2(5) rest_inv_wf [of 1 st6] by (simp add: quiet_def acquired_def)
    have st: "demo_next = count c_samples_accepted_update
        (put_source m1 (s3\<lparr>s_accepted := s_accepted s3 + 1\<rparr>)
          (st6\<lparr>st_queues := om_put (qs_queue m1) q6 (st_queues st6)\<rparr>))"
      using 2(7) tail(2) by (simp add: demo_next_def ingest_configured [OF inv] answer_store_def)
    have s3: "s_incarnation s3 = ''boot-1''" "s_generation s3 = 2" "s_authority s3 = A_Primary"
        "s_last_sequence s3 = 7" "s_recent_incarnations s3 = [(''boot-1'', 1)]"
        "s_incarnation_ordinal s3 = 1" "st_next_incarnation_ordinal st3 = 2"
      using reg 2(3) m1(1,2)
      by (auto simp: register_source_def touch_source_def Let_def demo_sample_def empty_sample_def)
    then show thesis
      using that [of "s3\<lparr>s_accepted := s_accepted s3 + 1\<rparr>"] tail(1) 2(5) wf m1(1)
      by (simp add: st om.find_put_same quiet_def acquired_def) (simp add: demo_sample_def om.find_put_same)
  qed
qed

lemma demo_next_queue: "\<exists>q. om_find (st_queues demo_next) (qs_queue demo_sample) = Some q"
  using admitted_queue [OF store_reachable_inv [OF demo_store_reachable], of demo_sample empty_admission]
    demo_accepted
  by (auto simp: demo_next_def ingest_configured [OF store_reachable_inv [OF demo_store_reachable]])

lemma demo_recovered:
  "\<exists>q. om_find (st_queues (snd (snd (admit_recovered [demo_sample] demo_store)))) (qs_queue demo_sample) = Some q"
proof -
  let ?st = "demo_store\<lparr>st_recovered_mode := True\<rparr>"
  have inv: "store_inv 0 demo_store" using demo_store_reachable by (rule store_reachable_inv)
  then have inv': "store_inv 0 ?st" by simp
  have "admission_decision ?st demo_sample = admission_decision demo_store demo_sample"
    by (simp add: admission_decision_def source_decision_def source_room_def queue_room_def
        per_queue_bytes_def)
  then have "ar_accepted (answer_result (ingest_locked demo_sample empty_admission ?st))"
    using ingest_locked_decision [OF inv', of demo_sample empty_admission] demo_decision by simp
  then obtain q where
    "om_find (st_queues (answer_store (ingest_locked demo_sample empty_admission ?st))) (qs_queue demo_sample) = Some q"
    using admitted_queue [OF inv'] by blast
  moreover have "status_ok (st_config_status demo_store)"
    using inv unfolding store_inv_def rest_inv_def configured_def by blast
  ultimately show ?thesis
    by (auto simp: admit_recovered_def answer_store_def split: prod.splits)
qed

section \<open>Properties\<close>

text \<open>C1: bounded memory. In every state the store can reach, each registry, ring and list is
  within its configured limit, the bytes charged for history are exactly the rings that
  exist and within the budget, and every presented sample has been counted as accepted,
  rejected or fenced (all counters modulo \<open>2 ^ 64\<close>).\<close>

theorem reachable_store_bounded:
  assumes "store_reachable st"
  shows "om_size (st_queues st) \<le> max_queues (st_history_limits st) \<and>
    om_size (st_sources st) \<le> max_sources (st_history_limits st) \<and>
    length (st_conflicts st) \<le> max_conflicts (st_history_limits st) \<and>
    length (event_list (st_events st)) \<le> max_events_total (st_history_limits st) \<and>
    unat (st_history_bytes st) = om_size (st_queues st) * unat (per_queue_bytes st) \<and>
    st_history_bytes st \<le> max_history_bytes (st_history_limits st) \<and>
    (\<forall>k q. om_find (st_queues st) k = Some q \<longrightarrow>
       ring_size (q_history q) \<le> max_samples_per_queue (st_history_limits st) \<and>
       length (q_peers q) \<le> max_sources (st_history_limits st)) \<and>
    (\<forall>k s. om_find (st_sources st) k = Some s \<longrightarrow>
       length (s_recent_incarnations s) \<le> 4) \<and>
    c_samples_presented (st_counters st) =
      c_samples_accepted (st_counters st) + c_samples_rejected (st_counters st) +
      c_samples_fenced (st_counters st)"
proof -
  note inv = store_reachable_inv [OF assms]
  have q: "ring_size (q_history q) \<le> max_samples_per_queue (st_history_limits st)"
      "length (q_peers q) \<le> max_sources (st_history_limits st)"
    if "om_find (st_queues st) k = Some q" for k q
  proof -
    have "queue_ok (st_policy st) (st_history_limits st) k q"
      using inv queue_found_ok [OF _ that] by (simp add: store_inv_parts)
    then show "ring_size (q_history q) \<le> max_samples_per_queue (st_history_limits st)"
      "length (q_peers q) \<le> max_sources (st_history_limits st)"
      by (auto simp: queue_ok_def ring_invar_def ring_capacity_def)
  qed
  have s: "length (s_recent_incarnations s) \<le> 4" if "om_find (st_sources st) k = Some s" for k s
    using inv source_ok_find [OF _ that] by (auto simp: store_inv_def source_ok_def kMaxRecentIncarnations_def)
  have e: "length (event_list (st_events st)) \<le> max_events_total (st_history_limits st)"
    using inv by (simp add: store_inv_def rest_inv_def events_inv_def event_list_def)
  show ?thesis
    using inv q s e
    by (simp add: store_inv_def rest_inv_def queues_inv_def sources_inv_def totals_def per_queue_bytes_def)
qed

theorem reachable_store_bounded_witness:
  "om_size (st_queues demo_next) \<le> max_queues (st_history_limits demo_next)"
  using reachable_store_bounded [OF demo_next_reachable] by blast

text \<open>C6: reproducible verdicts. The verdict kept for a queue is the classification of the
  input kept beside it under the store's policy, so what a query explains is what was
  decided; each peer source of the queue is remembered once.\<close>

theorem reachable_verdict_reproducible:
  assumes "store_reachable st" "om_find (st_queues st) k = Some q"
  shows "q_queue q = k \<and> q_latest q = classify (st_policy st) (q_last_input q) \<and>
    distinct (map po_source (q_peers q))"
proof -
  have "queue_ok (st_policy st) (st_history_limits st) k q"
    using store_reachable_inv [OF assms(1)] queue_found_ok [OF _ assms(2)] by (simp add: store_inv_parts)
  then show ?thesis by (simp add: queue_ok_def)
qed

theorem reachable_verdict_reproducible_witness:
  "\<exists>q. om_find (st_queues demo_next) (qs_queue demo_sample) = Some q \<and>
     q_latest q = classify (st_policy demo_next) (q_last_input q)"
  using reachable_verdict_reproducible [OF demo_next_reachable] demo_next_queue by blast

text \<open>C2: the admission decision. For every reachable store and every sample the handler's
  answer is the entry of the decision table for the source registry, the fences and the
  room left, and the sample is accepted exactly when that entry is an admission.\<close>

theorem ingest_refines_decision:
  assumes "store_reachable st" "ingest m r st = (status, r', st')"
  shows "ar_outcome r' = admission_decision st m \<and>
    (ar_accepted r' \<longleftrightarrow> outcome_admitted (admission_decision st m))"
  using ingest_locked_decision [OF store_reachable_inv [OF assms(1)], of m r] assms(2)
  by (simp add: ingest_configured [OF store_reachable_inv [OF assms(1)]] answer_result_def)

theorem ingest_refines_decision_witness:
  "ar_outcome (fst (snd (ingest demo_sample empty_admission demo_store))) = AcceptedNewSource"
  using ingest_refines_decision [OF demo_store_reachable, of demo_sample empty_admission] demo_decision
  by (metis prod.collapse)

text \<open>C7: refused samples leave no trace in the evidence. A sample that is rejected or fenced
  changes no queue, creates none and charges no memory.\<close>

theorem refused_sample_keeps_queues:
  assumes "store_reachable st" "ingest m r st = (status, r', st')" "\<not> ar_accepted r'"
  shows "st_queues st' = st_queues st \<and> st_history_bytes st' = st_history_bytes st"
  using refused_queues [OF store_reachable_inv [OF assms(1)], of m r] assms(2,3)
  by (simp add: ingest_configured [OF store_reachable_inv [OF assms(1)]] answer_result_def answer_store_def)

theorem refused_sample_keeps_queues_witness:
  "st_queues (answer_store (ingest empty_sample empty_admission demo_next)) = st_queues demo_next"
proof -
  have "\<not> ar_accepted (answer_result (ingest empty_sample empty_admission demo_next))"
    using ingest_locked_decision [OF store_reachable_inv [OF demo_next_reachable], of empty_sample empty_admission]
    by (simp add: ingest_configured [OF store_reachable_inv [OF demo_next_reachable]]
        admission_decision_def sample_wellformed_def empty_sample_def strong_id_valid_def)
  then show ?thesis
    using refused_sample_keeps_queues [OF demo_next_reachable, of empty_sample empty_admission]
    by (cases "ingest empty_sample empty_admission demo_next")
      (simp add: answer_store_def answer_result_def)
qed

text \<open>C3: replay protection. Presenting an accepted sample a second time is fenced as a stale
  sequence and changes no queue.\<close>

theorem replay_is_fenced:
  assumes reach: "store_reachable st" and first: "ingest m r st = (status, r1, st1)" "ar_accepted r1"
    and second: "ingest m r' st1 = (status', r2, st2)"
  shows "ar_outcome r2 = FencedStaleSequence \<and> \<not> ar_accepted r2 \<and> status_ok status' \<and>
    st_queues st2 = st_queues st1"
proof -
  note inv = store_reachable_inv [OF reach]
  have first': "ingest_locked m r st = (status, r1, st1)"
    using first(1) by (simp add: ingest_configured [OF inv])
  have inv1: "store_inv 0 st1"
    using ingest_locked_store [OF inv first'] .
  have second': "ingest_locked m r' st1 = (status', r2, st2)"
    using second by (simp add: ingest_configured [OF inv1])
  have wf: "sample_wellformed m"
    using ingest_locked_decision [OF inv, of m r] first(2)
    by (auto simp: first' answer_result_def admission_decision_def split: if_splits)
  obtain s where "om_find (st_sources st1) (qs_source m) = Some s" "established m s"
      "s_last_sequence s = qs_sequence m"
    using admitted_source [OF inv, of m r] first(2)
    by (auto simp: first' answer_result_def answer_store_def)
  then have dec: "admission_decision st1 m = FencedStaleSequence"
    using replay_decision [OF wf] by blast
  then have r2: "ar_outcome r2 = FencedStaleSequence" "\<not> ar_accepted r2"
    using ingest_locked_decision [OF inv1, of m r'] by (simp_all add: second' answer_result_def)
  have "status_ok status'" using fenced_status [OF inv1 second'] r2(1) by simp
  then show ?thesis
    using r2 refused_queues [OF inv1, of m r'] by (simp add: second' answer_result_def answer_store_def)
qed

theorem replay_is_fenced_witness:
  "ar_outcome (answer_result (ingest demo_sample empty_admission demo_next)) = FencedStaleSequence"
proof -
  obtain status r1 where first: "ingest demo_sample empty_admission demo_store = (status, r1, demo_next)"
      "ar_accepted r1"
    using demo_accepted by (cases "ingest demo_sample empty_admission demo_store")
      (simp add: demo_next_def answer_store_def answer_result_def)
  show ?thesis
    using replay_is_fenced [OF demo_store_reachable first, of empty_admission]
    by (cases "ingest demo_sample empty_admission demo_next") (simp add: answer_result_def)
qed

text \<open>C8: sources only grow. No operation of the store forgets a source, lowers the authority
  it established or moves its device generation back.\<close>

theorem sources_never_regress:
  assumes "store_reachable st" "store_step st st'" "om_find (st_sources st) k = Some s"
  shows "\<exists>s'. om_find (st_sources st') k = Some s' \<and> s_generation s \<le> s_generation s' \<and>
    s_authority s \<le> s_authority s'"
  using store_step_grows [OF assms(2) store_reachable_inv [OF assms(1)]] assms(3)
  by (auto simp: sources_le_def source_le_def)

theorem sources_never_regress_witness:
  "\<exists>s. om_find (st_sources (snd (snd (import_events [] demo_next)))) ''agent'' = Some s \<and>
     2 \<le> s_generation s \<and> A_Primary \<le> s_authority s"
proof -
  obtain s where s: "om_find (st_sources demo_next) ''agent'' = Some s" "s_generation s = 2"
      "s_authority s = A_Primary"
    by (rule demo_next_source)
  let ?x = "import_events [] demo_next"
  have "import_events [] demo_next = (fst ?x, fst (snd ?x), snd (snd ?x))" by simp
  then have "store_step demo_next (snd (snd ?x))"
    by (rule step_import)
  from sources_never_regress [OF demo_next_reachable this s(1)] s(2,3) show ?thesis by auto
qed

text \<open>C4: recovered evidence never defines the present. After samples are read back from
  persistence, every queue whose verdict changed is unknown, stale or conflicting, whatever
  the samples say and however fresh their stamps are; the store leaves the recovery mode.\<close>

theorem recovery_never_yields_live_state:
  assumes "store_reachable st" "admit_recovered ms st = (status, b, st')"
    "om_find (st_queues st') k = Some q"
  shows "cr_state (q_latest q) \<in> {PS_Unknown, PS_Stale, PS_Conflicting} \<or>
    (\<exists>q0. om_find (st_queues st) k = Some q0 \<and> q_latest q0 = q_latest q)"
proof -
  note inv = store_reachable_inv [OF assms(1)]
  have cfg: "status_ok (st_config_status st)"
    using inv unfolding store_inv_def rest_inv_def configured_def by blast
  have "not_revived (st_queues st) (st_queues (st\<lparr>st_recovered_mode := True\<rparr>))"
    by (auto simp: not_revived_def)
  then have "not_revived (st_queues st)
      (st_queues (snd (recover_loop 0 ms empty_batch (st\<lparr>st_recovered_mode := True\<rparr>))))"
    by (intro recovered_loop) (use inv in simp_all)
  then have "not_revived (st_queues st) (st_queues st')"
    using assms(2) cfg by (auto simp: admit_recovered_def split: prod.splits)
  then show ?thesis using assms(3) by (auto simp: not_revived_def live_state_def)
qed

theorem recovery_never_yields_live_state_witness:
  "\<exists>q. om_find (st_queues (snd (snd (admit_recovered [demo_sample] demo_store)))) (qs_queue demo_sample)
     = Some q \<and> cr_state (q_latest q) \<in> {PS_Unknown, PS_Stale, PS_Conflicting}"
proof -
  obtain q where q: "om_find (st_queues (snd (snd (admit_recovered [demo_sample] demo_store))))
      (qs_queue demo_sample) = Some q"
    using demo_recovered by blast
  obtain status b st' where r: "admit_recovered [demo_sample] demo_store = (status, b, st')"
    by (cases "admit_recovered [demo_sample] demo_store")
  show ?thesis
    using recovery_never_yields_live_state [OF demo_store_reachable r, of "qs_queue demo_sample" q] q
    by (simp add: r demo_store_empty om_find_def)
qed

text \<open>Metadata only moves forward. A table is taken over exactly when it is valid and newer
  than the current one by generation, then revision; otherwise the current table stays.\<close>

theorem metadata_moves_forward:
  assumes "store_reachable st" "apply_metadata t st = (status, a, st')"
  shows "(ma_accepted a \<longleftrightarrow>
      status_ok (validate_metadata t (max_queues (st_history_limits st))) \<and>
      (st_has_metadata st \<longrightarrow>
         mt_generation (st_metadata st) < mt_generation t \<or>
         mt_generation t = mt_generation (st_metadata st) \<and>
         mt_revision (st_metadata st) < mt_revision t)) \<and>
    (if ma_accepted a then st_metadata st' = t \<and> st_has_metadata st'
     else st_metadata st' = st_metadata st \<and> st_has_metadata st' = st_has_metadata st)"
proof -
  have cfg: "status_ok (st_config_status st)"
    using store_reachable_inv [OF assms(1)] unfolding store_inv_def rest_inv_def configured_def by blast
  show ?thesis
    using assms(2) cfg
    by (auto simp: apply_metadata_def Let_def metadata_newer_def empty_metadata_admission_def
        split: if_splits)
qed

theorem metadata_moves_forward_witness:
  "ma_accepted (fst (snd (apply_metadata empty_metadata demo_store))) \<longleftrightarrow>
     status_ok (validate_metadata empty_metadata 8192)"
proof -
  obtain status a st' where r: "apply_metadata empty_metadata demo_store = (status, a, st')"
    by (cases "apply_metadata empty_metadata demo_store")
  show ?thesis
    using metadata_moves_forward [OF demo_store_reachable r]
    by (simp add: r demo_store_empty default_history_limits_def) (simp add: demo_store_def new_store_def)
qed

text \<open>A fenced sample displaces the running incarnation. A sample with an unknown
  incarnation token and a stale device generation is answered as fenced, but by then the
  source has already been switched to that token: every later sample of the incarnation that
  was running is fenced as superseded.\<close>

theorem fenced_sample_displaces_incarnation:
  assumes reach: "store_reachable st" and s: "om_find (st_sources st) (qs_source m) = Some s"
    and m: "sample_wellformed m" "map_of (s_recent_incarnations s) (qs_incarnation m) = None"
      "qs_generation m < s_generation s"
    and ordinal: "s_incarnation_ordinal s \<le> st_next_incarnation_ordinal st"
    and run: "ingest m r st = (status, r', st')"
  shows "ar_outcome r' = FencedStaleGeneration \<and> \<not> ar_accepted r' \<and>
    (\<forall>m2. sample_wellformed m2 \<and> qs_source m2 = qs_source m \<and> qs_incarnation m2 = s_incarnation s
       \<longrightarrow> admission_decision st' m2 = FencedStaleIncarnation)"
proof -
  note inv = store_reachable_inv [OF reach]
  have ok: "source_ok (qs_source m) s" using inv source_ok_find [of 0, OF _ s] by (simp add: store_inv_def)
  then obtain rest where rec: "s_recent_incarnations s = (s_incarnation s, s_incarnation_ordinal s) # rest"
    by (cases "s_recent_incarnations s") (auto simp: source_ok_def)
  then have new: "s_incarnation s \<noteq> qs_incarnation m" using m(2) by auto
  have dec: "admission_decision st m = FencedStaleGeneration"
    using m s by (simp add: admission_decision_def source_decision_def superseded_def)
  obtain s' where s': "om_find (st_sources st') (qs_source m) = Some s'"
      "s_incarnation s' = qs_incarnation m" "s_incarnation_ordinal s' = st_next_incarnation_ordinal st"
      "s_recent_incarnations s' = take kMaxRecentIncarnations
         ((qs_incarnation m, st_next_incarnation_ordinal st) # s_recent_incarnations s)"
    using displaced_source [OF inv s m new] run
    by (metis ingest_configured [OF inv] answer_store_def snd_conv)
  have "superseded s' m2" if "qs_incarnation m2 = s_incarnation s" for m2
    using that new s'(2-4) ordinal by (simp add: superseded_def rec kMaxRecentIncarnations_def)
  then have "admission_decision st' m2 = FencedStaleIncarnation"
    if "sample_wellformed m2" "qs_source m2 = qs_source m" "qs_incarnation m2 = s_incarnation s" for m2
    using that s'(1) by (simp add: admission_decision_def source_decision_def)
  then show ?thesis
    using ingest_locked_decision [OF inv, of m r] run dec
    by (simp add: ingest_configured [OF inv] answer_result_def)
qed

theorem fenced_sample_displaces_incarnation_witness:
  "ar_outcome (answer_result (ingest
     (demo_sample\<lparr>qs_incarnation := ''boot-2'', qs_generation := 1, qs_sequence := 8\<rparr>)
     empty_admission demo_next)) = FencedStaleGeneration"
proof -
  let ?m = "demo_sample\<lparr>qs_incarnation := ''boot-2'', qs_generation := 1, qs_sequence := 8\<rparr>"
  obtain s where s: "om_find (st_sources demo_next) ''agent'' = Some s" "s_generation s = 2"
      "s_recent_incarnations s = [(''boot-1'', 1)]" "s_incarnation_ordinal s = 1"
      "st_next_incarnation_ordinal demo_next = 2"
    by (rule demo_next_source)
  have "sample_wellformed ?m"
    using demo_sample_wellformed
    by (simp add: sample_wellformed_def strong_name_valid_def strong_id_valid_def)
  moreover obtain status r st' where run: "ingest ?m empty_admission demo_next = (status, r, st')"
    by (cases "ingest ?m empty_admission demo_next")
  moreover have "om_find (st_sources demo_next) (qs_source ?m) = Some s"
    using s(1) by (simp add: demo_sample_def)
  ultimately show ?thesis
    using fenced_sample_displaces_incarnation
        [OF demo_next_reachable, of ?m s empty_admission status r st'] s(2-5)
    by (simp add: run answer_result_def)
qed

text \<open>windows the store cannot hold. The constructor cuts the evaluation and the contention
  window into eighths, rounded down; when the length is not a multiple of eight nanoseconds
  a ninth bucket is needed and every operation of the store is refused, although
  \<open>validate_policy\<close> accepts the policy.\<close>

theorem indivisible_window_refused:
  assumes "8 \<le> pol_evaluation_window p" "pol_evaluation_window p \<le> i64_max"
    "pol_evaluation_window p mod 8 \<noteq> 0"
  shows "\<not> status_ok (st_config_status (new_store p h q n clock))"
  using eighth_window_refused [OF assms, of "''evaluation''" 1]
  by (simp add: new_store_def configuration_status_def evaluation_spec_of_def kEvaluationBuckets_def)

theorem indivisible_window_refused_witness:
  "status_ok (validate_policy (default_pressure_policy\<lparr>pol_evaluation_window := 1000000001\<rparr>)) \<and>
   \<not> status_ok (st_config_status (new_store
       (default_pressure_policy\<lparr>pol_evaluation_window := 1000000001\<rparr>)
       default_history_limits default_query_limits 600 sample_clock))"
proof
  show "status_ok (validate_policy (default_pressure_policy\<lparr>pol_evaluation_window := 1000000001\<rparr>))"
    by (simp add: validate_policy_def default_pressure_policy_def validate_relative_def
        validate_absolute_def below_def validate_freshness_def default_freshness_policy_def
        default_continuity_policy_def validate_microburst_def div_ceil_u64_def u64_of_i64_def
        field_bit_def)
qed (rule indivisible_window_refused; simp add: i64_max_def)

text \<open>Batch accounting. A batch that runs to its end has presented every sample; one that is
  stopped has presented exactly the samples before the poll that saw the stop request. In
  both cases each presented sample is counted once as accepted, rejected or fenced, and at
  most 64 failures are described.\<close>

theorem ingest_batch_accounting:
  assumes "store_reachable st" "ingest_batch ms stop st = (status, b, st')"
  shows "\<exists>k. k \<le> length ms \<and> ba_presented b = k \<and>
    ba_presented b = ba_accepted b + ba_rejected b + ba_fenced b \<and>
    ba_duplicates b \<le> ba_fenced b \<and> length (ba_failures b) \<le> 64 \<and>
    (status_ok status \<longleftrightarrow> k = length ms) \<and> (k < length ms \<longrightarrow> stop k)"
proof -
  have cfg: "status_ok (st_config_status st)"
    using store_reachable_inv [OF assms(1)] unfolding store_inv_def rest_inv_def configured_def by blast
  have "batch_balanced 0 empty_batch" by (simp add: batch_balanced_def empty_batch_def)
  from ingest_loop_balanced [OF this, of stop "length ms" ms st status b st'] assms(2) cfg
  obtain k where k: "batch_balanced k b" "k \<le> length ms" "status_ok status \<longleftrightarrow> k = length ms"
      "status_ok status \<or> stop k"
    by (auto simp: ingest_batch_def)
  then show ?thesis
    by (intro exI [of _ k]) (auto simp: batch_balanced_def kMaxFailureDetails_def)
qed

theorem ingest_batch_accounting_witness:
  "\<exists>k \<le> 1. ba_presented (fst (snd (ingest_batch [demo_sample] (\<lambda>_. False) demo_store))) = k \<and> \<not> k < 1"
proof -
  obtain status b st' where r: "ingest_batch [demo_sample] (\<lambda>_. False) demo_store = (status, b, st')"
    by (cases "ingest_batch [demo_sample] (\<lambda>_. False) demo_store")
  show ?thesis using ingest_batch_accounting [OF demo_store_reachable r] by (auto simp: r)
qed

end
