(* ===== verification/Json.thy ===== *)
theory Json
  imports Text
begin

unbundle bit_operations_syntax

text \<open>
  The JSON document model (\<^verbatim>\<open>src/core/Json.cpp\<close>): values, the bounded parser and the
  deterministic writer. The parser's index into the text is the suffix that is left; its
  node counter is threaded. The mutually recursive parser functions take fuel, and
  \<open>parse_fuel_sufficient\<close> shows that the fuel they start with never runs out.

  The conversion of a number with a fraction or an exponent to a double is the standard
  library's \<^verbatim>\<open>std::from_chars\<close> and \<^verbatim>\<open>std::isfinite\<close>, parameters of the parser; the model's
  type of doubles is the type variable \<open>'d\<close>. No other part of the program reads a double.
\<close>

section \<open>Values\<close>

datatype 'd json =
    JNull | JBool bool | JInt i64 | JUint u64 | JDouble 'd | JString string
  | JArray "'d json list" | JObject "(string \<times> 'd json) list"

fun json_find :: "'d json \<Rightarrow> string \<Rightarrow> 'd json option" where
  "json_find (JObject members) key = map_of members key"
| "json_find _ key = None"

fun json_size :: "'d json \<Rightarrow> nat" where
  "json_size (JArray vs) = length vs"
| "json_size (JObject members) = length members"
| "json_size (JString s) = length s"
| "json_size _ = 0"

fun json_items :: "'d json \<Rightarrow> 'd json list" where
  "json_items (JArray vs) = vs"
| "json_items (JObject members) = map snd members"
| "json_items _ = []"

fun json_key_at :: "'d json \<Rightarrow> nat \<Rightarrow> string" where
  "json_key_at (JObject members) index = (if index \<ge> length members then [] else fst (members ! index))"
| "json_key_at _ index = []"

definition json_value_at :: "'d json \<Rightarrow> nat \<Rightarrow> 'd json" where
  "json_value_at v index =
     (if index \<ge> length (json_items v) then JNull else json_items v ! index)"

fun json_push :: "'d json \<Rightarrow> 'd json \<Rightarrow> 'd json" where
  "json_push (JArray vs) v = JArray (vs @ [v])"
| "json_push w v = w"

fun json_set :: "'d json \<Rightarrow> string \<Rightarrow> 'd json \<Rightarrow> 'd json" where
  "json_set (JObject members) key v = JObject (members @ [(key, v)])"
| "json_set w key v = w"

fun type_name :: "'d json \<Rightarrow> string" where
  "type_name JNull = ''null''"
| "type_name (JBool _) = ''boolean''"
| "type_name (JInt _) = ''integer''"
| "type_name (JUint _) = ''integer''"
| "type_name (JDouble _) = ''number''"
| "type_name (JString _) = ''string''"
| "type_name (JArray _) = ''array''"
| "type_name (JObject _) = ''object''"

record json_limits =
  max_document_bytes :: nat
  max_depth :: nat
  max_nodes :: nat
  max_string_bytes :: nat
  max_object_members :: nat
  max_array_elements :: nat

definition default_json_limits :: json_limits where
  "default_json_limits =
     \<lparr>max_document_bytes = 8 * 1024 * 1024, max_depth = 32, max_nodes = 200000,
      max_string_bytes = 4096, max_object_members = 256, max_array_elements = 4096\<rparr>"

section \<open>Lexical parts of the parser\<close>

abbreviation "chr_quote \<equiv> CHR 0x22"
abbreviation "chr_escape \<equiv> CHR 0x5C"

definition is_json_whitespace :: "char \<Rightarrow> bool" where
  "is_json_whitespace c \<longleftrightarrow> c = CHR '' '' \<or> c = CHR 0x09 \<or> c = CHR 0x0A \<or> c = CHR 0x0D"

definition skip_whitespace :: "string \<Rightarrow> string" where
  "skip_whitespace text = dropWhile is_json_whitespace text"

definition byte_char :: "u32 \<Rightarrow> char" where
  "byte_char w = char_of (unat w)"

definition append_utf8 :: "u32 \<Rightarrow> string" where
  "append_utf8 code_point =
     (if code_point < 0x80 then [byte_char code_point]
      else if code_point < 0x800 then
        [byte_char (0xC0 OR drop_bit 6 code_point),
         byte_char (0x80 OR (code_point AND 0x3F))]
      else if code_point < 0x10000 then
        [byte_char (0xE0 OR drop_bit 12 code_point),
         byte_char (0x80 OR (drop_bit 6 code_point AND 0x3F)),
         byte_char (0x80 OR (code_point AND 0x3F))]
      else
        [byte_char (0xF0 OR drop_bit 18 code_point),
         byte_char (0x80 OR (drop_bit 12 code_point AND 0x3F)),
         byte_char (0x80 OR (drop_bit 6 code_point AND 0x3F)),
         byte_char (0x80 OR (code_point AND 0x3F))])"

fun hex4_loop :: "u32 \<Rightarrow> string \<Rightarrow> u32 option" where
  "hex4_loop acc [] = Some acc"
| "hex4_loop acc (c # cs) =
     (case hex_value c of
        None \<Rightarrow> None
      | Some nibble \<Rightarrow> hex4_loop (push_bit 4 acc OR of_nat nibble) cs)"

definition parse_hex4 :: "string \<Rightarrow> (u32 \<times> string) result" where
  "parse_hex4 text =
     (if length text < 4
      then Inl (failure ParseError ''truncated unicode escape in a JSON string'')
      else case hex4_loop 0 (take 4 text) of
        None \<Rightarrow> Inl (failure ParseError ''non-hexadecimal digit in a unicode escape'')
      | Some v \<Rightarrow> Inr (v, drop 4 text))"

text \<open>The text after \<^verbatim>\<open>\u\<close>.\<close>

definition parse_unicode :: "string \<Rightarrow> (string \<times> string) result" where
  "parse_unicode text =
     qobs_try_assign (parse_hex4 text) (\<lambda>(code_point, rest).
       if 0xD800 \<le> code_point \<and> code_point \<le> 0xDBFF then
         (if take 2 rest \<noteq> [chr_escape, CHR ''u'']
          then Inl (failure ParseError ''high surrogate is not followed by a low surrogate escape'')
          else qobs_try_assign (parse_hex4 (drop 2 rest)) (\<lambda>(low, rest').
            if low < 0xDC00 \<or> low > 0xDFFF
            then Inl (failure ParseError ''invalid low surrogate in a JSON string'')
            else Inr (append_utf8 (0x10000 + push_bit 10 (code_point - 0xD800) + (low - 0xDC00)), rest')))
       else if 0xDC00 \<le> code_point \<and> code_point \<le> 0xDFFF
       then Inl (failure ParseError ''unpaired low surrogate in a JSON string'')
       else Inr (append_utf8 code_point, rest))"

text \<open>The text after a backslash: the bytes the escape stands for and the rest.\<close>

definition parse_escape :: "string \<Rightarrow> (string \<times> string) result" where
  "parse_escape text =
     (case text of
        [] \<Rightarrow> Inl (failure ParseError ''unterminated escape sequence in a JSON string'')
      | e # rest \<Rightarrow>
          if e = chr_quote then Inr ([chr_quote], rest)
          else if e = chr_escape then Inr ([chr_escape], rest)
          else if e = CHR ''/'' then Inr (''/'', rest)
          else if e = CHR ''b'' then Inr ([CHR 0x08], rest)
          else if e = CHR ''f'' then Inr ([CHR 0x0C], rest)
          else if e = CHR ''n'' then Inr ([CHR 0x0A], rest)
          else if e = CHR ''r'' then Inr ([CHR 0x0D], rest)
          else if e = CHR ''t'' then Inr ([CHR 0x09], rest)
          else if e = CHR ''u'' then parse_unicode rest
          else Inl (failure ParseError ''unknown escape sequence in a JSON string''))"

lemma parse_hex4_rest: "parse_hex4 text = Inr (v, rest) \<Longrightarrow> length rest < length text"
  by (auto simp: parse_hex4_def split: if_splits option.splits)

lemma parse_unicode_rest: "parse_unicode text = Inr (bytes, rest) \<Longrightarrow> length rest < length text"
  by (auto simp: parse_unicode_def qobs_try_assign_def split: sum.splits if_splits
      dest!: parse_hex4_rest)

lemma parse_escape_rest: "parse_escape text = Inr (bytes, rest) \<Longrightarrow> length rest < length text"
  by (auto simp: parse_escape_def split: list.splits if_splits dest!: parse_unicode_rest)

text \<open>The loop of \<^verbatim>\<open>parse_string\<close>, entered after the opening quote.\<close>

function parse_string :: "json_limits \<Rightarrow> string \<Rightarrow> string \<Rightarrow> (string \<times> string) result" where
  "parse_string limits out text =
     (case text of
        [] \<Rightarrow> Inl (failure ParseError ''unterminated JSON string'')
      | c # rest \<Rightarrow>
          if c = chr_quote then Inr (out, rest)
          else if (of_char c :: nat) < 0x20
          then Inl (failure ParseError ''unescaped control character in a JSON string'')
          else if c \<noteq> chr_escape
          then if length (out @ [c]) > max_string_bytes limits
               then Inl (failure LimitExceeded ''JSON string exceeds the configured limit'')
               else parse_string limits (out @ [c]) rest
          else case parse_escape rest of
            Inl e \<Rightarrow> Inl e
          | Inr (bytes, rest') \<Rightarrow>
              if length (out @ bytes) > max_string_bytes limits
              then Inl (failure LimitExceeded ''JSON string exceeds the configured limit'')
              else parse_string limits (out @ bytes) rest')"
  by pat_completeness auto
termination
  by (relation "measure (\<lambda>(limits, out, text). length text)") (auto dest: parse_escape_rest)

declare parse_string.simps [simp del]

definition take_digits :: "string \<Rightarrow> string \<times> string" where
  "take_digits text = (takeWhile is_digit text, dropWhile is_digit text)"

definition starts_digit :: "string \<Rightarrow> bool" where
  "starts_digit text = (case text of [] \<Rightarrow> False | c # _ \<Rightarrow> is_digit c)"

text \<open>The sections of \<^verbatim>\<open>parse_number\<close>: the integer part, the fraction, the exponent. Each
  returns the text it consumed and the rest.\<close>

definition number_integer :: "string \<Rightarrow> (string \<times> string) result" where
  "number_integer text =
     (if \<not> starts_digit text then Inl (failure ParseError ''malformed JSON number'')
      else if hd text = CHR ''0'' then
        (if starts_digit (tl text)
         then Inl (failure ParseError ''JSON numbers must not have leading zeros'')
         else Inr (''0'', tl text))
      else Inr (take_digits text))"

definition number_fraction :: "string \<Rightarrow> (string \<times> string) result" where
  "number_fraction text =
     (case text of
        c # rest \<Rightarrow>
          if c = CHR ''.'' then
            (if \<not> starts_digit rest
             then Inl (failure ParseError ''JSON number has no digits after the decimal point'')
             else case take_digits rest of (digits, rest') \<Rightarrow> Inr (c # digits, rest'))
          else Inr ([], text)
      | [] \<Rightarrow> Inr ([], text))"

definition number_exponent :: "string \<Rightarrow> (string \<times> string) result" where
  "number_exponent text =
     (case text of
        c # rest \<Rightarrow>
          if c = CHR ''e'' \<or> c = CHR ''E'' then
            (let (sign, digits) = (case rest of
                   s # r \<Rightarrow> if s = CHR ''+'' \<or> s = CHR ''-'' then ([s], r) else ([], rest)
                 | [] \<Rightarrow> ([], rest))
             in if \<not> starts_digit digits
                then Inl (failure ParseError ''JSON number has no digits in its exponent'')
                else case take_digits digits of (ds, rest') \<Rightarrow> Inr (c # sign @ ds, rest'))
          else Inr ([], text)
      | [] \<Rightarrow> Inr ([], text))"

record 'd doubles =
  to_double :: "string \<Rightarrow> 'd option"
  is_finite :: "'d \<Rightarrow> bool"

text \<open>\<^verbatim>\<open>std::from_chars\<close> on a numeral that is known to be a sequence of digits; for the signed
  conversion the sign has been split off.\<close>

definition from_chars_u64 :: "string \<Rightarrow> u64 option" where
  "from_chars_u64 digits =
     (if dec_value digits < 2 ^ 64 then Some (of_nat (dec_value digits)) else None)"

definition from_chars_i64 :: "string \<Rightarrow> i64 option" where
  "from_chars_i64 digits =
     (if dec_value digits \<le> 2 ^ 63 then Some (- int (dec_value digits)) else None)"

definition parse_number :: "'d doubles \<Rightarrow> string \<Rightarrow> ('d json \<times> string) result" where
  "parse_number lib text =
     (let negative = (hd text = CHR ''-'');
          body = (if negative then tl text else text)
      in qobs_try_assign (number_integer body) (\<lambda>(whole, rest1).
         qobs_try_assign (number_fraction rest1) (\<lambda>(fraction, rest2).
         qobs_try_assign (number_exponent rest2) (\<lambda>(exponent, rest3).
           if fraction \<noteq> [] \<or> exponent \<noteq> [] then
             (case to_double lib ((if negative then ''-'' else []) @ whole @ fraction @ exponent) of
                None \<Rightarrow> Inl (failure ParseError ''JSON number cannot be represented as a double'')
              | Some d \<Rightarrow>
                  if \<not> is_finite lib d then Inl (failure OutOfRange ''JSON number is not finite'')
                  else Inr (JDouble d, rest3))
           else if negative then
             (case from_chars_i64 whole of
                None \<Rightarrow> Inl (failure OutOfRange ''JSON integer is outside the signed 64-bit range'')
              | Some i \<Rightarrow> Inr (JInt i, rest3))
           else
             (case from_chars_u64 whole of
                None \<Rightarrow> Inl (failure OutOfRange ''JSON integer is outside the unsigned 64-bit range'')
              | Some n \<Rightarrow> Inr (JUint n, rest3))))))"

definition parse_literal :: "string \<Rightarrow> 'd json \<Rightarrow> string \<Rightarrow> ('d json \<times> string) result" where
  "parse_literal literal v text =
     (if length text < length literal \<or> take (length literal) text \<noteq> literal
      then Inl (failure ParseError ''malformed JSON literal'')
      else Inr (v, drop (length literal) text))"

section \<open>The recursive parser\<close>

datatype 'd parsed = Parsed "'d json" nat string | Failed status | Out_of_fuel

fun lift_result :: "nat \<Rightarrow> ('d json \<times> string) result \<Rightarrow> 'd parsed" where
  "lift_result nodes (Inl e) = Failed e"
| "lift_result nodes (Inr (v, rest)) = Parsed v nodes rest"

text \<open>What the head of a value decides: an error, the opening of a container (with the text after
  the bracket and the white space that follows it), or a complete scalar.\<close>

datatype 'd head = Object_from string | Array_from string | Complete "'d parsed"

definition parse_scalar :: "json_limits \<Rightarrow> 'd doubles \<Rightarrow> char \<Rightarrow> string \<Rightarrow> ('d json \<times> string) result" where
  "parse_scalar limits lib c rest =
     (if c = chr_quote then
        qobs_try_assign (parse_string limits [] rest) (\<lambda>(s, rest'). Inr (JString s, rest'))
      else if c = CHR ''t'' then parse_literal ''true'' (JBool True) (c # rest)
      else if c = CHR ''f'' then parse_literal ''false'' (JBool False) (c # rest)
      else if c = CHR ''n'' then parse_literal ''null'' JNull (c # rest)
      else if c = CHR ''-'' \<or> is_digit c then parse_number lib (c # rest)
      else Inl (failure ParseError ''unexpected character where a JSON value was expected''))"

definition parse_head ::
    "json_limits \<Rightarrow> 'd doubles \<Rightarrow> nat \<Rightarrow> nat \<Rightarrow> string \<Rightarrow> 'd head" where
  "parse_head limits lib depth nodes text =
     (if depth > max_depth limits
      then Complete (Failed (failure LimitExceeded ''JSON nesting depth exceeds the configured limit''))
      else if nodes > max_nodes limits
      then Complete (Failed (failure LimitExceeded ''JSON node count exceeds the configured limit''))
      else case skip_whitespace text of
        [] \<Rightarrow> Complete (Failed (failure ParseError ''unexpected end of JSON input''))
      | c # rest \<Rightarrow>
          if c = CHR ''{'' then
            (let body = skip_whitespace rest
             in if body \<noteq> [] \<and> hd body = CHR ''}'' then Complete (Parsed (JObject []) nodes (tl body))
                else Object_from body)
          else if c = CHR ''['' then
            (let body = skip_whitespace rest
             in if body \<noteq> [] \<and> hd body = CHR '']'' then Complete (Parsed (JArray []) nodes (tl body))
                else Array_from body)
          else Complete (lift_result nodes (parse_scalar limits lib c rest)))"

text \<open>The name of an object member and its colon; the text that follows the colon is left.\<close>

definition parse_member_name ::
    "json_limits \<Rightarrow> (string \<times> 'd json) list \<Rightarrow> string \<Rightarrow> (string \<times> string) result" where
  "parse_member_name limits members text =
     (let name = skip_whitespace text
      in if name = [] \<or> hd name \<noteq> chr_quote
      then Inl (failure ParseError ''object member name must be a JSON string'')
      else qobs_try_assign (parse_string limits [] (tl name)) (\<lambda>(key, rest1).
        if json_find (JObject members) key \<noteq> None
        then Inl (failure ParseError ''duplicate object member name'')
        else let colon = skip_whitespace rest1
        in if colon = [] \<or> hd colon \<noteq> CHR '':''
        then Inl (failure ParseError ''expected a colon after the object member name'')
        else Inr (key, tl colon)))"

text \<open>What follows an item of a container: another item, the end of the container, or an error.\<close>

datatype separator = Another string | Closing string | Broken status

definition after_member :: "json_limits \<Rightarrow> nat \<Rightarrow> string \<Rightarrow> separator" where
  "after_member limits members text =
     (if members > max_object_members limits
      then Broken (failure LimitExceeded ''object member count exceeds the configured limit'')
      else case skip_whitespace text of
        [] \<Rightarrow> Broken (failure ParseError ''unterminated JSON object'')
      | c # rest \<Rightarrow>
          if c = CHR '','' then Another rest
          else if c = CHR ''}'' then Closing rest
          else Broken (failure ParseError ''expected a comma or a closing brace in a JSON object''))"

definition after_element :: "json_limits \<Rightarrow> nat \<Rightarrow> string \<Rightarrow> separator" where
  "after_element limits elements text =
     (if elements > max_array_elements limits
      then Broken (failure LimitExceeded ''array element count exceeds the configured limit'')
      else case skip_whitespace text of
        [] \<Rightarrow> Broken (failure ParseError ''unterminated JSON array'')
      | c # rest \<Rightarrow>
          if c = CHR '','' then Another rest
          else if c = CHR '']'' then Closing rest
          else Broken (failure ParseError ''expected a comma or a closing bracket in a JSON array''))"

text \<open>The loops over the members of an object and the elements of an array, entered after the
  opening bracket. They call \<^verbatim>\<open>parse_value\<close>, here the argument \<open>value\<close>, on the node counter
  and the text that is left.\<close>

primrec parse_members ::
    "nat \<Rightarrow> (nat \<Rightarrow> string \<Rightarrow> 'd parsed) \<Rightarrow> json_limits \<Rightarrow> nat \<Rightarrow> (string \<times> 'd json) list \<Rightarrow> string
     \<Rightarrow> 'd parsed" where
  "parse_members 0 value limits nodes members text = Out_of_fuel"
| "parse_members (Suc fuel) value limits nodes members text =
     (case parse_member_name limits members text of
        Inl e \<Rightarrow> Failed e
      | Inr (key, rest) \<Rightarrow>
          (case value nodes rest of
             Parsed v nodes' rest' \<Rightarrow>
               (case after_member limits (length members + 1) rest' of
                  Another tail \<Rightarrow> parse_members fuel value limits nodes' (members @ [(key, v)]) tail
                | Closing tail \<Rightarrow> Parsed (JObject (members @ [(key, v)])) nodes' tail
                | Broken e \<Rightarrow> Failed e)
           | Failed e \<Rightarrow> Failed e
           | Out_of_fuel \<Rightarrow> Out_of_fuel))"

primrec parse_elements ::
    "nat \<Rightarrow> (nat \<Rightarrow> string \<Rightarrow> 'd parsed) \<Rightarrow> json_limits \<Rightarrow> nat \<Rightarrow> 'd json list \<Rightarrow> string
     \<Rightarrow> 'd parsed" where
  "parse_elements 0 value limits nodes vs text = Out_of_fuel"
| "parse_elements (Suc fuel) value limits nodes vs text =
     (case value nodes text of
        Parsed v nodes' rest' \<Rightarrow>
          (case after_element limits (length vs + 1) rest' of
             Another tail \<Rightarrow> parse_elements fuel value limits nodes' (vs @ [v]) tail
           | Closing tail \<Rightarrow> Parsed (JArray (vs @ [v])) nodes' tail
           | Broken e \<Rightarrow> Failed e)
      | Failed e \<Rightarrow> Failed e
      | Out_of_fuel \<Rightarrow> Out_of_fuel)"

primrec parse_value ::
    "nat \<Rightarrow> json_limits \<Rightarrow> 'd doubles \<Rightarrow> nat \<Rightarrow> nat \<Rightarrow> string \<Rightarrow> 'd parsed" where
  "parse_value 0 limits lib depth nodes text = Out_of_fuel"
| "parse_value (Suc fuel) limits lib depth nodes text =
     (case parse_head limits lib depth (nodes + 1) text of
        Object_from body \<Rightarrow>
          parse_members fuel (parse_value fuel limits lib (depth + 1)) limits (nodes + 1) [] body
      | Array_from body \<Rightarrow>
          parse_elements fuel (parse_value fuel limits lib (depth + 1)) limits (nodes + 1) [] body
      | Complete p \<Rightarrow> p)"

text \<open>The top-level calls. Every value and every item of a container consumes a character, so the
  length of the text and one more is fuel enough; the answer for a parser that ran out of fuel
  is never given.\<close>

definition json_fuel :: "string \<Rightarrow> nat" where
  "json_fuel text = length text + 1"

definition parse_document :: "json_limits \<Rightarrow> 'd doubles \<Rightarrow> string \<Rightarrow> 'd json result" where
  "parse_document limits lib text =
     (case parse_value (json_fuel text) limits lib 0 0 text of
        Parsed v nodes rest \<Rightarrow>
          if skip_whitespace rest \<noteq> []
          then Inl (failure ParseError ''unexpected trailing content after the JSON document'')
          else Inr v
      | Failed e \<Rightarrow> Inl e
      | Out_of_fuel \<Rightarrow> Inl (failure Internal []))"

definition parse_prefix :: "json_limits \<Rightarrow> 'd doubles \<Rightarrow> string \<Rightarrow> ('d json \<times> nat) result" where
  "parse_prefix limits lib text =
     (case parse_value (json_fuel text) limits lib 0 0 text of
        Parsed v nodes rest \<Rightarrow> Inr (v, length text - length (skip_whitespace rest))
      | Failed e \<Rightarrow> Inl e
      | Out_of_fuel \<Rightarrow> Inl (failure Internal []))"

definition parse_json :: "string \<Rightarrow> json_limits \<Rightarrow> 'd doubles \<Rightarrow> 'd json result" where
  "parse_json text limits lib =
     (if length text > max_document_bytes limits
      then Inl (failure LimitExceeded ''JSON document exceeds the configured byte limit'')
      else parse_document limits lib text)"

definition parse_json_prefix ::
    "string \<Rightarrow> json_limits \<Rightarrow> 'd doubles \<Rightarrow> ('d json \<times> nat) result" where
  "parse_json_prefix text limits lib =
     (if length text > max_document_bytes limits
      then Inl (failure LimitExceeded ''JSON document exceeds the configured byte limit'')
      else parse_prefix limits lib text)"

section \<open>The parser consumes its input\<close>

lemma skip_whitespace_length: "length (skip_whitespace text) \<le> length text"
  by (simp add: skip_whitespace_def length_dropWhile_le)

lemma skip_whitespace_tl:
  "skip_whitespace text = c # rest \<Longrightarrow> length rest < length text"
  using skip_whitespace_length [of "text"] by simp

lemma skip_whitespace_hd:
  "skip_whitespace text \<noteq> [] \<Longrightarrow> length (tl (skip_whitespace text)) < length text"
  using skip_whitespace_length [of "text"] by (cases "skip_whitespace text") auto

lemma parse_string_rest:
  "parse_string limits out text = Inr (s, rest) \<Longrightarrow> length rest < length text"
proof (induction limits out "text" rule: parse_string.induct)
  case (1 limits out "text")
  then show ?case
    by (subst (asm) (3) parse_string.simps)
      (force split: list.splits if_splits sum.splits dest: parse_escape_rest)
qed

lemma take_digits_length: "take_digits text = (ds, rest) \<Longrightarrow> length rest \<le> length text"
  by (auto simp: take_digits_def length_dropWhile_le)

lemma number_integer_rest:
  "number_integer text = Inr (ds, rest) \<Longrightarrow> length rest < length text"
  by (cases "text")
    (auto simp: number_integer_def starts_digit_def take_digits_def le_imp_less_Suc length_dropWhile_le
      split: if_splits)

lemma number_fraction_rest:
  "number_fraction text = Inr (ds, rest) \<Longrightarrow> length rest \<le> length text"
  by (auto simp: number_fraction_def split: list.splits if_splits prod.splits
      dest: take_digits_length)

lemma number_exponent_rest:
  "number_exponent text = Inr (ds, rest) \<Longrightarrow> length rest \<le> length text"
  by (auto simp: number_exponent_def Let_def split: list.splits if_splits prod.splits
      dest!: take_digits_length)

lemma parse_number_rest:
  "parse_number lib (c # text) = Inr (v, rest) \<Longrightarrow> length rest < length (c # text)"
  by (auto simp: parse_number_def Let_def qobs_try_assign_def
      split: sum.splits if_splits option.splits prod.splits
      dest!: number_integer_rest number_fraction_rest number_exponent_rest)

lemma parse_scalar_rest:
  assumes "parse_scalar limits lib c text = Inr (v, rest)"
  shows "length rest < length (c # text)"
proof (cases "c = CHR ''-'' \<or> is_digit c")
  case True
  then have "parse_number lib (c # text) = Inr (v, rest)"
    using assms by (auto simp: parse_scalar_def is_digit_def split: if_splits)
  then show ?thesis by (rule parse_number_rest)
next
  case False
  then show ?thesis
    using assms
    by (auto simp: parse_scalar_def parse_literal_def qobs_try_assign_def
        split: if_splits sum.splits dest: parse_string_rest)
qed

lemma parse_head_complete_rest:
  assumes "parse_head limits lib depth nodes text = Complete (Parsed v nodes' rest)"
  shows "length rest < length text"
proof (cases "skip_whitespace text")
  case Nil
  then show ?thesis using assms by (auto simp: parse_head_def split: if_splits)
next
  case (Cons c body)
  then have shorter: "length body < length text" by (rule skip_whitespace_tl)
  show ?thesis
  proof (cases "parse_scalar limits lib c body")
    case (Inl e)
    then show ?thesis
      using assms Cons shorter skip_whitespace_hd [of body]
      by (auto simp: parse_head_def Let_def split: if_splits)
  next
    case (Inr p)
    then show ?thesis
      using assms Cons shorter skip_whitespace_hd [of body] skip_whitespace_length [of "text"]
      by (cases p) (auto simp: parse_head_def Let_def split: if_splits dest!: parse_scalar_rest)
  qed
qed

lemma parse_head_body:
  assumes "parse_head limits lib depth nodes text = Object_from body
           \<or> parse_head limits lib depth nodes text = Array_from body"
  shows "length body < length text"
proof (cases "skip_whitespace text")
  case (Cons c rest)
  then show ?thesis
    using assms skip_whitespace_tl [OF Cons] skip_whitespace_length [of rest]
    by (auto simp: parse_head_def Let_def split: if_splits)
qed (use assms in \<open>auto simp: parse_head_def split: if_splits\<close>)

lemma parse_member_name_rest:
  assumes "parse_member_name limits members text = Inr (key, rest)"
  shows "length rest < length text"
proof -
  from assms obtain name rest1 where
    "length name \<le> length text" "name \<noteq> []" "parse_string limits [] (tl name) = Inr (key, rest1)"
    "skip_whitespace rest1 \<noteq> []" "rest = tl (skip_whitespace rest1)"
    using skip_whitespace_length [of "text"]
    by (auto simp: parse_member_name_def Let_def qobs_try_assign_def split: sum.splits if_splits)
  then show ?thesis
    using parse_string_rest [of limits "[]" "tl name" key rest1] skip_whitespace_hd [of rest1]
    by (cases name) auto
qed

lemma after_member_rest:
  "after_member limits n text = Another tail \<Longrightarrow> length tail < length text"
  "after_member limits n text = Closing tail \<Longrightarrow> length tail < length text"
  using skip_whitespace_length [of "text"]
  by (auto simp: after_member_def split: if_splits list.splits)

lemma after_element_rest:
  "after_element limits n text = Another tail \<Longrightarrow> length tail < length text"
  "after_element limits n text = Closing tail \<Longrightarrow> length tail < length text"
  using skip_whitespace_length [of "text"]
  by (auto simp: after_element_def split: if_splits list.splits)

lemma parse_members_rest:
  assumes "\<And>n t v n' r. value n t = Parsed v n' r \<Longrightarrow> length r < length t"
  shows "parse_members fuel value limits nodes members text = Parsed v nodes' rest
         \<Longrightarrow> length rest < length text"
  by (induction fuel arbitrary: nodes members "text")
    (fastforce split: sum.splits parsed.splits separator.splits
      dest: assms parse_member_name_rest after_member_rest)+

lemma parse_elements_rest:
  assumes "\<And>n t v n' r. value n t = Parsed v n' r \<Longrightarrow> length r < length t"
  shows "parse_elements fuel value limits nodes vs text = Parsed v nodes' rest
         \<Longrightarrow> length rest < length text"
  by (induction fuel arbitrary: nodes vs "text")
    (fastforce split: parsed.splits separator.splits dest: assms after_element_rest)+

lemma parse_value_rest:
  "parse_value fuel limits lib depth nodes text = Parsed v nodes' rest \<Longrightarrow> length rest < length text"
proof (induction fuel arbitrary: depth nodes "text" v nodes' rest)
  case (Suc fuel)
  show ?case
  proof (cases "parse_head limits lib depth (nodes + 1) text")
    case (Object_from body)
    then show ?thesis
      using Suc.prems parse_head_body [of limits lib depth "nodes + 1" "text" body]
      by (auto dest!: parse_members_rest [rotated] intro: Suc.IH)
  next
    case (Array_from body)
    then show ?thesis
      using Suc.prems parse_head_body [of limits lib depth "nodes + 1" "text" body]
      by (auto dest!: parse_elements_rest [rotated] intro: Suc.IH)
  next
    case (Complete p)
    then show ?thesis using Suc.prems by (auto dest: parse_head_complete_rest)
  qed
qed simp

section \<open>The fuel is enough\<close>

lemma parse_members_fuel:
  assumes "\<And>n t. length t < bound \<Longrightarrow> value n t \<noteq> Out_of_fuel"
    and "\<And>n t v n' r. value n t = Parsed v n' r \<Longrightarrow> length r < length t"
  shows "length text < fuel \<Longrightarrow> length text < bound
         \<Longrightarrow> parse_members fuel value limits nodes members text \<noteq> Out_of_fuel"
proof (induction fuel arbitrary: nodes members "text")
  case (Suc fuel)
  show ?case
  proof (cases "parse_member_name limits members text")
    case (Inr p)
    obtain key rest where p: "p = (key, rest)" by (cases p)
    have rest: "length rest < length text" using Inr p parse_member_name_rest by blast
    then have no: "value nodes rest \<noteq> Out_of_fuel" using assms(1) Suc.prems by simp
    have "parse_members fuel value limits n ms tail \<noteq> Out_of_fuel"
      if "value nodes rest = Parsed v n' r" "after_member limits k r = Another tail" for v n' r k tail n ms
      using assms(2) [OF that(1)] after_member_rest(1) [OF that(2)] rest Suc.prems
      by (intro Suc.IH) auto
    then show ?thesis using Inr p no by (auto split: parsed.splits separator.splits)
  qed simp
qed simp

lemma parse_elements_fuel:
  assumes "\<And>n t. length t < bound \<Longrightarrow> value n t \<noteq> Out_of_fuel"
    and "\<And>n t v n' r. value n t = Parsed v n' r \<Longrightarrow> length r < length t"
  shows "length text < fuel \<Longrightarrow> length text < bound
         \<Longrightarrow> parse_elements fuel value limits nodes vs text \<noteq> Out_of_fuel"
proof (induction fuel arbitrary: nodes vs "text")
  case (Suc fuel)
  have no: "value nodes text \<noteq> Out_of_fuel" using assms(1) Suc.prems by simp
  have "parse_elements fuel value limits n ms tail \<noteq> Out_of_fuel"
    if "value nodes text = Parsed v n' r" "after_element limits k r = Another tail" for v n' r k tail n ms
    using assms(2) [OF that(1)] after_element_rest(1) [OF that(2)] Suc.prems
    by (intro Suc.IH) auto
  then show ?case using no by (auto split: parsed.splits separator.splits)
qed simp

lemma parse_scalar_fuel: "lift_result nodes r \<noteq> Out_of_fuel"
  by (cases "(nodes, r)" rule: lift_result.cases) auto

lemma parse_head_fuel: "parse_head limits lib depth nodes text \<noteq> Complete Out_of_fuel"
  by (auto simp: parse_head_def Let_def parse_scalar_fuel split: list.splits)

lemma parse_fuel_sufficient:
  "length text < fuel \<Longrightarrow> parse_value fuel limits lib depth nodes text \<noteq> Out_of_fuel"
proof (induction fuel arbitrary: depth nodes "text")
  case (Suc fuel)
  show ?case
  proof (cases "parse_head limits lib depth (nodes + 1) text")
    case (Object_from body)
    then have "length body < fuel"
      using Suc.prems parse_head_body [of limits lib depth "nodes + 1" "text" body] by auto
    then show ?thesis
      using Object_from parse_members_fuel [OF Suc.IH parse_value_rest] by simp
  next
    case (Array_from body)
    then have "length body < fuel"
      using Suc.prems parse_head_body [of limits lib depth "nodes + 1" "text" body] by auto
    then show ?thesis
      using Array_from parse_elements_fuel [OF Suc.IH parse_value_rest] by simp
  next
    case (Complete p)
    then show ?thesis using parse_head_fuel [of limits lib depth "Suc nodes" "text"] by auto
  qed
qed simp

end
