(* ===== verification/Json_Render.thy ===== *)
theory Json_Render
  imports Json
begin

text \<open>
  The compact text of a JSON value, and the round trip through the parser of
  \<^verbatim>\<open>src/core/Json.cpp\<close>: the parser reads the text of a value within its limits back as that
  value, whatever follows the text in the input.
\<close>

section \<open>The text of a value\<close>

definition quoted :: "string \<Rightarrow> string" where
  "quoted s = [chr_quote] @ escape_json s @ [chr_quote]"

fun comma_separated :: "string list \<Rightarrow> string" where
  "comma_separated [] = []"
| "comma_separated [t] = t"
| "comma_separated (t # ts) = t @ CHR '','' # comma_separated ts"

fun render :: "'d json \<Rightarrow> string" where
  "render JNull = ''null''"
| "render (JBool b) = (if b then ''true'' else ''false'')"
| "render (JInt i) = dec_int i"
| "render (JUint n) = dec_u64 n"
| "render (JDouble d) = []"
| "render (JString s) = quoted s"
| "render (JArray vs) = ''['' @ comma_separated (map render vs) @ '']''"
| "render (JObject ms) =
     ''{'' @ comma_separated (map (\<lambda>(k, v). quoted k @ CHR '':'' # render v) ms) @ ''}''"

definition render_member :: "string \<times> 'd json \<Rightarrow> string" where
  "render_member m = quoted (fst m) @ CHR '':'' # render (snd m)"

lemma render_object: "render (JObject ms) = ''{'' @ comma_separated (map render_member ms) @ ''}''"
  by (simp add: render_member_def [abs_def] case_prod_beta')

declare render.simps(8) [simp del]

text \<open>The values the parser gives back unchanged: integers are \<open>JInt\<close> only when negative,
  names are distinct, and no limit is exceeded.\<close>

fun fits :: "json_limits \<Rightarrow> 'd json \<Rightarrow> bool" where
  "fits limits JNull = True"
| "fits limits (JBool b) = True"
| "fits limits (JInt i) = (- (2 ^ 63) \<le> i \<and> i < 0)"
| "fits limits (JUint n) = True"
| "fits limits (JDouble d) = False"
| "fits limits (JString s) = (length s \<le> max_string_bytes limits)"
| "fits limits (JArray vs) = (length vs \<le> max_array_elements limits \<and> list_all (fits limits) vs)"
| "fits limits (JObject ms) =
     (length ms \<le> max_object_members limits \<and> distinct (map fst ms)
      \<and> list_all (\<lambda>m. length (fst m) \<le> max_string_bytes limits \<and> fits limits (snd m)) ms)"

fun json_height :: "'d json \<Rightarrow> nat" where
  "json_height (JArray vs) = foldr max (map (\<lambda>v. json_height v + 1) vs) 0"
| "json_height (JObject ms) = foldr max (map (\<lambda>m. json_height (snd m) + 1) ms) 0"
| "json_height _ = 0"

fun json_nodes :: "'d json \<Rightarrow> nat" where
  "json_nodes (JArray vs) = 1 + sum_list (map json_nodes vs)"
| "json_nodes (JObject ms) = 1 + sum_list (map (\<lambda>m. json_nodes (snd m)) ms)"
| "json_nodes _ = 1"

section \<open>Strings\<close>

lemma hex_value_hex_digit: "n < 16 \<Longrightarrow> hex_value (hex_digit n) = Some n"
proof -
  assume "n < 16"
  then have "n \<in> set [0..<16]" by simp
  then show ?thesis by (auto simp: upt_rec hex_digit_def kHexDigits_def hex_value_def)
qed

lemma hex4_loop_control:
  assumes "n < 32"
  shows "hex4_loop 0 (''00'' @ [hex_digit (n div 16 mod 16), hex_digit (n mod 16)]) = Some (of_nat n)"
proof -
  have "n \<in> set [0..<32]" using assms by simp
  then show ?thesis
    by (simp add: upt_rec hex_digit_def kHexDigits_def, elim disjE) (simp_all add: hex_value_def)
qed

lemma parse_control_escape:
  assumes "(of_char c :: nat) < 32"
  shows "parse_unicode (''00'' @ hex_digit (of_char c div 16 mod 16) # hex_digit (of_char c mod 16) # rest)
         = Inr ([c], rest)"
proof -
  define n :: nat where "n = of_char c"
  have n: "n < 32" using assms by (simp add: n_def)
  have u: "unat (of_nat n :: u32) = n" using n by (simp add: unat_of_nat take_bit_eq_mod)
  have lt: "(of_nat n :: u32) < 0x80" using n by (simp add: word_less_nat_alt u)
  then have "\<not> (0xD800 \<le> (of_nat n :: u32))" "\<not> (0xDC00 \<le> (of_nat n :: u32))"
    by (auto simp: word_le_nat_alt word_less_nat_alt u)
  then show ?thesis
    using hex4_loop_control [OF n] lt
    by (simp add: parse_unicode_def parse_hex4_def qobs_try_assign_def append_utf8_def byte_char_def u
        flip: n_def) (simp add: n_def)
qed

lemma parse_string_char:
  assumes "length (out @ [c]) \<le> max_string_bytes limits"
  shows "parse_string limits out (escape_char c @ rest) = parse_string limits (out @ [c]) rest"
proof (cases "escape_char c = [c]")
  case True
  then have "c \<noteq> chr_quote \<and> c \<noteq> chr_escape \<and> \<not> (of_char c :: nat) < 0x20"
    by (auto simp: escape_char_def split: if_splits)
  then show ?thesis using assms True by (subst parse_string.simps) simp
next
  case False
  then obtain e where e: "escape_char c = chr_escape # e" "parse_escape (e @ rest) = Inr ([c], rest)"
    using parse_control_escape [of c rest]
    by (auto simp: escape_char_def parse_escape_def split: if_splits)
  then show ?thesis using assms by (subst parse_string.simps) simp
qed

lemma parse_string_escaped:
  "length (out @ s) \<le> max_string_bytes limits \<Longrightarrow>
   parse_string limits out (escape_json s @ chr_quote # rest) = Inr (out @ s, rest)"
proof (induction s arbitrary: out)
  case Nil
  then show ?case by (subst parse_string.simps) (simp add: escape_json_def)
next
  case (Cons c s)
  then show ?case
    using parse_string_char [of out c limits "escape_json s @ chr_quote # rest"] Cons.IH [of "out @ [c]"]
    by (simp add: escape_json_def)
qed

section \<open>Numbers\<close>

text \<open>What may follow a number without becoming part of it.\<close>

definition ends_number :: "string \<Rightarrow> bool" where
  "ends_number rest \<longleftrightarrow>
     (case rest of [] \<Rightarrow> True
      | c # _ \<Rightarrow> \<not> is_digit c \<and> c \<noteq> CHR ''.'' \<and> c \<noteq> CHR ''e'' \<and> c \<noteq> CHR ''E'')"

lemma ends_number_simps [simp]:
  "ends_number []" "ends_number (CHR '','' # rest)" "ends_number (CHR '']'' # rest)"
  "ends_number (CHR ''}'' # rest)"
  by (simp_all add: ends_number_def is_digit_def)

lemma ends_number_fraction: "ends_number rest \<Longrightarrow> number_fraction rest = Inr ([], rest)"
  by (auto simp: ends_number_def number_fraction_def split: list.splits)

lemma ends_number_exponent: "ends_number rest \<Longrightarrow> number_exponent rest = Inr ([], rest)"
  by (auto simp: ends_number_def number_exponent_def split: list.splits)

lemma dec_nat_zero: "dec_nat 0 = ''0''"
  by (subst dec_nat.simps) (simp add: digit_char_def char_of_eq_iff take_bit_eq_mod)

lemma hd_dec_nat: "0 < n \<Longrightarrow> hd (dec_nat n) \<noteq> CHR ''0''"
proof (induction n rule: dec_nat.induct)
  case (1 n)
  show ?case
  proof (cases "n < 10")
    case True
    then have "n \<in> {1, 2, 3, 4, 5, 6, 7, 8, 9}" using 1 by auto
    then show ?thesis by (subst dec_nat.simps) (auto simp: digit_char_def char_of_eq_iff take_bit_eq_mod)
  next
    case False
    then show ?thesis using 1 by (subst dec_nat.simps) (simp add: hd_append)
  qed
qed

lemma takeWhile_digits:
  assumes "list_all is_digit ds" and "ends_number rest"
  shows "takeWhile is_digit (ds @ rest) = ds" "dropWhile is_digit (ds @ rest) = rest"
  using assms by (induction ds) (auto simp: ends_number_def split: list.splits)

lemma number_integer_dec:
  assumes "ends_number rest"
  shows "number_integer (dec_nat n @ rest) = Inr (dec_nat n, rest)"
proof (cases "n = 0")
  case True
  then show ?thesis
    using assms by (auto simp: number_integer_def dec_nat_zero starts_digit_def ends_number_def is_digit_def
        split: list.splits)
next
  case False
  obtain d ds where ds: "dec_nat n = d # ds" using dec_nat_nonempty [of n] by (cases "dec_nat n") auto
  have "is_digit d" using dec_nat_digits [of n] ds by simp
  then show ?thesis
    using False ds hd_dec_nat [of n] takeWhile_digits [OF dec_nat_digits [of n] assms]
    by (auto simp: number_integer_def starts_digit_def take_digits_def)
qed

lemma hd_dec_nat_digit: "is_digit (hd (dec_nat n))"
  using dec_nat_digits [of n] dec_nat_nonempty [of n] by (cases "dec_nat n") auto

lemma parse_number_unsigned:
  assumes "ends_number rest"
  shows "parse_number lib (dec_u64 w @ rest) = Inr (JUint w, rest)"
proof -
  have "hd (dec_nat (unat w)) \<noteq> CHR ''-''"
    using hd_dec_nat_digit [of "unat w"] by (auto simp: is_digit_def)
  then show ?thesis
    using assms unat_u64_bound [of w]
    by (simp add: parse_number_def dec_u64_def number_integer_dec ends_number_fraction
        ends_number_exponent qobs_try_assign_def from_chars_u64_def dec_value_dec_nat)
qed

lemma parse_number_negative:
  assumes "ends_number rest" and "- (2 ^ 63) \<le> i" and "i < 0"
  shows "parse_number lib (dec_int i @ rest) = Inr (JInt i, rest)"
  using assms
  by (simp add: parse_number_def dec_int_def number_integer_dec ends_number_fraction
      ends_number_exponent qobs_try_assign_def from_chars_i64_def dec_value_dec_nat nat_le_iff)

section \<open>Values\<close>

lemma skip_whitespace_other [simp]:
  "\<not> is_json_whitespace c \<Longrightarrow> skip_whitespace (c # rest) = c # rest"
  by (simp add: skip_whitespace_def)

lemma not_whitespace [simp]:
  "\<not> is_json_whitespace chr_quote" "\<not> is_json_whitespace (CHR '','')" "\<not> is_json_whitespace (CHR '']'')"
  "\<not> is_json_whitespace (CHR ''}'')" "\<not> is_json_whitespace (CHR ''['')" "\<not> is_json_whitespace (CHR ''{'')"
  "\<not> is_json_whitespace (CHR '':'')"
  "is_digit c \<Longrightarrow> \<not> is_json_whitespace c" "\<not> is_json_whitespace (CHR ''-'')"
  by (auto simp: is_json_whitespace_def is_digit_def)

lemma dec_nat_Cons: obtains d ds where "dec_nat n = d # ds" "is_digit d"
  using dec_nat_digits [of n] dec_nat_nonempty [of n] by (cases "dec_nat n") auto

definition plain_start :: "string \<Rightarrow> bool" where
  "plain_start t \<longleftrightarrow> t \<noteq> [] \<and> \<not> is_json_whitespace (hd t) \<and> hd t \<noteq> CHR '']''"

lemma plain_start_Cons: "plain_start (c # t) \<longleftrightarrow> \<not> is_json_whitespace c \<and> c \<noteq> CHR '']''"
  by (simp add: plain_start_def)

lemma plain_start_dec_nat: "plain_start (dec_nat n)"
proof -
  obtain d ds where "dec_nat n = d # ds" "is_digit d" by (rule dec_nat_Cons)
  then show ?thesis by (auto simp: plain_start_Cons is_digit_def)
qed

lemma plain_start_render: "fits limits v \<Longrightarrow> plain_start (render v)"
  by (cases v)
    (simp_all add: plain_start_Cons plain_start_dec_nat quoted_def render_object dec_int_def dec_u64_def
      is_json_whitespace_def)

lemma plain_start_append: "plain_start t \<Longrightarrow> plain_start (t @ u)"
  by (simp add: plain_start_def)

lemma plain_start_skip: "plain_start t \<Longrightarrow> skip_whitespace t = t"
  by (cases t) (auto simp: plain_start_def)

lemma plain_start_elements:
  "list_all (fits limits) vs \<Longrightarrow> vs \<noteq> [] \<Longrightarrow> plain_start (comma_separated (map render vs) @ rest)"
  by (cases vs; cases "tl vs") (auto intro!: plain_start_append plain_start_render)

lemma json_nodes_pos: "1 \<le> json_nodes v"
  by (cases v) auto

text \<open>\<open>reads value v\<close>: the parser \<open>value\<close> gives \<open>v\<close> back from its text.\<close>

definition reads :: "json_limits \<Rightarrow> (nat \<Rightarrow> string \<Rightarrow> 'd parsed) \<Rightarrow> 'd json \<Rightarrow> bool" where
  "reads limits value v \<longleftrightarrow>
     (\<forall>nodes rest. ends_number rest \<longrightarrow> nodes + json_nodes v \<le> max_nodes limits \<longrightarrow>
        value nodes (render v @ rest) = Parsed v (nodes + json_nodes v) rest)"

lemma parse_member_name_rendered:
  assumes "length key \<le> max_string_bytes limits" and "key \<notin> fst ` set members"
  shows "parse_member_name limits members (quoted key @ CHR '':'' # rest) = Inr (key, rest)"
  using assms
  by (simp add: parse_member_name_def quoted_def qobs_try_assign_def parse_string_escaped
      map_of_eq_None_iff)

lemma after_member_simps [simp]:
  "n \<le> max_object_members limits \<Longrightarrow> after_member limits n (CHR '','' # rest) = Another rest"
  "n \<le> max_object_members limits \<Longrightarrow> after_member limits n (CHR ''}'' # rest) = Closing rest"
  by (simp_all add: after_member_def)

lemma after_element_simps [simp]:
  "n \<le> max_array_elements limits \<Longrightarrow> after_element limits n (CHR '','' # rest) = Another rest"
  "n \<le> max_array_elements limits \<Longrightarrow> after_element limits n (CHR '']'' # rest) = Closing rest"
  by (simp_all add: after_element_def)

lemma parse_members_rendered:
  assumes "list_all (\<lambda>m. reads limits value (snd m) \<and> length (fst m) \<le> max_string_bytes limits) ms"
    and "ms \<noteq> []" and "length ms \<le> fuel" and "distinct (map fst (prior @ ms))"
    and "length (prior @ ms) \<le> max_object_members limits"
    and "nodes + sum_list (map (\<lambda>m. json_nodes (snd m)) ms) \<le> max_nodes limits"
  shows "parse_members fuel value limits nodes prior
           (comma_separated (map render_member ms) @ CHR ''}'' # rest)
         = Parsed (JObject (prior @ ms)) (nodes + sum_list (map (\<lambda>m. json_nodes (snd m)) ms)) rest"
  using assms
proof (induction ms arbitrary: fuel prior nodes)
  case (Cons m ms)
  obtain key v where m: "m = (key, v)" by (cases m)
  obtain fuel' where fuel: "fuel = Suc fuel'" using Cons.prems by (cases fuel) auto
  have name: "parse_member_name limits prior (render_member m @ tail) = Inr (key, render v @ tail)" for tail
    using Cons.prems parse_member_name_rendered [of key limits prior]
    by (simp add: m render_member_def)
  have val: "value nodes (render v @ tail) = Parsed v (nodes + json_nodes v) tail"
    if "ends_number tail" for tail
    using Cons.prems that by (auto simp: m reads_def)
  show ?case
  proof (cases ms)
    case Nil
    then show ?thesis
      using Cons.prems name [of "CHR ''}'' # rest"] val [of "CHR ''}'' # rest"] by (simp add: fuel m)
  next
    case (Cons m' ms')
    define tail where "tail = comma_separated (map render_member ms) @ CHR ''}'' # rest"
    have "parse_members fuel' value limits (nodes + json_nodes v) (prior @ [(key, v)]) tail
          = Parsed (JObject ((prior @ [(key, v)]) @ ms))
              (nodes + json_nodes v + sum_list (map (\<lambda>m. json_nodes (snd m)) ms)) rest"
      unfolding tail_def by (rule Cons.IH) (use Cons.prems local.Cons in \<open>auto simp: m fuel\<close>)
    moreover have "comma_separated (map render_member (m # ms)) @ CHR ''}'' # rest
                   = render_member m @ CHR '','' # tail"
      using local.Cons by (simp add: tail_def)
    ultimately show ?thesis
      using Cons.prems name [of "CHR '','' # tail"] val [of "CHR '','' # tail"]
      by (simp add: fuel m add.assoc)
  qed
qed simp

lemma parse_elements_rendered:
  assumes "list_all (reads limits value) vs"
    and "vs \<noteq> []" and "length vs \<le> fuel"
    and "length (prior @ vs) \<le> max_array_elements limits"
    and "nodes + sum_list (map json_nodes vs) \<le> max_nodes limits"
  shows "parse_elements fuel value limits nodes prior
           (comma_separated (map render vs) @ CHR '']'' # rest)
         = Parsed (JArray (prior @ vs)) (nodes + sum_list (map json_nodes vs)) rest"
  using assms
proof (induction vs arbitrary: fuel prior nodes)
  case (Cons v vs)
  obtain fuel' where fuel: "fuel = Suc fuel'" using Cons.prems by (cases fuel) auto
  have val: "value nodes (render v @ tail) = Parsed v (nodes + json_nodes v) tail"
    if "ends_number tail" for tail
    using Cons.prems that by (auto simp: reads_def)
  show ?case
  proof (cases vs)
    case Nil
    then show ?thesis
      using Cons.prems val [of "CHR '']'' # rest"] by (simp add: fuel)
  next
    case (Cons v' vs')
    define tail where "tail = comma_separated (map render vs) @ CHR '']'' # rest"
    have "parse_elements fuel' value limits (nodes + json_nodes v) (prior @ [v]) tail
          = Parsed (JArray ((prior @ [v]) @ vs)) (nodes + json_nodes v + sum_list (map json_nodes vs)) rest"
      unfolding tail_def by (rule Cons.IH) (use Cons.prems local.Cons in \<open>auto simp: fuel\<close>)
    moreover have "comma_separated (map render (v # vs)) @ CHR '']'' # rest = render v @ CHR '','' # tail"
      using local.Cons by (simp add: tail_def)
    ultimately show ?thesis
      using Cons.prems val [of "CHR '','' # tail"] by (simp add: fuel add.assoc)
  qed
qed simp

lemma json_height_child:
  "v \<in> set vs \<Longrightarrow> json_height v + 1 \<le> json_height (JArray vs)"
  "m \<in> set ms \<Longrightarrow> json_height (snd m) + 1 \<le> json_height (JObject ms)"
  by (simp_all, induction vs, auto, induction ms, auto)

lemma json_nodes_child:
  "v \<in> set vs \<Longrightarrow> json_nodes v < json_nodes (JArray vs)"
  "m \<in> set ms \<Longrightarrow> json_nodes (snd m) < json_nodes (JObject ms)"
  by (auto simp: less_Suc_eq_le intro: member_le_sum_list)

lemma length_le_sum_list:
  fixes f :: "'a \<Rightarrow> nat"
  shows "(\<And>x. 1 \<le> f x) \<Longrightarrow> length xs \<le> sum_list (map f xs)"
  by (induction xs) (auto intro: add_le_mono [of 1, simplified])

lemma json_nodes_length:
  "length vs < json_nodes (JArray vs)" "length ms < json_nodes (JObject ms)"
  using length_le_sum_list [of json_nodes vs, OF json_nodes_pos]
    length_le_sum_list [of "\<lambda>m. json_nodes (snd m)" ms, OF json_nodes_pos]
  by (simp_all add: less_Suc_eq_le)

fun is_scalar :: "'d json \<Rightarrow> bool" where
  "is_scalar (JArray vs) = False"
| "is_scalar (JObject ms) = False"
| "is_scalar v = True"

lemma parse_scalar_digit:
  assumes "is_digit c"
  shows "c \<noteq> CHR ''{'' \<and> c \<noteq> CHR ''['' \<and> parse_scalar limits lib c tail = parse_number lib (c # tail)"
proof -
  have "c \<noteq> k" if "\<not> is_digit k" for k using assms that by blast
  then show ?thesis using assms by (simp add: parse_scalar_def is_digit_def)
qed

lemma parse_scalar_literals:
  "parse_scalar limits lib (CHR ''t'') (''rue'' @ rest) = Inr (JBool True, rest)"
  "parse_scalar limits lib (CHR ''f'') (''alse'' @ rest) = Inr (JBool False, rest)"
  "parse_scalar limits lib (CHR ''n'') (''ull'' @ rest) = Inr (JNull, rest)"
  by (simp_all add: parse_scalar_def parse_literal_def)

lemma parse_scalar_rendered:
  assumes "fits limits v" and "ends_number rest" and "is_scalar v" and "render v @ rest = c # tail"
  shows "c \<noteq> CHR ''{'' \<and> c \<noteq> CHR ''['' \<and> parse_scalar limits lib c tail = Inr (v, rest)"
proof (cases v)
  case (JInt i)
  then have "c = CHR ''-''" using assms by (simp add: dec_int_def)
  then show ?thesis
    using JInt assms parse_number_negative [of rest i lib] by (simp add: parse_scalar_def)
next
  case (JUint w)
  obtain d ds where "dec_nat (unat w) = d # ds" "is_digit d" by (rule dec_nat_Cons)
  then have "is_digit c" using JUint assms by (simp add: dec_u64_def)
  then show ?thesis
    using JUint assms parse_number_unsigned [of rest lib w] by (simp add: parse_scalar_digit)
next
  case (JString s)
  then have "c = chr_quote" "tail = escape_json s @ chr_quote # rest"
    using assms by (auto simp: quoted_def)
  then show ?thesis
    using assms JString parse_string_escaped [of "[]" s limits rest]
    by (simp add: parse_scalar_def qobs_try_assign_def)
next
  case (JBool b)
  then have "c = (if b then CHR ''t'' else CHR ''f'')" "tail = (if b then ''rue'' else ''alse'') @ rest"
    using assms(4) by (simp_all split: if_splits)
  then show ?thesis using JBool parse_scalar_literals [of limits lib] by simp
next
  case JNull
  then have "c = CHR ''n''" "tail = ''ull'' @ rest" using assms(4) by simp_all
  then show ?thesis using JNull parse_scalar_literals(3) [of limits lib] by simp
qed (use assms(1,3) in simp_all)

lemma parse_head_limits_ok:
  assumes "depth \<le> max_depth limits" and "nodes \<le> max_nodes limits"
  shows "parse_head limits lib depth nodes (CHR ''{'' # rest) =
           (let body = skip_whitespace rest
            in if body \<noteq> [] \<and> hd body = CHR ''}'' then Complete (Parsed (JObject []) nodes (tl body))
               else Object_from body)" (is ?object)
    and "parse_head limits lib depth nodes (CHR ''['' # rest) =
           (let body = skip_whitespace rest
            in if body \<noteq> [] \<and> hd body = CHR '']'' then Complete (Parsed (JArray []) nodes (tl body))
               else Array_from body)" (is ?array)
  using assms by (simp_all add: parse_head_def)

lemma parse_value_scalar:
  assumes "fits limits v" and "ends_number rest" and "is_scalar v" and "1 \<le> fuel"
    and "depth \<le> max_depth limits" and "Suc nodes \<le> max_nodes limits"
  shows "parse_value fuel limits lib depth nodes (render v @ rest) = Parsed v (Suc nodes) rest"
proof -
  have "plain_start (render v @ rest)"
    using assms(1) by (intro plain_start_append plain_start_render)
  then obtain c tail where ct: "render v @ rest = c # tail" "\<not> is_json_whitespace c"
    by (cases "render v @ rest") (auto simp: plain_start_def)
  then show ?thesis
    using assms parse_scalar_rendered [OF assms(1-3) ct(1)] by (cases fuel) (simp_all add: parse_head_def)
qed

lemma parse_value_array:
  assumes "list_all (reads limits (parse_value fuel limits lib (depth + 1))) vs"
    and "fits limits (JArray vs)" and "json_nodes (JArray vs) \<le> Suc fuel"
    and "depth \<le> max_depth limits" and "nodes + json_nodes (JArray vs) \<le> max_nodes limits"
  shows "parse_value (Suc fuel) limits lib depth nodes (render (JArray vs) @ rest)
         = Parsed (JArray vs) (nodes + json_nodes (JArray vs)) rest"
proof (cases "vs = []")
  case True
  then show ?thesis using assms by (simp add: parse_head_limits_ok)
next
  case False
  define body where "body = comma_separated (map render vs) @ CHR '']'' # rest"
  have body: "plain_start body"
    using assms(2) False plain_start_elements [of limits vs] by (simp add: body_def)
  have head: "parse_head limits lib depth (nodes + 1) (render (JArray vs) @ rest) = Array_from body"
    using assms body plain_start_skip [OF body]
    by (simp add: parse_head_limits_ok plain_start_def flip: body_def)
  have "length vs \<le> fuel" using assms(3) json_nodes_length(1) [of vs] by simp
  then have "parse_elements fuel (parse_value fuel limits lib (depth + 1)) limits (nodes + 1) [] body
             = Parsed (JArray ([] @ vs)) (nodes + 1 + sum_list (map json_nodes vs)) rest"
    unfolding body_def using assms False by (intro parse_elements_rendered) auto
  then show ?thesis using head by simp
qed

lemma parse_value_object:
  assumes "list_all (\<lambda>m. reads limits (parse_value fuel limits lib (depth + 1)) (snd m)) ms"
    and "fits limits (JObject ms)" and "json_nodes (JObject ms) \<le> Suc fuel"
    and "depth \<le> max_depth limits" and "nodes + json_nodes (JObject ms) \<le> max_nodes limits"
  shows "parse_value (Suc fuel) limits lib depth nodes (render (JObject ms) @ rest)
         = Parsed (JObject ms) (nodes + json_nodes (JObject ms)) rest"
proof (cases ms)
  case Nil
  then show ?thesis using assms by (simp add: parse_head_limits_ok render_object)
next
  case (Cons m ms')
  define body where "body = comma_separated (map render_member ms) @ CHR ''}'' # rest"
  obtain tail where body: "body = chr_quote # tail"
    using Cons by (cases ms') (auto simp: body_def render_member_def quoted_def)
  have head: "parse_head limits lib depth (nodes + 1) (render (JObject ms) @ rest) = Object_from body"
    using assms body by (simp add: parse_head_limits_ok render_object flip: body_def)
  have "length ms \<le> fuel" using assms(3) json_nodes_length(2) [of ms] by simp
  then have "parse_members fuel (parse_value fuel limits lib (depth + 1)) limits (nodes + 1) [] body
             = Parsed (JObject ([] @ ms)) (nodes + 1 + sum_list (map (\<lambda>m. json_nodes (snd m)) ms)) rest"
    unfolding body_def using assms Cons by (intro parse_members_rendered) (auto simp: list_all_iff)
  then show ?thesis using head by simp
qed

lemma parse_value_rendered:
  assumes "fits limits v" and "ends_number rest" and "json_nodes v \<le> fuel"
    and "depth + json_height v \<le> max_depth limits" and "nodes + json_nodes v \<le> max_nodes limits"
  shows "parse_value fuel limits lib depth nodes (render v @ rest) = Parsed v (nodes + json_nodes v) rest"
  using assms
proof (induction v arbitrary: fuel depth nodes rest)
  case (JArray vs)
  then obtain fuel' where fuel: "fuel = Suc fuel'" by (cases fuel) auto
  have "reads limits (parse_value fuel' limits lib (depth + 1)) v" if "v \<in> set vs" for v
    unfolding reads_def
    using JArray.IH [OF that] JArray.prems json_nodes_child(1) [OF that] json_height_child(1) [OF that] that
    by (auto simp: fuel list_all_iff)
  then show ?case
    unfolding fuel using JArray.prems by (intro parse_value_array) (auto simp: fuel list_all_iff)
next
  case (JObject ms)
  then obtain fuel' where fuel: "fuel = Suc fuel'" by (cases fuel) auto
  have "reads limits (parse_value fuel' limits lib (depth + 1)) (snd m)" if "m \<in> set ms" for m
    unfolding reads_def
    using JObject.IH [OF that, of "snd m"] JObject.prems json_nodes_child(2) [OF that]
      json_height_child(2) [OF that] that
    by (auto simp: fuel list_all_iff snds.simps)
  then show ?case
    unfolding fuel using JObject.prems by (intro parse_value_object) (auto simp: fuel list_all_iff)
qed (simp_all only: json_nodes.simps json_height.simps add_0_right Suc_eq_plus1 [symmetric]
      parse_value_scalar is_scalar.simps)

section \<open>Whole documents\<close>

lemma comma_separated_length: "sum_list (map length ts) \<le> length (comma_separated ts)"
  by (induction ts rule: comma_separated.induct) auto

lemma json_nodes_le_render: "fits limits v \<Longrightarrow> json_nodes v \<le> length (render v)"
proof (induction v)
  case (JArray vs)
  have "sum_list (map json_nodes vs) \<le> sum_list (map length (map render vs))"
    unfolding map_map by (rule sum_list_mono) (use JArray in \<open>auto simp: list_all_iff\<close>)
  then show ?case using comma_separated_length [of "map render vs"] by simp
next
  case (JObject ms)
  have "json_nodes (snd m) \<le> length (render_member m)" if "m \<in> set ms" for m
    using JObject.IH [OF that, of "snd m"] JObject.prems that
    by (auto simp: list_all_iff snds.simps render_member_def)
  then have "sum_list (map (\<lambda>m. json_nodes (snd m)) ms) \<le> sum_list (map length (map render_member ms))"
    unfolding map_map by (intro sum_list_mono) auto
  then show ?case using comma_separated_length [of "map render_member ms"] by (simp add: render_object)
next
  case (JUint n)
  then show ?case using dec_nat_nonempty [of "unat n"] by (simp add: dec_u64_def Suc_le_eq)
qed (auto simp: quoted_def dec_int_def)

definition readable :: "json_limits \<Rightarrow> 'd json \<Rightarrow> bool" where
  "readable limits v \<longleftrightarrow>
     fits limits v \<and> json_height v \<le> max_depth limits \<and> json_nodes v \<le> max_nodes limits
     \<and> length (render v) \<le> max_document_bytes limits"

lemma parse_json_render:
  assumes "readable limits v"
  shows "parse_json (render v) limits lib = Inr v"
proof -
  have "json_nodes v \<le> json_fuel (render v)"
    using assms json_nodes_le_render [of limits v] by (auto simp: readable_def json_fuel_def)
  then show ?thesis
    using assms parse_value_rendered [of limits v "[]" "json_fuel (render v)" 0 0 lib]
    by (simp add: readable_def parse_json_def parse_document_def skip_whitespace_def)
qed

section \<open>The parser enforces its limits\<close>

text \<open>The values a parser may return, and what a parser function has to return for the counter and
  the depth it was called with.\<close>

fun bounded :: "json_limits \<Rightarrow> 'd json \<Rightarrow> bool" where
  "bounded limits (JString s) = (length s \<le> max_string_bytes limits)"
| "bounded limits (JArray vs) = (length vs \<le> max_array_elements limits \<and> list_all (bounded limits) vs)"
| "bounded limits (JObject ms) =
     (length ms \<le> max_object_members limits \<and> distinct (map fst ms)
      \<and> list_all (\<lambda>m. length (fst m) \<le> max_string_bytes limits \<and> bounded limits (snd m)) ms)"
| "bounded limits _ = True"

definition returns_bounded :: "json_limits \<Rightarrow> nat \<Rightarrow> (nat \<Rightarrow> string \<Rightarrow> 'd parsed) \<Rightarrow> bool" where
  "returns_bounded limits depth value \<longleftrightarrow>
     (\<forall>nodes text v nodes' rest. value nodes text = Parsed v nodes' rest \<longrightarrow>
        bounded limits v \<and> depth + json_height v \<le> max_depth limits
        \<and> nodes' = nodes + json_nodes v \<and> nodes' \<le> max_nodes limits)"

lemma parse_string_length:
  "parse_string limits out text = Inr (s, rest) \<Longrightarrow> length out \<le> max_string_bytes limits
   \<Longrightarrow> length s \<le> max_string_bytes limits"
proof (induction limits out "text" rule: parse_string.induct)
  case (1 limits out "text")
  then show ?case
    by (subst (asm) (3) parse_string.simps)
      (auto split: list.splits if_splits sum.splits)
qed

lemma parse_member_name_bounded:
  "parse_member_name limits members text = Inr (key, rest) \<Longrightarrow>
   length key \<le> max_string_bytes limits \<and> key \<notin> fst ` set members"
  by (force simp: parse_member_name_def Let_def qobs_try_assign_def map_of_eq_None_iff
      split: sum.splits if_splits dest: parse_string_length)

lemma after_member_count:
  "after_member limits n text = Another tail \<or> after_member limits n text = Closing tail
   \<Longrightarrow> n \<le> max_object_members limits"
  by (auto simp: after_member_def split: if_splits)

lemma after_element_count:
  "after_element limits n text = Another tail \<or> after_element limits n text = Closing tail
   \<Longrightarrow> n \<le> max_array_elements limits"
  by (auto simp: after_element_def split: if_splits)

lemma parse_number_bounded:
  "parse_number lib text = Inr (v, rest) \<Longrightarrow> bounded limits v \<and> is_scalar v"
  by (auto simp: parse_number_def Let_def qobs_try_assign_def
      split: sum.splits if_splits option.splits prod.splits)

lemma parse_scalar_bounded:
  assumes "parse_scalar limits lib c text = Inr (v, rest)"
  shows "bounded limits v \<and> is_scalar v"
  using assms
  by (auto simp: parse_scalar_def parse_literal_def qobs_try_assign_def
      split: if_splits sum.splits dest: parse_string_length parse_number_bounded)

lemma scalar_measures: "is_scalar v \<Longrightarrow> json_height v = 0 \<and> json_nodes v = 1"
  by (cases v) auto

lemma parse_head_bounded:
  assumes "parse_head limits lib depth nodes text = Complete (Parsed v nodes' rest)"
  shows "bounded limits v \<and> json_height v = 0 \<and> json_nodes v = 1 \<and> nodes' = nodes
         \<and> depth \<le> max_depth limits \<and> nodes \<le> max_nodes limits"
proof (cases "skip_whitespace text")
  case (Cons c body)
  then show ?thesis
    using assms
    by (cases "parse_scalar limits lib c body")
      (auto simp: parse_head_def Let_def split: if_splits dest!: parse_scalar_bounded scalar_measures)
qed (use assms in \<open>auto simp: parse_head_def split: if_splits\<close>)

lemma parse_head_guards:
  "parse_head limits lib depth nodes text = Object_from body
   \<or> parse_head limits lib depth nodes text = Array_from body
   \<Longrightarrow> depth \<le> max_depth limits \<and> nodes \<le> max_nodes limits"
  by (auto simp: parse_head_def split: if_splits)

lemma foldr_max_snoc: "foldr max xs (y :: nat) = max (foldr max xs 0) y"
  by (induction xs) auto

lemma parse_members_bounded:
  assumes val: "returns_bounded limits (depth + 1) value"
  shows "parse_members fuel value limits nodes members text = Parsed v nodes' rest
     \<Longrightarrow> bounded limits (JObject members) \<Longrightarrow> depth + json_height (JObject members) \<le> max_depth limits
     \<Longrightarrow> nodes \<le> max_nodes limits
     \<Longrightarrow> bounded limits v \<and> depth + json_height v \<le> max_depth limits \<and> nodes' \<le> max_nodes limits
         \<and> nodes' + json_nodes (JObject members) = nodes + json_nodes v"
proof (induction fuel arbitrary: nodes members "text")
  case (Suc fuel)
  obtain key r1 w n1 r2 where name: "parse_member_name limits members text = Inr (key, r1)"
    and w: "value nodes r1 = Parsed w n1 r2"
    using Suc.prems(1) by (auto split: sum.splits parsed.splits)
  define ms where "ms = members @ [(key, w)]"
  have w': "bounded limits w" "depth + 1 + json_height w \<le> max_depth limits" "n1 = nodes + json_nodes w"
      "n1 \<le> max_nodes limits"
    using val w unfolding returns_bounded_def by blast+
  have key: "length key \<le> max_string_bytes limits" "key \<notin> fst ` set members"
    using parse_member_name_bounded [OF name] by auto
  have count: "length members + 1 \<le> max_object_members limits"
  proof (cases "after_member limits (length members + 1) r2")
    case (Broken e)
    then show ?thesis using Suc.prems(1) name w by simp
  qed (use after_member_count in blast)+
  have ms: "bounded limits (JObject ms)" "depth + json_height (JObject ms) \<le> max_depth limits"
      "json_nodes (JObject ms) = json_nodes (JObject members) + json_nodes w"
    using Suc.prems key w' count by (auto simp: ms_def foldr_max_snoc [of _ "Suc _"])
  show ?case
  proof (cases "after_member limits (length members + 1) r2")
    case (Another tail)
    then show ?thesis
      using Suc.IH [of n1 ms tail] Suc.prems name w ms w' by (simp add: ms_def)
  next
    case (Closing tail)
    then show ?thesis using Suc.prems name w ms w' by (auto simp: ms_def)
  qed (use Suc.prems name w in simp)
qed simp

lemma parse_elements_bounded:
  assumes val: "returns_bounded limits (depth + 1) value"
  shows "parse_elements fuel value limits nodes vs text = Parsed v nodes' rest
     \<Longrightarrow> bounded limits (JArray vs) \<Longrightarrow> depth + json_height (JArray vs) \<le> max_depth limits
     \<Longrightarrow> nodes \<le> max_nodes limits
     \<Longrightarrow> bounded limits v \<and> depth + json_height v \<le> max_depth limits \<and> nodes' \<le> max_nodes limits
         \<and> nodes' + json_nodes (JArray vs) = nodes + json_nodes v"
proof (induction fuel arbitrary: nodes vs "text")
  case (Suc fuel)
  obtain w n1 r2 where w: "value nodes text = Parsed w n1 r2"
    using Suc.prems(1) by (auto split: parsed.splits)
  define ws where "ws = vs @ [w]"
  have w': "bounded limits w" "depth + 1 + json_height w \<le> max_depth limits" "n1 = nodes + json_nodes w"
      "n1 \<le> max_nodes limits"
    using val w unfolding returns_bounded_def by blast+
  have count: "length vs + 1 \<le> max_array_elements limits"
  proof (cases "after_element limits (length vs + 1) r2")
    case (Broken e)
    then show ?thesis using Suc.prems(1) w by simp
  qed (use after_element_count in blast)+
  have ws: "bounded limits (JArray ws)" "depth + json_height (JArray ws) \<le> max_depth limits"
      "json_nodes (JArray ws) = json_nodes (JArray vs) + json_nodes w"
    using Suc.prems w' count by (auto simp: ws_def foldr_max_snoc [of _ "Suc _"])
  show ?case
  proof (cases "after_element limits (length vs + 1) r2")
    case (Another tail)
    then show ?thesis
      using Suc.IH [of n1 ws tail] Suc.prems w ws w' by (simp add: ws_def)
  next
    case (Closing tail)
    then show ?thesis using Suc.prems w ws w' by (auto simp: ws_def)
  qed (use Suc.prems w in simp)
qed simp

lemma parse_value_bounded: "returns_bounded limits depth (parse_value fuel limits lib depth)"
proof (induction fuel arbitrary: depth)
  case 0
  then show ?case by (simp add: returns_bounded_def)
next
  case (Suc fuel)
  have "bounded limits v \<and> depth + json_height v \<le> max_depth limits
        \<and> nodes' = nodes + json_nodes v \<and> nodes' \<le> max_nodes limits"
    if parsed: "parse_value (Suc fuel) limits lib depth nodes text = Parsed v nodes' rest"
    for nodes "text" v nodes' rest
  proof (cases "parse_head limits lib depth (nodes + 1) text")
    case (Object_from body)
    then show ?thesis
      using parsed parse_head_guards [of limits lib depth "nodes + 1" "text" body]
        parse_members_bounded [OF Suc.IH, of fuel depth "nodes + 1" "[]" body v nodes' rest] by simp
  next
    case (Array_from body)
    then show ?thesis
      using parsed parse_head_guards [of limits lib depth "nodes + 1" "text" body]
        parse_elements_bounded [OF Suc.IH, of fuel depth "nodes + 1" "[]" body v nodes' rest] by simp
  next
    case (Complete p)
    then show ?thesis
      using parsed parse_head_bounded [of limits lib depth "nodes + 1" "text" v nodes' rest] by simp
  qed
  then show ?case unfolding returns_bounded_def by blast
qed

lemma parse_json_prefix_cases:
  assumes "parse_json text limits lib = Inr v"
  shows "length text \<le> max_document_bytes limits \<and>
         (\<exists>nodes rest. parse_value (json_fuel text) limits lib 0 0 text = Parsed v nodes rest)"
  using assms
  by (auto simp: parse_json_def parse_document_def split: if_splits parsed.splits)

section \<open>Properties\<close>

text \<open>C36: The parser ends. The mutual recursion of the parser terminates on every text: the fuel the
  top-level calls start with, one more than the length of the text, never runs out.\<close>

theorem parse_terminates:
  "parse_value (json_fuel text) limits lib 0 0 text \<noteq> Out_of_fuel"
  by (rule parse_fuel_sufficient) (simp add: json_fuel_def)

text \<open>C26: The bounded parser. A document that is accepted is within every limit: the text is no longer
  than the document limit, and the value's depth, its number of nodes, the length of every
  string and name, the sizes of all arrays and objects are within the configured bounds, and no
  object has two members of one name.\<close>

theorem parse_json_enforces_limits:
  "case parse_json text limits lib of
     Inl e \<Rightarrow> True
   | Inr v \<Rightarrow> length text \<le> max_document_bytes limits \<and> bounded limits v
       \<and> json_height v \<le> max_depth limits \<and> json_nodes v \<le> max_nodes limits"
proof (cases "parse_json text limits lib")
  case (Inr v)
  then obtain nodes rest where
    "length text \<le> max_document_bytes limits"
    "parse_value (json_fuel text) limits lib 0 0 text = Parsed v nodes rest"
    using parse_json_prefix_cases by blast
  then show ?thesis
    using Inr parse_value_bounded [of limits 0 "json_fuel text" lib] unfolding returns_bounded_def
    by fastforce
qed simp

end
