(* ===== verification/Json_Writer.thy ===== *)
theory Json_Writer
  imports Json_Render
begin

text \<open>
  The deterministic JSON writer (\<^verbatim>\<open>JsonWriter\<close> of \<^verbatim>\<open>src/core/Json.cpp\<close>): a buffer, a stack of
  the open containers and a sticky error. Its lemmas show what a sequence of calls that follows
  a value leaves in the buffer, and that the parser reads that text back.
\<close>

section \<open>The writer\<close>

datatype frame = In_Array | In_Object

text \<open>The stacks have their top first.\<close>

record json_writer =
  w_buffer :: string
  w_stack :: "frame list"
  w_has_items :: "bool list"
  w_awaiting_value :: bool
  w_pretty :: bool
  w_error :: status

definition new_writer :: "bool \<Rightarrow> json_writer" where
  "new_writer pretty =
     \<lparr>w_buffer = [], w_stack = [], w_has_items = [], w_awaiting_value = False, w_pretty = pretty,
      w_error = success\<rparr>"

type_synonym write_op = "json_writer \<Rightarrow> status \<times> json_writer"

text \<open>A sequence of calls, each under \<^verbatim>\<open>QOBS_TRY\<close>.\<close>

fun write_seq :: "write_op list \<Rightarrow> write_op" where
  "write_seq [] w = (success, w)"
| "write_seq (op # ops) w =
     (case op w of (s, w') \<Rightarrow> if status_ok s then write_seq ops w' else (s, w'))"

definition writer_fail :: "error_code \<Rightarrow> string \<Rightarrow> write_op" where
  "writer_fail code message w =
     (let w' = (if status_ok (w_error w) then w\<lparr>w_error := failure code message\<rparr> else w)
      in (w_error w', w'))"

definition put_text :: "string \<Rightarrow> write_op" where
  "put_text t w = (success, w\<lparr>w_buffer := w_buffer w @ t\<rparr>)"

definition newline_indent :: "json_writer \<Rightarrow> json_writer" where
  "newline_indent w =
     (if \<not> w_pretty w then w
      else w\<lparr>w_buffer := w_buffer w @ CHR 0x0A # replicate (length (w_stack w) * 2) (CHR '' '')\<rparr>)"

text \<open>The separator before an item, shared by array elements and member names.\<close>

definition separate_item :: "json_writer \<Rightarrow> json_writer" where
  "separate_item w =
     newline_indent
       (if \<not> hd (w_has_items w) then w\<lparr>w_has_items := True # tl (w_has_items w)\<rparr>
        else w\<lparr>w_buffer := w_buffer w @ '',''\<rparr>)"

definition before_value :: write_op where
  "before_value w =
     (if \<not> status_ok (w_error w) then (w_error w, w)
      else if w_stack w = [] then
        (if w_buffer w \<noteq> []
         then writer_fail Internal ''a JSON document may contain only one top-level value'' w
         else (success, w\<lparr>w_awaiting_value := False\<rparr>))
      else if hd (w_stack w) = In_Object then
        (if \<not> w_awaiting_value w
         then writer_fail Internal ''a member value must follow a member name'' w
         else (success, w\<lparr>w_awaiting_value := False\<rparr>))
      else (success, (separate_item w)\<lparr>w_awaiting_value := False\<rparr>))"

definition open_frame :: "frame \<Rightarrow> write_op" where
  "open_frame f w =
     (success, w\<lparr>w_stack := f # w_stack w, w_has_items := False # w_has_items w,
                 w_awaiting_value := False\<rparr>)"

definition close_frame :: "string \<Rightarrow> write_op" where
  "close_frame bracket w =
     (let had_items = hd (w_has_items w);
          w1 = w\<lparr>w_stack := tl (w_stack w), w_has_items := tl (w_has_items w), w_awaiting_value := False\<rparr>;
          w2 = (if had_items then newline_indent w1 else w1)
      in put_text bracket w2)"

definition begin_object :: write_op where
  "begin_object = write_seq [before_value, put_text ''{'', open_frame In_Object]"

definition end_object :: write_op where
  "end_object w =
     (if \<not> status_ok (w_error w) then (w_error w, w)
      else if w_stack w = [] \<or> hd (w_stack w) \<noteq> In_Object
      then writer_fail Internal ''no JSON object is open'' w
      else if w_awaiting_value w
      then writer_fail Internal ''a JSON object is missing the value of its last member'' w
      else close_frame ''}'' w)"

definition begin_array :: write_op where
  "begin_array = write_seq [before_value, put_text ''['', open_frame In_Array]"

definition end_array :: write_op where
  "end_array w =
     (if \<not> status_ok (w_error w) then (w_error w, w)
      else if w_stack w = [] \<or> hd (w_stack w) \<noteq> In_Array
      then writer_fail Internal ''no JSON array is open'' w
      else close_frame '']'' w)"

definition write_key :: "string \<Rightarrow> write_op" where
  "write_key name w =
     (if \<not> status_ok (w_error w) then (w_error w, w)
      else if w_stack w = [] \<or> hd (w_stack w) \<noteq> In_Object \<or> w_awaiting_value w
      then writer_fail Internal ''a member name is only valid directly inside an object'' w
      else let w1 = separate_item w
           in (success, w1\<lparr>w_buffer := w_buffer w1 @ [chr_quote] @ escape_json name @ [chr_quote, CHR '':'']
                             @ (if w_pretty w1 then '' '' else []),
                           w_awaiting_value := True\<rparr>))"

definition value_string :: "string \<Rightarrow> write_op" where
  "value_string v = write_seq [before_value, put_text ([chr_quote] @ escape_json v @ [chr_quote])]"

definition value_u64 :: "u64 \<Rightarrow> write_op" where
  "value_u64 v = write_seq [before_value, put_text (dec_u64 v)]"

definition value_i64 :: "i64 \<Rightarrow> write_op" where
  "value_i64 v = write_seq [before_value, put_text (dec_int v)]"

definition value_bool :: "bool \<Rightarrow> write_op" where
  "value_bool v = write_seq [before_value, put_text (if v then ''true'' else ''false'')]"

definition value_null :: write_op where
  "value_null = write_seq [before_value, put_text ''null'']"

definition fixed_text :: "u64 \<Rightarrow> nat \<Rightarrow> string" where
  "fixed_text units scale =
     (let divisor = 10 ^ scale :: u64;
          fraction = dec_u64 (units mod divisor)
      in dec_u64 (units div divisor) @ ''.''
         @ replicate (scale - length fraction) (CHR ''0'') @ fraction)"

definition value_fixed :: "u64 \<Rightarrow> u32 \<Rightarrow> write_op" where
  "value_fixed units scale =
     write_seq [before_value, (\<lambda>w.
       if scale = 0 then put_text (dec_u64 units) w
       else if scale > 9
       then writer_fail InvalidArgument ''fixed-point scale must not exceed 9 digits'' w
       else put_text (fixed_text units (unat scale)) w)]"

definition value_passthrough :: "string \<Rightarrow> write_op" where
  "value_passthrough fragment = write_seq [before_value, put_text fragment]"

definition member_string :: "string \<Rightarrow> string \<Rightarrow> write_op" where
  "member_string name v = write_seq [write_key name, value_string v]"

definition member_u64 :: "string \<Rightarrow> u64 \<Rightarrow> write_op" where
  "member_u64 name v = write_seq [write_key name, value_u64 v]"

definition member_i64 :: "string \<Rightarrow> i64 \<Rightarrow> write_op" where
  "member_i64 name v = write_seq [write_key name, value_i64 v]"

definition member_bool :: "string \<Rightarrow> bool \<Rightarrow> write_op" where
  "member_bool name v = write_seq [write_key name, value_bool v]"

section \<open>What the calls leave in the buffer\<close>

text \<open>A compact writer without an error; one that is ready for a value; one that is inside an object
  and ready for a member.\<close>

definition writer_wf :: "json_writer \<Rightarrow> bool" where
  "writer_wf w \<longleftrightarrow>
     status_ok (w_error w) \<and> \<not> w_pretty w \<and> length (w_has_items w) = length (w_stack w)"

definition expects_value :: "json_writer \<Rightarrow> bool" where
  "expects_value w \<longleftrightarrow>
     (case w_stack w of
        [] \<Rightarrow> w_buffer w = []
      | In_Object # _ \<Rightarrow> w_awaiting_value w
      | In_Array # _ \<Rightarrow> True)"

definition expects_member :: "json_writer \<Rightarrow> bool" where
  "expects_member w \<longleftrightarrow> w_stack w \<noteq> [] \<and> hd (w_stack w) = In_Object \<and> \<not> w_awaiting_value w"

definition expects_element :: "json_writer \<Rightarrow> bool" where
  "expects_element w \<longleftrightarrow> w_stack w \<noteq> [] \<and> hd (w_stack w) = In_Array \<and> \<not> w_awaiting_value w"

text \<open>The writer after an item of the innermost container, and after a value.\<close>

definition item_written :: "json_writer \<Rightarrow> string \<Rightarrow> json_writer" where
  "item_written w t =
     w\<lparr>w_buffer := w_buffer w @ (if hd (w_has_items w) then CHR '','' # t else t),
       w_has_items := True # tl (w_has_items w), w_awaiting_value := False\<rparr>"

definition value_written :: "json_writer \<Rightarrow> string \<Rightarrow> json_writer" where
  "value_written w t =
     (if w_stack w \<noteq> [] \<and> hd (w_stack w) = In_Array then item_written w t
      else w\<lparr>w_buffer := w_buffer w @ t, w_awaiting_value := False\<rparr>)"

definition writes :: "write_op \<Rightarrow> 'd json \<Rightarrow> bool" where
  "writes op v \<longleftrightarrow>
     (\<forall>w. writer_wf w \<longrightarrow> expects_value w \<longrightarrow> op w = (success, value_written w (render v)))"

definition writes_members :: "write_op \<Rightarrow> (string \<times> 'd json) list \<Rightarrow> bool" where
  "writes_members op ms \<longleftrightarrow>
     (\<forall>w. writer_wf w \<longrightarrow> expects_member w \<longrightarrow>
        op w = (success, foldl item_written w (map render_member ms)))"

definition writes_elements :: "write_op \<Rightarrow> 'd json list \<Rightarrow> bool" where
  "writes_elements op vs \<longleftrightarrow>
     (\<forall>w. writer_wf w \<longrightarrow> expects_element w \<longrightarrow>
        op w = (success, foldl item_written w (map render vs)))"

lemma write_seq_append:
  "write_seq (ops @ ops') w =
     (case write_seq ops w of (s, w') \<Rightarrow> if status_ok s then write_seq ops' w' else (s, w'))"
proof (induction ops arbitrary: w)
  case (Cons op ops)
  then show ?case by (cases "op w") simp
qed simp

lemma item_written_keeps [simp]:
  "w_stack (item_written w t) = w_stack w" "w_pretty (item_written w t) = w_pretty w"
  "w_error (item_written w t) = w_error w" "w_awaiting_value (item_written w t) = False"
  "w_has_items (item_written w t) = True # tl (w_has_items w)"
  by (simp_all add: item_written_def)

lemma writer_wf_item [simp]:
  "writer_wf w \<Longrightarrow> w_stack w \<noteq> [] \<Longrightarrow> writer_wf (item_written w t)"
  "expects_member (item_written w t) \<longleftrightarrow> w_stack w \<noteq> [] \<and> hd (w_stack w) = In_Object"
  "expects_element (item_written w t) \<longleftrightarrow> w_stack w \<noteq> [] \<and> hd (w_stack w) = In_Array"
  by (simp_all add: writer_wf_def expects_member_def expects_element_def Suc_leI)

lemma foldl_item_keeps [simp]:
  "w_stack (foldl item_written w ts) = w_stack w"
  "writer_wf w \<Longrightarrow> w_stack w \<noteq> [] \<Longrightarrow> writer_wf (foldl item_written w ts)"
  by (induction ts arbitrary: w) auto

lemma foldl_item_expects:
  "expects_member w \<Longrightarrow> expects_member (foldl item_written w ts)"
  "expects_element w \<Longrightarrow> expects_element (foldl item_written w ts)"
  by (induction ts arbitrary: w) (auto simp: expects_member_def expects_element_def)

lemma separate_item_compact:
  assumes "writer_wf w" and "w_stack w \<noteq> []"
  shows "separate_item w =
     w\<lparr>w_buffer := w_buffer w @ (if hd (w_has_items w) then '','' else []),
       w_has_items := True # tl (w_has_items w)\<rparr>"
  using assms by (cases "w_has_items w") (auto simp: separate_item_def newline_indent_def writer_wf_def)

lemma before_value_written:
  assumes "writer_wf w" and "expects_value w"
  shows "write_seq [before_value, put_text t] w = (success, value_written w t)"
proof (cases "w_stack w")
  case Nil
  then show ?thesis
    using assms by (simp add: before_value_def put_text_def value_written_def expects_value_def writer_wf_def)
next
  case (Cons f fs)
  then show ?thesis
    using assms
    by (cases f)
      (simp_all add: before_value_def put_text_def value_written_def item_written_def expects_value_def
        separate_item_compact, simp_all add: writer_wf_def)
qed

lemma writes_put:
  assumes "op = write_seq [before_value, put_text (render v)]"
  shows "writes op v"
  unfolding assms writes_def by (blast intro: before_value_written)

text \<open>The value an integer of the writer is read back as.\<close>

definition json_of_i64 :: "i64 \<Rightarrow> 'd json" where
  "json_of_i64 i = (if i < 0 then JInt i else JUint (of_int i))"

lemma render_i64: "i < 2 ^ 64 \<Longrightarrow> render (json_of_i64 i) = dec_int i"
  by (simp add: json_of_i64_def dec_int_def dec_u64_def uint_word_of_int take_bit_int_eq_self
      flip: nat_uint_eq)

lemma writes_scalars:
  "writes (value_string t) (JString t)" "writes (value_u64 n) (JUint n)"
  "writes (value_bool b) (JBool b)" "writes value_null JNull"
  "i < 2 ^ 64 \<Longrightarrow> writes (value_i64 i) (json_of_i64 i)"
  by (intro writes_put,
      simp add: value_string_def value_u64_def value_bool_def value_null_def value_i64_def quoted_def
        render_i64)+

lemma write_key_written:
  assumes "writer_wf w" and "expects_member w"
  shows "write_key name w =
     (success, (item_written w (quoted name @ '':''))\<lparr>w_awaiting_value := True\<rparr>)"
  using assms
  by (simp add: write_key_def Let_def separate_item_compact expects_member_def item_written_def quoted_def)
    (simp add: writer_wf_def)

lemma writes_member:
  assumes "writes op v"
  shows "writes_members (write_seq [write_key name, op]) [(name, v)]"
  unfolding writes_members_def
proof (intro allI impI)
  fix w assume w: "writer_wf w" "expects_member w"
  let ?w = "(item_written w (quoted name @ '':''))\<lparr>w_awaiting_value := True\<rparr>"
  obtain fs where stack: "w_stack w = In_Object # fs"
    using w by (cases "w_stack w") (auto simp: expects_member_def)
  have "writer_wf ?w" "expects_value ?w"
    using w stack by (auto simp: writer_wf_def expects_value_def)
  then have "op ?w = (success, value_written ?w (render v))" using assms by (simp add: writes_def)
  then show "write_seq [write_key name, op] w
             = (success, foldl item_written w (map render_member [(name, v)]))"
    using w stack
    by (simp add: write_key_written value_written_def) (simp add: item_written_def render_member_def)
qed

lemma writes_members_Nil: "writes_members (write_seq []) []"
  by (simp add: writes_members_def)

lemma writes_members_skip: "writes_members (Pair success) []"
  by (simp add: writes_members_def)

lemma writes_members_Cons:
  assumes "writes_members op ms" and "writes_members (write_seq ops) ms'"
  shows "writes_members (write_seq (op # ops)) (ms @ ms')"
  using assms foldl_item_expects(1)
  by (auto simp: writes_members_def expects_member_def)

lemma writes_elements_Nil: "writes_elements (write_seq []) []"
  by (simp add: writes_elements_def)

lemma writes_elements_Cons:
  assumes "writes op v" and "writes_elements (write_seq ops) vs"
  shows "writes_elements (write_seq (op # ops)) (v # vs)"
  unfolding writes_elements_def
proof (intro allI impI)
  fix w assume w: "writer_wf w" "expects_element w"
  then have "expects_value w" by (cases "w_stack w") (auto simp: expects_element_def expects_value_def split: frame.splits)
  then have "op w = (success, item_written w (render v))"
    using assms(1) w by (simp add: writes_def value_written_def expects_element_def)
  then show "write_seq (op # ops) w = (success, foldl item_written w (map render (v # vs)))"
    using assms(2) w by (auto simp: writes_elements_def expects_element_def)
qed

lemma foldl_item_written:
  "foldl item_written w (t # ts) = item_written w (comma_separated (t # ts))"
proof (induction ts arbitrary: w t)
  case (Cons t' ts)
  have "item_written (item_written w t) u = item_written w (t @ CHR '','' # u)" for u
    by (simp add: item_written_def)
  then show ?case using Cons [of "item_written w t" t'] by simp
qed simp

text \<open>An empty container with its opening bracket written, and what closing it gives.\<close>

definition opened :: "frame \<Rightarrow> json_writer \<Rightarrow> string \<Rightarrow> json_writer" where
  "opened f w bracket =
     (let w1 = value_written w bracket
      in w1\<lparr>w_stack := f # w_stack w1, w_has_items := False # w_has_items w1, w_awaiting_value := False\<rparr>)"

lemma begin_written:
  assumes "writer_wf w" and "expects_value w"
  shows "write_seq [before_value, put_text bracket, open_frame f] w = (success, opened f w bracket)"
proof -
  have "write_seq ([before_value, put_text bracket] @ [open_frame f]) w = (success, opened f w bracket)"
    unfolding write_seq_append before_value_written [OF assms]
    by (simp add: open_frame_def opened_def Let_def)
  then show ?thesis by simp
qed

lemma value_written_wf: "writer_wf w \<Longrightarrow> writer_wf (value_written w t)"
  by (auto simp: value_written_def) (auto simp: writer_wf_def)

lemma value_written_twice:
  "value_written w (t @ u) =
     (value_written w t)\<lparr>w_buffer := w_buffer (value_written w t) @ u\<rparr>"
  by (simp add: value_written_def item_written_def)

lemma opened_state:
  assumes "writer_wf w"
  shows "writer_wf (opened f w b)" "w_stack (opened f w b) = f # w_stack w"
    "\<not> w_awaiting_value (opened f w b)"
  using value_written_wf [OF assms, of b]
  by (simp_all add: opened_def Let_def writer_wf_def) (simp add: value_written_def)

lemma close_written:
  assumes "writer_wf w"
  shows "close_frame b (foldl item_written (opened f w a) ts)
         = (success, value_written w (a @ comma_separated ts @ b))"
proof (cases ts)
  case Nil
  then show ?thesis
    using assms
    by (simp add: close_frame_def Let_def put_text_def opened_def value_written_twice [of w a b])
      (simp add: value_written_def item_written_def)
next
  case (Cons t ts')
  define items where "items = comma_separated ts"
  have "foldl item_written (opened f w a) ts = item_written (opened f w a) items"
    unfolding items_def Cons by (rule foldl_item_written)
  moreover have "\<not> w_pretty (value_written w a)" using value_written_wf [OF assms] by (simp add: writer_wf_def)
  ultimately show ?thesis
    unfolding items_def [symmetric]
    by (simp add: close_frame_def Let_def put_text_def opened_def newline_indent_def
        value_written_twice [of w a "items @ b"] item_written_def)
      (simp add: value_written_def item_written_def)
qed

lemma writes_object:
  assumes "writes_members (write_seq ops) ms"
  shows "writes (write_seq (begin_object # ops @ [end_object])) (JObject ms)"
  unfolding writes_def
proof (intro allI impI)
  fix w assume w: "writer_wf w" "expects_value w"
  let ?w1 = "opened In_Object w ''{''"
  let ?w2 = "foldl item_written ?w1 (map render_member ms)"
  have 1: "begin_object w = (success, ?w1)" unfolding begin_object_def by (rule begin_written [OF w])
  have member: "writer_wf ?w1" "expects_member ?w1"
    using opened_state [OF w(1), of In_Object "''{''"] by (simp_all add: expects_member_def)
  then have 2: "write_seq ops ?w1 = (success, ?w2)" using assms by (simp add: writes_members_def)
  have "expects_member ?w2" "writer_wf ?w2"
    using member foldl_item_expects(1) by (auto simp: expects_member_def)
  then have "end_object ?w2 = close_frame ''}'' ?w2"
    by (simp add: end_object_def expects_member_def writer_wf_def)
  then have "end_object ?w2 = (success, value_written w (render (JObject ms)))"
    using close_written [OF w(1)] by (simp add: render_object)
  then show "write_seq (begin_object # ops @ [end_object]) w
             = (success, value_written w (render (JObject ms)))"
    using 1 2 by (simp add: write_seq_append)
qed

lemma writes_array:
  assumes "writes_elements (write_seq ops) vs"
  shows "writes (write_seq (begin_array # ops @ [end_array])) (JArray vs)"
  unfolding writes_def
proof (intro allI impI)
  fix w assume w: "writer_wf w" "expects_value w"
  let ?w1 = "opened In_Array w ''[''"
  let ?w2 = "foldl item_written ?w1 (map render vs)"
  have 1: "begin_array w = (success, ?w1)" unfolding begin_array_def by (rule begin_written [OF w])
  have element: "writer_wf ?w1" "expects_element ?w1"
    using opened_state [OF w(1), of In_Array "''[''"] by (simp_all add: expects_element_def)
  then have 2: "write_seq ops ?w1 = (success, ?w2)" using assms by (simp add: writes_elements_def)
  have "expects_element ?w2" "writer_wf ?w2"
    using element foldl_item_expects(2) by (auto simp: expects_element_def)
  then have "end_array ?w2 = close_frame '']'' ?w2"
    by (simp add: end_array_def expects_element_def writer_wf_def)
  then have "end_array ?w2 = (success, value_written w (render (JArray vs)))"
    using close_written [OF w(1)] by simp
  then show "write_seq (begin_array # ops @ [end_array]) w
             = (success, value_written w (render (JArray vs)))"
    using 1 2 by (simp add: write_seq_append)
qed

lemma writes_buffer:
  assumes "writes op v"
  shows "op (new_writer False) = (success, (new_writer False)\<lparr>w_buffer := render v\<rparr>)"
proof -
  have "writer_wf (new_writer False)" "expects_value (new_writer False)"
    by (simp_all add: writer_wf_def expects_value_def new_writer_def)
  then show ?thesis using assms by (simp add: writes_def value_written_def new_writer_def)
qed

section \<open>Documents\<close>

text \<open>The calls for a document: one call per scalar, and the calls of the members or elements between the
  call that opens a container and the one that closes it. The writer has no call for a double; the
  lemmas below are about documents without one.\<close>

fun json_calls :: "'d json \<Rightarrow> write_op" where
  "json_calls JNull = value_null"
| "json_calls (JBool b) = value_bool b"
| "json_calls (JInt i) = value_i64 i"
| "json_calls (JUint n) = value_u64 n"
| "json_calls (JDouble d) = value_null"
| "json_calls (JString t) = value_string t"
| "json_calls (JArray vs) = write_seq (begin_array # map json_calls vs @ [end_array])"
| "json_calls (JObject ms) =
     write_seq (begin_object # map (\<lambda>m. write_seq [write_key (fst m), json_calls (snd m)]) ms @ [end_object])"

lemma writes_all_elements:
  "(\<And>v. v \<in> set vs \<Longrightarrow> writes (f v) v) \<Longrightarrow> writes_elements (write_seq (map f vs)) vs"
proof (induction vs)
  case Nil
  show ?case by (simp only: list.map writes_elements_Nil)
next
  case (Cons v vs)
  have "writes_elements (write_seq (f v # map f vs)) (v # vs)"
    by (rule writes_elements_Cons) (use Cons in auto)
  then show ?case by (simp only: list.map)
qed

lemma writes_all_members:
  "(\<And>m. m \<in> set ms \<Longrightarrow> writes_members (f m) [m]) \<Longrightarrow> writes_members (write_seq (map f ms)) ms"
proof (induction ms)
  case Nil
  show ?case by (simp only: list.map writes_members_Nil)
next
  case (Cons m ms)
  have "writes_members (write_seq (f m # map f ms)) ([m] @ ms)"
    by (rule writes_members_Cons) (use Cons in auto)
  then show ?case by (simp only: list.map append.simps)
qed

lemma json_calls_write: "fits limits v \<Longrightarrow> writes (json_calls v) v"
proof (induction v rule: json_calls.induct)
  case (3 i)
  then have "writes (value_i64 i) (JInt i)"
    using writes_scalars(5) [of i, unfolded json_of_i64_def] by simp
  then show ?case by simp
next
  case (7 vs)
  have "writes_elements (write_seq (map json_calls vs)) vs"
    by (rule writes_all_elements) (use 7 in \<open>auto simp: list_all_iff\<close>)
  from writes_array [OF this] show ?case by (simp only: json_calls.simps)
next
  case (8 ms)
  have one: "writes_members (write_seq [write_key (fst m), json_calls (snd m)]) [m]" if "m \<in> set ms" for m
  proof -
    have "fits limits (snd m)" using 8(2) that by (cases m) (auto simp: list_all_iff)
    then have "writes (json_calls (snd m)) (snd m)" using 8(1) that by blast
    from writes_member [OF this, of "fst m"] show ?thesis by (simp only: prod.collapse)
  qed
  from writes_object [OF writes_all_members [OF one]] show ?case by (simp only: json_calls.simps)
qed (simp_all add: writes_scalars)

section \<open>Errors\<close>

text \<open>The public calls of the writer.\<close>

inductive writer_call :: "write_op \<Rightarrow> bool" where
  call_begin_object: "writer_call begin_object"
| call_end_object: "writer_call end_object"
| call_begin_array: "writer_call begin_array"
| call_end_array: "writer_call end_array"
| call_key: "writer_call (write_key name)"
| call_string: "writer_call (value_string t)"
| call_u64: "writer_call (value_u64 n)"
| call_i64: "writer_call (value_i64 i)"
| call_bool: "writer_call (value_bool b)"
| call_null: "writer_call value_null"
| call_fixed: "writer_call (value_fixed n scale)"
| call_passthrough: "writer_call (value_passthrough t)"
| call_member_string: "writer_call (member_string name t)"
| call_member_u64: "writer_call (member_u64 name n)"
| call_member_i64: "writer_call (member_i64 name i)"
| call_member_bool: "writer_call (member_bool name b)"

lemmas writer_call_defs =
  begin_object_def end_object_def begin_array_def end_array_def write_key_def value_string_def
  value_u64_def value_i64_def value_bool_def value_null_def value_fixed_def value_passthrough_def
  member_string_def member_u64_def member_i64_def member_bool_def before_value_def

lemma writer_call_after_error:
  assumes "writer_call op" and "\<not> status_ok (w_error w)"
  shows "op w = (w_error w, w)"
  using assms by (induction rule: writer_call.induct) (simp_all add: writer_call_defs)

section \<open>Properties\<close>

text \<open>Errors of the writer stick. Once the writer has failed, every later call of any kind, in any
  number, returns the same error and leaves the document as it was.\<close>

theorem writer_error_sticks:
  assumes "list_all writer_call ops" and "\<not> status_ok (w_error w)"
  shows "fold (\<lambda>op w. snd (op w)) ops w = w
         \<and> list_all (\<lambda>op. fst (op (fold (\<lambda>op w. snd (op w)) ops w)) = w_error w) ops"
proof -
  have same: "\<forall>op \<in> set ops. op w = (w_error w, w)"
    using assms by (auto simp: list_all_iff writer_call_after_error)
  then have "fold (\<lambda>op w. snd (op w)) ops w = w" by (induction ops) auto
  then show ?thesis using same by (auto simp: list_all_iff)
qed

theorem writer_error_sticks_witness:
  "snd (end_array (snd (member_u64 ''a'' 1
     ((new_writer False)\<lparr>w_error := failure Internal ''no JSON array is open''\<rparr>))))
   = (new_writer False)\<lparr>w_error := failure Internal ''no JSON array is open''\<rparr>"
  using writer_error_sticks [of "[member_u64 ''a'' 1, end_array]"
      "(new_writer False)\<lparr>w_error := failure Internal ''no JSON array is open''\<rparr>"]
  by (simp add: writer_call.intros)

text \<open>C35: What the writer writes, the parser reads. The calls for a document succeed on a new compact
  writer, and parsing the text they leave gives the document back, when the document has no doubles,
  its integers are in the representation the parser chooses (a negative one as \<^verbatim>\<open>Int\<close>, the others as
  \<^verbatim>\<open>Uint\<close>), its member names are distinct, and it is within the limits of the parser.\<close>

theorem writer_parser_round_trip:
  assumes "fits limits v" "json_height v \<le> max_depth limits" "json_nodes v \<le> max_nodes limits"
    and "json_calls v (new_writer False) = (status, w)" "length (w_buffer w) \<le> max_document_bytes limits"
  shows "status = success \<and> parse_json (w_buffer w) limits lib = Inr v"
proof -
  have "json_calls v (new_writer False) = (success, (new_writer False)\<lparr>w_buffer := render v\<rparr>)"
    by (rule writes_buffer [OF json_calls_write [OF assms(1)]])
  then have "status = success" "w_buffer w = render v" using assms(4) by auto
  then show ?thesis using parse_json_render [of limits v lib] assms by (simp add: readable_def)
qed

theorem writer_parser_round_trip_witness:
  "\<exists>w. json_calls (JObject [(''a'', JArray [JUint 7, JInt (- 3)]), (''b'', JString [CHR 0x22, CHR 0x01])] :: unit json) (new_writer False) = (success, w)
     \<and> parse_json (w_buffer w)
         \<lparr>max_document_bytes = 100, max_depth = 2, max_nodes = 9, max_string_bytes = 8, max_object_members = 2, max_array_elements = 2\<rparr>
         \<lparr>to_double = (\<lambda>_. None), is_finite = (\<lambda>_ :: unit. True)\<rparr>
       = Inr (JObject [(''a'', JArray [JUint 7, JInt (- 3)]), (''b'', JString [CHR 0x22, CHR 0x01])])"
proof -
  let ?v = "JObject [(''a'', JArray [JUint 7, JInt (- 3)]), (''b'', JString [CHR 0x22, CHR 0x01])] :: unit json"
  let ?limits = "\<lparr>max_document_bytes = 100, max_depth = 2, max_nodes = 9, max_string_bytes = 8, max_object_members = 2, max_array_elements = 2\<rparr>"
  have fits: "fits ?limits ?v" "json_height ?v \<le> max_depth ?limits" "json_nodes ?v \<le> max_nodes ?limits" by simp_all
  obtain status w where w: "json_calls ?v (new_writer False) = (status, w)" by fastforce
  then have "w_buffer w = render ?v" using writes_buffer [OF json_calls_write [OF fits(1)]] by auto
  then have "length (w_buffer w) \<le> max_document_bytes ?limits"
    by (simp add: render_object render_member_def quoted_def escape_json_def escape_char_def dec_u64_def dec_int_def
        dec_nat.simps hex_digit_def kHexDigits_def)
  from writer_parser_round_trip [OF fits w this] w show ?thesis by blast
qed

end
