(* ===== verification/Decode.thy ===== *)
theory Decode
  imports Metadata Limits Json_Writer
begin

text \<open>
  The canonical observation format (\<^verbatim>\<open>include/qobs/ingest/Wire.hpp\<close>,
  \<^verbatim>\<open>src/ingest/Decode.cpp\<close>): the decoder of newline-delimited JSON records and the encoder
  of samples and metadata tables. A record that cannot be used is a value of the sum type
  \<open>decoded\<close>, with the status and the reason the code reports; the line loop counts it and goes
  on. The flags \<^verbatim>\<open>has_sample\<close> and \<^verbatim>\<open>has_metadata\<close> of \<^verbatim>\<open>ParseResult\<close> are the sum's right side.
\<close>

section \<open>Data\<close>

definition kMaxDiagnostics :: nat where "kMaxDiagnostics = 64"
definition kVersion :: u32 where "kVersion = 1"
definition kMaxLineBytes :: nat where "kMaxLineBytes = 1048576"

datatype decode_status = D_Ok | D_Skipped | D_Malformed | D_Unsupported | D_VersionMismatch

fun decode_status_text :: "decode_status \<Rightarrow> string" where
  "decode_status_text D_Ok = ''ok''"
| "decode_status_text D_Skipped = ''skipped''"
| "decode_status_text D_Malformed = ''malformed''"
| "decode_status_text D_Unsupported = ''unsupported''"
| "decode_status_text D_VersionMismatch = ''version_mismatch''"

type_synonym 'a decoded = "(decode_status \<times> string) + 'a"

record decode_diagnostic =
  dd_line :: nat
  dd_status :: decode_status
  dd_reason :: string

record decode_outcome =
  do_lines :: nat
  do_records :: nat
  do_sample_count :: nat
  do_metadata_count :: nat
  do_metadata_records :: nat
  do_skipped :: nat
  do_malformed :: nat
  do_unsupported :: nat
  do_version_mismatches :: nat
  do_samples :: "queue_sample list"
  do_metadata :: "class_metadata_table list"
  do_diagnostics :: "decode_diagnostic list"
  do_diagnostics_truncated :: bool
  do_unknown_keys :: nat

definition empty_outcome :: decode_outcome where
  "empty_outcome =
     \<lparr>do_lines = 0, do_records = 0, do_sample_count = 0, do_metadata_count = 0,
      do_metadata_records = 0, do_skipped = 0, do_malformed = 0, do_unsupported = 0,
      do_version_mismatches = 0, do_samples = [], do_metadata = [], do_diagnostics = [],
      do_diagnostics_truncated = False, do_unknown_keys = 0\<rparr>"

definition keys_table :: "(string \<times> sample_field) list" where
  "keys_table =
     [(''occupancy_bytes'', OccupancyBytes), (''occupancy_cells'', OccupancyCells),
      (''queue_depth_packets'', QueueDepthPackets), (''shared_buffer_cells'', SharedBufferCells),
      (''headroom_cells'', HeadroomCells), (''reserved_cells'', ReservedCells),
      (''static_threshold_cells'', StaticThresholdCells),
      (''dynamic_threshold_cells'', DynamicThresholdCells),
      (''max_depth_packets'', MaxDepthPackets), (''high_watermark_cells'', HighWatermarkCells),
      (''enqueue_packets'', EnqueuePackets), (''dequeue_packets'', DequeuePackets),
      (''drop_packets'', DropPackets), (''drop_bytes'', DropBytes), (''mark_packets'', MarkPackets),
      (''pause_frames'', PauseFrames), (''pause_duration_nanos'', PauseDurationNanos)]"

definition recognised_measurement_names :: string where
  "recognised_measurement_names = join (map fst keys_table) '', ''"

section \<open>Reading fields\<close>

definition line_prefix :: "nat \<Rightarrow> string" where
  "line_prefix line = ''line '' @ dec_nat line @ '': ''"

definition in_ticks :: "string \<Rightarrow> string" where
  "in_ticks name = [CHR 0x27] @ name @ [CHR 0x27]"

definition decode_then :: "'a decoded \<Rightarrow> ('a \<Rightarrow> 'b decoded) \<Rightarrow> 'b decoded" where
  "decode_then r k = (case r of Inl e \<Rightarrow> Inl e | Inr v \<Rightarrow> k v)"

definition malformed :: "nat \<Rightarrow> string \<Rightarrow> 'a decoded" where
  "malformed line reason = Inl (D_Malformed, line_prefix line @ reason)"

text \<open>A failed field makes the record malformed, with the message of the error as the reason.\<close>

definition or_malformed :: "'a result \<Rightarrow> 'a decoded" where
  "or_malformed r = (case r of Inl e \<Rightarrow> Inl (D_Malformed, st_message e) | Inr v \<Rightarrow> Inr v)"

definition require_string :: "'d json \<Rightarrow> string \<Rightarrow> nat \<Rightarrow> nat \<Rightarrow> string result" where
  "require_string object key max_bytes line =
     (case json_find object key of
        None \<Rightarrow> Inl (failure ParseError
          (line_prefix line @ ''required field '' @ in_ticks key @ '' is missing''))
      | Some (JString s) \<Rightarrow>
          if length s > max_bytes
          then Inl (failure LimitExceeded
                 (line_prefix line @ ''field '' @ in_ticks key @ '' exceeds the configured field size''))
          else Inr s
      | Some _ \<Rightarrow> Inl (failure ParseError
          (line_prefix line @ ''field '' @ in_ticks key @ '' must be a string'')))"

definition require_u64 :: "'d json \<Rightarrow> string \<Rightarrow> nat \<Rightarrow> u64 result" where
  "require_u64 object key line =
     (let negative = Inl (failure ParseError
            (line_prefix line @ ''field '' @ in_ticks key @ '' must be a non-negative integer''))
      in case json_find object key of
        None \<Rightarrow> Inl (failure ParseError
          (line_prefix line @ ''required field '' @ in_ticks key @ '' is missing''))
      | Some (JUint n) \<Rightarrow> Inr n
      | Some (JInt i) \<Rightarrow> if i \<ge> 0 then Inr (of_int i) else negative
      | Some _ \<Rightarrow> negative)"

definition optional_u64 :: "'d json \<Rightarrow> string \<Rightarrow> u64 \<Rightarrow> nat \<Rightarrow> u64 result" where
  "optional_u64 object key fallback line =
     (if json_find object key = None then Inr fallback else require_u64 object key line)"

text \<open>The optional fields of the records: absent, unusable, or present. The decoder narrows
  a class identifier or a code point to 16 bits.\<close>

definition optional_u16 :: "'d json \<Rightarrow> string \<Rightarrow> nat \<Rightarrow> string \<Rightarrow> u16 option decoded" where
  "optional_u16 object key line too_wide =
     (if json_find object key = None then Inr None
      else decode_then (or_malformed (require_u64 object key line)) (\<lambda>v.
        case narrow_u v of
          None \<Rightarrow> malformed line too_wide
        | Some n \<Rightarrow> Inr (Some n)))"

definition optional_scheduling :: "'d json \<Rightarrow> nat \<Rightarrow> string \<Rightarrow> string \<Rightarrow> string option decoded" where
  "optional_scheduling object line not_string not_usable =
     (case json_find object ''scheduling_class'' of
        None \<Rightarrow> Inr None
      | Some (JString s) \<Rightarrow>
          (case strong_name_create SchedulingClassTag s of
             Inl e \<Rightarrow> malformed line not_usable
           | Inr name \<Rightarrow> Inr (Some name))
      | Some _ \<Rightarrow> malformed line not_string)"

definition optional_text :: "'d json \<Rightarrow> string \<Rightarrow> nat \<Rightarrow> nat \<Rightarrow> string \<Rightarrow> string decoded" where
  "optional_text object key max_bytes line not_bounded =
     (case json_find object key of
        None \<Rightarrow> Inr []
      | Some (JString s) \<Rightarrow> if length s > max_bytes then malformed line not_bounded else Inr s
      | Some _ \<Rightarrow> malformed line not_bounded)"

text \<open>The authority of a record; \<open>unrecognised\<close> is the reason for a text that names none.\<close>

definition optional_authority ::
    "'d json \<Rightarrow> nat \<Rightarrow> (string \<Rightarrow> string) \<Rightarrow> source_authority decoded" where
  "optional_authority object line unrecognised =
     (case json_find object ''authority'' of
        None \<Rightarrow> Inr A_Unknown
      | Some (JString s) \<Rightarrow>
          (case parse_source_authority s of (authority, recognised) \<Rightarrow>
             if \<not> recognised then Inl (D_Unsupported, line_prefix line @ unrecognised s)
             else Inr authority)
      | Some _ \<Rightarrow> malformed line (''field '' @ in_ticks ''authority'' @ '' must be a string''))"

section \<open>Sample records\<close>

text \<open>The identity fields, in the order in which a missing one is reported.\<close>

definition parse_sample_identity ::
    "'d json \<Rightarrow> nat \<Rightarrow> ingest_limits \<Rightarrow> queue_sample decoded" where
  "parse_sample_identity object line limits =
     (let str = (\<lambda>key. or_malformed (require_string object key (max_field_bytes limits) line));
          num = (\<lambda>key. or_malformed (require_u64 object key line))
      in decode_then (str ''device'') (\<lambda>device.
         decode_then (str ''port'') (\<lambda>port.
         decode_then (str ''source'') (\<lambda>source.
         decode_then (str ''incarnation'') (\<lambda>incarnation.
         decode_then (str ''clock_domain'') (\<lambda>domain.
         decode_then (num ''queue'') (\<lambda>queue_index.
         decode_then (num ''generation'') (\<lambda>generation.
         decode_then (num ''sequence'') (\<lambda>sequence.
         decode_then (num ''observed_ns'') (\<lambda>observed.
           case (strong_name_create DeviceTag device, strong_name_create PortTag port,
                 strong_name_create SourceTag source, strong_name_create IncarnationTag incarnation,
                 strong_name_create ClockDomainTag domain) of
             (Inr d, Inr p, Inr s, Inr i, Inr c) \<Rightarrow>
               (case narrow_u queue_index of
                  None \<Rightarrow> malformed line ''the queue index does not fit in 32 bits''
                | Some q \<Rightarrow>
                    if unat observed > 2 ^ 63 - 1
                    then malformed line ''the observation timestamp is outside the supported range''
                    else Inr (empty_sample\<lparr>qs_queue := QueuePath d p q, qs_source := s,
                           qs_incarnation := i, qs_generation := generation,
                           qs_sequence := sequence,
                           qs_observed := \<lparr>ot_ns = int (unat observed), ot_domain = c\<rparr>\<rparr>))
           | _ \<Rightarrow> malformed line
               (''an identity field is empty, too long, or contains a character that is not ''
                @ ''allowed in an identity'')))))))))))"

definition parse_sample_attributes ::
    "'d json \<Rightarrow> nat \<Rightarrow> queue_sample \<Rightarrow> queue_sample decoded" where
  "parse_sample_attributes object line s0 =
     decode_then (optional_authority object line (\<lambda>t.
         ''authority value '' @ in_ticks (sanitize_for_display t 32)
         @ '' is not recognised by this runtime'')) (\<lambda>authority.
     decode_then (or_malformed (optional_u64 object ''revision'' 0 line)) (\<lambda>revision.
     decode_then (optional_u16 object ''traffic_class'' line
         (''field '' @ in_ticks ''traffic_class'' @ '' does not fit in 16 bits'')) (\<lambda>traffic.
     decode_then (optional_scheduling object line
         (''field '' @ in_ticks ''scheduling_class'' @ '' must be a string'')
         (''field '' @ in_ticks ''scheduling_class'' @ '' is not a usable identity'')) (\<lambda>scheduling.
       Inr (s0\<lparr>qs_authority := authority, qs_revision := revision,
               qs_classes := \<lparr>ca_traffic_class = traffic, ca_scheduling_class = scheduling,
                 ca_origin = (if traffic \<noteq> None \<or> scheduling \<noteq> None then ObservedInSample
                              else Unspecified),
                 ca_metadata_revision = 0\<rparr>\<rparr>)))))"

fun read_measurements ::
    "'d json \<Rightarrow> nat \<Rightarrow> (string \<times> sample_field) list \<Rightarrow> queue_sample \<Rightarrow> queue_sample decoded" where
  "read_measurements object line [] s = Inr s"
| "read_measurements object line ((key, field) # entries) s =
     (if json_find object key = None then read_measurements object line entries s
      else decode_then (or_malformed (require_u64 object key line)) (\<lambda>v.
        read_measurements object line entries (set_value s field v)))"

text \<open>The declared names: the mask and the number of names that are not understood.\<close>

fun read_declared :: "nat \<Rightarrow> 'd json list \<Rightarrow> field_mask \<Rightarrow> nat \<Rightarrow> (field_mask \<times> nat) decoded" where
  "read_declared line [] m unknown = Inr (m, unknown)"
| "read_declared line (JString name # names) m unknown =
     (case parse_sample_field name of
        None \<Rightarrow> read_declared line names m (unknown + 1)
      | Some field \<Rightarrow> read_declared line names (m OR field_bit field) unknown)"
| "read_declared line (other # names) m unknown =
     malformed line (''field '' @ in_ticks ''declared'' @ '' must contain only strings'')"

definition parse_declared ::
    "'d json \<Rightarrow> nat \<Rightarrow> queue_sample \<Rightarrow> (queue_sample \<times> nat) decoded" where
  "parse_declared object line s =
     (case json_find object ''declared'' of
        None \<Rightarrow> Inr (s\<lparr>qs_declared := qs_reported s\<rparr>, 0)
      | Some (JArray names) \<Rightarrow>
          decode_then (read_declared line names 0 0) (\<lambda>(m, unknown). Inr (s\<lparr>qs_declared := m\<rparr>, unknown))
      | Some _ \<Rightarrow> malformed line
          (''field '' @ in_ticks ''declared'' @ '' must be an array of measurement names''))"

definition kFrameworkKeys :: "string list" where
  "kFrameworkKeys =
     [''kind'', ''v'', ''device'', ''port'', ''queue'', ''source'', ''incarnation'', ''generation'',
      ''sequence'', ''observed_ns'', ''clock_domain'']"

definition kOptionalKeys :: "string list" where
  "kOptionalKeys = [''declared'', ''authority'', ''revision'', ''traffic_class'', ''scheduling_class'']"

definition count_unknown_keys :: "'d json \<Rightarrow> nat" where
  "count_unknown_keys object =
     length (filter (\<lambda>index.
       let name = json_key_at object index
       in \<not> (name \<in> set (map fst keys_table) \<or> name \<in> set kFrameworkKeys \<or> name \<in> set kOptionalKeys))
       [0..<json_size object])"

definition parse_sample_record ::
    "'d json \<Rightarrow> nat \<Rightarrow> ingest_limits \<Rightarrow> (queue_sample \<times> nat) decoded" where
  "parse_sample_record object line limits =
     decode_then (parse_sample_identity object line limits) (\<lambda>s1.
     decode_then (parse_sample_attributes object line s1) (\<lambda>s2.
     decode_then (read_measurements object line keys_table s2) (\<lambda>s3.
       if qs_reported s3 = 0
       then malformed line (''the record carries no measurement; accepted measurement names are ''
              @ recognised_measurement_names)
       else decode_then (parse_declared object line s3) (\<lambda>(s4, unknown).
         Inr (s4\<lparr>qs_declared_version := kVersion\<rparr>, unknown + count_unknown_keys object)))))"

section \<open>Metadata records\<close>

text \<open>A section of a metadata record: absent, not an array, too long, or a list of objects.\<close>

fun read_entries ::
    "nat \<Rightarrow> string \<Rightarrow> ('d json \<Rightarrow> 'a decoded) \<Rightarrow> 'd json list \<Rightarrow> 'a list \<Rightarrow> 'a list decoded" where
  "read_entries line not_object parse [] acc = Inr acc"
| "read_entries line not_object parse (entry # entries) acc =
     (case entry of
        JObject _ \<Rightarrow>
          decode_then (parse entry) (\<lambda>e. read_entries line not_object parse entries (acc @ [e]))
      | _ \<Rightarrow> malformed line not_object)"

definition parse_section ::
    "'d json \<Rightarrow> string \<Rightarrow> nat \<Rightarrow> ingest_limits \<Rightarrow> string \<Rightarrow> string \<Rightarrow> ('d json \<Rightarrow> 'a decoded)
     \<Rightarrow> 'a list decoded" where
  "parse_section object key line limits what entry_what parse =
     (case json_find object key of
        None \<Rightarrow> Inr []
      | Some (JArray entries) \<Rightarrow>
          if length entries > max_batch_metadata limits
          then malformed line (''the '' @ what @ '' section exceeds the configured limit'')
          else read_entries line (''every '' @ entry_what @ '' entry must be an object'') parse entries []
      | Some _ \<Rightarrow> malformed line (''field '' @ in_ticks key @ '' must be an array''))"

definition parse_traffic_class ::
    "nat \<Rightarrow> ingest_limits \<Rightarrow> 'd json \<Rightarrow> traffic_class_descriptor decoded" where
  "parse_traffic_class line limits entry =
     decode_then (or_malformed (require_u64 entry ''id'' line)) (\<lambda>i.
     case narrow_u i of
       None \<Rightarrow> malformed line ''a traffic class identifier does not fit in 16 bits''
     | Some n \<Rightarrow>
         decode_then (optional_text entry ''name'' (max_field_bytes limits) line
             (''traffic class '' @ in_ticks ''name'' @ '' must be a bounded string'')) (\<lambda>name.
         decode_then (optional_u16 entry ''dscp'' line ''DSCP value does not fit in 16 bits'') (\<lambda>dscp.
         decode_then (optional_u16 entry ''pcp'' line ''priority code point does not fit in 16 bits'') (\<lambda>pcp.
         decode_then (optional_scheduling entry line
             (''traffic class '' @ in_ticks ''scheduling_class'' @ '' must be a string'')
             (''traffic class '' @ in_ticks ''scheduling_class'' @ '' is not a usable identity'')) (\<lambda>sc.
           Inr \<lparr>tcd_id = n, tcd_name = name, tcd_dscp = dscp, tcd_priority_code_point = pcp,
                tcd_scheduling_class = sc\<rparr>)))))"

definition parse_scheduling_class ::
    "nat \<Rightarrow> ingest_limits \<Rightarrow> 'd json \<Rightarrow> scheduling_class_descriptor decoded" where
  "parse_scheduling_class line limits entry =
     decode_then (or_malformed (require_string entry ''id'' (max_field_bytes limits) line)) (\<lambda>i.
     case strong_name_create SchedulingClassTag i of
       Inl e \<Rightarrow> malformed line (''scheduling class '' @ in_ticks ''id'' @ '' is not a usable identity'')
     | Inr name \<Rightarrow>
         decode_then (optional_text entry ''mode'' (max_field_bytes limits) line
             (''scheduling class '' @ in_ticks ''mode'' @ '' must be a bounded string'')) (\<lambda>mode.
         decode_then (if json_find entry ''weight'' = None then Inr None
                      else decode_then (or_malformed (require_u64 entry ''weight'' line)) (\<lambda>w. Inr (Some w)))
           (\<lambda>weight. Inr \<lparr>scd_id = name, scd_mode = mode, scd_weight = weight\<rparr>)))"

definition parse_binding :: "nat \<Rightarrow> ingest_limits \<Rightarrow> 'd json \<Rightarrow> queue_class_binding decoded" where
  "parse_binding line limits entry =
     decode_then (or_malformed (require_string entry ''device'' (max_field_bytes limits) line)) (\<lambda>device.
     decode_then (or_malformed (require_string entry ''port'' (max_field_bytes limits) line)) (\<lambda>port.
     decode_then (or_malformed (require_u64 entry ''queue'' line)) (\<lambda>queue.
     case (strong_name_create DeviceTag device, strong_name_create PortTag port, narrow_u queue) of
       (Inr d, Inr p, Some q) \<Rightarrow>
         decode_then (optional_u16 entry ''traffic_class'' line
             ''a binding traffic class does not fit in 16 bits'') (\<lambda>traffic.
         decode_then (optional_scheduling entry line
             (''binding '' @ in_ticks ''scheduling_class'' @ '' must be a string'')
             (''binding '' @ in_ticks ''scheduling_class'' @ '' is not usable'')) (\<lambda>sc.
           Inr \<lparr>qcb_queue = QueuePath d p q, qcb_traffic_class = traffic, qcb_scheduling_class = sc\<rparr>))
     | _ \<Rightarrow> malformed line ''a binding names an unusable queue path'')))"

definition parse_metadata_record ::
    "'d json \<Rightarrow> nat \<Rightarrow> ingest_limits \<Rightarrow> class_metadata_table decoded" where
  "parse_metadata_record object line limits =
     decode_then (or_malformed (require_u64 object ''revision'' line)) (\<lambda>revision.
     decode_then (or_malformed (require_u64 object ''generation'' line)) (\<lambda>generation.
     decode_then (or_malformed (require_string object ''source'' (max_field_bytes limits) line)) (\<lambda>source.
     case strong_name_create SourceTag source of
       Inl e \<Rightarrow> malformed line ''metadata source is not a usable identity''
     | Inr src \<Rightarrow>
         decode_then (optional_authority object line
             (\<lambda>_. ''metadata authority value is not recognised'')) (\<lambda>authority.
         decode_then (parse_section object ''traffic_classes'' line limits ''traffic class''
             ''traffic class'' (parse_traffic_class line limits)) (\<lambda>traffic.
         decode_then (parse_section object ''scheduling_classes'' line limits ''scheduling class''
             ''scheduling class'' (parse_scheduling_class line limits)) (\<lambda>scheduling.
         decode_then (parse_section object ''bindings'' line limits ''binding''
             ''binding'' (parse_binding line limits)) (\<lambda>bindings.
           if revision = 0 then malformed line ''metadata revision must be non-zero''
           else if generation = 0 then malformed line ''metadata generation must be non-zero''
           else Inr (empty_metadata\<lparr>mt_revision := revision, mt_generation := generation,
                  mt_source := src, mt_authority := authority, mt_traffic_classes := traffic,
                  mt_scheduling_classes := scheduling, mt_bindings := bindings\<rparr>))))))))"

section \<open>Documents\<close>

definition push_diagnostic :: "nat \<Rightarrow> decode_status \<Rightarrow> string \<Rightarrow> decode_outcome \<Rightarrow> decode_outcome" where
  "push_diagnostic line status reason out =
     (if length (do_diagnostics out) \<ge> kMaxDiagnostics
      then out\<lparr>do_diagnostics_truncated := True\<rparr>
      else out\<lparr>do_diagnostics := do_diagnostics out
             @ [\<lparr>dd_line = line, dd_status = status, dd_reason = reason\<rparr>]\<rparr>)"

text \<open>A record that is refused: its counter and its diagnostic.\<close>

definition refuse :: "nat \<Rightarrow> decode_status \<times> string \<Rightarrow> decode_outcome \<Rightarrow> decode_outcome" where
  "refuse line refusal out =
     push_diagnostic line (fst refusal) (snd refusal)
       (case fst refusal of
          D_Unsupported \<Rightarrow> out\<lparr>do_unsupported := do_unsupported out + 1\<rparr>
        | D_VersionMismatch \<Rightarrow> out\<lparr>do_version_mismatches := do_version_mismatches out + 1\<rparr>
        | _ \<Rightarrow> out\<lparr>do_malformed := do_malformed out + 1\<rparr>)"

definition json_limits_of :: "ingest_limits \<Rightarrow> json_limits" where
  "json_limits_of limits =
     \<lparr>max_document_bytes = kMaxLineBytes, max_depth = max_json_depth limits,
      max_nodes = max_json_nodes limits, max_string_bytes = max_field_bytes limits,
      max_object_members = 64, max_array_elements = max_batch_metadata limits\<rparr>"

definition strip_return :: "string \<Rightarrow> string" where
  "strip_return line = (if line \<noteq> [] \<and> last line = CHR 0x0D then butlast line else line)"

text \<open>The object of a record, its kind, and the check of its version.\<close>

definition decode_object :: "ingest_limits \<Rightarrow> 'd doubles \<Rightarrow> nat \<Rightarrow> string \<Rightarrow> ('d json \<times> string) decoded" where
  "decode_object limits lib line record =
     (case parse_json record (json_limits_of limits) lib of
        Inl e \<Rightarrow> malformed line (''the record is not valid JSON: '' @ st_message e)
      | Inr (JObject members) \<Rightarrow>
          (case json_find (JObject members) ''kind'' of
             None \<Rightarrow> malformed line (''field '' @ in_ticks ''kind'' @ '' is required'')
           | Some (JString kind) \<Rightarrow>
               decode_then (or_malformed (optional_u64 (JObject members) ''v'' (ucast kVersion) line)) (\<lambda>version.
                 if version \<noteq> ucast kVersion
                 then Inl (D_VersionMismatch, line_prefix line @ ''record declares version ''
                        @ dec_u64 version @ '' but this runtime reads '' @ dec_nat (unat kVersion))
                 else Inr (JObject members, kind))
           | Some _ \<Rightarrow> malformed line (''field '' @ in_ticks ''kind'' @ '' must be a string''))
      | Inr _ \<Rightarrow> malformed line ''every record must be a JSON object'')"

definition add_sample :: "queue_sample \<Rightarrow> nat \<Rightarrow> decode_outcome \<Rightarrow> decode_outcome" where
  "add_sample s unknown out =
     out\<lparr>do_unknown_keys := do_unknown_keys out + unknown, do_samples := do_samples out @ [s],
         do_sample_count := do_sample_count out + 1, do_records := do_records out + 1\<rparr>"

definition add_metadata :: "class_metadata_table \<Rightarrow> decode_outcome \<Rightarrow> decode_outcome" where
  "add_metadata t out =
     out\<lparr>do_metadata := do_metadata out @ [t], do_metadata_count := do_metadata_count out + 1,
         do_metadata_records := do_metadata_records out + 1, do_records := do_records out + 1\<rparr>"

definition decode_record ::
    "ingest_limits \<Rightarrow> 'd doubles \<Rightarrow> nat \<Rightarrow> string \<Rightarrow> decode_outcome \<Rightarrow> decode_outcome" where
  "decode_record limits lib line record out =
     (if length record > kMaxLineBytes
      then refuse line (D_Malformed, line_prefix line @ ''the record exceeds the maximum line size'') out
      else case decode_object limits lib line record of
        Inl refusal \<Rightarrow> refuse line refusal out
      | Inr (object, kind) \<Rightarrow>
          if kind = ''queue_sample'' then
            (if length (do_samples out) \<ge> max_batch_samples limits
             then refuse line (D_Malformed, line_prefix line
                    @ ''the document exceeds the configured sample count'') out
             else case parse_sample_record object line limits of
               Inl refusal \<Rightarrow> refuse line refusal out
             | Inr (s, unknown) \<Rightarrow> add_sample s unknown out)
          else if kind = ''class_metadata'' then
            (if length (do_metadata out) \<ge> max_batch_metadata limits
             then refuse line (D_Malformed, line_prefix line
                    @ ''the document exceeds the configured metadata count'') out
             else case parse_metadata_record object line limits of
               Inl refusal \<Rightarrow> refuse line refusal out
             | Inr t \<Rightarrow> add_metadata t out)
          else refuse line (D_Unsupported, line_prefix line @ ''record kind ''
                 @ in_ticks (sanitize_for_display kind 32) @ '' is not interpreted by this runtime'') out)"

definition decode_line ::
    "ingest_limits \<Rightarrow> 'd doubles \<Rightarrow> nat \<Rightarrow> string \<Rightarrow> decode_outcome \<Rightarrow> decode_outcome" where
  "decode_line limits lib line raw out =
     (let record = trim (strip_return raw)
      in if record = [] \<or> hd record = CHR 0x23
         then out\<lparr>do_skipped := do_skipped out + 1\<rparr>
         else decode_record limits lib line record (out\<lparr>do_lines := do_lines out + 1\<rparr>))"

primrec decode_lines ::
    "ingest_limits \<Rightarrow> 'd doubles \<Rightarrow> nat \<Rightarrow> string list \<Rightarrow> decode_outcome \<Rightarrow> decode_outcome" where
  "decode_lines limits lib n [] out = out"
| "decode_lines limits lib n (l # ls) out =
     decode_lines limits lib (n + 1) ls (decode_line limits lib (n + 1) l out)"

definition decode_document ::
    "string \<Rightarrow> ingest_limits \<Rightarrow> 'd doubles \<Rightarrow> status \<times> decode_outcome" where
  "decode_document payload limits lib =
     (if \<not> status_ok (validate_ingest_limits limits) then (validate_ingest_limits limits, empty_outcome)
      else if length payload > max_payload_bytes limits
      then (failure LimitExceeded ''the document exceeds the configured payload size'', empty_outcome)
      else (success, decode_lines limits lib 0 (split payload (CHR 0x0A)) empty_outcome))"

end
