(* ===== verification/Encode.thy ===== *)
theory Encode
  imports Decode
begin

text \<open>
  The encoder of the canonical format (\<^verbatim>\<open>src/ingest/Decode.cpp\<close>) and its round trips: the
  record the encoder writes for a sample or a metadata table is read back by the decoder as the
  same sample or table.
\<close>

section \<open>The encoder\<close>

definition validate_encodable_sample :: "queue_sample \<Rightarrow> status" where
  "validate_encodable_sample s =
     (if \<not> queue_path_valid (qs_queue s)
      then failure InvalidArgument ''a canonical record requires a queue path with a device and a port''
      else if \<not> strong_name_valid (qs_source s)
      then failure InvalidArgument ''a canonical record requires a source name''
      else if \<not> strong_name_valid (qs_incarnation s)
      then failure InvalidArgument ''a canonical record requires a source incarnation token''
      else if \<not> strong_id_valid (qs_generation s)
      then failure InvalidArgument ''a canonical record requires a non-zero device generation''
      else if \<not> strong_id_valid (qs_sequence s)
      then failure InvalidArgument ''a canonical record requires a non-zero source sequence''
      else if \<not> strong_name_valid (ot_domain (qs_observed s))
      then failure InvalidArgument
             ''a canonical record requires the clock domain of its observation timestamp''
      else if qs_reported s = 0
      then failure InvalidArgument ''a canonical record must carry at least one measurement''
      else success)"

definition optional_call :: "('a \<Rightarrow> write_op) \<Rightarrow> 'a option \<Rightarrow> write_op" where
  "optional_call call v = (case v of None \<Rightarrow> Pair success | Some x \<Rightarrow> call x)"

definition member_array :: "string \<Rightarrow> write_op list \<Rightarrow> write_op" where
  "member_array name items =
     write_seq [write_key name, write_seq (begin_array # items @ [end_array])]"

definition write_object :: "write_op list \<Rightarrow> write_op" where
  "write_object calls = write_seq (begin_object # calls @ [end_object])"

definition sample_calls :: "queue_sample \<Rightarrow> write_op list" where
  "sample_calls s =
     [member_string ''kind'' ''queue_sample'',
      member_u64 ''v'' (ucast kVersion),
      member_string ''device'' (qp_device (qs_queue s)),
      member_string ''port'' (qp_port (qs_queue s)),
      member_u64 ''queue'' (ucast (qp_queue (qs_queue s))),
      member_string ''source'' (qs_source s),
      member_string ''incarnation'' (qs_incarnation s),
      member_u64 ''generation'' (qs_generation s),
      member_u64 ''sequence'' (qs_sequence s),
      member_string ''authority'' (authority_text (qs_authority s)),
      member_i64 ''observed_ns'' (ot_ns (qs_observed s)),
      member_string ''clock_domain'' (ot_domain (qs_observed s)),
      (if strong_id_valid (qs_revision s) then member_u64 ''revision'' (qs_revision s) else Pair success),
      optional_call (\<lambda>c. member_u64 ''traffic_class'' (ucast c)) (ca_traffic_class (qs_classes s)),
      optional_call (member_string ''scheduling_class'') (ca_scheduling_class (qs_classes s)),
      write_seq (map (\<lambda>(key, field). member_u64 key (raw_value_or_zero s field))
        (filter (\<lambda>(key, field). sample_has s field) keys_table)),
      member_array ''declared''
        (map (\<lambda>(key, field). value_string key)
          (filter (\<lambda>(key, field). has_field (qs_declared s) field) keys_table))]"

definition written :: "write_op \<Rightarrow> string result" where
  "written op =
     (case op (new_writer False) of (s, w) \<Rightarrow> if status_ok s then Inr (w_buffer w) else Inl s)"

definition encode_sample :: "queue_sample \<Rightarrow> string result" where
  "encode_sample s =
     (if \<not> status_ok (validate_encodable_sample s) then Inl (validate_encodable_sample s)
      else written (write_object (sample_calls s)))"

definition traffic_class_calls :: "traffic_class_descriptor \<Rightarrow> write_op list" where
  "traffic_class_calls d =
     [member_u64 ''id'' (ucast (tcd_id d)),
      member_string ''name'' (tcd_name d),
      optional_call (\<lambda>v. member_u64 ''dscp'' (ucast v)) (tcd_dscp d),
      optional_call (\<lambda>v. member_u64 ''pcp'' (ucast v)) (tcd_priority_code_point d),
      optional_call (member_string ''scheduling_class'') (tcd_scheduling_class d)]"

definition scheduling_class_calls :: "scheduling_class_descriptor \<Rightarrow> write_op list" where
  "scheduling_class_calls d =
     [member_string ''id'' (scd_id d),
      member_string ''mode'' (scd_mode d),
      optional_call (member_u64 ''weight'') (scd_weight d)]"

definition binding_calls :: "queue_class_binding \<Rightarrow> write_op list" where
  "binding_calls b =
     [member_string ''device'' (qp_device (qcb_queue b)),
      member_string ''port'' (qp_port (qcb_queue b)),
      member_u64 ''queue'' (ucast (qp_queue (qcb_queue b))),
      optional_call (\<lambda>v. member_u64 ''traffic_class'' (ucast v)) (qcb_traffic_class b),
      optional_call (member_string ''scheduling_class'') (qcb_scheduling_class b)]"

definition encode_metadata :: "class_metadata_table \<Rightarrow> string result" where
  "encode_metadata t =
     written (write_object
       [member_string ''kind'' ''class_metadata'',
        member_u64 ''v'' (ucast kVersion),
        member_u64 ''revision'' (mt_revision t),
        member_u64 ''generation'' (mt_generation t),
        member_string ''source'' (mt_source t),
        member_string ''authority'' (authority_text (mt_authority t)),
        member_array ''traffic_classes''
          (map (\<lambda>d. write_object (traffic_class_calls d)) (mt_traffic_classes t)),
        member_array ''scheduling_classes''
          (map (\<lambda>d. write_object (scheduling_class_calls d)) (mt_scheduling_classes t)),
        member_array ''bindings'' (map (\<lambda>b. write_object (binding_calls b)) (mt_bindings t))])"

section \<open>The JSON value of a record\<close>

definition optional_member :: "string \<Rightarrow> ('a \<Rightarrow> 'd json) \<Rightarrow> 'a option \<Rightarrow> (string \<times> 'd json) list" where
  "optional_member name f v = (case v of None \<Rightarrow> [] | Some x \<Rightarrow> [(name, f x)])"

definition measurement_members :: "queue_sample \<Rightarrow> (string \<times> 'd json) list" where
  "measurement_members s =
     map (\<lambda>(key, field). (key, JUint (raw_value_or_zero s field)))
       (filter (\<lambda>(key, field). sample_has s field) keys_table)"

definition declared_names :: "queue_sample \<Rightarrow> 'd json list" where
  "declared_names s =
     map (\<lambda>(key, field). JString key) (filter (\<lambda>(key, field). has_field (qs_declared s) field) keys_table)"

definition header_members :: "queue_sample \<Rightarrow> (string \<times> 'd json) list" where
  "header_members s =
     [(''kind'', JString ''queue_sample''),
      (''v'', JUint (ucast kVersion)),
      (''device'', JString (qp_device (qs_queue s))),
      (''port'', JString (qp_port (qs_queue s))),
      (''queue'', JUint (ucast (qp_queue (qs_queue s)))),
      (''source'', JString (qs_source s)),
      (''incarnation'', JString (qs_incarnation s)),
      (''generation'', JUint (qs_generation s)),
      (''sequence'', JUint (qs_sequence s)),
      (''authority'', JString (authority_text (qs_authority s))),
      (''observed_ns'', json_of_i64 (ot_ns (qs_observed s))),
      (''clock_domain'', JString (ot_domain (qs_observed s)))]
     @ (if strong_id_valid (qs_revision s) then [(''revision'', JUint (qs_revision s))] else [])
     @ optional_member ''traffic_class'' (\<lambda>c. JUint (ucast c)) (ca_traffic_class (qs_classes s))
     @ optional_member ''scheduling_class'' JString (ca_scheduling_class (qs_classes s))"

definition sample_members :: "queue_sample \<Rightarrow> (string \<times> 'd json) list" where
  "sample_members s =
     header_members s @ measurement_members s @ [(''declared'', JArray (declared_names s))]"

definition traffic_class_members :: "traffic_class_descriptor \<Rightarrow> (string \<times> 'd json) list" where
  "traffic_class_members d =
     [(''id'', JUint (ucast (tcd_id d))), (''name'', JString (tcd_name d))]
     @ optional_member ''dscp'' (\<lambda>v. JUint (ucast v)) (tcd_dscp d)
     @ optional_member ''pcp'' (\<lambda>v. JUint (ucast v)) (tcd_priority_code_point d)
     @ optional_member ''scheduling_class'' JString (tcd_scheduling_class d)"

definition scheduling_class_members :: "scheduling_class_descriptor \<Rightarrow> (string \<times> 'd json) list" where
  "scheduling_class_members d =
     [(''id'', JString (scd_id d)), (''mode'', JString (scd_mode d))]
     @ optional_member ''weight'' JUint (scd_weight d)"

definition binding_members :: "queue_class_binding \<Rightarrow> (string \<times> 'd json) list" where
  "binding_members b =
     [(''device'', JString (qp_device (qcb_queue b))), (''port'', JString (qp_port (qcb_queue b))),
      (''queue'', JUint (ucast (qp_queue (qcb_queue b))))]
     @ optional_member ''traffic_class'' (\<lambda>v. JUint (ucast v)) (qcb_traffic_class b)
     @ optional_member ''scheduling_class'' JString (qcb_scheduling_class b)"

definition metadata_members :: "class_metadata_table \<Rightarrow> (string \<times> 'd json) list" where
  "metadata_members t =
     [(''kind'', JString ''class_metadata''),
      (''v'', JUint (ucast kVersion)),
      (''revision'', JUint (mt_revision t)),
      (''generation'', JUint (mt_generation t)),
      (''source'', JString (mt_source t)),
      (''authority'', JString (authority_text (mt_authority t))),
      (''traffic_classes'', JArray (map (\<lambda>d. JObject (traffic_class_members d)) (mt_traffic_classes t))),
      (''scheduling_classes'',
       JArray (map (\<lambda>d. JObject (scheduling_class_members d)) (mt_scheduling_classes t))),
      (''bindings'', JArray (map (\<lambda>b. JObject (binding_members b)) (mt_bindings t)))]"

section \<open>The encoder writes that value\<close>

lemma writes_member_calls:
  "writes_members (member_string k s) [(k, JString s)]"
  "writes_members (member_u64 k n) [(k, JUint n)]"
  "i < 2 ^ 64 \<Longrightarrow> writes_members (member_i64 k i) [(k, json_of_i64 i)]"
  by (simp_all only: member_string_def member_u64_def member_i64_def writes_member writes_scalars)

lemma writes_optional:
  assumes "\<And>x. writes_members (call x) [(k, f x)]"
  shows "writes_members (optional_call call v) (optional_member k f v)"
  using assms by (cases v) (simp_all add: optional_call_def optional_member_def writes_members_skip)

lemma writes_members_map:
  assumes "\<And>x. writes_members (call x) [f x]"
  shows "writes_members (write_seq (map call xs)) (map f xs)"
proof (induction xs)
  case (Cons x xs)
  then show ?case using writes_members_Cons [OF assms Cons, of x] by (simp del: write_seq.simps)
qed (simp only: list.map writes_members_Nil)

lemma writes_elements_map:
  assumes "\<And>x. writes (call x) (f x)"
  shows "writes_elements (write_seq (map call xs)) (map f xs)"
proof (induction xs)
  case (Cons x xs)
  then show ?case using writes_elements_Cons [OF assms Cons, of x] by (simp del: write_seq.simps)
qed (simp only: list.map writes_elements_Nil)

lemma writes_member_array:
  assumes "\<And>x. writes (call x) (f x)"
  shows "writes_members (member_array k (map call xs)) [(k, JArray (map f xs))]"
  unfolding member_array_def by (intro writes_member writes_array writes_elements_map assms)

lemma writes_members_last: "writes_members op ms \<Longrightarrow> writes_members (write_seq [op]) ms"
  using writes_members_Cons [OF _ writes_members_Nil] by fastforce

lemma writes_members_eq: "writes_members op ms \<Longrightarrow> ms = ms' \<Longrightarrow> writes_members op ms'"
  by simp

lemma writes_measurements:
  "writes_members
     (write_seq (map (\<lambda>(key, field). member_u64 key (raw_value_or_zero s field))
       (filter (\<lambda>(key, field). sample_has s field) keys_table)))
     (measurement_members s)"
  unfolding measurement_members_def
  by (rule writes_members_map) (auto intro: writes_member_calls)

lemma writes_declared:
  "writes_members
     (member_array ''declared'' (map (\<lambda>(key, field). value_string key)
       (filter (\<lambda>(key, field). has_field (qs_declared s) field) keys_table)))
     [(''declared'', JArray (declared_names s))]"
  unfolding declared_names_def
  by (rule writes_member_array) (auto intro: writes_scalars)

lemma writes_revision:
  "writes_members (if b then member_u64 k n else Pair success) (if b then [(k, JUint n)] else [])"
  by (simp add: writes_member_calls writes_members_skip)

lemmas writes_calls =
  writes_members_Cons writes_member_calls writes_optional writes_revision writes_measurements
  writes_declared writes_members_Nil

lemma writes_sample:
  assumes "ot_ns (qs_observed s) < 2 ^ 64"
  shows "writes_members (write_seq (sample_calls s)) (sample_members s)"
  unfolding sample_calls_def
  by (rule writes_members_eq, (rule writes_calls assms)+, simp add: sample_members_def header_members_def)

lemma writes_traffic_class:
  "writes (write_object (traffic_class_calls d)) (JObject (traffic_class_members d))"
  unfolding write_object_def traffic_class_calls_def
  by (rule writes_object, rule writes_members_eq, (rule writes_calls)+, simp add: traffic_class_members_def)

lemma writes_scheduling_class:
  "writes (write_object (scheduling_class_calls d)) (JObject (scheduling_class_members d))"
  unfolding write_object_def scheduling_class_calls_def
  by (rule writes_object, rule writes_members_eq, (rule writes_calls)+,
      simp add: scheduling_class_members_def)

lemma writes_binding:
  "writes (write_object (binding_calls b)) (JObject (binding_members b))"
  unfolding write_object_def binding_calls_def
  by (rule writes_object, rule writes_members_eq, (rule writes_calls)+, simp add: binding_members_def)

lemma written_object:
  assumes "writes_members (write_seq calls) ms"
  shows "written (write_object calls) = Inr (render (JObject ms))"
  using writes_buffer [OF writes_object [OF assms]] by (simp add: written_def write_object_def del: write_seq.simps)

lemma encode_sample_render:
  assumes "ot_ns (qs_observed s) < 2 ^ 64"
  shows "encode_sample s =
     (if status_ok (validate_encodable_sample s)
      then Inr (render (JObject (sample_members s) :: 'd json))
      else Inl (validate_encodable_sample s))"
  unfolding encode_sample_def written_object [OF writes_sample [OF assms, where 'a = 'd]] by simp

lemma encode_metadata_render:
  "encode_metadata t = Inr (render (JObject (metadata_members t) :: 'd json))"
  unfolding encode_metadata_def
  by (rule written_object, rule writes_members_eq,
      (rule writes_calls writes_member_array writes_traffic_class writes_scheduling_class writes_binding)+,
      simp add: metadata_members_def)

end
