(* ===== verification/Field_Mask.thy ===== *)
theory Field_Mask
  imports Sample
begin

text \<open>
  Masks of fields (\<^verbatim>\<open>FieldMask\<close> of \<^verbatim>\<open>include/qobs/model/Sample.hpp\<close>) that only have the bits of
  fields: such a mask is determined by the fields it has. Shared by the two formats that list the
  fields of a sample.
\<close>

unbundle bit_operations_syntax

definition mask_wf :: "field_mask \<Rightarrow> bool" where
  "mask_wf m \<longleftrightarrow> take_bit kSampleFieldCount m = m"

lemma mask_wf_bits: "mask_wf m \<longleftrightarrow> (\<forall>n \<ge> 17. \<not> bit m n)"
proof
  assume "mask_wf m"
  then show "\<forall>n \<ge> 17. \<not> bit m n"
    unfolding mask_wf_def kSampleFieldCount_def by (metis bit_take_bit_iff field_index.simps(18) not_le)
next
  assume "\<forall>n \<ge> 17. \<not> bit m n"
  then have "bit m n \<Longrightarrow> n < 17" for n by (meson not_le)
  then show "mask_wf m"
    unfolding mask_wf_def kSampleFieldCount_def by (intro bit_word_eqI) (auto simp: bit_simps)
qed

lemma field_of_index: "n < 17 \<Longrightarrow> \<exists>f. f \<noteq> Count \<and> field_index f = n"
proof -
  assume "n < 17"
  then have "n \<in> set (map field_index (map fst kFieldNames))"
    by (simp add: kFieldNames_def numeral_eq_Suc less_Suc_eq)
  moreover have "Count \<notin> set (map fst kFieldNames)" by (simp add: kFieldNames_def)
  ultimately show ?thesis by (metis (no_types, lifting) in_set_conv_nth length_map nth_map nth_mem)
qed

lemma mask_eqI:
  assumes "mask_wf m" and "mask_wf m'" and "\<And>f. f \<noteq> Count \<Longrightarrow> has_field m f \<longleftrightarrow> has_field m' f"
  shows "m = m'"
proof (rule bit_word_eqI)
  fix n
  show "bit m n \<longleftrightarrow> bit m' n"
    using assms field_of_index [of n] unfolding mask_wf_bits has_field_bit by (metis not_less)
qed

lemma mask_wf_set: "mask_wf m \<Longrightarrow> f \<noteq> Count \<Longrightarrow> mask_wf (m OR field_bit f)"
  using field_index_past_end [of f] unfolding mask_wf_bits by (auto simp: bit_simps field_bit_def)

lemma foldl_or_fields:
  assumes "Count \<notin> set fs"
  shows "(has_field (foldl (\<lambda>m f. m OR field_bit f) m fs) g \<longleftrightarrow> g \<in> set fs \<or> has_field m g)
    \<and> (mask_wf m \<longrightarrow> mask_wf (foldl (\<lambda>m f. m OR field_bit f) m fs))"
  using assms
proof (induction fs arbitrary: m)
  case (Cons f fs)
  have "mask_wf m \<longrightarrow> mask_wf (m OR field_bit f)" using Cons.prems mask_wf_set [of m f] by auto
  then show ?case using Cons.IH [of "m OR field_bit f"] Cons.prems by (simp add: has_field_set) blast
qed simp

end
