(* ===== verification/Wire_Roundtrip.thy ===== *)
theory Wire_Roundtrip
  imports Encode Field_Mask
begin

text \<open>
  The round trip of the canonical format: a sample that satisfies the class invariants of its
  parts is read back from the record the encoder writes for it, and a document of such records
  gives the samples back in order.
\<close>

section \<open>Well-formed samples\<close>

text \<open>The invariants the classes of the source maintain: a name was accepted by
  \<^verbatim>\<open>StrongNameId::create\<close>, and the masks and values only cover the fields that exist.\<close>

definition name_wf :: "name_tag \<Rightarrow> string \<Rightarrow> bool" where
  "name_wf tag name \<longleftrightarrow> strong_name_create tag name = Inr name"

definition sample_wf :: "queue_sample \<Rightarrow> bool" where
  "sample_wf s \<longleftrightarrow>
     name_wf DeviceTag (qp_device (qs_queue s)) \<and> name_wf PortTag (qp_port (qs_queue s)) \<and>
     name_wf SourceTag (qs_source s) \<and> name_wf IncarnationTag (qs_incarnation s) \<and>
     name_wf ClockDomainTag (ot_domain (qs_observed s)) \<and>
     (case ca_scheduling_class (qs_classes s) of None \<Rightarrow> True | Some c \<Rightarrow> name_wf SchedulingClassTag c) \<and>
     mask_wf (qs_reported s) \<and> mask_wf (qs_declared s) \<and>
     (\<forall>f. \<not> has_field (qs_reported s) f \<longrightarrow> qs_values s f = 0)"

text \<open>What a record carries of a sample: not the time of receipt, not a checksum, and of the class
  attributes only the classes.\<close>

definition wire_view :: "queue_sample \<Rightarrow> queue_sample" where
  "wire_view s =
     s\<lparr>qs_received := zero_receive, qs_declared_version := kVersion, qs_declared_crc := None,
       qs_classes := (qs_classes s)\<lparr>
         ca_origin := (if ca_traffic_class (qs_classes s) \<noteq> None \<or> ca_scheduling_class (qs_classes s) \<noteq> None
                       then ObservedInSample else Unspecified),
         ca_metadata_revision := 0\<rparr>\<rparr>"

text \<open>Limits under which every record of a sample can be read.\<close>

definition roomy :: "ingest_limits \<Rightarrow> bool" where
  "roomy limits \<longleftrightarrow>
     kMaxIdentityLength \<le> max_field_bytes limits \<and> 2 \<le> max_json_depth limits
     \<and> 64 \<le> max_json_nodes limits \<and> 17 \<le> max_batch_metadata limits"

section \<open>The members of a record\<close>

lemma keys_table_distinct: "distinct (map fst keys_table)"
  by (simp add: keys_table_def)

lemma keys_table_fields: "f \<noteq> Count \<Longrightarrow> f \<in> snd ` set keys_table"
  by (cases f) (simp_all add: keys_table_def)

lemma keys_table_no_Count: "(k, f) \<in> set keys_table \<Longrightarrow> f \<noteq> Count"
  by (auto simp: keys_table_def)

lemma keys_table_not_framework:
  "set (map fst keys_table) \<inter> set (kFrameworkKeys @ kOptionalKeys) = {}"
  by (simp add: keys_table_def kFrameworkKeys_def kOptionalKeys_def)

lemma framework_distinct: "distinct (kFrameworkKeys @ kOptionalKeys)"
  by (simp add: kFrameworkKeys_def kOptionalKeys_def)

lemma keys_table_length: "(k, f) \<in> set keys_table \<Longrightarrow> length k \<le> 128"
  by (auto simp: keys_table_def)

lemma keys_table_text: "list_all (\<lambda>(k, f). k = sample_field_text f) keys_table"
  by (simp add: keys_table_def sample_field_text_def kFieldNames_def)

lemma keys_table_parse: "(k, f) \<in> set keys_table \<Longrightarrow> parse_sample_field k = Some f"
  using keys_table_text keys_table_no_Count [of k f] parse_field_text [of f] by (auto simp: list_all_iff)

lemma map_of_filter_table:
  "distinct (map fst xs) \<Longrightarrow>
   map_of (map (\<lambda>(k, f). (k, g f)) (filter (\<lambda>(k, f). P f) xs)) k =
     (case map_of xs k of None \<Rightarrow> None | Some f \<Rightarrow> if P f then Some (g f) else None)"
proof (induction xs)
  case (Cons x xs)
  then have "map_of xs (fst x) = None" by (simp add: map_of_eq_None_iff)
  then show ?case using Cons by (cases x) auto
qed simp

lemma find_measurement:
  assumes "(k, f) \<in> set keys_table"
  shows "map_of (measurement_members s) k = (if sample_has s f then Some (JUint (raw_value_or_zero s f)) else None)"
  using assms keys_table_distinct
  by (simp add: measurement_members_def map_of_filter_table map_of_is_SomeI)

lemma measurement_names: "fst ` set (measurement_members s) \<subseteq> set (map fst keys_table)"
  by (force simp: measurement_members_def)

lemma find_not_measurement:
  "k \<in> set (kFrameworkKeys @ kOptionalKeys) \<Longrightarrow> map_of (measurement_members s) k = None"
  unfolding map_of_eq_None_iff using keys_table_not_framework measurement_names by blast

lemma header_names:
  "fst ` set (header_members s) \<subseteq> set (kFrameworkKeys @ kOptionalKeys) - {''declared''}"
  "distinct (map fst (header_members s))"
  by (auto simp: header_members_def kFrameworkKeys_def kOptionalKeys_def optional_member_def
      split: option.splits)

lemma find_not_header:
  "k \<notin> set (kFrameworkKeys @ kOptionalKeys) \<Longrightarrow> map_of (header_members s) k = None"
  unfolding map_of_eq_None_iff using header_names(1) by blast

lemma find_in_sample:
  assumes "(k, f) \<in> set keys_table"
  shows "map_of (sample_members s) k = (if sample_has s f then Some (JUint (raw_value_or_zero s f)) else None)"
proof -
  have known: "k \<notin> set (kFrameworkKeys @ kOptionalKeys)"
    using keys_table_not_framework assms by force
  then have "k \<noteq> ''declared''" by (auto simp: kOptionalKeys_def)
  then show ?thesis
    by (simp add: sample_members_def map_add_def find_measurement [OF assms] find_not_header [OF known])
qed

lemma find_in_header:
  assumes "k \<in> set (kFrameworkKeys @ kOptionalKeys)" and "k \<noteq> ''declared''"
  shows "map_of (sample_members s) k = map_of (header_members s) k"
  using assms(2)
  by (simp add: sample_members_def map_add_def find_not_measurement [OF assms(1)] split: option.splits)

lemma names_disjoint:
  "fst ` set (header_members s :: (string \<times> 'd json) list)
     \<inter> fst ` set (measurement_members s :: (string \<times> 'd json) list) = {}"
  "''declared'' \<notin> fst ` set (header_members s)" "''declared'' \<notin> fst ` set (measurement_members s)"
proof -
  have "''declared'' \<in> set (kFrameworkKeys @ kOptionalKeys)" by (simp add: kOptionalKeys_def)
  then show "''declared'' \<notin> fst ` set (measurement_members s)"
    using keys_table_not_framework measurement_names by blast
qed (use header_names(1) keys_table_not_framework measurement_names in blast)+

lemma find_declared: "map_of (sample_members s) ''declared'' = Some (JArray (declared_names s))"
  by (simp add: sample_members_def map_add_def map_of_eq_None_iff [THEN iffD2, OF names_disjoint(2)]
      map_of_eq_None_iff [THEN iffD2, OF names_disjoint(3)])

lemma distinct_map_filter_fst: "distinct (map fst xs) \<Longrightarrow> distinct (map fst (filter P xs))"
  by (induction xs) auto

lemma measurement_names_distinct: "distinct (map fst (measurement_members s))"
  by (simp add: measurement_members_def case_prod_beta' comp_def distinct_map_filter_fst keys_table_distinct)

lemma sample_names_distinct: "distinct (map fst (sample_members s))"
  by (simp add: sample_members_def header_names(2) measurement_names_distinct Int_Un_distrib names_disjoint)

lemma sample_names_known:
  fixes s :: queue_sample
  assumes "m \<in> set (sample_members s :: (string \<times> 'd json) list)"
  shows "fst m \<in> set (map fst keys_table) \<union> set kFrameworkKeys \<union> set kOptionalKeys"
proof -
  consider "m \<in> set (header_members s)" | "m \<in> set (measurement_members s)"
    | "m = (''declared'', JArray (declared_names s))"
    using assms unfolding sample_members_def set_append by auto
  then show ?thesis
  proof cases
    case 1
    then have "fst m \<in> fst ` set (header_members s :: (string \<times> 'd json) list)" by (rule imageI)
    then show ?thesis using header_names(1) [of s, where 'a = 'd] by auto
  next
    case 2
    then have "fst m \<in> fst ` set (measurement_members s :: (string \<times> 'd json) list)" by (rule imageI)
    then show ?thesis using measurement_names [of s, where 'a = 'd] by auto
  next
    case 3
    then show ?thesis by (simp add: kOptionalKeys_def)
  qed
qed

lemma sample_has_no_unknown_keys: "count_unknown_keys (JObject (sample_members s)) = 0"
  unfolding count_unknown_keys_def length_0_conv filter_empty_conv Let_def
  using sample_names_known [OF nth_mem] by fastforce

section \<open>Reading a record back\<close>

lemma narrow_u_widened [simp]:
  "narrow_u (ucast (w :: u32) :: u64) = Some w" "narrow_u (ucast (v :: u16) :: u64) = Some v"
proof -
  have "unat (ucast w :: u64) = unat w" "unat (ucast v :: u64) = unat v"
    using unsigned_less [of w, where 'a = nat] unsigned_less [of v, where 'a = nat]
    by (simp_all add: unsigned_ucast_eq take_bit_nat_eq_self_iff)
  moreover have "unat w < 2 ^ 32" "unat v < 2 ^ 16"
    using unsigned_less [of w, where 'a = nat] unsigned_less [of v, where 'a = nat] by simp_all
  moreover have "(ucast (ucast w :: u64) :: u32) = w" "(ucast (ucast v :: u64) :: u16) = v"
    by (simp_all add: bit_eq_iff bit_simps)
  ultimately show "narrow_u (ucast w :: u64) = Some w" "narrow_u (ucast v :: u64) = Some v"
    by (simp_all add: narrow_u_def)
qed

lemma name_wf_length: "name_wf tag n \<Longrightarrow> length n \<le> kMaxIdentityLength"
  by (auto simp: name_wf_def strong_name_create_def split: if_splits)

lemma name_wf_fits: "name_wf tag n \<Longrightarrow> roomy limits \<Longrightarrow> length n \<le> max_field_bytes limits"
  using name_wf_length [of tag n] by (simp add: roomy_def)

lemma header_find:
  "map_of (header_members s) ''kind'' = Some (JString ''queue_sample'')"
  "map_of (header_members s) ''v'' = Some (JUint (ucast kVersion))"
  "map_of (header_members s) ''device'' = Some (JString (qp_device (qs_queue s)))"
  "map_of (header_members s) ''port'' = Some (JString (qp_port (qs_queue s)))"
  "map_of (header_members s) ''queue'' = Some (JUint (ucast (qp_queue (qs_queue s))))"
  "map_of (header_members s) ''source'' = Some (JString (qs_source s))"
  "map_of (header_members s) ''incarnation'' = Some (JString (qs_incarnation s))"
  "map_of (header_members s) ''generation'' = Some (JUint (qs_generation s))"
  "map_of (header_members s) ''sequence'' = Some (JUint (qs_sequence s))"
  "map_of (header_members s) ''authority'' = Some (JString (authority_text (qs_authority s)))"
  "map_of (header_members s) ''observed_ns'' = Some (json_of_i64 (ot_ns (qs_observed s)))"
  "map_of (header_members s) ''clock_domain'' = Some (JString (ot_domain (qs_observed s)))"
  "map_of (header_members s) ''revision'' =
     (if strong_id_valid (qs_revision s) then Some (JUint (qs_revision s)) else None)"
  "map_of (header_members s) ''traffic_class'' =
     map_option (\<lambda>c. JUint (ucast c)) (ca_traffic_class (qs_classes s))"
  "map_of (header_members s) ''scheduling_class'' = map_option JString (ca_scheduling_class (qs_classes s))"
  by (simp_all add: header_members_def optional_member_def split: option.splits)

lemma sample_find [simp]:
  "k \<in> {''kind'', ''v'', ''device'', ''port'', ''queue'', ''source'', ''incarnation'', ''generation'',
      ''sequence'', ''observed_ns'', ''clock_domain'', ''authority'', ''revision'', ''traffic_class'',
      ''scheduling_class''} \<Longrightarrow>
   map_of (sample_members s) k = map_of (header_members s) k"
  by (rule find_in_header) (auto simp: kFrameworkKeys_def kOptionalKeys_def)

lemma parse_authority_text: "parse_source_authority (authority_text a) = (a, True)"
  by (cases a) (simp_all add: parse_source_authority_def)

lemma json_of_i64_nonneg: "0 \<le> i \<Longrightarrow> json_of_i64 i = JUint (of_int i)"
  by (simp add: json_of_i64_def)

lemma unat_of_nanos: "0 \<le> i \<Longrightarrow> i < 2 ^ 63 \<Longrightarrow> unat (of_int i :: u64) = nat i"
  by (simp add: uint_word_of_int take_bit_int_eq_self flip: nat_uint_eq)

lemma read_string:
  "json_find object k = Some (JString t) \<Longrightarrow> length t \<le> n \<Longrightarrow>
   or_malformed (require_string object k n line) = Inr t"
  by (simp add: or_malformed_def require_string_def)

lemma read_u64:
  "json_find object k = Some (JUint n) \<Longrightarrow> or_malformed (require_u64 object k line) = Inr n"
  by (simp add: or_malformed_def require_u64_def)

lemma parse_identity_written:
  assumes "sample_wf s" and "roomy limits" and "0 \<le> ot_ns (qs_observed s)" and "ot_ns (qs_observed s) < 2 ^ 63"
  shows "parse_sample_identity (JObject (sample_members s)) line limits =
     Inr (empty_sample\<lparr>qs_queue := qs_queue s, qs_source := qs_source s,
            qs_incarnation := qs_incarnation s, qs_generation := qs_generation s,
            qs_sequence := qs_sequence s, qs_observed := qs_observed s\<rparr>)"
proof -
  have names: "strong_name_create DeviceTag (qp_device (qs_queue s)) = Inr (qp_device (qs_queue s))"
    "strong_name_create PortTag (qp_port (qs_queue s)) = Inr (qp_port (qs_queue s))"
    "strong_name_create SourceTag (qs_source s) = Inr (qs_source s)"
    "strong_name_create IncarnationTag (qs_incarnation s) = Inr (qs_incarnation s)"
    "strong_name_create ClockDomainTag (ot_domain (qs_observed s)) = Inr (ot_domain (qs_observed s))"
    using assms(1) by (simp_all add: sample_wf_def name_wf_def)
  have lengths: "length (qp_device (qs_queue s)) \<le> max_field_bytes limits"
    "length (qp_port (qs_queue s)) \<le> max_field_bytes limits" "length (qs_source s) \<le> max_field_bytes limits"
    "length (qs_incarnation s) \<le> max_field_bytes limits"
    "length (ot_domain (qs_observed s)) \<le> max_field_bytes limits"
    using assms(1,2) by (auto simp: sample_wf_def intro: name_wf_fits)
  have range: "\<not> 9223372036854775807 < nat (ot_ns (qs_observed s))"
    using assms(3,4) by (simp add: not_less nat_le_iff)
  show ?thesis
    using assms(3,4) range
    by (simp add: parse_sample_identity_def decode_then_def read_string [OF _ lengths(1)] read_string [OF _ lengths(2)]
        read_string [OF _ lengths(3)] read_string [OF _ lengths(4)] read_string [OF _ lengths(5)] read_u64 header_find names
        json_of_i64_nonneg unat_of_nanos)
qed

lemma parse_attributes_written:
  assumes "sample_wf s"
  shows "parse_sample_attributes (JObject (sample_members s)) line t =
     Inr (t\<lparr>qs_authority := qs_authority s, qs_revision := qs_revision s,
            qs_classes := qs_classes (wire_view s)\<rparr>)"
proof -
  have scheduling: "strong_name_create SchedulingClassTag c = Inr c"
    if "ca_scheduling_class (qs_classes s) = Some c" for c
    using assms that by (simp add: sample_wf_def name_wf_def)
  show ?thesis
    by (cases "ca_traffic_class (qs_classes s)"; cases "ca_scheduling_class (qs_classes s)")
      (simp_all add: parse_sample_attributes_def decode_then_def optional_authority_def header_find
        parse_authority_text optional_u64_def optional_u16_def optional_scheduling_def read_u64
        or_malformed_def require_u64_def scheduling wire_view_def strong_id_valid_def)
qed

text \<open>Reading the measurements sets the fields the sample reports.\<close>

definition copy_field :: "queue_sample \<Rightarrow> queue_sample \<Rightarrow> sample_field \<Rightarrow> queue_sample" where
  "copy_field s t f = (if sample_has s f then set_value t f (raw_value_or_zero s f) else t)"

lemma read_measurements_written:
  assumes "\<forall>(k, f) \<in> set entries. json_find object k =
             (if sample_has s f then Some (JUint (raw_value_or_zero s f)) else None)"
  shows "read_measurements object line entries t = Inr (foldl (copy_field s) t (map snd entries))"
  using assms
  by (induction entries arbitrary: t)
    (auto simp: copy_field_def decode_then_def read_u64)

lemma copy_field_simps:
  assumes "f \<noteq> Count"
  shows "has_field (qs_reported (copy_field s t f)) g \<longleftrightarrow>
           g = f \<and> sample_has s f \<or> has_field (qs_reported t) g"
    "qs_values (copy_field s t f) = (if sample_has s f then (qs_values t)(f := qs_values s f) else qs_values t)"
    "copy_field s t f = t\<lparr>qs_reported := qs_reported (copy_field s t f), qs_values := qs_values (copy_field s t f)\<rparr>"
  using assms
  by (auto simp: copy_field_def set_value_def field_index_Count has_field_set raw_value_or_zero_def
      not_le [symmetric])

lemma copy_fields:
  assumes "Count \<notin> set fs"
  shows "(has_field (qs_reported (foldl (copy_field s) t fs)) g \<longleftrightarrow>
           g \<in> set fs \<and> sample_has s g \<or> has_field (qs_reported t) g)
    \<and> qs_values (foldl (copy_field s) t fs) g =
       (if g \<in> set fs \<and> sample_has s g then qs_values s g else qs_values t g)
    \<and> (mask_wf (qs_reported t) \<longrightarrow> mask_wf (qs_reported (foldl (copy_field s) t fs)))
    \<and> (\<exists>m v. foldl (copy_field s) t fs = t\<lparr>qs_reported := m, qs_values := v\<rparr>)"
  using assms
proof (induction fs arbitrary: t)
  case Nil
  have "\<exists>m v. t = t\<lparr>qs_reported := m, qs_values := v\<rparr>"
    by (intro exI [of _ "qs_reported t"] exI [of _ "qs_values t"]) simp
  then show ?case by simp
next
  case (Cons f fs)
  then have f: "f \<noteq> Count" by auto
  have wf: "mask_wf (qs_reported t) \<Longrightarrow> mask_wf (qs_reported (copy_field s t f))"
    using mask_wf_set [OF _ f] by (simp add: copy_field_def set_value_def)
  have "\<exists>m v. copy_field s t f = t\<lparr>qs_reported := m, qs_values := v\<rparr>"
    using copy_field_simps(3) [OF f] by blast
  then show ?case
    using Cons.IH [of "copy_field s t f"] Cons.prems wf copy_field_simps(1,2) [OF f, of s t]
    by (auto split: if_splits)
qed

lemma read_all_measurements:
  assumes "sample_wf s" and "qs_reported t = 0" and "qs_values t = (\<lambda>_. 0)"
  shows "read_measurements (JObject (sample_members s)) line keys_table t =
     Inr (t\<lparr>qs_reported := qs_reported s, qs_values := qs_values s\<rparr>)"
proof -
  let ?fs = "map snd keys_table"
  let ?u = "foldl (copy_field s) t ?fs"
  have fs: "Count \<notin> set ?fs" using keys_table_no_Count by force
  note u = copy_fields [OF fs, of s t]
  have "qs_reported ?u = qs_reported s"
  proof (rule mask_eqI)
    show "mask_wf (qs_reported ?u)" using u assms(2) by (simp add: mask_wf_def)
    show "has_field (qs_reported ?u) f \<longleftrightarrow> has_field (qs_reported s) f" if "f \<noteq> Count" for f
      using u [of f] keys_table_fields [OF that] assms(2) by (auto simp: sample_has_def)
  qed (use assms(1) in \<open>simp add: sample_wf_def\<close>)
  moreover have "qs_values ?u f = qs_values s f" for f
  proof (cases "f \<in> set ?fs")
    case True
    then show ?thesis
      using u [of f] assms by (simp add: sample_has_def sample_wf_def)
  next
    case False
    then have "f = Count" using keys_table_fields by force
    then have "\<not> has_field (qs_reported s) f"
      using assms(1) by (simp add: sample_wf_def mask_wf_bits has_field_bit)
    then show ?thesis using u [of f] assms False by (simp add: sample_wf_def)
  qed
  moreover obtain m v where "?u = t\<lparr>qs_reported := m, qs_values := v\<rparr>" using u by blast
  ultimately have "?u = t\<lparr>qs_reported := qs_reported s, qs_values := qs_values s\<rparr>"
    by (simp add: ext [of v "qs_values s"])
  then show ?thesis
    using read_measurements_written [of keys_table "JObject (sample_members s)" s line t] find_in_sample
    by auto
qed

lemma read_declared_names:
  assumes "\<forall>(k, f) \<in> set entries. parse_sample_field k = Some f"
  shows "read_declared line (map (\<lambda>(k, f). JString k) entries) m u =
     Inr (foldl (\<lambda>m f. m OR field_bit f) m (map snd entries), u)"
  using assms by (induction entries arbitrary: m) auto

lemma parse_declared_written:
  assumes "sample_wf s"
  shows "parse_declared (JObject (sample_members s)) line t = Inr (t\<lparr>qs_declared := qs_declared s\<rparr>, 0)"
proof -
  let ?entries = "filter (\<lambda>(k, f). has_field (qs_declared s) f) keys_table"
  let ?m = "foldl (\<lambda>m f. m OR field_bit f) 0 (map snd ?entries)"
  have no: "Count \<notin> set (map snd ?entries)" using keys_table_no_Count by force
  have "?m = qs_declared s"
  proof (rule mask_eqI)
    show "mask_wf ?m" using foldl_or_fields [OF no, of 0] by (simp add: mask_wf_def)
    show "has_field ?m f \<longleftrightarrow> has_field (qs_declared s) f" if "f \<noteq> Count" for f
      using foldl_or_fields [OF no, of 0 f] keys_table_fields [OF that] by force
  qed (use assms in \<open>simp add: sample_wf_def\<close>)
  moreover have "read_declared line (declared_names s :: 'a json list) 0 0 = Inr (?m, 0)"
    unfolding declared_names_def by (rule read_declared_names) (auto intro: keys_table_parse)
  ultimately show ?thesis
    by (simp add: parse_declared_def find_declared decode_then_def) 
qed

lemma parse_sample_written:
  assumes "sample_wf s" and "roomy limits" and "0 \<le> ot_ns (qs_observed s)"
    and "ot_ns (qs_observed s) < 2 ^ 63" and "qs_reported s \<noteq> 0"
  shows "parse_sample_record (JObject (sample_members s)) line limits = Inr (wire_view s, 0)"
proof -
  let ?t = "empty_sample\<lparr>qs_queue := qs_queue s, qs_source := qs_source s,
            qs_incarnation := qs_incarnation s, qs_generation := qs_generation s,
            qs_sequence := qs_sequence s, qs_observed := qs_observed s,
            qs_authority := qs_authority s, qs_revision := qs_revision s,
            qs_classes := qs_classes (wire_view s)\<rparr>"
  have "?t\<lparr>qs_reported := qs_reported s, qs_values := qs_values s, qs_declared := qs_declared s,
          qs_declared_version := kVersion\<rparr> = wire_view s"
    by (simp add: empty_sample_def wire_view_def)
  then show ?thesis
    using assms
    by (simp add: parse_sample_record_def decode_then_def parse_identity_written parse_attributes_written
        read_all_measurements parse_declared_written sample_has_no_unknown_keys empty_sample_def)
qed

section \<open>The record is within the limits\<close>

lemma header_member_small:
  assumes "sample_wf s" and "roomy limits" and "m \<in> set (header_members s)"
    and "- (2 ^ 63) \<le> ot_ns (qs_observed s)"
  shows "length (fst m) \<le> 128 \<and> fits (json_limits_of limits) (snd m)
         \<and> json_height (snd m) = 0 \<and> json_nodes (snd m) = 1"
proof -
  have n: "128 \<le> max_field_bytes limits" using assms(2) by (simp add: roomy_def kMaxIdentityLength_def)
  have names: "length (qp_device (qs_queue s)) \<le> max_field_bytes limits"
    "length (qp_port (qs_queue s)) \<le> max_field_bytes limits" "length (qs_source s) \<le> max_field_bytes limits"
    "length (qs_incarnation s) \<le> max_field_bytes limits"
    "length (ot_domain (qs_observed s)) \<le> max_field_bytes limits"
    "\<And>c. ca_scheduling_class (qs_classes s) = Some c \<Longrightarrow> length c \<le> max_field_bytes limits"
    using assms(1,2) by (auto simp: sample_wf_def intro: name_wf_fits)
  have authority: "length (authority_text (qs_authority s)) \<le> max_field_bytes limits"
    using n by (cases "qs_authority s") auto
  show ?thesis
    using assms(3,4) n names authority
    by (auto simp: header_members_def json_limits_of_def optional_member_def json_of_i64_def
        split: if_splits option.splits)
qed

lemma measurement_member_small:
  "m \<in> set (measurement_members s) \<Longrightarrow>
   length (fst m) \<le> 128 \<and> fits limits (snd m) \<and> json_height (snd m) = 0 \<and> json_nodes (snd m) = 1"
  using keys_table_length by (auto simp: measurement_members_def)

lemma member_counts:
  "length (header_members s :: (string \<times> 'd json) list) \<le> 15"
  "length (measurement_members s :: (string \<times> 'd json) list) \<le> 17"
proof -
  have "length keys_table = 17" by (simp add: keys_table_def)
  then show "length (measurement_members s :: (string \<times> 'd json) list) \<le> 17"
    using length_filter_le [of _ keys_table] by (simp add: measurement_members_def)
qed (simp add: header_members_def optional_member_def split: option.splits)

lemma string_array_small:
  assumes "roomy limits" and "length ks \<le> 17" and "\<forall>k \<in> set ks. length k \<le> 128"
  shows "fits (json_limits_of limits) (JArray (map JString ks))
     \<and> json_height (JArray (map JString ks)) \<le> 1 \<and> json_nodes (JArray (map JString ks)) \<le> 18"
proof -
  have "fits (json_limits_of limits) (JArray (map JString ks))"
    using assms by (force simp: list_all_iff json_limits_of_def roomy_def kMaxIdentityLength_def)
  moreover have "foldr max (map (\<lambda>k. 1) ks) (0 :: nat) \<le> 1" "(\<Sum>k\<leftarrow>ks. 1) = length ks"
    by (induction ks) auto
  ultimately show ?thesis using assms(2) by (simp add: comp_def)
qed

lemma declared_names_map:
  "declared_names s = map JString (map fst (filter (\<lambda>(k, f). has_field (qs_declared s) f) keys_table))"
  by (simp add: declared_names_def case_prod_beta')

lemma declared_small:
  "roomy limits \<Longrightarrow>
   fits (json_limits_of limits) (JArray (declared_names s))
   \<and> json_height (JArray (declared_names s)) \<le> 1 \<and> json_nodes (JArray (declared_names s)) \<le> 18"
  unfolding declared_names_map
proof (rule string_array_small)
  have "length keys_table = 17" by (simp add: keys_table_def)
  then show "length (map fst (filter (\<lambda>(k, f). has_field (qs_declared s) f) keys_table)) \<le> 17"
    using length_filter_le [of _ keys_table] by simp
qed (use keys_table_length in auto)

lemma object_small:
  assumes "\<forall>m \<in> set ms. length (fst m) \<le> 128 \<and> fits limits (snd m) \<and> json_height (snd m) \<le> 1"
    and "128 \<le> max_string_bytes limits" and "length ms \<le> max_object_members limits" and "distinct (map fst ms)"
  shows "fits limits (JObject ms) \<and> json_height (JObject ms) \<le> 2"
proof -
  have "foldr max (map (\<lambda>m. json_height (snd m) + 1) ms) 0 \<le> 2"
    using assms(1) by (induction ms) auto
  then show ?thesis using assms by (force simp: list_all_iff)
qed

lemma sum_nodes_one:
  "\<forall>m \<in> set ms. json_nodes (snd m) = 1 \<Longrightarrow> (\<Sum>m\<leftarrow>ms. json_nodes (snd m)) = length ms"
  by (induction ms) auto

lemma sample_readable:
  fixes s :: queue_sample
  assumes "sample_wf s" and "roomy limits" and "- (2 ^ 63) \<le> ot_ns (qs_observed s)"
    and "length (render (JObject (sample_members s) :: 'd json)) \<le> kMaxLineBytes"
  shows "readable (json_limits_of limits) (JObject (sample_members s) :: 'd json)"
proof -
  let ?ms = "sample_members s :: (string \<times> 'd json) list"
  note header = header_member_small [OF assms(1,2) _ assms(3), where 'a = 'd]
  note small = header measurement_member_small [where 'a = 'd] declared_small [OF assms(2), of s, where 'a = 'd]
  have "fits (json_limits_of limits) (JObject ?ms) \<and> json_height (JObject ?ms) \<le> 2"
  proof (rule object_small)
    show "\<forall>m \<in> set ?ms. length (fst m) \<le> 128 \<and> fits (json_limits_of limits) (snd m) \<and> json_height (snd m) \<le> 1"
      using small unfolding sample_members_def by force
    show "128 \<le> max_string_bytes (json_limits_of limits)"
      using assms(2) by (simp add: roomy_def json_limits_of_def kMaxIdentityLength_def)
    show "length ?ms \<le> max_object_members (json_limits_of limits)"
      using member_counts [of s, where 'd = 'd] by (simp add: sample_members_def json_limits_of_def)
  qed (rule sample_names_distinct)
  moreover have "json_nodes (JObject ?ms) \<le> 51"
  proof -
    have "(\<Sum>m\<leftarrow>header_members s. json_nodes (snd m :: 'd json)) = length (header_members s :: (string \<times> 'd json) list)"
      "(\<Sum>m\<leftarrow>measurement_members s. json_nodes (snd m :: 'd json))
       = length (measurement_members s :: (string \<times> 'd json) list)"
      by (rule sum_nodes_one; use small in blast)+
    moreover have "json_nodes (JArray (declared_names s) :: 'd json) \<le> 18" using small(3) by blast
    ultimately show ?thesis
      using member_counts [of s, where 'd = 'd] by (simp add: sample_members_def del: json_nodes.simps(1))
  qed
  ultimately show ?thesis
    using assms(2,4) by (simp add: readable_def roomy_def json_limits_of_def)
qed

section \<open>Documents\<close>

lemma escape_char_printable: "d \<in> set (escape_char c) \<Longrightarrow> 0x20 \<le> (of_char d :: nat)"
proof -
  have hex: "0x20 \<le> (of_char (hex_digit n) :: nat)" if "n < 16" for n
  proof -
    have "n \<in> set [0..<16]" using that by simp
    then show ?thesis by (auto simp: upt_rec hex_digit_def kHexDigits_def)
  qed
  assume "d \<in> set (escape_char c)"
  then show ?thesis using hex by (auto simp: escape_char_def split: if_splits)
qed

lemma quoted_printable: "d \<in> set (quoted t) \<Longrightarrow> 0x20 \<le> (of_char d :: nat)"
  using escape_char_printable by (auto simp: quoted_def escape_json_def)

lemma comma_separated_set: "set (comma_separated ts) \<subseteq> insert (CHR '','') (\<Union>t \<in> set ts. set t)"
  by (induction ts rule: comma_separated.induct) auto

lemma dec_nat_printable: "d \<in> set (dec_nat n) \<Longrightarrow> 0x20 \<le> (of_char d :: nat)"
  using dec_nat_digits [of n] by (auto simp: list_all_iff is_digit_def)

lemma render_printable: "d \<in> set (render v) \<Longrightarrow> 0x20 \<le> (of_char d :: nat)"
proof (induction v arbitrary: d)
  case (JArray vs)
  then show ?case using comma_separated_set [of "map render vs"] by fastforce
next
  case (JObject ms)
  have "0x20 \<le> (of_char c :: nat)" if "c \<in> set (render_member m)" "m \<in> set ms" for c m
    using that quoted_printable JObject.IH [OF that(2), of "snd m"]
    by (auto simp: render_member_def snds.simps)
  then show ?case
    using JObject.prems comma_separated_set [of "map render_member ms"] by (fastforce simp: render_object)
qed (auto simp: dec_u64_def dec_int_def quoted_printable dec_nat_printable split: if_splits)

lemma record_line:
  fixes ms :: "(string \<times> 'd json) list"
  defines "record \<equiv> render (JObject ms)"
  shows "CHR 0x0A \<notin> set record" "trim (strip_return record) = record" "record \<noteq> []" "hd record \<noteq> CHR 0x23"
proof -
  show "CHR 0x0A \<notin> set record"
    unfolding record_def using render_printable [of "CHR 0x0A" "JObject ms"] by auto
  define items where "items = comma_separated (map render_member ms)"
  have shape: "record = ''{'' @ items @ ''}''" by (simp add: record_def render_object items_def)
  then show "trim (strip_return record) = record" "record \<noteq> []" "hd record \<noteq> CHR 0x23"
    by (simp_all add: trim_def strip_return_def is_blank_def)
qed

lemma decode_object_sample:
  fixes s :: queue_sample
  assumes "sample_wf s" and "roomy limits" and "- (2 ^ 63) \<le> ot_ns (qs_observed s)"
    and "length (render (JObject (sample_members s) :: 'd json)) \<le> kMaxLineBytes"
  shows "decode_object limits (lib :: 'd doubles) line (render (JObject (sample_members s) :: 'd json))
        = Inr (JObject (sample_members s), ''queue_sample'')"
  using parse_json_render [OF sample_readable [OF assms], of lib]
  by (simp add: decode_object_def header_find optional_u64_def require_u64_def or_malformed_def decode_then_def)

lemma decode_line_sample:
  fixes s :: queue_sample
  assumes "sample_wf s" and "roomy limits" and "0 \<le> ot_ns (qs_observed s)"
    and "ot_ns (qs_observed s) < 2 ^ 63" and "qs_reported s \<noteq> 0"
    and "length (render (JObject (sample_members s) :: 'd json)) \<le> kMaxLineBytes"
    and "length (do_samples out) < max_batch_samples limits"
  shows "decode_line limits (lib :: 'd doubles) line (render (JObject (sample_members s) :: 'd json)) out =
     add_sample (wire_view s) 0 (out\<lparr>do_lines := do_lines out + 1\<rparr>)"
proof -
  have "- (2 ^ 63) \<le> ot_ns (qs_observed s)" using assms(3) by simp
  then show ?thesis
    using assms parse_sample_written [OF assms(1-5), of line, where 'a = 'd]
      record_line [of "sample_members s :: (string \<times> 'd json) list"] decode_object_sample [of s limits lib line]
    by (simp add: decode_line_def decode_record_def Let_def)
qed

lemma split_join:
  "ts \<noteq> [] \<Longrightarrow> \<forall>t \<in> set ts. sep \<notin> set t \<Longrightarrow> split (join ts [sep]) sep = ts"
  by (induction ts "[sep]" rule: join.induct) (auto simp: split_no_sep split_append_sep)

definition with_samples :: "queue_sample list \<Rightarrow> decode_outcome \<Rightarrow> decode_outcome" where
  "with_samples ss out =
     out\<lparr>do_lines := do_lines out + length ss, do_records := do_records out + length ss,
         do_sample_count := do_sample_count out + length ss, do_samples := do_samples out @ ss\<rparr>"

lemma decode_lines_samples:
  fixes ss :: "queue_sample list"
  assumes "roomy limits"
    and "list_all (\<lambda>s. sample_wf s \<and> 0 \<le> ot_ns (qs_observed s) \<and> ot_ns (qs_observed s) < 2 ^ 63
           \<and> qs_reported s \<noteq> 0
           \<and> length (render (JObject (sample_members s) :: 'd json)) \<le> kMaxLineBytes) ss"
    and "length (do_samples out) + length ss \<le> max_batch_samples limits"
  shows "decode_lines limits (lib :: 'd doubles) n
           (map (\<lambda>s. render (JObject (sample_members s) :: 'd json)) ss) out
         = with_samples (map wire_view ss) out"
  using assms
proof (induction ss arbitrary: n out)
  case (Cons s ss)
  let ?out = "add_sample (wire_view s) 0 (out\<lparr>do_lines := do_lines out + 1\<rparr>)"
  have "decode_line limits lib (n + 1) (render (JObject (sample_members s) :: 'd json)) out = ?out"
    using Cons.prems by (intro decode_line_sample) auto
  moreover have "length (do_samples ?out) + length ss \<le> max_batch_samples limits"
    using Cons.prems by (simp add: add_sample_def)
  ultimately show ?case
    using Cons by (simp add: with_samples_def add_sample_def)
qed (simp add: with_samples_def)

lemma encode_sample_Inr:
  assumes "encode_sample s = Inr r" and "ot_ns (qs_observed s) < 2 ^ 64"
  shows "qs_reported s \<noteq> 0 \<and> r = render (JObject (sample_members s) :: 'd json)"
  using assms(1) unfolding encode_sample_render [OF assms(2), where 'd = 'd]
  by (auto simp: validate_encodable_sample_def split: if_splits)

end
