(* ===== verification/Wire_Properties.thy ===== *)
theory Wire_Properties
  imports Wire_Roundtrip
begin

text \<open>
  The properties of the canonical format: the round trips of samples and of metadata tables, the
  accounting of the decoder, and a record that the encoder writes and the decoder refuses.
\<close>

section \<open>Metadata records\<close>

definition optional_name_wf :: "string option \<Rightarrow> bool" where
  "optional_name_wf n = (case n of None \<Rightarrow> True | Some c \<Rightarrow> name_wf SchedulingClassTag c)"

definition table_wf :: "ingest_limits \<Rightarrow> class_metadata_table \<Rightarrow> bool" where
  "table_wf limits t \<longleftrightarrow>
     mt_revision t \<noteq> 0 \<and> mt_generation t \<noteq> 0 \<and> name_wf SourceTag (mt_source t) \<and>
     list_all (\<lambda>d. length (tcd_name d) \<le> max_field_bytes limits \<and> optional_name_wf (tcd_scheduling_class d))
       (mt_traffic_classes t) \<and>
     list_all (\<lambda>d. name_wf SchedulingClassTag (scd_id d) \<and> length (scd_mode d) \<le> max_field_bytes limits)
       (mt_scheduling_classes t) \<and>
     list_all (\<lambda>b. name_wf DeviceTag (qp_device (qcb_queue b)) \<and> name_wf PortTag (qp_port (qcb_queue b))
                   \<and> optional_name_wf (qcb_scheduling_class b)) (mt_bindings t) \<and>
     length (mt_traffic_classes t) \<le> max_batch_metadata limits \<and>
     length (mt_scheduling_classes t) \<le> max_batch_metadata limits \<and>
     length (mt_bindings t) \<le> max_batch_metadata limits"

lemma optional_scheduling_written:
  assumes "optional_name_wf n" and "json_find object ''scheduling_class'' = map_option JString n"
  shows "optional_scheduling object line a b = Inr n"
  using assms by (cases n) (simp_all add: optional_scheduling_def optional_name_wf_def name_wf_def)

lemma optional_u16_written:
  assumes "json_find object k = map_option (\<lambda>v. JUint (ucast v)) (n :: u16 option)"
  shows "optional_u16 object k line a = Inr n"
  using assms by (cases n) (simp_all add: optional_u16_def read_u64 decode_then_def)

lemma optional_text_written:
  assumes "json_find object k = Some (JString t)" and "length t \<le> n"
  shows "optional_text object k n line a = Inr t"
  using assms by (simp add: optional_text_def)

lemma traffic_class_written:
  assumes "length (tcd_name d) \<le> max_field_bytes limits" and "optional_name_wf (tcd_scheduling_class d)"
  shows "parse_traffic_class line limits (JObject (traffic_class_members d)) = Inr d"
proof -
  have find: "map_of (traffic_class_members d) ''id'' = Some (JUint (ucast (tcd_id d)))"
    "map_of (traffic_class_members d) ''name'' = Some (JString (tcd_name d))"
    "map_of (traffic_class_members d) ''dscp'' = map_option (\<lambda>v. JUint (ucast v)) (tcd_dscp d)"
    "map_of (traffic_class_members d) ''pcp'' = map_option (\<lambda>v. JUint (ucast v)) (tcd_priority_code_point d)"
    "map_of (traffic_class_members d) ''scheduling_class'' = map_option JString (tcd_scheduling_class d)"
    for d
    by (simp_all add: traffic_class_members_def optional_member_def split: option.splits)
  show ?thesis
    using assms
    by (simp add: parse_traffic_class_def decode_then_def read_u64 find optional_text_written
        optional_u16_written optional_scheduling_written)
qed

lemma scheduling_class_written:
  assumes "name_wf SchedulingClassTag (scd_id d)" and "length (scd_mode d) \<le> max_field_bytes limits"
    and "roomy limits"
  shows "parse_scheduling_class line limits (JObject (scheduling_class_members d)) = Inr d"
proof -
  have find: "map_of (scheduling_class_members d) ''id'' = Some (JString (scd_id d))"
    "map_of (scheduling_class_members d) ''mode'' = Some (JString (scd_mode d))"
    "map_of (scheduling_class_members d) ''weight'' = map_option JUint (scd_weight d)" for d
    by (simp_all add: scheduling_class_members_def optional_member_def split: option.splits)
  have "strong_name_create SchedulingClassTag (scd_id d) = Inr (scd_id d)"
    using assms(1) by (simp add: name_wf_def)
  then show ?thesis
    using assms(2) name_wf_fits [OF assms(1,3)]
    by (cases "scd_weight d")
      (simp_all add: parse_scheduling_class_def decode_then_def read_string read_u64 find optional_text_written)
qed

lemma binding_written:
  assumes "name_wf DeviceTag (qp_device (qcb_queue b))" and "name_wf PortTag (qp_port (qcb_queue b))"
    and "optional_name_wf (qcb_scheduling_class b)" and "roomy limits"
  shows "parse_binding line limits (JObject (binding_members b)) = Inr b"
proof -
  have find: "map_of (binding_members b) ''device'' = Some (JString (qp_device (qcb_queue b)))"
    "map_of (binding_members b) ''port'' = Some (JString (qp_port (qcb_queue b)))"
    "map_of (binding_members b) ''queue'' = Some (JUint (ucast (qp_queue (qcb_queue b))))"
    "map_of (binding_members b) ''traffic_class'' = map_option (\<lambda>v. JUint (ucast v)) (qcb_traffic_class b)"
    "map_of (binding_members b) ''scheduling_class'' = map_option JString (qcb_scheduling_class b)" for b
    by (simp_all add: binding_members_def optional_member_def split: option.splits)
  have "strong_name_create DeviceTag (qp_device (qcb_queue b)) = Inr (qp_device (qcb_queue b))"
    "strong_name_create PortTag (qp_port (qcb_queue b)) = Inr (qp_port (qcb_queue b))"
    using assms(1,2) by (simp_all add: name_wf_def)
  then show ?thesis
    using assms(3) name_wf_fits [OF assms(1,4)] name_wf_fits [OF assms(2,4)]
    by (simp add: parse_binding_def decode_then_def read_string read_u64 find optional_u16_written
        optional_scheduling_written)
qed

lemma read_entries_written:
  assumes "\<forall>d \<in> set ds. parse (JObject (members d)) = Inr d"
  shows "read_entries line a parse (map (\<lambda>d. JObject (members d)) ds) acc = Inr (acc @ ds)"
  using assms by (induction ds arbitrary: acc) (auto simp: decode_then_def)

lemma parse_section_written:
  assumes "json_find object k = Some (JArray (map (\<lambda>d. JObject (members d)) ds))"
    and "length ds \<le> max_batch_metadata limits" and "\<forall>d \<in> set ds. parse (JObject (members d)) = Inr d"
  shows "parse_section object k line limits a b parse = Inr ds"
  using assms read_entries_written [OF assms(3)] by (simp add: parse_section_def)

lemma metadata_find:
  "map_of (metadata_members t) ''kind'' = Some (JString ''class_metadata'')"
  "map_of (metadata_members t) ''v'' = Some (JUint (ucast kVersion))"
  "map_of (metadata_members t) ''revision'' = Some (JUint (mt_revision t))"
  "map_of (metadata_members t) ''generation'' = Some (JUint (mt_generation t))"
  "map_of (metadata_members t) ''source'' = Some (JString (mt_source t))"
  "map_of (metadata_members t) ''authority'' = Some (JString (authority_text (mt_authority t)))"
  "map_of (metadata_members t) ''traffic_classes'' =
     Some (JArray (map (\<lambda>d. JObject (traffic_class_members d)) (mt_traffic_classes t)))"
  "map_of (metadata_members t) ''scheduling_classes'' =
     Some (JArray (map (\<lambda>d. JObject (scheduling_class_members d)) (mt_scheduling_classes t)))"
  "map_of (metadata_members t) ''bindings'' =
     Some (JArray (map (\<lambda>b. JObject (binding_members b)) (mt_bindings t)))"
  by (simp_all add: metadata_members_def)

lemma parse_metadata_written:
  assumes "table_wf limits t" and "roomy limits"
  shows "parse_metadata_record (JObject (metadata_members t)) line limits
         = Inr (t\<lparr>mt_received := zero_receive\<rparr>)"
proof -
  have sections:
    "parse_section (JObject (metadata_members t)) ''traffic_classes'' line limits a b
       (parse_traffic_class line limits) = Inr (mt_traffic_classes t)"
    "parse_section (JObject (metadata_members t)) ''scheduling_classes'' line limits a b
       (parse_scheduling_class line limits) = Inr (mt_scheduling_classes t)"
    "parse_section (JObject (metadata_members t)) ''bindings'' line limits a b
       (parse_binding line limits) = Inr (mt_bindings t)" for a b
    by (rule parse_section_written,
        use assms in \<open>auto simp: metadata_find table_wf_def list_all_iff traffic_class_written
          scheduling_class_written binding_written\<close>)+
  have source: "strong_name_create SourceTag (mt_source t) = Inr (mt_source t)"
    "length (mt_source t) \<le> max_field_bytes limits"
    using assms name_wf_fits by (auto simp: table_wf_def name_wf_def)
  have "mt_revision t \<noteq> 0" "mt_generation t \<noteq> 0" using assms(1) by (simp_all add: table_wf_def)
  then show ?thesis
    by (simp add: parse_metadata_record_def decode_then_def read_u64 read_string [OF _ source(2)] metadata_find
        source(1) optional_authority_def parse_authority_text sections empty_metadata_def)
qed

lemma decode_line_metadata:
  fixes t :: class_metadata_table
  assumes "table_wf limits t" and "roomy limits"
    and "readable (json_limits_of limits) (JObject (metadata_members t) :: 'd json)"
    and "length (do_metadata out) < max_batch_metadata limits"
  shows "decode_line limits (lib :: 'd doubles) line (render (JObject (metadata_members t) :: 'd json)) out =
     add_metadata (t\<lparr>mt_received := zero_receive\<rparr>) (out\<lparr>do_lines := do_lines out + 1\<rparr>)"
proof -
  have "decode_object limits lib line (render (JObject (metadata_members t) :: 'd json))
        = Inr (JObject (metadata_members t), ''class_metadata'')"
    using parse_json_render [OF assms(3), of lib]
    by (simp add: decode_object_def metadata_find optional_u64_def require_u64_def or_malformed_def
        decode_then_def)
  moreover have "length (render (JObject (metadata_members t) :: 'd json)) \<le> kMaxLineBytes"
    using assms(3) by (simp add: readable_def json_limits_of_def)
  ultimately show ?thesis
    using assms(4) parse_metadata_written [OF assms(1,2), of line, where 'a = 'd]
      record_line [of "metadata_members t :: (string \<times> 'd json) list"]
    by (simp add: decode_line_def decode_record_def Let_def)
qed

section \<open>The accounting of the decoder\<close>

text \<open>What every line keeps: each record is counted once, the diagnostics and the lists stay within
  their bounds.\<close>

definition accounted :: "ingest_limits \<Rightarrow> decode_outcome \<Rightarrow> bool" where
  "accounted limits out \<longleftrightarrow>
     do_lines out = do_records out + do_malformed out + do_unsupported out + do_version_mismatches out \<and>
     do_records out = length (do_samples out) + length (do_metadata out) \<and>
     do_sample_count out = length (do_samples out) \<and> do_metadata_count out = length (do_metadata out) \<and>
     do_metadata_records out = length (do_metadata out) \<and>
     length (do_samples out) \<le> max_batch_samples limits \<and>
     length (do_metadata out) \<le> max_batch_metadata limits \<and>
     length (do_diagnostics out) \<le> kMaxDiagnostics"

lemmas outcome_defs =
  accounted_def refuse_def push_diagnostic_def add_sample_def add_metadata_def

lemma refuse_accounted:
  assumes "accounted limits out"
  shows "accounted limits (refuse line r (out\<lparr>do_lines := do_lines out + 1\<rparr>))
    \<and> do_lines (refuse line r (out\<lparr>do_lines := do_lines out + 1\<rparr>)) = do_lines out + 1
    \<and> do_skipped (refuse line r (out\<lparr>do_lines := do_lines out + 1\<rparr>)) = do_skipped out"
  using assms by (cases "fst r") (auto simp: outcome_defs)

lemma decode_record_accounted:
  assumes "accounted limits out"
  defines "out1 \<equiv> out\<lparr>do_lines := do_lines out + 1\<rparr>"
  shows "accounted limits (decode_record limits lib line record out1)
    \<and> do_lines (decode_record limits lib line record out1) = do_lines out + 1
    \<and> do_skipped (decode_record limits lib line record out1) = do_skipped out"
proof -
  note no = refuse_accounted [OF assms(1), folded out1_def]
  have sample: "accounted limits (add_sample s u out1) \<and> do_lines (add_sample s u out1) = do_lines out + 1
      \<and> do_skipped (add_sample s u out1) = do_skipped out"
    if "length (do_samples out1) < max_batch_samples limits" for s u
    using assms(1) that by (simp add: out1_def outcome_defs)
  have metadata: "accounted limits (add_metadata t out1) \<and> do_lines (add_metadata t out1) = do_lines out + 1
      \<and> do_skipped (add_metadata t out1) = do_skipped out"
    if "length (do_metadata out1) < max_batch_metadata limits" for t
    using assms(1) that by (simp add: out1_def outcome_defs)
  show ?thesis
    unfolding decode_record_def
    by (simp add: no sample metadata split: sum.split prod.split)
qed

lemma decode_line_accounted:
  assumes "accounted limits out"
  shows "accounted limits (decode_line limits lib line raw out)
    \<and> do_lines (decode_line limits lib line raw out) + do_skipped (decode_line limits lib line raw out)
      = do_lines out + do_skipped out + 1"
proof (cases "trim (strip_return raw) = [] \<or> hd (trim (strip_return raw)) = CHR 0x23")
  case True
  then show ?thesis using assms by (auto simp: decode_line_def Let_def accounted_def)
next
  case False
  then show ?thesis
    using decode_record_accounted [OF assms, of lib line "trim (strip_return raw)"]
    by (simp add: decode_line_def Let_def)
qed

lemma decode_lines_accounted:
  assumes "accounted limits out"
  shows "accounted limits (decode_lines limits lib n ls out)
    \<and> do_lines (decode_lines limits lib n ls out) + do_skipped (decode_lines limits lib n ls out)
      = do_lines out + do_skipped out + length ls"
  using assms
proof (induction ls arbitrary: n out)
  case (Cons l ls)
  then show ?case
    using decode_line_accounted [OF Cons.prems, of lib "n + 1" l]
      Cons.IH [of "decode_line limits lib (n + 1) l out" "n + 1"] by simp
qed simp

section \<open>A record that is refused\<close>

lemma parse_identity_negative:
  assumes "sample_wf s" and "roomy limits" and "ot_ns (qs_observed s) < 0"
  shows "\<exists>reason. parse_sample_identity (JObject (sample_members s)) line limits = Inl (D_Malformed, reason)"
proof -
  have lengths: "length (qp_device (qs_queue s)) \<le> max_field_bytes limits"
    "length (qp_port (qs_queue s)) \<le> max_field_bytes limits" "length (qs_source s) \<le> max_field_bytes limits"
    "length (qs_incarnation s) \<le> max_field_bytes limits"
    "length (ot_domain (qs_observed s)) \<le> max_field_bytes limits"
    using assms(1,2) by (auto simp: sample_wf_def intro: name_wf_fits)
  have negative: "\<exists>reason. or_malformed (require_u64 object k line) = Inl (D_Malformed, reason)"
    if "json_find object k = Some (JInt i)" "i < 0" for object :: "'a json" and k i
    using that by (simp add: or_malformed_def require_u64_def)
  show ?thesis
    using assms(3) negative [of "JObject (sample_members s)" "''observed_ns''" "ot_ns (qs_observed s)"]
    by (auto simp: parse_sample_identity_def decode_then_def read_string [OF _ lengths(1)]
        read_string [OF _ lengths(2)] read_string [OF _ lengths(3)] read_string [OF _ lengths(4)]
        read_string [OF _ lengths(5)] read_u64 header_find json_of_i64_def)
qed

section \<open>Properties\<close>

text \<open>C27: The decoder accounts for every line. Whatever the document holds, a decoder that starts
  classifies each of its lines exactly once as skipped, decoded, malformed, unsupported or of
  another version, keeps the samples and tables within the configured counts and the
  diagnostics within their bound; only bad limits or an oversized document stop it, and then
  nothing is decoded.\<close>

theorem decode_accounts_for_every_line:
  "case decode_document payload limits lib of (status, out) \<Rightarrow>
     accounted limits out \<and>
     (if status_ok status
      then do_lines out + do_skipped out = length (split payload (CHR 0x0A))
      else out = empty_outcome)"
proof -
  have "accounted limits empty_outcome" by (simp add: accounted_def empty_outcome_def)
  then show ?thesis
    using decode_lines_accounted [of limits empty_outcome lib 0 "split payload (CHR 0x0A)"]
    by (simp add: decode_document_def empty_outcome_def)
qed

text \<open>C25: The round trip of samples. A document made of the records the encoder writes for a list of
  well-formed samples with nonnegative observation times, one per line, decodes to exactly those samples
  in order, without a diagnostic; only the receive time, the checksum and the origin marks, which a record
  does not carry, are reset. The limits of the decoder have room for identities, for the depth and nodes
  of a record, for the lines and for the document. (For a negative time see
  \<open>encoder_writes_refused_record\<close>.)\<close>

theorem wire_round_trip:
  assumes "status_ok (validate_ingest_limits limits)" and "roomy limits"
    and "list_all (\<lambda>s. sample_wf s \<and> 0 \<le> ot_ns (qs_observed s) \<and> ot_ns (qs_observed s) < 2 ^ 63) ss"
    and "map encode_sample ss = map Inr records" and "ss \<noteq> []"
    and "length ss \<le> max_batch_samples limits"
    and "list_all (\<lambda>r. length r \<le> kMaxLineBytes) records"
    and "length (join records [CHR 0x0A]) \<le> max_payload_bytes limits"
  shows "decode_document (join records [CHR 0x0A]) limits (lib :: 'd doubles) =
    (success, empty_outcome\<lparr>do_lines := length ss, do_records := length ss,
       do_sample_count := length ss, do_samples := map wire_view ss\<rparr>)"
proof -
  let ?render = "\<lambda>s. render (JObject (sample_members s) :: 'd json)"
  have len: "length records = length ss" using assms(4) map_eq_imp_length_eq by fastforce
  have each: "qs_reported (ss ! i) \<noteq> 0 \<and> records ! i = ?render (ss ! i)" if "i < length ss" for i
  proof (rule encode_sample_Inr)
    show "encode_sample (ss ! i) = Inr (records ! i)"
      using arg_cong [OF assms(4), of "\<lambda>l. l ! i"] that len by simp
    show "ot_ns (qs_observed (ss ! i)) < 2 ^ 64"
      using assms(3) that by (force simp: list_all_length)
  qed
  then have rendered: "records = map ?render ss" using len by (simp add: list_eq_iff_nth_eq)
  have all: "list_all (\<lambda>s. sample_wf s \<and> 0 \<le> ot_ns (qs_observed s) \<and> ot_ns (qs_observed s) < 2 ^ 63
           \<and> qs_reported s \<noteq> 0 \<and> length (?render s) \<le> kMaxLineBytes) ss"
    using assms(3,7) each len by (simp add: list_all_length)
  have lines: "split (join records [CHR 0x0A]) (CHR 0x0A) = records"
    using assms(5) record_line(1) unfolding rendered by (intro split_join) auto
  have "decode_lines limits lib 0 records empty_outcome = with_samples (map wire_view ss) empty_outcome"
    unfolding rendered using all assms(2,6)
    by (intro decode_lines_samples) (simp_all add: empty_outcome_def)
  then show ?thesis
    using assms(1,8) lines by (simp add: decode_document_def with_samples_def empty_outcome_def)
qed

text \<open>The round trip of metadata. The record the encoder writes for a well-formed table decodes to
  that table, but for the time of its receipt.\<close>

theorem metadata_round_trip:
  assumes "status_ok (validate_ingest_limits limits)" and "roomy limits" and "table_wf limits t"
    and "encode_metadata t = Inr record"
    and "readable (json_limits_of limits) (JObject (metadata_members t) :: 'd json)"
    and "length record \<le> max_payload_bytes limits"
  shows "decode_document record limits (lib :: 'd doubles) =
    (success, add_metadata (t\<lparr>mt_received := zero_receive\<rparr>) (empty_outcome\<lparr>do_lines := 1\<rparr>))"
proof -
  have shape: "record = render (JObject (metadata_members t) :: 'd json)"
    using assms(4) encode_metadata_render [of t, where 'd = 'd] by simp
  have "0 < max_batch_metadata limits" using assms(2) by (simp add: roomy_def)
  then have "decode_line limits lib 1 record empty_outcome
      = add_metadata (t\<lparr>mt_received := zero_receive\<rparr>) (empty_outcome\<lparr>do_lines := 1\<rparr>)"
    unfolding shape using assms(2,3,5) by (subst decode_line_metadata) (simp_all add: empty_outcome_def)
  moreover have "split record (CHR 0x0A) = [record]"
    unfolding shape by (intro split_no_sep record_line(1))
  ultimately show ?thesis using assms(1,6) by (simp add: decode_document_def)
qed

text \<open>the encoder writes a record its own decoder refuses. The comment of
  \<^verbatim>\<open>validate_encodable_sample\<close> says that the encoder refuses a sample that the decoder would
  refuse; a sample observed before the epoch of its clock passes the check and is written, and the
  decoder counts the record as malformed.\<close>

theorem encoder_writes_refused_record:
  assumes "status_ok (validate_ingest_limits limits)" and "roomy limits"
    and "sample_wf s" and "encode_sample s = Inr record"
    and "- (2 ^ 63) \<le> ot_ns (qs_observed s)" and "ot_ns (qs_observed s) < 0"
    and "length record \<le> kMaxLineBytes" and "length record \<le> max_payload_bytes limits"
  shows "status_ok (fst (decode_document record limits (lib :: 'd doubles)))
     \<and> do_samples (snd (decode_document record limits lib)) = []
     \<and> do_malformed (snd (decode_document record limits lib)) = 1"
proof -
  have shape: "record = render (JObject (sample_members s) :: 'd json)"
    using encode_sample_Inr [OF assms(4), where 'd = 'd] assms(6) by simp
  have object: "decode_object limits lib 1 record = Inr (JObject (sample_members s), ''queue_sample'')"
    unfolding shape using assms by (intro decode_object_sample) (simp_all add: shape)
  obtain reason where
    "parse_sample_identity (JObject (sample_members s) :: 'd json) 1 limits = Inl (D_Malformed, reason)"
    using parse_identity_negative [OF assms(3,2,6), of 1, where 'a = 'd] by blast
  then have "parse_sample_record (JObject (sample_members s) :: 'd json) 1 limits = Inl (D_Malformed, reason)"
    by (simp add: parse_sample_record_def decode_then_def)
  then have "decode_line limits lib 1 record empty_outcome =
      (if max_batch_samples limits = 0
       then refuse 1 (D_Malformed, line_prefix 1 @ ''the document exceeds the configured sample count'')
              (empty_outcome\<lparr>do_lines := 1\<rparr>)
       else refuse 1 (D_Malformed, reason) (empty_outcome\<lparr>do_lines := 1\<rparr>))"
    using object assms(7) record_line [of "sample_members s :: (string \<times> 'd json) list", folded shape]
    by (simp add: decode_line_def decode_record_def Let_def empty_outcome_def)
  moreover have "split record (CHR 0x0A) = [record]"
    unfolding shape by (intro split_no_sep record_line(1))
  ultimately show ?thesis
    using assms(1,8)
    by (simp add: decode_document_def refuse_def push_diagnostic_def empty_outcome_def kMaxDiagnostics_def)
qed

section \<open>Witnesses\<close>

definition example_sample :: "i64 \<Rightarrow> queue_sample" where
  "example_sample ns =
     set_value (empty_sample\<lparr>qs_queue := QueuePath ''leaf'' ''e1'' 3, qs_source := ''agent'',
       qs_incarnation := ''boot'', qs_sequence := 4, qs_generation := 2, qs_authority := A_Primary,
       qs_observed := \<lparr>ot_ns = ns, ot_domain = ''ptp''\<rparr>, qs_declared_version := kVersion\<rparr>)
     OccupancyCells 77"

definition no_doubles :: "unit doubles" where
  "no_doubles = \<lparr>to_double = (\<lambda>_. None), is_finite = (\<lambda>_. True)\<rparr>"

definition example_record :: "i64 \<Rightarrow> string" where
  "example_record ns = render (JObject (sample_members (example_sample ns)) :: unit json)"

lemma example_facts:
  "status_ok (validate_ingest_limits default_ingest_limits)" "roomy default_ingest_limits"
  "sample_wf (example_sample ns)" "ot_ns (qs_observed (example_sample ns)) = ns"
  "ns < 2 ^ 63 \<Longrightarrow> encode_sample (example_sample ns) = Inr (example_record ns)"
proof -
  show "status_ok (validate_ingest_limits default_ingest_limits)" by (rule default_limits_valid(1))
  show "roomy default_ingest_limits"
    by (simp add: roomy_def default_ingest_limits_def kMaxIdentityLength_def)
  show ns: "ot_ns (qs_observed (example_sample ns)) = ns"
    by (simp add: example_sample_def set_value_def)
  show "sample_wf (example_sample ns)"
    by (auto simp: sample_wf_def name_wf_def strong_name_create_def kMaxIdentityLength_def is_control_def
        kSeparator_def example_sample_def set_value_def kSampleFieldCount_def empty_sample_def
        empty_attributes_def mask_wf_def field_bit_def has_field_def split: if_splits)
  have "status_ok (validate_encodable_sample (example_sample ns))"
    by (simp add: validate_encodable_sample_def example_sample_def set_value_def kSampleFieldCount_def
        queue_path_valid_def strong_name_valid_def strong_id_valid_def field_bit_def empty_sample_def)
  then show "encode_sample (example_sample ns) = Inr (example_record ns)" if "ns < 2 ^ 63"
    using that encode_sample_render [of "example_sample ns", where 'd = unit] ns
    by (simp add: example_record_def)
qed

lemma example_lengths: "length (example_record 1000) \<le> 1000" "length (example_record (- 5)) \<le> 1000"
  unfolding example_record_def
  by (simp_all add: sample_members_def header_members_def measurement_members_def declared_names_def
      keys_table_def example_sample_def sample_has_def set_value_def kSampleFieldCount_def has_field_def
      field_bit_def empty_sample_def empty_attributes_def optional_member_def strong_id_valid_def
      render_object render_member_def quoted_def escape_json_def escape_char_def json_of_i64_def
      raw_value_or_zero_def kVersion_def dec_u64_def dec_int_def dec_nat.simps)

theorem wire_round_trip_witness:
  "decode_document (example_record 1000) default_ingest_limits no_doubles =
     (success, empty_outcome\<lparr>do_lines := 1, do_records := 1, do_sample_count := 1,
        do_samples := [wire_view (example_sample 1000)]\<rparr>)"
  using wire_round_trip [of default_ingest_limits "[example_sample 1000]" "[example_record 1000]" no_doubles]
    example_facts(1,2) example_facts(3-5) [of 1000] example_lengths(1)
  by (simp add: kMaxLineBytes_def default_ingest_limits_def)

theorem encoder_writes_refused_record_witness:
  "encode_sample (example_sample (- 5)) = Inr (example_record (- 5))
   \<and> do_malformed (snd (decode_document (example_record (- 5)) default_ingest_limits no_doubles)) = 1"
  using encoder_writes_refused_record [of default_ingest_limits "example_sample (- 5)" "example_record (- 5)" no_doubles]
    example_facts(1,2) example_facts(3-5) [of "- 5"] example_lengths(2)
  by (simp add: kMaxLineBytes_def default_ingest_limits_def)

definition example_table :: class_metadata_table where
  "example_table =
     empty_metadata\<lparr>mt_revision := 3, mt_generation := 2, mt_source := ''agent'',
       mt_traffic_classes := [\<lparr>tcd_id = 1, tcd_name = ''gold'', tcd_dscp = Some 46,
          tcd_priority_code_point = None, tcd_scheduling_class = Some ''strict''\<rparr>],
       mt_bindings := [\<lparr>qcb_queue = QueuePath ''leaf'' ''e1'' 3, qcb_traffic_class = Some 1,
          qcb_scheduling_class = None\<rparr>]\<rparr>"

definition example_table_record :: string where
  "example_table_record = render (JObject (metadata_members example_table) :: unit json)"

lemma example_table_facts:
  "table_wf default_ingest_limits example_table" "length example_table_record \<le> 1000"
  "readable (json_limits_of default_ingest_limits) (JObject (metadata_members example_table) :: unit json)"
proof -
  show "table_wf default_ingest_limits example_table"
    by (simp add: table_wf_def name_wf_def strong_name_create_def kMaxIdentityLength_def is_control_def
        kSeparator_def example_table_def default_ingest_limits_def optional_name_wf_def empty_metadata_def)
  show length: "length example_table_record \<le> 1000"
    by (simp add: example_table_record_def metadata_members_def example_table_def empty_metadata_def
        traffic_class_members_def binding_members_def optional_member_def
        render_object render_member_def quoted_def escape_json_def escape_char_def
        kVersion_def dec_u64_def dec_nat.simps)
  show "readable (json_limits_of default_ingest_limits) (JObject (metadata_members example_table) :: unit json)"
    using length
    by (simp add: readable_def example_table_record_def [symmetric] kMaxLineBytes_def json_limits_of_def)
      (simp add: metadata_members_def example_table_def empty_metadata_def
        traffic_class_members_def binding_members_def optional_member_def default_ingest_limits_def)
qed

theorem metadata_round_trip_witness:
  "decode_document example_table_record default_ingest_limits no_doubles =
     (success, add_metadata example_table (empty_outcome\<lparr>do_lines := 1\<rparr>))"
  using metadata_round_trip [of default_ingest_limits example_table example_table_record no_doubles]
    example_facts(1,2) example_table_facts encode_metadata_render [of example_table, where 'd = unit]
  by (simp add: example_table_record_def default_ingest_limits_def)
    (simp add: example_table_def empty_metadata_def)

end
