(* ===== verification/Ingest.thy ===== *)
theory Ingest
  imports Store_Properties Wire_Properties
begin

text \<open>
  The synchronous ingest path (\<^verbatim>\<open>include/qobs/ingest/Ingest.hpp\<close>, \<^verbatim>\<open>src/ingest/Ingest.cpp\<close>):
  a document is decoded, its metadata tables are applied and its samples are handed to the
  store. Reading the document from a file is in \<open>Documents\<close>. The report keeps the decoded tables
  and samples, which the source moves out of it on the way to the store.
\<close>

record ingest_report =
  ir_decode :: decode_outcome
  ir_admission :: batch_admission
  ir_accepted :: bool

definition empty_report :: ingest_report where
  "empty_report = \<lparr>ir_decode = empty_outcome, ir_admission = empty_batch, ir_accepted = False\<rparr>"

primrec apply_tables :: "class_metadata_table list \<Rightarrow> store \<Rightarrow> status \<times> store" where
  "apply_tables [] st = (success, st)"
| "apply_tables (t # ts) st =
     (case apply_metadata t st of (status, admission, st') \<Rightarrow>
        if \<not> status_ok status then (status, st') else apply_tables ts st')"

definition ingest_document ::
    "string \<Rightarrow> ingest_limits \<Rightarrow> 'd doubles \<Rightarrow> store \<Rightarrow> status \<times> ingest_report \<times> store" where
  "ingest_document payload limits lib st =
     (case decode_document payload limits lib of (status, out) \<Rightarrow>
        if \<not> status_ok status then (status, empty_report\<lparr>ir_decode := out\<rparr>, st)
        else case apply_tables (do_metadata out) st of (status, st1) \<Rightarrow>
          if \<not> status_ok status then (status, empty_report\<lparr>ir_decode := out\<rparr>, st1)
          else case ingest_batch (do_samples out) (\<lambda>_. False) st1 of (status, admission, st2) \<Rightarrow>
            if \<not> status_ok status
            then (status, empty_report\<lparr>ir_decode := out, ir_admission := admission\<rparr>, st2)
            else (success, \<lparr>ir_decode = out, ir_admission = admission, ir_accepted = True\<rparr>, st2))"

section \<open>Lemmas\<close>

lemma apply_metadata_queues: "apply_metadata t st = (status, a, st') \<Longrightarrow> st_queues st' = st_queues st"
  by (auto simp: apply_metadata_def count_def Let_def split: if_splits)

lemma apply_tables_reachable:
  "apply_tables ts st = (status, st') \<Longrightarrow> store_reachable st \<Longrightarrow>
   store_reachable st' \<and> st_queues st' = st_queues st"
proof (induction ts arbitrary: st)
  case (Cons t ts)
  obtain s1 a st1 where t: "apply_metadata t st = (s1, a, st1)" by (cases "apply_metadata t st")
  then have "store_reachable st1" "st_queues st1 = st_queues st"
    using Cons.prems(2) by (auto intro: store_reachable.intros store_step.intros apply_metadata_queues)
  then show ?case using Cons t by (auto split: if_splits)
qed simp

lemma reachable_configured: "store_reachable st \<Longrightarrow> status_ok (st_config_status st)"
  using store_reachable_inv [of st] unfolding store_inv_def rest_inv_def configured_def by blast

lemma ingest_batch_complete:
  assumes "store_reachable st" and "ingest_batch ms (\<lambda>_. False) st = (status, b, st')"
  shows "status_ok status \<and> batch_balanced (length ms) b"
proof -
  have "batch_balanced 0 empty_batch" by (simp add: batch_balanced_def empty_batch_def)
  from ingest_loop_balanced [OF this, of "\<lambda>_. False" "length ms" ms st status b st'] assms
    reachable_configured [OF assms(1)]
  show ?thesis by (auto simp: ingest_batch_def)
qed

section \<open>Properties\<close>

text \<open>C28: A document is ingested as a whole or not at all. On a reachable store the path ends in a
  reachable store again. If it reports success, the report is accepted and the batch accounts
  for every decoded sample as accepted, rejected or fenced. If it reports an error (bad limits, an
  oversized document, an invalid metadata table), nothing of the document's samples has reached
  the queues, and the report still says what was decoded.\<close>

theorem ingest_document_all_or_nothing:
  assumes "store_reachable st" and "ingest_document payload limits lib st = (status, report, st')"
  shows "store_reachable st' \<and> ir_decode report = snd (decode_document payload limits lib) \<and>
    (if status_ok status
     then ir_accepted report
       \<and> ba_presented (ir_admission report) = do_sample_count (ir_decode report)
       \<and> do_sample_count (ir_decode report) =
           ba_accepted (ir_admission report) + ba_rejected (ir_admission report) + ba_fenced (ir_admission report)
     else \<not> ir_accepted report \<and> ir_admission report = empty_batch \<and> st_queues st' = st_queues st)"
proof -
  obtain s0 out where out: "decode_document payload limits lib = (s0, out)"
    by (cases "decode_document payload limits lib")
  obtain s1 st1 where tables: "apply_tables (do_metadata out) st = (s1, st1)"
    by (cases "apply_tables (do_metadata out) st")
  obtain s2 b st2 where batch: "ingest_batch (do_samples out) (\<lambda>_. False) st1 = (s2, b, st2)"
    by (cases "ingest_batch (do_samples out) (\<lambda>_. False) st1")
  have st1: "store_reachable st1" "st_queues st1 = st_queues st"
    using apply_tables_reachable [OF tables assms(1)] by auto
  have "store_reachable st2"
    using st1(1) batch by (auto intro: store_reachable.intros store_step.intros)
  moreover have "do_sample_count out = length (do_samples out)"
  proof -
    have "accounted limits out"
      using decode_lines_accounted [of limits empty_outcome lib 0 "split payload (CHR 0x0A)"] out
      by (auto simp: decode_document_def empty_outcome_def accounted_def split: if_splits)
    then show ?thesis by (simp add: accounted_def)
  qed
  ultimately show ?thesis
    using assms out tables batch st1 ingest_batch_complete [OF st1(1) batch]
    by (auto simp: ingest_document_def empty_report_def batch_balanced_def split: if_splits)
qed

theorem ingest_document_all_or_nothing_witness:
  "store_reachable (snd (snd (ingest_document (example_record 1000) default_ingest_limits no_doubles demo_store)))"
proof -
  obtain status report st' where
    r: "ingest_document (example_record 1000) default_ingest_limits no_doubles demo_store = (status, report, st')"
    by (cases "ingest_document (example_record 1000) default_ingest_limits no_doubles demo_store")
  show ?thesis using ingest_document_all_or_nothing [OF demo_store_reachable r] by (simp add: r)
qed

end
