(* ===== verification/Store_Query.thy ===== *)
theory Store_Query
  imports Store_Ingest Correlation Encode
begin

text \<open>
  The read-only half of the evidence store (\<^verbatim>\<open>src/store/Store.cpp\<close>,
  \<^verbatim>\<open>include/qobs/store/Query.hpp\<close>, \<^verbatim>\<open>include/qobs/store/Correlation.hpp\<close>): inspection,
  history, pressure, explanation, events, microbursts, contention and export. Every query that
  lists something is paged by the same loop, whose contract is the locale \<open>pager\<close>. A query that
  reads the clock returns the store with the clock advanced; it changes nothing else.
\<close>

section \<open>Paging\<close>

record query_pagination =
  pg_offset :: nat
  pg_limit :: nat

record 'a page =
  pg_rows :: "'a list"
  pg_total_matched :: nat
  pg_truncated :: bool

definition empty_page :: "'a page" where
  "empty_page = \<lparr>pg_rows = [], pg_total_matched = 0, pg_truncated = False\<rparr>"

definition page_limit :: "query_limits \<Rightarrow> query_pagination \<Rightarrow> nat" where
  "page_limit limits page =
     (if pg_limit page = 0 then default_rows limits else min (pg_limit page) (max_rows limits))"

text \<open>The tail of every listing loop, for one more match.\<close>

definition page_push :: "nat \<Rightarrow> nat \<Rightarrow> 'a page \<Rightarrow> 'a \<Rightarrow> 'a page" where
  "page_push offset limit p x =
     (let p1 = p\<lparr>pg_total_matched := pg_total_matched p + 1\<rparr>
      in if pg_total_matched p1 \<le> offset then p1
         else if length (pg_rows p1) \<ge> limit then p1\<lparr>pg_truncated := True\<rparr>
         else p1\<lparr>pg_rows := pg_rows p1 @ [x]\<rparr>)"

locale pager =
  fixes start :: 'p
    and push :: "'p \<Rightarrow> 'a \<Rightarrow> 'p"
    and rows :: "'p \<Rightarrow> 'a list"
    and tally :: "'p \<Rightarrow> nat"
    and cut :: "'p \<Rightarrow> bool"
    and offset :: nat
    and limit :: nat
  assumes start: "rows start = []" "tally start = 0" "\<not> cut start"
    and push_tally: "tally (push p x) = tally p + 1"
    and push_rows: "rows (push p x) =
          (if tally p < offset \<or> length (rows p) \<ge> limit then rows p else rows p @ [x])"
    and push_cut: "cut (push p x) \<longleftrightarrow> cut p \<or> tally p \<ge> offset \<and> length (rows p) \<ge> limit"
begin

lemma listing:
  "tally (foldl push start xs) = length xs
   \<and> rows (foldl push start xs) = take limit (drop offset xs)
   \<and> (cut (foldl push start xs) \<longleftrightarrow> offset + limit < length xs)"
proof (induction xs rule: rev_induct)
  case (snoc x xs)
  then show ?case
    by (auto simp: push_tally push_rows push_cut take_Cons' drop_Cons' min_def)
qed (simp add: start)

lemma listing_bounded: "length (rows (foldl push start xs)) \<le> limit"
  by (simp add: listing)

lemma listing_complete:
  "\<not> cut (foldl push start xs) \<longleftrightarrow> rows (foldl push start xs) = drop offset xs"
  by (simp add: listing) (metis diff_diff_left less_diff_conv linorder_not_less take_all_iff length_drop
      le_diff_conv add.commute)

end

interpretation paging: pager empty_page "page_push offset limit" pg_rows pg_total_matched pg_truncated
    offset limit for offset limit
  by unfold_locales (auto simp: empty_page_def page_push_def Let_def)

section \<open>Filters and rows\<close>

record queue_filter =
  qf_device :: "string option"
  qf_port :: "string option"
  qf_queue :: "u32 option"
  qf_traffic_class :: "u16 option"
  qf_scheduling_class :: "string option"
  qf_state :: "pressure_state option"

definition matches_filter ::
    "queue_filter \<Rightarrow> queue_path \<Rightarrow> queue_class_attributes \<Rightarrow> pressure_state \<Rightarrow> bool" where
  "matches_filter crit queue classes state =
     (if qf_device crit \<noteq> None \<and> Some (qp_device queue) \<noteq> qf_device crit then False
      else if qf_port crit \<noteq> None \<and> Some (qp_port queue) \<noteq> qf_port crit then False
      else if qf_queue crit \<noteq> None \<and> Some (qp_queue queue) \<noteq> qf_queue crit then False
      else if qf_traffic_class crit \<noteq> None
        \<and> (ca_traffic_class classes = None \<or> ca_traffic_class classes \<noteq> qf_traffic_class crit) then False
      else if qf_scheduling_class crit \<noteq> None
        \<and> (ca_scheduling_class classes = None \<or> ca_scheduling_class classes \<noteq> qf_scheduling_class crit)
      then False
      else if qf_state crit \<noteq> None \<and> Some state \<noteq> qf_state crit then False
      else True)"

record inspect_row =
  ir_queue :: queue_path
  ir_classes :: queue_class_attributes
  ir_state :: pressure_state
  ir_assessment :: evidence_assessment
  ir_explanation_summary :: string
  ir_last_received :: receive_time
  ir_last_observed :: observation_time
  ir_history_records :: nat
  ir_history_capacity :: nat
  ir_history_evicted :: u64
  ir_row_accepted :: u64
  ir_conflicts :: u64
  ir_counter_wraps :: u64
  ir_counter_resets :: u64
  ir_counter_ambiguous :: u64
  ir_counter_discontinuous :: u64
  ir_conflict_active :: bool
  ir_class_reference_unsupported :: bool

text \<open>The loop over the counters of a queue, whose array has one entry per field; the sums are
  unsigned 64-bit and wrap.\<close>

definition sum_counters :: "(counter_state \<Rightarrow> u64) \<Rightarrow> queue_state \<Rightarrow> u64" where
  "sum_counters get state =
     foldl (\<lambda>acc f. acc + get (q_counters state f)) 0 (map fst kFieldNames)"

definition build_inspect_row :: "queue_state \<Rightarrow> inspect_row" where
  "build_inspect_row state =
     \<lparr>ir_queue = q_queue state, ir_classes = q_classes state, ir_state = cr_state (q_latest state),
      ir_assessment = cr_assessment (q_latest state),
      ir_explanation_summary = render_explanation_summary (q_latest state),
      ir_last_received = q_last_received state, ir_last_observed = q_last_observed state,
      ir_history_records = ring_size (q_history state),
      ir_history_capacity = ring_capacity (q_history state),
      ir_history_evicted = ring_evicted (q_history state), ir_row_accepted = q_accepted state,
      ir_conflicts = q_conflicts state, ir_counter_wraps = sum_counters cs_wraps state,
      ir_counter_resets = sum_counters cs_resets state,
      ir_counter_ambiguous = sum_counters cs_ambiguous state,
      ir_counter_discontinuous = sum_counters cs_discontinuities state,
      ir_conflict_active = q_conflict_active state,
      ir_class_reference_unsupported = q_class_reference_unsupported state\<rparr>"

record pressure_row =
  pr_queue :: queue_path
  pr_classes :: queue_class_attributes
  pr_state :: pressure_state
  pr_assessment :: evidence_assessment
  pr_basis :: pressure_basis
  pr_deciding_rule :: rule_id
  pr_explanation_digest :: u64
  pr_trace :: "trace_entry list"

definition build_pressure_row :: "queue_state \<Rightarrow> bool \<Rightarrow> pressure_row" where
  "build_pressure_row state include_trace =
     \<lparr>pr_queue = q_queue state, pr_classes = q_classes state, pr_state = cr_state (q_latest state),
      pr_assessment = cr_assessment (q_latest state), pr_basis = cr_basis (q_latest state),
      pr_deciding_rule = cr_deciding_rule (q_latest state),
      pr_explanation_digest = cr_explanation_digest (q_latest state),
      pr_trace = (if include_trace then cr_trace (q_latest state) else [])\<rparr>"

section \<open>Inspection, pressure, explanation\<close>

definition entry_matches :: "queue_filter \<Rightarrow> queue_path \<times> queue_state \<Rightarrow> bool" where
  "entry_matches crit entry =
     matches_filter crit (fst entry) (q_classes (snd entry)) (cr_state (q_latest (snd entry)))"

text \<open>The loop over the queues of the store in the order of their paths.\<close>

definition list_queues ::
    "queue_filter \<Rightarrow> query_pagination \<Rightarrow> (queue_state \<Rightarrow> 'a) \<Rightarrow> store \<Rightarrow> 'a page" where
  "list_queues crit page row st =
     foldl (\<lambda>p entry.
         if \<not> entry_matches crit entry then p
         else page_push (pg_offset page) (page_limit (st_query_limits st) page) p (row (snd entry)))
       empty_page (om_entries (st_queues st))"

record inspect_query =
  iq_filter :: queue_filter
  iq_page :: query_pagination

definition inspect :: "inspect_query \<Rightarrow> store \<Rightarrow> status \<times> inspect_row page" where
  "inspect query st =
     (if \<not> status_ok (st_config_status st) then (st_config_status st, empty_page)
      else (success, list_queues (iq_filter query) (iq_page query) build_inspect_row st))"

record pressure_query =
  pq_filter :: queue_filter
  pq_page :: query_pagination
  pq_include_trace :: bool

definition pressure :: "pressure_query \<Rightarrow> store \<Rightarrow> status \<times> pressure_row page" where
  "pressure query st =
     (if \<not> status_ok (st_config_status st) then (st_config_status st, empty_page)
      else (success, list_queues (pq_filter query) (pq_page query)
             (\<lambda>state. build_pressure_row state (pq_include_trace query)) st))"

record explain_query =
  xq_queue :: queue_path
  xq_policy :: "pressure_policy option"

record explain_result =
  xr_queue :: queue_path
  xr_found :: bool
  xr_classification :: classification_result
  xr_explanation :: string
  xr_lines :: "(string \<times> string) list"
  xr_policy_overridden :: bool

definition empty_explain :: explain_result where
  "empty_explain =
     \<lparr>xr_queue = empty_path, xr_found = False, xr_classification = empty_result, xr_explanation = [],
      xr_lines = [], xr_policy_overridden = False\<rparr>"

definition explain :: "explain_query \<Rightarrow> store \<Rightarrow> status \<times> explain_result" where
  "explain query st =
     (let none = empty_explain\<lparr>xr_queue := xq_queue query\<rparr>
      in if \<not> status_ok (st_config_status st) then (st_config_status st, none)
      else if \<not> queue_path_valid (xq_queue query)
      then (failure InvalidArgument ''an explain query requires a queue path'', none)
      else case (case xq_policy query of None \<Rightarrow> success | Some p \<Rightarrow> validate_policy p) of policy_status \<Rightarrow>
        if \<not> status_ok policy_status then (policy_status, none)
        else case om_find (st_queues st) (xq_queue query) of
          None \<Rightarrow> (success, none)
        | Some state \<Rightarrow>
            (let c = (case xq_policy query of
                        Some p \<Rightarrow> classify p (q_last_input state)
                      | None \<Rightarrow> q_latest state)
             in (success, none\<lparr>xr_found := True, xr_policy_overridden := (xq_policy query \<noteq> None),
                   xr_classification := c, xr_lines := explanation_lines c,
                   xr_explanation := render_explanation c\<rparr>)))"

section \<open>Events, sources, conflicts\<close>

fun severity_value :: "severity \<Rightarrow> nat" where
  "severity_value Sev_Debug = 0"
| "severity_value Sev_Info = 1"
| "severity_value Sev_Notice = 2"
| "severity_value Sev_Warning = 3"
| "severity_value Sev_Error = 4"

record event_query =
  eq_kind :: "event_kind option"
  eq_queue :: "queue_path option"
  eq_min_severity :: "severity option"
  eq_page :: query_pagination

definition event_matches :: "event_query \<Rightarrow> event_record \<Rightarrow> bool" where
  "event_matches query e =
     (if eq_kind query \<noteq> None \<and> Some (ev_kind e) \<noteq> eq_kind query then False
      else if eq_queue query \<noteq> None \<and> Some (ev_queue e) \<noteq> eq_queue query then False
      else case eq_min_severity query of
        None \<Rightarrow> True
      | Some s \<Rightarrow> \<not> severity_value (ev_severity e) < severity_value s)"

definition events :: "event_query \<Rightarrow> store \<Rightarrow> status \<times> event_record page" where
  "events query st =
     (if \<not> status_ok (st_config_status st) then (st_config_status st, empty_page)
      else (success,
        foldl (\<lambda>p e. if \<not> event_matches query e then p
                     else page_push (pg_offset (eq_page query))
                            (page_limit (st_query_limits st) (eq_page query)) p e)
          empty_page (event_list (st_events st))))"

definition sources :: "store \<Rightarrow> status \<times> source_record list" where
  "sources st =
     (if \<not> status_ok (st_config_status st) then (st_config_status st, [])
      else (success, map snd (om_entries (st_sources st))))"

definition conflicts :: "store \<Rightarrow> status \<times> conflict_record list" where
  "conflicts st =
     (if \<not> status_ok (st_config_status st) then (st_config_status st, [])
      else (success, st_conflicts st))"

definition counters :: "store \<Rightarrow> store_counters" where "counters st = st_counters st"
definition session :: "store \<Rightarrow> session_info" where "session st = st_session st"
definition queue_count :: "store \<Rightarrow> nat" where "queue_count st = om_size (st_queues st)"
definition history_bytes :: "store \<Rightarrow> u64" where "history_bytes st = st_history_bytes st"

definition metadata_snapshot :: "store \<Rightarrow> status \<times> (class_metadata_table \<times> bool) option" where
  "metadata_snapshot st =
     (if \<not> status_ok (st_config_status st) then (st_config_status st, None)
      else (success, Some (st_metadata st, st_has_metadata st)))"

text \<open>The pairs the visitor is called with, in order, after the lock has been released.\<close>

definition for_each_queue ::
    "bool \<Rightarrow> nat \<Rightarrow> store \<Rightarrow> status \<times> (queue_path \<times> history_record list) list" where
  "for_each_queue has_visitor max_count st =
     (if \<not> status_ok (st_config_status st) then (st_config_status st, [])
      else if \<not> has_visitor then (failure InvalidArgument ''a visitor callback is required'', [])
      else (success, map (\<lambda>(queue, state). (queue, ring_snapshot (q_history state)))
                       (take max_count (om_entries (st_queues st)))))"

section \<open>History\<close>

record history_query =
  hq_queue :: queue_path
  hq_window :: window_spec
  hq_page :: query_pagination
  hq_include_records :: bool

record history_result =
  hs_queue :: queue_path
  hs_found :: bool
  hs_aggregate :: "window_aggregate option"
  hs_records :: "history_record list"
  hs_records_retained :: nat
  hs_records_total :: nat
  hs_records_evicted :: u64
  hs_truncated :: bool

definition empty_history_result :: "queue_path \<Rightarrow> history_result" where
  "empty_history_result queue =
     \<lparr>hs_queue = queue, hs_found = False, hs_aggregate = None, hs_records = [],
      hs_records_retained = 0, hs_records_total = 0, hs_records_evicted = 0, hs_truncated = False\<rparr>"

text \<open>The accumulator a query fills from the retained records of a queue, expired to the present.\<close>

definition replay_history :: "bucket_accumulator \<Rightarrow> history_ring \<Rightarrow> nanos \<Rightarrow> bucket_accumulator" where
  "replay_history a ring now =
     acc_expire (foldl (\<lambda>a index. acc_observe a (to_observation (ring_at ring index))) a [0..<ring_size ring]) now"

definition page_records :: "query_limits \<Rightarrow> query_pagination \<Rightarrow> history_ring \<Rightarrow> history_record page" where
  "page_records limits page ring =
     foldl (page_push (pg_offset page) (page_limit limits page)) empty_page
       (map (ring_at ring) [0..<ring_size ring])"

definition history :: "history_query \<Rightarrow> store \<Rightarrow> status \<times> history_result \<times> store" where
  "history query st =
     (let none = empty_history_result (hq_queue query)
      in if \<not> status_ok (st_config_status st) then (st_config_status st, none, st)
      else if \<not> queue_path_valid (hq_queue query)
      then (failure InvalidArgument ''a history query requires a queue path'', none, st)
      else if \<not> status_ok (validate_window_spec (hq_window query))
      then (validate_window_spec (hq_window query), none, st)
      else case om_find (st_queues st) (hq_queue query) of
        None \<Rightarrow> (success, none, st)
      | Some state \<Rightarrow>
          (case read_clock st of (now, st1) \<Rightarrow>
           case acc_configure empty_accumulator (hq_window query) of (configured, a) \<Rightarrow>
             if \<not> status_ok configured then (configured, none, st1)
             else let ring = q_history state;
                      found = none\<lparr>hs_found := True,
                        hs_aggregate := Some (acc_aggregate (replay_history a ring (rt_steady now))
                          (rt_steady now) (pol_freshness (st_policy st))),
                        hs_records_retained := ring_size ring, hs_records_total := ring_size ring,
                        hs_records_evicted := ring_evicted ring\<rparr>
                  in if hq_include_records query
                     then let p = page_records (st_query_limits st) (hq_page query) ring
                          in (success, found\<lparr>hs_records := pg_rows p, hs_truncated := pg_truncated p\<rparr>, st1)
                     else (success, found, st1)))"

section \<open>Microbursts\<close>

record microburst_query =
  mq_filter :: queue_filter
  mq_page :: query_pagination
  mq_include_insufficient :: bool

record microburst_result =
  ms_page :: "microburst_record page"
  ms_queues_examined :: nat
  ms_queues_insufficient :: nat

definition empty_microburst :: "queue_path \<Rightarrow> window_spec \<Rightarrow> microburst_record" where
  "empty_microburst queue spec =
     \<lparr>mbr_queue = queue, mbr_window = spec, mbr_peak = 0, mbr_trough = 0, mbr_excursion = 0,
      mbr_required_excursion = 0, mbr_covered_buckets = 0, mbr_required_buckets = 0, mbr_peak_at = 0,
      mbr_trough_at = 0, mbr_detected = False, mbr_coverage_sufficient = False,
      mbr_sub_sample_reconstructed = False, mbr_assessment = empty_assessment\<rparr>"

definition build_microburst :: "queue_state \<Rightarrow> store \<Rightarrow> microburst_record \<times> store" where
  "build_microburst state st =
     (case acc_configure empty_accumulator (st_microburst_spec st) of (configured, a) \<Rightarrow>
        let none = empty_microburst (q_queue state) (st_microburst_spec st)
        in if \<not> status_ok configured then (none, st)
        else case read_clock st of (now, st1) \<Rightarrow>
          let full = replay_history a (q_history state) (rt_steady now);
              evidence = acc_burst_evidence full (mb_min_excursion (pol_microburst (st_policy st)))
                           (mb_min_covered_buckets (pol_microburst (st_policy st)));
              assessed = wa_assessment (acc_aggregate full (rt_steady now) (pol_freshness (st_policy st)));
              record = none\<lparr>mbr_peak := be_peak evidence, mbr_trough := be_trough evidence,
                mbr_excursion := be_excursion evidence,
                mbr_required_excursion := be_required_excursion evidence,
                mbr_covered_buckets := be_covered_buckets evidence,
                mbr_required_buckets := be_required_buckets evidence,
                mbr_peak_at := be_peak_at evidence, mbr_trough_at := be_trough_at evidence,
                mbr_detected := be_detected evidence,
                mbr_coverage_sufficient := be_coverage_sufficient evidence,
                mbr_assessment := assessed\<rparr>
          in (if mbr_coverage_sufficient record then record
              else record\<lparr>mbr_assessment := assessed\<lparr>ea_quality := Q_Incomplete,
                     ea_flags := with_flag (ea_flags assessed) CoverageInsufficient,
                     ea_reason := ''only '' @ dec_nat (mbr_covered_buckets record) @ '' of the required ''
                       @ dec_nat (mbr_required_buckets record)
                       @ '' buckets contain observations; no burst conclusion is drawn''\<rparr>\<rparr>,
              st1))"

definition microburst_step ::
    "microburst_query \<Rightarrow> microburst_result \<times> store \<Rightarrow> queue_path \<times> queue_state \<Rightarrow> microburst_result \<times> store" where
  "microburst_step query acc entry =
     (case acc of (r, st) \<Rightarrow>
        if \<not> entry_matches (mq_filter query) entry then (r, st)
        else case build_microburst (snd entry) st of (record, st1) \<Rightarrow>
          let r1 = r\<lparr>ms_queues_examined := ms_queues_examined r + 1\<rparr>;
              r2 = (if mbr_coverage_sufficient record then r1
                    else r1\<lparr>ms_queues_insufficient := ms_queues_insufficient r1 + 1\<rparr>)
          in if \<not> mbr_coverage_sufficient record \<and> \<not> mq_include_insufficient query then (r2, st1)
             else (r2\<lparr>ms_page := page_push (pg_offset (mq_page query))
                          (page_limit (st_query_limits st) (mq_page query)) (ms_page r2) record\<rparr>, st1))"

definition microburst :: "microburst_query \<Rightarrow> store \<Rightarrow> status \<times> microburst_result \<times> store" where
  "microburst query st =
     (let none = \<lparr>ms_page = empty_page, ms_queues_examined = 0, ms_queues_insufficient = 0\<rparr>
      in if \<not> status_ok (st_config_status st) then (st_config_status st, none, st)
         else case foldl (microburst_step query) (none, st) (om_entries (st_queues st)) of
           (r, st1) \<Rightarrow> (success, r, st1))"

section \<open>Contention\<close>

definition is_contending_state :: "store \<Rightarrow> pressure_state \<Rightarrow> bool" where
  "is_contending_state st state =
     (case state of
        PS_Pressured \<Rightarrow> cn_count_pressured (pol_contention (st_policy st))
      | PS_Saturated \<Rightarrow> cn_count_saturated (pol_contention (st_policy st))
      | PS_Dropping \<Rightarrow> cn_count_dropping (pol_contention (st_policy st))
      | PS_Paused \<Rightarrow> cn_count_paused (pol_contention (st_policy st))
      | _ \<Rightarrow> False)"

record contention_query =
  cq_port :: "port_path option"
  cq_scheduling_class :: "string option"
  cq_page :: query_pagination

record contention_result =
  cs_page :: "contention_record page"
  cs_ports_examined :: nat
  cs_pairs_examined :: nat
  cs_pairs_insufficient_coverage :: nat

text \<open>The buckets of a queue: whether the bucket was covered and whether it was contending.\<close>

type_synonym bucket_flags = "(nanos \<times> (bool \<times> bool)) list"

definition flag_record :: "store \<Rightarrow> nanos \<Rightarrow> bucket_flags \<Rightarrow> history_record \<Rightarrow> bucket_flags" where
  "flag_record st cutoff flags record =
     (if rt_steady (hr_received record) < cutoff then flags
      else let start = align_bucket (rt_steady (hr_received record)) (ws_bucket (st_contention_spec st));
               contending = (case om_find flags start of None \<Rightarrow> False | Some slot \<Rightarrow> snd slot)
           in om_put start (True, contending \<or> is_contending_state st (hr_state record)) flags)"

definition queue_flags :: "store \<Rightarrow> nanos \<Rightarrow> queue_state \<Rightarrow> bucket_flags" where
  "queue_flags st cutoff state =
     foldl (flag_record st cutoff) []
       (map (ring_at (q_history state)) [0..<ring_size (q_history state)])"

type_synonym sibling = "queue_path \<times> bucket_flags"
type_synonym contention_groups = "(port_path \<times> (string \<times> sibling list) list) list"

definition add_sibling ::
    "port_path \<Rightarrow> string \<Rightarrow> sibling \<Rightarrow> contention_groups \<Rightarrow> contention_groups" where
  "add_sibling port cls sibling groups =
     (let classes = (case om_find groups port of None \<Rightarrow> [] | Some c \<Rightarrow> c);
          siblings = (case om_find classes cls of None \<Rightarrow> [] | Some s \<Rightarrow> s)
      in om_put port (om_put cls (siblings @ [sibling]) classes) groups)"

definition group_queue ::
    "contention_query \<Rightarrow> store \<Rightarrow> nanos \<Rightarrow> contention_groups \<Rightarrow> queue_path \<times> queue_state \<Rightarrow> contention_groups" where
  "group_queue query st cutoff groups entry =
     (let port = PortPath (qp_device (fst entry)) (qp_port (fst entry))
      in case (q_classes_known (snd entry), ca_scheduling_class (q_classes (snd entry))) of
           (True, Some cls) \<Rightarrow>
             if cq_port query \<noteq> None \<and> Some port \<noteq> cq_port query then groups
             else if cq_scheduling_class query \<noteq> None \<and> Some cls \<noteq> cq_scheduling_class query then groups
             else add_sibling port cls (fst entry, queue_flags st cutoff (snd entry)) groups
         | _ \<Rightarrow> groups)"

text \<open>The two counts of a pair: the loop runs over the buckets of the left sibling.\<close>

definition count_bucket :: "bucket_flags \<Rightarrow> nat \<times> nat \<Rightarrow> nanos \<times> (bool \<times> bool) \<Rightarrow> nat \<times> nat" where
  "count_bucket right acc bucket =
     (case (acc, bucket) of ((seen, simultaneous), (start, (covered, contending))) \<Rightarrow>
        let other = om_find right start
        in if \<not> covered \<and> other = None then (seen, simultaneous)
           else (seen + 1,
                 if contending \<and> (case other of None \<Rightarrow> False | Some slot \<Rightarrow> snd slot)
                 then simultaneous + 1 else simultaneous))"

definition count_pair :: "bucket_flags \<Rightarrow> bucket_flags \<Rightarrow> nat \<times> nat" where
  "count_pair left right = foldl (count_bucket right) (0, 0) (om_entries left)"

definition contention_claim ::
    "store \<Rightarrow> nanos \<Rightarrow> nanos \<Rightarrow> port_path \<Rightarrow> string \<Rightarrow> queue_path \<Rightarrow> queue_path \<Rightarrow> nat \<Rightarrow> nat \<Rightarrow> contention_record" where
  "contention_claim st now cutoff port cls a b seen simultaneous =
     (case reduce_fraction (of_nat simultaneous) (of_nat seen) of (num, den) \<Rightarrow>
      \<lparr>cor_port = port, cor_scheduling_class = cls, cor_queue_a = a, cor_queue_b = b,
       cor_window = st_contention_spec st, cor_covered_buckets = seen,
       cor_simultaneous_buckets = simultaneous, cor_union_buckets = seen,
       cor_ratio_numerator = num, cor_ratio_denominator = den,
       cor_window_start = cutoff, cor_window_end = now,
       cor_assessment = empty_assessment\<lparr>ea_provenance := P_Correlated, ea_quality := Q_Complete,
         ea_freshness := assess_freshness 0 (pol_freshness (st_policy st)),
         ea_authority := A_Primary,
         ea_reason := ''both queues were observed under pressure in '' @ dec_nat simultaneous
           @ '' of '' @ dec_nat seen @ '' covered buckets''\<rparr>\<rparr>)"

definition contention_pair ::
    "contention_query \<Rightarrow> store \<Rightarrow> nanos \<Rightarrow> nanos \<Rightarrow> port_path \<Rightarrow> string \<Rightarrow> contention_result
     \<Rightarrow> sibling \<times> sibling \<Rightarrow> contention_result" where
  "contention_pair query st now cutoff port cls r0 pair =
     (case (pair, r0\<lparr>cs_pairs_examined := cs_pairs_examined r0 + 1\<rparr>) of
        (((a, left), (b, right)), r) \<Rightarrow>
          (case count_pair left right of (seen, simultaneous) \<Rightarrow>
             if seen < unat (cn_min_covered_buckets (pol_contention (st_policy st)))
             then r\<lparr>cs_pairs_insufficient_coverage := cs_pairs_insufficient_coverage r + 1\<rparr>
             else if simultaneous < unat (cn_min_simultaneous_buckets (pol_contention (st_policy st))) then r
             else r\<lparr>cs_page := page_push (pg_offset (cq_page query))
                       (page_limit (st_query_limits st) (cq_page query)) (cs_page r)
                       (contention_claim st now cutoff port cls a b seen simultaneous)\<rparr>))"

text \<open>The pairs of siblings in the order of the two nested loops.\<close>

fun pairs_of :: "'a list \<Rightarrow> ('a \<times> 'a) list" where
  "pairs_of [] = []"
| "pairs_of (x # xs) = map (Pair x) xs @ pairs_of xs"

definition contention_port ::
    "contention_query \<Rightarrow> store \<Rightarrow> nanos \<Rightarrow> nanos \<Rightarrow> contention_result
     \<Rightarrow> port_path \<times> (string \<times> sibling list) list \<Rightarrow> contention_result" where
  "contention_port query st now cutoff r port_entry =
     foldl (\<lambda>r class_entry.
         foldl (contention_pair query st now cutoff (fst port_entry) (fst class_entry)) r
           (pairs_of (snd class_entry)))
       (r\<lparr>cs_ports_examined := cs_ports_examined r + 1\<rparr>) (om_entries (snd port_entry))"

definition contention :: "contention_query \<Rightarrow> store \<Rightarrow> status \<times> contention_result \<times> store" where
  "contention query st =
     (let none = \<lparr>cs_page = empty_page, cs_ports_examined = 0, cs_pairs_examined = 0,
                  cs_pairs_insufficient_coverage = 0\<rparr>
      in if \<not> status_ok (st_config_status st) then (st_config_status st, none, st)
         else case read_clock st of (now, st1) \<Rightarrow>
           let cutoff = wrap_i64 (rt_steady now - ws_duration (st_contention_spec st));
               groups = foldl (group_queue query st cutoff) [] (om_entries (st_queues st))
           in (success,
               foldl (contention_port query st (rt_steady now) cutoff) none (om_entries groups), st1))"

section \<open>Export\<close>

datatype export_format = Ndjson | Text

fun export_format_text :: "export_format \<Rightarrow> string" where
  "export_format_text Ndjson = ''ndjson''"
| "export_format_text Text = ''text''"

definition parse_export_format :: "string \<Rightarrow> export_format option" where
  "parse_export_format t =
     (if t = ''ndjson'' then Some Ndjson else if t = ''text'' then Some Text else None)"

record export_query =
  oq_filter :: queue_filter
  oq_page :: query_pagination
  oq_format :: export_format
  oq_include_history :: bool
  oq_window :: window_spec

record export_result =
  or_document :: string
  or_rows :: nat
  or_history_records :: nat
  or_truncated :: bool

definition empty_export :: export_result where
  "empty_export = \<lparr>or_document = [], or_rows = 0, or_history_records = 0, or_truncated = False\<rparr>"

definition queue_state_calls :: "store \<Rightarrow> queue_path \<Rightarrow> queue_state \<Rightarrow> write_op list" where
  "queue_state_calls st queue state =
     [member_string ''record'' ''queue_state'',
      member_u64 ''wire_version'' (ucast kVersion),
      member_string ''runtime_id'' (se_runtime_id (st_session st)),
      member_string ''policy'' (cr_policy_name (q_latest state)),
      member_u64 ''policy_version'' (ucast (cr_policy_version (q_latest state))),
      member_string ''queue'' (queue_path_to_string queue),
      member_string ''state'' (pressure_state_text (cr_state (q_latest state))),
      member_string ''assessment'' (describe_assessment (cr_assessment (q_latest state))),
      member_string ''basis'' (pb_label (cr_basis (q_latest state))),
      member_string ''deciding_rule'' (rule_name (cr_deciding_rule (q_latest state))),
      member_u64 ''explanation_digest'' (cr_explanation_digest (q_latest state)),
      member_u64 ''history_records'' (of_nat (ring_size (q_history state))),
      member_u64 ''history_capacity'' (of_nat (ring_capacity (q_history state))),
      member_u64 ''accepted'' (q_accepted state),
      member_u64 ''conflicts'' (q_conflicts state),
      member_string ''last_received_wall'' (format_wall_utc (rt_wall (q_last_received state))),
      member_string ''last_received_steady'' (format_steady (rt_steady (q_last_received state)))]"

definition bucket_calls :: "queue_path \<Rightarrow> string \<Rightarrow> window_bucket \<Rightarrow> write_op list" where
  "bucket_calls queue window b =
     [member_string ''record'' ''window_bucket'',
      member_string ''queue'' (queue_path_to_string queue),
      member_string ''window'' window,
      member_i64 ''bucket_start_steady_ns'' (wb_start b),
      member_u64 ''samples'' (of_nat (wb_sample_count b)),
      (if wb_has_occupancy b
       then write_seq [member_u64 ''occupancy_max'' (wb_occupancy_max b),
              member_u64 ''occupancy_min'' (wb_occupancy_min b),
              member_u64 ''occupancy_last'' (wb_occupancy_last b)]
       else Pair success),
      member_u64 ''drops'' (wb_drops b),
      member_u64 ''marks'' (wb_marks b),
      member_u64 ''pause_frames'' (wb_pause_frames b),
      member_u64 ''pause_nanos'' (wb_pause_nanos b),
      member_u64 ''unknown_delta_samples'' (wb_unknown_delta_samples b)]"

text \<open>The line of a queue in the chosen format, and the lines of its buckets, which only the JSON
  format has.\<close>

definition queue_line :: "export_format \<Rightarrow> store \<Rightarrow> queue_path \<Rightarrow> queue_state \<Rightarrow> string result" where
  "queue_line fmt st queue state =
     (case fmt of
        Ndjson \<Rightarrow> qobs_try_assign (written (write_object (queue_state_calls st queue state)))
                    (\<lambda>line. Inr (line @ [CHR 0x0A]))
      | Text \<Rightarrow> Inr (queue_path_to_string queue @ '' state='' @ pressure_state_text (cr_state (q_latest state))
                    @ '' '' @ render_explanation_summary (q_latest state) @ [CHR 0x0A]))"

fun bucket_lines :: "queue_path \<Rightarrow> string \<Rightarrow> window_bucket list \<Rightarrow> status \<times> string \<times> nat" where
  "bucket_lines queue window [] = (success, [], 0)"
| "bucket_lines queue window (b # bs) =
     (if wb_sample_count b = 0 then bucket_lines queue window bs
      else case written (write_object (bucket_calls queue window b)) of
        Inl e \<Rightarrow> (e, [], 0)
      | Inr line \<Rightarrow>
          (case bucket_lines queue window bs of (status, lines, n) \<Rightarrow>
             (status, line @ [CHR 0x0A] @ lines, n + 1)))"

definition history_lines ::
    "export_query \<Rightarrow> nanos \<Rightarrow> queue_path \<Rightarrow> queue_state \<Rightarrow> status \<times> string \<times> nat" where
  "history_lines query now queue state =
     (if \<not> oq_include_history query then (success, [], 0)
      else case acc_configure empty_accumulator (oq_window query) of (configured, a) \<Rightarrow>
        if \<not> status_ok configured then (configured, [], 0)
        else if oq_format query = Ndjson
        then bucket_lines queue (ws_name (oq_window query))
               (acc_buckets (replay_history a (q_history state) now))
        else (success, [], 0))"

text \<open>The loop over the matching queues. A failed write ends it with the lines so far.\<close>

fun export_loop ::
    "export_query \<Rightarrow> store \<Rightarrow> nanos \<Rightarrow> nat \<Rightarrow> nat \<Rightarrow> (queue_path \<times> queue_state) list \<Rightarrow> export_result
     \<Rightarrow> status \<times> export_result" where
  "export_loop query st now limit matched [] r = (success, r)"
| "export_loop query st now limit matched (entry # entries) r =
     (if \<not> entry_matches (oq_filter query) entry
      then export_loop query st now limit matched entries r
      else if matched + 1 \<le> pg_offset (oq_page query)
      then export_loop query st now limit (matched + 1) entries r
      else if or_rows r \<ge> limit
      then export_loop query st now limit (matched + 1) entries (r\<lparr>or_truncated := True\<rparr>)
      else case queue_line (oq_format query) st (fst entry) (snd entry) of
        Inl e \<Rightarrow> (e, r)
      | Inr line \<Rightarrow>
          (case history_lines query now (fst entry) (snd entry) of (status, lines, n) \<Rightarrow>
             let r1 = r\<lparr>or_document := or_document r @ line @ lines, or_rows := or_rows r + 1,
                        or_history_records := or_history_records r + n\<rparr>
             in if \<not> status_ok status then (status, r1)
                else export_loop query st now limit (matched + 1) entries r1))"

text \<open>The text format collects its lines apart and moves them into the result at the end.\<close>

definition export_data :: "export_query \<Rightarrow> store \<Rightarrow> status \<times> export_result \<times> store" where
  "export_data query st =
     (if \<not> status_ok (st_config_status st) then (st_config_status st, empty_export, st)
      else if oq_include_history query \<and> \<not> status_ok (validate_window_spec (oq_window query))
      then (validate_window_spec (oq_window query), empty_export, st)
      else case read_clock st of (now, st1) \<Rightarrow>
        (case export_loop query st (rt_steady now) (page_limit (st_query_limits st) (oq_page query)) 0
                (om_entries (st_queues st)) empty_export of
           (status, r) \<Rightarrow>
             (status,
              if oq_format query = Text \<and> \<not> status_ok status then r\<lparr>or_document := []\<rparr> else r,
              st1)))"

end
