(* ===== verification/Query_Properties.thy ===== *)
theory Query_Properties
  imports Store_Query Ingest
begin

text \<open>
  Properties of the store's queries: pages are exact, queries change nothing but the clock, an
  explanation reproduces the stored verdict, a contention claim rests on both queues, and an
  export has one line per row.
\<close>

section \<open>Pages\<close>

lemma foldl_filtered:
  "foldl (\<lambda>p x. if \<not> P x then p else push p (f x)) p xs = foldl push p (map f (filter P xs))"
  by (induction xs arbitrary: p) auto

definition page_of :: "query_limits \<Rightarrow> query_pagination \<Rightarrow> 'a list \<Rightarrow> 'a page" where
  "page_of limits page xs =
     \<lparr>pg_rows = take (page_limit limits page) (drop (pg_offset page) xs), pg_total_matched = length xs,
      pg_truncated = (pg_offset page + page_limit limits page < length xs)\<rparr>"

lemma page_of_fold:
  "foldl (page_push (pg_offset page) (page_limit limits page)) empty_page xs = page_of limits page xs"
  using paging.listing [of "pg_offset page" "page_limit limits page" xs]
  by (intro page.equality) (simp_all add: page_of_def)

lemma list_queues_page:
  "list_queues crit page row st =
     page_of (st_query_limits st) page
       (map (\<lambda>entry. row (snd entry)) (filter (entry_matches crit) (om_entries (st_queues st))))"
  by (simp add: list_queues_def page_of_fold
      foldl_filtered [of "entry_matches crit" "page_push _ _" "\<lambda>entry. row (snd entry)"])

lemma events_page:
  "events query st =
     (if \<not> status_ok (st_config_status st) then (st_config_status st, empty_page)
      else (success, page_of (st_query_limits st) (eq_page query)
              (filter (event_matches query) (event_list (st_events st)))))"
  using foldl_filtered [of "event_matches query" "page_push _ _" "\<lambda>e. e"]
  by (simp add: events_def page_of_fold)

lemma page_limit_bounded:
  assumes "status_ok (validate_query_limits limits)"
  shows "page_limit limits page \<le> max_rows limits"
  using validate_query_limits_ok(3) [OF assms] by (simp add: page_limit_def)

section \<open>Queries change nothing but the clock\<close>

definition only_ticks :: "store \<Rightarrow> store \<Rightarrow> bool" where
  "only_ticks st st' \<longleftrightarrow> st' = st\<lparr>st_ticks := st_ticks st'\<rparr>"

lemma only_ticks_refl [simp]: "only_ticks st st"
  by (simp add: only_ticks_def)

lemma only_ticks_trans: "only_ticks a b \<Longrightarrow> only_ticks b c \<Longrightarrow> only_ticks a c"
  unfolding only_ticks_def by (metis store.surjective store.update_convs(6))

lemma only_ticks_read [simp]: "only_ticks st (snd (read_clock st))"
  by (simp add: only_ticks_def read_clock_def)

lemma build_microburst_ticks: "only_ticks st (snd (build_microburst state st))"
  using only_ticks_read [of st]
  by (cases "read_clock st") (auto simp: build_microburst_def Let_def split: prod.splits)

lemma microburst_step_ticks: "only_ticks st (snd (microburst_step query (r, st) entry))"
  using build_microburst_ticks [of st "snd entry"]
  by (auto simp: microburst_step_def Let_def split: prod.splits)

lemma microburst_fold_ticks:
  "only_ticks st (snd (foldl (microburst_step query) (r, st) entries))"
proof (induction entries rule: rev_induct)
  case (snoc e es)
  obtain r1 st1 where f: "foldl (microburst_step query) (r, st) es = (r1, st1)"
    by (cases "foldl (microburst_step query) (r, st) es")
  then show ?case using snoc microburst_step_ticks [of st1 query r1 e] by (auto intro: only_ticks_trans)
qed simp

section \<open>Contention claims\<close>

text \<open>A queue was seen contending in a bucket: one of its retained records inside the window falls
  into the bucket and has a contending state.\<close>

definition contended :: "store \<Rightarrow> nanos \<Rightarrow> queue_state \<Rightarrow> nanos \<Rightarrow> bool" where
  "contended st cutoff q start \<longleftrightarrow>
     (\<exists>record \<in> set (ring_snapshot (q_history q)).
        cutoff \<le> rt_steady (hr_received record)
        \<and> align_bucket (rt_steady (hr_received record)) (ws_bucket (st_contention_spec st)) = start
        \<and> is_contending_state st (hr_state record))"

definition marked :: "bucket_flags \<Rightarrow> nanos \<Rightarrow> bool" where
  "marked flags start \<longleftrightarrow> (case om_find flags start of None \<Rightarrow> False | Some slot \<Rightarrow> snd slot)"

lemma flag_record_step:
  assumes "om_wf flags"
  shows "om_wf (flag_record st cutoff flags record)"
    "marked (flag_record st cutoff flags record) start \<longleftrightarrow>
       marked flags start \<or>
       cutoff \<le> rt_steady (hr_received record)
       \<and> align_bucket (rt_steady (hr_received record)) (ws_bucket (st_contention_spec st)) = start
       \<and> is_contending_state st (hr_state record)"
  using assms
  by (auto simp: flag_record_def Let_def marked_def om.wf_put om.find_put split: option.splits)

lemma queue_flags_fold:
  "om_wf flags \<Longrightarrow> om_wf (foldl (flag_record st cutoff) flags records) \<and>
   (marked (foldl (flag_record st cutoff) flags records) start \<longleftrightarrow> marked flags start \<or>
     (\<exists>record \<in> set records. cutoff \<le> rt_steady (hr_received record)
        \<and> align_bucket (rt_steady (hr_received record)) (ws_bucket (st_contention_spec st)) = start
        \<and> is_contending_state st (hr_state record)))"
  by (induction records arbitrary: flags) (auto simp: flag_record_step)

lemma queue_flags_marked:
  "om_wf (queue_flags st cutoff q)" "marked (queue_flags st cutoff q) start \<longleftrightarrow> contended st cutoff q start"
  using queue_flags_fold [of "[]" st cutoff "ring_snapshot (q_history q)"]
  by (auto simp: queue_flags_def ring_snapshot_def contended_def marked_def om.wf_empty om_find_def)

lemma count_pair_simultaneous:
  "snd (count_pair left right) = length (filter (\<lambda>b. snd (snd b) \<and> marked right (fst b)) left)"
proof -
  have "snd (foldl (count_bucket right) (u, s) bs) = s + length (filter (\<lambda>b. snd (snd b) \<and> marked right (fst b)) bs)"
    for u s bs
  proof (induction bs arbitrary: u s)
    case (Cons b bs)
    then show ?case
      by (cases b) (auto simp: count_bucket_def Let_def marked_def split: option.splits)
  qed simp
  then show ?thesis by (simp add: count_pair_def om_entries_def)
qed

lemma count_pair_le: "snd (count_pair left right) \<le> fst (count_pair left right)"
proof -
  have "s \<le> u \<Longrightarrow> snd (foldl (count_bucket right) (u, s) bs) \<le> fst (foldl (count_bucket right) (u, s) bs)"
    for u s bs
  proof (induction bs arbitrary: u s)
    case (Cons b bs)
    then show ?case by (cases b) (auto simp: count_bucket_def Let_def)
  qed simp
  then show ?thesis by (simp add: count_pair_def)
qed

lemma marked_iff:
  assumes "om_wf flags"
  shows "marked flags t \<longleftrightarrow> (\<exists>c. (t, (c, True)) \<in> set flags)"
proof -
  have "(t, v) \<in> set flags \<longleftrightarrow> om_find flags t = Some v" for v
    using om.entries_find [OF assms, of t v] by (simp add: om_entries_def)
  then have "(\<exists>c. (t, (c, True)) \<in> set flags) \<longleftrightarrow> (\<exists>c. om_find flags t = Some (c, True))" by blast
  then show ?thesis by (simp add: marked_def split: option.split) 
qed

lemma simultaneous_card:
  assumes "om_wf left"
  shows "snd (count_pair left right) = card {t. marked left t \<and> marked right t}"
proof -
  let ?bs = "filter (\<lambda>b. snd (snd b) \<and> marked right (fst b)) left"
  have "distinct (map fst ?bs)"
    using om.keys_distinct [OF assms] by (simp add: om_entries_def distinct_map_filter_fst)
  then have "length ?bs = card (set (map fst ?bs))"
    using distinct_card [of "map fst ?bs"] by simp
  moreover have "t \<in> set (map fst ?bs) \<longleftrightarrow> marked left t \<and> marked right t" for t
    unfolding marked_iff [OF assms] by (auto simp: image_iff) 
  then have "set (map fst ?bs) = {t. marked left t \<and> marked right t}" by blast
  ultimately show ?thesis by (simp only: count_pair_simultaneous)
qed

text \<open>A queue belongs to a group, and a group only holds different queues that belong to it.\<close>

definition belongs :: "port_path \<Rightarrow> string \<Rightarrow> queue_path \<Rightarrow> queue_state \<Rightarrow> bool" where
  "belongs port cls k q \<longleftrightarrow>
     q_classes_known q \<and> ca_scheduling_class (q_classes q) = Some cls
     \<and> port = PortPath (qp_device k) (qp_port k)"

definition siblings_ok ::
    "store \<Rightarrow> nanos \<Rightarrow> (queue_path \<times> queue_state) list \<Rightarrow> port_path \<Rightarrow> string \<Rightarrow> sibling list \<Rightarrow> bool" where
  "siblings_ok st cutoff entries port cls sibs \<longleftrightarrow>
     distinct (map fst sibs) \<and>
     (\<forall>(k, flags) \<in> set sibs.
        \<exists>q. (k, q) \<in> set entries \<and> belongs port cls k q \<and> flags = queue_flags st cutoff q)"

definition groups_ok ::
    "store \<Rightarrow> nanos \<Rightarrow> (queue_path \<times> queue_state) list \<Rightarrow> contention_groups \<Rightarrow> bool" where
  "groups_ok st cutoff entries groups \<longleftrightarrow>
     (\<forall>(port, classes) \<in> set groups. \<forall>(cls, sibs) \<in> set classes. siblings_ok st cutoff entries port cls sibs)"

lemma om_put_subset: "set (om_put k v m) \<subseteq> insert (k, v) (set m)"
  by (induction k v m rule: om_put.induct) auto

lemma siblings_ok_mono:
  "siblings_ok st cutoff entries port cls sibs \<Longrightarrow> set entries \<subseteq> set entries' \<Longrightarrow>
   siblings_ok st cutoff entries' port cls sibs"
  unfolding siblings_ok_def by fast

lemma groups_ok_mono:
  "groups_ok st cutoff entries groups \<Longrightarrow> set entries \<subseteq> set entries' \<Longrightarrow> groups_ok st cutoff entries' groups"
  unfolding groups_ok_def using siblings_ok_mono by blast

lemma add_sibling_ok:
  assumes groups: "groups_ok st cutoff entries groups"
    and new: "k \<notin> fst ` set entries" "belongs port cls k q"
  shows "groups_ok st cutoff (entries @ [(k, q)]) (add_sibling port cls (k, queue_flags st cutoff q) groups)"
proof -
  let ?entries = "entries @ [(k, q)]"
  define classes where "classes = (case om_find groups port of None \<Rightarrow> [] | Some c \<Rightarrow> c)"
  define sibs where "sibs = (case om_find classes cls of None \<Rightarrow> [] | Some s \<Rightarrow> s)"
  have "(port, classes) \<in> set groups \<or> classes = []"
    by (cases "om_find groups port") (auto simp: classes_def om_find_def dest: map_of_SomeD)
  then have classes: "siblings_ok st cutoff entries port c s" if "(c, s) \<in> set classes" for c s
    using that groups unfolding groups_ok_def by fastforce
  have "(cls, sibs) \<in> set classes \<or> sibs = []"
    by (cases "om_find classes cls") (auto simp: sibs_def om_find_def dest: map_of_SomeD)
  moreover have "siblings_ok st cutoff entries port cls []" by (simp add: siblings_ok_def)
  ultimately have "siblings_ok st cutoff entries port cls sibs" using classes by blast
  moreover from this have "k \<notin> fst ` set sibs"
    using new(1) unfolding siblings_ok_def by force
  ultimately have "siblings_ok st cutoff ?entries port cls (sibs @ [(k, queue_flags st cutoff q)])"
    using new(2) unfolding siblings_ok_def by auto
  then have inner: "siblings_ok st cutoff ?entries port c s"
    if "(c, s) \<in> set (om_put cls (sibs @ [(k, queue_flags st cutoff q)]) classes)" for c s
    using that om_put_subset [of cls _ classes] classes siblings_ok_mono [of st cutoff entries port c s ?entries]
    by fastforce
  have "groups_ok st cutoff ?entries groups" using groups by (rule groups_ok_mono) auto
  then show ?thesis
    using inner om_put_subset [of port _ groups]
    unfolding groups_ok_def add_sibling_def Let_def classes_def [symmetric] sibs_def [symmetric]
    by fastforce
qed

lemma group_queue_ok:
  assumes "groups_ok st cutoff entries groups" and "fst entry \<notin> fst ` set entries"
  shows "groups_ok st cutoff (entries @ [entry]) (group_queue query st cutoff groups entry)"
proof -
  have same: "groups_ok st cutoff (entries @ [entry]) groups" using assms(1) by (rule groups_ok_mono) auto
  obtain k q where entry: "entry = (k, q)" by (cases entry)
  show ?thesis
  proof (cases "q_classes_known q \<and> ca_scheduling_class (q_classes q) \<noteq> None")
    case True
    then obtain cls where "ca_scheduling_class (q_classes q) = Some cls" by blast
    then show ?thesis
      using True same add_sibling_ok [OF assms(1), of k "PortPath (qp_device k) (qp_port k)" cls q] assms(2)
      by (simp add: group_queue_def entry Let_def belongs_def)
  next
    case False
    then show ?thesis
      using same by (auto simp: group_queue_def entry Let_def split: option.splits bool.splits)
  qed
qed

lemma groups_fold_ok:
  "distinct (map fst entries) \<Longrightarrow> groups_ok st cutoff entries (foldl (group_queue query st cutoff) [] entries)"
proof (induction entries rule: rev_induct)
  case (snoc e es)
  then show ?case using group_queue_ok [of st cutoff es _ e query] by simp
qed (simp add: groups_ok_def)

lemma pairs_of_set:
  "(x, y) \<in> set (pairs_of xs) \<Longrightarrow> x \<in> set xs \<and> y \<in> set xs"
  "distinct (map f xs) \<Longrightarrow> (x, y) \<in> set (pairs_of xs) \<Longrightarrow> f x \<noteq> f y"
  by (induction xs) auto

text \<open>What a claim says, and that every row of the answer says it.\<close>

definition supported :: "store \<Rightarrow> nanos \<Rightarrow> nanos \<Rightarrow> (queue_path \<times> queue_state) list \<Rightarrow> contention_record \<Rightarrow> bool" where
  "supported st now cutoff entries c \<longleftrightarrow>
     (\<exists>qa qb. (cor_queue_a c, qa) \<in> set entries \<and> (cor_queue_b c, qb) \<in> set entries
        \<and> cor_queue_a c \<noteq> cor_queue_b c
        \<and> belongs (cor_port c) (cor_scheduling_class c) (cor_queue_a c) qa
        \<and> belongs (cor_port c) (cor_scheduling_class c) (cor_queue_b c) qb
        \<and> cor_simultaneous_buckets c = card {t. contended st cutoff qa t \<and> contended st cutoff qb t})
     \<and> unat (cn_min_simultaneous_buckets (pol_contention (st_policy st))) \<le> cor_simultaneous_buckets c
     \<and> unat (cn_min_covered_buckets (pol_contention (st_policy st))) \<le> cor_union_buckets c
     \<and> cor_simultaneous_buckets c \<le> cor_union_buckets c
     \<and> (cor_ratio_numerator c, cor_ratio_denominator c)
         = reduce_fraction (of_nat (cor_simultaneous_buckets c)) (of_nat (cor_union_buckets c))
     \<and> cor_window_start c = cutoff \<and> cor_window_end c = now"

lemma page_push_rows: "set (pg_rows (page_push offset limit p x)) \<subseteq> insert x (set (pg_rows p))"
  by (auto simp: page_push_def Let_def)

lemma contention_pair_supported:
  assumes sibs: "siblings_ok st cutoff entries port cls sibs" and pair: "pair \<in> set (pairs_of sibs)"
    and old: "\<forall>c \<in> set (pg_rows (cs_page r)). supported st now cutoff entries c"
  shows "\<forall>c \<in> set (pg_rows (cs_page (contention_pair query st now cutoff port cls r pair))).
           supported st now cutoff entries c"
proof -
  obtain x y where xy: "pair = (x, y)" by (cases pair)
  obtain a left where x: "x = (a, left)" by (cases x)
  obtain b right where y: "y = (b, right)" by (cases y)
  note p = xy [unfolded x y]
  obtain seen simultaneous where counts: "count_pair left right = (seen, simultaneous)"
    by (cases "count_pair left right")
  have mem: "(a, left) \<in> set sibs" "(b, right) \<in> set sibs" "a \<noteq> b"
    using pairs_of_set(1) [of "(a, left)" "(b, right)" sibs] pair sibs
      pairs_of_set(2) [of fst sibs "(a, left)" "(b, right)"] by (auto simp: p siblings_ok_def)
  then obtain qa qb where q: "(a, qa) \<in> set entries" "belongs port cls a qa" "left = queue_flags st cutoff qa"
      "(b, qb) \<in> set entries" "belongs port cls b qb" "right = queue_flags st cutoff qb"
    using sibs unfolding siblings_ok_def by blast
  have "simultaneous = card {t. contended st cutoff qa t \<and> contended st cutoff qb t}"
    using simultaneous_card [of left right] counts q queue_flags_marked by simp
  moreover have "simultaneous \<le> seen" using count_pair_le [of left right] counts by simp
  ultimately have new: "supported st now cutoff entries (contention_claim st now cutoff port cls a b seen simultaneous)"
    if "\<not> seen < unat (cn_min_covered_buckets (pol_contention (st_policy st)))"
      "\<not> simultaneous < unat (cn_min_simultaneous_buckets (pol_contention (st_policy st)))"
    using that q mem(3) unfolding supported_def contention_claim_def
    by (auto split: prod.split simp: not_less)
  let ?claim = "contention_claim st now cutoff port cls a b seen simultaneous"
  show ?thesis
  proof (cases "seen < unat (cn_min_covered_buckets (pol_contention (st_policy st)))
      \<or> simultaneous < unat (cn_min_simultaneous_buckets (pol_contention (st_policy st)))")
    case True
    then have "cs_page (contention_pair query st now cutoff port cls r pair) = cs_page r"
      by (auto simp: contention_pair_def p counts)
    then show ?thesis using old by simp
  next
    case False
    then have "cs_page (contention_pair query st now cutoff port cls r pair) =
        page_push (pg_offset (cq_page query)) (page_limit (st_query_limits st) (cq_page query)) (cs_page r) ?claim"
      by (simp add: contention_pair_def p counts)
    then have "set (pg_rows (cs_page (contention_pair query st now cutoff port cls r pair)))
        \<subseteq> insert ?claim (set (pg_rows (cs_page r)))"
      using page_push_rows by metis
    then show ?thesis using old new False by blast
  qed
qed

lemma foldl_keeps: "(\<And>r x. x \<in> set xs \<Longrightarrow> P r \<Longrightarrow> P (f r x)) \<Longrightarrow> P r \<Longrightarrow> P (foldl f r xs)"
  by (induction xs arbitrary: r) auto

lemma contention_pairs_supported:
  assumes sibs: "siblings_ok st cutoff entries port cls sibs"
    and old: "\<forall>c \<in> set (pg_rows (cs_page r)). supported st now cutoff entries c"
  shows "\<forall>c \<in> set (pg_rows (cs_page (foldl (contention_pair query st now cutoff port cls) r (pairs_of sibs)))).
           supported st now cutoff entries c"
  by (rule foldl_keeps [where P = "\<lambda>r. \<forall>c \<in> set (pg_rows (cs_page r)). supported st now cutoff entries c"])
    (rule contention_pair_supported [OF sibs], assumption, assumption, rule old)

lemma contention_port_supported:
  assumes classes: "\<forall>(cls, sibs) \<in> set classes. siblings_ok st cutoff entries port cls sibs"
    and old: "\<forall>c \<in> set (pg_rows (cs_page r)). supported st now cutoff entries c"
  shows "\<forall>c \<in> set (pg_rows (cs_page (contention_port query st now cutoff r (port, classes)))).
           supported st now cutoff entries c"
  unfolding contention_port_def
proof (rule foldl_keeps [where P = "\<lambda>r. \<forall>c \<in> set (pg_rows (cs_page r)). supported st now cutoff entries c"])
  fix r' :: contention_result and class_entry :: "string \<times> sibling list"
  assume cls: "class_entry \<in> set (om_entries (snd (port, classes)))"
    and r': "\<forall>c \<in> set (pg_rows (cs_page r')). supported st now cutoff entries c"
  have "siblings_ok st cutoff entries port (fst class_entry) (snd class_entry)"
    using classes cls unfolding om_entries_def by auto
  then show "\<forall>c \<in> set (pg_rows (cs_page (foldl
               (contention_pair query st now cutoff (fst (port, classes)) (fst class_entry)) r'
               (pairs_of (snd class_entry))))). supported st now cutoff entries c"
    using contention_pairs_supported [OF _ r'] by simp
qed (use old in simp)

lemma contention_supported:
  assumes "groups_ok st cutoff entries groups"
  shows "\<forall>c \<in> set (pg_rows (cs_page (foldl (contention_port query st now cutoff)
            \<lparr>cs_page = empty_page, cs_ports_examined = 0, cs_pairs_examined = 0,
             cs_pairs_insufficient_coverage = 0\<rparr> groups))). supported st now cutoff entries c"
proof (rule foldl_keeps [where P = "\<lambda>r. \<forall>c \<in> set (pg_rows (cs_page r)). supported st now cutoff entries c"])
  fix r :: contention_result and port_entry :: "port_path \<times> (string \<times> sibling list) list"
  assume port: "port_entry \<in> set groups"
    and r: "\<forall>c \<in> set (pg_rows (cs_page r)). supported st now cutoff entries c"
  obtain port classes where pe: "port_entry = (port, classes)" by (cases port_entry)
  have "\<forall>(cls, sibs) \<in> set classes. siblings_ok st cutoff entries port cls sibs"
    using assms port unfolding groups_ok_def pe by blast
  then show "\<forall>c \<in> set (pg_rows (cs_page (contention_port query st now cutoff r port_entry))).
          supported st now cutoff entries c"
    unfolding pe using r by (rule contention_port_supported)
qed (simp add: empty_page_def)

section \<open>Exported lines\<close>

definition newlines :: "string \<Rightarrow> nat" where
  "newlines t = length (filter (\<lambda>c. c = CHR 0x0A) t)"

lemma newlines_append [simp]: "newlines (t @ u) = newlines t + newlines u"
  by (simp add: newlines_def)

lemma newlines_simps [simp]: "newlines [] = 0" "newlines (c # t) = (if c = CHR 0x0A then 1 else 0) + newlines t"
  by (simp_all add: newlines_def)

lemma newlines_record: "newlines (render (JObject ms)) = 0"
  using record_line(1) [of ms] by (simp add: newlines_def filter_empty_conv) metis

lemma writes_member_i64: "writes_members (member_i64 k i) [(k, JInt i)]"
  unfolding member_i64_def by (intro writes_member writes_put) (simp add: value_i64_def)

lemma writes_members_if:
  "writes_members op ms \<Longrightarrow> writes_members (if b then op else Pair success) (if b then ms else [])"
  by (simp add: writes_members_skip)

lemma queue_line_written:
  "\<exists>ms :: (string \<times> unit json) list. queue_line Ndjson st queue state = Inr (render (JObject ms) @ [CHR 0x0A])"
proof -
  have "\<exists>ms :: (string \<times> unit json) list. writes_members (write_seq (queue_state_calls st queue state)) ms"
    unfolding queue_state_calls_def by (rule exI, (rule writes_calls)+)
  then obtain ms :: "(string \<times> unit json) list" where
    "written (write_object (queue_state_calls st queue state)) = Inr (render (JObject ms))"
    using written_object by blast
  then show ?thesis by (auto simp: queue_line_def qobs_try_assign_def)
qed

lemma bucket_written:
  "\<exists>ms :: (string \<times> unit json) list. written (write_object (bucket_calls queue window b)) = Inr (render (JObject ms))"
proof -
  have "\<exists>ms :: (string \<times> unit json) list. writes_members (write_seq (bucket_calls queue window b)) ms"
    unfolding bucket_calls_def
    by (rule exI, (rule writes_members_Cons writes_member_calls(1,2) writes_member_i64 writes_members_if
        writes_members_Nil)+)
  then show ?thesis using written_object by blast
qed

lemma bucket_lines_count:
  "\<exists>lines n. bucket_lines queue window bs = (success, lines, n) \<and> newlines lines = n"
proof (induction bs)
  case (Cons b bs)
  obtain ms :: "(string \<times> unit json) list" where
    "written (write_object (bucket_calls queue window b)) = Inr (render (JObject ms))"
    using bucket_written by blast
  then show ?case using Cons newlines_record [of ms] by auto
qed simp

lemma history_lines_count:
  assumes "oq_include_history query \<Longrightarrow> status_ok (validate_window_spec (oq_window query))"
  shows "\<exists>status lines n. history_lines query now queue state = (status, lines, n)
           \<and> status_ok status \<and> newlines lines = n"
  using assms bucket_lines_count
  by (fastforce simp: history_lines_def acc_configure_def Let_def)

lemma export_loop_count:
  assumes "oq_format query = Ndjson"
    and "oq_include_history query \<Longrightarrow> status_ok (validate_window_spec (oq_window query))"
    and "newlines (or_document r) = or_rows r + or_history_records r" and "or_rows r \<le> limit"
  shows "\<exists>r'. export_loop query st now limit matched entries r = (success, r')
     \<and> newlines (or_document r') = or_rows r' + or_history_records r' \<and> or_rows r' \<le> limit"
  using assms(3,4)
proof (induction entries arbitrary: matched r)
  case (Cons e es)
  obtain ms :: "(string \<times> unit json) list" where
    line: "queue_line Ndjson st (fst e) (snd e) = Inr (render (JObject ms) @ [CHR 0x0A])"
    using queue_line_written by blast
  obtain status lines n where hist: "history_lines query now (fst e) (snd e) = (status, lines, n)"
      "status_ok status" "newlines lines = n"
    using history_lines_count [OF assms(2)] by blast
  show ?case
    using Cons line hist assms(1) newlines_record [of ms] by (auto simp: Let_def)
qed simp

lemma reachable_settings:
  assumes "store_reachable st"
  shows "status_ok (st_config_status st)" "status_ok (validate_policy (st_policy st))"
    "status_ok (validate_query_limits (st_query_limits st))" "om_wf (st_queues st)"
  using store_reachable_inv [OF assms] queues_wf [of 0 st]
  by (auto simp: store_inv_def rest_inv_def configured_def configuration_status_def split: if_splits)

text \<open>A concrete store with two queues of one class under pressure at the same times.\<close>

definition busy_record :: "nanos \<Rightarrow> history_record" where
  "busy_record t = empty_history_record\<lparr>hr_received := \<lparr>rt_steady = t, rt_wall = 0\<rparr>, hr_state := PS_Pressured\<rparr>"

definition busy_ring :: history_ring where
  "busy_ring = \<lparr>ring_storage = map busy_record [6000000000, 7000000000, 8000000000, 9000000000],
     ring_head = 0, ring_size = 4, ring_capacity = 4, ring_evicted = 0\<rparr>"

definition busy_queue :: "u32 \<Rightarrow> queue_state" where
  "busy_queue n = (new_queue_state (QueuePath ''leaf1'' ''eth0'' n))
     \<lparr>q_classes_known := True, q_classes := empty_attributes\<lparr>ca_scheduling_class := Some ''gold''\<rparr>,
      q_history := busy_ring\<rparr>"

definition busy_store :: store where
  "busy_store = demo_store
     \<lparr>st_clock := (\<lambda>n. \<lparr>rt_steady = 10000000000, rt_wall = 0\<rparr>),
      st_queues := [(QueuePath ''leaf1'' ''eth0'' 1, busy_queue 1), (QueuePath ''leaf1'' ''eth0'' 2, busy_queue 2)]\<rparr>"

lemma busy_window:
  "rt_steady (fst (read_clock busy_store)) = 10000000000"
  "wrap_i64 (10000000000 - ws_duration (st_contention_spec busy_store)) = 5000000000"
  "ws_bucket (st_contention_spec busy_store) = 625000000"
  by (simp_all add: read_clock_def busy_store_def demo_store_def new_store_def contention_spec_of_def make_spec_def
      bucket_for_def default_pressure_policy_def kContentionBuckets_def cdiv_nonneg wrap_i64_def)

lemma busy_policy:
  "pol_contention (st_policy busy_store) = \<lparr>cn_window = 5000000000, cn_min_covered_buckets = 4,
     cn_min_simultaneous_buckets = 1, cn_count_pressured = True, cn_count_saturated = True,
     cn_count_dropping = True, cn_count_paused = True\<rparr>"
  "st_queues busy_store =
     [(QueuePath ''leaf1'' ''eth0'' 1, busy_queue 1), (QueuePath ''leaf1'' ''eth0'' 2, busy_queue 2)]"
  "status_ok (st_config_status busy_store)"
  using default_configuration_ok
  by (simp_all add: busy_store_def demo_store_def new_store_def default_pressure_policy_def)

lemma busy_snapshot:
  "map (ring_at busy_ring) [0..<ring_size busy_ring] =
     map busy_record [6000000000, 7000000000, 8000000000, 9000000000]"
  by (simp add: busy_ring_def ring_at_def upt_rec)

lemma busy_flag_record:
  assumes "5000000000 \<le> t" "om_find flags (align_bucket t 625000000) = None"
  shows "flag_record busy_store 5000000000 flags (busy_record t) = om_put (align_bucket t 625000000) (True, True) flags"
  using assms by (simp add: flag_record_def busy_window busy_record_def is_contending_state_def busy_policy)

lemma busy_buckets:
  "align_bucket 6000000000 625000000 = 5625000000" "align_bucket 7000000000 625000000 = 6875000000"
  "align_bucket 8000000000 625000000 = 7500000000" "align_bucket 9000000000 625000000 = 8750000000"
  by (simp_all add: align_bucket_def Let_def cdiv_nonneg cmod_nonneg wrap_i64_def)

lemma busy_flags:
  "queue_flags busy_store 5000000000 (busy_queue n) =
     [(5625000000, (True, True)), (6875000000, (True, True)), (7500000000, (True, True)), (8750000000, (True, True))]"
  by (simp add: queue_flags_def busy_queue_def busy_snapshot busy_flag_record busy_buckets om_find_def)

lemma busy_wf: "om_wf (st_queues busy_store)"
  by (simp add: om_wf_def busy_policy less_queue_path_def queue_path_less_def)

lemma busy_contention:
  "length (pg_rows (cs_page (fst (snd (contention
     \<lparr>cq_port = None, cq_scheduling_class = None, cq_page = \<lparr>pg_offset = 0, pg_limit = 5\<rparr>\<rparr> busy_store))))) = 1"
proof -
  have known: "q_classes_known (busy_queue n)" "ca_scheduling_class (q_classes (busy_queue n)) = Some ''gold''" for n
    by (simp_all add: busy_queue_def)
  have "max_rows (st_query_limits busy_store) \<noteq> 0"
    by (simp add: busy_store_def demo_store_def new_store_def default_query_limits_def)
  then show ?thesis
    using busy_window
    by (simp add: contention_def busy_policy Let_def case_prod_unfold group_queue_def known busy_flags om_entries_def
        add_sibling_def om_find_def contention_port_def contention_pair_def count_pair_def count_bucket_def
        page_push_def page_limit_def empty_page_def)
qed

section \<open>Properties\<close>

text \<open>C30: Exact pages. Inspection and pressure list the queues that match the filter in path order
  and the event query lists the matching events oldest first: the rows are the requested slice of the
  matches, the total counts all matches, the page is marked truncated exactly when matches follow it,
  and no page is longer than the configured maximum.\<close>

theorem queries_page_exactly:
  assumes "store_reachable st"
  shows "inspect iq st = (success, page_of (st_query_limits st) (iq_page iq)
           (map (\<lambda>(k, q). build_inspect_row q)
             (filter (entry_matches (iq_filter iq)) (om_entries (st_queues st)))))
    \<and> pressure pq st = (success, page_of (st_query_limits st) (pq_page pq)
           (map (\<lambda>(k, q). build_pressure_row q (pq_include_trace pq))
             (filter (entry_matches (pq_filter pq)) (om_entries (st_queues st)))))
    \<and> events eq st = (success, page_of (st_query_limits st) (eq_page eq)
           (filter (event_matches eq) (event_list (st_events st))))
    \<and> page_limit (st_query_limits st) page \<le> max_rows (st_query_limits st)"
  using reachable_settings [OF assms] page_limit_bounded [of "st_query_limits st" page]
  by (simp add: inspect_def pressure_def events_page list_queues_page case_prod_unfold)

theorem queries_page_exactly_witness:
  "fst (inspect \<lparr>iq_filter = \<lparr>qf_device = None, qf_port = None, qf_queue = None, qf_traffic_class = None,
       qf_scheduling_class = None, qf_state = None\<rparr>, iq_page = \<lparr>pg_offset = 0, pg_limit = 1\<rparr>\<rparr> demo_next) = success"
  using queries_page_exactly [OF demo_next_reachable] by (metis fst_conv)

text \<open>Queries only read. A history, microburst, contention or export query reads the clock and
  leaves everything else of the store as it was, whatever it answers.\<close>

theorem queries_only_read_clock:
  "only_ticks st (snd (snd (history hq st))) \<and> only_ticks st (snd (snd (microburst mq st)))
   \<and> only_ticks st (snd (snd (contention cq st))) \<and> only_ticks st (snd (snd (export_data oq st)))"
proof (intro conjI)
  have read: "read_clock st = (now, st1) \<Longrightarrow> only_ticks st st1" for now st1
    using only_ticks_read [of st] by simp
  show "only_ticks st (snd (snd (history hq st)))"
    using read by (auto simp: history_def Let_def split: prod.splits option.splits)
  show "only_ticks st (snd (snd (contention cq st)))"
    using read by (auto simp: contention_def Let_def split: prod.splits)
  show "only_ticks st (snd (snd (export_data oq st)))"
    using read by (auto simp: export_data_def split: prod.splits)
  show "only_ticks st (snd (snd (microburst mq st)))"
    using microburst_fold_ticks [of st mq _ "om_entries (st_queues st)"]
    by (auto simp: microburst_def Let_def split: prod.splits)
qed

text \<open>Explanations reproduce verdicts. On a reachable store, asking for an explanation under the
  store's own policy (which re-runs the classification on the evidence kept with the queue) gives
  exactly the stored explanation; only the mark that a policy was supplied differs.\<close>

theorem explain_reproduces_verdict:
  assumes "store_reachable st"
  shows "explain \<lparr>xq_queue = k, xq_policy = Some (st_policy st)\<rparr> st =
    (case explain \<lparr>xq_queue = k, xq_policy = None\<rparr> st of
       (status, r) \<Rightarrow> (status, r\<lparr>xr_policy_overridden := xr_found r\<rparr>))"
proof -
  have "q_latest q = classify (st_policy st) (q_last_input q)" if "om_find (st_queues st) k = Some q" for q
    using store_reachable_inv [OF assms] queue_found_ok [OF _ that] by (simp add: store_inv_parts queue_ok_def)
  then show ?thesis
    using reachable_settings [OF assms]
    by (auto simp: explain_def Let_def empty_explain_def split: option.splits)
qed

theorem explain_reproduces_verdict_witness:
  "fst (explain \<lparr>xq_queue = qs_queue demo_sample, xq_policy = Some (st_policy demo_next)\<rparr> demo_next) =
   fst (explain \<lparr>xq_queue = qs_queue demo_sample, xq_policy = None\<rparr> demo_next)"
  using explain_reproduces_verdict [OF demo_next_reachable, of "qs_queue demo_sample"]
  by (simp split: prod.split)

text \<open>C29: Contention claims rest on both queues. Every row a contention query returns names two
  different queues of the store on the same port and scheduling class; its simultaneous count is the
  number of buckets inside the window in which both queues have a retained record in a contending
  state, it meets the policy's minimum counts, and the ratio is that count over the examined buckets
  in lowest terms.\<close>

theorem contention_claims_supported:
  assumes "om_wf (st_queues st)" "contention query st = (status, r, st')" "c \<in> set (pg_rows (cs_page r))"
  shows "supported st (rt_steady (fst (read_clock st)))
    (wrap_i64 (rt_steady (fst (read_clock st)) - ws_duration (st_contention_spec st)))
    (om_entries (st_queues st)) c"
proof -
  obtain now st1 where now: "read_clock st = (now, st1)" by (cases "read_clock st")
  define cutoff where "cutoff = wrap_i64 (rt_steady now - ws_duration (st_contention_spec st))"
  have "groups_ok st cutoff (om_entries (st_queues st))
      (foldl (group_queue query st cutoff) [] (om_entries (st_queues st)))"
    using om.keys_distinct [OF assms(1)] by (intro groups_fold_ok) simp
  from contention_supported [OF this, of query "rt_steady now"] assms(2,3)
  show ?thesis
    by (auto simp: contention_def Let_def now cutoff_def om_entries_def empty_page_def split: if_splits)
qed

theorem contention_claims_supported_witness:
  "case contention \<lparr>cq_port = None, cq_scheduling_class = None, cq_page = \<lparr>pg_offset = 0, pg_limit = 5\<rparr>\<rparr> busy_store of
     (status, r, st') \<Rightarrow>
       length (pg_rows (cs_page r)) = 1
       \<and> supported busy_store 10000000000 5000000000 (om_entries (st_queues busy_store)) (pg_rows (cs_page r) ! 0)"
proof -
  let ?q = "\<lparr>cq_port = None, cq_scheduling_class = None, cq_page = \<lparr>pg_offset = 0, pg_limit = 5\<rparr>\<rparr>"
  obtain status r st' where c: "contention ?q busy_store = (status, r, st')"
    by (cases "contention ?q busy_store") auto
  then have one: "length (pg_rows (cs_page r)) = 1" using busy_contention by simp
  then have "pg_rows (cs_page r) ! 0 \<in> set (pg_rows (cs_page r))" by (metis nth_mem zero_less_one)
  from contention_claims_supported [OF busy_wf c this] one busy_window c show ?thesis by simp
qed

text \<open>One line per exported record. An NDJSON export of a reachable store never fails in the
  writer: when it is answered at all (its window is valid if history is asked for), it succeeds, the
  document has one line for each queue and each window bucket it counts, and the number of queues is
  within the page limit.\<close>

theorem export_one_line_per_record:
  assumes "store_reachable st" "oq_format query = Ndjson"
    and "oq_include_history query \<longrightarrow> status_ok (validate_window_spec (oq_window query))"
  shows "\<exists>r st'. export_data query st = (success, r, st')
    \<and> newlines (or_document r) = or_rows r + or_history_records r
    \<and> or_rows r \<le> page_limit (st_query_limits st) (oq_page query)"
proof -
  obtain now st1 where now: "read_clock st = (now, st1)" by (cases "read_clock st")
  show ?thesis
    using export_loop_count [of query empty_export "page_limit (st_query_limits st) (oq_page query)"
        st "rt_steady now" 0 "om_entries (st_queues st)"] assms reachable_settings(1) [OF assms(1)]
    by (auto simp: export_data_def now empty_export_def)
qed

theorem export_one_line_per_record_witness:
  "\<exists>r st'. export_data \<lparr>oq_filter = \<lparr>qf_device = None, qf_port = None, qf_queue = None, qf_traffic_class = None,
       qf_scheduling_class = None, qf_state = None\<rparr>, oq_page = \<lparr>pg_offset = 0, pg_limit = 5\<rparr>,
       oq_format = Ndjson, oq_include_history = False, oq_window = st_evaluation_spec demo_next\<rparr> demo_next
     = (success, r, st') \<and> newlines (or_document r) = or_rows r + or_history_records r"
  using export_one_line_per_record [OF demo_next_reachable, of "\<lparr>oq_filter = \<lparr>qf_device = None,
       qf_port = None, qf_queue = None, qf_traffic_class = None, qf_scheduling_class = None, qf_state = None\<rparr>,
       oq_page = \<lparr>pg_offset = 0, pg_limit = 5\<rparr>, oq_format = Ndjson, oq_include_history = False,
       oq_window = st_evaluation_spec demo_next\<rparr>"] by auto

end
