(* ===== verification/Segment_Bytes.thy ===== *)
theory Segment_Bytes
  imports Checked Crc32c Field_Mask
begin

text \<open>
  The byte writer and the byte reader of the segment format (\<^verbatim>\<open>src/persist/Format.cpp\<close>).
  A method of the writer answers false exactly when the writer is no longer good afterwards,
  and a writer that failed ignores every further call, so a method is a transformer of the
  writer. Every caller of the reader gives up at the first failed read; the state of the
  reader is the list of the bytes it has not read yet, and a failed read is \<open>None\<close>.

  The values a record is made of are listed as \<open>put\<close>s, one per call of the writer. The locale
  \<open>codec\<close> is the contract of a kind of record: what its puts lay out, its reader reads back.
\<close>

unbundle bit_operations_syntax

section \<open>The writer\<close>

record byte_writer =
  bw_out :: "u8 list"
  bw_max_bytes :: u64
  bw_ok :: bool

definition new_byte_writer :: "u8 list \<Rightarrow> u64 \<Rightarrow> byte_writer" where
  "new_byte_writer out max_bytes = \<lparr>bw_out = out, bw_max_bytes = max_bytes, bw_ok = True\<rparr>"

definition bw_raw :: "u8 list \<Rightarrow> byte_writer \<Rightarrow> byte_writer" where
  "bw_raw data w =
     (if \<not> bw_ok w then w
      else case add_u64 (of_nat (length (bw_out w))) (of_nat (length data)) of
        None \<Rightarrow> w\<lparr>bw_ok := False\<rparr>
      | Some next_size \<Rightarrow>
          if next_size > bw_max_bytes w then w\<lparr>bw_ok := False\<rparr>
          else w\<lparr>bw_out := bw_out w @ data\<rparr>)"

text \<open>The bytes of an integer, least significant first.\<close>

definition le_bytes :: "nat \<Rightarrow> 'a::len word \<Rightarrow> u8 list" where
  "le_bytes n v = map (\<lambda>index. ucast (drop_bit (8 * index) v AND 0xFF)) [0..<n]"

definition bw_u8 :: "u8 \<Rightarrow> byte_writer \<Rightarrow> byte_writer" where
  "bw_u8 v = bw_raw [v]"

definition bw_u16 :: "u16 \<Rightarrow> byte_writer \<Rightarrow> byte_writer" where
  "bw_u16 v = bw_raw [ucast (v AND 0xFF), ucast (drop_bit 8 v AND 0xFF)]"

definition bw_u32 :: "u32 \<Rightarrow> byte_writer \<Rightarrow> byte_writer" where
  "bw_u32 v = bw_raw (le_bytes 4 v)"

definition bw_u64 :: "u64 \<Rightarrow> byte_writer \<Rightarrow> byte_writer" where
  "bw_u64 v = bw_raw (le_bytes 8 v)"

definition bw_i64 :: "i64 \<Rightarrow> byte_writer \<Rightarrow> byte_writer" where
  "bw_i64 v = bw_u64 (u64_of_i64 v)"

definition bw_string :: "string \<Rightarrow> nat \<Rightarrow> byte_writer \<Rightarrow> byte_writer" where
  "bw_string v max_length w =
     (if length v > max_length then w\<lparr>bw_ok := False\<rparr>
      else bw_raw (bytes_of_text v) (bw_u32 (of_nat (length v)) w))"

definition bw_name_id :: "string \<Rightarrow> byte_writer \<Rightarrow> byte_writer" where
  "bw_name_id v = bw_string v 128"

text \<open>The fields in the order of their indices.\<close>

definition all_fields :: "sample_field list" where
  "all_fields = map fst kFieldNames"

definition field_byte :: "sample_field \<Rightarrow> u8" where
  "field_byte f = of_nat (field_index f)"

definition bw_sample_bitmap :: "field_mask \<Rightarrow> byte_writer \<Rightarrow> byte_writer" where
  "bw_sample_bitmap reported w =
     foldl (\<lambda>w f. if \<not> has_field reported f then w else bw_u8 (field_byte f) w)
       (bw_u8 (foldl (\<lambda>count f. if has_field reported f then count + 1 else count) 0 all_fields) w)
       all_fields"

datatype put =
    Put_U8 u8
  | Put_U16 u16
  | Put_U32 u32
  | Put_U64 u64
  | Put_I64 i64
  | Put_String string nat
  | Put_Name string
  | Put_Bitmap field_mask

fun write_put :: "put \<Rightarrow> byte_writer \<Rightarrow> byte_writer" where
  "write_put (Put_U8 v) = bw_u8 v"
| "write_put (Put_U16 v) = bw_u16 v"
| "write_put (Put_U32 v) = bw_u32 v"
| "write_put (Put_U64 v) = bw_u64 v"
| "write_put (Put_I64 v) = bw_i64 v"
| "write_put (Put_String v n) = bw_string v n"
| "write_put (Put_Name v) = bw_name_id v"
| "write_put (Put_Bitmap m) = bw_sample_bitmap m"

definition write_puts :: "put list \<Rightarrow> byte_writer \<Rightarrow> byte_writer" where
  "write_puts ps w = foldl (\<lambda>w p. write_put p w) w ps"

definition written_bytes :: "byte_writer \<Rightarrow> u8 list option" where
  "written_bytes w = (if bw_ok w then Some (bw_out w) else None)"

section \<open>The reader\<close>

type_synonym 'a reader = "u8 list \<Rightarrow> ('a \<times> u8 list) option"

definition read_then :: "'a reader \<Rightarrow> ('a \<Rightarrow> 'b reader) \<Rightarrow> 'b reader" where
  "read_then m f bs = (case m bs of None \<Rightarrow> None | Some (x, rest) \<Rightarrow> f x rest)"

definition read_return :: "'a \<Rightarrow> 'a reader" where
  "read_return x bs = Some (x, bs)"

definition read_if :: "bool \<Rightarrow> 'a reader \<Rightarrow> 'a reader" where
  "read_if b m bs = (if b then m bs else None)"

definition rd_bytes :: "nat \<Rightarrow> u8 list reader" where
  "rd_bytes count bs = (if count > length bs then None else Some (take count bs, drop count bs))"

definition of_le :: "u8 list \<Rightarrow> 'a::len word" where
  "of_le bs = foldl (\<lambda>acc (index, b). acc OR push_bit (8 * index) (ucast b)) 0 (enumerate 0 bs)"

definition rd_u8 :: "u8 reader" where
  "rd_u8 bs = (case bs of [] \<Rightarrow> None | b # rest \<Rightarrow> Some (b, rest))"

definition rd_u16 :: "u16 reader" where
  "rd_u16 = read_then (rd_bytes 2) (\<lambda>bs. read_return (ucast (bs ! 0) OR push_bit 8 (ucast (bs ! 1))))"

definition rd_u32 :: "u32 reader" where
  "rd_u32 = read_then (rd_bytes 4) (\<lambda>bs. read_return (of_le bs))"

definition rd_u64 :: "u64 reader" where
  "rd_u64 = read_then (rd_bytes 8) (\<lambda>bs. read_return (of_le bs))"

text \<open>\<^verbatim>\<open>static_cast<std::int64_t>\<close> of an unsigned value.\<close>

definition i64_of_u64 :: "u64 \<Rightarrow> i64" where
  "i64_of_u64 v = wrap_i64 (uint v)"

definition rd_i64 :: "i64 reader" where
  "rd_i64 = read_then rd_u64 (\<lambda>v. read_return (i64_of_u64 v))"

definition text_of_bytes :: "u8 list \<Rightarrow> string" where
  "text_of_bytes bs = map (\<lambda>b. char_of (unat b)) bs"

definition rd_string :: "u64 \<Rightarrow> nat \<Rightarrow> string reader" where
  "rd_string max_field_bytes max_length =
     read_then rd_u32 (\<lambda>len.
       read_if (\<not> (unat len > max_length \<or> unat len > unat max_field_bytes))
         (read_then (rd_bytes (unat len)) (\<lambda>bs. read_return (text_of_bytes bs))))"

definition rd_name_id :: "u64 \<Rightarrow> string reader" where
  "rd_name_id max_field_bytes = rd_string max_field_bytes 128"

definition field_of_byte :: "u8 \<Rightarrow> sample_field" where
  "field_of_byte b = all_fields ! unat b"

primrec rd_bitmap_loop :: "nat \<Rightarrow> field_mask \<Rightarrow> field_mask reader" where
  "rd_bitmap_loop 0 reported = read_return reported"
| "rd_bitmap_loop (Suc n) reported =
     read_then rd_u8 (\<lambda>field.
       read_if (\<not> unat field \<ge> kSampleFieldCount)
         (rd_bitmap_loop n (reported OR field_bit (field_of_byte field))))"

definition rd_sample_bitmap :: "field_mask reader" where
  "rd_sample_bitmap = read_then rd_u8 (\<lambda>count. rd_bitmap_loop (unat count) 0)"

text \<open>The loops over a counted list push each element as it is read: a failure leaves those
  before it.\<close>

fun rd_pushing :: "'a reader \<Rightarrow> nat \<Rightarrow> 'a list \<Rightarrow> u8 list \<Rightarrow> 'a list \<times> u8 list option" where
  "rd_pushing m 0 xs bs = (xs, Some bs)"
| "rd_pushing m (Suc n) xs bs =
     (case m bs of
        None \<Rightarrow> (xs, None)
      | Some (x, rest) \<Rightarrow> rd_pushing m n (xs @ [x]) rest)"

definition rd_many :: "'a reader \<Rightarrow> nat \<Rightarrow> 'a list reader" where
  "rd_many m n bs =
     (case rd_pushing m n [] bs of (xs, None) \<Rightarrow> None | (xs, Some rest) \<Rightarrow> Some (xs, rest))"

definition read_count :: "u32 reader" where
  "read_count =
     read_then rd_u32 (\<lambda>count bs.
       if unat count > length bs then None else Some (count, bs))"

section \<open>What the writer lays out\<close>

fun put_bytes :: "put \<Rightarrow> u8 list" where
  "put_bytes (Put_U8 v) = [v]"
| "put_bytes (Put_U16 v) = le_bytes 2 v"
| "put_bytes (Put_U32 v) = le_bytes 4 v"
| "put_bytes (Put_U64 v) = le_bytes 8 v"
| "put_bytes (Put_I64 v) = le_bytes 8 (u64_of_i64 v)"
| "put_bytes (Put_String v n) = le_bytes 4 (of_nat (length v) :: u32) @ bytes_of_text v"
| "put_bytes (Put_Name v) = le_bytes 4 (of_nat (length v) :: u32) @ bytes_of_text v"
| "put_bytes (Put_Bitmap m) =
     (let fs = filter (has_field m) all_fields in of_nat (length fs) # map field_byte fs)"

definition puts_bytes :: "put list \<Rightarrow> u8 list" where
  "puts_bytes ps = concat (map put_bytes ps)"

lemma puts_bytes_simps [simp]:
  "puts_bytes [] = []" "puts_bytes (p # ps) = put_bytes p @ puts_bytes ps"
  "puts_bytes (ps @ qs) = puts_bytes ps @ puts_bytes qs"
  by (simp_all add: puts_bytes_def)

lemma puts_bytes_concat: "puts_bytes (concat pss) = concat (map puts_bytes pss)"
  by (induction pss) simp_all

definition emits :: "(byte_writer \<Rightarrow> byte_writer) \<Rightarrow> u8 list \<Rightarrow> bool" where
  "emits f bs \<longleftrightarrow> (\<forall>w. bw_ok (f w) \<longrightarrow> bw_ok w \<and> f w = w\<lparr>bw_out := bw_out w @ bs\<rparr>)"

lemma emits_nothing: "emits (\<lambda>w. w) []"
  by (simp add: emits_def)

lemma emits_then:
  assumes "emits f as" "emits g bs"
  shows "emits (\<lambda>w. g (f w)) (as @ bs)"
  unfolding emits_def
proof (intro allI impI)
  fix w assume "bw_ok (g (f w))"
  with assms(2) have "bw_ok (f w)" "g (f w) = (f w)\<lparr>bw_out := bw_out (f w) @ bs\<rparr>" by (auto simp: emits_def)
  with assms(1) show "bw_ok w \<and> g (f w) = w\<lparr>bw_out := bw_out w @ as @ bs\<rparr>"
    unfolding emits_def by (metis append.assoc byte_writer.select_convs(1) byte_writer.surjective
        byte_writer.update_convs(1))
qed

lemma emits_raw: "emits (bw_raw bs) bs"
  by (auto simp: emits_def bw_raw_def split: option.splits if_splits)

lemma le_bytes_2: "le_bytes 2 (v :: u16) = [ucast (v AND 0xFF), ucast (drop_bit 8 v AND 0xFF)]"
  by (simp add: le_bytes_def upt_rec)

lemma emits_string: "emits (bw_string v n) (put_bytes (Put_String v n))"
proof -
  have "emits (\<lambda>w. bw_raw (bytes_of_text v) (bw_u32 (of_nat (length v)) w)) (put_bytes (Put_String v n))"
    unfolding put_bytes.simps bw_u32_def by (rule emits_then [OF emits_raw emits_raw])
  then show ?thesis by (auto simp: emits_def bw_string_def)
qed

lemma emits_filtered:
  "emits (\<lambda>w. foldl (\<lambda>w f. if \<not> P f then w else bw_u8 (g f) w) w fs) (map g (filter P fs))"
proof (induction fs)
  case (Cons f fs)
  then show ?case
    using emits_then [OF emits_raw Cons.IH, of "[g f]"] by (simp add: bw_u8_def)
qed (simp add: emits_nothing)

lemma count_fields:
  "foldl (\<lambda>count f. if P f then count + 1 else count) (c :: u8) fs = c + of_nat (length (filter P fs))"
  by (induction fs arbitrary: c) (simp_all add: algebra_simps)

lemma emits_put: "emits (write_put p) (put_bytes p)"
proof (cases p)
  case (Put_Bitmap m)
  have "emits (bw_u8 (of_nat (length (filter (has_field m) all_fields))))
      [of_nat (length (filter (has_field m) all_fields))]"
    unfolding bw_u8_def by (rule emits_raw)
  from emits_then [OF this emits_filtered [of "has_field m" field_byte all_fields]]
  show ?thesis
    by (simp add: Put_Bitmap bw_sample_bitmap_def [abs_def] count_fields Let_def)
qed (use emits_raw emits_string in \<open>auto simp: bw_u8_def bw_u16_def bw_u32_def bw_u64_def bw_i64_def
      bw_name_id_def le_bytes_2 [symmetric]\<close>)

lemma emits_puts: "emits (write_puts ps) (puts_bytes ps)"
proof (induction ps)
  case (Cons p ps)
  then show ?case
    using emits_then [OF emits_put [of p] Cons] by (simp add: write_puts_def [abs_def])
qed (simp add: write_puts_def [abs_def] emits_nothing)

lemma written_puts:
  assumes "written_bytes (write_puts ps (new_byte_writer out n)) = Some bs"
  shows "bs = out @ puts_bytes ps"
  using assms emits_puts [of ps]
  by (auto simp: written_bytes_def emits_def new_byte_writer_def split: if_splits)

text \<open>A writer that is still good has not passed its limit.\<close>

lemma bw_raw_bounded:
  assumes "length (bw_out w) \<le> unat (bw_max_bytes w)" and "length data < 2 ^ 64"
  shows "length (bw_out (bw_raw data w)) \<le> unat (bw_max_bytes (bw_raw data w))"
proof -
  have "length (bw_out w) < 18446744073709551616"
    using assms(1) unat_u64_bound by (rule le_less_trans)
  then have size: "unat (of_nat (length (bw_out w)) :: u64) = length (bw_out w)"
    "unat (of_nat (length data) :: u64) = length data"
    using assms(2) by (simp_all add: unat_of_nat)
  then have "add_u64 (of_nat (length (bw_out w))) (of_nat (length data)) =
      (if length (bw_out w) + length data < 2 ^ 64 then Some (of_nat (length (bw_out w) + length data)) else None)"
    by (simp add: add_u64_eq)
  then show ?thesis
    using assms by (auto simp: bw_raw_def word_less_nat_alt unat_of_nat not_less simp del: of_nat_add)
qed

section \<open>What the reader reads back\<close>

lemma bit_of_le:
  "bit (of_le bs :: 'a::len word) k \<longleftrightarrow>
     k < LENGTH('a) \<and> k div 8 < length bs \<and> bit (bs ! (k div 8)) (k mod 8)"
proof (induction bs rule: rev_induct)
  case (snoc b bs)
  have step: "of_le (bs @ [b]) = (of_le bs OR push_bit (8 * length bs) (ucast b) :: 'a word)"
    by (simp add: of_le_def enumerate_append_eq)
  have "bit (push_bit (8 * length bs) (ucast b) :: 'a word) k \<longleftrightarrow>
      k < LENGTH('a) \<and> k div 8 = length bs \<and> bit b (k mod 8)"
  proof (cases "8 * length bs \<le> k \<and> k - 8 * length bs < 8")
    case True
    then obtain j where "k = 8 * length bs + j" "j < 8" by (metis le_add_diff_inverse)
    then have "k div 8 = length bs" "k mod 8 = k - 8 * length bs" by simp_all
    then show ?thesis using True by (auto simp: bit_simps)
  next
    case False
    then have "k div 8 \<noteq> length bs" by auto
    moreover have "\<not> bit b (k - 8 * length bs)" if "8 * length bs \<le> k"
      using False that bit_imp_le_length [of b "k - 8 * length bs"] by auto
    ultimately show ?thesis by (auto simp: bit_simps)
  qed
  then show ?case
    unfolding step by (auto simp: bit_or_iff snoc nth_append)
qed (simp add: of_le_def)

lemma of_le_bytes:
  assumes "LENGTH('a) = 8 * n"
  shows "of_le (le_bytes n v) = (v :: 'a::len word)"
proof (rule bit_eqI)
  fix k assume "possible_bit TYPE('a word) k"
  then have k: "k < LENGTH('a)" by simp
  then have "k div 8 < n" using assms by auto
  moreover have "8 * (k div 8) + k mod 8 = k" by simp
  moreover have "bit (0xFF :: 'a word) (k mod 8)"
    using bit_mask_iff [of 8 "k mod 8", where 'a = "'a word"] k assms
    by (simp add: mask_eq_exp_minus_1) 
  ultimately show "bit (of_le (le_bytes n v) :: 'a word) k \<longleftrightarrow> bit v k"
    using k by (simp add: bit_of_le le_bytes_def bit_simps)
qed

lemma length_le_bytes [simp]: "length (le_bytes n v) = n"
  by (simp add: le_bytes_def)

lemma le_bytes_of_le:
  assumes "length bs = 4"
  shows "le_bytes 4 (of_le bs :: u32) = bs"
proof (rule nth_equalityI)
  fix k assume "k < length (le_bytes 4 (of_le bs :: u32))"
  then have k: "k < 4" by simp
  show "le_bytes 4 (of_le bs :: u32) ! k = bs ! k"
  proof (rule bit_word_eqI)
    fix j assume "j < LENGTH(8)"
    then have "j < 8" by simp
    then have "(8 * k + j) div 8 = k" "(8 * k + j) mod 8 = j" "8 * k + j < 32" "bit (0xFF :: u32) j"
      using k bit_255 [of j] by auto
    then show "bit (le_bytes 4 (of_le bs :: u32) ! k) j \<longleftrightarrow> bit (bs ! k) j"
      using k assms \<open>j < 8\<close> by (simp add: le_bytes_def bit_simps bit_of_le)
  qed
qed (simp add: assms)

lemma rd_bytes_append [simp]: "n = length as \<Longrightarrow> rd_bytes n (as @ bs) = Some (as, bs)"
  by (simp add: rd_bytes_def)

named_theorems reads_back \<open>what a read returns on the bytes that were put\<close>

lemma read_then_back [simp]: "m bs = Some (x, rest) \<Longrightarrow> read_then m f bs = f x rest"
  by (simp add: read_then_def)

lemma read_return_back [simp]: "read_return x bs = Some (x, bs)"
  by (simp add: read_return_def)

lemma read_if_back [simp]: "b \<Longrightarrow> read_if b m bs = m bs"
  by (simp add: read_if_def)

lemma rd_u8_back [reads_back]: "rd_u8 (b # rest) = Some (b, rest)"
  by (simp add: rd_u8_def)

lemma rd_u16_back [reads_back]: "rd_u16 (le_bytes 2 v @ rest) = Some (v, rest)"
proof -
  have "of_le (le_bytes 2 v) = (ucast (le_bytes 2 v ! 0) OR push_bit 8 (ucast (le_bytes 2 v ! 1)) :: u16)"
    by (simp add: of_le_def le_bytes_2)
  then show ?thesis by (simp add: rd_u16_def of_le_bytes)
qed

lemma rd_u32_back [reads_back]: "rd_u32 (le_bytes 4 v @ rest) = Some (v, rest)"
  by (simp add: rd_u32_def of_le_bytes)

lemma rd_u64_back [reads_back]: "rd_u64 (le_bytes 8 v @ rest) = Some (v, rest)"
  by (simp add: rd_u64_def of_le_bytes)

lemma i64_of_u64_of_i64: "is_i64 v \<Longrightarrow> i64_of_u64 (u64_of_i64 v) = v"
  by (auto simp: i64_of_u64_def u64_of_i64_def uint_word_of_int wrap_i64_def is_i64_def i64_min_def i64_max_def
      mod_add_left_eq)

lemma rd_i64_back [reads_back]:
  "is_i64 v \<Longrightarrow> rd_i64 (le_bytes 8 (u64_of_i64 v) @ rest) = Some (v, rest)"
  by (simp add: rd_i64_def reads_back i64_of_u64_of_i64)

lemma text_of_bytes_of_text [simp]: "text_of_bytes (bytes_of_text s) = s"
proof -
  have "unat (of_char c :: u8) = of_char c" for c
    using of_nat_of_char [of c, where 'a = u8] unat_of_nat [of "of_char c", where 'a = 8] by simp
  then show ?thesis by (simp add: text_of_bytes_def bytes_of_text_def o_def)
qed

lemma length_bytes_of_text [simp]: "length (bytes_of_text s) = length s"
  by (simp add: bytes_of_text_def)

lemma rd_string_back:
  assumes "length v \<le> n" "length v \<le> unat max_field" "length v < 2 ^ 32"
  shows "rd_string max_field n (le_bytes 4 (of_nat (length v) :: u32) @ bytes_of_text v @ rest) = Some (v, rest)"
proof -
  have "unat (of_nat (length v) :: u32) = length v"
    using assms(3) by (simp add: unat_of_nat take_bit_nat_eq_self)
  then show ?thesis using assms by (simp add: rd_string_def reads_back)
qed

lemma rd_name_id_back:
  assumes "length v \<le> 128" "length v \<le> unat max_field"
  shows "rd_name_id max_field (le_bytes 4 (of_nat (length v) :: u32) @ bytes_of_text v @ rest) = Some (v, rest)"
  using assms rd_string_back [of v 128 max_field rest] by (simp add: rd_name_id_def)

lemma all_fields_facts:
  "length all_fields = 17" "distinct all_fields" "Count \<notin> set all_fields"
  "f \<in> set all_fields \<longleftrightarrow> f \<noteq> Count" "f \<noteq> Count \<Longrightarrow> all_fields ! field_index f = f"
  by (simp_all add: all_fields_def kFieldNames_def) (cases f; simp)+

lemma field_byte_back: "f \<noteq> Count \<Longrightarrow> unat (field_byte f) = field_index f \<and> field_of_byte (field_byte f) = f"
  using field_index_lt [of f] all_fields_facts(5) [of f]
  by (simp add: field_of_byte_def field_byte_def unat_of_nat)

lemma rd_bitmap_loop_back:
  "Count \<notin> set fs \<Longrightarrow>
   rd_bitmap_loop (length fs) m (map field_byte fs @ rest) = Some (foldl (\<lambda>m f. m OR field_bit f) m fs, rest)"
proof (induction fs arbitrary: m)
  case (Cons f fs)
  then have "unat (field_byte f) < 17" "field_of_byte (field_byte f) = f"
    using field_byte_back [of f] field_index_past_end [of f] by (auto simp: not_le [symmetric])
  then show ?case
    using Cons by (simp add: rd_u8_back kSampleFieldCount_def)
qed simp

lemma rd_sample_bitmap_back [reads_back]:
  assumes "mask_wf m"
  shows "rd_sample_bitmap (put_bytes (Put_Bitmap m) @ rest) = Some (m, rest)"
proof -
  let ?fs = "filter (has_field m) all_fields"
  have "length ?fs \<le> 17" using length_filter_le [of "has_field m" all_fields] by (simp add: all_fields_facts)
  then have "unat (of_nat (length ?fs) :: u8) = length ?fs" by (simp add: unat_of_nat)
  moreover have "foldl (\<lambda>m f. m OR field_bit f) 0 ?fs = m"
    using assms foldl_or_fields [of "?fs" 0] all_fields_facts(3,4)
    by (intro mask_eqI) (auto simp: mask_wf_def)
  ultimately show ?thesis
    using rd_bitmap_loop_back [of ?fs 0 rest] all_fields_facts(3)
    by (simp add: rd_sample_bitmap_def rd_u8_back Let_def)
qed

lemma read_count_back [reads_back]:
  assumes "n < 2 ^ 32" "n \<le> length rest"
  shows "read_count (le_bytes 4 (of_nat n :: u32) @ rest) = Some (of_nat n, rest)"
  using assms by (simp add: read_count_def rd_u32_back unat_of_nat)

section \<open>The contract of a kind of record\<close>

locale codec =
  fixes puts :: "'a \<Rightarrow> put list"
    and rd :: "'a reader"
    and valid :: "'a \<Rightarrow> bool"
  assumes reads_puts: "valid x \<Longrightarrow> rd (puts_bytes (puts x) @ rest) = Some (x, rest)"
    and puts_something: "puts_bytes (puts x) \<noteq> []"
begin

lemma pushing_back:
  "list_all valid xs \<Longrightarrow>
   rd_pushing rd (length xs) ys (puts_bytes (concat (map puts xs)) @ rest) = (ys @ xs, Some rest)"
proof (induction xs arbitrary: ys)
  case (Cons x xs)
  then show ?case using reads_puts [of x] by simp
qed simp

lemma many_back:
  "list_all valid xs \<Longrightarrow> rd_many rd (length xs) (puts_bytes (concat (map puts xs)) @ rest) = Some (xs, rest)"
  by (simp add: rd_many_def pushing_back)

lemma list_not_longer: "length xs \<le> length (puts_bytes (concat (map puts xs)))"
proof (induction xs)
  case (Cons x xs)
  then show ?case using puts_something [of x] by (cases "puts_bytes (puts x)") auto
qed simp

end

end
