(* ===== verification/Segment.thy ===== *)
theory Segment
  imports Segment_Bytes Limits Store_State
begin

text \<open>
  The persistence segment (\<^verbatim>\<open>include/qobs/persist/Format.hpp\<close>, \<^verbatim>\<open>src/persist/Format.cpp\<close>): the
  durable records, the encoder and the decoder with its report. A segment is a fixed header, the
  runtime identifier and a payload of framed records; each record and the payload as a whole have a
  checksum.

  The enumerations of the source have an underlying byte, and the decoder casts a byte it read to the
  enumeration without a range check, except for pressure states and event kinds. A durable record
  therefore holds the byte itself for an authority, an origin, a freshness, a quality and a severity.
\<close>

unbundle bit_operations_syntax

section \<open>Data\<close>

definition kSegmentMagic :: "u8 list" where
  "kSegmentMagic = bytes_of_text ''QOBSSEG1''"

definition kSegmentHeaderSize :: nat where "kSegmentHeaderSize = 8 + 4 * 6 + 8 * 4 + 4 * 4"

definition kRecordHeaderSize :: nat where "kRecordHeaderSize = 12"

definition kMaxRuntimeIdBytes :: nat where "kMaxRuntimeIdBytes = 64"

definition kPersistenceFormatVersion :: u32 where "kPersistenceFormatVersion = 1"

datatype record_type = SessionHeader | QueueSnapshot | EventBatch | SourceRegistry | MetadataTable

fun record_type_byte :: "record_type \<Rightarrow> u8" where
  "record_type_byte SessionHeader = 0x01"
| "record_type_byte QueueSnapshot = 0x02"
| "record_type_byte EventBatch = 0x03"
| "record_type_byte SourceRegistry = 0x04"
| "record_type_byte MetadataTable = 0x05"

definition record_type_of :: "u8 \<Rightarrow> record_type option" where
  "record_type_of b =
     (if b = 0x01 then Some SessionHeader else if b = 0x02 then Some QueueSnapshot
      else if b = 0x03 then Some EventBatch else if b = 0x04 then Some SourceRegistry
      else if b = 0x05 then Some MetadataTable else None)"

record durable_sample =
  ds_observed :: observation_time
  ds_received_wall :: nanos
  ds_received_steady :: nanos
  ds_source :: string
  ds_incarnation :: string
  ds_generation :: u64
  ds_sequence :: u64
  ds_authority :: u8
  ds_reported :: field_mask
  ds_values :: "sample_field \<Rightarrow> u64"
  ds_state :: pressure_state
  ds_freshness :: u8
  ds_quality :: u8
  ds_age :: nanos

record durable_classes =
  dc_traffic_class :: "u16 option"
  dc_scheduling_class :: "string option"
  dc_origin :: u8
  dc_metadata_revision :: u64

record durable_queue =
  dq_queue :: queue_path
  dq_classes :: durable_classes
  dq_classes_known :: bool
  dq_samples :: "durable_sample list"

record durable_source =
  dr_id :: string
  dr_authority :: u8
  dr_declared_authority :: u8
  dr_incarnation :: string
  dr_incarnation_ordinal :: u64
  dr_last_sequence :: u64
  dr_generation :: u64
  dr_clock_domain :: string
  dr_first_seen :: receive_time
  dr_last_seen :: receive_time
  dr_accepted :: u64
  dr_fenced :: u64
  dr_duplicates :: u64
  dr_rejected :: u64
  dr_last_observed :: u64
  dr_recent_incarnations :: "(string \<times> u64) list"

record durable_event =
  de_kind :: event_kind
  de_severity :: u8
  de_received :: receive_time
  de_observed :: observation_time
  de_queue :: queue_path
  de_source :: string
  de_incarnation :: string
  de_sequence :: u64
  de_revision :: u64
  de_detail :: string

record durable_metadata =
  dm_revision :: u64
  dm_generation :: u64
  dm_source :: string
  dm_authority :: u8
  dm_received :: receive_time
  dm_traffic_classes :: "traffic_class_descriptor list"
  dm_scheduling_classes :: "scheduling_class_descriptor list"
  dm_bindings :: "queue_class_binding list"

definition empty_durable_metadata :: durable_metadata where
  "empty_durable_metadata =
     \<lparr>dm_revision = 0, dm_generation = 0, dm_source = [], dm_authority = 0, dm_received = zero_receive,
      dm_traffic_classes = [], dm_scheduling_classes = [], dm_bindings = []\<rparr>"

record durable_snapshot =
  sn_runtime_id :: string
  sn_created :: receive_time
  sn_policy_version :: u32
  sn_policy_name :: string
  sn_queues :: "durable_queue list"
  sn_events :: "durable_event list"
  sn_sources :: "durable_source list"
  sn_metadata :: durable_metadata
  sn_has_metadata :: bool

definition empty_snapshot :: durable_snapshot where
  "empty_snapshot =
     \<lparr>sn_runtime_id = [], sn_created = zero_receive, sn_policy_version = 0, sn_policy_name = [],
      sn_queues = [], sn_events = [], sn_sources = [], sn_metadata = empty_durable_metadata,
      sn_has_metadata = False\<rparr>"

record decode_report =
  dp_magic_valid :: bool
  dp_header_crc_valid :: bool
  dp_payload_crc_valid :: bool
  dp_version_supported :: bool
  dp_truncated :: bool
  dp_integrity_failed :: bool
  dp_records_declared :: u64
  dp_records_parsed :: u64
  dp_records_rejected :: u64
  dp_bytes_consumed :: u64
  dp_bytes_declared :: u64
  dp_format_version :: u32
  dp_created_wall :: nanos
  dp_diagnostic :: string

definition empty_decode_report :: decode_report where
  "empty_decode_report =
     \<lparr>dp_magic_valid = False, dp_header_crc_valid = False, dp_payload_crc_valid = False,
      dp_version_supported = False, dp_truncated = False, dp_integrity_failed = False,
      dp_records_declared = 0, dp_records_parsed = 0, dp_records_rejected = 0,
      dp_bytes_consumed = 0, dp_bytes_declared = 0, dp_format_version = 0, dp_created_wall = 0,
      dp_diagnostic = []\<rparr>"

definition report_clean :: "decode_report \<Rightarrow> bool" where
  "report_clean r \<longleftrightarrow>
     dp_magic_valid r \<and> dp_header_crc_valid r \<and> dp_payload_crc_valid r \<and> dp_version_supported r
     \<and> \<not> dp_truncated r \<and> \<not> dp_integrity_failed r"

text \<open>The enumerators that the decoder checks, by their bytes.\<close>

definition all_states :: "pressure_state list" where
  "all_states =
     [PS_Unknown, PS_Idle, PS_Normal, PS_Elevated, PS_Pressured, PS_Saturated, PS_Dropping,
      PS_Paused, PS_Stale, PS_Conflicting]"

definition kPressureStateCount :: nat where "kPressureStateCount = 10"

fun state_byte :: "pressure_state \<Rightarrow> u8" where
  "state_byte PS_Unknown = 0"
| "state_byte PS_Idle = 1"
| "state_byte PS_Normal = 2"
| "state_byte PS_Elevated = 3"
| "state_byte PS_Pressured = 4"
| "state_byte PS_Saturated = 5"
| "state_byte PS_Dropping = 6"
| "state_byte PS_Paused = 7"
| "state_byte PS_Stale = 8"
| "state_byte PS_Conflicting = 9"

definition all_kinds :: "event_kind list" where
  "all_kinds =
     [SampleAccepted, SampleRejected, SampleFenced, DuplicateReplay, ConflictDetected,
      ConflictCleared, CounterWrap, CounterReset, CounterAmbiguous, CounterDiscontinuous,
      SourceRegistered, SourceIncarnationChanged, SourceAuthorityChanged,
      SourceSequenceRegression, MetadataUpdated, MetadataRevisionFenced, StateTransition,
      MicroburstDetected, MicroburstInsufficientCoverage, ContentionDetected,
      PersistenceWritten, PersistenceRecovered, PersistenceFailed, HistoryEvicted,
      QueueLimitReached, RuntimeStarted, RuntimeStopped]"

definition kEventKindCount :: nat where "kEventKindCount = length all_kinds"

fun kind_byte :: "event_kind \<Rightarrow> u8" where
  "kind_byte SampleAccepted = 0"
| "kind_byte SampleRejected = 1"
| "kind_byte SampleFenced = 2"
| "kind_byte DuplicateReplay = 3"
| "kind_byte ConflictDetected = 4"
| "kind_byte ConflictCleared = 5"
| "kind_byte CounterWrap = 6"
| "kind_byte CounterReset = 7"
| "kind_byte CounterAmbiguous = 8"
| "kind_byte CounterDiscontinuous = 9"
| "kind_byte SourceRegistered = 10"
| "kind_byte SourceIncarnationChanged = 11"
| "kind_byte SourceAuthorityChanged = 12"
| "kind_byte SourceSequenceRegression = 13"
| "kind_byte MetadataUpdated = 14"
| "kind_byte MetadataRevisionFenced = 15"
| "kind_byte StateTransition = 16"
| "kind_byte MicroburstDetected = 17"
| "kind_byte MicroburstInsufficientCoverage = 18"
| "kind_byte ContentionDetected = 19"
| "kind_byte PersistenceWritten = 20"
| "kind_byte PersistenceRecovered = 21"
| "kind_byte PersistenceFailed = 22"
| "kind_byte HistoryEvicted = 23"
| "kind_byte QueueLimitReached = 24"
| "kind_byte RuntimeStarted = 25"
| "kind_byte RuntimeStopped = 26"

section \<open>The encoder\<close>

definition optional_puts :: "('a \<Rightarrow> put) \<Rightarrow> 'a option \<Rightarrow> put list" where
  "optional_puts mk v = (case v of None \<Rightarrow> [Put_U8 0] | Some x \<Rightarrow> [Put_U8 1, mk x])"

definition count_put :: "'a list \<Rightarrow> put" where
  "count_put xs = Put_U32 (of_nat (length xs))"

definition sample_puts :: "durable_sample \<Rightarrow> put list" where
  "sample_puts s =
     [Put_I64 (ot_ns (ds_observed s)), Put_Name (ot_domain (ds_observed s)),
      Put_I64 (ds_received_wall s), Put_I64 (ds_received_steady s), Put_Name (ds_source s),
      Put_Name (ds_incarnation s), Put_U64 (ds_generation s), Put_U64 (ds_sequence s),
      Put_U8 (ds_authority s), Put_U64 (ds_reported s), Put_Bitmap (ds_reported s)]
     @ map (\<lambda>f. Put_U64 (ds_values s f)) (filter (has_field (ds_reported s)) all_fields)
     @ [Put_U8 (state_byte (ds_state s)), Put_U8 (ds_freshness s), Put_U8 (ds_quality s),
        Put_I64 (ds_age s)]"

definition queue_puts :: "durable_queue \<Rightarrow> put list" where
  "queue_puts q =
     [Put_Name (qp_device (dq_queue q)), Put_Name (qp_port (dq_queue q)), Put_U32 (qp_queue (dq_queue q)),
      Put_U8 (if dq_classes_known q then 1 else 0)]
     @ optional_puts Put_U16 (dc_traffic_class (dq_classes q))
     @ optional_puts Put_Name (dc_scheduling_class (dq_classes q))
     @ [Put_U8 (dc_origin (dq_classes q)), Put_U64 (dc_metadata_revision (dq_classes q)),
        count_put (dq_samples q)]
     @ concat (map sample_puts (dq_samples q))"

definition encode_queue_record :: "durable_queue \<Rightarrow> persistence_limits \<Rightarrow> u8 list option" where
  "encode_queue_record queue limits =
     (if length (dq_samples queue) > 0xFFFFFFFF then None
      else written_bytes (write_puts (queue_puts queue) (new_byte_writer [] (max_record_bytes limits))))"

definition session_puts :: "durable_snapshot \<Rightarrow> put list" where
  "session_puts s =
     [Put_String (sn_runtime_id s) kMaxRuntimeIdBytes, Put_U32 (sn_policy_version s),
      Put_String (sn_policy_name s) 128, Put_I64 (rt_wall (sn_created s)),
      Put_I64 (rt_steady (sn_created s)),
      Put_U32 (if length (sn_queues s) > 0xFFFFFFFF then 0xFFFFFFFF else of_nat (length (sn_queues s)))]"

definition incarnation_puts :: "string \<times> u64 \<Rightarrow> put list" where
  "incarnation_puts entry = [Put_Name (fst entry), Put_U64 (snd entry)]"

definition source_puts :: "durable_source \<Rightarrow> put list" where
  "source_puts s =
     [Put_Name (dr_id s), Put_U8 (dr_authority s), Put_U8 (dr_declared_authority s),
      Put_Name (dr_incarnation s), Put_U64 (dr_incarnation_ordinal s), Put_U64 (dr_last_sequence s),
      Put_U64 (dr_generation s), Put_Name (dr_clock_domain s),
      Put_I64 (rt_wall (dr_first_seen s)), Put_I64 (rt_steady (dr_first_seen s)),
      Put_I64 (rt_wall (dr_last_seen s)), Put_I64 (rt_steady (dr_last_seen s)),
      Put_U64 (dr_accepted s), Put_U64 (dr_fenced s), Put_U64 (dr_duplicates s),
      Put_U64 (dr_rejected s), Put_I64 (i64_of_u64 (dr_last_observed s)),
      count_put (dr_recent_incarnations s)]
     @ concat (map incarnation_puts (dr_recent_incarnations s))"

definition event_puts :: "durable_event \<Rightarrow> put list" where
  "event_puts e =
     [Put_U8 (kind_byte (de_kind e)), Put_U8 (de_severity e),
      Put_I64 (rt_wall (de_received e)), Put_I64 (rt_steady (de_received e)),
      Put_I64 (ot_ns (de_observed e)), Put_Name (ot_domain (de_observed e)),
      Put_Name (qp_device (de_queue e)), Put_Name (qp_port (de_queue e)), Put_U32 (qp_queue (de_queue e)),
      Put_Name (de_source e), Put_Name (de_incarnation e), Put_U64 (de_sequence e),
      Put_U64 (de_revision e), Put_String (de_detail e) 512]"

definition traffic_puts :: "traffic_class_descriptor \<Rightarrow> put list" where
  "traffic_puts d =
     [Put_U16 (tcd_id d), Put_String (tcd_name d) 128]
     @ optional_puts Put_U16 (tcd_dscp d)
     @ optional_puts Put_U16 (tcd_priority_code_point d)
     @ optional_puts Put_Name (tcd_scheduling_class d)"

definition scheduling_puts :: "scheduling_class_descriptor \<Rightarrow> put list" where
  "scheduling_puts d =
     [Put_Name (scd_id d), Put_String (scd_mode d) 64] @ optional_puts Put_U64 (scd_weight d)"

definition binding_puts :: "queue_class_binding \<Rightarrow> put list" where
  "binding_puts b =
     [Put_Name (qp_device (qcb_queue b)), Put_Name (qp_port (qcb_queue b)), Put_U32 (qp_queue (qcb_queue b))]
     @ optional_puts Put_U16 (qcb_traffic_class b)
     @ optional_puts Put_Name (qcb_scheduling_class b)"

definition metadata_puts :: "durable_metadata \<Rightarrow> put list" where
  "metadata_puts m =
     [Put_U64 (dm_revision m), Put_U64 (dm_generation m), Put_Name (dm_source m),
      Put_U8 (dm_authority m), Put_I64 (rt_wall (dm_received m)), Put_I64 (rt_steady (dm_received m)),
      count_put (dm_traffic_classes m)]
     @ concat (map traffic_puts (dm_traffic_classes m))
     @ [count_put (dm_scheduling_classes m)]
     @ concat (map scheduling_puts (dm_scheduling_classes m))
     @ [count_put (dm_bindings m)]
     @ concat (map binding_puts (dm_bindings m))"

definition record_prefix :: "u8 \<Rightarrow> u8 \<Rightarrow> u32 \<Rightarrow> u8 list" where
  "record_prefix type flags len = [type, flags, 0, 0] @ le_bytes 4 len"

definition append_record :: "u8 list \<Rightarrow> record_type \<Rightarrow> u8 list \<Rightarrow> u64 \<Rightarrow> u8 list option" where
  "append_record payload type bytes max_bytes =
     (if length bytes > unat max_bytes \<or> length bytes > 0xFFFFFFFF then None
      else let prefix = record_prefix (record_type_byte type) 0 (of_nat (length bytes));
               crc = crc_update (crc_update crc_init prefix) bytes
           in written_bytes (bw_raw bytes (bw_raw prefix (bw_u32 (crc_value crc)
                (new_byte_writer payload max_bytes)))))"

text \<open>The payload so far and its number of records.\<close>

type_synonym segment_build = "u8 list \<times> u64"

definition append_segment ::
    "persistence_limits \<Rightarrow> record_type \<Rightarrow> u8 list \<Rightarrow> segment_build \<Rightarrow> segment_build result" where
  "append_segment limits type bytes build =
     (if length bytes > unat (max_record_bytes limits)
      then Inl (failure LimitExceeded ''a persistence record exceeds the configured record size'')
      else if snd build \<ge> max_segment_records limits
      then Inl (failure LimitExceeded ''the segment would exceed the configured record count'')
      else case append_record (fst build) type bytes (max_segment_bytes limits) of
        None \<Rightarrow> Inl (failure LimitExceeded ''the segment would exceed the configured byte size'')
      | Some payload \<Rightarrow> Inr (payload, snd build + 1))"

text \<open>A record whose value is written by one writer.\<close>

definition append_puts ::
    "persistence_limits \<Rightarrow> record_type \<Rightarrow> put list \<Rightarrow> u64 \<Rightarrow> status \<Rightarrow> segment_build \<Rightarrow> segment_build result" where
  "append_puts limits type ps max_bytes error build =
     (case written_bytes (write_puts ps (new_byte_writer [] max_bytes)) of
        None \<Rightarrow> Inl error
      | Some bytes \<Rightarrow> append_segment limits type bytes build)"

fun append_queues ::
    "persistence_limits \<Rightarrow> durable_queue list \<Rightarrow> segment_build \<Rightarrow> segment_build result" where
  "append_queues limits [] build = Inr build"
| "append_queues limits (q # qs) build =
     (case encode_queue_record q limits of
        None \<Rightarrow> Inl (failure LimitExceeded ''a queue snapshot exceeds the configured record size'')
      | Some bytes \<Rightarrow>
          qobs_try_assign (append_segment limits QueueSnapshot bytes build) (append_queues limits qs))"

definition append_sources :: "persistence_limits \<Rightarrow> durable_source list \<Rightarrow> segment_build \<Rightarrow> segment_build result" where
  "append_sources limits sources build =
     (if sources = [] then Inr build
      else append_puts limits SourceRegistry (count_put sources # concat (map source_puts sources))
             (max_record_bytes limits)
             (failure LimitExceeded ''the source registry exceeds the configured record size'') build)"

definition append_events :: "persistence_limits \<Rightarrow> durable_event list \<Rightarrow> segment_build \<Rightarrow> segment_build result" where
  "append_events limits events build =
     (if events = [] then Inr build
      else append_puts limits EventBatch (count_put events # concat (map event_puts events))
             (max_record_bytes limits)
             (failure LimitExceeded ''the event batch exceeds the configured record size'') build)"

definition append_metadata ::
    "persistence_limits \<Rightarrow> bool \<Rightarrow> durable_metadata \<Rightarrow> segment_build \<Rightarrow> segment_build result" where
  "append_metadata limits present m build =
     (if \<not> present then Inr build
      else append_puts limits MetadataTable (metadata_puts m) (max_metadata_bytes limits)
             (failure LimitExceeded ''the metadata table exceeds the configured record size'') build)"

definition header_puts :: "u32 \<Rightarrow> u32 \<Rightarrow> i64 \<Rightarrow> i64 \<Rightarrow> u64 \<Rightarrow> u64 \<Rightarrow> u32 \<Rightarrow> put list" where
  "header_puts policy_version runtime_id_len created_wall created_steady record_count payload_bytes
     payload_crc =
     [Put_U32 kPersistenceFormatVersion, Put_U32 (of_nat kSegmentHeaderSize), Put_U32 0,
      Put_U32 policy_version, Put_U32 runtime_id_len, Put_U32 0, Put_I64 created_wall,
      Put_I64 created_steady, Put_U64 record_count, Put_U64 payload_bytes, Put_U32 payload_crc,
      Put_U32 1, Put_U32 0, Put_U32 0]"

definition patch_crc :: "u32 \<Rightarrow> u8 list \<Rightarrow> u8 list" where
  "patch_crc crc header = take 16 header @ le_bytes 4 crc @ drop 20 header"

definition write_header :: "u32 \<Rightarrow> u32 \<Rightarrow> i64 \<Rightarrow> i64 \<Rightarrow> u64 \<Rightarrow> u64 \<Rightarrow> u32 \<Rightarrow> u8 list option" where
  "write_header policy_version runtime_id_len created_wall created_steady record_count payload_bytes
     payload_crc =
     (case written_bytes (write_puts
          (header_puts policy_version runtime_id_len created_wall created_steady record_count
             payload_bytes payload_crc)
          (bw_raw kSegmentMagic (new_byte_writer [] (of_nat kSegmentHeaderSize)))) of
        None \<Rightarrow> None
      | Some header \<Rightarrow>
          if length header \<noteq> kSegmentHeaderSize then None
          else Some (patch_crc (crc32c header) header))"

definition encode_payload :: "durable_snapshot \<Rightarrow> persistence_limits \<Rightarrow> segment_build result" where
  "encode_payload s limits =
     qobs_try_assign (append_puts limits SessionHeader (session_puts s) (max_record_bytes limits)
         (failure Internal ''failed to encode the session header record'') ([], 0))
    (\<lambda>build. qobs_try_assign (append_queues limits (sn_queues s) build)
    (\<lambda>build. qobs_try_assign (append_sources limits (sn_sources s) build)
    (\<lambda>build. qobs_try_assign (append_events limits (sn_events s) build)
    (append_metadata limits (sn_has_metadata s) (sn_metadata s)))))"

definition encode_snapshot :: "durable_snapshot \<Rightarrow> persistence_limits \<Rightarrow> u8 list result" where
  "encode_snapshot s limits =
     (if \<not> status_ok (validate_persistence_limits limits) then Inl (validate_persistence_limits limits)
      else if length (sn_runtime_id s) > kMaxRuntimeIdBytes
      then Inl (failure LimitExceeded ''runtime identifier exceeds the maximum persisted size'')
      else qobs_try_assign (encode_payload s limits) (\<lambda>(payload, record_count).
        case write_header (sn_policy_version s) (of_nat (length (sn_runtime_id s)))
               (rt_wall (sn_created s)) (rt_steady (sn_created s)) record_count
               (of_nat (length payload)) (crc32c payload) of
          None \<Rightarrow> Inl (failure Internal ''the persistence segment header could not be encoded'')
        | Some header \<Rightarrow> Inr (header @ bytes_of_text (sn_runtime_id s) @ payload)))"

end
