(* ===== verification/Segment_Decode.thy ===== *)
theory Segment_Decode
  imports Segment
begin

text \<open>
  The decoder of the persistence segment (\<^verbatim>\<open>src/persist/Format.cpp\<close>). A reader of a record takes
  the largest size a string field may have; a decoder that pushes into the snapshot as it reads leaves
  what it pushed there when it fails.
\<close>

unbundle bit_operations_syntax

section \<open>The records\<close>

definition create_name :: "name_tag \<Rightarrow> string \<Rightarrow> (string \<Rightarrow> 'a reader) \<Rightarrow> 'a reader" where
  "create_name tag t f =
     (case strong_name_create tag t of Inl e \<Rightarrow> (\<lambda>bs. None) | Inr name \<Rightarrow> f name)"

definition create_unless_empty :: "name_tag \<Rightarrow> string \<Rightarrow> (string \<Rightarrow> 'a reader) \<Rightarrow> 'a reader" where
  "create_unless_empty tag t f = (if t = [] then f [] else create_name tag t f)"

definition rd_optional :: "'a reader \<Rightarrow> 'a option reader" where
  "rd_optional m =
     read_then rd_u8 (\<lambda>present.
       if present \<noteq> 0 then read_then m (\<lambda>x. read_return (Some x)) else read_return None)"

definition create_optional :: "name_tag \<Rightarrow> string option \<Rightarrow> (string option \<Rightarrow> 'a reader) \<Rightarrow> 'a reader" where
  "create_optional tag t f =
     (case t of None \<Rightarrow> f None | Some name \<Rightarrow> create_name tag name (\<lambda>name. f (Some name)))"

fun read_values :: "sample_field list \<Rightarrow> (sample_field \<Rightarrow> u64) \<Rightarrow> (sample_field \<Rightarrow> u64) reader" where
  "read_values [] vals = read_return vals"
| "read_values (f # fs) vals = read_then rd_u64 (\<lambda>v. read_values fs (vals(f := v)))"

definition read_sample :: "u64 \<Rightarrow> durable_sample reader" where
  "read_sample max_field =
     read_then rd_i64 (\<lambda>observed.
     read_then (rd_name_id max_field) (\<lambda>domain.
     create_unless_empty ClockDomainTag domain (\<lambda>domain.
     read_then rd_i64 (\<lambda>wall.
     read_then rd_i64 (\<lambda>steady.
     read_then (rd_name_id max_field) (\<lambda>source.
     create_unless_empty SourceTag source (\<lambda>source.
     read_then (rd_name_id max_field) (\<lambda>incarnation.
     create_unless_empty IncarnationTag incarnation (\<lambda>incarnation.
     read_then rd_u64 (\<lambda>generation.
     read_then rd_u64 (\<lambda>sequence.
     read_then rd_u8 (\<lambda>authority.
     read_then rd_u64 (\<lambda>_.
     read_then rd_sample_bitmap (\<lambda>reported.
     read_then (read_values (filter (has_field reported) all_fields) (\<lambda>_. 0)) (\<lambda>vals.
     read_then rd_u8 (\<lambda>state.
     read_then rd_u8 (\<lambda>fresh.
     read_then rd_u8 (\<lambda>quality.
     read_then rd_i64 (\<lambda>age.
     read_if (\<not> unat state \<ge> kPressureStateCount) (read_return
       \<lparr>ds_observed = \<lparr>ot_ns = observed, ot_domain = domain\<rparr>, ds_received_wall = wall,
        ds_received_steady = steady, ds_source = source, ds_incarnation = incarnation,
        ds_generation = generation, ds_sequence = sequence, ds_authority = authority,
        ds_reported = reported, ds_values = vals, ds_state = all_states ! unat state,
        ds_freshness = fresh, ds_quality = quality, ds_age = age\<rparr>))))))))))))))))))))"

definition decode_queue_record :: "u64 \<Rightarrow> persistence_limits \<Rightarrow> durable_queue reader" where
  "decode_queue_record max_field limits =
     read_then (rd_name_id max_field) (\<lambda>device.
     read_then (rd_name_id max_field) (\<lambda>port.
     read_then rd_u32 (\<lambda>queue_id.
     create_name DeviceTag device (\<lambda>device.
     create_name PortTag port (\<lambda>port.
     read_then rd_u8 (\<lambda>classes_known.
     read_then (rd_optional rd_u16) (\<lambda>tc.
     read_then (rd_optional (rd_name_id max_field)) (\<lambda>sc.
     read_then rd_u8 (\<lambda>origin.
     read_then rd_u64 (\<lambda>metadata_revision.
     create_optional SchedulingClassTag sc (\<lambda>sc.
     read_then read_count (\<lambda>sample_count.
     read_if (\<not> (ucast sample_count :: u64) > max_segment_records limits)
       (read_then (rd_many (read_sample max_field) (unat sample_count)) (\<lambda>samples. read_return
         \<lparr>dq_queue = QueuePath device port queue_id,
          dq_classes = \<lparr>dc_traffic_class = tc, dc_scheduling_class = sc, dc_origin = origin,
            dc_metadata_revision = metadata_revision\<rparr>,
          dq_classes_known = (classes_known \<noteq> 0), dq_samples = samples\<rparr>))))))))))))))"

definition read_incarnation :: "u64 \<Rightarrow> (string \<times> u64) reader" where
  "read_incarnation max_field =
     read_then (rd_name_id max_field) (\<lambda>token.
     read_then rd_u64 (\<lambda>ordinal.
     create_name IncarnationTag token (\<lambda>token. read_return (token, ordinal))))"

definition read_source :: "u64 \<Rightarrow> durable_source reader" where
  "read_source max_field =
     read_then (rd_name_id max_field) (\<lambda>id.
     create_name SourceTag id (\<lambda>id.
     read_then rd_u8 (\<lambda>authority.
     read_then rd_u8 (\<lambda>declared.
     read_then (rd_name_id max_field) (\<lambda>incarnation.
     create_unless_empty IncarnationTag incarnation (\<lambda>incarnation.
     read_then rd_u64 (\<lambda>ordinal.
     read_then rd_u64 (\<lambda>sequence.
     read_then rd_u64 (\<lambda>generation.
     read_then (rd_name_id max_field) (\<lambda>domain.
     create_unless_empty ClockDomainTag domain (\<lambda>domain.
     read_then rd_i64 (\<lambda>first_wall.
     read_then rd_i64 (\<lambda>first_steady.
     read_then rd_i64 (\<lambda>last_wall.
     read_then rd_i64 (\<lambda>last_steady.
     read_then rd_u64 (\<lambda>accepted.
     read_then rd_u64 (\<lambda>fenced.
     read_then rd_u64 (\<lambda>duplicates.
     read_then rd_u64 (\<lambda>rejected.
     read_then rd_i64 (\<lambda>last_observed.
     read_then read_count (\<lambda>incarnation_count.
     read_then (rd_many (read_incarnation max_field) (unat incarnation_count)) (\<lambda>recent. read_return
       \<lparr>dr_id = id, dr_authority = authority, dr_declared_authority = declared,
        dr_incarnation = incarnation, dr_incarnation_ordinal = ordinal, dr_last_sequence = sequence,
        dr_generation = generation, dr_clock_domain = domain,
        dr_first_seen = \<lparr>rt_steady = first_steady, rt_wall = first_wall\<rparr>,
        dr_last_seen = \<lparr>rt_steady = last_steady, rt_wall = last_wall\<rparr>,
        dr_accepted = accepted, dr_fenced = fenced, dr_duplicates = duplicates,
        dr_rejected = rejected, dr_last_observed = u64_of_i64 last_observed,
        dr_recent_incarnations = recent\<rparr>))))))))))))))))))))))"

definition read_event :: "u64 \<Rightarrow> durable_event reader" where
  "read_event max_field =
     read_then rd_u8 (\<lambda>kind.
     read_then rd_u8 (\<lambda>severity.
     read_if (\<not> unat kind \<ge> kEventKindCount) (
     read_then rd_i64 (\<lambda>wall.
     read_then rd_i64 (\<lambda>steady.
     read_then rd_i64 (\<lambda>observed.
     read_then (rd_name_id max_field) (\<lambda>domain.
     read_then (rd_name_id max_field) (\<lambda>device.
     read_then (rd_name_id max_field) (\<lambda>port.
     read_then rd_u32 (\<lambda>queue_id.
     read_then (rd_name_id max_field) (\<lambda>source.
     read_then (rd_name_id max_field) (\<lambda>incarnation.
     read_then rd_u64 (\<lambda>sequence.
     read_then rd_u64 (\<lambda>revision.
     read_then (rd_string max_field 512) (\<lambda>detail.
     create_unless_empty ClockDomainTag domain (\<lambda>domain.
     create_unless_empty DeviceTag device (\<lambda>device.
     create_unless_empty PortTag port (\<lambda>port.
     create_unless_empty SourceTag source (\<lambda>source.
     create_unless_empty IncarnationTag incarnation (\<lambda>incarnation. read_return
       \<lparr>de_kind = all_kinds ! unat kind, de_severity = severity,
        de_received = \<lparr>rt_steady = steady, rt_wall = wall\<rparr>,
        de_observed = \<lparr>ot_ns = observed, ot_domain = domain\<rparr>,
        de_queue = QueuePath device port queue_id, de_source = source, de_incarnation = incarnation,
        de_sequence = sequence, de_revision = revision, de_detail = detail\<rparr>))))))))))))))))))))"

definition read_traffic :: "u64 \<Rightarrow> traffic_class_descriptor reader" where
  "read_traffic max_field =
     read_then rd_u16 (\<lambda>id.
     read_then (rd_string max_field 128) (\<lambda>name.
     read_then (rd_optional rd_u16) (\<lambda>dscp.
     read_then (rd_optional rd_u16) (\<lambda>pcp.
     read_then (rd_optional (rd_name_id max_field)) (\<lambda>sc.
     create_optional SchedulingClassTag sc (\<lambda>sc. read_return
       \<lparr>tcd_id = id, tcd_name = name, tcd_dscp = dscp, tcd_priority_code_point = pcp,
        tcd_scheduling_class = sc\<rparr>))))))"

definition read_scheduling :: "u64 \<Rightarrow> scheduling_class_descriptor reader" where
  "read_scheduling max_field =
     read_then (rd_name_id max_field) (\<lambda>id.
     read_then (rd_string max_field 64) (\<lambda>mode.
     create_name SchedulingClassTag id (\<lambda>id.
     read_then (rd_optional rd_u64) (\<lambda>weight. read_return
       \<lparr>scd_id = id, scd_mode = mode, scd_weight = weight\<rparr>))))"

definition read_binding :: "u64 \<Rightarrow> queue_class_binding reader" where
  "read_binding max_field =
     read_then (rd_name_id max_field) (\<lambda>device.
     read_then (rd_name_id max_field) (\<lambda>port.
     read_then rd_u32 (\<lambda>queue_id.
     create_name DeviceTag device (\<lambda>device.
     create_name PortTag port (\<lambda>port.
     read_then (rd_optional rd_u16) (\<lambda>tc.
     read_then (rd_optional (rd_name_id max_field)) (\<lambda>sc.
     create_optional SchedulingClassTag sc (\<lambda>sc. read_return
       \<lparr>qcb_queue = QueuePath device port queue_id, qcb_traffic_class = tc,
        qcb_scheduling_class = sc\<rparr>))))))))"

section \<open>The record kinds\<close>

text \<open>A counted list read into a list of the snapshot: the list after the loop and whether all of it
  was read, with the bytes that follow.\<close>

definition push_counted :: "'a reader \<Rightarrow> 'a list \<Rightarrow> u8 list \<Rightarrow> 'a list \<times> u8 list option" where
  "push_counted m xs bs =
     (case read_count bs of
        None \<Rightarrow> (xs, None)
      | Some (items, rest) \<Rightarrow> rd_pushing m (unat items) xs rest)"

definition decode_source_registry :: "u64 \<Rightarrow> u8 list \<Rightarrow> durable_snapshot \<Rightarrow> bool \<times> durable_snapshot" where
  "decode_source_registry max_field bs out =
     (case push_counted (read_source max_field) (sn_sources out) bs of
        (xs, rest) \<Rightarrow> (rest \<noteq> None, out\<lparr>sn_sources := xs\<rparr>))"

definition decode_event_batch :: "u64 \<Rightarrow> u8 list \<Rightarrow> durable_snapshot \<Rightarrow> bool \<times> durable_snapshot" where
  "decode_event_batch max_field bs out =
     (case push_counted (read_event max_field) (sn_events out) bs of
        (xs, rest) \<Rightarrow> (rest \<noteq> None, out\<lparr>sn_events := xs\<rparr>))"

text \<open>The lists of a metadata table.\<close>

definition decode_classes :: "u64 \<Rightarrow> u8 list \<Rightarrow> durable_metadata \<Rightarrow> bool \<times> durable_metadata" where
  "decode_classes max_field bs m =
     (case push_counted (read_traffic max_field) (dm_traffic_classes m) bs of
        (ts, None) \<Rightarrow> (False, m\<lparr>dm_traffic_classes := ts\<rparr>)
      | (ts, Some bs1) \<Rightarrow>
          (case push_counted (read_scheduling max_field) (dm_scheduling_classes m) bs1 of
             (ss, None) \<Rightarrow> (False, m\<lparr>dm_traffic_classes := ts, dm_scheduling_classes := ss\<rparr>)
           | (ss, Some bs2) \<Rightarrow>
               (case push_counted (read_binding max_field) (dm_bindings m) bs2 of
                  (qs, rest) \<Rightarrow>
                    (rest \<noteq> None,
                     m\<lparr>dm_traffic_classes := ts, dm_scheduling_classes := ss, dm_bindings := qs\<rparr>))))"

text \<open>The head of the table: revision, generation, source and authority are read together, then the
  two receive times one by one.\<close>

definition read_table_head :: "u64 \<Rightarrow> (u64 \<times> u64 \<times> string \<times> u8) reader" where
  "read_table_head max_field =
     read_then rd_u64 (\<lambda>revision.
     read_then rd_u64 (\<lambda>generation.
     read_then (rd_name_id max_field) (\<lambda>source.
     read_then rd_u8 (\<lambda>authority. read_return (revision, generation, source, authority)))))"

definition decode_table :: "u64 \<Rightarrow> u8 list \<Rightarrow> durable_metadata \<Rightarrow> bool \<times> durable_metadata" where
  "decode_table max_field bs m =
     (case read_table_head max_field bs of
        None \<Rightarrow> (False, m)
      | Some ((revision, generation, source, authority), bs1) \<Rightarrow>
          let m1 = m\<lparr>dm_revision := revision, dm_generation := generation\<rparr>
          in case strong_name_create SourceTag source of
            Inl e \<Rightarrow> (False, m1)
          | Inr name \<Rightarrow>
              let m2 = m1\<lparr>dm_source := name, dm_authority := authority\<rparr>
              in case rd_i64 bs1 of
                None \<Rightarrow> (False, m2)
              | Some (wall, bs2) \<Rightarrow>
                  let m3 = m2\<lparr>dm_received := (dm_received m2)\<lparr>rt_wall := wall\<rparr>\<rparr>
                  in case rd_i64 bs2 of
                    None \<Rightarrow> (False, m3)
                  | Some (steady, bs3) \<Rightarrow>
                      decode_classes max_field bs3
                        (m3\<lparr>dm_received := (dm_received m3)\<lparr>rt_steady := steady\<rparr>\<rparr>))"

definition decode_metadata_table :: "u64 \<Rightarrow> u8 list \<Rightarrow> durable_snapshot \<Rightarrow> bool \<times> durable_snapshot" where
  "decode_metadata_table max_field bs out =
     (case decode_table max_field bs (sn_metadata out) of
        (parsed, m) \<Rightarrow>
          (parsed, out\<lparr>sn_metadata := m, sn_has_metadata := sn_has_metadata out \<or> parsed\<rparr>))"

definition read_session :: "u64 \<Rightarrow> (string \<times> u32 \<times> string) reader" where
  "read_session max_field =
     read_then (rd_string max_field kMaxRuntimeIdBytes) (\<lambda>runtime_id.
     read_then rd_u32 (\<lambda>session_policy.
     read_then (rd_string max_field 128) (\<lambda>policy_name.
     read_then rd_i64 (\<lambda>wall.
     read_then rd_i64 (\<lambda>steady.
     read_then rd_u32 (\<lambda>declared_queues. read_return (runtime_id, session_policy, policy_name)))))))"

definition decode_value :: "persistence_limits \<Rightarrow> u8 \<Rightarrow> u8 list \<Rightarrow> durable_snapshot \<Rightarrow> bool \<times> durable_snapshot" where
  "decode_value limits type bs out =
     (case record_type_of type of
        Some SessionHeader \<Rightarrow>
          (case read_session (max_record_bytes limits) bs of
             None \<Rightarrow> (False, out)
           | Some ((runtime_id, session_policy, policy_name), _) \<Rightarrow>
               (True, out\<lparr>sn_runtime_id := (if runtime_id \<noteq> [] then runtime_id else sn_runtime_id out),
                 sn_policy_version := session_policy, sn_policy_name := policy_name\<rparr>))
      | Some QueueSnapshot \<Rightarrow>
          (case decode_queue_record (max_record_bytes limits) limits bs of
             None \<Rightarrow> (False, out)
           | Some (queue, _) \<Rightarrow> (True, out\<lparr>sn_queues := sn_queues out @ [queue]\<rparr>))
      | Some EventBatch \<Rightarrow> decode_event_batch (max_record_bytes limits) bs out
      | Some SourceRegistry \<Rightarrow> decode_source_registry (max_record_bytes limits) bs out
      | Some MetadataTable \<Rightarrow> decode_metadata_table (max_record_bytes limits) bs out
      | None \<Rightarrow> (False, out))"

section \<open>The loop over the records\<close>

definition read_record_header :: "(u32 \<times> u8 \<times> u8 \<times> u32) reader" where
  "read_record_header =
     read_then rd_u32 (\<lambda>stored_crc.
     read_then rd_u8 (\<lambda>type.
     read_then rd_u8 (\<lambda>record_flags.
     read_then rd_u16 (\<lambda>reserved.
     read_then rd_u32 (\<lambda>value_len. read_return (stored_crc, type, record_flags, value_len))))))"

definition damaged :: "string \<Rightarrow> decode_report \<Rightarrow> decode_report" where
  "damaged diagnostic r = r\<lparr>dp_integrity_failed := True, dp_diagnostic := diagnostic\<rparr>"

definition diagnose :: "string \<Rightarrow> decode_report \<Rightarrow> decode_report" where
  "diagnose diagnostic r =
     r\<lparr>dp_integrity_failed := True,
       dp_diagnostic := (if dp_diagnostic r = [] then diagnostic else dp_diagnostic r)\<rparr>"

definition mismatch_text :: "decode_report \<Rightarrow> u32 \<Rightarrow> u32 \<Rightarrow> u8 \<Rightarrow> u32 \<Rightarrow> string" where
  "mismatch_text r stored computed type value_len =
     ''record '' @ dec_u64 (dp_records_parsed r) @ '' checksum mismatch: stored='' @ to_hex (ucast stored) 8
     @ '' computed='' @ to_hex (ucast computed) 8 @ '' type='' @ dec_nat (unat type)
     @ '' value_bytes='' @ dec_nat (unat value_len)"

text \<open>One pass of the loop over the bytes from the current offset: the answer is either the end of the
  loop or the number of bytes to go on after.\<close>

definition decode_step ::
    "persistence_limits \<Rightarrow> u8 list \<Rightarrow> durable_snapshot \<times> decode_report
     \<Rightarrow> nat option \<times> durable_snapshot \<times> decode_report" where
  "decode_step limits bs state =
     (case state of (out, r) \<Rightarrow>
      case read_record_header bs of
        None \<Rightarrow> (None, out, damaged ''a record header is truncated'' (r\<lparr>dp_truncated := True\<rparr>))
      | Some ((stored_crc, type, record_flags, value_len), rest) \<Rightarrow>
          if unat value_len > unat (max_record_bytes limits)
          then (None, out, damaged ''a record declares a value larger than the configured limit'' r)
          else if kRecordHeaderSize + unat value_len > length bs
          then (None, out, damaged ''the final record is cut short by the end of the segment''
                  (r\<lparr>dp_truncated := True\<rparr>))
          else let bytes = take (unat value_len) rest;
                   crc = crc_value (crc_update
                     (crc_update crc_init (record_prefix type record_flags value_len)) bytes)
               in if crc \<noteq> stored_crc
                  then (None, out, damaged (mismatch_text r stored_crc crc type value_len)
                          (r\<lparr>dp_records_rejected := dp_records_rejected r + 1\<rparr>))
                  else case decode_value limits type bytes out of
                    (False, out') \<Rightarrow>
                      (None, out', diagnose ''a record could not be decoded''
                         (r\<lparr>dp_records_rejected := dp_records_rejected r + 1\<rparr>))
                  | (True, out') \<Rightarrow>
                      (Some (kRecordHeaderSize + unat value_len), out',
                       r\<lparr>dp_records_parsed := dp_records_parsed r + 1\<rparr>))"

lemma decode_step_advances:
  "decode_step limits bs state = (Some n, state') \<Longrightarrow> 0 < n \<and> n \<le> length bs"
  by (auto simp: decode_step_def Let_def kRecordHeaderSize_def split: prod.splits option.splits if_splits bool.splits)

function decode_records ::
    "persistence_limits \<Rightarrow> nat \<Rightarrow> u8 list \<Rightarrow> durable_snapshot \<times> decode_report
     \<Rightarrow> nat \<times> durable_snapshot \<times> decode_report" where
  "decode_records limits offset bs state =
     (if kRecordHeaderSize > length bs then (offset, state)
      else case decode_step limits bs state of
        (None, state') \<Rightarrow> (offset, state')
      | (Some n, state') \<Rightarrow> decode_records limits (offset + n) (drop n bs) state')"
  by pat_completeness auto
termination
proof (relation "measure (\<lambda>(limits, offset, bs, state). length bs)")
  fix limits offset bs state x y n
  assume "(x, y) = decode_step limits bs state" "x = Some n"
  then show "((limits, offset + n, drop n bs, y), limits, offset, bs, state)
      \<in> measure (\<lambda>(limits, offset, bs, state). length bs)"
    using decode_step_advances [of limits bs state n y] by auto
qed simp

declare decode_records.simps [simp del]

section \<open>The segment\<close>

record segment_header =
  sh_format_version :: u32
  sh_header_size :: u32
  sh_header_crc :: u32
  sh_policy_version :: u32
  sh_runtime_id_len :: u32
  sh_created_wall :: nanos
  sh_created_steady :: nanos
  sh_record_count :: u64
  sh_payload_bytes :: u64
  sh_payload_crc :: u32

definition read_header :: "segment_header reader" where
  "read_header =
     read_then rd_u32 (\<lambda>format_version.
     read_then rd_u32 (\<lambda>header_size.
     read_then rd_u32 (\<lambda>header_crc.
     read_then rd_u32 (\<lambda>policy_version.
     read_then rd_u32 (\<lambda>runtime_id_len.
     read_then rd_u32 (\<lambda>flags.
     read_then rd_i64 (\<lambda>created_wall.
     read_then rd_i64 (\<lambda>created_steady.
     read_then rd_u64 (\<lambda>record_count.
     read_then rd_u64 (\<lambda>payload_bytes.
     read_then rd_u32 (\<lambda>payload_crc.
     read_then rd_u32 (\<lambda>runtime_major.
     read_then rd_u32 (\<lambda>runtime_minor.
     read_then rd_u32 (\<lambda>runtime_patch. read_return
       \<lparr>sh_format_version = format_version, sh_header_size = header_size, sh_header_crc = header_crc,
        sh_policy_version = policy_version, sh_runtime_id_len = runtime_id_len,
        sh_created_wall = created_wall, sh_created_steady = created_steady,
        sh_record_count = record_count, sh_payload_bytes = payload_bytes,
        sh_payload_crc = payload_crc\<rparr>))))))))))))))"

definition payload_mismatch_text :: "u32 \<Rightarrow> u32 \<Rightarrow> nat \<Rightarrow> nat \<Rightarrow> nat \<Rightarrow> string" where
  "payload_mismatch_text stored computed usable_bytes segment body_start =
     ''the payload checksum does not match the stored value: stored='' @ to_hex (ucast stored) 8
     @ '' computed='' @ to_hex (ucast computed) 8 @ '' payload_bytes='' @ dec_nat usable_bytes
     @ '' segment_bytes='' @ dec_nat segment @ '' body_offset='' @ dec_nat body_start"

text \<open>The part after the header has been accepted.\<close>

definition finish_report :: "nat \<Rightarrow> nat \<Rightarrow> segment_header \<Rightarrow> decode_report \<Rightarrow> decode_report" where
  "finish_report offset usable_bytes h r0 =
     (let r1 = r0\<lparr>dp_bytes_consumed := of_nat offset\<rparr>;
          r2 = (if offset \<noteq> usable_bytes
                then diagnose ''the segment contains trailing bytes that are not part of a record'' r1 else r1)
      in if dp_records_parsed r2 < sh_record_count h
         then diagnose ''fewer records were readable than the header declares'' r2 else r2)"

definition decode_body ::
    "u8 list \<Rightarrow> persistence_limits \<Rightarrow> segment_header \<Rightarrow> decode_report \<Rightarrow> durable_snapshot \<times> decode_report" where
  "decode_body bytes limits h r =
     (let body_start = kSegmentHeaderSize + unat (sh_runtime_id_len h);
          out = empty_snapshot\<lparr>
            sn_runtime_id := text_of_bytes (take (unat (sh_runtime_id_len h)) (drop kSegmentHeaderSize bytes)),
            sn_created := \<lparr>rt_steady = sh_created_steady h, rt_wall = sh_created_wall h\<rparr>,
            sn_policy_version := sh_policy_version h\<rparr>;
          available = length bytes - body_start;
          short = unat (sh_payload_bytes h) > available;
          usable_bytes = (if short then available else unat (sh_payload_bytes h));
          r1 = (if short then r\<lparr>dp_truncated := True, dp_integrity_failed := True\<rparr> else r);
          payload = take usable_bytes (drop body_start bytes);
          computed = crc32c payload;
          r2 = (if computed \<noteq> sh_payload_crc h
                then diagnose (payload_mismatch_text (sh_payload_crc h) computed usable_bytes (length bytes) body_start)
                       (r1\<lparr>dp_payload_crc_valid := False\<rparr>)
                else r1\<lparr>dp_payload_crc_valid := True\<rparr>)
      in case decode_records limits 0 payload (out, r2) of
           (offset, out', r3) \<Rightarrow> (out', finish_report offset usable_bytes h r3))"

definition decode_refused :: "error_code \<Rightarrow> string \<Rightarrow> decode_report \<Rightarrow> status \<times> durable_snapshot \<times> decode_report" where
  "decode_refused code diagnostic r =
     (failure code diagnostic, empty_snapshot, r\<lparr>dp_diagnostic := diagnostic\<rparr>)"

definition decode_snapshot :: "u8 list \<Rightarrow> persistence_limits \<Rightarrow> status \<times> durable_snapshot \<times> decode_report" where
  "decode_snapshot bytes limits =
     (let r0 = empty_decode_report
      in if \<not> status_ok (validate_persistence_limits limits)
      then (validate_persistence_limits limits, empty_snapshot, r0)
      else if length bytes < kSegmentHeaderSize
      then decode_refused IntegrityFailure ''the segment is smaller than its fixed header'' r0
      else if take 8 bytes \<noteq> kSegmentMagic
      then decode_refused IntegrityFailure ''the segment magic does not match'' r0
      else let r1 = r0\<lparr>dp_magic_valid := True\<rparr>
      in case read_header (drop 8 bytes) of
        None \<Rightarrow> decode_refused IntegrityFailure ''the segment header is truncated'' r1
      | Some (h, _) \<Rightarrow>
          let r2 = r1\<lparr>dp_format_version := sh_format_version h, dp_created_wall := sh_created_wall h,
                 dp_records_declared := sh_record_count h, dp_bytes_declared := sh_payload_bytes h\<rparr>
          in if sh_header_size h \<noteq> of_nat kSegmentHeaderSize
          then decode_refused VersionMismatch ''the segment header declares an unexpected size'' r2
          else if crc32c (patch_crc 0 (take kSegmentHeaderSize bytes)) \<noteq> sh_header_crc h
          then decode_refused IntegrityFailure ''the segment header checksum does not match its contents'' r2
          else let r3 = r2\<lparr>dp_header_crc_valid := True\<rparr>
          in if sh_format_version h \<noteq> kPersistenceFormatVersion
          then decode_refused VersionMismatch ''the segment was written in an unsupported format version'' r3
          else let r4 = r3\<lparr>dp_version_supported := True\<rparr>
          in if unat (sh_runtime_id_len h) > kMaxRuntimeIdBytes
          then decode_refused IntegrityFailure ''the segment declares an oversized runtime identifier'' r4
          else if kSegmentHeaderSize + unat (sh_runtime_id_len h) > length bytes
          then (success, empty_snapshot,
                r4\<lparr>dp_truncated := True, dp_integrity_failed := True,
                   dp_diagnostic := ''the segment ends before its runtime identifier is complete''\<rparr>)
          else case decode_body bytes limits h r4 of (out, r) \<Rightarrow> (success, out, r))"

end
