(* ===== verification/Segment_Roundtrip.thy ===== *)
theory Segment_Roundtrip
  imports Segment_Decode
begin

text \<open>
  What the encoder of a segment lays out and the decoder reads back: an interpretation of the locale
  \<open>codec\<close> for each kind of entry, the frame of a record, and the payload as the list of its records.
\<close>

unbundle bit_operations_syntax

section \<open>Entries\<close>

definition name_fits :: "name_tag \<Rightarrow> string \<Rightarrow> bool" where
  "name_fits tag t \<longleftrightarrow> t = [] \<or> name_ok tag t"

definition optional_fits :: "string option \<Rightarrow> bool" where
  "optional_fits t \<longleftrightarrow> (case t of None \<Rightarrow> True | Some name \<Rightarrow> name_ok SchedulingClassTag name)"

definition time_fits :: "receive_time \<Rightarrow> bool" where
  "time_fits t \<longleftrightarrow> is_i64 (rt_wall t) \<and> is_i64 (rt_steady t)"

definition path_fits :: "queue_path \<Rightarrow> bool" where
  "path_fits p \<longleftrightarrow> name_ok DeviceTag (qp_device p) \<and> name_ok PortTag (qp_port p)"

text \<open>The largest string of a segment is the detail of an event.\<close>

definition field_room :: "u64 \<Rightarrow> bool" where
  "field_room max_field \<longleftrightarrow> 512 \<le> unat max_field"

lemma create_name_fits [simp]: "name_ok tag t \<Longrightarrow> create_name tag t f = f t"
  using strong_name_create_Inr [of tag t t] by (simp add: create_name_def)

lemma create_unless_empty_fits [simp]: "name_fits tag t \<Longrightarrow> create_unless_empty tag t f = f t"
  by (auto simp: create_unless_empty_def name_fits_def)

lemma create_optional_fits [simp]: "optional_fits t \<Longrightarrow> create_optional SchedulingClassTag t f = f t"
  by (auto simp: create_optional_def optional_fits_def split: option.splits)

lemma name_ok_length: "name_ok tag t \<Longrightarrow> length t \<le> 128"
  by (simp add: name_ok_def kMaxIdentityLength_def)

lemma rd_name_fits [reads_back]:
  assumes "name_fits tag v" "field_room max_field"
  shows "rd_name_id max_field (le_bytes 4 (of_nat (length v) :: u32) @ bytes_of_text v @ rest) = Some (v, rest)"
  using assms name_ok_length [of tag v] by (intro rd_name_id_back) (auto simp: name_fits_def field_room_def)

lemma rd_name_ok [reads_back]:
  assumes "name_ok tag v" "field_room max_field"
  shows "rd_name_id max_field (le_bytes 4 (of_nat (length v) :: u32) @ bytes_of_text v @ rest) = Some (v, rest)"
  using assms rd_name_fits [of tag v] by (simp add: name_fits_def)

lemma rd_string_fits [reads_back]:
  assumes "length v \<le> n" "n \<le> 512" "field_room max_field"
  shows "rd_string max_field n (le_bytes 4 (of_nat (length v) :: u32) @ bytes_of_text v @ rest) = Some (v, rest)"
  using assms by (intro rd_string_back) (auto simp: field_room_def)

lemma rd_optional_u16 [reads_back]:
  "rd_optional rd_u16 (puts_bytes (optional_puts Put_U16 v) @ rest) = Some (v, rest)"
  by (cases v) (simp_all add: rd_optional_def optional_puts_def reads_back)

lemma rd_optional_u64 [reads_back]:
  "rd_optional rd_u64 (puts_bytes (optional_puts Put_U64 v) @ rest) = Some (v, rest)"
  by (cases v) (simp_all add: rd_optional_def optional_puts_def reads_back)

lemma rd_optional_name [reads_back]:
  assumes "optional_fits v" "field_room max_field"
  shows "rd_optional (rd_name_id max_field) (puts_bytes (optional_puts Put_Name v) @ rest) = Some (v, rest)"
  using assms rd_name_ok
  by (cases v) (auto simp: rd_optional_def optional_puts_def optional_fits_def rd_u8_back)

lemma read_values_back:
  "distinct fs \<Longrightarrow>
   read_values fs vals (puts_bytes (map (\<lambda>f. Put_U64 (v f)) fs) @ rest)
     = Some (\<lambda>f. if f \<in> set fs then v f else vals f, rest)"
proof (induction fs arbitrary: vals)
  case (Cons f fs)
  then show ?case by (simp add: rd_u64_back fun_eq_iff)
qed simp

lemma state_back: "\<not> 10 \<le> unat (state_byte s)" "all_states ! unat (state_byte s) = s"
  by (cases s; simp add: all_states_def)+

lemma kind_back: "\<not> 27 \<le> unat (kind_byte k)" "all_kinds ! unat (kind_byte k) = k"
  by (cases k; simp add: all_kinds_def)+

lemma kind_count: "kEventKindCount = 27"
  by (simp add: kEventKindCount_def all_kinds_def)

declare put_bytes.simps(8) [simp del]

definition sample_fits :: "durable_sample \<Rightarrow> bool" where
  "sample_fits s \<longleftrightarrow>
     is_i64 (ot_ns (ds_observed s)) \<and> name_fits ClockDomainTag (ot_domain (ds_observed s))
     \<and> is_i64 (ds_received_wall s) \<and> is_i64 (ds_received_steady s)
     \<and> name_fits SourceTag (ds_source s) \<and> name_fits IncarnationTag (ds_incarnation s)
     \<and> mask_wf (ds_reported s) \<and> is_i64 (ds_age s)
     \<and> (\<forall>f. \<not> (f \<noteq> Count \<and> has_field (ds_reported s) f) \<longrightarrow> ds_values s f = 0)"

lemma read_sample_back:
  assumes "sample_fits s" "field_room max_field"
  shows "read_sample max_field (puts_bytes (sample_puts s) @ rest) = Some (s, rest)"
proof -
  have vals: "(\<lambda>f. if f \<in> set (filter (has_field (ds_reported s)) all_fields) then ds_values s f else 0) = ds_values s"
    using assms(1) all_fields_facts(4) by (auto simp: sample_fits_def fun_eq_iff)
  have fits: "is_i64 (ot_ns (ds_observed s))" "name_fits ClockDomainTag (ot_domain (ds_observed s))"
    "is_i64 (ds_received_wall s)" "is_i64 (ds_received_steady s)" "name_fits SourceTag (ds_source s)"
    "name_fits IncarnationTag (ds_incarnation s)" "mask_wf (ds_reported s)" "is_i64 (ds_age s)"
    using assms(1) by (simp_all add: sample_fits_def)
  note values_read = read_values_back [of "filter (has_field (ds_reported s)) all_fields" "\<lambda>_. 0" "ds_values s",
      unfolded vals, OF distinct_filter [OF all_fields_facts(2)]]
  show ?thesis
    using fits assms(2)
    by (simp add: sample_puts_def read_sample_def reads_back
        rd_name_fits [of ClockDomainTag] rd_name_fits [of SourceTag] rd_name_fits [of IncarnationTag]
        values_read state_back kPressureStateCount_def)
qed

lemma puts_bytes_nonempty: "puts_bytes (p # ps) \<noteq> []"
proof -
  have "length (put_bytes p) > 0" by (cases p) (simp_all add: put_bytes.simps(8) Let_def)
  then show ?thesis by auto
qed

interpretation samples: codec sample_puts "read_sample max_field" "\<lambda>s. sample_fits s \<and> field_room max_field"
    for max_field
proof
  show "puts_bytes (sample_puts s) \<noteq> []" for s
    unfolding sample_puts_def append_Cons by (rule puts_bytes_nonempty)
qed (simp add: read_sample_back)

definition incarnation_fits :: "string \<times> u64 \<Rightarrow> bool" where
  "incarnation_fits entry \<longleftrightarrow> name_ok IncarnationTag (fst entry)"

interpretation incarnations: codec incarnation_puts "read_incarnation max_field"
    "\<lambda>e. incarnation_fits e \<and> field_room max_field" for max_field
proof
  show "puts_bytes (incarnation_puts e) \<noteq> []" for e
    unfolding incarnation_puts_def by (rule puts_bytes_nonempty)
qed (auto simp: incarnation_puts_def read_incarnation_def incarnation_fits_def reads_back)

lemma u64_of_i64_of_u64 [simp]: "u64_of_i64 (i64_of_u64 v) = v"
proof -
  have "wrap_i64 (uint v) mod 2 ^ 64 = uint v mod 2 ^ 64"
    unfolding wrap_i64_def by (simp add: mod_diff_left_eq)
  moreover have "uint v mod 2 ^ 64 = uint v" using uint_lt2p [of v] by simp
  ultimately show ?thesis
    by (intro word_uint_eqI) (simp add: u64_of_i64_def i64_of_u64_def uint_word_of_int)
qed

lemma is_i64_of_u64 [simp]: "is_i64 (i64_of_u64 v)"
  by (simp add: i64_of_u64_def wrap_i64_range)

lemma rd_i64_raw: "rd_i64 (le_bytes 8 (v :: u64) @ rest) = Some (i64_of_u64 v, rest)"
  by (simp add: rd_i64_def rd_u64_back)

text \<open>A counted list that was written whole: the count is not more than the bytes after it.\<close>

context codec
begin

lemma counted_back:
  assumes "list_all valid xs" "length xs < 2 ^ 32"
  shows "read_count (put_bytes (count_put xs) @ puts_bytes (concat (map puts xs)) @ rest)
           = Some (of_nat (length xs), puts_bytes (concat (map puts xs)) @ rest)"
    "rd_many rd (unat (of_nat (length xs) :: u32)) (puts_bytes (concat (map puts xs)) @ rest) = Some (xs, rest)"
  using assms list_not_longer [of xs]
  by (simp_all add: count_put_def many_back unat_of_nat read_count_back)

lemma push_back:
  assumes "list_all valid xs" "length xs < 2 ^ 32"
  shows "push_counted rd ys (put_bytes (count_put xs) @ puts_bytes (concat (map puts xs)) @ rest)
           = (ys @ xs, Some rest)"
  using assms counted_back(1) [OF assms] by (simp add: push_counted_def pushing_back unat_of_nat)

end

section \<open>Queues, sources, events, metadata\<close>

text \<open>The lists of a record that was accepted are shorter than its bytes.\<close>

definition list_fits :: "'a list \<Rightarrow> bool" where
  "list_fits xs \<longleftrightarrow> length xs < 2 ^ 32"

definition queue_fits :: "u64 \<Rightarrow> durable_queue \<Rightarrow> bool" where
  "queue_fits max_records q \<longleftrightarrow>
     path_fits (dq_queue q) \<and> optional_fits (dc_scheduling_class (dq_classes q))
     \<and> list_all sample_fits (dq_samples q) \<and> list_fits (dq_samples q)
     \<and> length (dq_samples q) \<le> unat max_records"

lemma decode_queue_back:
  assumes "queue_fits (max_segment_records limits) q" "field_room max_field"
  shows "decode_queue_record max_field limits (puts_bytes (queue_puts q) @ rest) = Some (q, rest)"
proof -
  have fits: "name_ok DeviceTag (qp_device (dq_queue q))" "name_ok PortTag (qp_port (dq_queue q))"
    "optional_fits (dc_scheduling_class (dq_classes q))"
    using assms(1) by (simp_all add: queue_fits_def path_fits_def)
  have len: "length (dq_samples q) < 2 ^ 32" "length (dq_samples q) \<le> unat (max_segment_records limits)"
    using assms(1) by (simp_all add: queue_fits_def list_fits_def)
  have list: "list_all (\<lambda>s. sample_fits s \<and> field_room max_field) (dq_samples q)"
    using assms by (auto simp: queue_fits_def list_all_iff)
  have "\<not> max_segment_records limits < (ucast (of_nat (length (dq_samples q)) :: u32) :: u64)"
    using len le_trans [OF take_bit_nat_less_eq_self [of 64 "length (dq_samples q)"]]
    by (simp add: word_less_nat_alt unat_of_nat unsigned_ucast_eq not_less)
  then show ?thesis
    using fits assms(2) samples.counted_back [OF list len(1)]
    by (simp add: queue_puts_def decode_queue_record_def reads_back rd_name_ok [of DeviceTag] rd_name_ok [of PortTag])
qed

definition source_fits :: "durable_source \<Rightarrow> bool" where
  "source_fits s \<longleftrightarrow>
     name_ok SourceTag (dr_id s) \<and> name_fits IncarnationTag (dr_incarnation s)
     \<and> name_fits ClockDomainTag (dr_clock_domain s) \<and> time_fits (dr_first_seen s)
     \<and> time_fits (dr_last_seen s) \<and> list_all incarnation_fits (dr_recent_incarnations s)
     \<and> list_fits (dr_recent_incarnations s)"

lemma read_source_back:
  assumes "source_fits s" "field_room max_field"
  shows "read_source max_field (puts_bytes (source_puts s) @ rest) = Some (s, rest)"
proof -
  have list: "list_all (\<lambda>e. incarnation_fits e \<and> field_room max_field) (dr_recent_incarnations s)"
    "length (dr_recent_incarnations s) < 2 ^ 32"
    using assms by (auto simp: source_fits_def list_all_iff list_fits_def)
  have fits: "name_ok SourceTag (dr_id s)" "name_fits IncarnationTag (dr_incarnation s)"
    "name_fits ClockDomainTag (dr_clock_domain s)"
    "is_i64 (rt_wall (dr_first_seen s))" "is_i64 (rt_steady (dr_first_seen s))"
    "is_i64 (rt_wall (dr_last_seen s))" "is_i64 (rt_steady (dr_last_seen s))"
    using assms by (auto simp: source_fits_def time_fits_def)
  show ?thesis
    using fits assms(2) incarnations.counted_back [OF list]
    by (simp add: source_puts_def read_source_def reads_back rd_i64_raw i64_of_u64_of_i64 rd_name_ok [of SourceTag]
        rd_name_fits [of IncarnationTag] rd_name_fits [of ClockDomainTag])
qed

interpretation sources: codec source_puts "read_source max_field" "\<lambda>s. source_fits s \<and> field_room max_field"
    for max_field
proof
  show "puts_bytes (source_puts s) \<noteq> []" for s
    unfolding source_puts_def append_Cons by (rule puts_bytes_nonempty)
qed (simp add: read_source_back)

definition event_fits :: "durable_event \<Rightarrow> bool" where
  "event_fits e \<longleftrightarrow>
     time_fits (de_received e) \<and> is_i64 (ot_ns (de_observed e))
     \<and> name_fits ClockDomainTag (ot_domain (de_observed e))
     \<and> name_fits DeviceTag (qp_device (de_queue e)) \<and> name_fits PortTag (qp_port (de_queue e))
     \<and> name_fits SourceTag (de_source e) \<and> name_fits IncarnationTag (de_incarnation e)
     \<and> length (de_detail e) \<le> 512"

lemma read_event_back:
  assumes "event_fits e" "field_room max_field"
  shows "read_event max_field (puts_bytes (event_puts e) @ rest) = Some (e, rest)"
proof -
  have fits: "is_i64 (rt_wall (de_received e))" "is_i64 (rt_steady (de_received e))"
    "is_i64 (ot_ns (de_observed e))" "name_fits ClockDomainTag (ot_domain (de_observed e))"
    "name_fits DeviceTag (qp_device (de_queue e))" "name_fits PortTag (qp_port (de_queue e))"
    "name_fits SourceTag (de_source e)" "name_fits IncarnationTag (de_incarnation e)"
    "length (de_detail e) \<le> 512"
    using assms by (auto simp: event_fits_def time_fits_def)
  show ?thesis
    using fits assms(2)
    by (simp add: event_puts_def read_event_def reads_back kind_back kind_count
        rd_name_fits [of ClockDomainTag] rd_name_fits [of DeviceTag] rd_name_fits [of PortTag]
        rd_name_fits [of SourceTag] rd_name_fits [of IncarnationTag])
qed

interpretation events: codec event_puts "read_event max_field" "\<lambda>e. event_fits e \<and> field_room max_field"
    for max_field
proof
  show "puts_bytes (event_puts e) \<noteq> []" for e
    unfolding event_puts_def by (rule puts_bytes_nonempty)
qed (simp add: read_event_back)

definition traffic_fits :: "traffic_class_descriptor \<Rightarrow> bool" where
  "traffic_fits d \<longleftrightarrow> length (tcd_name d) \<le> 128 \<and> optional_fits (tcd_scheduling_class d)"

interpretation traffic: codec traffic_puts "read_traffic max_field" "\<lambda>d. traffic_fits d \<and> field_room max_field"
    for max_field
proof
  show "puts_bytes (traffic_puts d) \<noteq> []" for d
    unfolding traffic_puts_def append_Cons by (rule puts_bytes_nonempty)
qed (simp add: traffic_puts_def read_traffic_def traffic_fits_def reads_back)

definition scheduling_fits :: "scheduling_class_descriptor \<Rightarrow> bool" where
  "scheduling_fits d \<longleftrightarrow> name_ok SchedulingClassTag (scd_id d) \<and> length (scd_mode d) \<le> 64"

interpretation scheduling: codec scheduling_puts "read_scheduling max_field"
    "\<lambda>d. scheduling_fits d \<and> field_room max_field" for max_field
proof
  show "puts_bytes (scheduling_puts d) \<noteq> []" for d
    unfolding scheduling_puts_def append_Cons by (rule puts_bytes_nonempty)
qed (simp add: scheduling_puts_def read_scheduling_def scheduling_fits_def reads_back
    rd_name_ok [of SchedulingClassTag])

definition binding_fits :: "queue_class_binding \<Rightarrow> bool" where
  "binding_fits b \<longleftrightarrow> path_fits (qcb_queue b) \<and> optional_fits (qcb_scheduling_class b)"

interpretation bindings: codec binding_puts "read_binding max_field" "\<lambda>b. binding_fits b \<and> field_room max_field"
    for max_field
proof
  show "puts_bytes (binding_puts b) \<noteq> []" for b
    unfolding binding_puts_def append_Cons by (rule puts_bytes_nonempty)
qed (simp add: binding_puts_def read_binding_def binding_fits_def path_fits_def reads_back
    rd_name_ok [of DeviceTag] rd_name_ok [of PortTag])

definition metadata_fits :: "durable_metadata \<Rightarrow> bool" where
  "metadata_fits m \<longleftrightarrow>
     name_ok SourceTag (dm_source m) \<and> time_fits (dm_received m)
     \<and> list_all traffic_fits (dm_traffic_classes m) \<and> list_fits (dm_traffic_classes m)
     \<and> list_all scheduling_fits (dm_scheduling_classes m) \<and> list_fits (dm_scheduling_classes m)
     \<and> list_all binding_fits (dm_bindings m) \<and> list_fits (dm_bindings m)"

lemma decode_classes_back:
  assumes "metadata_fits m" "field_room max_field"
    and "dm_traffic_classes m0 = []" "dm_scheduling_classes m0 = []" "dm_bindings m0 = []"
  shows "decode_classes max_field
      (put_bytes (count_put (dm_traffic_classes m)) @ puts_bytes (concat (map traffic_puts (dm_traffic_classes m)))
       @ put_bytes (count_put (dm_scheduling_classes m))
       @ puts_bytes (concat (map scheduling_puts (dm_scheduling_classes m)))
       @ put_bytes (count_put (dm_bindings m)) @ puts_bytes (concat (map binding_puts (dm_bindings m))) @ rest) m0
    = (True, m0\<lparr>dm_traffic_classes := dm_traffic_classes m, dm_scheduling_classes := dm_scheduling_classes m,
               dm_bindings := dm_bindings m\<rparr>)"
proof -
  have lists: "list_all (\<lambda>d. traffic_fits d \<and> field_room max_field) (dm_traffic_classes m)"
    "list_all (\<lambda>d. scheduling_fits d \<and> field_room max_field) (dm_scheduling_classes m)"
    "list_all (\<lambda>d. binding_fits d \<and> field_room max_field) (dm_bindings m)"
    using assms by (auto simp: metadata_fits_def list_all_iff)
  have lens: "length (dm_traffic_classes m) < 2 ^ 32" "length (dm_scheduling_classes m) < 2 ^ 32"
    "length (dm_bindings m) < 2 ^ 32"
    using assms by (auto simp: metadata_fits_def list_fits_def)
  show ?thesis
    unfolding decode_classes_def
    by (simp add: assms traffic.push_back [OF lists(1) lens(1)] scheduling.push_back [OF lists(2) lens(2)]
        bindings.push_back [OF lists(3) lens(3)])
qed

lemma decode_table_back:
  assumes "metadata_fits m" "field_room max_field"
  shows "decode_table max_field (puts_bytes (metadata_puts m) @ rest) empty_durable_metadata = (True, m)"
proof -
  have fits: "name_ok SourceTag (dm_source m)" "is_i64 (rt_wall (dm_received m))" "is_i64 (rt_steady (dm_received m))"
    using assms by (auto simp: metadata_fits_def time_fits_def)
  show ?thesis
    using fits strong_name_create_Inr [of SourceTag "dm_source m" "dm_source m"]
    by (simp add: metadata_puts_def decode_table_def read_table_head_def reads_back assms(2) Let_def
        rd_name_ok [of SourceTag] decode_classes_back [OF assms] empty_durable_metadata_def zero_receive_def)
qed

section \<open>Frames\<close>

type_synonym segment_record = "record_type \<times> u8 list"

definition frame :: "segment_record \<Rightarrow> u8 list" where
  "frame r =
     (let prefix = record_prefix (record_type_byte (fst r)) 0 (of_nat (length (snd r)))
      in le_bytes 4 (crc32c (prefix @ snd r)) @ prefix @ snd r)"

lemma length_record_prefix [simp]: "length (record_prefix t f n) = 8"
  by (simp add: record_prefix_def)

lemma length_frame: "length (frame r) = 12 + length (snd r)"
  by (simp add: frame_def Let_def)

lemma crc_two_chunks: "crc_value (crc_update (crc_update crc_init a) b) = crc32c (a @ b)"
  by (simp add: crc_value_def crc_update_def crc_init_def crc32c_def)

end
