(* ===== verification/Segment_Frames.thy ===== *)
theory Segment_Frames
  imports Segment_Roundtrip
begin

text \<open>
  The payload of a segment as the list of its framed records: what the encoder appends, what the
  loop of the decoder does with whole frames and with a frame that was cut, and what the decoder
  makes of the records of a snapshot.
\<close>

unbundle bit_operations_syntax

lemma append_record_frame:
  assumes "append_record payload type bytes max_bytes = Some payload'"
    and "length payload \<le> unat max_bytes"
  shows "payload' = payload @ frame (type, bytes) \<and> length bytes < 2 ^ 32 \<and> length payload' \<le> unat max_bytes"
proof -
  define prefix where "prefix = record_prefix (record_type_byte type) 0 (of_nat (length bytes))"
  define crc where "crc = crc32c (prefix @ bytes)"
  define w0 where "w0 = new_byte_writer payload max_bytes"
  define w where "w = bw_raw bytes (bw_raw prefix (bw_raw (le_bytes 4 crc) w0))"
  have "append_record payload type bytes max_bytes =
      (if length bytes > unat max_bytes \<or> length bytes > 0xFFFFFFFF then None else written_bytes w)"
    by (simp only: append_record_def Let_def crc_two_chunks bw_u32_def prefix_def crc_def w0_def w_def)
  then have small: "length bytes \<le> 0xFFFFFFFF" and ok: "bw_ok w" and out: "payload' = bw_out w"
    using assms(1) by (simp_all add: written_bytes_def split: if_splits)
  have "emits (\<lambda>w. bw_raw bytes (bw_raw prefix (bw_raw (le_bytes 4 crc) w))) ((le_bytes 4 crc @ prefix) @ bytes)"
    by (rule emits_then [OF emits_then [OF emits_raw emits_raw] emits_raw])
  then have w: "w = w0\<lparr>bw_out := bw_out w0 @ (le_bytes 4 crc @ prefix) @ bytes\<rparr>"
    using ok unfolding emits_def w_def by blast
  have "length (bw_out w0) \<le> unat (bw_max_bytes w0)" using assms(2) by (simp add: w0_def new_byte_writer_def)
  then have "length (bw_out w) \<le> unat (bw_max_bytes w)"
    unfolding w_def by (intro bw_raw_bounded) (use small in \<open>simp_all add: prefix_def\<close>)
  then have "length payload' \<le> unat max_bytes" unfolding out by (simp add: w w0_def new_byte_writer_def)
  moreover have "payload' = payload @ frame (type, bytes)"
    unfolding out by (simp add: w w0_def frame_def Let_def new_byte_writer_def crc_def prefix_def)
  ultimately show ?thesis using small by simp
qed

section \<open>The records of a snapshot\<close>

definition segment_records :: "durable_snapshot \<Rightarrow> segment_record list" where
  "segment_records s =
     [(SessionHeader, puts_bytes (session_puts s))]
     @ map (\<lambda>q. (QueueSnapshot, puts_bytes (queue_puts q))) (sn_queues s)
     @ (if sn_sources s = [] then []
        else [(SourceRegistry, puts_bytes (count_put (sn_sources s) # concat (map source_puts (sn_sources s))))])
     @ (if sn_events s = [] then []
        else [(EventBatch, puts_bytes (count_put (sn_events s) # concat (map event_puts (sn_events s))))])
     @ (if \<not> sn_has_metadata s then [] else [(MetadataTable, puts_bytes (metadata_puts (sn_metadata s)))])"

text \<open>A build in progress holds the frames of the records appended so far.\<close>

definition record_small :: "persistence_limits \<Rightarrow> segment_record \<Rightarrow> bool" where
  "record_small limits r \<longleftrightarrow> length (snd r) \<le> unat (max_record_bytes limits) \<and> length (snd r) < 2 ^ 32"

definition builds :: "persistence_limits \<Rightarrow> segment_record list \<Rightarrow> segment_build \<Rightarrow> bool" where
  "builds limits rs build \<longleftrightarrow>
     fst build = concat (map frame rs) \<and> unat (snd build) = length rs
     \<and> length (fst build) \<le> unat (max_segment_bytes limits) \<and> list_all (record_small limits) rs"

lemma append_segment_builds:
  assumes "append_segment limits type bytes build = Inr build'" "builds limits rs build"
  shows "builds limits (rs @ [(type, bytes)]) build'"
proof -
  have size: "length bytes \<le> unat (max_record_bytes limits)" "snd build < max_segment_records limits"
    using assms(1) by (auto simp: append_segment_def split: if_splits)
  then obtain payload where p: "append_record (fst build) type bytes (max_segment_bytes limits) = Some payload"
      "build' = (payload, snd build + 1)"
    using assms(1) by (auto simp: append_segment_def split: option.splits if_splits)
  have count: "unat (snd build) = length rs" using assms(2) by (simp add: builds_def)
  then have "length rs < unat (max_segment_records limits)" using size(2) by (simp add: word_less_nat_alt)
  then have "Suc (length rs) < 18446744073709551616"
    using unat_u64_bound [of "max_segment_records limits"] by (meson le_less_trans Suc_leI)
  then have "unat (snd build + 1) = length rs + 1"
    using count by (simp add: unat_word_ariths)
  then show ?thesis
    using p size(1) assms(2) append_record_frame [OF p(1)] by (auto simp: builds_def record_small_def)
qed

lemma append_puts_builds:
  assumes "append_puts limits type ps n e build = Inr build'" "builds limits rs build"
  shows "builds limits (rs @ [(type, puts_bytes ps)]) build'"
  using assms written_puts [of ps "[]" n] append_segment_builds
  by (fastforce simp: append_puts_def split: option.splits)

lemma append_optional_builds:
  assumes "(if absent then Inr build else append_puts limits type ps n e build) = Inr build'"
    and "builds limits rs build"
  shows "builds limits (rs @ (if absent then [] else [(type, puts_bytes ps)])) build'"
  using assms append_puts_builds [of limits type ps n e build build' rs] by (auto split: if_splits)

lemma append_queues_builds:
  "append_queues limits qs build = Inr build' \<Longrightarrow> builds limits rs build \<Longrightarrow>
   builds limits (rs @ map (\<lambda>q. (QueueSnapshot, puts_bytes (queue_puts q))) qs) build'"
proof (induction qs arbitrary: build rs)
  case (Cons q qs)
  from Cons.prems(1) obtain bytes where b: "encode_queue_record q limits = Some bytes"
    by (auto split: option.splits)
  with Cons.prems(1) obtain build1 where
    b1: "append_segment limits QueueSnapshot bytes build = Inr build1" "append_queues limits qs build1 = Inr build'"
    by (auto simp: qobs_try_assign_def split: sum.splits)
  have "bytes = puts_bytes (queue_puts q)"
    using b written_puts [of "queue_puts q" "[]" "max_record_bytes limits"]
    by (auto simp: encode_queue_record_def split: if_splits)
  then show ?case
    using Cons.IH [OF b1(2) append_segment_builds [OF b1(1) Cons.prems(2)]] by simp
qed simp

lemma encode_payload_records:
  assumes "encode_payload s limits = Inr build"
  shows "builds limits (segment_records s) build"
proof -
  obtain b1 b2 b3 b4 where steps:
    "append_puts limits SessionHeader (session_puts s) (max_record_bytes limits)
         (failure Internal ''failed to encode the session header record'') ([], 0) = Inr b1"
    "append_queues limits (sn_queues s) b1 = Inr b2" "append_sources limits (sn_sources s) b2 = Inr b3"
    "append_events limits (sn_events s) b3 = Inr b4"
    "append_metadata limits (sn_has_metadata s) (sn_metadata s) b4 = Inr build"
    using assms by (auto simp: encode_payload_def qobs_try_assign_def split: sum.splits)
  have "builds limits [] ([], 0)" by (simp add: builds_def)
  from append_queues_builds [OF steps(2) append_puts_builds [OF steps(1) this]]
  have q: "builds limits ([(SessionHeader, puts_bytes (session_puts s))]
      @ map (\<lambda>q. (QueueSnapshot, puts_bytes (queue_puts q))) (sn_queues s)) b2" by simp
  from append_optional_builds [OF steps(5) [unfolded append_metadata_def]
      append_optional_builds [OF steps(4) [unfolded append_events_def]
        append_optional_builds [OF steps(3) [unfolded append_sources_def] q]]]
  show ?thesis unfolding segment_records_def by simp
qed

section \<open>The loop on whole and on cut frames\<close>

lemma record_type_of_byte [simp]: "record_type_of (record_type_byte t) = Some t"
  by (cases t) (simp_all add: record_type_of_def)

lemma read_frame_header:
  "read_record_header (frame r @ rest) =
     Some ((crc32c (record_prefix (record_type_byte (fst r)) 0 (of_nat (length (snd r))) @ snd r),
            record_type_byte (fst r), 0, of_nat (length (snd r))), snd r @ rest)"
proof -
  have "(0 :: u8) # 0 # xs = le_bytes 2 (0 :: u16) @ xs" for xs by (simp add: le_bytes_2)
  then show ?thesis
    by (simp add: read_record_header_def frame_def Let_def record_prefix_def reads_back)
qed

text \<open>What a frame does to the state of the decoder.\<close>

definition apply_record :: "persistence_limits \<Rightarrow> segment_record \<Rightarrow> durable_snapshot \<Rightarrow> bool \<times> durable_snapshot" where
  "apply_record limits r out = decode_value limits (record_type_byte (fst r)) (snd r) out"

lemma decode_step_frame:
  assumes "record_small limits r" "apply_record limits r out = (True, out')"
  shows "decode_step limits (frame r @ rest) (out, rep) =
    (Some (length (frame r)), out', rep\<lparr>dp_records_parsed := dp_records_parsed rep + 1\<rparr>)"
proof -
  have "unat (of_nat (length (snd r)) :: u32) = length (snd r)"
    using assms(1) by (simp add: record_small_def unat_of_nat)
  then show ?thesis
    using assms
    by (simp add: decode_step_def read_frame_header crc_two_chunks record_small_def apply_record_def
        kRecordHeaderSize_def length_frame)
qed

text \<open>A strict prefix of a frame ends the loop and changes no evidence.\<close>

lemma decode_records_cut:
  assumes "record_small limits r" "n < length (frame r)"
  shows "\<exists>rep'. decode_records limits offset (take n (frame r)) (out, rep) = (offset, out, rep')
    \<and> dp_records_parsed rep' = dp_records_parsed rep
    \<and> (dp_truncated rep \<longrightarrow> dp_truncated rep')"
proof (cases "n < 12")
  case True
  then show ?thesis by (simp add: decode_records.simps kRecordHeaderSize_def length_frame)
next
  case False
  then obtain m where n: "n = 12 + m" by (metis le_add_diff_inverse not_less)
  have "frame r = frame r @ []" by simp
  define head where "head = le_bytes 4 (crc32c (record_prefix (record_type_byte (fst r)) 0 (of_nat (length (snd r))) @ snd r))
      @ record_prefix (record_type_byte (fst r)) 0 (of_nat (length (snd r)))"
  have "take n (frame r) = head @ take m (snd r)"
    by (simp add: frame_def Let_def head_def n)
  moreover have "read_record_header (head @ xs) =
     Some ((crc32c (record_prefix (record_type_byte (fst r)) 0 (of_nat (length (snd r))) @ snd r),
            record_type_byte (fst r), 0, of_nat (length (snd r))), xs)" for xs
  proof -
    have "(0 :: u8) # 0 # ys = le_bytes 2 (0 :: u16) @ ys" for ys by (simp add: le_bytes_2)
    then show ?thesis by (simp add: read_record_header_def head_def record_prefix_def reads_back)
  qed
  moreover have "unat (of_nat (length (snd r)) :: u32) = length (snd r)" "length head = 12" "m < length (snd r)"
    using assms n by (simp_all add: record_small_def unat_of_nat head_def length_frame)
  ultimately have "decode_step limits (take n (frame r)) (out, rep) =
      (None, out, damaged ''the final record is cut short by the end of the segment'' (rep\<lparr>dp_truncated := True\<rparr>))"
    using assms(1) by (simp add: decode_step_def record_small_def kRecordHeaderSize_def)
  moreover have "\<not> kRecordHeaderSize > length (take n (frame r))"
    using n assms(2) by (simp add: kRecordHeaderSize_def length_frame)
  ultimately show ?thesis by (simp add: decode_records.simps [of _ _ "take n (frame r)"] damaged_def)
qed

text \<open>The records are applied in order, each succeeding.\<close>

fun replay :: "persistence_limits \<Rightarrow> segment_record list \<Rightarrow> durable_snapshot \<Rightarrow> durable_snapshot option" where
  "replay limits [] out = Some out"
| "replay limits (r # rs) out =
     (case apply_record limits r out of (True, out') \<Rightarrow> replay limits rs out' | _ \<Rightarrow> None)"

lemma replay_append:
  "replay limits (rs @ rs') out = (case replay limits rs out of None \<Rightarrow> None | Some out' \<Rightarrow> replay limits rs' out')"
  by (induction rs arbitrary: out) (auto split: prod.splits bool.splits)

lemma decode_records_frames:
  assumes "list_all (record_small limits) rs" "replay limits rs out = Some out'"
  shows "decode_records limits offset (concat (map frame rs) @ rest) (out, rep) =
    decode_records limits (offset + length (concat (map frame rs))) rest
      (out', rep\<lparr>dp_records_parsed := dp_records_parsed rep + of_nat (length rs)\<rparr>)"
  using assms
proof (induction rs arbitrary: out offset rep)
  case (Cons r rs)
  obtain out1 where out1: "apply_record limits r out = (True, out1)" "replay limits rs out1 = Some out'"
    using Cons.prems(2) by (auto split: prod.splits bool.splits)
  have "\<not> kRecordHeaderSize > length (frame r @ concat (map frame rs) @ rest)"
    by (simp add: kRecordHeaderSize_def length_frame)
  then show ?case
    using Cons.prems(1) Cons.IH [OF _ out1(2)] decode_step_frame [OF _ out1(1)]
    by (simp add: decode_records.simps [of _ _ "frame r @ concat (map frame rs) @ rest"] add.assoc add.commute
        add.left_commute)
qed simp

section \<open>The records of a fitting snapshot\<close>

definition snapshot_fits :: "persistence_limits \<Rightarrow> durable_snapshot \<Rightarrow> bool" where
  "snapshot_fits limits s \<longleftrightarrow>
     field_room (max_record_bytes limits)
     \<and> length (sn_policy_name s) \<le> 128 \<and> time_fits (sn_created s)
     \<and> list_all (queue_fits (max_segment_records limits)) (sn_queues s)
     \<and> list_all source_fits (sn_sources s) \<and> list_fits (sn_sources s)
     \<and> list_all event_fits (sn_events s) \<and> list_fits (sn_events s)
     \<and> (if sn_has_metadata s then metadata_fits (sn_metadata s) else sn_metadata s = empty_durable_metadata)"

text \<open>The snapshot the decoder starts from, with what the header says.\<close>

definition started :: "durable_snapshot \<Rightarrow> durable_snapshot" where
  "started s = empty_snapshot\<lparr>sn_runtime_id := sn_runtime_id s, sn_created := sn_created s,
     sn_policy_version := sn_policy_version s\<rparr>"

lemma apply_session:
  assumes "snapshot_fits limits s" "length (sn_runtime_id s) \<le> 64"
  shows "apply_record limits (SessionHeader, puts_bytes (session_puts s)) (started s) =
    (True, (started s)\<lparr>sn_policy_name := sn_policy_name s\<rparr>)"
proof -
  have "read_session (max_record_bytes limits) (puts_bytes (session_puts s) @ []) =
      Some ((sn_runtime_id s, sn_policy_version s, sn_policy_name s), [])"
    using assms
    by (simp add: session_puts_def read_session_def reads_back snapshot_fits_def time_fits_def
        kMaxRuntimeIdBytes_def del: append_Nil2)
  then show ?thesis by (simp add: apply_record_def decode_value_def record_type_of_def started_def)
qed

lemma replay_queues:
  assumes "field_room (max_record_bytes limits)" "list_all (queue_fits (max_segment_records limits)) qs"
  shows "replay limits (map (\<lambda>q. (QueueSnapshot, puts_bytes (queue_puts q))) qs) out =
    Some (out\<lparr>sn_queues := sn_queues out @ qs\<rparr>)"
  using assms(2)
proof (induction qs arbitrary: out)
  case (Cons q qs)
  then have "decode_queue_record (max_record_bytes limits) limits (puts_bytes (queue_puts q)) = Some (q, [])"
    using decode_queue_back [OF _ assms(1), of limits q "[]"] by simp
  then show ?case using Cons by (simp add: apply_record_def decode_value_def record_type_of_def)
qed simp

lemma apply_sources:
  assumes "field_room (max_record_bytes limits)" "list_all source_fits xs" "list_fits xs" "sn_sources out = []"
  shows "apply_record limits (SourceRegistry, puts_bytes (count_put xs # concat (map source_puts xs))) out =
    (True, out\<lparr>sn_sources := xs\<rparr>)"
proof -
  have "list_all (\<lambda>s. source_fits s \<and> field_room (max_record_bytes limits)) xs"
    using assms by (simp add: list_all_iff)
  from sources.push_back [OF this, of "[]" "[]"] show ?thesis
    using assms(3,4) by (simp add: apply_record_def decode_value_def record_type_of_def decode_source_registry_def list_fits_def)
qed

lemma apply_events:
  assumes "field_room (max_record_bytes limits)" "list_all event_fits xs" "list_fits xs" "sn_events out = []"
  shows "apply_record limits (EventBatch, puts_bytes (count_put xs # concat (map event_puts xs))) out =
    (True, out\<lparr>sn_events := xs\<rparr>)"
proof -
  have "list_all (\<lambda>s. event_fits s \<and> field_room (max_record_bytes limits)) xs"
    using assms by (simp add: list_all_iff)
  from events.push_back [OF this, of "[]" "[]"] show ?thesis
    using assms(3,4) by (simp add: apply_record_def decode_value_def record_type_of_def decode_event_batch_def list_fits_def)
qed

lemma apply_metadata_record:
  assumes "field_room (max_record_bytes limits)" "metadata_fits m" "sn_metadata out = empty_durable_metadata"
  shows "apply_record limits (MetadataTable, puts_bytes (metadata_puts m)) out =
    (True, out\<lparr>sn_metadata := m, sn_has_metadata := True\<rparr>)"
  using decode_table_back [OF assms(2,1), of "[]"] assms(3)
  by (simp add: apply_record_def decode_value_def record_type_of_def decode_metadata_table_def)

lemma replay_records:
  assumes "snapshot_fits limits s" "length (sn_runtime_id s) \<le> 64"
  shows "replay limits (segment_records s) (started s) = Some s"
proof -
  let ?out1 = "(started s)\<lparr>sn_policy_name := sn_policy_name s\<rparr>"
  let ?out2 = "?out1\<lparr>sn_queues := sn_queues s\<rparr>"
  have room: "field_room (max_record_bytes limits)" using assms by (simp add: snapshot_fits_def)
  have q: "replay limits (map (\<lambda>q. (QueueSnapshot, puts_bytes (queue_puts q))) (sn_queues s)) ?out1 = Some ?out2"
    using replay_queues [OF room, of "sn_queues s" ?out1] assms
    by (simp add: snapshot_fits_def started_def empty_snapshot_def)
  have src: "replay limits (if sn_sources s = [] then []
        else [(SourceRegistry, puts_bytes (count_put (sn_sources s) # concat (map source_puts (sn_sources s))))]) ?out2
      = Some (?out2\<lparr>sn_sources := sn_sources s\<rparr>)"
    using apply_sources [OF room, of "sn_sources s" ?out2] assms(1)
    by (simp add: snapshot_fits_def started_def empty_snapshot_def)
  have ev: "replay limits (if sn_events s = [] then []
        else [(EventBatch, puts_bytes (count_put (sn_events s) # concat (map event_puts (sn_events s))))])
        (?out2\<lparr>sn_sources := sn_sources s\<rparr>)
      = Some (?out2\<lparr>sn_sources := sn_sources s, sn_events := sn_events s\<rparr>)"
    using apply_events [OF room, of "sn_events s" "?out2\<lparr>sn_sources := sn_sources s\<rparr>"] assms(1)
    by (simp add: snapshot_fits_def started_def empty_snapshot_def)
  have md: "replay limits (if \<not> sn_has_metadata s then [] else [(MetadataTable, puts_bytes (metadata_puts (sn_metadata s)))])
        (?out2\<lparr>sn_sources := sn_sources s, sn_events := sn_events s\<rparr>) = Some s"
    using apply_metadata_record [OF room, of "sn_metadata s" "?out2\<lparr>sn_sources := sn_sources s, sn_events := sn_events s\<rparr>"] assms(1)
    by (simp add: snapshot_fits_def started_def empty_snapshot_def split: if_splits)
  have "replay limits [(SessionHeader, puts_bytes (session_puts s))] (started s) = Some ?out1"
    by (simp add: apply_session [OF assms])
  then show ?thesis by (simp only: segment_records_def replay_append q src ev md option.case)
qed

end
