(* ===== verification/Segment_Encode.thy ===== *)
theory Segment_Encode
  imports Segment_Frames
begin

text \<open>
  When the encoder of a segment succeeds: the writer accepts what fits below its limit, so a snapshot
  whose strings fit their fields and whose records fit the configured limits is always encoded.
\<close>

unbundle bit_operations_syntax

section \<open>The writer accepts what fits\<close>

definition succeeds :: "(byte_writer \<Rightarrow> byte_writer) \<Rightarrow> u8 list \<Rightarrow> bool" where
  "succeeds f bs \<longleftrightarrow>
     (\<forall>w. bw_ok w \<and> length (bw_out w) + length bs \<le> unat (bw_max_bytes w)
        \<longrightarrow> f w = w\<lparr>bw_out := bw_out w @ bs\<rparr>)"

lemma succeeds_nothing: "succeeds (\<lambda>w. w) []"
  by (simp add: succeeds_def)

lemma succeeds_then: "succeeds f as \<Longrightarrow> succeeds g bs \<Longrightarrow> succeeds (\<lambda>w. g (f w)) (as @ bs)"
  by (simp add: succeeds_def)

lemma succeeds_raw: "succeeds (bw_raw bs) bs"
  unfolding succeeds_def
proof (intro allI impI)
  fix w :: byte_writer
  assume w: "bw_ok w \<and> length (bw_out w) + length bs \<le> unat (bw_max_bytes w)"
  then have small: "length (bw_out w) + length bs < 18446744073709551616"
    using unat_u64_bound by (meson le_less_trans)
  then have size: "unat (of_nat (length (bw_out w)) :: u64) = length (bw_out w)"
    "unat (of_nat (length bs) :: u64) = length bs"
    "unat (of_nat (length (bw_out w) + length bs) :: u64) = length (bw_out w) + length bs"
    by (simp_all add: unat_of_nat del: of_nat_add)
  then have "\<not> of_nat (length (bw_out w) + length bs) > bw_max_bytes w"
    using w by (simp add: word_less_nat_alt)
  then show "bw_raw bs w = w\<lparr>bw_out := bw_out w @ bs\<rparr>"
    using w small size by (simp add: bw_raw_def add_u64_eq)
qed

fun put_fits :: "put \<Rightarrow> bool" where
  "put_fits (Put_String v n) \<longleftrightarrow> length v \<le> n"
| "put_fits (Put_Name v) \<longleftrightarrow> length v \<le> 128"
| "put_fits _ \<longleftrightarrow> True"

lemma succeeds_string:
  assumes "length v \<le> n"
  shows "succeeds (bw_string v n) (le_bytes 4 (of_nat (length v) :: u32) @ bytes_of_text v)"
  using assms succeeds_then [OF succeeds_raw [of "le_bytes 4 (of_nat (length v) :: u32)"]
      succeeds_raw [of "bytes_of_text v"]]
  by (simp add: bw_string_def [abs_def] bw_u32_def)

lemma succeeds_filtered:
  "succeeds (\<lambda>w. foldl (\<lambda>w f. if \<not> P f then w else bw_u8 (g f) w) w fs) (map g (filter P fs))"
proof (induction fs)
  case (Cons f fs)
  then show ?case
    using succeeds_then [OF succeeds_raw Cons.IH, of "[g f]"] by (simp add: bw_u8_def)
qed (simp add: succeeds_nothing)

lemma succeeds_put: "put_fits p \<Longrightarrow> succeeds (write_put p) (put_bytes p)"
proof (cases p)
  case (Put_Bitmap m)
  have "succeeds (bw_u8 (of_nat (length (filter (has_field m) all_fields))))
      [of_nat (length (filter (has_field m) all_fields))]"
    unfolding bw_u8_def by (rule succeeds_raw)
  from succeeds_then [OF this succeeds_filtered [of "has_field m" field_byte all_fields]]
  show ?thesis
    by (simp add: Put_Bitmap bw_sample_bitmap_def [abs_def] count_fields put_bytes.simps(8) Let_def)
qed (use succeeds_raw succeeds_string in \<open>auto simp: bw_u8_def bw_u16_def bw_u32_def bw_u64_def bw_i64_def
      bw_name_id_def le_bytes_2 [symmetric]\<close>)

lemma succeeds_puts: "list_all put_fits ps \<Longrightarrow> succeeds (write_puts ps) (puts_bytes ps)"
proof (induction ps)
  case (Cons p ps)
  then show ?case
    using succeeds_then [OF succeeds_put [of p] Cons.IH] by (simp add: write_puts_def [abs_def])
qed (simp add: write_puts_def [abs_def] succeeds_nothing)

lemma puts_written:
  assumes "list_all put_fits ps" "length (puts_bytes ps) \<le> unat n"
  shows "written_bytes (write_puts ps (new_byte_writer [] n)) = Some (puts_bytes ps)"
  using succeeds_puts [OF assms(1)] assms(2) by (simp add: succeeds_def new_byte_writer_def written_bytes_def)

section \<open>The encoder accepts what fits\<close>

lemma append_record_succeeds:
  assumes "length payload + length (frame (type, bytes)) \<le> unat max_bytes" "length bytes < 2 ^ 32"
  shows "append_record payload type bytes max_bytes = Some (payload @ frame (type, bytes))"
proof -
  let ?prefix = "record_prefix (record_type_byte type) 0 (of_nat (length bytes))"
  let ?crc = "le_bytes 4 (crc32c (?prefix @ bytes))"
  have "succeeds (\<lambda>w. bw_raw bytes (bw_raw ?prefix (bw_raw ?crc w))) ((?crc @ ?prefix) @ bytes)"
    by (rule succeeds_then [OF succeeds_then [OF succeeds_raw succeeds_raw] succeeds_raw])
  moreover have "length ((?crc @ ?prefix) @ bytes) = 12 + length bytes" by simp
  ultimately have "bw_raw bytes (bw_raw ?prefix (bw_raw ?crc (new_byte_writer payload max_bytes)))
      = (new_byte_writer payload max_bytes)\<lparr>bw_out := payload @ (?crc @ ?prefix) @ bytes\<rparr>"
    using assms(1) unfolding succeeds_def by (simp add: new_byte_writer_def length_frame)
  then show ?thesis
    using assms
    by (simp add: append_record_def Let_def crc_two_chunks bw_u32_def written_bytes_def new_byte_writer_def
        frame_def length_frame)
qed

text \<open>A build that still has room for the records to come.\<close>

definition room_for :: "persistence_limits \<Rightarrow> segment_build \<Rightarrow> segment_record list \<Rightarrow> bool" where
  "room_for limits build rs \<longleftrightarrow>
     list_all (record_small limits) rs
     \<and> unat (snd build) + length rs \<le> unat (max_segment_records limits)
     \<and> length (fst build) + length (concat (map frame rs)) \<le> unat (max_segment_bytes limits)"

definition extended :: "segment_build \<Rightarrow> segment_record list \<Rightarrow> segment_build" where
  "extended build rs = (fst build @ concat (map frame rs), snd build + of_nat (length rs))"

lemma extended_simps [simp]:
  "extended build [] = build" "extended (extended build rs) rs' = extended build (rs @ rs')"
  by (simp_all add: extended_def)

lemma room_for_append:
  assumes "room_for limits build (rs @ rs')"
  shows "room_for limits build rs" "room_for limits (extended build rs) rs'"
proof -
  have "unat (snd build) + length rs \<le> unat (max_segment_records limits)"
    using assms by (simp add: room_for_def)
  then have "unat (snd build) + length rs < 18446744073709551616"
    using unat_u64_bound [of "max_segment_records limits"] by linarith
  then have "unat (snd build + of_nat (length rs)) = unat (snd build) + length rs"
    by (simp add: unat_word_ariths unat_of_nat)
  then show "room_for limits build rs" "room_for limits (extended build rs) rs'"
    using assms by (auto simp: room_for_def extended_def)
qed

lemma append_segment_succeeds:
  assumes "room_for limits build [(type, bytes)]"
  shows "append_segment limits type bytes build = Inr (extended build [(type, bytes)])"
proof -
  have "\<not> snd build \<ge> max_segment_records limits" using assms by (auto simp: room_for_def word_le_nat_alt)
  then show ?thesis
    using assms append_record_succeeds [of "fst build" type bytes "max_segment_bytes limits"]
    by (auto simp: append_segment_def room_for_def record_small_def extended_def)
qed

lemma append_puts_succeeds:
  assumes "room_for limits build [(type, puts_bytes ps)]" "list_all put_fits ps" "length (puts_bytes ps) \<le> unat n"
  shows "append_puts limits type ps n e build = Inr (extended build [(type, puts_bytes ps)])"
  using append_segment_succeeds [OF assms(1)] puts_written [OF assms(2,3)] by (simp add: append_puts_def)

lemma append_queues_succeeds:
  assumes "room_for limits build (map (\<lambda>q. (QueueSnapshot, puts_bytes (queue_puts q))) qs)"
    and "list_all (\<lambda>q. list_all put_fits (queue_puts q) \<and> list_fits (dq_samples q)) qs"
  shows "append_queues limits qs build = Inr (extended build (map (\<lambda>q. (QueueSnapshot, puts_bytes (queue_puts q))) qs))"
  using assms
proof (induction qs arbitrary: build)
  case (Cons q qs)
  let ?r = "(QueueSnapshot, puts_bytes (queue_puts q))"
  have split: "room_for limits build ([?r] @ map (\<lambda>q. (QueueSnapshot, puts_bytes (queue_puts q))) qs)"
    using Cons.prems(1) by simp
  note room = room_for_append [OF split]
  have "length (puts_bytes (queue_puts q)) \<le> unat (max_record_bytes limits)"
    using room(1) by (simp add: room_for_def record_small_def)
  then have "encode_queue_record q limits = Some (puts_bytes (queue_puts q))"
    using Cons.prems(2) puts_written [of "queue_puts q"] by (simp add: encode_queue_record_def list_fits_def)
  then show ?case
    using Cons.IH [OF room(2)] Cons.prems(2) append_segment_succeeds [OF room(1)]
    by (simp add: qobs_try_assign_def)
qed simp

text \<open>The strings of a snapshot fit their fields.\<close>

definition strings_fit :: "durable_snapshot \<Rightarrow> bool" where
  "strings_fit s \<longleftrightarrow>
     list_all put_fits (session_puts s)
     \<and> list_all (\<lambda>q. list_all put_fits (queue_puts q) \<and> list_fits (dq_samples q)) (sn_queues s)
     \<and> list_all put_fits (concat (map source_puts (sn_sources s)))
     \<and> list_all put_fits (concat (map event_puts (sn_events s)))
     \<and> list_all put_fits (metadata_puts (sn_metadata s))"

lemma append_optional_succeeds:
  assumes "room_for limits build (if absent then [] else [(type, puts_bytes ps)])" "list_all put_fits ps"
    and "\<not> absent \<Longrightarrow> length (puts_bytes ps) \<le> unat n"
  shows "(if absent then Inr build else append_puts limits type ps n e build) =
    Inr (extended build (if absent then [] else [(type, puts_bytes ps)]))"
  by (cases absent) (use assms append_puts_succeeds [of limits build type ps n e] in simp_all)

lemma room_for_size: "room_for limits build [(type, bs)] \<Longrightarrow> length bs \<le> unat (max_record_bytes limits)"
  by (simp add: room_for_def record_small_def)

lemma room_for_optional:
  "room_for limits build (if absent then [] else [(type, bs)]) \<Longrightarrow> \<not> absent \<Longrightarrow>
   length bs \<le> unat (max_record_bytes limits)"
  by (simp add: room_for_size)

lemma encode_payload_succeeds:
  assumes fits: "strings_fit s" and room: "room_for limits ([], 0) (segment_records s)"
    and metadata: "sn_has_metadata s \<Longrightarrow> length (puts_bytes (metadata_puts (sn_metadata s))) \<le> unat (max_metadata_bytes limits)"
  shows "encode_payload s limits = Inr (extended ([], 0) (segment_records s))"
proof -
  let ?session = "[(SessionHeader, puts_bytes (session_puts s))]"
  let ?queues = "map (\<lambda>q. (QueueSnapshot, puts_bytes (queue_puts q))) (sn_queues s)"
  let ?sources = "if sn_sources s = [] then []
        else [(SourceRegistry, puts_bytes (count_put (sn_sources s) # concat (map source_puts (sn_sources s))))]"
  let ?events = "if sn_events s = [] then []
        else [(EventBatch, puts_bytes (count_put (sn_events s) # concat (map event_puts (sn_events s))))]"
  let ?metadata = "if \<not> sn_has_metadata s then [] else [(MetadataTable, puts_bytes (metadata_puts (sn_metadata s)))]"
  note r1 = room [unfolded segment_records_def]
  note r2 = room_for_append [OF r1]
  note r3 = room_for_append [OF r2(2)]
  note r4 = room_for_append [OF r3(2)]
  note r5 = room_for_append [OF r4(2)]
  have "append_puts limits SessionHeader (session_puts s) (max_record_bytes limits)
         (failure Internal ''failed to encode the session header record'') ([], 0) = Inr (extended ([], 0) ?session)"
    using fits room_for_size [OF r2(1)] by (intro append_puts_succeeds [OF r2(1)]) (simp_all add: strings_fit_def)
  moreover have "append_queues limits (sn_queues s) (extended ([], 0) ?session) = Inr (extended (extended ([], 0) ?session) ?queues)"
    using fits by (intro append_queues_succeeds [OF r3(1)]) (simp add: strings_fit_def)
  moreover have "append_sources limits (sn_sources s) (extended (extended ([], 0) ?session) ?queues)
      = Inr (extended (extended (extended ([], 0) ?session) ?queues) ?sources)"
    unfolding append_sources_def using fits room_for_optional [OF r4(1)]
    by (intro append_optional_succeeds [OF r4(1)]) (simp_all add: strings_fit_def count_put_def)
  moreover have "append_events limits (sn_events s) (extended (extended (extended ([], 0) ?session) ?queues) ?sources)
      = Inr (extended (extended (extended (extended ([], 0) ?session) ?queues) ?sources) ?events)"
    unfolding append_events_def using fits room_for_optional [OF r5(1)]
    by (intro append_optional_succeeds [OF r5(1)]) (simp_all add: strings_fit_def count_put_def)
  moreover have "append_metadata limits (sn_has_metadata s) (sn_metadata s)
        (extended (extended (extended (extended ([], 0) ?session) ?queues) ?sources) ?events)
      = Inr (extended (extended (extended (extended (extended ([], 0) ?session) ?queues) ?sources) ?events) ?metadata)"
    unfolding append_metadata_def using fits metadata
    by (intro append_optional_succeeds [OF r5(2)]) (simp_all add: strings_fit_def)
  ultimately show ?thesis
    unfolding encode_payload_def segment_records_def by (simp only: qobs_try_assign_def sum.case extended_simps append_assoc)
qed

lemma write_header_succeeds: "write_header a b c d e f g \<noteq> None"
proof -
  have "list_all put_fits (header_puts a b c d e f g)" by (simp add: header_puts_def)
  then have "succeeds (\<lambda>w. write_puts (header_puts a b c d e f g) (bw_raw kSegmentMagic w))
      (kSegmentMagic @ puts_bytes (header_puts a b c d e f g))"
    using succeeds_then [OF succeeds_raw succeeds_puts] by blast
  moreover have size: "length (kSegmentMagic @ puts_bytes (header_puts a b c d e f g)) = 80"
    by (simp add: kSegmentMagic_def header_puts_def)
  ultimately have "write_puts (header_puts a b c d e f g) (bw_raw kSegmentMagic (new_byte_writer [] (of_nat kSegmentHeaderSize)))
      = (new_byte_writer [] (of_nat kSegmentHeaderSize))\<lparr>bw_out := kSegmentMagic @ puts_bytes (header_puts a b c d e f g)\<rparr>"
    unfolding succeeds_def by (simp add: new_byte_writer_def kSegmentHeaderSize_def)
  then show ?thesis
    using size by (simp add: write_header_def written_bytes_def new_byte_writer_def kSegmentHeaderSize_def)
qed

lemma encode_snapshot_succeeds:
  assumes "status_ok (validate_persistence_limits limits)" "length (sn_runtime_id s) \<le> 64" "strings_fit s"
    and "room_for limits ([], 0) (segment_records s)"
    and "sn_has_metadata s \<Longrightarrow> length (puts_bytes (metadata_puts (sn_metadata s))) \<le> unat (max_metadata_bytes limits)"
  shows "\<exists>bytes. encode_snapshot s limits = Inr bytes"
  using assms(1,2) encode_payload_succeeds [OF assms(3,4,5)] write_header_succeeds
  by (auto simp: encode_snapshot_def qobs_try_assign_def extended_def kMaxRuntimeIdBytes_def split: option.splits)

end
