(* ===== verification/Segment_Properties.thy ===== *)
theory Segment_Properties
  imports Segment_Encode "HOL-Library.Sublist"
begin

text \<open>
  Properties of the persistence segment: what is encoded is decoded again, a segment that was cut
  short gives back a part of the snapshot and says so, and a damaged byte never passes as clean.
\<close>

unbundle bit_operations_syntax

section \<open>The header\<close>

definition header_of :: "durable_snapshot \<Rightarrow> u8 list \<Rightarrow> u64 \<Rightarrow> u32 \<Rightarrow> segment_header" where
  "header_of s payload n crc =
     \<lparr>sh_format_version = kPersistenceFormatVersion, sh_header_size = of_nat kSegmentHeaderSize,
      sh_header_crc = crc, sh_policy_version = sn_policy_version s,
      sh_runtime_id_len = of_nat (length (sn_runtime_id s)), sh_created_wall = rt_wall (sn_created s),
      sh_created_steady = rt_steady (sn_created s), sh_record_count = n,
      sh_payload_bytes = of_nat (length payload), sh_payload_crc = crc32c payload\<rparr>"

definition written_header :: "durable_snapshot \<Rightarrow> u8 list \<Rightarrow> u64 \<Rightarrow> u8 list option" where
  "written_header s payload n =
     write_header (sn_policy_version s) (of_nat (length (sn_runtime_id s))) (rt_wall (sn_created s))
       (rt_steady (sn_created s)) n (of_nat (length payload)) (crc32c payload)"

lemma length_magic [simp]: "length kSegmentMagic = 8"
  by (simp add: kSegmentMagic_def)

lemma written_header_shape:
  assumes "written_header s payload n = Some header"
  shows "\<exists>tail. header = kSegmentMagic @ le_bytes 4 kPersistenceFormatVersion
      @ le_bytes 4 (of_nat kSegmentHeaderSize :: u32)
      @ le_bytes 4 (crc32c (patch_crc 0 header)) @ tail \<and> length header = 80
    \<and> tail = puts_bytes [Put_U32 (sn_policy_version s), Put_U32 (of_nat (length (sn_runtime_id s))), Put_U32 0,
        Put_I64 (rt_wall (sn_created s)), Put_I64 (rt_steady (sn_created s)), Put_U64 n,
        Put_U64 (of_nat (length payload)), Put_U32 (crc32c payload), Put_U32 1, Put_U32 0, Put_U32 0]"
proof -
  let ?tail = "puts_bytes [Put_U32 (sn_policy_version s), Put_U32 (of_nat (length (sn_runtime_id s))), Put_U32 0,
        Put_I64 (rt_wall (sn_created s)), Put_I64 (rt_steady (sn_created s)), Put_U64 n,
        Put_U64 (of_nat (length payload)), Put_U32 (crc32c payload), Put_U32 1, Put_U32 0, Put_U32 0]"
  let ?front = "kSegmentMagic @ le_bytes 4 kPersistenceFormatVersion @ le_bytes 4 (of_nat kSegmentHeaderSize :: u32)"
  let ?ps = "header_puts (sn_policy_version s) (of_nat (length (sn_runtime_id s))) (rt_wall (sn_created s))
       (rt_steady (sn_created s)) n (of_nat (length payload)) (crc32c payload)"
  obtain h0 where h0: "written_bytes (write_puts ?ps (bw_raw kSegmentMagic (new_byte_writer [] (of_nat kSegmentHeaderSize))))
      = Some h0" and header: "header = patch_crc (crc32c h0) h0"
    using assms by (auto simp: written_header_def write_header_def split: option.splits if_splits)
  have "emits (\<lambda>w. write_puts ?ps (bw_raw kSegmentMagic w)) (kSegmentMagic @ puts_bytes ?ps)"
    by (rule emits_then [OF emits_raw emits_puts])
  then have "h0 = kSegmentMagic @ puts_bytes ?ps"
    using h0 by (auto simp: emits_def written_bytes_def new_byte_writer_def split: if_splits)
  then have h0: "h0 = ?front @ le_bytes 4 (0 :: u32) @ ?tail" by (simp add: header_puts_def)
  have front: "length ?front = 16" "length ?tail = 60" by simp_all
  have header': "header = ?front @ le_bytes 4 (crc32c h0) @ ?tail"
    unfolding header patch_crc_def h0 using front by simp
  have "patch_crc 0 header = h0"
    unfolding header' patch_crc_def h0 using front by simp
  then show ?thesis using header' front by (intro exI [of _ ?tail]) simp
qed

lemma read_written_header:
  assumes "written_header s payload n = Some header" "time_fits (sn_created s)"
  shows "read_header (drop 8 header @ rest) = Some (header_of s payload n (crc32c (patch_crc 0 header)), rest)"
proof -
  obtain tail where shape: "header = kSegmentMagic @ le_bytes 4 kPersistenceFormatVersion
      @ le_bytes 4 (of_nat kSegmentHeaderSize :: u32) @ le_bytes 4 (crc32c (patch_crc 0 header)) @ tail"
    "tail = puts_bytes [Put_U32 (sn_policy_version s), Put_U32 (of_nat (length (sn_runtime_id s))), Put_U32 0,
        Put_I64 (rt_wall (sn_created s)), Put_I64 (rt_steady (sn_created s)), Put_U64 n,
        Put_U64 (of_nat (length payload)), Put_U32 (crc32c payload), Put_U32 1, Put_U32 0, Put_U32 0]"
    using written_header_shape [OF assms(1)] by blast
  have "drop 8 header = le_bytes 4 kPersistenceFormatVersion
      @ le_bytes 4 (of_nat kSegmentHeaderSize :: u32) @ le_bytes 4 (crc32c (patch_crc 0 header)) @ tail"
    by (subst shape(1)) simp
  then show ?thesis
    using assms(2) by (simp add: shape(2) read_header_def reads_back time_fits_def header_of_def)
qed

lemma encode_shape:
  assumes "encode_snapshot s limits = Inr bytes"
  shows "\<exists>header payload n. bytes = header @ bytes_of_text (sn_runtime_id s) @ payload
    \<and> builds limits (segment_records s) (payload, n) \<and> written_header s payload n = Some header
    \<and> status_ok (validate_persistence_limits limits) \<and> length (sn_runtime_id s) \<le> 64"
proof -
  have ok: "status_ok (validate_persistence_limits limits)" "length (sn_runtime_id s) \<le> 64"
    using assms by (auto simp: encode_snapshot_def kMaxRuntimeIdBytes_def split: if_splits)
  then obtain payload n where p: "encode_payload s limits = Inr (payload, n)"
    using assms by (auto simp: encode_snapshot_def qobs_try_assign_def split: sum.splits if_splits)
  then obtain header where "written_header s payload n = Some header"
      "bytes = header @ bytes_of_text (sn_runtime_id s) @ payload"
    using assms by (auto simp: encode_snapshot_def qobs_try_assign_def written_header_def split: option.splits if_splits)
  then show ?thesis using ok encode_payload_records [OF p] by blast
qed

section \<open>A segment whose header is intact\<close>

definition accepted :: "segment_header \<Rightarrow> decode_report" where
  "accepted h = empty_decode_report
     \<lparr>dp_magic_valid := True, dp_format_version := sh_format_version h, dp_created_wall := sh_created_wall h,
      dp_records_declared := sh_record_count h, dp_bytes_declared := sh_payload_bytes h,
      dp_header_crc_valid := True, dp_version_supported := True\<rparr>"

lemma header_facts:
  assumes "written_header s payload n = Some header"
  shows "length header = 80" "take 8 header = kSegmentMagic"
proof -
  obtain tail where shape: "header = kSegmentMagic @ tail" "length header = 80"
    using written_header_shape [OF assms] by blast
  then show "length header = 80" "take 8 header = kSegmentMagic" by (simp_all add: shape(1))
qed

lemma decode_accepted:
  assumes header: "written_header s payload n = Some header" and time: "time_fits (sn_created s)"
    and limits: "status_ok (validate_persistence_limits limits)" and rid: "length (sn_runtime_id s) \<le> 64"
  shows "decode_snapshot (header @ bytes_of_text (sn_runtime_id s) @ body) limits =
    (case decode_body (header @ bytes_of_text (sn_runtime_id s) @ body) limits
            (header_of s payload n (crc32c (patch_crc 0 header)))
            (accepted (header_of s payload n (crc32c (patch_crc 0 header)))) of
       (out, r) \<Rightarrow> (success, out, r))"
proof -
  have len: "unat (of_nat (length (sn_runtime_id s)) :: u32) = length (sn_runtime_id s)"
    using rid by (simp add: unat_of_nat)
  have read: "read_header (drop 8 (header @ bytes_of_text (sn_runtime_id s) @ body)) =
      Some (header_of s payload n (crc32c (patch_crc 0 header)), bytes_of_text (sn_runtime_id s) @ body)"
    using read_written_header [OF header time] header_facts(1) [OF header] by simp
  show ?thesis
    unfolding decode_snapshot_def Let_def read
    using header_facts [OF header] limits rid len
    by (simp add: kSegmentHeaderSize_def header_of_def kMaxRuntimeIdBytes_def accepted_def)
qed

definition body_report :: "segment_header \<Rightarrow> nat \<Rightarrow> u8 list \<Rightarrow> decode_report" where
  "body_report h used body =
     (let r = accepted h;
          r1 = (if used > length body then r\<lparr>dp_truncated := True, dp_integrity_failed := True\<rparr> else r);
          payload = take used body
      in if crc32c payload \<noteq> sh_payload_crc h
         then diagnose (payload_mismatch_text (sh_payload_crc h) (crc32c payload) (min used (length body))
                (80 + unat (sh_runtime_id_len h) + length body) (80 + unat (sh_runtime_id_len h)))
                (r1\<lparr>dp_payload_crc_valid := False\<rparr>)
         else r1\<lparr>dp_payload_crc_valid := True\<rparr>)"

lemma decode_body_eq:
  assumes header: "length header = 80" and rid: "length (sn_runtime_id s) \<le> 64"
    and size: "length payload < 2 ^ 64"
  shows "decode_body (header @ bytes_of_text (sn_runtime_id s) @ body) limits (header_of s payload n crc)
      (accepted (header_of s payload n crc)) =
    (case decode_records limits 0 (take (length payload) body)
            (started s, body_report (header_of s payload n crc) (length payload) body) of
       (offset, out, r) \<Rightarrow>
         (out, finish_report offset (min (length payload) (length body)) (header_of s payload n crc) r))"
proof -
  have len: "unat (of_nat (length (sn_runtime_id s)) :: u32) = length (sn_runtime_id s)"
    "unat (of_nat (length payload) :: u64) = length payload"
    using rid size by (simp_all add: unat_of_nat)
  have start: "empty_snapshot\<lparr>sn_runtime_id := sn_runtime_id s,
      sn_created := \<lparr>rt_steady = rt_steady (sn_created s), rt_wall = rt_wall (sn_created s)\<rparr>,
      sn_policy_version := sn_policy_version s\<rparr> = started s"
    by (simp add: started_def)
  have used: "(if length body < length payload then length body else length payload) = min (length payload) (length body)"
    by (simp add: min_def)
  have cut: "take (min (length payload) (length body)) body = take (length payload) body"
    by (simp add: min_def)
  show ?thesis
    unfolding decode_body_def Let_def body_report_def header_of_def segment_header.simps len
    using header rid
    by (simp add: kSegmentHeaderSize_def start used cut add.assoc)
qed

section \<open>The intact and the cut segment\<close>

lemma started_part [simp]:
  "sn_queues (started s) = []" "sn_sources (started s) = []" "sn_events (started s) = []"
  "\<not> sn_has_metadata (started s)" "sn_metadata (started s) = empty_durable_metadata"
  by (simp_all add: started_def empty_snapshot_def)

text \<open>Part of a snapshot: its first queues, and each of the other records or nothing of it.\<close>

definition part_of :: "durable_snapshot \<Rightarrow> durable_snapshot \<Rightarrow> bool" where
  "part_of out s \<longleftrightarrow>
     prefix (sn_queues out) (sn_queues s)
     \<and> (sn_sources out = [] \<or> sn_sources out = sn_sources s)
     \<and> (sn_events out = [] \<or> sn_events out = sn_events s)
     \<and> (if sn_has_metadata out then sn_has_metadata s \<and> sn_metadata out = sn_metadata s
        else sn_metadata out = empty_durable_metadata)"

lemma replay_take_optional:
  assumes "replay limits (if absent then [] else [r]) out = Some out'"
  shows "replay limits (take j (if absent then [] else [r])) out = Some out
    \<or> replay limits (take j (if absent then [] else [r])) out = Some out'"
  using assms by (cases j) (auto split: if_splits)

lemma replay_take:
  assumes fits: "snapshot_fits limits s" "length (sn_runtime_id s) \<le> 64"
  shows "\<exists>out. replay limits (take k (segment_records s)) (started s) = Some out \<and> part_of out s"
proof -
  have room: "field_room (max_record_bytes limits)" using fits by (simp add: snapshot_fits_def)
  let ?session = "[(SessionHeader, puts_bytes (session_puts s))]"
  let ?queues = "map (\<lambda>q. (QueueSnapshot, puts_bytes (queue_puts q))) (sn_queues s)"
  let ?sources = "if sn_sources s = [] then []
        else [(SourceRegistry, puts_bytes (count_put (sn_sources s) # concat (map source_puts (sn_sources s))))]"
  let ?events = "if sn_events s = [] then []
        else [(EventBatch, puts_bytes (count_put (sn_events s) # concat (map event_puts (sn_events s))))]"
  let ?metadata = "if \<not> sn_has_metadata s then [] else [(MetadataTable, puts_bytes (metadata_puts (sn_metadata s)))]"
  obtain name where a: "replay limits (take k ?session) (started s) = Some ((started s)\<lparr>sn_policy_name := name\<rparr>)"
  proof (cases k)
    case 0
    then show ?thesis using that [of "sn_policy_name (started s)"] by simp
  next
    case (Suc j)
    then show ?thesis using that apply_session [OF fits] by simp
  qed
  let ?out1 = "(started s)\<lparr>sn_policy_name := name\<rparr>"
  define j2 where "j2 = k - length ?session"
  have "list_all (queue_fits (max_segment_records limits)) (take j2 (sn_queues s))"
    using fits(1) by (auto simp: snapshot_fits_def list_all_iff dest: in_set_takeD)
  then have b: "replay limits (take j2 ?queues) ?out1 = Some (?out1\<lparr>sn_queues := take j2 (sn_queues s)\<rparr>)"
    using replay_queues [OF room] by (simp add: take_map)
  let ?out2 = "?out1\<lparr>sn_queues := take j2 (sn_queues s)\<rparr>"
  define j3 where "j3 = j2 - length ?queues"
  obtain xs where c: "replay limits (take j3 ?sources) ?out2 = Some (?out2\<lparr>sn_sources := xs\<rparr>)" "xs = [] \<or> xs = sn_sources s"
  proof -
    have "replay limits ?sources ?out2 = Some (?out2\<lparr>sn_sources := sn_sources s\<rparr>)"
      using apply_sources [OF room, of "sn_sources s" ?out2] fits(1) by (simp add: snapshot_fits_def)
    moreover have "?out2 = ?out2\<lparr>sn_sources := []\<rparr>" by simp
    ultimately show ?thesis using that replay_take_optional [of limits "sn_sources s = []"] by metis
  qed
  let ?out3 = "?out2\<lparr>sn_sources := xs\<rparr>"
  define j4 where "j4 = j3 - length ?sources"
  obtain es where d: "replay limits (take j4 ?events) ?out3 = Some (?out3\<lparr>sn_events := es\<rparr>)" "es = [] \<or> es = sn_events s"
  proof -
    have "replay limits ?events ?out3 = Some (?out3\<lparr>sn_events := sn_events s\<rparr>)"
      using apply_events [OF room, of "sn_events s" ?out3] fits(1) by (simp add: snapshot_fits_def)
    moreover have "?out3 = ?out3\<lparr>sn_events := []\<rparr>" by simp
    ultimately show ?thesis using that replay_take_optional [of limits "sn_events s = []"] by metis
  qed
  let ?out4 = "?out3\<lparr>sn_events := es\<rparr>"
  define j5 where "j5 = j4 - length ?events"
  have full: "replay limits ?metadata ?out4 = Some (?out4\<lparr>sn_metadata := sn_metadata s, sn_has_metadata := sn_has_metadata s\<rparr>)"
    using apply_metadata_record [OF room, of "sn_metadata s" ?out4] fits(1)
    by (simp add: snapshot_fits_def started_def empty_snapshot_def)
  then have e: "replay limits (take j5 ?metadata) ?out4 = Some ?out4
      \<or> replay limits (take j5 ?metadata) ?out4 = Some (?out4\<lparr>sn_metadata := sn_metadata s, sn_has_metadata := sn_has_metadata s\<rparr>)"
    by (rule replay_take_optional)
  have "replay limits (take k (segment_records s)) (started s) = replay limits (take j5 ?metadata) ?out4"
    unfolding segment_records_def take_append replay_append a option.case j2_def [symmetric] b
      j3_def [symmetric] c(1) j4_def [symmetric] d(1) j5_def [symmetric] by (rule refl)
  then show ?thesis
    using e c(2) d(2) fits(1)
    by (auto simp: part_of_def take_is_prefix snapshot_fits_def split: if_splits)
qed

lemma cut_frames:
  "n < length (concat (map frame rs)) \<Longrightarrow>
   \<exists>k j. k < length rs \<and> j < length (frame (rs ! k))
     \<and> take n (concat (map frame rs)) = concat (map frame (take k rs)) @ take j (frame (rs ! k))"
proof (induction rs arbitrary: n)
  case (Cons r rs)
  show ?case
  proof (cases "n < length (frame r)")
    case True
    then show ?thesis by (intro exI [of _ 0] exI [of _ n]) simp
  next
    case False
    then have "n - length (frame r) < length (concat (map frame rs))" using Cons.prems by simp
    from Cons.IH [OF this] obtain k j where "k < length rs" "j < length (frame (rs ! k))"
      "take (n - length (frame r)) (concat (map frame rs)) = concat (map frame (take k rs)) @ take j (frame (rs ! k))"
      by blast
    then show ?thesis using False by (intro exI [of _ "Suc k"] exI [of _ j]) simp
  qed
qed simp

lemma builds_size: "builds limits rs (payload, n) \<Longrightarrow> length payload < 2 ^ 64"
  using unat_u64_bound [of "max_segment_bytes limits"] by (auto simp: builds_def intro: le_less_trans)

lemma finish_clean:
  "\<not> report_clean r \<Longrightarrow> dp_truncated r \<or> \<not> dp_payload_crc_valid r \<Longrightarrow> \<not> report_clean (finish_report offset used h r)"
  by (auto simp: report_clean_def finish_report_def diagnose_def Let_def)

lemma decode_cut:
  assumes fits: "snapshot_fits limits s" and build: "builds limits (segment_records s) (payload, n_records)"
    and header: "written_header s payload n_records = Some header"
    and limits: "status_ok (validate_persistence_limits limits)" and rid: "length (sn_runtime_id s) \<le> 64"
    and cut: "n < length payload"
  shows "\<exists>out rep. decode_snapshot (header @ bytes_of_text (sn_runtime_id s) @ take n payload) limits = (success, out, rep)
    \<and> part_of out s \<and> dp_truncated rep"
proof -
  let ?rs = "segment_records s"
  let ?h = "header_of s payload n_records (crc32c (patch_crc 0 header))"
  have time: "time_fits (sn_created s)" using fits by (simp add: snapshot_fits_def)
  have payload: "payload = concat (map frame ?rs)" and small: "list_all (record_small limits) ?rs"
    using build by (simp_all add: builds_def)
  obtain k j where k: "k < length ?rs" "j < length (frame (?rs ! k))"
      "take n payload = concat (map frame (take k ?rs)) @ take j (frame (?rs ! k))"
    using cut_frames [of n ?rs] cut payload by auto
  obtain out where out: "replay limits (take k ?rs) (started s) = Some out" "part_of out s"
    using replay_take [OF fits rid] by blast
  have "list_all (record_small limits) (take k ?rs)" "record_small limits (?rs ! k)"
    using small k(1) by (auto simp: list_all_iff dest: in_set_takeD)
  note whole = decode_records_frames [OF this(1) out(1)] and torn = decode_records_cut [OF this(2) k(2)]
  let ?rep = "body_report ?h (length payload) (take n payload)"
  obtain offset rep where loop: "decode_records limits 0 (take n payload) (started s, ?rep) = (offset, out, rep)"
      "dp_truncated ?rep \<longrightarrow> dp_truncated rep"
    using whole [of 0 "take j (frame (?rs ! k))" ?rep]
      torn [of "length (concat (map frame (take k ?rs)))" out
        "?rep\<lparr>dp_records_parsed := dp_records_parsed ?rep + of_nat (length (take k ?rs))\<rparr>"]
    unfolding k(3) by auto
  have "dp_truncated (body_report ?h (length payload) (take n payload))"
    using cut by (simp add: body_report_def Let_def diagnose_def)
  then have "dp_truncated (finish_report offset (min (length payload) (length (take n payload))) ?h rep)"
    using loop(2) by (simp add: finish_report_def diagnose_def Let_def)
  moreover have "take (length payload) (take n payload) = take n payload" using cut by simp
  ultimately show ?thesis
    using out(2) loop(1)
    unfolding decode_accepted [OF header time limits rid]
      decode_body_eq [OF header_facts(1) [OF header] rid builds_size [OF build]]
    by simp
qed

section \<open>Damage\<close>

lemma decode_records_payload_crc:
  "decode_records limits offset bs (out, rep) = (offset', out', rep') \<Longrightarrow>
   dp_payload_crc_valid rep' = dp_payload_crc_valid rep"
proof (induction limits offset bs "(out, rep)" arbitrary: out rep rule: decode_records.induct)
  case (1 limits offset bs)
  have step: "dp_payload_crc_valid r = dp_payload_crc_valid rep"
    if "decode_step limits bs (out, rep) = (m, o', r)" for m o' r
    using that
    by (auto simp: decode_step_def damaged_def diagnose_def Let_def split: option.splits prod.splits if_splits bool.splits)
  obtain m o' r where d: "decode_step limits bs (out, rep) = (m, o', r)"
    by (cases "decode_step limits bs (out, rep)")
  show ?case
  proof (cases "kRecordHeaderSize > length bs \<or> m = None")
    case True
    then show ?thesis using 1(2) d step [OF d] by (auto simp: decode_records.simps [of limits offset bs] split: if_splits)
  next
    case False
    then obtain n where "m = Some n" "\<not> kRecordHeaderSize > length bs" by blast
    then show ?thesis
      using 1(1) [OF _ d [symmetric]] 1(2) d step [OF d] by (simp add: decode_records.simps [of limits offset bs])
  qed
qed

lemma read_then_Some:
  "read_then m f bs = Some y \<longleftrightarrow> (\<exists>x rest. m bs = Some (x, rest) \<and> f x rest = Some y)"
  by (auto simp: read_then_def split: option.splits)

lemma rd_u32_Some: "rd_u32 bs = Some (x, rest) \<longleftrightarrow> 4 \<le> length bs \<and> x = of_le (take 4 bs) \<and> rest = drop 4 bs"
  by (auto simp: rd_u32_def read_then_def read_return_def rd_bytes_def split: if_splits)

lemma read_header_crc:
  assumes "read_header bs = Some (h, rest)"
  shows "sh_header_crc h = of_le (take 4 (drop 8 bs))"
  using assms by (clarsimp simp: read_header_def read_then_Some read_return_def rd_u32_Some)

lemma damaged_header_crc:
  assumes "written_header s payload n = Some header" "8 \<le> i" "i < 80" "b \<noteq> header ! i"
  shows "crc32c (patch_crc 0 (header[i := b])) \<noteq> of_le (take 4 (drop 16 (header[i := b])))"
proof -
  define front where "front = kSegmentMagic @ le_bytes 4 kPersistenceFormatVersion
      @ le_bytes 4 (of_nat kSegmentHeaderSize :: u32)"
  obtain tail where shape: "header = front @ le_bytes 4 (crc32c (patch_crc 0 header)) @ tail"
    using written_header_shape [OF assms(1)] unfolding front_def append_assoc by blast
  have front: "length front = 16" by (simp add: front_def)
  have len: "length header = 80" by (rule header_facts(1) [OF assms(1)])
  have stored: "take 4 (drop 16 header) = le_bytes 4 (crc32c (patch_crc 0 header))"
    by (subst shape) (simp add: front)
  show ?thesis
  proof (cases "16 \<le> i \<and> i < 20")
    case True
    then have "patch_crc 0 (header[i := b]) = patch_crc 0 header" by (simp add: patch_crc_def)
    moreover have "take 4 (drop 16 (header[i := b])) \<noteq> take 4 (drop 16 header)"
    proof
      assume "take 4 (drop 16 (header[i := b])) = take 4 (drop 16 header)"
      then have eq: "take 4 (drop 16 (header[i := b])) ! j = take 4 (drop 16 header) ! j" for j by simp
      from True have "i = 16 + (i - 16)" "i - 16 < 4" by linarith+
      then obtain j where "i = 16 + j" "j < 4" by blast
      then show False using eq [of j] assms(4) len by simp
    qed
    ultimately show ?thesis
      using stored le_bytes_of_le [of "take 4 (drop 16 (header[i := b]))"] len by auto
  next
    case False
    then consider "i < 16" | "20 \<le> i" by linarith
    then have same: "take 4 (drop 16 (header[i := b])) = take 4 (drop 16 header)
        \<and> patch_crc 0 (header[i := b]) = (patch_crc 0 header)[i := b] \<and> patch_crc 0 header ! i = header ! i"
    proof cases
      case 1
      then show ?thesis using len by (simp add: patch_crc_def list_update_append nth_append take_update_swap)
    next
      case 2
      then have far: "\<not> i - 16 < 4" by linarith
      then have "take 4 (drop 16 (header[i := b])) = take 4 (drop 16 header)"
        using 2 by (simp add: drop_update_swap)
      then show ?thesis
        using 2 far len by (simp add: patch_crc_def list_update_append nth_append drop_update_swap)
    qed
    moreover note same
    moreover have "i < length (patch_crc 0 header)" using assms(3) len by (simp add: patch_crc_def)
    ultimately show ?thesis
      using crc32c_update [of i "patch_crc 0 header" b] assms(4) stored by (simp add: of_le_bytes)
  qed
qed

lemma segment_decodes:
  assumes "snapshot_fits limits s" "encode_snapshot s limits = Inr bytes"
  shows "\<exists>rep. decode_snapshot bytes limits = (success, s, rep) \<and> report_clean rep
    \<and> dp_records_parsed rep = of_nat (length (segment_records s)) \<and> dp_records_declared rep = dp_records_parsed rep
    \<and> dp_bytes_consumed rep = dp_bytes_declared rep \<and> dp_records_rejected rep = 0 \<and> dp_diagnostic rep = []"
proof -
  obtain header payload n where shape: "bytes = header @ bytes_of_text (sn_runtime_id s) @ payload"
      and build: "builds limits (segment_records s) (payload, n)" and header: "written_header s payload n = Some header"
      and limits: "status_ok (validate_persistence_limits limits)" and rid: "length (sn_runtime_id s) \<le> 64"
    using encode_shape [OF assms(2)] by blast
  define h where "h = header_of s payload n (crc32c (patch_crc 0 header))"
  define rep where "rep = (accepted h)\<lparr>dp_payload_crc_valid := True\<rparr>"
  have h: "sh_record_count h = n" "sh_payload_bytes h = of_nat (length payload)" "sh_payload_crc h = crc32c payload"
    by (simp_all add: h_def header_of_def)
  have time: "time_fits (sn_created s)" using assms(1) by (simp add: snapshot_fits_def)
  have payload: "payload = concat (map frame (segment_records s))" "list_all (record_small limits) (segment_records s)"
      "unat n = length (segment_records s)"
    using build by (simp_all add: builds_def)
  have count: "n = of_nat (length (segment_records s))" by (simp add: payload(3) [symmetric])
  have body: "body_report h (length payload) payload = rep"
    by (simp add: body_report_def h rep_def Let_def)
  have "decode_records limits 0 payload (started s, rep) =
      (length payload, s, rep\<lparr>dp_records_parsed := dp_records_parsed rep + n\<rparr>)"
    using decode_records_frames [OF payload(2) replay_records [OF assms(1) rid], of 0 "[]" rep]
    by (simp add: payload(1) [symmetric] count decode_records.simps [of limits _ "[]"] kRecordHeaderSize_def)
  moreover note decode_body_eq [OF header_facts(1) [OF header] rid builds_size [OF build], of payload limits n
      "crc32c (patch_crc 0 header)", folded h_def]
  ultimately have "decode_snapshot bytes limits = (success, s,
      finish_report (length payload) (length payload) h (rep\<lparr>dp_records_parsed := dp_records_parsed rep + n\<rparr>))"
    unfolding shape decode_accepted [OF header time limits rid] h_def [symmetric] by (simp add: body)
  then show ?thesis
    by (simp add: rep_def accepted_def empty_decode_report_def finish_report_def h report_clean_def
        count [symmetric] Let_def)
qed

section \<open>Properties\<close>

text \<open>C22: segments round trip. A snapshot the encoder accepts and that is within the bounds of the decoder
  is decoded to the same snapshot, with a clean report that counts every record and every byte. The bounds
  (\<open>snapshot_fits\<close>) are valid names, times in range, room for 512 bytes in a record, and no queue with
  more samples than a segment may have records, which the encoder does not check.\<close>

theorem segment_round_trip:
  assumes "snapshot_fits limits s" "encode_snapshot s limits = Inr bytes"
  shows "\<exists>rep. decode_snapshot bytes limits = (success, s, rep) \<and> report_clean rep
    \<and> dp_records_parsed rep = of_nat (length (segment_records s)) \<and> dp_records_declared rep = dp_records_parsed rep
    \<and> dp_bytes_consumed rep = dp_bytes_declared rep \<and> dp_records_rejected rep = 0 \<and> dp_diagnostic rep = []"
  using assms by (rule segment_decodes)

text \<open>C23: a segment that was cut short is never taken for a whole one. Whatever was written of an
  encoded segment, the decoder does not report it as clean, and what it restores is a part of the
  snapshot: its first queues, and the sources, the events and the metadata either whole or not at all.\<close>

theorem torn_segment_recovers_part:
  assumes "snapshot_fits limits s" "encode_snapshot s limits = Inr bytes" "n < length bytes"
  shows "case decode_snapshot (take n bytes) limits of
    (status, out, rep) \<Rightarrow> \<not> (status_ok status \<and> report_clean rep) \<and> part_of out s"
proof -
  obtain header payload m where shape: "bytes = header @ bytes_of_text (sn_runtime_id s) @ payload"
      and build: "builds limits (segment_records s) (payload, m)" and header: "written_header s payload m = Some header"
      and limits: "status_ok (validate_persistence_limits limits)" and rid: "length (sn_runtime_id s) \<le> 64"
    using encode_shape [OF assms(2)] by blast
  have time: "time_fits (sn_created s)" using assms(1) by (simp add: snapshot_fits_def)
  have none: "part_of empty_snapshot s" by (simp add: part_of_def empty_snapshot_def)
  consider "n < 80" | "80 \<le> n" "n < 80 + length (sn_runtime_id s)" | "80 + length (sn_runtime_id s) \<le> n"
    by linarith
  then show ?thesis
  proof cases
    case 1
    then have "length (take n bytes) < kSegmentHeaderSize" by (simp add: kSegmentHeaderSize_def)
    then have "decode_snapshot (take n bytes) limits =
        decode_refused IntegrityFailure ''the segment is smaller than its fixed header'' empty_decode_report"
      using limits by (simp add: decode_snapshot_def Let_def del: length_take)
    then show ?thesis using none by (simp add: decode_refused_def)
  next
    case 2
    then have cut: "take n bytes = header @ take (n - 80) (bytes_of_text (sn_runtime_id s))"
      using header_facts(1) [OF header] by (simp add: shape)
    have "read_header (drop 8 (take n bytes)) =
        Some (header_of s payload m (crc32c (patch_crc 0 header)), take (n - 80) (bytes_of_text (sn_runtime_id s)))"
      using read_written_header [OF header time] header_facts(1) [OF header] by (simp add: cut)
    moreover have "unat (of_nat (length (sn_runtime_id s)) :: u32) = length (sn_runtime_id s)"
      using rid by (simp add: unat_of_nat)
    ultimately show ?thesis
      unfolding decode_snapshot_def Let_def
      using header_facts [OF header] limits rid 2 none
      by (simp add: cut kSegmentHeaderSize_def header_of_def kMaxRuntimeIdBytes_def report_clean_def)
  next
    case 3
    define k where "k = n - (80 + length (sn_runtime_id s))"
    have "take n bytes = header @ bytes_of_text (sn_runtime_id s) @ take k payload"
      using header_facts(1) [OF header] 3 by (simp add: shape k_def)
    moreover have "k < length payload"
      using assms(3) 3 header_facts(1) [OF header] by (simp add: shape k_def)
    ultimately show ?thesis
      using decode_cut [OF assms(1) build header limits rid] by (fastforce simp: report_clean_def)
  qed
qed

text \<open>C24: damage never passes as clean. Changing one byte of the header or of the payload of an encoded
  segment makes the decoder refuse the segment or report it as not clean. (The bytes of the runtime
  identifier between them are not covered by a checksum; the identifier is repeated in the payload.)\<close>

theorem damaged_segment_never_clean:
  assumes "snapshot_fits limits s" "encode_snapshot s limits = Inr bytes"
    and "i < length bytes" "b \<noteq> bytes ! i" "i < 80 \<or> 80 + length (sn_runtime_id s) \<le> i"
  shows "case decode_snapshot (bytes[i := b]) limits of
    (status, out, rep) \<Rightarrow> \<not> (status_ok status \<and> report_clean rep)"
proof -
  obtain header payload m where shape: "bytes = header @ bytes_of_text (sn_runtime_id s) @ payload"
      and build: "builds limits (segment_records s) (payload, m)" and header: "written_header s payload m = Some header"
      and limits: "status_ok (validate_persistence_limits limits)" and rid: "length (sn_runtime_id s) \<le> 64"
    using encode_shape [OF assms(2)] by blast
  have time: "time_fits (sn_created s)" using assms(1) by (simp add: snapshot_fits_def)
  show ?thesis
  proof (cases "i < 80")
    case True
    let ?bs = "header[i := b] @ bytes_of_text (sn_runtime_id s) @ payload"
    have len: "length header = 80" by (rule header_facts(1) [OF header])
    have bs: "bytes[i := b] = ?bs" "b \<noteq> header ! i"
      using True assms(4) len by (simp_all add: shape list_update_append nth_append)
    have cut: "take kSegmentHeaderSize ?bs = header[i := b]" using len by (simp add: kSegmentHeaderSize_def)
    show ?thesis
    proof (cases "i < 8")
      case True
      have "take 8 ?bs ! i \<noteq> take 8 header ! i" using True bs(2) len by simp
      then have "take 8 ?bs \<noteq> kSegmentMagic" using header_facts(2) [OF header] by metis
      then show ?thesis
        using limits len unfolding bs(1) by (simp add: decode_snapshot_def decode_refused_def kSegmentHeaderSize_def Let_def)
    next
      case False
      have "crc32c (patch_crc 0 (take kSegmentHeaderSize ?bs)) \<noteq> sh_header_crc h"
        if "read_header (drop 8 ?bs) = Some (h, rest)" for h rest
      proof -
        have "sh_header_crc h = of_le (take 4 (drop 16 (header[i := b])))"
          using read_header_crc [OF that] len by simp
        then show ?thesis using damaged_header_crc [OF header _ \<open>i < 80\<close> bs(2)] False cut by simp
      qed
      then show ?thesis
        unfolding bs(1) decode_snapshot_def Let_def
        by (auto simp: decode_refused_def report_clean_def empty_decode_report_def limits split: option.splits)
    qed
  next
    case False
    have len: "length header = 80" by (rule header_facts(1) [OF header])
    obtain j where i: "i = length header + (length (bytes_of_text (sn_runtime_id s)) + j)"
      using assms(5) False len by (metis le_Suc_ex length_bytes_of_text add.assoc)
    have j: "j < length payload" "b \<noteq> payload ! j" "bytes[i := b] = header @ bytes_of_text (sn_runtime_id s) @ payload[j := b]"
      using assms(3,4) unfolding shape i by (simp_all add: list_update_append nth_append)
    let ?h = "header_of s payload m (crc32c (patch_crc 0 header))"
    let ?rep = "body_report ?h (length payload) (payload[j := b])"
    obtain offset out rep where loop: "decode_records limits 0 (payload[j := b]) (started s, ?rep) = (offset, out, rep)"
      by (cases "decode_records limits 0 (payload[j := b]) (started s, ?rep)") auto
    have "\<not> dp_payload_crc_valid ?rep"
      using crc32c_update [OF j(1,2)] by (simp add: body_report_def header_of_def Let_def diagnose_def)
    then have "\<not> dp_payload_crc_valid rep" using decode_records_payload_crc [OF loop] by simp
    then have "\<not> report_clean (finish_report offset k ?h rep)" for k
      by (simp add: report_clean_def finish_report_def diagnose_def Let_def)
    then show ?thesis
      using loop
      unfolding j(3) decode_accepted [OF header time limits rid]
        decode_body_eq [OF header_facts(1) [OF header] rid builds_size [OF build]]
      by simp
  qed
qed

section \<open>Witnesses\<close>

text \<open>A snapshot of one queue with one sample, its source and one event.\<close>

definition demo_durable_sample :: durable_sample where
  "demo_durable_sample =
     \<lparr>ds_observed = \<lparr>ot_ns = 5000, ot_domain = ''ptp''\<rparr>, ds_received_wall = 6000, ds_received_steady = 70,
      ds_source = ''agent'', ds_incarnation = ''boot-1'', ds_generation = 2, ds_sequence = 7,
      ds_authority = 2, ds_reported = field_bit OccupancyCells,
      ds_values = (\<lambda>f. if f = OccupancyCells then 77 else 0), ds_state = PS_Normal,
      ds_freshness = 1, ds_quality = 2, ds_age = 1000\<rparr>"

definition demo_durable_queue :: durable_queue where
  "demo_durable_queue =
     \<lparr>dq_queue = QueuePath ''leaf1'' ''eth0'' 3,
      dq_classes = \<lparr>dc_traffic_class = Some 4, dc_scheduling_class = None, dc_origin = 2, dc_metadata_revision = 1\<rparr>,
      dq_classes_known = True, dq_samples = [demo_durable_sample]\<rparr>"

definition demo_snapshot :: durable_snapshot where
  "demo_snapshot = empty_snapshot
     \<lparr>sn_runtime_id := ''rt-1'', sn_policy_version := 1, sn_policy_name := ''default'',
      sn_queues := [demo_durable_queue]\<rparr>"

lemma field_bit_fields:
  "filter (has_field (field_bit OccupancyCells)) all_fields = [OccupancyCells]"
  by (simp add: all_fields_def kFieldNames_def has_field_def field_bit_def)

lemma demo_fits: "snapshot_fits default_persistence_limits demo_snapshot"
  using has_field_bit [of "field_bit OccupancyCells"] mask_wf_set [of 0 OccupancyCells]
  by (auto simp: snapshot_fits_def demo_snapshot_def demo_durable_queue_def demo_durable_sample_def
      empty_snapshot_def queue_fits_def sample_fits_def path_fits_def name_fits_def optional_fits_def
      time_fits_def list_fits_def field_room_def default_persistence_limits_def zero_receive_def is_i64_def
      name_ok_def is_control_def kSeparator_def mask_wf_def kMaxIdentityLength_def field_bit_def bit_simps
      i64_min_def i64_max_def)

lemma demo_records:
  "segment_records demo_snapshot =
     [(SessionHeader, puts_bytes (session_puts demo_snapshot)), (QueueSnapshot, puts_bytes (queue_puts demo_durable_queue))]"
  "length (puts_bytes (session_puts demo_snapshot)) = 43"
  "length (puts_bytes (queue_puts demo_durable_queue)) = 135"
  by (simp_all add: segment_records_def demo_snapshot_def empty_snapshot_def session_puts_def queue_puts_def
      demo_durable_queue_def demo_durable_sample_def sample_puts_def optional_puts_def count_put_def
      field_bit_fields put_bytes.simps(8))

lemma demo_runtime_id: "sn_runtime_id demo_snapshot = ''rt-1''"
  by (simp add: demo_snapshot_def)

lemma demo_encoded: "\<exists>bytes. encode_snapshot demo_snapshot default_persistence_limits = Inr bytes"
proof (rule encode_snapshot_succeeds)
  show "strings_fit demo_snapshot"
    by (simp add: strings_fit_def demo_snapshot_def empty_snapshot_def session_puts_def queue_puts_def
        demo_durable_queue_def demo_durable_sample_def sample_puts_def optional_puts_def count_put_def
        field_bit_fields metadata_puts_def empty_durable_metadata_def list_fits_def kMaxRuntimeIdBytes_def)
  show "room_for default_persistence_limits ([], 0) (segment_records demo_snapshot)"
    by (simp add: room_for_def demo_records record_small_def length_frame default_persistence_limits_def)
qed (simp_all add: default_limits_valid demo_snapshot_def empty_snapshot_def)

lemma demo_length:
  "encode_snapshot demo_snapshot default_persistence_limits = Inr bytes \<Longrightarrow> length bytes = 286"
  using encode_shape [of demo_snapshot default_persistence_limits bytes]
  by (auto simp: builds_def demo_records length_frame header_facts demo_runtime_id)

theorem segment_round_trip_witness:
  "\<exists>bytes rep. encode_snapshot demo_snapshot default_persistence_limits = Inr bytes
     \<and> decode_snapshot bytes default_persistence_limits = (success, demo_snapshot, rep)
     \<and> report_clean rep \<and> dp_records_parsed rep = 2"
  using demo_encoded segment_round_trip [OF demo_fits] by (fastforce simp: demo_records)

theorem torn_segment_recovers_part_witness:
  "\<exists>bytes. encode_snapshot demo_snapshot default_persistence_limits = Inr bytes
     \<and> (case decode_snapshot (take 200 bytes) default_persistence_limits of
          (status, out, rep) \<Rightarrow> \<not> (status_ok status \<and> report_clean rep) \<and> part_of out demo_snapshot)"
proof -
  obtain bytes where "encode_snapshot demo_snapshot default_persistence_limits = Inr bytes" using demo_encoded by blast
  then show ?thesis
    using torn_segment_recovers_part [OF demo_fits, of bytes 200] demo_length by auto
qed

theorem damaged_segment_never_clean_witness:
  "\<exists>bytes. encode_snapshot demo_snapshot default_persistence_limits = Inr bytes
     \<and> (case decode_snapshot (bytes[100 := bytes ! 100 + 1]) default_persistence_limits of
          (status, out, rep) \<Rightarrow> \<not> (status_ok status \<and> report_clean rep))"
proof -
  obtain bytes where "encode_snapshot demo_snapshot default_persistence_limits = Inr bytes" using demo_encoded by blast
  moreover have "80 + length (sn_runtime_id demo_snapshot) \<le> 100" by (simp add: demo_runtime_id)
  ultimately show ?thesis
    using damaged_segment_never_clean [OF demo_fits, of bytes 100 "bytes ! 100 + 1"] demo_length by auto
qed

end
