(* ===== verification/Segment_Files.thy ===== *)
theory Segment_Files
  imports Segment_Decode "HOL-Library.AList"
begin

text \<open>
  The directory of segments (\<^verbatim>\<open>include/qobs/persist/Persistence.hpp\<close>, \<^verbatim>\<open>src/persist/Persistence.cpp\<close>):
  the names of segment files, writing a snapshot through a temporary file, rotation, and recovery
  from the newest segment that can be read.

  The directory is an association list of names and entries in the order an iteration delivers them.
  Every call to the file system can fail; which calls fail is an argument. A disk also records the
  directories it passed through, so that the state a crash leaves behind is one of them. The mutex is
  not modelled: each operation is one critical section.
\<close>

section \<open>Names\<close>

definition kSegmentPrefix :: string where "kSegmentPrefix = ''segment-''"

definition kSegmentSuffix :: string where "kSegmentSuffix = ''.qobs''"

definition kTempSuffix :: string where "kTempSuffix = ''.qobs.tmp''"

definition zero_pad :: "u64 \<Rightarrow> nat \<Rightarrow> string" where
  "zero_pad v width = replicate (width - length (dec_u64 v)) (CHR ''0'') @ dec_u64 v"

definition segment_file_name :: "u64 \<Rightarrow> string" where
  "segment_file_name n = kSegmentPrefix @ zero_pad n 8 @ kSegmentSuffix"

definition segment_temp_name :: "u64 \<Rightarrow> string" where
  "segment_temp_name n = kSegmentPrefix @ zero_pad n 8 @ kTempSuffix"

definition parse_segment_file_name :: "string \<Rightarrow> u64 option" where
  "parse_segment_file_name name =
     (if \<not> starts_with name kSegmentPrefix \<or> \<not> ends_with name kSegmentSuffix then None
      else parse_u64 (take (length name - length kSegmentPrefix - length kSegmentSuffix)
             (drop (length kSegmentPrefix) name)))"

section \<open>The disk\<close>

datatype dir_entry = Regular "u8 list" | Other

type_synonym dir_entries = "(string \<times> dir_entry) list"

record disk =
  dk_exists :: bool
  dk_entries :: dir_entries
  dk_passed :: "dir_entries list"

text \<open>Which calls to the file system fail. A stat fault is an error from \<^verbatim>\<open>is_regular_file\<close>, a size
  fault one from \<^verbatim>\<open>file_size\<close>; \<open>io_listing\<close> says that the iterator over the directory cannot be
  constructed; \<open>io_written\<close> is the number of bytes a short write accepts.\<close>

record io_faults =
  io_mkdir :: bool
  io_not_directory :: bool
  io_exists :: bool
  io_listing :: bool
  io_stat :: "string \<Rightarrow> bool"
  io_size :: "string \<Rightarrow> bool"
  io_open_read :: "string \<Rightarrow> bool"
  io_short_read :: "string \<Rightarrow> bool"
  io_open_write :: bool
  io_written :: "nat option"
  io_flush :: bool
  io_fsync :: bool
  io_rename :: bool
  io_rename_again :: bool
  io_remove :: "string \<Rightarrow> bool"

definition no_faults :: io_faults where
  "no_faults =
     \<lparr>io_mkdir = False, io_not_directory = False, io_exists = False, io_listing = False,
      io_stat = (\<lambda>_. False), io_size = (\<lambda>_. False), io_open_read = (\<lambda>_. False),
      io_short_read = (\<lambda>_. False), io_open_write = False, io_written = None, io_flush = False,
      io_fsync = False, io_rename = False, io_rename_again = False, io_remove = (\<lambda>_. False)\<rparr>"

definition disk_pass :: "dir_entries \<Rightarrow> disk \<Rightarrow> disk" where
  "disk_pass es d = d\<lparr>dk_entries := es, dk_passed := dk_passed d @ [es]\<rparr>"

definition disk_create :: "string \<Rightarrow> disk \<Rightarrow> disk" where
  "disk_create name d = disk_pass (AList.update name (Regular []) (dk_entries d)) d"

text \<open>A write of n bytes passes through every prefix.\<close>

definition disk_write :: "string \<Rightarrow> u8 list \<Rightarrow> nat \<Rightarrow> disk \<Rightarrow> disk" where
  "disk_write name bytes n d =
     foldl (\<lambda>d k. disk_pass (AList.update name (Regular (take k bytes)) (dk_entries d)) d) d [0..<Suc n]"

definition disk_remove :: "string \<Rightarrow> disk \<Rightarrow> disk" where
  "disk_remove name d = disk_pass (AList.delete name (dk_entries d)) d"

text \<open>A rename replaces its target in one step.\<close>

definition disk_rename :: "string \<Rightarrow> string \<Rightarrow> disk \<Rightarrow> disk" where
  "disk_rename from to d =
     (case map_of (dk_entries d) from of
        None \<Rightarrow> d
      | Some e \<Rightarrow> disk_pass (AList.update to e (AList.delete from (dk_entries d))) d)"

definition disk_content :: "string \<Rightarrow> disk \<Rightarrow> u8 list" where
  "disk_content name d = (case map_of (dk_entries d) name of Some (Regular bytes) \<Rightarrow> bytes | _ \<Rightarrow> [])"

section \<open>The store of segments\<close>

record segment_info =
  si_name :: string
  si_bytes :: u64
  si_sequence :: u64

record persistence_report =
  pr_segments_written :: u64
  pr_segments_rotated :: u64
  pr_bytes_written :: u64
  pr_records_written :: u64
  pr_recovery_attempts :: u64
  pr_recovery_successes :: u64
  pr_recovery_failures :: u64
  pr_damaged_segments_skipped :: u64

definition empty_persistence_report :: persistence_report where
  "empty_persistence_report =
     \<lparr>pr_segments_written = 0, pr_segments_rotated = 0, pr_bytes_written = 0, pr_records_written = 0,
      pr_recovery_attempts = 0, pr_recovery_successes = 0, pr_recovery_failures = 0,
      pr_damaged_segments_skipped = 0\<rparr>"

record recovery_outcome =
  ro_recovered :: bool
  ro_report :: decode_report
  ro_snapshot :: durable_snapshot
  ro_source :: string
  ro_diagnostic :: string

definition empty_recovery_outcome :: recovery_outcome where
  "empty_recovery_outcome =
     \<lparr>ro_recovered = False, ro_report = empty_decode_report, ro_snapshot = empty_snapshot,
      ro_source = [], ro_diagnostic = []\<rparr>"

record persistence_store =
  ps_directory :: string
  ps_limits :: persistence_limits
  ps_next_sequence :: u64
  ps_stats :: persistence_report

definition new_persistence_store :: "string \<Rightarrow> persistence_limits \<Rightarrow> persistence_store" where
  "new_persistence_store directory limits =
     \<lparr>ps_directory = directory, ps_limits = limits, ps_next_sequence = 0, ps_stats = empty_persistence_report\<rparr>"

section \<open>Listing\<close>

text \<open>The error code is shared by the calls of the loop: a failed \<^verbatim>\<open>is_regular_file\<close> leaves it set for
  the next entry, where the loop then ends with a failure.\<close>

fun list_entries ::
    "io_faults \<Rightarrow> bool \<Rightarrow> segment_info list \<Rightarrow> dir_entries \<Rightarrow> segment_info list result" where
  "list_entries io error segments [] = Inr segments"
| "list_entries io error segments ((name, entry) # es) =
     (if error then Inl (failure IoError ''the persistence directory could not be listed'')
      else if io_stat io name then list_entries io True segments es
      else case entry of
        Other \<Rightarrow> list_entries io False segments es
      | Regular bytes \<Rightarrow>
          (case parse_segment_file_name name of
             None \<Rightarrow> list_entries io False segments es
           | Some sequence \<Rightarrow>
               list_entries io False
                 (segments @ [\<lparr>si_name = name,
                    si_bytes = (if io_size io name then 0 else of_nat (length bytes)),
                    si_sequence = sequence\<rparr>]) es))"

text \<open>An iterator that cannot be constructed is the end iterator: the loop does not run.\<close>

definition listed_entries :: "io_faults \<Rightarrow> disk \<Rightarrow> dir_entries" where
  "listed_entries io d = (if io_listing io then [] else dk_entries d)"

definition list_segments :: "io_faults \<Rightarrow> disk \<Rightarrow> segment_info list result" where
  "list_segments io d =
     (if \<not> dk_exists d \<or> io_exists io then Inr []
      else qobs_try_assign (list_entries io False [] (listed_entries io d))
             (\<lambda>segments. Inr (sort_key si_sequence segments)))"

definition next_after :: "u64 \<Rightarrow> segment_info \<Rightarrow> u64" where
  "next_after next segment = (if si_sequence segment \<ge> next then si_sequence segment + 1 else next)"

definition open_persistence ::
    "io_faults \<Rightarrow> persistence_store \<Rightarrow> disk \<Rightarrow> status \<times> persistence_store \<times> disk" where
  "open_persistence io ps d =
     (let limits_status = validate_persistence_limits (ps_limits ps)
      in if \<not> status_ok limits_status then (limits_status, ps, d)
      else if io_mkdir io
      then (failure IoError (''the persistence directory could not be created: '' @ ps_directory ps), ps, d)
      else let d = d\<lparr>dk_exists := True\<rparr>
      in if io_not_directory io
      then (failure IoError (''the persistence path is not a directory: '' @ ps_directory ps), ps, d)
      else case list_segments io d of
        Inl status \<Rightarrow> (status, ps, d)
      | Inr segments \<Rightarrow> (success, ps\<lparr>ps_next_sequence := foldl next_after 1 segments\<rparr>, d))"

section \<open>Writing\<close>

definition flush_and_sync :: "io_faults \<Rightarrow> status" where
  "flush_and_sync io =
     (if io_flush io then failure IoError ''flushing the persistence file failed''
      else if io_fsync io then failure IoError ''syncing the persistence file failed''
      else success)"

text \<open>The loop that removes the oldest segments.\<close>

fun rotate_segments ::
    "io_faults \<Rightarrow> nat \<Rightarrow> segment_info list \<Rightarrow> persistence_report \<Rightarrow> disk \<Rightarrow> persistence_report \<times> disk" where
  "rotate_segments io limit [] stats d = (stats, d)"
| "rotate_segments io limit (s # ss) stats d =
     (if length (s # ss) > limit
      then if io_remove io (si_name s) then (stats, d)
           else rotate_segments io limit ss (stats\<lparr>pr_segments_rotated := pr_segments_rotated stats + 1\<rparr>)
                  (disk_remove (si_name s) d)
      else (stats, d))"

text \<open>The temporary file, up to its sync. A failed step removes it again.\<close>

definition write_temp :: "io_faults \<Rightarrow> string \<Rightarrow> u8 list \<Rightarrow> disk \<Rightarrow> status \<times> disk" where
  "write_temp io temp encoded d =
     (if io_open_write io then (failure IoError ''the temporary segment could not be created'', d)
      else let d = disk_create temp d
      in case io_written io of
        Some n \<Rightarrow>
          let d = disk_write temp encoded (min n (length encoded - 1)) d
          in (failure IoError ''the segment could not be written completely'',
              if io_remove io temp then d else disk_remove temp d)
      | None \<Rightarrow>
          let d = disk_write temp encoded (length encoded) d; sync_status = flush_and_sync io
          in if \<not> status_ok sync_status
             then (sync_status, if io_remove io temp then d else disk_remove temp d)
             else (success, d))"

definition publish :: "io_faults \<Rightarrow> string \<Rightarrow> string \<Rightarrow> disk \<Rightarrow> status \<times> disk" where
  "publish io temp final d =
     (if \<not> io_rename io then (success, disk_rename temp final d)
      else let d = (if io_remove io final then d else disk_remove final d)
      in if io_rename_again io
      then (failure IoError ''the segment could not be published atomically'', d)
      else (success, disk_rename temp final d))"

text \<open>The report is written on success only.\<close>

definition write_snapshot ::
    "io_faults \<Rightarrow> durable_snapshot \<Rightarrow> persistence_store \<Rightarrow> disk
       \<Rightarrow> status \<times> persistence_report option \<times> persistence_store \<times> disk" where
  "write_snapshot io snapshot ps d =
     (case encode_snapshot snapshot (ps_limits ps) of
        Inl status \<Rightarrow> (status, None, ps, d)
      | Inr encoded \<Rightarrow>
          if of_nat (length encoded) > max_segment_bytes (ps_limits ps)
          then (failure LimitExceeded ''the encoded snapshot exceeds the configured segment size'', None, ps, d)
          else let sequence = ps_next_sequence ps;
                   temp = segment_temp_name sequence; final = segment_file_name sequence
          in case write_temp io temp encoded d of (status, d) \<Rightarrow>
             if \<not> status_ok status then (status, None, ps, d)
             else case publish io temp final d of (status, d) \<Rightarrow>
             if \<not> status_ok status then (status, None, ps, d)
             else let stats = ps_stats ps;
                      stats = stats\<lparr>pr_segments_written := pr_segments_written stats + 1,
                        pr_bytes_written := pr_bytes_written stats + of_nat (length encoded)\<rparr>;
                      ps = ps\<lparr>ps_next_sequence := sequence + 1, ps_stats := stats\<rparr>
             in case list_segments io d of
               Inl status \<Rightarrow> (status, None, ps, d)
             | Inr segments \<Rightarrow>
                 (case rotate_segments io (max_segments (ps_limits ps)) segments stats d of
                    (stats, d) \<Rightarrow> (success, Some stats, ps\<lparr>ps_stats := stats\<rparr>, d)))"

section \<open>Recovery\<close>

definition read_file_bounded ::
    "io_faults \<Rightarrow> string \<Rightarrow> u64 \<Rightarrow> disk \<Rightarrow> u8 list result" where
  "read_file_bounded io name max_bytes d =
     (let bytes = disk_content name d
      in if io_size io name then Inl (failure IoError ''the segment size could not be read'')
      else if of_nat (length bytes) > max_bytes
      then Inl (failure LimitExceeded ''the segment is larger than the configured maximum'')
      else if io_open_read io name
      then Inl (failure IoError ''the segment could not be opened for reading'')
      else if io_short_read io name
      then Inl (failure IoError ''the segment could not be read completely'')
      else Inr bytes)"

definition keep_first :: "string \<Rightarrow> string \<Rightarrow> string" where
  "keep_first first diagnostic = (if first = [] then diagnostic else first)"

definition skip_damaged :: "persistence_report \<Rightarrow> persistence_report" where
  "skip_damaged stats = stats\<lparr>pr_damaged_segments_skipped := pr_damaged_segments_skipped stats + 1\<rparr>"

definition recovered_from :: "string \<Rightarrow> durable_snapshot \<Rightarrow> decode_report \<Rightarrow> recovery_outcome" where
  "recovered_from name snapshot report =
     \<lparr>ro_recovered = True, ro_report = report, ro_snapshot = snapshot, ro_source = name,
      ro_diagnostic =
        (if report_clean report then ''the newest segment decoded cleanly''
         else ''the newest readable segment decoded with damage: '' @ dp_diagnostic report)\<rparr>"

text \<open>The loop over the segments, newest first.\<close>

fun newest_loop ::
    "io_faults \<Rightarrow> persistence_limits \<Rightarrow> disk \<Rightarrow> segment_info list \<Rightarrow> string \<Rightarrow> persistence_report
       \<Rightarrow> recovery_outcome \<times> persistence_report" where
  "newest_loop io limits d [] first stats =
     (empty_recovery_outcome
        \<lparr>ro_diagnostic := (if first = [] then ''no persistence segment could be decoded'' else first)\<rparr>,
      stats\<lparr>pr_recovery_failures := pr_recovery_failures stats + 1\<rparr>)"
| "newest_loop io limits d (s # ss) first stats =
     (case read_file_bounded io (si_name s) (max_segment_bytes limits) d of
        Inl status \<Rightarrow> newest_loop io limits d ss (keep_first first (st_message status)) (skip_damaged stats)
      | Inr bytes \<Rightarrow>
          (case decode_snapshot bytes limits of (status, snapshot, report) \<Rightarrow>
             if \<not> status_ok status
             then newest_loop io limits d ss
                    (keep_first first (if dp_diagnostic report = [] then st_message status
                                       else dp_diagnostic report))
                    (skip_damaged stats)
             else (recovered_from (si_name s) snapshot report,
                   stats\<lparr>pr_recovery_successes := pr_recovery_successes stats + 1\<rparr>)))"

definition recover_segments ::
    "io_faults \<Rightarrow> persistence_store \<Rightarrow> disk \<Rightarrow> status \<times> recovery_outcome \<times> persistence_store" where
  "recover_segments io ps d =
     (let stats = ps_stats ps;
          stats = stats\<lparr>pr_recovery_attempts := pr_recovery_attempts stats + 1\<rparr>
      in case list_segments io d of
        Inl status \<Rightarrow> (status, empty_recovery_outcome, ps\<lparr>ps_stats := stats\<rparr>)
      | Inr segments \<Rightarrow>
          if segments = []
          then (success, empty_recovery_outcome\<lparr>ro_diagnostic := ''no persistence segment is present''\<rparr>,
                ps\<lparr>ps_stats := stats\<lparr>pr_recovery_failures := pr_recovery_failures stats + 1\<rparr>\<rparr>)
          else case newest_loop io (ps_limits ps) d (rev segments) [] stats of
            (outcome, stats) \<Rightarrow> (success, outcome, ps\<lparr>ps_stats := stats\<rparr>))"

section \<open>Clearing\<close>

fun doomed_entries :: "io_faults \<Rightarrow> bool \<Rightarrow> string list \<Rightarrow> dir_entries \<Rightarrow> string list result" where
  "doomed_entries io error doomed [] = Inr doomed"
| "doomed_entries io error doomed ((name, entry) # es) =
     (if error then Inl (failure IoError ''the persistence directory could not be listed'')
      else if io_stat io name then doomed_entries io True doomed es
      else if entry = Other then doomed_entries io False doomed es
      else if parse_segment_file_name name \<noteq> None \<or> ends_with name kTempSuffix
      then doomed_entries io False (doomed @ [name]) es
      else doomed_entries io False doomed es)"

fun remove_doomed :: "io_faults \<Rightarrow> string list \<Rightarrow> disk \<Rightarrow> status \<times> disk" where
  "remove_doomed io [] d = (success, d)"
| "remove_doomed io (name # names) d =
     (if io_remove io name then (failure IoError ''a persistence segment could not be removed'', d)
      else remove_doomed io names (disk_remove name d))"

definition clear_segments :: "io_faults \<Rightarrow> disk \<Rightarrow> status \<times> disk" where
  "clear_segments io d =
     (case doomed_entries io False [] (if dk_exists d then listed_entries io d else []) of
        Inl status \<Rightarrow> (status, d)
      | Inr doomed \<Rightarrow> remove_doomed io doomed d)"

end
