(* ===== verification/Persistence_Properties.thy ===== *)
theory Persistence_Properties
  imports Segment_Files Segment_Properties
begin

text \<open>
  What the directory of segments promises: file names round trip, a crash at any point of a write
  leaves the old snapshot or the new one, recovery uses the newest segment that can be read, and
  rotation keeps the newest segments.
\<close>

section \<open>Names\<close>

lemma dec_value_zeros: "dec_value (replicate k (CHR ''0'') @ v) = dec_value v"
proof -
  have "foldl (\<lambda>a c. a * 10 + digit_value c) 0 (replicate k (CHR ''0'')) = 0"
    by (induction k) (simp_all add: digit_value_def)
  then show ?thesis by (simp add: dec_value_def)
qed

lemma zero_pad_digits: "list_all is_digit (zero_pad n w)" "zero_pad n w \<noteq> []"
proof -
  have "is_digit (CHR ''0'')" by (simp add: is_digit_def)
  then show "list_all is_digit (zero_pad n w)"
    using dec_nat_digits [of "unat n"] by (auto simp: zero_pad_def dec_u64_def list_all_iff)
  show "zero_pad n w \<noteq> []" using dec_nat.simps [of "unat n"] by (simp add: zero_pad_def dec_u64_def)
qed

lemma parse_zero_pad: "parse_u64 (zero_pad n w) = Some n"
  using zero_pad_digits [of n w] parse_dec_u64 [of n] dec_value_zeros [of "w - length (dec_u64 n)" "dec_u64 n"]
  by (simp add: parse_u64_eq zero_pad_def split: if_splits)

lemma parse_segment_file_name_back: "parse_segment_file_name (segment_file_name n) = Some n"
  by (simp add: parse_segment_file_name_def segment_file_name_def starts_with_def ends_with_def
      kSegmentPrefix_def kSegmentSuffix_def parse_zero_pad)

lemma parse_segment_temp_name: "parse_segment_file_name (segment_temp_name n) = None"
proof -
  have "last (segment_temp_name n) = CHR ''p''" by (simp add: segment_temp_name_def kTempSuffix_def)
  moreover have "last v = CHR ''s''" if "ends_with v kSegmentSuffix" for v
    using that unfolding ends_with_def kSegmentSuffix_def
    by (metis append_take_drop_id last_appendR list.distinct(1) last.simps)
  ultimately show ?thesis by (auto simp: parse_segment_file_name_def)
qed

section \<open>The segments of a directory\<close>

definition is_segment :: "string \<times> dir_entry \<Rightarrow> bool" where
  "is_segment e \<longleftrightarrow> parse_segment_file_name (fst e) \<noteq> None \<and> snd e \<noteq> Other"

definition segment_part :: "dir_entries \<Rightarrow> dir_entries" where
  "segment_part es = filter is_segment es"

definition info_of :: "string \<times> dir_entry \<Rightarrow> segment_info" where
  "info_of e = \<lparr>si_name = fst e,
     si_bytes = (case snd e of Regular bytes \<Rightarrow> of_nat (length bytes) | Other \<Rightarrow> 0),
     si_sequence = the (parse_segment_file_name (fst e))\<rparr>"

lemma list_entries_quiet:
  "list_entries no_faults False acc es = Inr (acc @ map info_of (segment_part es))"
proof (induction es arbitrary: acc)
  case (Cons e es)
  obtain name entry where "e = (name, entry)" by force
  then show ?case
    using Cons.IH by (cases entry) (auto simp: no_faults_def segment_part_def is_segment_def info_of_def split: option.splits)
qed (simp add: segment_part_def)

text \<open>The segments in the order of their numbers. The source sorts with \<^verbatim>\<open>std::sort\<close>, which may reorder
  segments of one number; the stable sort here is one of its results.\<close>

definition segments_sorted :: "dir_entries \<Rightarrow> segment_info list" where
  "segments_sorted es = sort_key si_sequence (map info_of (segment_part es))"

lemma list_segments_quiet: "dk_exists d \<Longrightarrow> list_segments no_faults d = Inr (segments_sorted (dk_entries d))"
  by (simp add: list_segments_def list_entries_quiet listed_entries_def segments_sorted_def qobs_try_assign_def)
    (simp add: no_faults_def list_entries_quiet [unfolded no_faults_def])

text \<open>What a listing delivers under faults is some of the segments.\<close>

definition info_key :: "segment_info \<Rightarrow> string \<times> u64" where
  "info_key s = (si_name s, si_sequence s)"

lemma list_entries_some:
  "list_entries io error acc es = Inr segments \<Longrightarrow>
   \<exists>es'. subseq es' (segment_part es)
     \<and> map info_key segments = map info_key acc @ map (\<lambda>e. info_key (info_of e)) es'"
proof (induction es arbitrary: error acc)
  case (Cons e es)
  obtain name entry where e: "e = (name, entry)" by force
  have skip: "\<exists>es'. subseq es' (segment_part ((name, entry) # es))
      \<and> map info_key segments = map info_key acc @ map (\<lambda>e. info_key (info_of e)) es'"
    if "list_entries io b acc es = Inr segments" for b
    using Cons.IH [OF that] by (auto simp: segment_part_def)
  show ?case
  proof (cases "error \<or> io_stat io name \<or> entry = Other \<or> parse_segment_file_name name = None")
    case True
    then obtain b where "list_entries io b acc es = Inr segments"
      using Cons.prems by (auto simp: e split: if_splits dir_entry.splits option.splits)
    then show ?thesis unfolding e by (rule skip)
  next
    case False
    then obtain bytes n where b: "entry = Regular bytes" "parse_segment_file_name name = Some n"
      by (cases entry) auto
    let ?s = "\<lparr>si_name = name, si_bytes = (if io_size io name then 0 else of_nat (length bytes)), si_sequence = n\<rparr>"
    have "list_entries io False (acc @ [?s]) es = Inr segments" using Cons.prems False b by (simp add: e)
    from Cons.IH [OF this] obtain es' where "subseq es' (segment_part es)"
      "map info_key segments = map info_key (acc @ [?s]) @ map (\<lambda>e. info_key (info_of e)) es'" by blast
    moreover have "info_key (info_of e) = info_key ?s" using b by (simp add: e info_of_def info_key_def)
    ultimately show ?thesis
      using b by (intro exI [of _ "e # es'"]) (simp add: e segment_part_def is_segment_def)
  qed
qed (auto simp: segment_part_def)

lemma subseq_set: "subseq xs ys \<Longrightarrow> set xs \<subseteq> set ys"
  by (induction rule: list_emb.induct) auto

lemma subseq_distinct: "subseq xs ys \<Longrightarrow> distinct ys \<Longrightarrow> distinct xs"
  by (induction rule: list_emb.induct) (auto dest: subseq_set)

definition sequence_of :: "string \<Rightarrow> u64" where
  "sequence_of name = the (parse_segment_file_name name)"

lemma list_segments_some:
  assumes "list_segments io d = Inr segments" "distinct (map fst (dk_entries d))"
  shows "distinct (map si_name segments)" "sorted (map si_sequence segments)"
    "\<And>s. s \<in> set segments \<Longrightarrow> si_sequence s = sequence_of (si_name s)
      \<and> (\<exists>e. (si_name s, e) \<in> set (segment_part (dk_entries d)))"
proof -
  consider "segments = []" | listed where "list_entries io False [] (dk_entries d) = Inr listed" "segments = sort_key si_sequence listed"
    using assms(1)
    by (auto simp: list_segments_def listed_entries_def qobs_try_assign_def split: if_splits sum.splits)
  then have "distinct (map si_name segments) \<and> sorted (map si_sequence segments)
    \<and> (\<forall>s \<in> set segments. si_sequence s = sequence_of (si_name s)
      \<and> (\<exists>e. (si_name s, e) \<in> set (segment_part (dk_entries d))))"
  proof cases
    case 2
    obtain es' where es': "subseq es' (segment_part (dk_entries d))"
        "map info_key listed = map (\<lambda>e. info_key (info_of e)) es'"
      using list_entries_some [OF 2(1)] by auto
    have sub: "subseq es' (dk_entries d)"
      using es'(1) subseq_filter_left [of is_segment "dk_entries d"] unfolding segment_part_def
      by (rule subseq_order.trans)
    have names: "map si_name listed = map fst es'"
      using arg_cong [OF es'(2), of "map fst"] by (simp add: info_key_def info_of_def comp_def)
    have "distinct (map si_name listed)"
      unfolding names using subseq_distinct [OF subseq_map [OF sub] assms(2)] .
    then have "distinct (map si_name segments)" by (simp add: 2(2) distinct_map)
    moreover have "si_sequence s = sequence_of (si_name s) \<and> (\<exists>e. (si_name s, e) \<in> set (segment_part (dk_entries d)))"
      if "s \<in> set segments" for s
    proof -
      from that have "info_key s \<in> set (map info_key listed)" by (simp add: 2(2))
      then obtain e where "e \<in> set es'" "info_key s = info_key (info_of e)" unfolding es'(2) by auto
      moreover from this have "e \<in> set (segment_part (dk_entries d))"
        using subseq_set [OF es'(1)] by blast
      ultimately show ?thesis by (auto simp: info_key_def info_of_def sequence_of_def intro: exI [of _ "snd e"])
    qed
    ultimately show ?thesis by (simp add: 2(2))
  qed simp
  then show "distinct (map si_name segments)" "sorted (map si_sequence segments)"
    "\<And>s. s \<in> set segments \<Longrightarrow> si_sequence s = sequence_of (si_name s)
      \<and> (\<exists>e. (si_name s, e) \<in> set (segment_part (dk_entries d)))" by simp_all
qed

section \<open>Recovery sees the segments only\<close>

definition restored_from :: "persistence_store \<Rightarrow> dir_entries \<Rightarrow> recovery_outcome" where
  "restored_from ps es =
     fst (snd (recover_segments no_faults ps \<lparr>dk_exists = True, dk_entries = es, dk_passed = []\<rparr>))"

lemma newest_loop_cong:
  "(\<And>s. s \<in> set ss \<Longrightarrow> disk_content (si_name s) d = disk_content (si_name s) d') \<Longrightarrow>
   newest_loop io limits d ss first stats = newest_loop io limits d' ss first stats"
  by (induction ss arbitrary: first stats) (simp_all add: read_file_bounded_def split: sum.split prod.split)

lemma map_of_segment_part:
  assumes "distinct (map fst es)" "(name, e) \<in> set (segment_part es)"
  shows "map_of es name = Some e"
  using assms by (simp add: segment_part_def)

lemma segment_part_content:
  assumes "distinct (map fst es)" "s \<in> set (segments_sorted es)"
  shows "map_of es (si_name s) = map_of (segment_part es) (si_name s)"
proof -
  obtain e where e: "(si_name s, e) \<in> set (segment_part es)"
    using assms(2) by (auto simp: segments_sorted_def info_of_def)
  moreover have "distinct (map fst (segment_part es))"
    using assms(1) subseq_distinct [OF subseq_map [OF subseq_filter_left]] unfolding segment_part_def by blast
  ultimately show ?thesis using map_of_segment_part [OF assms(1)] by simp
qed

lemma restored_from_cong:
  assumes "distinct (map fst es)" "distinct (map fst es')" "segment_part es = segment_part es'"
  shows "restored_from ps es = restored_from ps es'"
proof -
  let ?d = "\<lambda>es. \<lparr>dk_exists = True, dk_entries = es, dk_passed = []\<rparr>"
  have same: "segments_sorted es = segments_sorted es'" using assms(3) by (simp add: segments_sorted_def)
  have "newest_loop io limits (?d es) (rev (segments_sorted es)) f stats
      = newest_loop io limits (?d es') (rev (segments_sorted es)) f stats" for io limits f stats
  proof (rule newest_loop_cong)
    fix s assume "s \<in> set (rev (segments_sorted es))"
    then show "disk_content (si_name s) (?d es) = disk_content (si_name s) (?d es')"
      using segment_part_content [OF assms(1), of s] segment_part_content [OF assms(2), of s] assms(3) same
      by (simp add: disk_content_def)
  qed
  then show ?thesis
    by (simp add: restored_from_def recover_segments_def list_segments_quiet same Let_def split: prod.split)
qed

text \<open>A segment that is newer than every other, and reads back, is what recovery delivers.\<close>

definition newest :: "dir_entries \<Rightarrow> u64 \<Rightarrow> u8 list \<Rightarrow> bool" where
  "newest es n bytes \<longleftrightarrow>
     distinct (map fst es) \<and> (segment_file_name n, Regular bytes) \<in> set es
     \<and> (\<forall>e \<in> set (segment_part es). fst e \<noteq> segment_file_name n \<longrightarrow> sequence_of (fst e) < n)"

lemma sort_key_max_last:
  assumes "sorted (map f xs)" "x \<in> set xs" "\<And>y. y \<in> set xs \<Longrightarrow> y \<noteq> x \<Longrightarrow> f y < (f x :: 'b::linorder)" "xs \<noteq> []"
  shows "last xs = x"
proof (rule ccontr)
  assume *: "last xs \<noteq> x"
  then have "f (last xs) < f x" using assms(3) [of "last xs"] assms(4) by simp
  moreover have "f x \<le> f (last xs)"
  proof -
    have split: "xs = butlast xs @ [last xs]" using assms(4) by simp
    then have "x \<in> set (butlast xs)" using assms(2) * by (metis UnE empty_iff list.set(1,2) insertE set_append)
    then show ?thesis using assms(1) by (subst (asm) split) (auto simp: sorted_append)
  qed
  ultimately show False by simp
qed

lemma newest_last:
  assumes "newest es n bytes"
  shows "segments_sorted es \<noteq> []" "si_name (last (segments_sorted es)) = segment_file_name n"
proof -
  let ?e = "(segment_file_name n, Regular bytes)"
  have e: "?e \<in> set (segment_part es)"
    using assms by (simp add: newest_def segment_part_def is_segment_def parse_segment_file_name_back)
  then have in_sorted: "info_of ?e \<in> set (segments_sorted es)" by (simp add: segments_sorted_def)
  then show "segments_sorted es \<noteq> []" by auto
  have n: "si_sequence (info_of ?e) = n" by (simp add: info_of_def parse_segment_file_name_back)
  have "si_sequence s < si_sequence (info_of ?e)" if s: "s \<in> set (segments_sorted es)" "s \<noteq> info_of ?e" for s
  proof -
    from s obtain x where x: "x \<in> set (segment_part es)" "s = info_of x" by (auto simp: segments_sorted_def)
    have "fst x \<noteq> segment_file_name n"
    proof
      assume "fst x = segment_file_name n"
      then have "(segment_file_name n, snd x) \<in> set (segment_part es)" using x(1) by (metis prod.collapse)
      then have "map_of es (segment_file_name n) = Some (snd x)"
        using map_of_segment_part assms by (simp add: newest_def)
      moreover have "map_of es (segment_file_name n) = Some (Regular bytes)"
        using map_of_segment_part [OF _ e] assms by (simp add: newest_def)
      ultimately have "x = ?e" using \<open>fst x = segment_file_name n\<close> by (simp add: prod_eq_iff)
      then show False using s(2) x(2) by simp
    qed
    then show ?thesis using assms x n by (simp add: newest_def info_of_def sequence_of_def)
  qed
  moreover have "sorted (map si_sequence (segments_sorted es))" by (simp add: segments_sorted_def)
  ultimately have "last (segments_sorted es) = info_of ?e"
    using in_sorted by (intro sort_key_max_last) auto
  then show "si_name (last (segments_sorted es)) = segment_file_name n" by (simp add: info_of_def)
qed

lemma newest_restored:
  assumes "newest es n bytes" "snapshot_fits (ps_limits ps) s" "encode_snapshot s (ps_limits ps) = Inr bytes"
    and "\<not> of_nat (length bytes) > max_segment_bytes (ps_limits ps)"
  shows "\<exists>rep. restored_from ps es = recovered_from (segment_file_name n) s rep \<and> report_clean rep"
proof -
  obtain rep where rep: "decode_snapshot bytes (ps_limits ps) = (success, s, rep)" "report_clean rep"
    using segment_decodes [OF assms(2,3)] by blast
  have shape: "rev (segments_sorted es) = last (segments_sorted es) # rev (butlast (segments_sorted es))"
    using newest_last(1) [OF assms(1)] by (metis append_butlast_last_id rev.simps(2) rev_rev_ident)
  have "map_of es (segment_file_name n) = Some (Regular bytes)"
    using assms(1) by (simp add: newest_def)
  then have "read_file_bounded no_faults (segment_file_name n) (max_segment_bytes (ps_limits ps))
      \<lparr>dk_exists = True, dk_entries = es, dk_passed = []\<rparr> = Inr bytes"
    using assms(4) by (simp add: read_file_bounded_def disk_content_def no_faults_def)
  then have "restored_from ps es = recovered_from (segment_file_name n) s rep"
    using newest_last [OF assms(1)] rep
    by (simp add: restored_from_def recover_segments_def list_segments_quiet shape Let_def split: prod.split)
  then show ?thesis using rep(2) by blast
qed

section \<open>Every directory a write passes through\<close>

definition all_passed :: "(dir_entries \<Rightarrow> bool) \<Rightarrow> disk \<Rightarrow> bool" where
  "all_passed Q d \<longleftrightarrow> Q (dk_entries d) \<and> (\<forall>es \<in> set (dk_passed d). Q es)"

definition same_segments :: "dir_entries \<Rightarrow> dir_entries \<Rightarrow> bool" where
  "same_segments es0 es \<longleftrightarrow> distinct (map fst es) \<and> segment_part es = segment_part es0"

lemma all_passed_pass: "all_passed Q d \<Longrightarrow> Q es \<Longrightarrow> all_passed Q (disk_pass es d)"
  by (auto simp: all_passed_def disk_pass_def)

lemma all_passed_mono: "all_passed Q d \<Longrightarrow> (\<And>es. Q es \<Longrightarrow> R es) \<Longrightarrow> all_passed R d"
  by (auto simp: all_passed_def)

lemma dk_entries_pass [simp]: "dk_entries (disk_pass es d) = es"
  by (simp add: disk_pass_def)

lemma segment_part_update: "parse_segment_file_name n = None \<Longrightarrow> segment_part (AList.update n e es) = segment_part es"
  by (induction es) (auto simp: segment_part_def is_segment_def)

lemma segment_part_delete:
  assumes "n \<notin> fst ` set (segment_part es)"
  shows "segment_part (AList.delete n es) = segment_part es"
  using assms by (induction es) (auto simp: segment_part_def split: if_splits)

lemma not_segment: "parse_segment_file_name n = None \<Longrightarrow> n \<notin> fst ` set (segment_part es)"
  by (auto simp: segment_part_def is_segment_def)

lemma same_segments_update:
  "same_segments es0 es \<Longrightarrow> parse_segment_file_name n = None \<Longrightarrow> same_segments es0 (AList.update n e es)"
  by (simp add: same_segments_def segment_part_update distinct_update)

lemma same_segments_delete:
  "same_segments es0 es \<Longrightarrow> n \<notin> fst ` set (segment_part es0) \<Longrightarrow> same_segments es0 (AList.delete n es)"
  using segment_part_delete [of n es] by (simp add: same_segments_def distinct_delete)

lemma disk_write_passes:
  assumes "all_passed (same_segments es0) d" "parse_segment_file_name name = None"
  shows "all_passed (same_segments es0) (disk_write name bytes n d)
    \<and> map_of (dk_entries (disk_write name bytes n d)) name = Some (Regular (take n bytes))"
proof -
  have step: "all_passed (same_segments es0) (foldl (\<lambda>d k. disk_pass (AList.update name (Regular (take k bytes)) (dk_entries d)) d) d ks)" for ks
    using assms(1)
  proof (induction ks arbitrary: d)
    case (Cons k ks)
    have "same_segments es0 (dk_entries d)" using Cons.prems by (simp add: all_passed_def)
    then show ?case
      using Cons.IH [of "disk_pass (AList.update name (Regular (take k bytes)) (dk_entries d)) d"]
        all_passed_pass [OF Cons.prems] same_segments_update [OF _ assms(2)] by simp
  qed simp
  show ?thesis using step [of "[0..<Suc n]"] by (simp add: disk_write_def update_conv')
qed

lemma disk_remove_passes:
  "all_passed (same_segments es0) d \<Longrightarrow> n \<notin> fst ` set (segment_part es0) \<Longrightarrow>
   all_passed (same_segments es0) (disk_remove n d)"
  unfolding disk_remove_def by (rule all_passed_pass) (simp_all add: all_passed_def same_segments_delete)

lemma write_temp_passes:
  assumes "all_passed (same_segments es0) d" "write_temp io (segment_temp_name n) encoded d = (status, d')"
  shows "all_passed (same_segments es0) d'
    \<and> (status_ok status \<longrightarrow> map_of (dk_entries d') (segment_temp_name n) = Some (Regular encoded))"
proof -
  let ?t = "segment_temp_name n"
  have t: "parse_segment_file_name ?t = None" "?t \<notin> fst ` set (segment_part es0)"
    using parse_segment_temp_name not_segment by blast+
  have c: "all_passed (same_segments es0) (disk_create ?t d)"
    unfolding disk_create_def using assms(1) t(1)
    by (intro all_passed_pass same_segments_update) (simp_all add: all_passed_def)
  note w = disk_write_passes [OF c t(1), of encoded]
  show ?thesis
    using assms w [of "length encoded"] conjunct1 [OF w] disk_remove_passes [OF conjunct1 [OF w] t(2)]
    by (auto simp: write_temp_def flush_and_sync_def Let_def split: if_splits option.splits)
qed

text \<open>Publishing gives a directory in which the new segment is the newest.\<close>

definition fresh_number :: "u64 \<Rightarrow> dir_entries \<Rightarrow> bool" where
  "fresh_number n es \<longleftrightarrow> (\<forall>e \<in> set (segment_part es). sequence_of (fst e) < n)"

lemma fresh_not_segment: "fresh_number n es \<Longrightarrow> segment_file_name n \<notin> fst ` set (segment_part es)"
  by (force simp: fresh_number_def sequence_of_def parse_segment_file_name_back)

lemma rename_newest:
  assumes "same_segments es0 es" "fresh_number n es0"
  shows "newest (AList.update (segment_file_name n) (Regular bytes) (AList.delete (segment_temp_name n) es)) n bytes"
proof -
  let ?f = "segment_file_name n" and ?es = "AList.delete (segment_temp_name n) es"
  have es: "same_segments es0 ?es"
    using same_segments_delete [OF assms(1)] not_segment [OF parse_segment_temp_name] by blast
  then have dist: "distinct (map fst (AList.update ?f (Regular bytes) ?es))"
    by (simp add: same_segments_def distinct_update)
  have "sequence_of (fst e) < n"
    if "e \<in> set (segment_part (AList.update ?f (Regular bytes) ?es))" "fst e \<noteq> ?f" for e
  proof -
    have mem: "e \<in> set (AList.update ?f (Regular bytes) ?es)" "is_segment e" using that(1) by (simp_all add: segment_part_def)
    then have "map_of (AList.update ?f (Regular bytes) ?es) (fst e) = Some (snd e)" using dist by simp
    then have "map_of ?es (fst e) = Some (snd e)" using that(2) by (simp add: update_conv')
    then have "e \<in> set (segment_part ?es)"
      using mem(2) map_of_SomeD [of ?es "fst e" "snd e"] by (simp add: segment_part_def)
    then show ?thesis using es assms(2) by (simp add: same_segments_def fresh_number_def)
  qed
  moreover have "map_of (AList.update ?f (Regular bytes) ?es) ?f = Some (Regular bytes)" by (simp add: update_conv')
  ultimately show ?thesis using dist map_of_SomeD by (fastforce simp: newest_def)
qed

lemma publish_passes:
  assumes "all_passed (same_segments es0) d" "fresh_number n es0"
    and "map_of (dk_entries d) (segment_temp_name n) = Some (Regular bytes)"
    and "publish io (segment_temp_name n) (segment_file_name n) d = (status, d')"
  shows "all_passed (\<lambda>es. same_segments es0 es \<or> newest es n bytes) d'
    \<and> (status_ok status \<longrightarrow> newest (dk_entries d') n bytes)"
proof -
  let ?Q = "\<lambda>es. same_segments es0 es \<or> newest es n bytes"
  have temp: "segment_temp_name n \<noteq> segment_file_name n"
    using parse_segment_file_name_back [of n] parse_segment_temp_name [of n] by auto
  have rename: "all_passed ?Q (disk_rename (segment_temp_name n) (segment_file_name n) x)
      \<and> newest (dk_entries (disk_rename (segment_temp_name n) (segment_file_name n) x)) n bytes"
    if "all_passed (same_segments es0) x" "map_of (dk_entries x) (segment_temp_name n) = Some (Regular bytes)" for x
  proof -
    have "newest (AList.update (segment_file_name n) (Regular bytes) (AList.delete (segment_temp_name n) (dk_entries x))) n bytes"
      using that(1) assms(2) by (intro rename_newest) (simp_all add: all_passed_def)
    then show ?thesis
      using that(2) all_passed_pass [OF all_passed_mono [OF that(1)], of ?Q] by (simp add: disk_rename_def)
  qed
  let ?d = "if io_remove io (segment_file_name n) then d else disk_remove (segment_file_name n) d"
  have d: "all_passed (same_segments es0) ?d"
    using assms(1) disk_remove_passes [OF assms(1) fresh_not_segment [OF assms(2)]] by simp
  moreover have "map_of (dk_entries ?d) (segment_temp_name n) = Some (Regular bytes)"
    using assms(3) temp by (simp add: disk_remove_def delete_conv')
  ultimately show ?thesis
    using assms(4) rename [OF assms(1,3)] rename [of ?d] all_passed_mono [OF d, of ?Q]
    by (auto simp: publish_def Let_def split: if_splits)
qed

text \<open>Rotation never removes the newest segment.\<close>

lemma newest_delete:
  assumes "newest es n bytes" "name \<noteq> segment_file_name n"
  shows "newest (AList.delete name es) n bytes"
proof -
  have "set (AList.delete name es) = {e \<in> set es. fst e \<noteq> name}" by (auto simp: AList.delete_eq)
  then show ?thesis using assms by (auto simp: newest_def segment_part_def distinct_delete)
qed

lemma rotate_passes:
  assumes "newest (dk_entries d) n bytes" "all_passed Q d" "\<And>es. newest es n bytes \<Longrightarrow> Q es"
    and "0 < limit" "segment_file_name n \<notin> set (map si_name (butlast segments))"
    and "rotate_segments io limit segments stats d = (stats', d')"
  shows "all_passed Q d' \<and> newest (dk_entries d') n bytes"
  using assms
proof (induction io limit segments stats d rule: rotate_segments.induct)
  case (2 io limit s ss stats d)
  show ?case
  proof (cases "length (s # ss) > limit \<and> \<not> io_remove io (si_name s)")
    case True
    then have "ss \<noteq> []" using 2(5) by auto
    then have name: "si_name s \<noteq> segment_file_name n" "segment_file_name n \<notin> set (map si_name (butlast ss))"
      using 2(6) by auto
    let ?d = "disk_remove (si_name s) d"
    have new: "newest (dk_entries ?d) n bytes"
      using newest_delete [OF 2(2) name(1)] by (simp add: disk_remove_def)
    then have "all_passed Q ?d"
      using all_passed_pass [OF 2(3)] 2(4) by (simp add: disk_remove_def)
    then show ?thesis using 2(1) [OF _ _ new _ 2(4,5) name(2)] 2(7) True by simp
  next
    case False
    then show ?thesis using 2 by (auto split: if_splits)
  qed
qed auto

lemma listed_newest_last:
  assumes "newest (dk_entries d) n bytes" "list_segments io d = Inr segments"
  shows "segment_file_name n \<notin> set (map si_name (butlast segments))"
proof
  assume "segment_file_name n \<in> set (map si_name (butlast segments))"
  then obtain s where s: "s \<in> set (butlast segments)" "si_name s = segment_file_name n" by auto
  have dist: "distinct (map fst (dk_entries d))" using assms(1) by (simp add: newest_def)
  note listed = list_segments_some [OF assms(2) dist]
  from s(1) have split: "segments = butlast segments @ [last segments]" by (cases segments) auto
  have "si_name (last segments) \<noteq> segment_file_name n"
    using listed(1) s by (subst (asm) split) (auto simp: image_iff)
  moreover have "last segments \<in> set segments" using split by (metis last_in_set snoc_eq_iff_butlast)
  ultimately have "si_sequence (last segments) < n"
    using listed(3) assms(1) by (force simp: newest_def)
  moreover have "si_sequence s \<le> si_sequence (last segments)"
    using listed(2) s(1) by (subst (asm) split) (auto simp: sorted_append)
  moreover have "si_sequence s = n"
    using listed(3) [of s] s in_set_butlastD [OF s(1)] by (simp add: sequence_of_def parse_segment_file_name_back)
  ultimately show False by simp
qed

lemma validated_max_segments: "status_ok (validate_persistence_limits limits) \<Longrightarrow> 0 < max_segments limits"
  by (auto simp: validate_persistence_limits_def require_positive_size_def split: if_splits)

lemma write_snapshot_passes:
  assumes "write_snapshot io s ps d = (status, report, ps', d')" "encode_snapshot s (ps_limits ps) = Inr encoded"
    and "distinct (map fst (dk_entries d))" "dk_passed d = []" "fresh_number (ps_next_sequence ps) (dk_entries d)"
  shows "all_passed (\<lambda>es. same_segments (dk_entries d) es
        \<or> newest es (ps_next_sequence ps) encoded \<and> \<not> of_nat (length encoded) > max_segment_bytes (ps_limits ps)) d'
    \<and> (status_ok status \<longrightarrow>
        newest (dk_entries d') (ps_next_sequence ps) encoded
        \<and> \<not> of_nat (length encoded) > max_segment_bytes (ps_limits ps))"
proof (cases "of_nat (length encoded) > max_segment_bytes (ps_limits ps)")
  case True
  then show ?thesis using assms by (auto simp: write_snapshot_def all_passed_def same_segments_def)
next
  case False
  let ?n = "ps_next_sequence ps" and ?Q = "\<lambda>es. same_segments (dk_entries d) es \<or> newest es (ps_next_sequence ps) encoded"
  have limits: "0 < max_segments (ps_limits ps)"
    using encode_shape [OF assms(2)] validated_max_segments by blast
  have start: "all_passed (same_segments (dk_entries d)) d"
    using assms(3,4) by (simp add: all_passed_def same_segments_def)
  obtain st1 d1 where w1: "write_temp io (segment_temp_name ?n) encoded d = (st1, d1)" by force
  note p1 = write_temp_passes [OF start w1]
  show ?thesis
  proof (cases "status_ok st1")
    case False
    then show ?thesis
      using assms(1,2) \<open>\<not> of_nat (length encoded) > _\<close> w1 all_passed_mono [of _ d1 ?Q] p1
      by (simp add: write_snapshot_def Let_def)
  next
    case ok1: True
    obtain st2 d2 where w2: "publish io (segment_temp_name ?n) (segment_file_name ?n) d1 = (st2, d2)" by force
    have p2: "all_passed ?Q d2 \<and> (status_ok st2 \<longrightarrow> newest (dk_entries d2) ?n encoded)"
      using publish_passes [OF _ assms(5) _ w2] p1 ok1 by blast
    show ?thesis
    proof (cases "status_ok st2")
      case False
      then show ?thesis using assms(1,2) \<open>\<not> of_nat (length encoded) > _\<close> w1 ok1 w2 p2
        by (simp add: write_snapshot_def Let_def)
    next
      case ok2: True
      then have new: "newest (dk_entries d2) ?n encoded" using p2 by blast
      show ?thesis
      proof (cases "list_segments io d2")
        case (Inl st3)
        then show ?thesis using assms(1,2) \<open>\<not> of_nat (length encoded) > _\<close> w1 ok1 w2 ok2 p2 new
          by (simp add: write_snapshot_def Let_def)
      next
        case (Inr segments)
        obtain stats d3 where w3: "rotate_segments io (max_segments (ps_limits ps)) segments
            ((ps_stats ps)\<lparr>pr_segments_written := pr_segments_written (ps_stats ps) + 1,
               pr_bytes_written := pr_bytes_written (ps_stats ps) + of_nat (length encoded)\<rparr>) d2 = (stats, d3)" by force
        have "all_passed ?Q d3 \<and> newest (dk_entries d3) ?n encoded"
          using rotate_passes [OF new conjunct1 [OF p2] _ limits listed_newest_last [OF new Inr] w3] by blast
        then show ?thesis using assms(1,2) \<open>\<not> of_nat (length encoded) > _\<close> w1 ok1 w2 ok2 Inr w3
          by (simp add: write_snapshot_def Let_def)
      qed
    qed
  qed
qed

section \<open>Rotation\<close>

lemma insort_key_max: "(\<And>z. z \<in> set zs \<Longrightarrow> f z < (f x :: 'b::linorder)) \<Longrightarrow> insort_key f x zs = zs @ [x]"
  by (induction zs) (auto simp: not_le [symmetric])

lemma insort_key_before: "f z < (f x :: 'b::linorder) \<Longrightarrow> insort_key f z (zs @ [x]) = insort_key f z zs @ [x]"
  by (induction zs) auto

lemma sort_key_insert_max:
  assumes "\<And>z. z \<in> set (xs @ ys) \<Longrightarrow> f z < (f x :: 'b::linorder)"
  shows "sort_key f (xs @ x # ys) = sort_key f (xs @ ys) @ [x]"
  using assms
proof (induction xs)
  case Nil
  then show ?case using insort_key_max [of "sort_key f ys" f x] by simp
next
  case (Cons z xs)
  then show ?case by (simp add: insort_key_before)
qed

lemma segment_part_publish:
  assumes "segment_file_name n \<notin> fst ` set (segment_part es)"
  shows "\<exists>xs ys. segment_part es = xs @ ys
    \<and> segment_part (AList.update (segment_file_name n) (Regular bytes) es) = xs @ (segment_file_name n, Regular bytes) # ys"
  using assms
proof (induction es)
  case Nil
  then show ?case by (simp add: segment_part_def is_segment_def parse_segment_file_name_back)
next
  case (Cons e es)
  show ?case
  proof (cases "fst e = segment_file_name n")
    case True
    then have "\<not> is_segment e" using Cons.prems by (auto simp: segment_part_def split: if_splits)
    then show ?thesis
      using True by (intro exI [of _ "[]"] exI [of _ "segment_part es"])
        (cases e, simp add: segment_part_def is_segment_def parse_segment_file_name_back)
  next
    case False
    have "segment_file_name n \<notin> fst ` set (segment_part es)"
      using Cons.prems by (auto simp: segment_part_def split: if_splits)
    from Cons.IH [OF this] obtain xs ys where "segment_part es = xs @ ys"
      "segment_part (AList.update (segment_file_name n) (Regular bytes) es) = xs @ (segment_file_name n, Regular bytes) # ys"
      by blast
    then show ?thesis
      using False by (intro exI [of _ "if is_segment e then e # xs else xs"] exI [of _ ys])
        (cases e, auto simp: segment_part_def)
  qed
qed

lemma segments_sorted_publish:
  assumes "same_segments es0 es" "fresh_number n es0"
  shows "segments_sorted (AList.update (segment_file_name n) (Regular bytes) (AList.delete (segment_temp_name n) es))
    = segments_sorted es0 @ [info_of (segment_file_name n, Regular bytes)]"
proof -
  let ?es = "AList.delete (segment_temp_name n) es"
  have part: "segment_part ?es = segment_part es0"
    using same_segments_delete [OF assms(1)] not_segment [OF parse_segment_temp_name] by (simp add: same_segments_def)
  obtain xs ys where xy: "segment_part es0 = xs @ ys"
    "segment_part (AList.update (segment_file_name n) (Regular bytes) ?es) = xs @ (segment_file_name n, Regular bytes) # ys"
    using segment_part_publish [of n ?es bytes] fresh_not_segment [OF assms(2)] unfolding part by blast
  have new: "si_sequence (info_of (segment_file_name n, Regular bytes)) = n"
    by (simp add: info_of_def parse_segment_file_name_back)
  have "si_sequence z < n" if "z \<in> set (map info_of (xs @ ys))" for z
    using that assms(2) unfolding xy(1) [symmetric] fresh_number_def
    by (auto simp: info_of_def sequence_of_def)
  then show ?thesis
    using sort_key_insert_max [of "map info_of xs" "map info_of ys" si_sequence "info_of (segment_file_name n, Regular bytes)"]
    by (simp add: segments_sorted_def xy new)
qed

lemma rotate_quiet:
  "rotate_segments no_faults limit segments stats d = (stats', d') \<Longrightarrow>
   dk_entries d' = filter (\<lambda>e. fst e \<notin> si_name ` set (take (length segments - limit) segments)) (dk_entries d)
   \<and> pr_segments_rotated stats' = pr_segments_rotated stats + of_nat (length segments - limit)"
proof (induction segments arbitrary: stats d)
  case (Cons s ss)
  show ?case
  proof (cases "length (s # ss) > limit")
    case True
    then have k: "length (s # ss) - limit = Suc (length ss - limit)" by simp
    have "rotate_segments no_faults limit ss (stats\<lparr>pr_segments_rotated := pr_segments_rotated stats + 1\<rparr>)
        (disk_remove (si_name s) d) = (stats', d')"
      using Cons.prems True by (simp add: no_faults_def)
    from Cons.IH [OF this] show ?thesis
      unfolding k by (auto simp: disk_remove_def AList.delete_eq intro!: filter_cong)
  qed (use Cons.prems in simp)
qed simp

lemma drop_by_names:
  "distinct (map si_name segments) \<Longrightarrow>
   filter (\<lambda>s. si_name s \<notin> si_name ` set (take k segments)) segments = drop k segments"
proof (induction segments arbitrary: k)
  case (Cons s ss)
  show ?case
  proof (cases k)
    case (Suc j)
    have "filter (\<lambda>x. si_name x \<notin> insert (si_name s) (si_name ` set (take j ss))) ss
        = filter (\<lambda>x. si_name x \<notin> si_name ` set (take j ss)) ss"
      using Cons.prems by (intro filter_cong) (auto simp: image_iff)
    then show ?thesis using Cons Suc by simp
  qed simp
qed simp

lemma segments_sorted_filter:
  "segments_sorted (filter (\<lambda>e. P (fst e)) es) = filter (\<lambda>s. P (si_name s)) (segments_sorted es)"
proof -
  have "map info_of (segment_part (filter (\<lambda>e. P (fst e)) es)) = filter (\<lambda>s. P (si_name s)) (map info_of (segment_part es))"
    by (simp add: segment_part_def filter_map comp_def info_of_def conj_commute)
  then show ?thesis by (simp add: segments_sorted_def filter_sort)
qed

lemma segments_sorted_names:
  assumes "distinct (map fst es)"
  shows "distinct (map si_name (segments_sorted es))"
proof -
  have "map si_name (map info_of (segment_part es)) = map fst (segment_part es)" by (simp add: info_of_def)
  moreover have "distinct (map fst (segment_part es))"
    using subseq_distinct [OF subseq_map [OF subseq_filter_left] assms] unfolding segment_part_def .
  ultimately have "distinct (map si_name (map info_of (segment_part es)))" by metis
  then have "distinct (map si_name (sort_key si_sequence (map info_of (segment_part es))))"
    unfolding distinct_map [of si_name] by simp
  then show ?thesis by (simp add: segments_sorted_def)
qed

text \<open>What a write without faults leaves behind.\<close>

lemma write_snapshot_quiet:
  assumes "encode_snapshot s (ps_limits ps) = Inr encoded"
    and "\<not> of_nat (length encoded) > max_segment_bytes (ps_limits ps)" and "dk_exists d"
    and "distinct (map fst (dk_entries d))" and "dk_passed d = []"
    and "fresh_number (ps_next_sequence ps) (dk_entries d)"
  shows "\<exists>stats ps' d'. write_snapshot no_faults s ps d = (success, Some stats, ps', d')
    \<and> segments_sorted (dk_entries d') =
        (let all = segments_sorted (dk_entries d) @ [info_of (segment_file_name (ps_next_sequence ps), Regular encoded)]
         in drop (length all - max_segments (ps_limits ps)) all)"
proof -
  let ?n = "ps_next_sequence ps" and ?t = "segment_temp_name (ps_next_sequence ps)" and ?f = "segment_file_name (ps_next_sequence ps)"
  have exists: "dk_exists (disk_pass es x) = dk_exists x" for es x by (simp add: disk_pass_def)
  have write_exists: "dk_exists (disk_write name bytes k x) = dk_exists x" for name bytes k x
  proof -
    have "dk_exists (foldl (\<lambda>d k. disk_pass (AList.update name (Regular (take k bytes)) (dk_entries d)) d) x ks) = dk_exists x" for ks
      by (induction ks arbitrary: x) (simp_all add: exists)
    then show ?thesis unfolding disk_write_def by blast
  qed
  define d1 where "d1 = disk_write ?t encoded (length encoded) (disk_create ?t d)"
  have w1: "write_temp no_faults ?t encoded d = (success, d1)"
    by (simp add: write_temp_def d1_def no_faults_def flush_and_sync_def Let_def)
  have start: "all_passed (same_segments (dk_entries d)) d" using assms(4,5) by (simp add: all_passed_def same_segments_def)
  note p1 = write_temp_passes [OF start w1]
  define d2 where "d2 = disk_rename ?t ?f d1"
  have w2: "publish no_faults ?t ?f d1 = (success, d2)" by (simp add: publish_def d2_def no_faults_def)
  have d2: "dk_entries d2 = AList.update ?f (Regular encoded) (AList.delete ?t (dk_entries d1))" "dk_exists d2"
    using p1 assms(3) by (simp_all add: d2_def disk_rename_def d1_def write_exists exists disk_create_def)
  have same: "same_segments (dk_entries d) (dk_entries d1)" using p1 by (simp add: all_passed_def)
  define all where "all = segments_sorted (dk_entries d) @ [info_of (?f, Regular encoded)]"
  have listed: "list_segments no_faults d2 = Inr all"
    using list_segments_quiet [OF d2(2)] segments_sorted_publish [OF same assms(6)] by (simp add: d2(1) all_def)
  obtain stats d3 where w3: "rotate_segments no_faults (max_segments (ps_limits ps)) all
      ((ps_stats ps)\<lparr>pr_segments_written := pr_segments_written (ps_stats ps) + 1,
         pr_bytes_written := pr_bytes_written (ps_stats ps) + of_nat (length encoded)\<rparr>) d2 = (stats, d3)" by force
  have "newest (dk_entries d2) ?n encoded" unfolding d2(1) by (rule rename_newest [OF same assms(6)])
  then have "distinct (map si_name all)"
    using segments_sorted_names [of "dk_entries d2"] segments_sorted_publish [OF same assms(6)]
    by (simp add: newest_def d2(1) all_def)
  moreover have "segments_sorted (dk_entries d2) = all"
    using segments_sorted_publish [OF same assms(6)] by (simp add: d2(1) all_def)
  ultimately have "segments_sorted (dk_entries d3) = drop (length all - max_segments (ps_limits ps)) all"
    using conjunct1 [OF rotate_quiet [OF w3]] drop_by_names
      segments_sorted_filter [of "\<lambda>x. x \<notin> si_name ` set (take (length all - max_segments (ps_limits ps)) all)" "dk_entries d2"]
    by simp
  moreover have "write_snapshot no_faults s ps d = (success, Some stats,
      ps\<lparr>ps_next_sequence := ?n + 1, ps_stats := stats\<rparr>, d3)"
    using assms(1,2) w1 w2 listed w3 by (simp add: write_snapshot_def Let_def)
  ultimately show ?thesis unfolding all_def Let_def by blast
qed

lemma u64_less_succ: "n \<noteq> u64_max \<Longrightarrow> n < n + 1"
proof -
  assume "n \<noteq> u64_max"
  then have "1 + n \<noteq> 0" by (simp add: u64_max_def eq_neg_iff_add_eq_0 add.commute)
  then show ?thesis using unatSuc [of n] by (simp add: word_less_nat_alt add.commute)
qed

lemma append_segment_fails: "append_segment limits type bytes build = Inl st \<Longrightarrow> \<not> status_ok st"
  by (auto simp: append_segment_def split: if_splits option.splits)

lemma append_puts_fails:
  "append_puts limits type ps n e build = Inl st \<Longrightarrow> \<not> status_ok e \<Longrightarrow> \<not> status_ok st"
  by (auto simp: append_puts_def dest: append_segment_fails split: option.splits)

lemma append_queues_fails: "append_queues limits qs build = Inl st \<Longrightarrow> \<not> status_ok st"
  by (induction limits qs build rule: append_queues.induct)
    (auto simp: qobs_try_assign_def dest: append_segment_fails split: option.splits sum.splits)

lemma encode_payload_fails: "encode_payload s limits = Inl st \<Longrightarrow> \<not> status_ok st"
  by (auto simp: encode_payload_def qobs_try_assign_def append_sources_def append_events_def append_metadata_def
      dest!: append_queues_fails append_puts_fails split: sum.splits if_splits)

lemma encode_snapshot_fails: "encode_snapshot s limits = Inl st \<Longrightarrow> \<not> status_ok st"
  by (auto simp: encode_snapshot_def qobs_try_assign_def dest: encode_payload_fails
      split: sum.splits if_splits option.splits prod.splits)

section \<open>Properties\<close>

text \<open>C12: A write is atomic. Whichever calls to the file system fail and wherever the process dies, the
  directory it leaves behind restores what the directory before restored, or the new snapshot from the
  new segment, decoded cleanly. This is for a snapshot within the bounds of the decoder
  (\<open>snapshot_fits\<close>: in particular no queue has more samples than a segment may have records, which the
  encoder does not check) and a directory with distinct names whose segments are all numbered below the
  next sequence. Opening a readable directory establishes this numbering (\<open>open_numbers_ahead\<close>), and a
  successful write keeps it; after a failed listing it may not hold
  (\<open>unreadable_directory_restarts_numbering\<close>).\<close>

theorem crash_restores_old_or_new:
  assumes "snapshot_fits (ps_limits ps) s" "distinct (map fst (dk_entries d))" "dk_passed d = []"
    and "fresh_number (ps_next_sequence ps) (dk_entries d)"
    and "write_snapshot io s ps d = (status, report, ps', d')" "es \<in> set (dk_passed d')"
  shows "restored_from ps es = restored_from ps (dk_entries d)
    \<or> (\<exists>rep. restored_from ps es = recovered_from (segment_file_name (ps_next_sequence ps)) s rep \<and> report_clean rep)"
proof (cases "encode_snapshot s (ps_limits ps)")
  case (Inl st)
  then show ?thesis using assms(3,5,6) by (simp add: write_snapshot_def)
next
  case (Inr encoded)
  from write_snapshot_passes [OF assms(5) Inr assms(2,3,4)] assms(6)
  consider "same_segments (dk_entries d) es"
    | "newest es (ps_next_sequence ps) encoded" "\<not> of_nat (length encoded) > max_segment_bytes (ps_limits ps)"
    by (auto simp: all_passed_def)
  then show ?thesis
  proof cases
    case 1
    then have "restored_from ps es = restored_from ps (dk_entries d)"
      using assms(2) by (intro restored_from_cong) (simp_all add: same_segments_def)
    then show ?thesis by blast
  next
    case 2
    then show ?thesis using newest_restored [OF 2(1) assms(1) Inr 2(2)] by blast
  qed
qed

text \<open>C13: A write that succeeds is what recovery finds, and the numbering stays ahead of every segment of
  the directory, so that the next write is atomic as well: for a snapshot within the bounds of the
  decoder, a directory with distinct names whose segments are all numbered below the next sequence, and a
  next sequence below the largest one, whichever other calls to the file system fail.\<close>

theorem published_snapshot_recovered:
  assumes "snapshot_fits (ps_limits ps) s" "distinct (map fst (dk_entries d))" "dk_passed d = []"
    and "fresh_number (ps_next_sequence ps) (dk_entries d)" "ps_next_sequence ps \<noteq> u64_max"
    and "write_snapshot io s ps d = (status, report, ps', d')" "status_ok status"
  shows "(\<exists>rep. restored_from ps (dk_entries d') = recovered_from (segment_file_name (ps_next_sequence ps)) s rep \<and> report_clean rep)
    \<and> fresh_number (ps_next_sequence ps') (dk_entries d')"
proof (cases "encode_snapshot s (ps_limits ps)")
  case (Inl st)
  then show ?thesis using assms(6,7) encode_snapshot_fails by (auto simp: write_snapshot_def)
next
  case (Inr encoded)
  let ?n = "ps_next_sequence ps"
  have new: "newest (dk_entries d') ?n encoded" "\<not> of_nat (length encoded) > max_segment_bytes (ps_limits ps)"
    using write_snapshot_passes [OF assms(6) Inr assms(2,3,4)] assms(7) by blast+
  have "ps_next_sequence ps' = ?n + 1"
    using assms(6,7) Inr by (auto simp: write_snapshot_def Let_def split: if_splits prod.splits sum.splits)
  moreover have "?n < ?n + 1" using assms(5) by (rule u64_less_succ)
  moreover have "sequence_of (fst e) \<le> ?n" if "e \<in> set (segment_part (dk_entries d'))" for e
    using new(1) that by (cases "fst e = segment_file_name ?n")
      (auto simp: newest_def sequence_of_def parse_segment_file_name_back intro: less_imp_le)
  ultimately have "fresh_number (ps_next_sequence ps') (dk_entries d')"
    unfolding fresh_number_def by (metis le_less_trans)
  then show ?thesis using newest_restored [OF new(1) assms(1) Inr new(2)] by blast
qed

text \<open>C21: Rotation keeps the newest segments. After a write of an accepted snapshot without file system
  faults, into an existing directory whose segments are all numbered below the next sequence, the
  directory holds the segments it held and the new one, less the oldest beyond the configured number.\<close>

theorem rotation_keeps_newest:
  assumes "encode_snapshot s (ps_limits ps) = Inr encoded"
    and "\<not> of_nat (length encoded) > max_segment_bytes (ps_limits ps)" and "dk_exists d"
    and "distinct (map fst (dk_entries d))" and "dk_passed d = []"
    and "fresh_number (ps_next_sequence ps) (dk_entries d)"
  shows "case write_snapshot no_faults s ps d of (status, report, ps', d') \<Rightarrow>
     status_ok status \<and> length (segments_sorted (dk_entries d')) \<le> max_segments (ps_limits ps)
     \<and> suffix (segments_sorted (dk_entries d'))
         (segments_sorted (dk_entries d) @ [info_of (segment_file_name (ps_next_sequence ps), Regular encoded)])"
proof -
  define all where "all = segments_sorted (dk_entries d) @ [info_of (segment_file_name (ps_next_sequence ps), Regular encoded)]"
  obtain stats ps' d' where "write_snapshot no_faults s ps d = (success, Some stats, ps', d')"
    "segments_sorted (dk_entries d') = drop (length all - max_segments (ps_limits ps)) all"
    using write_snapshot_quiet [OF assms] unfolding all_def Let_def by blast
  then show ?thesis unfolding all_def [symmetric] by (simp add: suffix_drop)
qed

definition readable_segment :: "io_faults \<Rightarrow> persistence_limits \<Rightarrow> disk \<Rightarrow> segment_info \<Rightarrow> bool" where
  "readable_segment io limits d s \<longleftrightarrow>
     (case read_file_bounded io (si_name s) (max_segment_bytes limits) d of
        Inl _ \<Rightarrow> False
      | Inr bytes \<Rightarrow> status_ok (fst (decode_snapshot bytes limits)))"

definition delivers :: "io_faults \<Rightarrow> persistence_limits \<Rightarrow> disk \<Rightarrow> segment_info \<Rightarrow> recovery_outcome \<Rightarrow> bool" where
  "delivers io limits d s outcome \<longleftrightarrow>
     (case read_file_bounded io (si_name s) (max_segment_bytes limits) d of
        Inl _ \<Rightarrow> False
      | Inr bytes \<Rightarrow>
          (case decode_snapshot bytes limits of (status, snapshot, report) \<Rightarrow>
             status_ok status \<and> outcome = recovered_from (si_name s) snapshot report))"

definition none_readable :: "io_faults \<Rightarrow> persistence_limits \<Rightarrow> disk \<Rightarrow> segment_info list \<Rightarrow> bool" where
  "none_readable io limits d ss \<longleftrightarrow> list_all (\<lambda>s. \<not> readable_segment io limits d s) ss"

lemma newest_loop_readable:
  assumes "readable_segment io limits d s"
  shows "\<exists>outcome. newest_loop io limits d (s # ss) first stats =
      (outcome, stats\<lparr>pr_recovery_successes := pr_recovery_successes stats + 1\<rparr>)
    \<and> delivers io limits d s outcome \<and> ro_recovered outcome"
  using assms by (auto simp: readable_segment_def delivers_def recovered_from_def split: sum.splits prod.splits)

lemma newest_loop_unreadable:
  assumes "\<not> readable_segment io limits d s"
  shows "\<exists>first'. newest_loop io limits d (s # ss) first stats = newest_loop io limits d ss first' (skip_damaged stats)"
  using assms by (auto simp: readable_segment_def split: sum.splits prod.splits)

lemma newest_loop_spec:
  "newest_loop io limits d ss first stats = (outcome, stats') \<Longrightarrow>
   (if ro_recovered outcome
    then \<exists>newer s older. ss = newer @ s # older \<and> none_readable io limits d newer \<and> delivers io limits d s outcome
       \<and> pr_damaged_segments_skipped stats' = pr_damaged_segments_skipped stats + of_nat (length newer)
    else none_readable io limits d ss)"
proof (induction ss arbitrary: first stats)
  case Nil
  then show ?case by (auto simp: empty_recovery_outcome_def none_readable_def)
next
  case (Cons s ss)
  show ?case
  proof (cases "readable_segment io limits d s")
    case True
    obtain outcome' where o: "newest_loop io limits d (s # ss) first stats =
        (outcome', stats\<lparr>pr_recovery_successes := pr_recovery_successes stats + 1\<rparr>)"
        "delivers io limits d s outcome'" "ro_recovered outcome'"
      using newest_loop_readable [OF True] by blast
    have "outcome' = outcome" "stats' = stats\<lparr>pr_recovery_successes := pr_recovery_successes stats + 1\<rparr>"
      using o(1) unfolding Cons.prems by simp_all
    then have "s # ss = [] @ s # ss \<and> none_readable io limits d [] \<and> delivers io limits d s outcome
        \<and> pr_damaged_segments_skipped stats' = pr_damaged_segments_skipped stats + of_nat (length ([] :: segment_info list))"
      using o(2) by (simp add: none_readable_def)
    moreover have "ro_recovered outcome" using o(3) \<open>outcome' = outcome\<close> by simp
    ultimately show ?thesis unfolding if_P [OF \<open>ro_recovered outcome\<close>] by blast
  next
    case False
    obtain first' where "newest_loop io limits d ss first' (skip_damaged stats) = (outcome, stats')"
      using newest_loop_unreadable [OF False] Cons.prems by metis
    note rest = Cons.IH [OF this]
    show ?thesis
    proof (cases "ro_recovered outcome")
      case True
      then obtain newer x older where x: "ss = newer @ x # older" "none_readable io limits d newer" "delivers io limits d x outcome"
        "pr_damaged_segments_skipped stats' = pr_damaged_segments_skipped (skip_damaged stats) + of_nat (length newer)"
        using rest by auto
      then have "s # ss = (s # newer) @ x # older \<and> none_readable io limits d (s # newer) \<and> delivers io limits d x outcome
          \<and> pr_damaged_segments_skipped stats' = pr_damaged_segments_skipped stats + of_nat (length (s # newer))"
        using False by (simp add: none_readable_def skip_damaged_def)
      then show ?thesis unfolding if_P [OF True] by blast
    next
      case f: False
      then show ?thesis using rest False by (simp add: none_readable_def)
    qed
  qed
qed

text \<open>Recovery uses the newest segment that can be read. When it delivers a snapshot, every newer
  segment of the directory was unreadable or refused by the decoder, and is counted as skipped; when
  it delivers none, no segment could be read.\<close>

theorem recovery_uses_newest_readable:
  assumes "list_segments io d = Inr segments" "recover_segments io ps d = (status, outcome, ps')"
  shows "status_ok status \<and>
    (if ro_recovered outcome
     then \<exists>older s newer. segments = older @ s # newer \<and> none_readable io (ps_limits ps) d newer
       \<and> delivers io (ps_limits ps) d s outcome
       \<and> pr_damaged_segments_skipped (ps_stats ps') = pr_damaged_segments_skipped (ps_stats ps) + of_nat (length newer)
     else none_readable io (ps_limits ps) d segments)"
proof (cases "segments = []")
  case True
  then show ?thesis
    using assms by (auto simp: recover_segments_def empty_recovery_outcome_def none_readable_def Let_def)
next
  case False
  let ?stats = "(ps_stats ps)\<lparr>pr_recovery_attempts := pr_recovery_attempts (ps_stats ps) + 1\<rparr>"
  obtain stats' where loop: "newest_loop io (ps_limits ps) d (rev segments) [] ?stats = (outcome, stats')"
      and rest: "status = success" "ps' = ps\<lparr>ps_stats := stats'\<rparr>"
    using assms False by (auto simp: recover_segments_def Let_def split: prod.splits)
  note spec = newest_loop_spec [OF loop]
  show ?thesis
  proof (cases "ro_recovered outcome")
    case True
    then obtain newer s older where r: "rev segments = newer @ s # older" "none_readable io (ps_limits ps) d newer"
      "delivers io (ps_limits ps) d s outcome"
      "pr_damaged_segments_skipped stats' = pr_damaged_segments_skipped (ps_stats ps) + of_nat (length newer)"
      using spec by auto
    have "segments = rev (newer @ s # older)" by (simp add: r(1) [symmetric])
    then have "segments = rev older @ s # rev newer \<and> none_readable io (ps_limits ps) d (rev newer)
        \<and> delivers io (ps_limits ps) d s outcome
        \<and> pr_damaged_segments_skipped (ps_stats ps') = pr_damaged_segments_skipped (ps_stats ps) + of_nat (length (rev newer))"
      using r rest by (simp add: none_readable_def)
    moreover have "status_ok status" using rest(1) by simp
    ultimately show ?thesis unfolding if_P [OF True] by blast
  next
    case False
    then show ?thesis using spec rest by (simp add: none_readable_def)
  qed
qed

text \<open>An unreadable directory restarts the numbering. When the iterator over the directory cannot be
  constructed, opening the store still succeeds and counts from one, whatever segments there are; the
  next snapshot then replaces segment one or is older than the segments present.\<close>

theorem unreadable_directory_restarts_numbering:
  assumes "status_ok (validate_persistence_limits (ps_limits ps))" "io_listing io" "\<not> io_mkdir io" "\<not> io_not_directory io"
  shows "open_persistence io ps d = (success, ps\<lparr>ps_next_sequence := 1\<rparr>, d\<lparr>dk_exists := True\<rparr>)"
  using assms by (simp add: open_persistence_def list_segments_def listed_entries_def qobs_try_assign_def Let_def)

lemma foldl_next_after:
  assumes "\<And>s. s \<in> set segments \<Longrightarrow> si_sequence s \<noteq> u64_max"
  shows "n \<le> foldl next_after n segments \<and> (\<forall>s \<in> set segments. si_sequence s < foldl next_after n segments)"
  using assms
proof (induction segments arbitrary: n)
  case (Cons s ss)
  have "si_sequence s < si_sequence s + 1" using Cons.prems by (intro u64_less_succ) simp
  then have "n \<le> next_after n s" "si_sequence s < next_after n s" by (auto simp: next_after_def)
  then show ?case using Cons.IH [of "next_after n s"] Cons.prems by (auto intro: less_le_trans)
qed simp

text \<open>Opening a readable directory numbers ahead of every segment it holds, unless the largest
  number is taken.\<close>

theorem open_numbers_ahead:
  assumes "open_persistence no_faults ps d = (success, ps', d')"
    and "u64_max \<notin> sequence_of ` fst ` set (segment_part (dk_entries d))"
  shows "fresh_number (ps_next_sequence ps') (dk_entries d') \<and> dk_exists d' \<and> dk_entries d' = dk_entries d"
proof -
  let ?d = "d\<lparr>dk_exists := True\<rparr>"
  have listed: "list_segments no_faults ?d = Inr (segments_sorted (dk_entries d))" by (simp add: list_segments_quiet)
  have ok: "status_ok (validate_persistence_limits (ps_limits ps))" 
    using assms(1) by (auto simp: open_persistence_def Let_def split: if_splits)
  then have r: "ps' = ps\<lparr>ps_next_sequence := foldl next_after 1 (segments_sorted (dk_entries d))\<rparr>" "d' = ?d"
    using assms(1) listed by (auto simp: open_persistence_def Let_def no_faults_def split: if_splits)
  have infos: "set (segments_sorted (dk_entries d)) = info_of ` set (segment_part (dk_entries d))"
    by (simp add: segments_sorted_def)
  have "si_sequence (info_of e) = sequence_of (fst e)" for e by (simp add: info_of_def sequence_of_def)
  then show ?thesis
    using foldl_next_after [of "segments_sorted (dk_entries d)" 1] assms(2)
    unfolding r infos by (force simp: fresh_number_def)
qed

section \<open>Witnesses\<close>

definition demo_ps :: persistence_store where
  "demo_ps = (new_persistence_store ''data'' default_persistence_limits)\<lparr>ps_next_sequence := 1\<rparr>"

definition demo_disk :: disk where
  "demo_disk = \<lparr>dk_exists = True, dk_entries = [], dk_passed = []\<rparr>"

lemma demo_ps_simps [simp]:
  "ps_limits demo_ps = default_persistence_limits" "ps_next_sequence demo_ps = 1"
  "dk_entries demo_disk = []" "dk_passed demo_disk = []" "dk_exists demo_disk" "fresh_number n []"
  by (simp_all add: demo_ps_def new_persistence_store_def demo_disk_def fresh_number_def segment_part_def)

lemma demo_size:
  assumes "encode_snapshot demo_snapshot default_persistence_limits = Inr bytes"
  shows "\<not> of_nat (length bytes) > max_segment_bytes default_persistence_limits"
  using demo_length [OF assms] by (simp add: default_persistence_limits_def)

text \<open>A run whose write is cut short after the temporary file was created.\<close>

theorem crash_restores_old_or_new_witness:
  "\<exists>es. es = [(segment_temp_name 1, Regular [])]
     \<and> es \<in> set (dk_passed (snd (snd (snd
          (write_snapshot (no_faults\<lparr>io_written := Some 0\<rparr>) demo_snapshot demo_ps demo_disk)))))
     \<and> (restored_from demo_ps es = restored_from demo_ps []
        \<or> (\<exists>rep. restored_from demo_ps es = recovered_from (segment_file_name 1) demo_snapshot rep \<and> report_clean rep))"
proof -
  let ?io = "no_faults\<lparr>io_written := Some 0\<rparr>" and ?es = "[(segment_temp_name 1, Regular [])]"
  obtain bytes where bytes: "encode_snapshot demo_snapshot default_persistence_limits = Inr bytes" using demo_encoded by blast
  obtain st r ps' d' where run: "write_snapshot ?io demo_snapshot demo_ps demo_disk = (st, r, ps', d')"
    by (cases "write_snapshot ?io demo_snapshot demo_ps demo_disk") auto
  have mem: "?es \<in> set (dk_passed d')"
    using run bytes demo_size [OF bytes]
    by (auto simp: write_snapshot_def write_temp_def no_faults_def disk_create_def disk_write_def disk_pass_def
        disk_remove_def Let_def)
  show ?thesis
    using crash_restores_old_or_new [of demo_ps demo_snapshot demo_disk ?io st r ps' d' ?es] demo_fits run mem by simp
qed

theorem published_snapshot_recovered_witness:
  "case write_snapshot no_faults demo_snapshot demo_ps demo_disk of (status, report, ps', d') \<Rightarrow>
     status_ok status
     \<and> (\<exists>rep. restored_from demo_ps (dk_entries d') = recovered_from (segment_file_name 1) demo_snapshot rep \<and> report_clean rep)
     \<and> fresh_number (ps_next_sequence ps') (dk_entries d')"
proof -
  obtain bytes where bytes: "encode_snapshot demo_snapshot default_persistence_limits = Inr bytes" using demo_encoded by blast
  obtain stats ps' d' where run: "write_snapshot no_faults demo_snapshot demo_ps demo_disk = (success, Some stats, ps', d')"
    using write_snapshot_quiet [of demo_snapshot demo_ps bytes demo_disk] bytes demo_size [OF bytes] by auto
  then show ?thesis
    using published_snapshot_recovered [of demo_ps demo_snapshot demo_disk no_faults success "Some stats" ps' d'] demo_fits
    by (simp add: u64_max_def)
qed

theorem rotation_keeps_newest_witness:
  "case write_snapshot no_faults demo_snapshot demo_ps demo_disk of (status, report, ps', d') \<Rightarrow>
     status_ok status \<and> length (segments_sorted (dk_entries d')) \<le> 8"
proof -
  obtain bytes where bytes: "encode_snapshot demo_snapshot default_persistence_limits = Inr bytes" using demo_encoded by blast
  then show ?thesis
    using rotation_keeps_newest [of demo_snapshot demo_ps bytes demo_disk] demo_size [OF bytes]
    by (auto simp: default_persistence_limits_def)
qed

theorem recovery_uses_newest_readable_witness:
  "case recover_segments no_faults demo_ps \<lparr>dk_exists = True, dk_entries = [(segment_file_name 4, Regular [])], dk_passed = []\<rparr> of
     (status, outcome, ps') \<Rightarrow> status_ok status \<and> \<not> ro_recovered outcome"
proof -
  let ?d = "\<lparr>dk_exists = True, dk_entries = [(segment_file_name 4, Regular [])], dk_passed = []\<rparr>"
  let ?s = "info_of (segment_file_name 4, Regular [])"
  have listed: "list_segments no_faults ?d = Inr [?s]"
    using list_segments_quiet [of ?d]
    by (simp add: segments_sorted_def segment_part_def is_segment_def parse_segment_file_name_back)
  have "\<not> readable_segment no_faults default_persistence_limits ?d ?s"
    by (simp add: readable_segment_def read_file_bounded_def disk_content_def info_of_def no_faults_def
        decode_snapshot_def default_limits_valid kSegmentHeaderSize_def decode_refused_def)
  then show ?thesis
    using recovery_uses_newest_readable [OF listed, of demo_ps]
    by (cases "recover_segments no_faults demo_ps ?d")
      (auto simp: delivers_def readable_segment_def Cons_eq_append_conv split: if_splits sum.splits prod.splits)
qed

theorem unreadable_directory_restarts_numbering_witness:
  "open_persistence (no_faults\<lparr>io_listing := True\<rparr>) demo_ps
       \<lparr>dk_exists = True, dk_entries = [(segment_file_name 4, Regular [])], dk_passed = []\<rparr> =
     (success, demo_ps\<lparr>ps_next_sequence := 1\<rparr>,
      \<lparr>dk_exists = True, dk_entries = [(segment_file_name 4, Regular [])], dk_passed = []\<rparr>)"
  using unreadable_directory_restarts_numbering [of demo_ps "no_faults\<lparr>io_listing := True\<rparr>"
      "\<lparr>dk_exists = True, dk_entries = [(segment_file_name 4, Regular [])], dk_passed = []\<rparr>"]
  by (simp add: default_limits_valid no_faults_def)

theorem open_numbers_ahead_witness:
  "\<exists>ps'. open_persistence no_faults demo_ps
       \<lparr>dk_exists = False, dk_entries = [(segment_file_name 4, Regular [])], dk_passed = []\<rparr> =
     (success, ps', \<lparr>dk_exists = True, dk_entries = [(segment_file_name 4, Regular [])], dk_passed = []\<rparr>)
     \<and> fresh_number (ps_next_sequence ps') [(segment_file_name 4, Regular [])]"
proof -
  let ?d = "\<lparr>dk_exists = False, dk_entries = [(segment_file_name 4, Regular [])], dk_passed = []\<rparr>"
  have part: "segment_part [(segment_file_name 4, Regular [])] = [(segment_file_name 4, Regular [])]"
    by (simp add: segment_part_def is_segment_def parse_segment_file_name_back)
  obtain ps' where run: "open_persistence no_faults demo_ps ?d = (success, ps', ?d\<lparr>dk_exists := True\<rparr>)"
    using list_segments_quiet [of "?d\<lparr>dk_exists := True\<rparr>"]
    by (auto simp: open_persistence_def default_limits_valid Let_def) (simp add: no_faults_def)
  then show ?thesis
    using open_numbers_ahead [OF run] by (simp add: part sequence_of_def parse_segment_file_name_back u64_max_def)
qed

end
