(* ===== verification/Recovery.thy ===== *)
theory Recovery
  imports Segment Segment_Files Store_Query Store_Ingest Decode
begin

text \<open>
  Between the store and its durable form: \<^verbatim>\<open>build_snapshot\<close> of \<^verbatim>\<open>src/persist/Format.cpp\<close> and
  \<^verbatim>\<open>apply_recovered_snapshot\<close> of \<^verbatim>\<open>src/runtime/Engine.cpp\<close>.

  The durable records hold the bytes of the enumerations. The bytes of an enumerator and the
  enumerator of a byte are a pair of functions per enumeration, the locale \<open>byte_coded\<close>. A byte that
  no enumerator has is cast by the source all the same; the model has no value for the result, and
  \<open>apply_recovered_snapshot\<close> is undefined (\<^term>\<open>None\<close>) on a snapshot with such a byte.
\<close>

unbundle bit_operations_syntax

section \<open>Enumerators as bytes\<close>

locale byte_coded =
  fixes enc :: "'a \<Rightarrow> u8" and dec :: "u8 \<Rightarrow> 'a option"
  assumes dec_enc [simp]: "dec (enc x) = Some x"
    and enc_dec: "dec b = Some x \<Longrightarrow> enc x = b"
begin

lemma enc_inj: "enc x = enc y \<longleftrightarrow> x = y"
  by (metis dec_enc option.inject)

lemma dec_iff: "dec b = Some x \<longleftrightarrow> b = enc x"
  using enc_dec by auto

end

fun authority_byte :: "source_authority \<Rightarrow> u8" where
  "authority_byte A_Unknown = 0"
| "authority_byte A_Secondary = 1"
| "authority_byte A_Primary = 2"
| "authority_byte A_Authoritative = 3"

definition authority_of_byte :: "u8 \<Rightarrow> source_authority option" where
  "authority_of_byte b =
     (if b = 0 then Some A_Unknown else if b = 1 then Some A_Secondary
      else if b = 2 then Some A_Primary else if b = 3 then Some A_Authoritative else None)"

fun origin_byte :: "attribute_origin \<Rightarrow> u8" where
  "origin_byte Unspecified = 0"
| "origin_byte ObservedInSample = 1"
| "origin_byte ResolvedFromMetadata = 2"

definition origin_of_byte :: "u8 \<Rightarrow> attribute_origin option" where
  "origin_of_byte b =
     (if b = 0 then Some Unspecified else if b = 1 then Some ObservedInSample
      else if b = 2 then Some ResolvedFromMetadata else None)"

fun severity_byte :: "severity \<Rightarrow> u8" where
  "severity_byte Sev_Debug = 0"
| "severity_byte Sev_Info = 1"
| "severity_byte Sev_Notice = 2"
| "severity_byte Sev_Warning = 3"
| "severity_byte Sev_Error = 4"

definition severity_of_byte :: "u8 \<Rightarrow> severity option" where
  "severity_of_byte b =
     (if b = 0 then Some Sev_Debug else if b = 1 then Some Sev_Info else if b = 2 then Some Sev_Notice
      else if b = 3 then Some Sev_Warning else if b = 4 then Some Sev_Error else None)"

fun freshness_byte :: "freshness \<Rightarrow> u8" where
  "freshness_byte F_Unknown = 0"
| "freshness_byte F_Fresh = 1"
| "freshness_byte F_Aging = 2"
| "freshness_byte F_Stale = 3"
| "freshness_byte F_Expired = 4"

fun quality_byte :: "evidence_quality \<Rightarrow> u8" where
  "quality_byte Q_Unknown = 0"
| "quality_byte Q_Complete = 1"
| "quality_byte Q_Incomplete = 2"
| "quality_byte Q_Conflicting = 3"
| "quality_byte Q_Unsupported = 4"

section \<open>From the store to the snapshot\<close>

definition durable_source_of :: "source_record \<Rightarrow> durable_source" where
  "durable_source_of s =
     \<lparr>dr_id = s_id s, dr_authority = authority_byte (s_authority s),
      dr_declared_authority = authority_byte (s_declared_authority s),
      dr_incarnation = s_incarnation s, dr_incarnation_ordinal = s_incarnation_ordinal s,
      dr_last_sequence = s_last_sequence s, dr_generation = s_generation s,
      dr_clock_domain = s_clock_domain s, dr_first_seen = s_first_seen s, dr_last_seen = s_last_seen s,
      dr_accepted = s_accepted s, dr_fenced = s_fenced s, dr_duplicates = s_duplicates s,
      dr_rejected = s_rejected s, dr_last_observed = s_last_observed s,
      dr_recent_incarnations = s_recent_incarnations s\<rparr>"

definition durable_event_of :: "event_record \<Rightarrow> durable_event" where
  "durable_event_of e =
     \<lparr>de_kind = ev_kind e, de_severity = severity_byte (ev_severity e), de_received = ev_received e,
      de_observed = ev_observed e, de_queue = ev_queue e, de_source = ev_source e,
      de_incarnation = ev_incarnation e, de_sequence = ev_sequence e, de_revision = ev_revision e,
      de_detail = ev_detail e\<rparr>"

definition durable_metadata_of :: "class_metadata_table \<Rightarrow> durable_metadata" where
  "durable_metadata_of t =
     \<lparr>dm_revision = mt_revision t, dm_generation = mt_generation t, dm_source = mt_source t,
      dm_authority = authority_byte (mt_authority t), dm_received = mt_received t,
      dm_traffic_classes = mt_traffic_classes t, dm_scheduling_classes = mt_scheduling_classes t,
      dm_bindings = mt_bindings t\<rparr>"

definition durable_classes_of :: "queue_class_attributes \<Rightarrow> durable_classes" where
  "durable_classes_of a =
     \<lparr>dc_traffic_class = ca_traffic_class a, dc_scheduling_class = ca_scheduling_class a,
      dc_origin = origin_byte (ca_origin a), dc_metadata_revision = ca_metadata_revision a\<rparr>"

text \<open>The tokens by source and ordinal. An assignment to an existing key replaces it.\<close>

type_synonym token_map = "string \<times> u64 \<Rightarrow> string option"

definition add_tokens :: "token_map \<Rightarrow> source_record \<Rightarrow> token_map" where
  "add_tokens tokens s =
     foldl (\<lambda>m entry. m((s_id s, snd entry) \<mapsto> fst entry))
       (if strong_name_valid (s_incarnation s)
        then tokens((s_id s, s_incarnation_ordinal s) \<mapsto> s_incarnation s) else tokens)
       (s_recent_incarnations s)"

definition incarnation_tokens :: "source_record list \<Rightarrow> token_map" where
  "incarnation_tokens ss = foldl add_tokens (\<lambda>_. None) ss"

definition durable_sample_of :: "token_map \<Rightarrow> history_record \<Rightarrow> durable_sample" where
  "durable_sample_of tokens r =
     \<lparr>ds_observed = hr_observed r, ds_received_wall = rt_wall (hr_received r),
      ds_received_steady = rt_steady (hr_received r), ds_source = hr_source r,
      ds_incarnation = (case tokens (hr_source r, hr_incarnation_ordinal r) of Some t \<Rightarrow> t | None \<Rightarrow> []),
      ds_generation = hr_generation r, ds_sequence = hr_sequence r,
      ds_authority = authority_byte (hr_authority r), ds_reported = hr_reported r,
      ds_values = (\<lambda>f. if f = Count then 0 else hr_values r f), ds_state = hr_state r,
      ds_freshness = freshness_byte (hr_freshness r), ds_quality = quality_byte (hr_quality r),
      ds_age = hr_age r\<rparr>"

definition durable_queue_of :: "token_map \<Rightarrow> nat \<Rightarrow> queue_path \<times> history_record list \<Rightarrow> durable_queue" where
  "durable_queue_of tokens max_samples visited =
     (let records = snd visited;
          taken = (if length records > max_samples then max_samples else length records);
          start = length records - taken
      in \<lparr>dq_queue = fst visited, dq_classes = durable_classes_of empty_attributes, dq_classes_known = False,
          dq_samples = map (durable_sample_of tokens) (drop start records)\<rparr>)"

text \<open>The classes of a row go to the first queue with its path.\<close>

fun assign_classes :: "inspect_row \<Rightarrow> durable_queue list \<Rightarrow> durable_queue list" where
  "assign_classes row [] = []"
| "assign_classes row (q # qs) =
     (if dq_queue q = ir_queue row
      then q\<lparr>dq_classes := durable_classes_of (ir_classes row),
             dq_classes_known := ca_origin (ir_classes row) \<noteq> Unspecified\<rparr> # qs
      else q # assign_classes row qs)"

definition snapshot_inspect_query :: inspect_query where
  "snapshot_inspect_query =
     \<lparr>iq_filter = \<lparr>qf_device = None, qf_port = None, qf_queue = None, qf_traffic_class = None,
        qf_scheduling_class = None, qf_state = None\<rparr>,
      iq_page = \<lparr>pg_offset = 0, pg_limit = 0\<rparr>\<rparr>"

definition snapshot_event_query :: "nat \<Rightarrow> event_query" where
  "snapshot_event_query max_events =
     \<lparr>eq_kind = None, eq_queue = None, eq_min_severity = None,
      eq_page = \<lparr>pg_offset = 0, pg_limit = max_events\<rparr>\<rparr>"

text \<open>A failing query ends the function; what was filled in before stays.\<close>

definition build_snapshot :: "store \<Rightarrow> nat \<Rightarrow> nat \<Rightarrow> status \<times> durable_snapshot" where
  "build_snapshot st max_samples max_events =
     (let out0 = empty_snapshot
            \<lparr>sn_runtime_id := se_runtime_id (session st), sn_created := se_started (session st),
             sn_policy_version := se_policy_version (session st),
             sn_policy_name := se_policy_name (session st)\<rparr>
      in case inspect snapshot_inspect_query st of (status, inspected) \<Rightarrow>
      if \<not> status_ok status then (status, out0)
      else case sources st of (status, source_records) \<Rightarrow>
      let out1 = out0\<lparr>sn_sources := map durable_source_of source_records\<rparr>
      in if \<not> status_ok status then (status, out1)
      else case for_each_queue True (2 ^ 20) st of (status, visited) \<Rightarrow>
      let out2 = out1\<lparr>sn_queues := map (durable_queue_of (incarnation_tokens source_records) max_samples) visited\<rparr>
      in if \<not> status_ok status then (status, out2)
      else let out3 = out2\<lparr>sn_queues := foldl (\<lambda>qs row. assign_classes row qs) (sn_queues out2) (pg_rows inspected)\<rparr>
      in case events (snapshot_event_query max_events) st of (status, event_page) \<Rightarrow>
      if \<not> status_ok status then (status, out3)
      else let out4 = out3\<lparr>sn_events := map durable_event_of (pg_rows event_page)\<rparr>
      in case metadata_snapshot st of (status, table) \<Rightarrow>
      if \<not> status_ok status then (status, out4)
      else (success,
        case table of
          Some (t, present) \<Rightarrow> out4\<lparr>sn_metadata := durable_metadata_of t, sn_has_metadata := present\<rparr>
        | None \<Rightarrow> out4))"

section \<open>From the snapshot to the store\<close>

record recovery_summary =
  rs_attempted :: bool
  rs_recovered :: bool
  rs_queues :: nat
  rs_samples_presented :: nat
  rs_samples :: nat
  rs_samples_rejected :: nat
  rs_samples_fenced :: nat
  rs_events :: nat
  rs_sources :: nat
  rs_metadata_present :: bool
  rs_report :: decode_report
  rs_diagnostic :: string
  rs_evidence_marked_stale :: bool

definition empty_recovery_summary :: recovery_summary where
  "empty_recovery_summary =
     \<lparr>rs_attempted = False, rs_recovered = False, rs_queues = 0, rs_samples_presented = 0, rs_samples = 0,
      rs_samples_rejected = 0, rs_samples_fenced = 0, rs_events = 0, rs_sources = 0,
      rs_metadata_present = False, rs_report = empty_decode_report, rs_diagnostic = [],
      rs_evidence_marked_stale = False\<rparr>"

fun option_list :: "'a option list \<Rightarrow> 'a list option" where
  "option_list [] = Some []"
| "option_list (x # xs) =
     (case x of None \<Rightarrow> None | Some y \<Rightarrow> (case option_list xs of None \<Rightarrow> None | Some ys \<Rightarrow> Some (y # ys)))"

definition classes_of_durable :: "durable_classes \<Rightarrow> queue_class_attributes option" where
  "classes_of_durable c =
     (case origin_of_byte (dc_origin c) of
        None \<Rightarrow> None
      | Some origin \<Rightarrow>
          Some \<lparr>ca_traffic_class = dc_traffic_class c, ca_scheduling_class = dc_scheduling_class c,
                ca_origin = origin, ca_metadata_revision = dc_metadata_revision c\<rparr>)"

definition metadata_of_durable :: "durable_metadata \<Rightarrow> class_metadata_table option" where
  "metadata_of_durable m =
     (case authority_of_byte (dm_authority m) of
        None \<Rightarrow> None
      | Some authority \<Rightarrow>
          Some \<lparr>mt_revision = dm_revision m, mt_generation = dm_generation m, mt_source = dm_source m,
                mt_authority = authority, mt_received = dm_received m,
                mt_traffic_classes = dm_traffic_classes m,
                mt_scheduling_classes = dm_scheduling_classes m, mt_bindings = dm_bindings m\<rparr>)"

definition event_of_durable :: "durable_event \<Rightarrow> event_record option" where
  "event_of_durable e =
     (case severity_of_byte (de_severity e) of
        None \<Rightarrow> None
      | Some severity \<Rightarrow>
          Some \<lparr>ev_kind = de_kind e, ev_severity = severity, ev_received = de_received e,
                ev_observed = de_observed e, ev_queue = de_queue e, ev_source = de_source e,
                ev_incarnation = de_incarnation e, ev_sequence = de_sequence e,
                ev_revision = de_revision e, ev_detail = de_detail e\<rparr>)"

text \<open>The receive time of another process is replaced by the steady origin of this one.\<close>

definition sample_of_durable ::
    "queue_path \<Rightarrow> queue_class_attributes \<Rightarrow> durable_sample \<Rightarrow> queue_sample option" where
  "sample_of_durable queue classes d =
     (case authority_of_byte (ds_authority d) of
        None \<Rightarrow> None
      | Some authority \<Rightarrow>
          Some (foldl (\<lambda>s f. if has_field (ds_reported d) f then set_value s f (ds_values d f) else s)
            (empty_sample
              \<lparr>qs_queue := queue, qs_classes := classes, qs_source := ds_source d,
               qs_incarnation := ds_incarnation d, qs_generation := ds_generation d,
               qs_sequence := ds_sequence d, qs_authority := authority, qs_observed := ds_observed d,
               qs_received := \<lparr>rt_steady = 0, rt_wall = ds_received_wall d\<rparr>,
               qs_reported := ds_reported d, qs_declared := ds_reported d,
               qs_declared_version := kVersion\<rparr>)
            all_fields))"

definition samples_of_queue :: "durable_queue \<Rightarrow> queue_sample list option" where
  "samples_of_queue q =
     (case classes_of_durable (dq_classes q) of
        None \<Rightarrow> if dq_samples q = [] then Some [] else None
      | Some classes \<Rightarrow> option_list (map (sample_of_durable (dq_queue q) classes) (dq_samples q)))"

definition recovered_samples :: "durable_queue list \<Rightarrow> queue_sample list option" where
  "recovered_samples queues = map_option concat (option_list (map samples_of_queue queues))"

text \<open>What is taken over from a snapshot, when every byte of it is an enumerator.\<close>

definition recovered_parts ::
    "durable_snapshot \<Rightarrow> (class_metadata_table option \<times> queue_sample list \<times> event_record list) option" where
  "recovered_parts snapshot =
     (case (if sn_has_metadata snapshot then map_option Some (metadata_of_durable (sn_metadata snapshot)) else Some None) of
        None \<Rightarrow> None
      | Some table \<Rightarrow>
          (case recovered_samples (sn_queues snapshot) of
             None \<Rightarrow> None
           | Some samples \<Rightarrow>
               (case option_list (map event_of_durable (sn_events snapshot)) of
                  None \<Rightarrow> None
                | Some es \<Rightarrow> Some (table, samples, es))))"

definition restore_metadata :: "class_metadata_table option \<Rightarrow> store \<Rightarrow> status \<times> store" where
  "restore_metadata table st =
     (case table of
        None \<Rightarrow> (success, st)
      | Some t \<Rightarrow> (case apply_metadata t st of (status, _, st') \<Rightarrow> (status, st')))"

definition apply_recovered_snapshot ::
    "durable_snapshot \<Rightarrow> decode_report \<Rightarrow> recovery_summary \<Rightarrow> store
       \<Rightarrow> (status \<times> recovery_summary \<times> store) option" where
  "apply_recovered_snapshot snapshot report summary st =
     (case recovered_parts snapshot of
        None \<Rightarrow> None
      | Some (table, samples, es) \<Rightarrow>
          let summary1 = summary
                \<lparr>rs_recovered := True, rs_report := report, rs_queues := length (sn_queues snapshot),
                 rs_sources := length (sn_sources snapshot), rs_events := length (sn_events snapshot),
                 rs_evidence_marked_stale := True\<rparr>
          in Some (case restore_metadata table st of (status, st1) \<Rightarrow>
            if \<not> status_ok status then (status, summary1, st1)
            else let summary2 = summary1
                       \<lparr>rs_metadata_present := (table \<noteq> None \<or> rs_metadata_present summary1),
                        rs_samples_presented := length samples\<rparr>
            in case admit_recovered samples st1 of (status, admission, st2) \<Rightarrow>
            if \<not> status_ok status then (status, summary2, st2)
            else let summary3 = summary2
                       \<lparr>rs_samples := ba_accepted admission, rs_samples_rejected := ba_rejected admission,
                        rs_samples_fenced := ba_fenced admission\<rparr>
            in case import_events es st2 of (status, imported, st3) \<Rightarrow>
            if \<not> status_ok status then (status, summary3, st3)
            else (success,
              summary3\<lparr>rs_events := imported,
                rs_diagnostic :=
                  (if report_clean report then ''recovered a clean segment''
                   else ''recovered a damaged segment: '' @ dp_diagnostic report)\<rparr>,
              st3)))"

section \<open>Bytes of enumerators\<close>

interpretation authority: byte_coded authority_byte authority_of_byte
proof
  fix x show "authority_of_byte (authority_byte x) = Some x" by (cases x) (simp_all add: authority_of_byte_def)
next
  fix b x assume "authority_of_byte b = Some x"
  then show "authority_byte x = b" by (auto simp: authority_of_byte_def split: if_splits)
qed

interpretation origin: byte_coded origin_byte origin_of_byte
proof
  fix x show "origin_of_byte (origin_byte x) = Some x" by (cases x) (simp_all add: origin_of_byte_def)
next
  fix b x assume "origin_of_byte b = Some x"
  then show "origin_byte x = b" by (auto simp: origin_of_byte_def split: if_splits)
qed

interpretation severity: byte_coded severity_byte severity_of_byte
proof
  fix x show "severity_of_byte (severity_byte x) = Some x" by (cases x) (simp_all add: severity_of_byte_def)
next
  fix b x assume "severity_of_byte b = Some x"
  then show "severity_byte x = b" by (auto simp: severity_of_byte_def split: if_splits)
qed

end
