(* ===== verification/Recovery_Properties.thy ===== *)
theory Recovery_Properties
  imports Recovery Query_Properties Segment_Properties
begin

text \<open>
  What survives a restart: a snapshot holds the newest records of every queue with bytes that are
  enumerators, restoring it keeps the store well formed and revives nothing, and where evidence is
  lost on the way.
\<close>

section \<open>Building a snapshot\<close>


lemma assign_classes_keeps:
  "map dq_queue (assign_classes row qs) = map dq_queue qs"
  "map dq_samples (assign_classes row qs) = map dq_samples qs"
  by (induction qs) simp_all


text \<open>With distinct paths, a row assigns its classes to the one queue that has its path.\<close>

definition take_classes :: "inspect_row \<Rightarrow> durable_queue \<Rightarrow> durable_queue" where
  "take_classes row q =
     (if dq_queue q = ir_queue row
      then q\<lparr>dq_classes := durable_classes_of (ir_classes row),
             dq_classes_known := ca_origin (ir_classes row) \<noteq> Unspecified\<rparr>
      else q)"

lemma take_classes_keeps [simp]:
  "dq_queue (take_classes row q) = dq_queue q" "dq_samples (take_classes row q) = dq_samples q"
  by (simp_all add: take_classes_def)



lemma foldl_take_keeps [simp]:
  "dq_queue (foldl (\<lambda>q row. take_classes row q) q rows) = dq_queue q"
  "dq_samples (foldl (\<lambda>q row. take_classes row q) q rows) = dq_samples q"
  by (induction rows arbitrary: q) simp_all


definition visited_queues :: "store \<Rightarrow> (queue_path \<times> history_record list) list" where
  "visited_queues st = map (\<lambda>(queue, state). (queue, ring_snapshot (q_history state))) (take (2 ^ 20) (om_entries (st_queues st)))"


definition store_tokens :: "store \<Rightarrow> token_map" where
  "store_tokens st = incarnation_tokens (map snd (om_entries (st_sources st)))"

definition classified_rows :: "store \<Rightarrow> inspect_row list" where
  "classified_rows st = map (\<lambda>entry. build_inspect_row (snd entry))
     (take (default_rows (st_query_limits st)) (om_entries (st_queues st)))"

lemma snapshot_inspect:
  "status_ok (st_config_status st) \<Longrightarrow> inspect snapshot_inspect_query st = (success,
     page_of (st_query_limits st) \<lparr>pg_offset = 0, pg_limit = 0\<rparr>
       (map (\<lambda>entry. build_inspect_row (snd entry)) (om_entries (st_queues st))))"
  by (simp add: inspect_def list_queues_page snapshot_inspect_query_def entry_matches_def matches_filter_def)

lemma build_snapshot_eq:
  assumes "status_ok (st_config_status st)"
  shows "build_snapshot st n m = (success, \<lparr>sn_runtime_id = se_runtime_id (st_session st),
     sn_created = se_started (st_session st), sn_policy_version = se_policy_version (st_session st),
     sn_policy_name = se_policy_name (st_session st),
     sn_queues = foldl (\<lambda>qs row. assign_classes row qs)
       (map (durable_queue_of (store_tokens st) n) (visited_queues st)) (classified_rows st),
     sn_events = map durable_event_of (pg_rows (snd (events (snapshot_event_query m) st))),
     sn_sources = map durable_source_of (map snd (om_entries (st_sources st))),
     sn_metadata = durable_metadata_of (st_metadata st), sn_has_metadata = st_has_metadata st\<rparr>)"
proof -
  have ev: "events (snapshot_event_query m) st = (success, snd (events (snapshot_event_query m) st))"
    using assms by (simp add: events_page)
  have rows: "pg_rows (page_of (st_query_limits st) \<lparr>pg_offset = 0, pg_limit = 0\<rparr>
       (map (\<lambda>entry. build_inspect_row (snd entry)) (om_entries (st_queues st)))) = classified_rows st"
    by (simp add: page_of_def page_limit_def classified_rows_def take_map)
  show ?thesis
    unfolding build_snapshot_def snapshot_inspect [OF assms] prod.case Let_def
    by (subst ev) (simp add: assms sources_def for_each_queue_def metadata_snapshot_def rows store_tokens_def
        visited_queues_def session_def empty_snapshot_def)
qed










section \<open>Restoring a snapshot\<close>

lemma restore_metadata_reachable:
  "restore_metadata table st = (status, st') \<Longrightarrow> store_reachable st \<Longrightarrow>
   store_reachable st' \<and> st_queues st' = st_queues st"
  by (auto simp: restore_metadata_def apply_metadata_queues split: option.splits prod.splits
      intro: store_reachable.intros store_step.intros)

lemma import_events_queues: "import_events es st = (status, n, st') \<Longrightarrow> st_queues st' = st_queues st"
proof -
  have "st_queues (snd (import_loop es n st)) = st_queues st" for n
    by (induction es n st rule: import_loop.induct) (auto simp: Let_def)
  then show "import_events es st = (status, n, st') \<Longrightarrow> st_queues st' = st_queues st"
    by (auto simp: import_events_def split: if_splits prod.splits) (metis snd_conv)
qed

lemma admit_recovered_not_revived:
  assumes "store_reachable st" "admit_recovered ms st = (status, b, st')"
  shows "not_revived (st_queues st) (st_queues st')"
proof -
  note inv = store_reachable_inv [OF assms(1)]
  have "not_revived (st_queues st) (st_queues (st\<lparr>st_recovered_mode := True\<rparr>))"
    by (auto simp: not_revived_def)
  then have "not_revived (st_queues st)
      (st_queues (snd (recover_loop 0 ms empty_batch (st\<lparr>st_recovered_mode := True\<rparr>))))"
    by (intro recovered_loop) (use inv in simp_all)
  then show ?thesis
    using assms(2) reachable_configured [OF assms(1)] by (auto simp: admit_recovered_def split: prod.splits)
qed

lemma tally_recovered_balanced: "batch_balanced n b \<Longrightarrow> batch_balanced (Suc n) (tally_recovered i s r b)"
  by (auto simp: tally_recovered_def batch_balanced_def Let_def)

lemma recover_loop_balanced: "batch_balanced n b \<Longrightarrow> batch_balanced (n + length ms) (fst (recover_loop i ms b st))"
proof (induction i ms b st arbitrary: n rule: recover_loop.induct)
  case (2 i m ms b st)
  then show ?case using tally_recovered_balanced [of n b i] by (auto split: prod.splits) (metis add_Suc fst_conv)
qed simp

lemma admit_recovered_balanced:
  assumes "admit_recovered ms st = (status, b, st')" "status_ok status"
  shows "batch_balanced (length ms) b"
proof -
  have "batch_balanced 0 empty_batch" by (simp add: batch_balanced_def empty_batch_def)
  then have "batch_balanced (length ms) (fst (recover_loop 0 ms empty_batch (st\<lparr>st_recovered_mode := True\<rparr>)))"
    using recover_loop_balanced by fastforce
  then show ?thesis using assms by (auto simp: admit_recovered_def split: if_splits prod.splits)
qed

lemma apply_recovered_cases:
  assumes "apply_recovered_snapshot snapshot report summary st = Some (status, summary', st')"
  obtains table samples es st1 where "recovered_parts snapshot = Some (table, samples, es)"
    "restore_metadata table st = (status, st1)" "st' = st1" "\<not> status_ok status"
  | table samples es s1 st1 b where "recovered_parts snapshot = Some (table, samples, es)"
    "restore_metadata table st = (s1, st1)" "admit_recovered samples st1 = (status, b, st')" "\<not> status_ok status"
  | table samples es s1 st1 s2 b st2 n where "recovered_parts snapshot = Some (table, samples, es)"
    "restore_metadata table st = (s1, st1)" "admit_recovered samples st1 = (s2, b, st2)" "status_ok s2"
    "import_events es st2 = (status, n, st')"
    "rs_samples_presented summary' = length samples" "rs_samples summary' = ba_accepted b"
    "rs_samples_rejected summary' = ba_rejected b" "rs_samples_fenced summary' = ba_fenced b"
  | table samples es s1 st1 s2 b st2 s3 n where "recovered_parts snapshot = Some (table, samples, es)"
    "restore_metadata table st = (s1, st1)" "admit_recovered samples st1 = (s2, b, st2)" "status_ok s2"
    "import_events es st2 = (s3, n, st')" "status = success"
    "rs_samples_presented summary' = length samples" "rs_samples summary' = ba_accepted b"
    "rs_samples_rejected summary' = ba_rejected b" "rs_samples_fenced summary' = ba_fenced b"
  using assms unfolding apply_recovered_snapshot_def
  by (auto simp: Let_def split: option.splits prod.splits if_splits)

definition no_live_queues :: "(queue_path \<times> queue_state) list \<Rightarrow> bool" where
  "no_live_queues m \<longleftrightarrow> (\<forall>k q. om_find m k = Some q \<longrightarrow> \<not> live_state (cr_state (q_latest q)))"

lemma not_revived_none: "not_revived m0 m \<Longrightarrow> no_live_queues m0 \<Longrightarrow> no_live_queues m"
  unfolding not_revived_def no_live_queues_def by metis

text \<open>C14: A restart revives nothing. Restoring a snapshot whose bytes are all enumerators keeps the store
  well formed and gives no queue a live state that it did not have before with the same verdict; in
  particular a store without live queues, as at start-up, is still without them. On success every sample
  that was presented is accounted for.\<close>

theorem restored_store_sound:
  assumes "store_reachable st" "apply_recovered_snapshot snapshot report summary st = Some (status, summary', st')"
  shows "store_reachable st' \<and> not_revived (st_queues st) (st_queues st')
    \<and> (no_live_queues (st_queues st) \<longrightarrow> no_live_queues (st_queues st'))
    \<and> (status_ok status \<longrightarrow>
         rs_samples_presented summary' = rs_samples summary' + rs_samples_rejected summary' + rs_samples_fenced summary')"
proof -
  have main: "store_reachable st2 \<and> not_revived (st_queues st) (st_queues st2)"
    if "restore_metadata table st = (s1, st1)" "admit_recovered samples st1 = (s2, b, st2)" for table s1 st1 samples s2 b st2
    using restore_metadata_reachable [OF that(1) assms(1)] admit_recovered_not_revived [OF _ that(2)] that(2)
    by (auto intro: store_reachable.intros store_step.intros)
  have import: "store_reachable b \<and> st_queues b = st_queues a"
    if "import_events es a = (s, n, b)" "store_reachable a" for es a s n b
    using import_events_queues [OF that(1)] that by (auto intro: store_reachable.intros store_step.intros)
  show ?thesis
  proof (rule apply_recovered_cases [OF assms(2)])
    fix table samples es st1
    assume "restore_metadata table st = (status, st1)" "st' = st1" "\<not> status_ok status"
    then show ?thesis using restore_metadata_reachable [OF _ assms(1)] by (auto simp: not_revived_def)
  next
    fix table samples es s1 st1 b
    assume "restore_metadata table st = (s1, st1)" "admit_recovered samples st1 = (status, b, st')" "\<not> status_ok status"
    then show ?thesis using main not_revived_none by blast
  next
    fix table samples es s1 st1 s2 b st2 n
    assume a: "restore_metadata table st = (s1, st1)" "admit_recovered samples st1 = (s2, b, st2)" "status_ok s2"
      "import_events es st2 = (status, n, st')" "rs_samples_presented summary' = length samples"
      "rs_samples summary' = ba_accepted b" "rs_samples_rejected summary' = ba_rejected b" "rs_samples_fenced summary' = ba_fenced b"
    then show ?thesis using main [OF a(1,2)] import [OF a(4)] admit_recovered_balanced [OF a(2,3)]
      by (simp add: batch_balanced_def) (blast intro: not_revived_none)
  next
    fix table samples es s1 st1 s2 b st2 s3 n
    assume a: "restore_metadata table st = (s1, st1)" "admit_recovered samples st1 = (s2, b, st2)" "status_ok s2"
      "import_events es st2 = (s3, n, st')" "rs_samples_presented summary' = length samples"
      "rs_samples summary' = ba_accepted b" "rs_samples_rejected summary' = ba_rejected b" "rs_samples_fenced summary' = ba_fenced b"
    then show ?thesis using main [OF a(1,2)] import [OF a(4)] admit_recovered_balanced [OF a(2,3)]
      by (simp add: batch_balanced_def) (blast intro: not_revived_none)
  qed
qed

text \<open>Recovery loses interleaved evidence. Samples are presented queue by queue, but the sequence
  fence is per source: of two samples of one source and incarnation, the one of the later queue is
  fenced as a replay when its sequence is the smaller one, although the live store accepted it.\<close>

theorem recovery_fences_interleaved:
  assumes "store_reachable st" "recovered_parts snapshot = Some (None, [a, b], es)"
    and "qs_source a = qs_source b" "qs_incarnation a = qs_incarnation b"
    and "qs_generation a = qs_generation b" "qs_authority a = qs_authority b" "qs_sequence b \<le> qs_sequence a"
    and "sample_wellformed b" "outcome_admitted (admission_decision st a)"
    and "apply_recovered_snapshot snapshot report summary st = Some (status, summary', st')"
  shows "status_ok status \<and> rs_samples_presented summary' = 2 \<and> rs_samples summary' = 1
    \<and> rs_samples_fenced summary' = 1"
proof -
  note inv = store_reachable_inv [OF assms(1)]
  let ?st = "st\<lparr>st_recovered_mode := True\<rparr>"
  have inv0: "store_inv 0 ?st" using inv by simp
  obtain s1 r1 st1 where one: "ingest_locked a empty_admission ?st = (s1, r1, st1)" by (cases "ingest_locked a empty_admission ?st")
  obtain s2 r2 st2 where two: "ingest_locked b empty_admission st1 = (s2, r2, st2)" by (cases "ingest_locked b empty_admission st1")
  have dec: "admission_decision ?st a = admission_decision st a"
    by (simp add: admission_decision_def source_decision_def source_room_def queue_room_def per_queue_bytes_def Let_def
        cong: if_cong option.case_cong)
  have r1: "ar_outcome r1 = admission_decision st a" "ar_accepted r1"
    using ingest_locked_decision [OF inv0, of a empty_admission] assms(9) dec by (simp_all add: one answer_result_def)
  have ok1: "status_ok s1" using fenced_status [OF inv0 one] r1 assms(9) by (cases "admission_decision st a") auto
  obtain s where "om_find (st_sources st1) (qs_source a) = Some s" "established a s" "s_last_sequence s = qs_sequence a"
    using admitted_source [OF inv0, of a empty_admission] r1(2) by (auto simp: one answer_result_def answer_store_def)
  then have dec2: "admission_decision st1 b = FencedStaleSequence"
    using assms(3-8) by (simp add: admission_decision_def source_decision_def superseded_def established_def)
  have inv1: "store_inv 0 st1" by (rule ingest_locked_store [OF inv0 one])
  have r2: "ar_outcome r2 = FencedStaleSequence"
    using ingest_locked_decision [OF inv1, of b empty_admission] dec2 by (simp add: two answer_result_def)
  then have ok2: "status_ok s2" using fenced_status [OF inv1 two] by simp
  define batch where "batch = tally_recovered 1 s2 r2 (tally_recovered 0 s1 r1 empty_batch)"
  have batch: "ba_accepted batch = 1" "ba_fenced batch = 1"
    using r1 r2 ok1 ok2 assms(9)
    by (simp_all add: batch_def tally_recovered_def empty_batch_def Let_def)
  have admit: "admit_recovered [a, b] st = (success, batch, st2\<lparr>st_recovered_mode := False\<rparr>)"
    using reachable_configured [OF assms(1)] one two by (simp add: admit_recovered_def batch_def)
  then have "store_reachable (st2\<lparr>st_recovered_mode := False\<rparr>)"
    using assms(1) by (auto intro: store_reachable.intros store_step.intros)
  then have "status_ok (st_config_status st2)" using reachable_configured by fastforce
  then obtain n st3 where "import_events es (st2\<lparr>st_recovered_mode := False\<rparr>) = (success, n, st3)"
    by (cases "import_loop es 0 (st2\<lparr>st_recovered_mode := False\<rparr>)") (simp add: import_events_def)
  then show ?thesis
    using assms(2,10) admit batch by (auto simp: apply_recovered_snapshot_def restore_metadata_def Let_def)
qed

lemma assign_classes_other:
  "ir_queue row \<noteq> dq_queue (qs ! i) \<Longrightarrow> i < length qs \<Longrightarrow> assign_classes row qs ! i = qs ! i"
proof (induction qs arbitrary: i)
  case (Cons q qs)
  then show ?case by (cases i) auto
qed simp

lemma foldl_assign_other:
  "(\<And>row. row \<in> set rows \<Longrightarrow> ir_queue row \<noteq> dq_queue (qs ! i)) \<Longrightarrow> i < length qs \<Longrightarrow>
   foldl (\<lambda>qs row. assign_classes row qs) qs rows ! i = qs ! i"
proof (induction rows arbitrary: qs)
  case (Cons row rows)
  have "length (assign_classes row qs) = length qs"
    using arg_cong [OF assign_classes_keeps(1), of length row qs] by simp
  then show ?case using Cons assign_classes_other [of row qs i] by simp
qed simp

text \<open>Classes beyond the first page are lost. The classes of a snapshot come from one page of the
  inspection query, which has the default number of rows; a queue after it is persisted without its
  classes, whatever the store knows of them.\<close>

theorem snapshot_drops_late_classes:
  assumes "status_ok (st_config_status st)" "om_wf (st_queues st)"
    and "list_all (\<lambda>(k, q). q_queue q = k) (om_entries (st_queues st))"
    and "default_rows (st_query_limits st) \<le> i" "i < om_size (st_queues st)" "i < 2 ^ 20"
  shows "let q = sn_queues (snd (build_snapshot st n m)) ! i
    in dq_queue q = fst (om_entries (st_queues st) ! i) \<and> \<not> dq_classes_known q
      \<and> dq_classes q = durable_classes_of empty_attributes"
proof -
  let ?entries = "om_entries (st_queues st)"
  have "distinct (map fst ?entries)" using om.keys_distinct [OF assms(2)] .
  then have distinct: "fst (?entries ! j) \<noteq> fst (?entries ! i)" if "j < i" for j
    using that assms(5) by (simp add: distinct_conv_nth om_size_def om_entries_def)
  have keys: "q_queue (snd e) = fst e" if "e \<in> set ?entries" for e
    using assms(3) that by (auto simp: list_all_iff)
  let ?qs = "map (durable_queue_of (store_tokens st) n) (visited_queues st)"
  have i: "i < length ?qs" "i < length ?entries"
    using assms(5,6) by (simp_all add: visited_queues_def om_size_def om_entries_def)
  have "?qs ! i = durable_queue_of (store_tokens st) n
      (fst (?entries ! i), ring_snapshot (q_history (snd (?entries ! i))))"
    using i assms(6) by (simp add: visited_queues_def case_prod_unfold)
  then have qi: "dq_queue (?qs ! i) = fst (?entries ! i)" "\<not> dq_classes_known (?qs ! i)"
      "dq_classes (?qs ! i) = durable_classes_of empty_attributes"
    by (simp_all add: durable_queue_of_def Let_def)
  have "ir_queue row \<noteq> dq_queue (?qs ! i)" if "row \<in> set (classified_rows st)" for row
  proof -
    from that obtain j where j: "j < default_rows (st_query_limits st)" "j < length ?entries"
        "row = build_inspect_row (snd (?entries ! j))"
      by (auto simp: classified_rows_def in_set_conv_nth)
    then have "ir_queue row = fst (?entries ! j)" using keys [of "?entries ! j"] by (simp add: build_inspect_row_def)
    then show ?thesis using distinct [of j] j(1) assms(4) qi(1) by simp
  qed
  then have "sn_queues (snd (build_snapshot st n m)) ! i = ?qs ! i"
    using foldl_assign_other [of "classified_rows st" ?qs i] i(1)
    by (simp add: build_snapshot_eq [OF assms(1)])
  then show ?thesis using qi by simp
qed

section \<open>Witnesses\<close>

lemma demo_store_configured: "status_ok (st_config_status demo_store)"
  using reachable_configured demo_store_reachable by blast


text \<open>Two queues, one source, sequences nine and seven.\<close>

definition numbered_queue :: "u32 \<Rightarrow> u64 \<Rightarrow> durable_queue" where
  "numbered_queue n sequence = demo_durable_queue
     \<lparr>dq_queue := QueuePath ''leaf1'' ''eth0'' n, dq_samples := [demo_durable_sample\<lparr>ds_sequence := sequence\<rparr>]\<rparr>"

definition interleaved_snapshot :: durable_snapshot where
  "interleaved_snapshot = demo_snapshot\<lparr>sn_queues := [numbered_queue 3 9, numbered_queue 4 7]\<rparr>"

definition numbered_sample :: "u32 \<Rightarrow> u64 \<Rightarrow> queue_sample" where
  "numbered_sample n sequence =
     set_value (empty_sample
       \<lparr>qs_queue := QueuePath ''leaf1'' ''eth0'' n,
        qs_classes := \<lparr>ca_traffic_class = Some 4, ca_scheduling_class = None,
          ca_origin = ResolvedFromMetadata, ca_metadata_revision = 1\<rparr>,
        qs_source := ''agent'', qs_incarnation := ''boot-1'', qs_generation := 2, qs_sequence := sequence,
        qs_authority := A_Primary, qs_observed := \<lparr>ot_ns = 5000, ot_domain = ''ptp''\<rparr>,
        qs_received := \<lparr>rt_steady = 0, rt_wall = 6000\<rparr>, qs_reported := field_bit OccupancyCells,
        qs_declared := field_bit OccupancyCells, qs_declared_version := kVersion\<rparr>) OccupancyCells 77"

lemma foldl_filter: "foldl (\<lambda>s f. if P f then g s f else s) s fs = foldl g s (filter P fs)"
  by (induction fs arbitrary: s) simp_all

lemma numbered_samples: "samples_of_queue (numbered_queue n sequence) = Some [numbered_sample n sequence]"
  by (simp add: samples_of_queue_def numbered_queue_def demo_durable_queue_def demo_durable_sample_def
      classes_of_durable_def origin_of_byte_def sample_of_durable_def authority_of_byte_def foldl_filter
      field_bit_fields numbered_sample_def)

lemma interleaved_parts:
  "recovered_parts interleaved_snapshot = Some (None, [numbered_sample 3 9, numbered_sample 4 7], [])"
  by (simp add: recovered_parts_def interleaved_snapshot_def demo_snapshot_def empty_snapshot_def
      recovered_samples_def numbered_samples)

lemma numbered_wellformed: "sequence \<noteq> 0 \<Longrightarrow> sample_wellformed (numbered_sample n sequence)"
  by (simp add: sample_wellformed_def numbered_sample_def set_value_def kSampleFieldCount_def empty_sample_def
      queue_path_valid_def strong_name_valid_def strong_id_valid_def field_bit_def)

lemma numbered_decision: "admission_decision demo_store (numbered_sample 3 9) = AcceptedNewSource"
  using numbered_wellformed [of 9 3]
  by (simp add: admission_decision_def source_decision_def source_room_def
      queue_room_def demo_store_empty om_find_def om_size_def per_queue_bytes_def add_u64_def
      default_history_limits_def u64_max_def)

lemma numbered_fields:
  "qs_source (numbered_sample n k) = ''agent''" "qs_incarnation (numbered_sample n k) = ''boot-1''"
  "qs_generation (numbered_sample n k) = 2" "qs_authority (numbered_sample n k) = A_Primary"
  "qs_sequence (numbered_sample n k) = k"
  by (simp_all add: numbered_sample_def set_value_def)

lemma apply_recovered_defined:
  assumes "recovered_parts snapshot = Some (table, samples, es)"
  obtains status summary' st' where "apply_recovered_snapshot snapshot report summary st = Some (status, summary', st')"
proof -
  obtain x where "apply_recovered_snapshot snapshot report summary st = Some x"
    using assms unfolding apply_recovered_snapshot_def Let_def by simp
  then show thesis using that by (cases x) simp
qed

theorem restored_store_sound_witness:
  "\<exists>status summary st'. apply_recovered_snapshot interleaved_snapshot empty_decode_report empty_recovery_summary demo_store
      = Some (status, summary, st')
    \<and> store_reachable st' \<and> no_live_queues (st_queues st')"
proof -
  obtain status summary st' where r: "apply_recovered_snapshot interleaved_snapshot empty_decode_report
      empty_recovery_summary demo_store = Some (status, summary, st')"
    using apply_recovered_defined [OF interleaved_parts] by blast
  moreover have "no_live_queues (st_queues demo_store)"
    by (simp add: no_live_queues_def demo_store_empty om_find_def)
  ultimately show ?thesis using restored_store_sound [OF demo_store_reachable r] by blast
qed

theorem recovery_fences_interleaved_witness:
  "\<exists>status summary st'. apply_recovered_snapshot interleaved_snapshot empty_decode_report empty_recovery_summary demo_store
      = Some (status, summary, st') \<and> rs_samples summary = 1 \<and> rs_samples_fenced summary = 1"
proof -
  obtain status summary st' where r: "apply_recovered_snapshot interleaved_snapshot empty_decode_report
      empty_recovery_summary demo_store = Some (status, summary, st')"
    using apply_recovered_defined [OF interleaved_parts] by blast
  then show ?thesis
    using recovery_fences_interleaved [OF demo_store_reachable interleaved_parts _ _ _ _ _ _ _ r]
      numbered_wellformed [of 7 4] by (simp add: numbered_fields numbered_decision)
qed

theorem snapshot_drops_late_classes_witness:
  "let k = (\<lambda>n. QueuePath ''leaf1'' ''eth0'' n);
       q = (\<lambda>n. (new_queue_state (k n))\<lparr>q_classes := empty_attributes\<lparr>ca_traffic_class := Some 4, ca_origin := ObservedInSample\<rparr>\<rparr>);
       st = demo_store\<lparr>st_queues := [(k 1, q 1), (k 2, q 2)], st_query_limits := default_query_limits\<lparr>default_rows := 1\<rparr>\<rparr>
   in \<not> dq_classes_known (sn_queues (snd (build_snapshot st 10 10)) ! 1)"
proof -
  let ?k = "\<lambda>n. QueuePath ''leaf1'' ''eth0'' n"
  let ?q = "\<lambda>n. (new_queue_state (?k n))\<lparr>q_classes := empty_attributes\<lparr>ca_traffic_class := Some 4, ca_origin := ObservedInSample\<rparr>\<rparr>"
  let ?st = "demo_store\<lparr>st_queues := [(?k 1, ?q 1), (?k 2, ?q 2)], st_query_limits := default_query_limits\<lparr>default_rows := 1\<rparr>\<rparr>"
  have "?k 1 < ?k 2" by (simp add: less_queue_path_def queue_path_less_def)
  then have "om_wf (st_queues ?st)" by (simp add: om_wf_def)
  moreover have "list_all (\<lambda>(k, q). q_queue q = k) (om_entries (st_queues ?st))"
    by (simp add: om_entries_def new_queue_state_def)
  ultimately show ?thesis
    using snapshot_drops_late_classes [of ?st 1 10 10] demo_store_configured
    by (simp add: Let_def om_size_def)
qed

end
