(* ===== verification/Observatory.thy ===== *)
theory Observatory
  imports Recovery Ingest
begin

text \<open>
  The runtime (\<^verbatim>\<open>include/qobs/runtime/Observatory.hpp\<close>, \<^verbatim>\<open>src/runtime/Observatory.cpp\<close>): its
  lifecycle, the bounded queue of submitted documents, the critical sections of the worker threads,
  and persistence on demand.

  Every critical section under \<^verbatim>\<open>queue_mutex_\<close> is one function on the state; a worker runs three of
  them: it claims a document, hands in the decoded document, or applies the front. Decoding happens
  outside the lock and only reads the document. The relation \<open>runtime_step\<close> interleaves the critical
  sections of any number of threads. Condition variables are not modelled: a waiting thread is a
  thread that takes no step.
\<close>

section \<open>Data\<close>

record observatory_config =
  oc_policy :: pressure_policy
  oc_ingest :: ingest_limits
  oc_history :: history_limits
  oc_query :: query_limits
  oc_persistence :: persistence_limits
  oc_runtime :: runtime_limits
  oc_transport :: transport_limits
  oc_persistence_directory :: "string option"
  oc_recover_on_start :: bool
  oc_persist_on_stop :: bool

datatype runtime_state = RS_Created | RS_Running | RS_Stopping | RS_Stopped

fun runtime_state_text :: "runtime_state \<Rightarrow> string" where
  "runtime_state_text RS_Created = ''created''"
| "runtime_state_text RS_Running = ''running''"
| "runtime_state_text RS_Stopping = ''stopping''"
| "runtime_state_text RS_Stopped = ''stopped''"

record pending_document =
  pd_ticket :: u64
  pd_payload :: string
  pd_in_flight :: bool
  pd_decoded :: bool
  pd_applied :: bool
  pd_decode_status :: status
  pd_report :: ingest_report

definition new_document :: "u64 \<Rightarrow> string \<Rightarrow> pending_document" where
  "new_document ticket payload =
     \<lparr>pd_ticket = ticket, pd_payload = payload, pd_in_flight = False, pd_decoded = False, pd_applied = False,
      pd_decode_status = success, pd_report = empty_report\<rparr>"

record observatory =
  ob_config :: observatory_config
  ob_store :: store
  ob_persistence :: "persistence_store option"
  ob_disk :: disk
  ob_pending :: "(u64 \<times> pending_document) list"
  ob_next_ticket :: u64
  ob_next_apply_ticket :: u64
  ob_queued_samples :: nat
  ob_queued_batches :: nat
  ob_applied_documents :: nat
  ob_dropped_documents :: nat
  ob_cancelled_documents :: nat
  ob_decode_failures :: nat
  ob_in_flight :: nat
  ob_apply_order_violations :: u64
  ob_stop_requested :: bool
  ob_state :: runtime_state
  ob_workers :: nat
  ob_recovered_on_start :: bool
  ob_recovery_diagnostic :: string

section \<open>Construction\<close>

fun first_failure :: "status list \<Rightarrow> status" where
  "first_failure [] = success"
| "first_failure (s # ss) = (if \<not> status_ok s then s else first_failure ss)"

definition config_check :: "observatory_config \<Rightarrow> status" where
  "config_check c =
     first_failure
       [validate_ingest_limits (oc_ingest c), validate_history_limits (oc_history c),
        validate_query_limits (oc_query c), validate_persistence_limits (oc_persistence c),
        validate_runtime_limits (oc_runtime c), validate_transport_limits (oc_transport c),
        validate_policy (oc_policy c)]"

text \<open>The record size and the clock readings are the external inputs of the store; the disk is the
  one the configured directory lies on.\<close>

definition create_observatory ::
    "observatory_config \<Rightarrow> nat \<Rightarrow> (nat \<Rightarrow> receive_time) \<Rightarrow> disk \<Rightarrow> observatory result" where
  "create_observatory c record_size clock d =
     (if \<not> status_ok (config_check c) then Inl (config_check c)
      else Inr \<lparr>ob_config = c,
        ob_store = new_store (oc_policy c) (oc_history c) (oc_query c) record_size clock,
        ob_persistence = map_option (\<lambda>dir. new_persistence_store dir (oc_persistence c)) (oc_persistence_directory c),
        ob_disk = d, ob_pending = [], ob_next_ticket = 1, ob_next_apply_ticket = 1, ob_queued_samples = 0,
        ob_queued_batches = 0, ob_applied_documents = 0, ob_dropped_documents = 0,
        ob_cancelled_documents = 0, ob_decode_failures = 0, ob_in_flight = 0,
        ob_apply_order_violations = 0, ob_stop_requested = False, ob_state = RS_Created, ob_workers = 0,
        ob_recovered_on_start = False, ob_recovery_diagnostic = []\<rparr>)"

section \<open>Persistence\<close>

definition no_persistence :: status where
  "no_persistence = failure NotSupported ''no persistence directory is configured for this runtime''"

text \<open>The report that the caller sees: reset first, written by a successful write.\<close>

definition persist_now :: "io_faults \<Rightarrow> observatory \<Rightarrow> status \<times> persistence_report \<times> observatory" where
  "persist_now io ob =
     (case ob_persistence ob of
        None \<Rightarrow> (no_persistence, empty_persistence_report, ob)
      | Some ps \<Rightarrow>
          (case build_snapshot (ob_store ob) (max_samples_per_queue (oc_history (ob_config ob)))
                  (max_events_total (oc_history (ob_config ob))) of (status, snapshot) \<Rightarrow>
             if \<not> status_ok status then (status, empty_persistence_report, ob)
             else case write_snapshot io snapshot ps (ob_disk ob) of (status, report, ps', d') \<Rightarrow>
               (status, (case report of Some r \<Rightarrow> r | None \<Rightarrow> empty_persistence_report),
                ob\<lparr>ob_persistence := Some ps', ob_disk := d'\<rparr>)))"

definition recover_observatory ::
    "io_faults \<Rightarrow> observatory \<Rightarrow> (status \<times> recovery_summary \<times> observatory) option" where
  "recover_observatory io ob =
     (case ob_persistence ob of
        None \<Rightarrow> Some (no_persistence, empty_recovery_summary, ob)
      | Some ps \<Rightarrow>
          let summary0 = empty_recovery_summary\<lparr>rs_attempted := True\<rparr>
          in case recover_segments io ps (ob_disk ob) of (status, outcome, ps') \<Rightarrow>
          let ob1 = ob\<lparr>ob_persistence := Some ps'\<rparr>
          in if \<not> status_ok status then Some (status, summary0, ob1)
          else let summary1 = summary0\<lparr>rs_report := ro_report outcome, rs_diagnostic := ro_diagnostic outcome\<rparr>
          in if \<not> ro_recovered outcome then Some (success, summary1, ob1)
          else case apply_recovered_snapshot (ro_snapshot outcome) (ro_report outcome) summary1 (ob_store ob1) of
            None \<Rightarrow> None
          | Some (status, summary2, st') \<Rightarrow> Some (status, summary2, ob1\<lparr>ob_store := st'\<rparr>))"

section \<open>Lifecycle\<close>

definition clear_queue :: "observatory \<Rightarrow> observatory" where
  "clear_queue ob = ob\<lparr>ob_pending := [], ob_queued_samples := 0, ob_queued_batches := 0, ob_in_flight := 0\<rparr>"

definition open_for_start :: "io_faults \<Rightarrow> observatory \<Rightarrow> status \<times> observatory" where
  "open_for_start io ob =
     (case ob_persistence ob of
        None \<Rightarrow> (success, ob)
      | Some ps \<Rightarrow>
          (case open_persistence io ps (ob_disk ob) of (status, ps', d') \<Rightarrow>
             (status, ob\<lparr>ob_persistence := Some ps', ob_disk := d'\<rparr>)))"

definition start_workers :: "observatory \<Rightarrow> observatory" where
  "start_workers ob = ob\<lparr>ob_workers := worker_threads (oc_runtime (ob_config ob))\<rparr>"

definition start_observatory :: "io_faults \<Rightarrow> observatory \<Rightarrow> (status \<times> observatory) option" where
  "start_observatory io ob =
     (if ob_state ob \<noteq> RS_Created \<and> ob_state ob \<noteq> RS_Stopped
      then Some (failure Busy ''the runtime is already started'', ob)
      else case open_for_start io ob of (status, ob1) \<Rightarrow>
      if \<not> status_ok status then Some (status, ob1)
      else let ob2 = (clear_queue ob1)
             \<lparr>ob_stop_requested := False, ob_next_ticket := 1, ob_next_apply_ticket := 1, ob_state := RS_Running\<rparr>
      in if oc_recover_on_start (ob_config ob2) \<and> ob_persistence ob2 \<noteq> None
      then (case recover_observatory io ob2 of
          None \<Rightarrow> None
        | Some (status, summary, ob3) \<Rightarrow>
            if \<not> status_ok status then Some (status, ob3\<lparr>ob_state := RS_Created\<rparr>)
            else Some (success, start_workers
              (ob3\<lparr>ob_recovered_on_start := rs_recovered summary, ob_recovery_diagnostic := rs_diagnostic summary\<rparr>)))
      else Some (success, start_workers ob2))"

text \<open>Stopping has two halves: the request, and what is done once every worker has ended.\<close>

definition request_stop :: "observatory \<Rightarrow> observatory" where
  "request_stop ob = ob\<lparr>ob_state := RS_Stopping, ob_stop_requested := True\<rparr>"

definition finish_stop :: "io_faults \<Rightarrow> observatory \<Rightarrow> status \<times> observatory" where
  "finish_stop io ob =
     (let dropped = length (filter (\<lambda>e. \<not> pd_applied (snd e)) (ob_pending ob));
          ob1 = (clear_queue ob)\<lparr>ob_workers := 0, ob_dropped_documents := ob_dropped_documents ob + dropped\<rparr>
      in if oc_persist_on_stop (ob_config ob1) \<and> ob_persistence ob1 \<noteq> None
         then (case persist_now io ob1 of (status, _, ob2) \<Rightarrow>
                 if \<not> status_ok status then (status, ob2\<lparr>ob_state := RS_Stopped\<rparr>)
                 else (success, ob2\<lparr>ob_state := RS_Stopped\<rparr>))
         else (success, ob1\<lparr>ob_state := RS_Stopped\<rparr>))"

definition stop_observatory :: "io_faults \<Rightarrow> observatory \<Rightarrow> status \<times> observatory" where
  "stop_observatory io ob =
     (if ob_state ob = RS_Stopped \<or> ob_state ob = RS_Created
      then (success, ob\<lparr>ob_state := RS_Stopped\<rparr>)
      else finish_stop io (request_stop ob))"

definition drained :: "observatory \<Rightarrow> bool" where
  "drained ob \<longleftrightarrow> ob_pending ob = [] \<and> ob_in_flight ob = 0"

section \<open>Documents\<close>

definition decode_only :: "'d doubles \<Rightarrow> observatory \<Rightarrow> pending_document \<Rightarrow> pending_document" where
  "decode_only lib ob document =
     (case decode_document (pd_payload document) (oc_ingest (ob_config ob)) lib of (status, out) \<Rightarrow>
        document\<lparr>pd_decode_status := status, pd_report := (pd_report document)\<lparr>ir_decode := out\<rparr>\<rparr>)"

text \<open>The polls of the stop token are an argument, as for a batch.\<close>

definition apply_decoded ::
    "(nat \<Rightarrow> bool) \<Rightarrow> pending_document \<Rightarrow> observatory \<Rightarrow> status \<times> ingest_report \<times> observatory" where
  "apply_decoded stop document ob =
     (if \<not> status_ok (pd_decode_status document)
      then (pd_decode_status document, pd_report document, ob\<lparr>ob_decode_failures := ob_decode_failures ob + 1\<rparr>)
      else case apply_tables (do_metadata (ir_decode (pd_report document))) (ob_store ob) of (status, st1) \<Rightarrow>
      if \<not> status_ok status then (status, pd_report document, ob\<lparr>ob_store := st1\<rparr>)
      else case ingest_batch (do_samples (ir_decode (pd_report document))) stop st1 of (status, admission, st2) \<Rightarrow>
        (status, (pd_report document)\<lparr>ir_admission := admission, ir_accepted := status_ok status\<rparr>,
         ob\<lparr>ob_store := st2\<rparr>))"

definition om_erase :: "'k \<Rightarrow> ('k \<times> 'v) list \<Rightarrow> ('k \<times> 'v) list" where
  "om_erase k m = filter (\<lambda>e. fst e \<noteq> k) m"

text \<open>The critical section that applies the front, when it is decoded.\<close>

definition front_ready :: "observatory \<Rightarrow> bool" where
  "front_ready ob \<longleftrightarrow>
     (case om_find (ob_pending ob) (ob_next_apply_ticket ob) of None \<Rightarrow> False | Some doc \<Rightarrow> pd_decoded doc)"

definition apply_front :: "(nat \<Rightarrow> bool) \<Rightarrow> observatory \<Rightarrow> observatory option" where
  "apply_front stop ob =
     (if ob_stop_requested ob then None
      else case om_find (ob_pending ob) (ob_next_apply_ticket ob) of
        None \<Rightarrow> None
      | Some document \<Rightarrow>
          if \<not> pd_decoded document then None
          else case apply_decoded stop document ob of (_, _, ob1) \<Rightarrow>
            Some (ob1\<lparr>ob_applied_documents := ob_applied_documents ob1 + 1,
              ob_pending := om_erase (ob_next_apply_ticket ob1) (ob_pending ob1),
              ob_next_apply_ticket := ob_next_apply_ticket ob1 + 1,
              ob_queued_batches := ob_queued_batches ob1 - 1\<rparr>))"

text \<open>The critical section that claims the first document nobody has decoded.\<close>

fun first_undecoded :: "(u64 \<times> pending_document) list \<Rightarrow> u64" where
  "first_undecoded [] = 0"
| "first_undecoded ((ticket, doc) # m) =
     (if \<not> pd_decoded doc \<and> \<not> pd_in_flight doc then ticket else first_undecoded m)"

definition claim_document :: "observatory \<Rightarrow> (u64 \<times> observatory) option" where
  "claim_document ob =
     (if ob_stop_requested ob \<or> front_ready ob then None
      else let ticket = first_undecoded (om_entries (ob_pending ob))
      in if ticket = 0 then None
      else case om_find (ob_pending ob) ticket of
        None \<Rightarrow> None
      | Some doc \<Rightarrow>
          Some (ticket, ob\<lparr>ob_pending := om_put ticket (doc\<lparr>pd_in_flight := True\<rparr>) (ob_pending ob),
            ob_in_flight := ob_in_flight ob + 1\<rparr>))"

text \<open>The critical section that hands in a decoded document.\<close>

definition deliver_document :: "'d doubles \<Rightarrow> u64 \<Rightarrow> observatory \<Rightarrow> observatory" where
  "deliver_document lib ticket ob =
     (let ob1 = (case om_find (ob_pending ob) ticket of
            None \<Rightarrow> ob
          | Some doc \<Rightarrow>
              let doc1 = (decode_only lib ob doc)\<lparr>pd_decoded := True, pd_in_flight := False\<rparr>
              in ob\<lparr>ob_pending := om_put ticket doc1 (ob_pending ob),
                    ob_queued_samples := ob_queued_samples ob + length (do_samples (ir_decode (pd_report doc1)))\<rparr>)
      in ob1\<lparr>ob_in_flight := ob_in_flight ob1 - 1\<rparr>)"

definition not_running :: status where
  "not_running = failure NotRunning ''the runtime must be started before it accepts documents''"

definition submit_document :: "'d doubles \<Rightarrow> string \<Rightarrow> observatory \<Rightarrow> status \<times> u64 \<times> observatory" where
  "submit_document lib payload ob =
     (if of_nat (length payload) > max_payload_bytes (oc_ingest (ob_config ob))
      then (failure LimitExceeded ''the document exceeds the configured payload size'', 0, ob)
      else if worker_threads (oc_runtime (ob_config ob)) = 0 then
        (if ob_state ob \<noteq> RS_Running then (not_running, 0, ob)
         else let assigned = ob_next_ticket ob;
                  ob1 = ob\<lparr>ob_next_ticket := assigned + 1\<rparr>;
                  document = decode_only lib ob1 (new_document assigned payload)
         in if status_ok (pd_decode_status document)
            then (case apply_decoded (\<lambda>_. False) document ob1 of (_, _, ob2) \<Rightarrow>
                    (success, assigned, ob2\<lparr>ob_applied_documents := ob_applied_documents ob2 + 1\<rparr>))
            else (success, assigned, ob1\<lparr>ob_decode_failures := ob_decode_failures ob1 + 1\<rparr>))
      else if ob_state ob \<noteq> RS_Running then (not_running, 0, ob)
      else if length (ob_pending ob) \<ge> max_pending_batches (oc_runtime (ob_config ob))
      then (failure Busy ''the bounded document queue is full; the caller must retry'', 0, ob)
      else let assigned = ob_next_ticket ob
           in (success, assigned,
               ob\<lparr>ob_next_ticket := assigned + 1,
                  ob_pending := om_put assigned (new_document assigned payload) (ob_pending ob),
                  ob_queued_batches := ob_queued_batches ob + 1\<rparr>))"

section \<open>Synchronous operations\<close>

definition ingest_document_now ::
    "'d doubles \<Rightarrow> string \<Rightarrow> observatory \<Rightarrow> status \<times> ingest_report \<times> observatory" where
  "ingest_document_now lib payload ob =
     (case ingest_document payload (oc_ingest (ob_config ob)) lib (ob_store ob) of (status, report, st) \<Rightarrow>
        (status, report, ob\<lparr>ob_store := st\<rparr>))"

definition ingest_samples :: "(nat \<Rightarrow> bool) \<Rightarrow> queue_sample list \<Rightarrow> observatory \<Rightarrow> status \<times> batch_admission \<times> observatory" where
  "ingest_samples stop samples ob =
     (case ingest_batch samples stop (ob_store ob) of (status, admission, st) \<Rightarrow>
        (status, admission, ob\<lparr>ob_store := st\<rparr>))"

definition apply_metadata_now ::
    "class_metadata_table \<Rightarrow> observatory \<Rightarrow> status \<times> metadata_admission \<times> observatory" where
  "apply_metadata_now table ob =
     (case apply_metadata table (ob_store ob) of (status, admission, st) \<Rightarrow>
        (status, admission, ob\<lparr>ob_store := st\<rparr>))"

record runtime_status =
  ru_state :: runtime_state
  ru_runtime_id :: string
  ru_started :: receive_time
  ru_worker_threads :: nat
  ru_queued_documents :: nat
  ru_queued_samples :: nat
  ru_applied_documents :: nat
  ru_dropped_documents :: nat
  ru_cancelled_documents :: nat
  ru_decode_failures :: nat
  ru_queues :: nat
  ru_history_bytes :: u64
  ru_counters :: store_counters
  ru_persistence :: persistence_report
  ru_recovered_on_start :: bool
  ru_recovery_diagnostic :: string
  ru_apply_order_violations :: u64

definition observatory_status :: "observatory \<Rightarrow> runtime_status" where
  "observatory_status ob =
     \<lparr>ru_state = ob_state ob, ru_runtime_id = se_runtime_id (session (ob_store ob)),
      ru_started = se_started (session (ob_store ob)),
      ru_worker_threads = worker_threads (oc_runtime (ob_config ob)),
      ru_queued_documents = length (ob_pending ob), ru_queued_samples = ob_queued_samples ob,
      ru_applied_documents = ob_applied_documents ob, ru_dropped_documents = ob_dropped_documents ob,
      ru_cancelled_documents = ob_cancelled_documents ob, ru_decode_failures = ob_decode_failures ob,
      ru_queues = queue_count (ob_store ob), ru_history_bytes = history_bytes (ob_store ob),
      ru_counters = counters (ob_store ob),
      ru_persistence = (case ob_persistence ob of Some ps \<Rightarrow> ps_stats ps | None \<Rightarrow> empty_persistence_report),
      ru_recovered_on_start = ob_recovered_on_start ob, ru_recovery_diagnostic = ob_recovery_diagnostic ob,
      ru_apply_order_violations = ob_apply_order_violations ob\<rparr>"

section \<open>Interleavings\<close>

datatype runtime_action = Submit string | Claim u64 | Deliver u64 | Apply

text \<open>The steps of a running observatory: a client submits; one of the workers takes a critical
  section. A worker that claimed a document delivers it before it does anything else, so there are
  never more claims than workers.\<close>

inductive runtime_step :: "'d doubles \<Rightarrow> observatory \<Rightarrow> runtime_action \<Rightarrow> observatory \<Rightarrow> bool"
  for lib :: "'d doubles" where
  step_submit: "submit_document lib payload ob = (status, ticket, ob') \<Longrightarrow> status_ok status
    \<Longrightarrow> runtime_step lib ob (Submit payload) ob'"
| step_claim: "claim_document ob = Some (ticket, ob') \<Longrightarrow> ob_in_flight ob < ob_workers ob
    \<Longrightarrow> runtime_step lib ob (Claim ticket) ob'"
| step_deliver: "om_find (ob_pending ob) ticket = Some doc \<Longrightarrow> pd_in_flight doc
    \<Longrightarrow> runtime_step lib ob (Deliver ticket) (deliver_document lib ticket ob)"
| step_apply: "apply_front (\<lambda>_. False) ob = Some ob' \<Longrightarrow> ob_in_flight ob < ob_workers ob
    \<Longrightarrow> runtime_step lib ob Apply ob'"

inductive runtime_run :: "'d doubles \<Rightarrow> observatory \<Rightarrow> runtime_action list \<Rightarrow> observatory \<Rightarrow> bool"
  for lib :: "'d doubles" where
  run_nil: "runtime_run lib ob [] ob"
| run_step: "runtime_run lib ob as ob' \<Longrightarrow> runtime_step lib ob' a ob'' \<Longrightarrow> runtime_run lib ob (as @ [a]) ob''"

inductive_cases runtime_stepE: "runtime_step lib ob a ob'"

end
