(* ===== verification/Observatory_Properties.thy ===== *)
theory Observatory_Properties
  imports Observatory
begin

text \<open>
  What the runtime promises: however the workers interleave, documents reach the store in the order
  they were submitted, so the store is the one synchronous ingest would have produced; the queue
  stays within its bound; and workers that are left alone drain it.
\<close>

section \<open>Tickets\<close>

definition ticket :: "nat \<Rightarrow> u64" where
  "ticket i = of_nat (Suc i)"

text \<open>Tickets are distinct as long as the counter has not wrapped.\<close>

lemma unat_ticket: "i < 2 ^ 64 - 1 \<Longrightarrow> unat (ticket i) = Suc i"
  unfolding ticket_def by (simp add: unat_of_nat del: of_nat_Suc)

lemma ticket_less: "i < j \<Longrightarrow> j < 2 ^ 64 - 1 \<Longrightarrow> ticket i < ticket j"
  using unat_ticket [of i] unat_ticket [of j] by (simp add: word_less_nat_alt)

lemma ticket_eq: "i < 2 ^ 64 - 1 \<Longrightarrow> j < 2 ^ 64 - 1 \<Longrightarrow> ticket i = ticket j \<longleftrightarrow> i = j"
  using ticket_less [of i j] ticket_less [of j i] by (metis less_irrefl nat_neq_iff)

lemma ticket_Suc: "ticket i + 1 = ticket (Suc i)"
  by (simp add: ticket_def add.commute)

lemma ticket_nonzero: "i < 2 ^ 64 - 1 \<Longrightarrow> ticket i \<noteq> 0"
  using unat_ticket [of i] by (metis Zero_not_Suc unat_0)

text \<open>The pending documents k up to n, by submission number.\<close>

definition queue_of :: "(nat \<Rightarrow> pending_document) \<Rightarrow> nat \<Rightarrow> nat \<Rightarrow> (u64 \<times> pending_document) list" where
  "queue_of docs k n = map (\<lambda>i. (ticket i, docs i)) [k..<n]"

lemma queue_of_empty [simp]: "n \<le> k \<Longrightarrow> queue_of docs k n = []"
  by (simp add: queue_of_def)

lemma queue_of_Cons: "k < n \<Longrightarrow> queue_of docs k n = (ticket k, docs k) # queue_of docs (Suc k) n"
  by (simp add: queue_of_def upt_conv_Cons)

lemma queue_of_snoc: "k \<le> n \<Longrightarrow> queue_of docs k (Suc n) = queue_of docs k n @ [(ticket n, docs n)]"
  by (simp add: queue_of_def)

lemma length_queue_of [simp]: "length (queue_of docs k n) = n - k"
  by (simp add: queue_of_def)

lemma queue_of_cong: "(\<And>i. k \<le> i \<Longrightarrow> i < n \<Longrightarrow> docs i = docs' i) \<Longrightarrow> queue_of docs k n = queue_of docs' k n"
  by (simp add: queue_of_def)

lemma find_queue_of:
  assumes "n < 2 ^ 64" "j < 2 ^ 64 - 1"
  shows "om_find (queue_of docs k n) (ticket j) = (if k \<le> j \<and> j < n then Some (docs j) else None)"
  using assms
proof (induction "n - k" arbitrary: k)
  case (Suc m)
  then have k: "k < n" by simp
  have IH: "om_find (queue_of docs (Suc k) n) (ticket j) = (if Suc k \<le> j \<and> j < n then Some (docs j) else None)"
    using Suc by simp
  have "ticket k = ticket j \<longleftrightarrow> k = j" using ticket_eq [of k j] k Suc.prems by simp
  then show ?case using IH k by (auto simp: queue_of_Cons om_find_def)
qed (simp add: om_find_def)

lemma put_queue_of:
  assumes "n < 2 ^ 64" "k \<le> j" "j < n"
  shows "om_put (ticket j) d (queue_of docs k n) = queue_of (docs(j := d)) k n"
  using assms
proof (induction "n - k" arbitrary: k)
  case (Suc m)
  then have k: "k < n" by simp
  show ?case
  proof (cases "k = j")
    case True
    then have "queue_of (docs(j := d)) (Suc k) n = queue_of docs (Suc k) n" by (intro queue_of_cong) simp
    then show ?thesis using k True by (simp add: queue_of_Cons)
  next
    case False
    then have "ticket k < ticket j" using Suc.prems by (intro ticket_less) simp_all
    moreover have "om_put (ticket j) d (queue_of docs (Suc k) n) = queue_of (docs(j := d)) (Suc k) n"
      using Suc False by simp
    moreover have "\<not> ticket j < ticket k" "ticket j \<noteq> ticket k" using \<open>ticket k < ticket j\<close> by auto
    ultimately show ?thesis using k False by (simp add: queue_of_Cons)
  qed
qed simp

lemma put_queue_end:
  assumes "n < 2 ^ 64 - 1" "k \<le> n"
  shows "om_put (ticket n) d (queue_of docs k n) = queue_of (docs(n := d)) k (Suc n)"
  using assms
proof (induction "n - k" arbitrary: k)
  case 0
  then show ?case by (simp add: queue_of_Cons)
next
  case (Suc m)
  then have k: "k < n" by simp
  then have "ticket k < ticket n" using Suc.prems by (intro ticket_less) simp_all
  then have order: "\<not> ticket n < ticket k" "ticket n \<noteq> ticket k" by auto
  have "om_put (ticket n) d (queue_of docs (Suc k) n) = queue_of (docs(n := d)) (Suc k) (Suc n)"
    using Suc k by simp
  then show ?case using order k queue_of_Cons [of k n docs] queue_of_Cons [of k "Suc n" "docs(n := d)"] by simp
qed

lemma erase_queue_of:
  assumes "n < 2 ^ 64" "k < n"
  shows "om_erase (ticket k) (queue_of docs k n) = queue_of docs (Suc k) n"
proof -
  have "ticket i \<noteq> ticket k" if "i \<in> set [Suc k..<n]" for i
    using that assms ticket_eq [of i k] by auto
  then have "filter (\<lambda>e. fst e \<noteq> ticket k) (queue_of docs (Suc k) n) = queue_of docs (Suc k) n"
    by (auto simp: queue_of_def filter_id_conv)
  then show ?thesis using assms(2) by (simp add: om_erase_def queue_of_Cons)
qed

definition waiting :: "pending_document \<Rightarrow> bool" where
  "waiting doc \<longleftrightarrow> \<not> pd_decoded doc \<and> \<not> pd_in_flight doc"

lemma first_undecoded_queue:
  assumes "n < 2 ^ 64"
  shows "(\<exists>j. k \<le> j \<and> j < n \<and> waiting (docs j) \<and> first_undecoded (queue_of docs k n) = ticket j)
    \<or> (\<forall>i. k \<le> i \<and> i < n \<longrightarrow> \<not> waiting (docs i)) \<and> first_undecoded (queue_of docs k n) = 0"
proof (induction "n - k" arbitrary: k)
  case (Suc m)
  then have k: "k < n" by simp
  show ?case
  proof (cases "waiting (docs k)")
    case True
    then have "first_undecoded (queue_of docs k n) = ticket k"
      using k by (simp add: queue_of_Cons waiting_def)
    then show ?thesis using True k by blast
  next
    case False
    then have "first_undecoded (queue_of docs k n) = first_undecoded (queue_of docs (Suc k) n)"
      using k by (auto simp: queue_of_Cons waiting_def)
    moreover have "(\<exists>j. Suc k \<le> j \<and> j < n \<and> waiting (docs j) \<and> first_undecoded (queue_of docs (Suc k) n) = ticket j)
      \<or> (\<forall>i. Suc k \<le> i \<and> i < n \<longrightarrow> \<not> waiting (docs i)) \<and> first_undecoded (queue_of docs (Suc k) n) = 0"
      using Suc by simp
    ultimately show ?thesis using False by (metis Suc_leD le_antisym not_less_eq_eq)
  qed
qed auto

section \<open>The invariant of a run\<close>

fun submitted :: "runtime_action list \<Rightarrow> string list" where
  "submitted [] = []"
| "submitted (Submit payload # as) = payload # submitted as"
| "submitted (_ # as) = submitted as"

fun applied :: "runtime_action list \<Rightarrow> nat" where
  "applied [] = 0"
| "applied (Apply # as) = Suc (applied as)"
| "applied (_ # as) = applied as"

lemma submitted_append: "submitted (as @ bs) = submitted as @ submitted bs"
  by (induction as rule: submitted.induct) simp_all

lemma applied_append: "applied (as @ bs) = applied as + applied bs"
  by (induction as rule: applied.induct) simp_all

text \<open>Synchronous ingest of one document, as an effect on the store.\<close>

definition ingested :: "'d doubles \<Rightarrow> ingest_limits \<Rightarrow> store \<Rightarrow> string \<Rightarrow> store" where
  "ingested lib limits st payload = snd (snd (ingest_document payload limits lib st))"

definition doc_ok :: "'d doubles \<Rightarrow> ingest_limits \<Rightarrow> string \<Rightarrow> pending_document \<Rightarrow> bool" where
  "doc_ok lib limits payload doc \<longleftrightarrow>
     pd_payload doc = payload \<and> \<not> (pd_decoded doc \<and> pd_in_flight doc) \<and> \<not> pd_applied doc
     \<and> (pd_decoded doc \<longrightarrow>
          pd_decode_status doc = fst (decode_document payload limits lib)
          \<and> ir_decode (pd_report doc) = snd (decode_document payload limits lib))"

text \<open>A weight of the documents k up to n.\<close>

definition weigh :: "(pending_document \<Rightarrow> nat) \<Rightarrow> (nat \<Rightarrow> pending_document) \<Rightarrow> nat \<Rightarrow> nat \<Rightarrow> nat" where
  "weigh f docs k n = sum_list (map (\<lambda>i. f (docs i)) [k..<n])"

lemma weigh_Cons: "k < n \<Longrightarrow> weigh f docs k n = f (docs k) + weigh f docs (Suc k) n"
  by (simp add: weigh_def upt_conv_Cons)

lemma weigh_snoc: "k \<le> n \<Longrightarrow> weigh f docs k (Suc n) = weigh f docs k n + f (docs n)"
  by (simp add: weigh_def)

lemma weigh_cong: "(\<And>i. k \<le> i \<Longrightarrow> i < n \<Longrightarrow> docs i = docs' i) \<Longrightarrow> weigh f docs k n = weigh f docs' k n"
  unfolding weigh_def by (intro arg_cong [where f = sum_list] map_cong) auto

lemma weigh_update:
  assumes "k \<le> j" "j < n"
  shows "weigh f (docs(j := d)) k n + f (docs j) = weigh f docs k n + f d"
  using assms
proof (induction "n - k" arbitrary: k)
  case (Suc m)
  then have k: "k < n" by simp
  show ?case
  proof (cases "k = j")
    case True
    then have "weigh f (docs(j := d)) (Suc k) n = weigh f docs (Suc k) n" by (intro weigh_cong) simp
    then show ?thesis using k True by (simp add: weigh_Cons)
  next
    case False
    then have "weigh f (docs(j := d)) (Suc k) n + f (docs j) = weigh f docs (Suc k) n + f d"
      using Suc by simp
    then show ?thesis using k False by (simp add: weigh_Cons)
  qed
qed simp

text \<open>Documents being decoded, and the critical sections a document still needs.\<close>

definition doc_flying :: "pending_document \<Rightarrow> nat" where
  "doc_flying doc = (if pd_in_flight doc then 1 else 0)"

definition doc_work :: "pending_document \<Rightarrow> nat" where
  "doc_work doc = (if pd_decoded doc then 1 else if pd_in_flight doc then 2 else 3)"

definition queue_work :: "observatory \<Rightarrow> nat" where
  "queue_work ob = sum_list (map (\<lambda>e. doc_work (snd e)) (ob_pending ob))"

lemma queue_work_weigh: "ob_pending ob = queue_of docs k n \<Longrightarrow> queue_work ob = weigh doc_work docs k n"
  by (simp add: queue_work_def queue_of_def weigh_def comp_def)

text \<open>A runtime in which the payloads were submitted and the first k of them applied, to a store that
  was \<open>st0\<close>: its fields, and its queue.\<close>

definition run_fields ::
    "'d doubles \<Rightarrow> observatory_config \<Rightarrow> store \<Rightarrow> string list \<Rightarrow> nat \<Rightarrow> observatory \<Rightarrow> bool" where
  "run_fields lib c st0 payloads k ob \<longleftrightarrow>
     ob_config ob = c \<and> ob_state ob = RS_Running \<and> \<not> ob_stop_requested ob
     \<and> k \<le> length payloads \<and> ob_next_ticket ob = ticket (length payloads) \<and> ob_next_apply_ticket ob = ticket k
     \<and> ob_store ob = foldl (ingested lib (oc_ingest c)) st0 (take k payloads)
     \<and> length payloads - k \<le> max_pending_batches (oc_runtime c)
     \<and> ob_queued_batches ob = length payloads - k"

definition run_queue ::
    "'d doubles \<Rightarrow> observatory_config \<Rightarrow> string list \<Rightarrow> nat \<Rightarrow> (nat \<Rightarrow> pending_document) \<Rightarrow> observatory \<Rightarrow> bool" where
  "run_queue lib c payloads k docs ob \<longleftrightarrow>
     ob_pending ob = queue_of docs k (length payloads)
     \<and> (\<forall>i. k \<le> i \<longrightarrow> i < length payloads \<longrightarrow> doc_ok lib (oc_ingest c) (payloads ! i) (docs i))
     \<and> ob_in_flight ob = weigh doc_flying docs k (length payloads)"

definition run_state ::
    "'d doubles \<Rightarrow> observatory_config \<Rightarrow> store \<Rightarrow> string list \<Rightarrow> nat \<Rightarrow> observatory \<Rightarrow> bool" where
  "run_state lib c st0 payloads k ob \<longleftrightarrow>
     run_fields lib c st0 payloads k ob \<and> (\<exists>docs. run_queue lib c payloads k docs ob)"

lemma apply_decoded_store:
  assumes "doc_ok lib limits payload doc" "pd_decoded doc" "apply_decoded (\<lambda>_. False) doc ob = (status, report, ob')"
  shows "ob_store ob' = ingested lib limits (ob_store ob) payload"
    "ob' = ob\<lparr>ob_store := ob_store ob', ob_decode_failures := ob_decode_failures ob'\<rparr>"
proof -
  obtain s out where d: "decode_document payload limits lib = (s, out)" by force
  have doc: "pd_decode_status doc = s" "ir_decode (pd_report doc) = out"
    using assms(1,2) by (simp_all add: doc_ok_def d)
  obtain s1 st1 where t: "apply_tables (do_metadata out) (ob_store ob) = (s1, st1)" by force
  obtain s2 b st2 where i: "ingest_batch (do_samples out) (\<lambda>_. False) st1 = (s2, b, st2)" by (metis prod_cases3)
  show "ob_store ob' = ingested lib limits (ob_store ob) payload"
    using assms(3) by (auto simp: apply_decoded_def doc t i ingested_def ingest_document_def d split: if_splits)
  show "ob' = ob\<lparr>ob_store := ob_store ob', ob_decode_failures := ob_decode_failures ob'\<rparr>"
    using assms(3) by (auto simp: apply_decoded_def doc t i split: if_splits)
qed

lemma run_submit:
  assumes "run_state lib c st0 payloads k ob" "worker_threads (oc_runtime c) > 0" "length payloads < 2 ^ 64 - 2"
    and "submit_document lib payload ob = (status, t, ob')" "status_ok status"
  shows "run_state lib c st0 (payloads @ [payload]) k ob'"
proof -
  let ?n = "length payloads"
  obtain docs where q: "run_queue lib c payloads k docs ob" and f: "run_fields lib c st0 payloads k ob"
    using assms(1) by (auto simp: run_state_def)
  have n: "ob_next_ticket ob = ticket ?n" "k \<le> ?n" "ob_config ob = c" using f by (simp_all add: run_fields_def)
  let ?doc = "new_document (ticket ?n) payload"
  have room: "length (ob_pending ob) < max_pending_batches (oc_runtime c)"
    and ob': "ob' = ob\<lparr>ob_next_ticket := ticket (Suc ?n), ob_pending := om_put (ticket ?n) ?doc (ob_pending ob),
       ob_queued_batches := ob_queued_batches ob + 1\<rparr>"
    using assms(2,4,5) n by (auto simp: submit_document_def not_running_def ticket_Suc Let_def split: if_splits)
  have "weigh doc_flying (docs(?n := ?doc)) k (Suc ?n) = weigh doc_flying docs k ?n"
    using n(2) weigh_cong [of k ?n "docs(?n := ?doc)" docs] by (simp add: weigh_snoc new_document_def doc_flying_def)
  moreover have "doc_ok lib (oc_ingest c) ((payloads @ [payload]) ! i) ((docs(?n := ?doc)) i)"
    if "k \<le> i" "i < Suc ?n" for i
    using that q by (auto simp: run_queue_def nth_append less_Suc_eq doc_ok_def new_document_def)
  moreover have "om_put (ticket ?n) ?doc (queue_of docs k ?n) = queue_of (docs(?n := ?doc)) k (Suc ?n)"
    using assms(3) n(2) by (intro put_queue_end) simp_all
  ultimately have "run_queue lib c (payloads @ [payload]) k (docs(?n := ?doc)) ob'"
    using q by (simp add: run_queue_def ob')
  moreover have "run_fields lib c st0 (payloads @ [payload]) k ob'"
    using f room q by (auto simp: run_fields_def ob' run_queue_def)
  ultimately show ?thesis unfolding run_state_def by blast
qed

lemma run_update:
  assumes "run_fields lib c st0 payloads k ob" "run_queue lib c payloads k docs ob" "length payloads < 2 ^ 64"
    and "k \<le> j" "j < length payloads" "doc_ok lib (oc_ingest c) (payloads ! j) doc"
    and "n + doc_flying (docs j) = ob_in_flight ob + doc_flying doc" "doc_work doc < doc_work (docs j)"
    and "ob' = ob\<lparr>ob_pending := om_put (ticket j) doc (ob_pending ob), ob_in_flight := n, ob_queued_samples := m\<rparr>"
  shows "run_state lib c st0 payloads k ob' \<and> queue_work ob' < queue_work ob"
proof -
  have put: "ob_pending ob' = queue_of (docs(j := doc)) k (length payloads)"
    using assms(2) put_queue_of [OF assms(3,4,5)] by (simp add: run_queue_def assms(9))
  have "weigh doc_flying (docs(j := doc)) k (length payloads) = n"
    using weigh_update [OF assms(4,5), of doc_flying docs doc] assms(2,7) by (simp add: run_queue_def)
  then have "run_queue lib c payloads k (docs(j := doc)) ob'"
    using assms(2,6) put by (simp add: run_queue_def) (simp add: assms(9))
  moreover have "run_fields lib c st0 payloads k ob'" using assms(1) by (simp add: run_fields_def assms(9))
  moreover have "queue_work ob' < queue_work ob"
    using weigh_update [OF assms(4,5), of doc_work docs doc] assms(2,8) queue_work_weigh [OF put] queue_work_weigh [of ob docs]
    by (simp add: run_queue_def)
  ultimately show ?thesis unfolding run_state_def by blast
qed

lemma run_claim:
  assumes "run_state lib c st0 payloads k ob" "length payloads < 2 ^ 64 - 1" "claim_document ob = Some (t, ob')"
  shows "run_state lib c st0 payloads k ob' \<and> queue_work ob' < queue_work ob"
proof -
  let ?n = "length payloads"
  obtain docs where q: "run_queue lib c payloads k docs ob" and f: "run_fields lib c st0 payloads k ob"
    using assms(1) by (auto simp: run_state_def)
  have t: "t = first_undecoded (queue_of docs k ?n)" "t \<noteq> 0"
    using assms(3) q by (auto simp: claim_document_def run_queue_def om_entries_def Let_def split: if_splits option.splits)
  then obtain j where j: "k \<le> j" "j < ?n" "waiting (docs j)" "t = ticket j"
    using first_undecoded_queue [of ?n k docs] assms(2) by auto
  have find: "om_find (ob_pending ob) t = Some (docs j)"
    using find_queue_of [of ?n j docs k] assms(2) j q by (simp add: run_queue_def)
  have ob': "ob' = ob\<lparr>ob_pending := om_put (ticket j) ((docs j)\<lparr>pd_in_flight := True\<rparr>) (ob_pending ob),
      ob_in_flight := ob_in_flight ob + 1, ob_queued_samples := ob_queued_samples ob\<rparr>"
    using assms(3) find j(4) by (auto simp: claim_document_def Let_def split: if_splits option.splits)
  have "doc_ok lib (oc_ingest c) (payloads ! j) ((docs j)\<lparr>pd_in_flight := True\<rparr>)"
    using q j by (auto simp: run_queue_def doc_ok_def waiting_def)
  then show ?thesis
    using assms(2) j by (intro run_update [OF f q _ j(1,2) _ _ _ ob']) (simp_all add: waiting_def doc_flying_def doc_work_def)
qed

lemma run_deliver:
  assumes "run_state lib c st0 payloads k ob" "length payloads < 2 ^ 64 - 1"
    and "om_find (ob_pending ob) t = Some doc" "pd_in_flight doc"
  shows "run_state lib c st0 payloads k (deliver_document lib t ob)
    \<and> queue_work (deliver_document lib t ob) < queue_work ob"
proof -
  let ?n = "length payloads"
  obtain docs where q: "run_queue lib c payloads k docs ob" and f: "run_fields lib c st0 payloads k ob"
    using assms(1) by (auto simp: run_state_def)
  have "(t, doc) \<in> set (queue_of docs k ?n)"
    using assms(3) q by (auto simp: run_queue_def om_find_def dest: map_of_SomeD)
  then obtain j where j: "k \<le> j" "j < ?n" "t = ticket j" "doc = docs j" by (auto simp: queue_of_def)
  have config: "ob_config ob = c" using f by (simp add: run_fields_def)
  obtain s out where d: "decode_document (payloads ! j) (oc_ingest c) lib = (s, out)" by force
  have doc: "doc_ok lib (oc_ingest c) (payloads ! j) doc" using q j by (simp add: run_queue_def)
  let ?doc = "(decode_only lib ob doc)\<lparr>pd_decoded := True, pd_in_flight := False\<rparr>"
  have ok: "doc_ok lib (oc_ingest c) (payloads ! j) ?doc"
    using doc config by (simp add: doc_ok_def decode_only_def d)
  have pos: "ob_in_flight ob \<noteq> 0"
    using weigh_update [OF j(1,2), of doc_flying docs "(docs j)\<lparr>pd_in_flight := False\<rparr>"] assms(4) j(4) q
    by (simp add: run_queue_def doc_flying_def)
  have ob': "deliver_document lib t ob =
      ob\<lparr>ob_pending := om_put (ticket j) ?doc (ob_pending ob), ob_in_flight := ob_in_flight ob - 1,
         ob_queued_samples := ob_queued_samples ob + length (do_samples (ir_decode (pd_report ?doc)))\<rparr>"
    using assms(3) j(3) by (simp add: deliver_document_def Let_def)
  have "\<not> pd_decoded (docs j)" using doc assms(4) j(4) by (auto simp: doc_ok_def)
  then show ?thesis
    using assms(2,4) j ok pos
    by (intro run_update [OF f q _ j(1,2) ok _ _ ob']) (simp_all add: doc_flying_def doc_work_def)
qed

lemma run_apply:
  assumes "run_state lib c st0 payloads k ob" "length payloads < 2 ^ 64 - 1" "apply_front (\<lambda>_. False) ob = Some ob'"
  shows "run_state lib c st0 payloads (Suc k) ob' \<and> k < length payloads \<and> queue_work ob' < queue_work ob"
proof -
  let ?n = "length payloads"
  obtain docs where q: "run_queue lib c payloads k docs ob" and f: "run_fields lib c st0 payloads k ob"
    using assms(1) by (auto simp: run_state_def)
  have k: "k \<le> ?n" "ob_next_apply_ticket ob = ticket k" using f by (simp_all add: run_fields_def)
  have find: "om_find (ob_pending ob) (ticket k) = (if k < ?n then Some (docs k) else None)"
    using find_queue_of [of ?n k docs k] assms(2) k q by (simp add: run_queue_def)
  then have lt: "k < ?n" and dec: "pd_decoded (docs k)"
    using assms(3) k by (auto simp: apply_front_def split: if_splits)
  obtain s r ob1 where a: "apply_decoded (\<lambda>_. False) (docs k) ob = (s, r, ob1)" by (metis prod_cases3)
  have ok: "doc_ok lib (oc_ingest c) (payloads ! k) (docs k)" using q lt by (simp add: run_queue_def)
  note eff = apply_decoded_store [OF ok dec a]
  obtain st1 m where ob1: "ob1 = ob\<lparr>ob_store := st1, ob_decode_failures := m\<rparr>" using eff(2) by blast
  have ob': "ob' = ob\<lparr>ob_store := st1, ob_decode_failures := m,
      ob_applied_documents := ob_applied_documents ob + 1, ob_pending := om_erase (ticket k) (ob_pending ob),
      ob_next_apply_ticket := ticket (Suc k), ob_queued_batches := ob_queued_batches ob - 1\<rparr>"
    using assms(3) find lt dec k a by (simp add: apply_front_def ob1 ticket_Suc split: if_splits)
  have "weigh doc_flying docs k ?n = weigh doc_flying docs (Suc k) ?n"
    using ok dec lt by (simp add: weigh_Cons doc_ok_def doc_flying_def)
  moreover have "om_erase (ticket k) (queue_of docs k ?n) = queue_of docs (Suc k) ?n"
    using assms(2) lt by (intro erase_queue_of) simp_all
  ultimately have q': "run_queue lib c payloads (Suc k) docs ob'" using q by (simp add: run_queue_def ob')
  have "queue_work ob' < queue_work ob"
    using queue_work_weigh [of ob docs] queue_work_weigh [of ob' docs] q q' lt dec
    by (simp add: run_queue_def weigh_Cons doc_work_def)
  moreover have "run_fields lib c st0 payloads (Suc k) ob'"
    using f lt eff(1) by (auto simp: run_fields_def ob' ob1 take_Suc_conv_app_nth)
  ultimately show ?thesis using lt q' unfolding run_state_def by blast
qed

lemma run_state_run:
  assumes "runtime_run lib ob as ob'" "run_state lib c st0 [] 0 ob" "worker_threads (oc_runtime c) > 0"
    and "length (submitted as) < 2 ^ 64 - 1"
  shows "run_state lib c st0 (submitted as) (applied as) ob'"
  using assms
proof (induction rule: runtime_run.induct)
  case (run_step ob as ob' a ob'')
  have IH: "run_state lib c st0 (submitted as) (applied as) ob'"
    using run_step by (simp add: submitted_append)
  from run_step(2) show ?case
  proof (cases rule: runtime_step.cases)
    case (step_submit payload status ticket)
    then show ?thesis
      using run_submit [OF IH assms(3), of payload] run_step.prems by (simp add: submitted_append applied_append)
  next
    case (step_claim ticket)
    then show ?thesis using run_claim [OF IH] run_step.prems by (simp add: submitted_append applied_append)
  next
    case (step_deliver ticket doc)
    then show ?thesis using run_deliver [OF IH] run_step.prems by (simp add: submitted_append applied_append)
  next
    case step_apply
    then show ?thesis using run_apply [OF IH] run_step.prems by (simp add: submitted_append applied_append)
  qed
qed simp

section \<open>Draining\<close>

definition worker_action :: "runtime_action \<Rightarrow> bool" where
  "worker_action a \<longleftrightarrow> (\<forall>payload. a \<noteq> Submit payload)"

lemma step_workers: "runtime_step lib ob a ob' \<Longrightarrow> ob_workers ob' = ob_workers ob \<and> ob_config ob' = ob_config ob"
  by (erule runtime_stepE)
    (auto simp: submit_document_def apply_decoded_def claim_document_def deliver_document_def apply_front_def Let_def
      split: if_splits option.splits prod.splits)

lemma run_workers: "runtime_run lib ob as ob' \<Longrightarrow> ob_workers ob' = ob_workers ob \<and> ob_config ob' = ob_config ob"
  by (induction rule: runtime_run.induct) (auto dest: step_workers)

lemma worker_step_work:
  assumes "run_state lib c st0 payloads k ob" "length payloads < 2 ^ 64 - 1" "runtime_step lib ob a ob'" "worker_action a"
  shows "\<exists>k'. run_state lib c st0 payloads k' ob' \<and> queue_work ob' < queue_work ob"
  using assms(3)
proof (cases rule: runtime_step.cases)
  case (step_submit payload status ticket)
  then show ?thesis using assms(4) by (simp add: worker_action_def)
next
  case (step_claim ticket)
  then show ?thesis using run_claim [OF assms(1,2)] by blast
next
  case (step_deliver ticket doc)
  then show ?thesis using run_deliver [OF assms(1,2)] by blast
next
  case step_apply
  then show ?thesis using run_apply [OF assms(1,2)] by blast
qed

text \<open>No deadlock: while a document is pending, some worker can go on.\<close>

lemma worker_progress:
  assumes "run_state lib c st0 payloads k ob" "length payloads < 2 ^ 64 - 1" "ob_workers ob > 0" "ob_pending ob \<noteq> []"
  shows "\<exists>a ob'. worker_action a \<and> runtime_step lib ob a ob'"
proof -
  let ?n = "length payloads"
  obtain docs where q: "run_queue lib c payloads k docs ob" and f: "run_fields lib c st0 payloads k ob"
    using assms(1) by (auto simp: run_state_def)
  have lt: "k < ?n" using assms(4) q by (auto simp: run_queue_def queue_of_def)
  have find: "om_find (ob_pending ob) (ticket j) = (if k \<le> j \<and> j < ?n then Some (docs j) else None)" if "j < ?n" for j
    using find_queue_of [of ?n j docs k] assms(2) that q by (simp add: run_queue_def)
  have fields: "\<not> ob_stop_requested ob" "ob_next_apply_ticket ob = ticket k" using f by (simp_all add: run_fields_def)
  show ?thesis
  proof (cases "\<exists>j. k \<le> j \<and> j < ?n \<and> pd_in_flight (docs j)")
    case True
    then obtain j where "k \<le> j" "j < ?n" "pd_in_flight (docs j)" by blast
    then have "runtime_step lib ob (Deliver (ticket j)) (deliver_document lib (ticket j) ob)"
      using find [of j] by (intro step_deliver) simp_all
    then show ?thesis by (intro exI [of _ "Deliver (ticket j)"]) (auto simp: worker_action_def)
  next
    case False
    then have "weigh doc_flying docs k ?n = 0" by (auto simp: weigh_def doc_flying_def sum_list_eq_0_iff)
    then have idle: "ob_in_flight ob < ob_workers ob" using q assms(3) by (simp add: run_queue_def)
    show ?thesis
    proof (cases "pd_decoded (docs k)")
      case True
      then obtain ob' where "apply_front (\<lambda>_. False) ob = Some ob'"
        using find [of k] lt fields by (cases "apply_decoded (\<lambda>_. False) (docs k) ob") (simp add: apply_front_def)
      then have "runtime_step lib ob Apply ob'" using idle by (rule step_apply)
      then show ?thesis by (intro exI [of _ Apply]) (auto simp: worker_action_def)
    next
      case wait: False
      then have "first_undecoded (queue_of docs k ?n) = ticket k"
        using False lt by (simp add: queue_of_Cons)
      moreover have "ticket k \<noteq> 0" using assms(2) lt by (intro ticket_nonzero) simp
      ultimately obtain ob' where "claim_document ob = Some (ticket k, ob')"
        using find [of k] lt fields wait q
        by (auto simp: claim_document_def front_ready_def run_queue_def om_entries_def Let_def)
      then have "runtime_step lib ob (Claim (ticket k)) ob'" using idle by (rule step_claim)
      then show ?thesis by (intro exI [of _ "Claim (ticket k)"]) (auto simp: worker_action_def)
    qed
  qed
qed

lemma run_state_drained:
  assumes "run_state lib c st0 payloads k ob" "ob_pending ob = []"
  shows "drained ob \<and> ob_store ob = foldl (ingested lib (oc_ingest c)) st0 payloads"
proof -
  obtain docs where q: "run_queue lib c payloads k docs ob" and f: "run_fields lib c st0 payloads k ob"
    using assms(1) by (auto simp: run_state_def)
  have "length (queue_of docs k (length payloads)) = 0" using q assms(2) by (simp add: run_queue_def)
  then have "k = length payloads" using f by (simp add: run_fields_def)
  then show ?thesis using q f assms(2) by (simp add: drained_def run_queue_def run_fields_def weigh_def)
qed

lemma run_prepend: "runtime_run lib ob' as ob'' \<Longrightarrow> runtime_step lib ob a ob' \<Longrightarrow> runtime_run lib ob (a # as) ob''"
proof (induction rule: runtime_run.induct)
  case (run_nil ob')
  then show ?case using runtime_run.run_step [OF runtime_run.run_nil, of lib ob a ob'] by simp
next
  case (run_step ob' as ob1 b ob2)
  then show ?case using runtime_run.run_step [of lib ob "a # as" ob1 b ob2] by simp
qed

lemma drains:
  assumes "run_state lib c st0 payloads k ob" "length payloads < 2 ^ 64 - 1" "ob_workers ob > 0"
  shows "\<exists>bs ob'. runtime_run lib ob bs ob' \<and> list_all worker_action bs \<and> drained ob'
    \<and> ob_store ob' = foldl (ingested lib (oc_ingest c)) st0 payloads"
  using assms
proof (induction "queue_work ob" arbitrary: ob k rule: less_induct)
  case less
  show ?case
  proof (cases "ob_pending ob = []")
    case True
    then have "runtime_run lib ob [] ob \<and> list_all worker_action [] \<and> drained ob
        \<and> ob_store ob = foldl (ingested lib (oc_ingest c)) st0 payloads"
      using run_state_drained [OF less(2)] by (simp add: runtime_run.run_nil)
    then show ?thesis by blast
  next
    case False
    then obtain a ob1 where a: "worker_action a" "runtime_step lib ob a ob1"
      using worker_progress [OF less(2,3,4)] by blast
    obtain k1 where k1: "run_state lib c st0 payloads k1 ob1" "queue_work ob1 < queue_work ob"
      using worker_step_work [OF less(2,3) a(2,1)] by blast
    have "ob_workers ob1 > 0" using step_workers [OF a(2)] less(4) by simp
    then obtain bs ob2 where "runtime_run lib ob1 bs ob2" "list_all worker_action bs" "drained ob2"
        "ob_store ob2 = foldl (ingested lib (oc_ingest c)) st0 payloads"
      using less(1) [OF k1(2,1) less(3)] by blast
    moreover from this have "runtime_run lib ob (a # bs) ob2" using run_prepend a(2) by blast
    ultimately show ?thesis using a(1) by (intro exI [of _ "a # bs"] exI [of _ ob2]) simp
  qed
qed

lemma worker_runs_short:
  assumes "runtime_run lib ob bs ob'" "run_state lib c st0 payloads k ob" "length payloads < 2 ^ 64 - 1" "list_all worker_action bs"
  shows "\<exists>k'. run_state lib c st0 payloads k' ob' \<and> length bs + queue_work ob' \<le> queue_work ob"
  using assms
proof (induction rule: runtime_run.induct)
  case (run_step ob as ob' a ob'')
  then obtain k' where k': "run_state lib c st0 payloads k' ob'" "length as + queue_work ob' \<le> queue_work ob" by auto
  then show ?case using worker_step_work [OF k'(1) run_step(5) run_step(2)] run_step.prems(3) by fastforce
qed auto

lemma queue_work_bound: "queue_work ob \<le> 3 * length (ob_pending ob)"
proof -
  have "sum_list (map (\<lambda>e. doc_work (snd e)) xs) \<le> 3 * length xs" for xs :: "(u64 \<times> pending_document) list"
    by (induction xs) (auto simp: doc_work_def)
  then show ?thesis by (simp add: queue_work_def)
qed

section \<open>Starting\<close>

definition empty_queue :: "observatory \<Rightarrow> bool" where
  "empty_queue ob \<longleftrightarrow>
     ob_pending ob = [] \<and> ob_in_flight ob = 0 \<and> ob_queued_batches ob = 0 \<and> \<not> ob_stop_requested ob
     \<and> ob_next_ticket ob = 1 \<and> ob_next_apply_ticket ob = 1 \<and> ob_state ob = RS_Running"

lemma recover_keeps_queue:
  "recover_observatory io ob = Some (status, summary, ob') \<Longrightarrow> empty_queue ob \<Longrightarrow> empty_queue ob'"
  by (auto simp: recover_observatory_def empty_queue_def Let_def split: option.splits prod.splits if_splits)

lemma start_workers_queue:
  "empty_queue ob \<Longrightarrow> empty_queue (start_workers ob)"
  "ob_workers (start_workers ob) = worker_threads (oc_runtime (ob_config (start_workers ob)))"
  by (simp_all add: empty_queue_def start_workers_def)

lemma started_queue:
  assumes "start_observatory io ob0 = Some (status, ob)" "status_ok status"
  shows "empty_queue ob \<and> ob_workers ob = worker_threads (oc_runtime (ob_config ob))"
proof -
  obtain s1 ob1 where o1: "open_for_start io ob0 = (s1, ob1)" by force
  let ?ob2 = "(clear_queue ob1)\<lparr>ob_stop_requested := False, ob_next_ticket := 1, ob_next_apply_ticket := 1, ob_state := RS_Running\<rparr>"
  have e2: "empty_queue ?ob2" by (simp add: empty_queue_def clear_queue_def)
  have "\<exists>x. empty_queue x \<and> ob = start_workers x"
  proof (cases "oc_recover_on_start (ob_config ?ob2) \<and> ob_persistence ?ob2 \<noteq> None")
    case True
    then obtain s2 summary ob3 where r: "recover_observatory io ?ob2 = Some (s2, summary, ob3)"
        "ob = start_workers (ob3\<lparr>ob_recovered_on_start := rs_recovered summary, ob_recovery_diagnostic := rs_diagnostic summary\<rparr>)"
      using assms o1 by (auto simp: start_observatory_def Let_def split: if_splits option.splits prod.splits)
    moreover have "empty_queue (ob3\<lparr>ob_recovered_on_start := rs_recovered summary, ob_recovery_diagnostic := rs_diagnostic summary\<rparr>)"
      using recover_keeps_queue [OF r(1) e2] by (simp add: empty_queue_def)
    ultimately show ?thesis by blast
  next
    case False
    then show ?thesis
      using assms o1 e2 by (auto simp: start_observatory_def Let_def split: if_splits)
  qed
  then show ?thesis using start_workers_queue by blast
qed

lemma started_run_state:
  assumes "start_observatory io ob0 = Some (status, ob)" "status_ok status"
  shows "run_state lib (ob_config ob) (ob_store ob) [] 0 ob"
    "ob_workers ob = worker_threads (oc_runtime (ob_config ob))"
  using started_queue [OF assms]
  by (simp_all add: run_state_def run_fields_def run_queue_def empty_queue_def ticket_def weigh_def)

section \<open>Properties\<close>

text \<open>C11: The worker pool is invisible. Whatever the number of workers and however they interleave, after
  any run of a started runtime the store is the one that synchronous ingest of the first documents,
  in the order of their submission, would have produced; and the queue holds exactly the others,
  within its bound.\<close>

theorem workers_refine_sequential_ingest:
  assumes "start_observatory io ob0 = Some (status, ob)" "status_ok status"
    and "worker_threads (oc_runtime (ob_config ob)) > 0"
    and "runtime_run lib ob as ob'" "length (submitted as) < 2 ^ 64 - 1"
  shows "ob_store ob' = foldl (ingested lib (oc_ingest (ob_config ob))) (ob_store ob) (take (applied as) (submitted as))
    \<and> applied as \<le> length (submitted as)
    \<and> length (ob_pending ob') = length (submitted as) - applied as
    \<and> length (ob_pending ob') \<le> max_pending_batches (oc_runtime (ob_config ob))"
proof -
  have "run_state lib (ob_config ob) (ob_store ob) (submitted as) (applied as) ob'"
    by (rule run_state_run [OF assms(4) started_run_state(1) [OF assms(1,2)] assms(3,5)])
  then show ?thesis by (auto simp: run_state_def run_fields_def run_queue_def)
qed

text \<open>C20: Workers that are left alone drain the queue. After any run, every further run without
  submissions is short, it never gets stuck before the queue is empty, and there is one that ends with
  every submitted document applied in order.\<close>

theorem workers_drain_queue:
  assumes "start_observatory io ob0 = Some (status, ob)" "status_ok status"
    and "worker_threads (oc_runtime (ob_config ob)) > 0"
    and "runtime_run lib ob as ob'" "length (submitted as) < 2 ^ 64 - 1"
  shows "(\<forall>bs ob''. runtime_run lib ob' bs ob'' \<and> list_all worker_action bs \<longrightarrow>
       length bs \<le> 3 * length (ob_pending ob')
       \<and> (ob_pending ob'' \<noteq> [] \<longrightarrow> (\<exists>a ob3. worker_action a \<and> runtime_step lib ob'' a ob3)))
    \<and> (\<exists>bs ob''. runtime_run lib ob' bs ob'' \<and> list_all worker_action bs \<and> drained ob''
       \<and> ob_store ob'' = foldl (ingested lib (oc_ingest (ob_config ob))) (ob_store ob) (submitted as))"
proof -
  note start = started_run_state [OF assms(1,2)]
  have run: "run_state lib (ob_config ob) (ob_store ob) (submitted as) (applied as) ob'"
    by (rule run_state_run [OF assms(4) start(1) assms(3,5)])
  have workers: "ob_workers ob' > 0" using run_workers [OF assms(4)] start(2) assms(3) by simp
  have "length bs \<le> 3 * length (ob_pending ob')
      \<and> (ob_pending ob'' \<noteq> [] \<longrightarrow> (\<exists>a ob3. worker_action a \<and> runtime_step lib ob'' a ob3))"
    if bs: "runtime_run lib ob' bs ob''" "list_all worker_action bs" for bs ob''
  proof -
    obtain k' where "run_state lib (ob_config ob) (ob_store ob) (submitted as) k' ob''"
        "length bs + queue_work ob'' \<le> queue_work ob'"
      using worker_runs_short [OF bs(1) run assms(5) bs(2)] by blast
    then show ?thesis
      using queue_work_bound [of ob'] worker_progress [OF _ assms(5)] run_workers [OF bs(1)] workers
      by (metis add_leD1 le_trans)
  qed
  then show ?thesis using drains [OF run assms(5) workers] by blast
qed

text \<open>Without workers a submission is synchronous ingest. Each accepted document is decoded and applied
  at once, with the effect on the store that the workers would have had.\<close>

theorem inline_submit_is_ingest:
  assumes "worker_threads (oc_runtime (ob_config ob)) = 0" "ob_state ob = RS_Running"
    and "\<not> of_nat (length payload) > max_payload_bytes (oc_ingest (ob_config ob))"
  shows "case submit_document lib payload ob of (status, t, ob') \<Rightarrow>
     status_ok status \<and> t = ob_next_ticket ob \<and> ob_next_ticket ob' = t + 1
     \<and> ob_store ob' = ingested lib (oc_ingest (ob_config ob)) (ob_store ob) payload
     \<and> ob_applied_documents ob' + ob_decode_failures ob' = Suc (ob_applied_documents ob + ob_decode_failures ob)"
proof -
  obtain s out where d: "decode_document payload (oc_ingest (ob_config ob)) lib = (s, out)" by force
  obtain s1 st1 where t: "apply_tables (do_metadata out) (ob_store ob) = (s1, st1)" by force
  obtain s2 b st2 where i: "ingest_batch (do_samples out) (\<lambda>_. False) st1 = (s2, b, st2)" by (metis prod_cases3)
  show ?thesis
    using assms
    by (cases "status_ok s"; cases "status_ok s1")
      (simp_all add: submit_document_def decode_only_def new_document_def d t i apply_decoded_def ingested_def
        ingest_document_def empty_report_def Let_def)
qed

text \<open>Stopping discards what was not applied and says how much. A stopped runtime has an empty queue and
  no workers, counts every pending document as dropped, and refuses submissions until it is started
  again; the store is not changed.\<close>

theorem stop_discards_pending:
  assumes "ob_state ob = RS_Running" "list_all (\<lambda>e. \<not> pd_applied (snd e)) (ob_pending ob)"
    and "stop_observatory io ob = (status, ob')"
  shows "ob_state ob' = RS_Stopped \<and> drained ob' \<and> ob_workers ob' = 0 \<and> ob_store ob' = ob_store ob
    \<and> ob_dropped_documents ob' = ob_dropped_documents ob + length (ob_pending ob)
    \<and> \<not> status_ok (fst (submit_document lib payload ob'))"
proof -
  have "filter (\<lambda>e. \<not> pd_applied (snd e)) (ob_pending ob) = ob_pending ob"
    using assms(2) by (simp add: filter_id_conv list_all_iff)
  then have "ob_state ob' = RS_Stopped \<and> drained ob' \<and> ob_workers ob' = 0 \<and> ob_store ob' = ob_store ob
      \<and> ob_dropped_documents ob' = ob_dropped_documents ob + length (ob_pending ob)"
    using assms(1,3)
    by (auto simp: stop_observatory_def finish_stop_def request_stop_def clear_queue_def drained_def persist_now_def
        Let_def split: if_splits prod.splits option.splits)
  then show ?thesis by (simp add: submit_document_def not_running_def)
qed

section \<open>Witnesses\<close>

definition demo_config :: "nat \<Rightarrow> observatory_config" where
  "demo_config threads =
     \<lparr>oc_policy = default_pressure_policy, oc_ingest = default_ingest_limits, oc_history = default_history_limits,
      oc_query = default_query_limits, oc_persistence = default_persistence_limits,
      oc_runtime = default_runtime_limits\<lparr>worker_threads := threads\<rparr>,
      oc_transport = default_transport_limits, oc_persistence_directory = None,
      oc_recover_on_start = True, oc_persist_on_stop = True\<rparr>"

definition demo_observatory :: "nat \<Rightarrow> observatory" where
  "demo_observatory threads =
     (case create_observatory (demo_config threads) 600 sample_clock \<lparr>dk_exists = False, dk_entries = [], dk_passed = []\<rparr> of
        Inr ob \<Rightarrow> ob)"

lemma demo_created:
  assumes "threads \<le> 64"
  shows "\<exists>ob. create_observatory (demo_config threads) 600 sample_clock \<lparr>dk_exists = False, dk_entries = [], dk_passed = []\<rparr> = Inr ob
    \<and> demo_observatory threads = ob \<and> ob_config ob = demo_config threads \<and> ob_state ob = RS_Created
    \<and> ob_persistence ob = None \<and> ob_decode_failures ob = 0"
proof -
  have "status_ok (validate_runtime_limits (default_runtime_limits\<lparr>worker_threads := threads\<rparr>))"
    using assms by (simp add: validate_runtime_limits_def default_runtime_limits_def require_positive_size_def require_le_def)
  then have "status_ok (config_check (demo_config threads))"
    by (simp add: config_check_def demo_config_def default_limits_valid default_policy_valid)
  then show ?thesis
    by (simp add: create_observatory_def demo_observatory_def) (simp add: demo_config_def)
qed

lemma demo_started:
  assumes "threads \<le> 64"
  obtains ob where "start_observatory no_faults (demo_observatory threads) = Some (success, ob)"
    "ob_config ob = demo_config threads" "ob_state ob = RS_Running" "ob_pending ob = []" "ob_next_ticket ob = 1"
proof -
  from demo_created [OF assms] have "ob_config (demo_observatory threads) = demo_config threads"
      "ob_state (demo_observatory threads) = RS_Created" "ob_persistence (demo_observatory threads) = None" by auto
  then show thesis
    using that by (simp add: start_observatory_def open_for_start_def clear_queue_def start_workers_def Let_def)
qed

lemma demo_run:
  assumes "ob_config ob = demo_config 2" "ob_state ob = RS_Running" "ob_pending ob = []"
  shows "\<exists>ob'. runtime_run lib ob [Submit ''{}''] ob'"
proof -
  obtain st t ob' where sub: "submit_document lib ''{}'' ob = (st, t, ob')" "status_ok st"
    using assms by (auto simp: submit_document_def demo_config_def default_ingest_limits_def default_runtime_limits_def Let_def)
  then have "runtime_step lib ob (Submit ''{}'') ob'" by (rule step_submit)
  then show ?thesis using runtime_run.run_step [OF runtime_run.run_nil] by fastforce
qed

theorem workers_refine_sequential_ingest_witness:
  "\<exists>ob ob'. start_observatory no_faults (demo_observatory 2) = Some (success, ob)
     \<and> runtime_run no_doubles ob [Submit ''{}''] ob' \<and> ob_store ob' = ob_store ob \<and> length (ob_pending ob') = 1"
proof -
  obtain ob where ob: "start_observatory no_faults (demo_observatory 2) = Some (success, ob)" "ob_config ob = demo_config 2"
      "ob_state ob = RS_Running" "ob_pending ob = []" using demo_started [of 2] by auto
  obtain ob' where run: "runtime_run no_doubles ob [Submit ''{}''] ob'" using demo_run [OF ob(2-4)] by blast
  have "worker_threads (oc_runtime (ob_config ob)) > 0" by (simp add: ob(2) demo_config_def)
  then show ?thesis
    using workers_refine_sequential_ingest [OF ob(1) _ _ run] ob(1) run by auto
qed

theorem workers_drain_queue_witness:
  "\<exists>ob ob' bs ob''. start_observatory no_faults (demo_observatory 2) = Some (success, ob)
     \<and> runtime_run no_doubles ob [Submit ''{}''] ob' \<and> runtime_run no_doubles ob' bs ob'' \<and> drained ob''
     \<and> ob_store ob'' = ingested no_doubles (oc_ingest (ob_config ob)) (ob_store ob) ''{}''"
proof -
  obtain ob where ob: "start_observatory no_faults (demo_observatory 2) = Some (success, ob)" "ob_config ob = demo_config 2"
      "ob_state ob = RS_Running" "ob_pending ob = []" using demo_started [of 2] by auto
  obtain ob' where run: "runtime_run no_doubles ob [Submit ''{}''] ob'" using demo_run [OF ob(2-4)] by blast
  have "worker_threads (oc_runtime (ob_config ob)) > 0" by (simp add: ob(2) demo_config_def)
  then obtain bs ob'' where "runtime_run no_doubles ob' bs ob''" "drained ob''"
      "ob_store ob'' = ingested no_doubles (oc_ingest (ob_config ob)) (ob_store ob) ''{}''"
    using workers_drain_queue [OF ob(1) _ _ run] by auto
  then show ?thesis using ob(1) run by blast
qed

theorem inline_submit_is_ingest_witness:
  "\<exists>ob. start_observatory no_faults (demo_observatory 0) = Some (success, ob)
     \<and> (case submit_document no_doubles ''{}'' ob of (status, t, ob') \<Rightarrow>
          status_ok status \<and> t = 1 \<and> ob_store ob' = ingested no_doubles (oc_ingest (ob_config ob)) (ob_store ob) ''{}'')"
proof -
  obtain ob where ob: "start_observatory no_faults (demo_observatory 0) = Some (success, ob)" "ob_config ob = demo_config 0"
      "ob_state ob = RS_Running" "ob_next_ticket ob = 1" using demo_started [of 0] by auto
  then show ?thesis
    using inline_submit_is_ingest [of ob "''{}''" no_doubles]
    by (auto simp: demo_config_def default_ingest_limits_def)
qed

theorem stop_discards_pending_witness:
  "\<exists>ob ob'. start_observatory no_faults (demo_observatory 2) = Some (success, ob)
     \<and> stop_observatory no_faults ob = (success, ob') \<and> ob_state ob' = RS_Stopped
     \<and> \<not> status_ok (fst (submit_document no_doubles ''{}'' ob'))"
proof -
  obtain ob where ob: "start_observatory no_faults (demo_observatory 2) = Some (success, ob)" "ob_config ob = demo_config 2"
      "ob_state ob = RS_Running" "ob_pending ob = []" using demo_started [of 2] by auto
  obtain st ob' where stop: "stop_observatory no_faults ob = (st, ob')" by force
  have "ob_persistence ob = None"
    using ob(1) demo_created [of 2]
    by (auto simp: start_observatory_def open_for_start_def clear_queue_def start_workers_def Let_def)
  then have "st = success"
    using stop ob(3) by (auto simp: stop_observatory_def finish_stop_def request_stop_def clear_queue_def Let_def)
  then show ?thesis
    using stop_discards_pending [OF ob(3) _ stop, of no_doubles "''{}''"] ob(1,4) stop by auto
qed

end
