(* ===== verification/Socket.thy ===== *)
theory Socket
  imports Prelude
begin

text \<open>
  The byte stream of a connection (\<^verbatim>\<open>src/transport/Socket.cpp\<close>): the loops that the program runs
  around \<^verbatim>\<open>::send\<close> and \<^verbatim>\<open>::recv\<close>. What the operating system answers is external: a socket carries
  the answers it will give to the calls made on it, so a short write, a failure and the end of the
  stream are all choices of these answers. A call beyond the answers listed for \<^verbatim>\<open>::send\<close> takes
  everything offered, one beyond those for \<^verbatim>\<open>::recv\<close> finds the end of the stream. The
  creation of sockets and the life of their handles are in \<open>Socket_Handles\<close>.
\<close>

datatype send_answer = Send_Failed | Send_Taken nat

datatype recv_answer = Recv_Failed | Recv_Bytes "u8 list"

record socket =
  so_open :: bool
  so_sends :: "send_answer list"
  so_recvs :: "recv_answer list"
  so_sent :: "u8 list"
  so_last_error :: string

definition new_socket :: "send_answer list \<Rightarrow> recv_answer list \<Rightarrow> string \<Rightarrow> socket" where
  "new_socket sends recvs error =
     \<lparr>so_open = True, so_sends = sends, so_recvs = recvs, so_sent = [], so_last_error = error\<rparr>"

definition close_socket :: "socket \<Rightarrow> socket" where
  "close_socket s = s\<lparr>so_open := False\<rparr>"

definition kMaxTransfer :: nat where "kMaxTransfer = 2 ^ 20"

text \<open>\<^verbatim>\<open>::send\<close>: the number of bytes that were taken, or nothing.\<close>

definition os_send :: "u8 list \<Rightarrow> socket \<Rightarrow> nat option \<times> socket" where
  "os_send chunk s =
     (case so_sends s of
        [] \<Rightarrow> (Some (length chunk), s\<lparr>so_sent := so_sent s @ chunk\<rparr>)
      | Send_Failed # answers \<Rightarrow> (None, s\<lparr>so_sends := answers\<rparr>)
      | Send_Taken n # answers \<Rightarrow>
          (let taken = min n (length chunk)
           in (Some taken, s\<lparr>so_sends := answers, so_sent := so_sent s @ take taken chunk\<rparr>)))"

definition os_recv :: "nat \<Rightarrow> socket \<Rightarrow> u8 list option \<times> socket" where
  "os_recv capacity s =
     (case so_recvs s of
        [] \<Rightarrow> (Some [], s)
      | Recv_Failed # answers \<Rightarrow> (None, s\<lparr>so_recvs := answers\<rparr>)
      | Recv_Bytes bytes # answers \<Rightarrow>
          (if length bytes \<le> capacity then (Some bytes, s\<lparr>so_recvs := answers\<rparr>)
           else (Some (take capacity bytes), s\<lparr>so_recvs := Recv_Bytes (drop capacity bytes) # answers\<rparr>)))"

lemma os_send_taken: "os_send chunk s = (Some n, s') \<Longrightarrow> n \<le> length chunk"
  by (auto simp: os_send_def Let_def split: list.splits send_answer.splits)

function send_loop :: "u8 list \<Rightarrow> socket \<Rightarrow> status \<times> socket" where
  "send_loop bytes s =
     (if bytes = [] then (success, s)
      else case os_send (take kMaxTransfer bytes) s of
        (None, s') \<Rightarrow> (failure IoError (''the frame could not be sent: '' @ so_last_error s), s')
      | (Some sent, s') \<Rightarrow>
          if sent = 0 then (failure IoError (''the frame could not be sent: '' @ so_last_error s), s')
          else send_loop (drop sent bytes) s')"
  by pat_completeness auto
termination
  by (relation "measure (\<lambda>(bytes, s). length bytes)") auto

declare send_loop.simps [simp del]

definition send_all :: "u8 list \<Rightarrow> socket \<Rightarrow> status \<times> socket" where
  "send_all bytes s =
     (if \<not> so_open s then (failure NotRunning ''cannot send on a closed socket'', s)
      else send_loop bytes s)"

text \<open>The bytes that were received: none at the end of the stream.\<close>

definition receive :: "nat \<Rightarrow> socket \<Rightarrow> status \<times> u8 list \<times> socket" where
  "receive capacity s =
     (if \<not> so_open s then (failure NotRunning ''cannot receive on a closed socket'', [], s)
      else if capacity = 0 then (success, [], s)
      else case os_recv (min capacity kMaxTransfer) s of
        (None, s') \<Rightarrow> (failure IoError (''the connection failed while receiving: '' @ so_last_error s), [], s')
      | (Some bytes, s') \<Rightarrow> (success, bytes, s'))"

section \<open>Streams\<close>

text \<open>The bytes that will still be received, when nothing fails.\<close>

fun incoming :: "recv_answer list \<Rightarrow> u8 list" where
  "incoming [] = []"
| "incoming (Recv_Failed # answers) = []"
| "incoming (Recv_Bytes bytes # answers) = (if bytes = [] then [] else bytes @ incoming answers)"

text \<open>A stream that is delivered in some pieces and then closed.\<close>

definition healthy :: "socket \<Rightarrow> bool" where
  "healthy s \<longleftrightarrow> so_open s \<and> Recv_Failed \<notin> set (so_recvs s)"

definition recv_load :: "socket \<Rightarrow> nat" where
  "recv_load s =
     (\<Sum>a\<leftarrow>so_recvs s. case a of Recv_Failed \<Rightarrow> 1 | Recv_Bytes bytes \<Rightarrow> Suc (length bytes))"

lemma receive_shrinks:
  "receive capacity s = (status, bytes, s') \<Longrightarrow> bytes \<noteq> [] \<Longrightarrow> recv_load s' < recv_load s"
  by (auto simp: receive_def os_recv_def recv_load_def split: if_splits list.splits recv_answer.splits)

lemma receive_bounded: "receive capacity s = (status, bytes, s') \<Longrightarrow> length bytes \<le> capacity"
  by (auto simp: receive_def os_recv_def split: if_splits list.splits recv_answer.splits)

lemma receive_keeps: "receive capacity s = (status, bytes, s') \<Longrightarrow> so_sent s' = so_sent s \<and> so_sends s' = so_sends s
    \<and> so_open s' = so_open s \<and> so_last_error s' = so_last_error s"
  by (auto simp: receive_def os_recv_def split: if_splits list.splits recv_answer.splits)

lemma receive_healthy:
  assumes "healthy s" "capacity > 0" "receive capacity s = (status, bytes, s')"
  shows "status = success" "healthy s'" "bytes = [] \<longleftrightarrow> incoming (so_recvs s) = []"
    "bytes \<noteq> [] \<Longrightarrow> incoming (so_recvs s) = bytes @ incoming (so_recvs s')"
  using assms
  by (auto simp: receive_def os_recv_def healthy_def kMaxTransfer_def split: if_splits list.splits recv_answer.splits)

lemma send_loop_sent:
  "\<exists>s'. send_loop bytes s = (success, s') \<and> so_sent s' = so_sent s @ bytes \<or>
     (\<exists>status n. send_loop bytes s = (status, s') \<and> \<not> status_ok status \<and> n < length bytes
        \<and> so_sent s' = so_sent s @ take n bytes)"
proof (induction bytes s rule: send_loop.induct)
  case (1 bytes s)
  show ?case
  proof (cases "bytes = []")
    case True
    then show ?thesis by (simp add: send_loop.simps)
  next
    case False
    obtain r s1 where r: "os_send (take kMaxTransfer bytes) s = (r, s1)" by fastforce
    show ?thesis
    proof (cases "r = None \<or> r = Some 0")
      case True
      then have "so_sent s1 = so_sent s @ take 0 bytes"
        using r by (auto simp: os_send_def Let_def min_def kMaxTransfer_def False
            split: list.splits send_answer.splits if_splits)
      then show ?thesis
        using True r False by (auto simp: send_loop.simps [of bytes s] intro!: exI [of _ s1])
    next
      case False
      then obtain n where n: "r = Some n" "n \<noteq> 0" by auto
      then have sent: "so_sent s1 = so_sent s @ take n bytes" "n \<le> length bytes"
        using r os_send_taken [OF r [unfolded n(1)]]
        by (auto simp: os_send_def Let_def min_def split: list.splits send_answer.splits if_splits)
      have loop: "send_loop bytes s = send_loop (drop n bytes) s1"
        using \<open>bytes \<noteq> []\<close> n r by (simp add: send_loop.simps [of bytes s])
      from "1.IH" [OF \<open>bytes \<noteq> []\<close> r [symmetric] n(1) n(2)] obtain s' where
        "send_loop (drop n bytes) s1 = (success, s') \<and> so_sent s' = so_sent s1 @ drop n bytes \<or>
         (\<exists>status m. send_loop (drop n bytes) s1 = (status, s') \<and> \<not> status_ok status \<and> m < length (drop n bytes)
           \<and> so_sent s' = so_sent s1 @ take m (drop n bytes))" by blast
      then show ?thesis
      proof
        assume "send_loop (drop n bytes) s1 = (success, s') \<and> so_sent s' = so_sent s1 @ drop n bytes"
        then show ?thesis by (auto simp: loop sent)
      next
        assume "\<exists>status m. send_loop (drop n bytes) s1 = (status, s') \<and> \<not> status_ok status \<and> m < length (drop n bytes)
           \<and> so_sent s' = so_sent s1 @ take m (drop n bytes)"
        then obtain status m where m: "send_loop (drop n bytes) s1 = (status, s')" "\<not> status_ok status"
          "m < length (drop n bytes)" "so_sent s' = so_sent s1 @ take m (drop n bytes)" by blast
        have "send_loop bytes s = (status, s') \<and> \<not> status_ok status \<and> n + m < length bytes
            \<and> so_sent s' = so_sent s @ take (n + m) bytes"
          using m sent by (simp add: loop take_add)
        then show ?thesis by blast
      qed
    qed
  qed
qed

lemma send_loop_keeps:
  "send_loop bytes s = (status, s') \<Longrightarrow> so_recvs s' = so_recvs s \<and> so_open s' = so_open s"
proof (induction bytes s rule: send_loop.induct)
  case (1 bytes s)
  obtain r s1 where r: "os_send (take kMaxTransfer bytes) s = (r, s1)" by fastforce
  then have "so_recvs s1 = so_recvs s \<and> so_open s1 = so_open s"
    by (auto simp: os_send_def Let_def split: list.splits send_answer.splits)
  then show ?case
    using 1 r by (auto simp: send_loop.simps [of bytes s] split: if_splits option.splits)
qed

lemma send_all_keeps:
  "send_all bytes s = (status, s') \<Longrightarrow> so_recvs s' = so_recvs s \<and> so_open s' = so_open s"
  by (auto simp: send_all_def dest: send_loop_keeps split: if_splits)

text \<open>A peer that takes something at every call.\<close>

definition sends_well :: "socket \<Rightarrow> bool" where
  "sends_well s \<longleftrightarrow> so_open s \<and> Send_Failed \<notin> set (so_sends s) \<and> Send_Taken 0 \<notin> set (so_sends s)"

lemma send_loop_delivers:
  "sends_well s \<Longrightarrow> send_loop bytes s = (status, s') \<Longrightarrow> status = success \<and> sends_well s'"
proof (induction bytes s rule: send_loop.induct)
  case (1 bytes s)
  obtain r s1 where r: "os_send (take kMaxTransfer bytes) s = (r, s1)" by fastforce
  then have step: "bytes \<noteq> [] \<Longrightarrow> sends_well s1 \<and> (\<exists>n. r = Some n \<and> n \<noteq> 0)"
    using 1(2) by (auto simp: os_send_def sends_well_def Let_def min_def kMaxTransfer_def
        split: list.splits send_answer.splits)
  show ?case
    using 1 r step by (cases "bytes = []") (auto simp: send_loop.simps [of bytes s] send_loop.simps [of "[]" s])
qed

lemma send_all_delivers:
  assumes "sends_well s" "send_all bytes s = (status, s')"
  shows "status = success" "sends_well s'" "so_sent s' = so_sent s @ bytes"
proof -
  have loop: "send_loop bytes s = (status, s')" using assms by (simp add: send_all_def sends_well_def)
  then show "status = success" "sends_well s'" using send_loop_delivers [OF assms(1)] by auto
  then show "so_sent s' = so_sent s @ bytes" using send_loop_sent [of bytes s] loop by auto
qed

end
