(* ===== verification/Socket_Handles.thy ===== *)
theory Socket_Handles
  imports Socket "HOL-Library.Multiset"
begin

text \<open>
  The life of socket handles (\<^verbatim>\<open>src/transport/Socket.cpp\<close>, the POSIX branch): creating a listening or a
  connected socket over the candidates of name resolution, accepting, adopting, moving and closing. The
  answers of the operating system are arguments; the state is the list of descriptors that are open.
\<close>

section \<open>Handles and descriptors\<close>

type_synonym handle = u64
type_synonym native = u32

definition kInvalidHandle :: handle where "kInvalidHandle = - 1"

definition kNativeInvalid :: native where "kNativeInvalid = - 1"

definition to_native :: "handle \<Rightarrow> native" where
  "to_native h = ucast h"

text \<open>The conversion from \<^verbatim>\<open>int\<close> to \<^verbatim>\<open>uintptr_t\<close> extends the sign.\<close>

definition from_native :: "native \<Rightarrow> handle" where
  "from_native n = scast n"

definition socket_valid :: "native \<Rightarrow> bool" where
  "socket_valid n \<longleftrightarrow> n \<noteq> kNativeInvalid"

definition valid :: "handle \<Rightarrow> bool" where
  "valid h \<longleftrightarrow> h \<noteq> kInvalidHandle"

definition close_native :: "native \<Rightarrow> native list \<Rightarrow> native list" where
  "close_native n fds = (if \<not> socket_valid n then fds else remove1 n fds)"

definition handle_close :: "handle \<Rightarrow> native list \<Rightarrow> handle \<times> native list" where
  "handle_close h fds = (if \<not> valid h then (h, fds) else (kInvalidHandle, close_native (to_native h) fds))"

section \<open>Creation\<close>

text \<open>What the system answers for a candidate address: the descriptor that \<^verbatim>\<open>::socket\<close> returns, and whether
  the calls that follow (\<^verbatim>\<open>::bind\<close> and \<^verbatim>\<open>::listen\<close>, or \<^verbatim>\<open>::connect\<close>) succeed.\<close>

datatype candidate = Candidate (cand_native: native) (cand_ready: bool)

record net_answers =
  na_resolved :: "candidate list option"
  na_error :: string

fun try_candidates :: "candidate list \<Rightarrow> native list \<Rightarrow> native \<times> native list" where
  "try_candidates [] fds = (kNativeInvalid, fds)"
| "try_candidates (Candidate n ready # cs) fds =
     (if \<not> socket_valid n then try_candidates cs fds
      else if ready then (n, n # fds)
      else try_candidates cs (close_native n (n # fds)))"

definition resolved_candidates :: "net_answers \<Rightarrow> candidate list option" where
  "resolved_candidates answers = (case na_resolved answers of Some (c # cs) \<Rightarrow> Some (c # cs) | _ \<Rightarrow> None)"

definition socket_listen_on :: "net_answers \<Rightarrow> string \<Rightarrow> native list \<Rightarrow> handle result \<times> native list" where
  "socket_listen_on answers host fds =
     (case resolved_candidates answers of
        None \<Rightarrow> (Inl (failure IoError (''the listen address could not be resolved: '' @ host)), fds)
      | Some candidates \<Rightarrow>
          case try_candidates candidates fds of (n, fds') \<Rightarrow>
            if \<not> socket_valid n
            then (Inl (failure IoError (''the listening socket could not be created: '' @ na_error answers)), fds')
            else (Inr (from_native n), fds'))"

definition socket_connect_to :: "net_answers \<Rightarrow> string \<Rightarrow> u16 \<Rightarrow> native list \<Rightarrow> handle result \<times> native list" where
  "socket_connect_to answers host port fds =
     (case resolved_candidates answers of
        None \<Rightarrow> (Inl (failure IoError (''the remote address could not be resolved: '' @ host)), fds)
      | Some candidates \<Rightarrow>
          case try_candidates candidates fds of (n, fds') \<Rightarrow>
            if \<not> socket_valid n
            then (Inl (failure IoError (''the connection could not be established: '' @ host @ '':'' @ dec_nat (unat port) @
              '' ('' @ na_error answers @ '')'')), fds')
            else (Inr (from_native n), fds'))"

text \<open>What \<^verbatim>\<open>::accept\<close> returns, and the address of the peer when it is an IPv4 one.\<close>

record accept_answer =
  aa_native :: native
  aa_peer :: "(string \<times> u16) option"
  aa_error :: string

definition peer_text :: "accept_answer \<Rightarrow> string" where
  "peer_text answer =
     (case aa_peer answer of
        Some (address, port) \<Rightarrow> address @ '':'' @ dec_nat (unat port)
      | None \<Rightarrow> ''unknown'')"

definition socket_accept :: "accept_answer \<Rightarrow> handle \<Rightarrow> native list \<Rightarrow> (handle \<times> string) result \<times> native list" where
  "socket_accept answer h fds =
     (if \<not> valid h then (Inl (failure NotRunning ''cannot accept on a socket that is not listening''), fds)
      else if \<not> socket_valid (aa_native answer)
      then (Inl (failure IoError (''the connection could not be accepted: '' @ aa_error answer)), fds)
      else (Inr (from_native (aa_native answer), peer_text answer), aa_native answer # fds))"

text \<open>The port that \<^verbatim>\<open>::getsockname\<close> reports, if it succeeds.\<close>

definition local_port :: "u16 option \<Rightarrow> handle \<Rightarrow> u16" where
  "local_port reported_port h = (if \<not> valid h then 0 else case reported_port of None \<Rightarrow> 0 | Some p \<Rightarrow> p)"

text \<open>The flags that \<^verbatim>\<open>::fcntl\<close> reads, if it succeeds, and whether writing them succeeds.\<close>

definition make_inheritable :: "nat option \<Rightarrow> bool \<Rightarrow> handle \<Rightarrow> status" where
  "make_inheritable flags written_back h =
     (if \<not> valid h then failure NotRunning ''cannot mark a closed socket as inheritable''
      else if flags = None \<or> \<not> written_back then failure IoError ''the socket could not be marked inheritable''
      else success)"

section \<open>Objects\<close>

text \<open>The socket objects of a program and the descriptors that are open. Assigning a temporary to an
  object closes what the object held and leaves the temporary empty.\<close>

type_synonym sockets = "handle list \<times> native list"

definition assign_temporary :: "nat \<Rightarrow> handle \<Rightarrow> sockets \<Rightarrow> sockets" where
  "assign_temporary i h s = (case s of (vars, fds) \<Rightarrow> (vars[i := h], snd (handle_close (vars ! i) fds)))"

definition move_assign :: "nat \<Rightarrow> nat \<Rightarrow> sockets \<Rightarrow> sockets" where
  "move_assign i j s =
     (if i = j then s
      else case s of (vars, fds) \<Rightarrow> (vars[i := vars ! j, j := kInvalidHandle], snd (handle_close (vars ! i) fds)))"

definition close_object :: "nat \<Rightarrow> sockets \<Rightarrow> sockets" where
  "close_object i s =
     (case s of (vars, fds) \<Rightarrow> case handle_close (vars ! i) fds of (h, fds') \<Rightarrow> (vars[i := h], fds'))"

datatype socket_op =
    Op_Listen nat net_answers string
  | Op_Connect nat net_answers string u16
  | Op_Accept nat nat accept_answer
  | Op_Adopt nat native
  | Op_Move nat nat
  | Op_Close nat

definition store_created :: "nat \<Rightarrow> handle list \<Rightarrow> handle result \<times> native list \<Rightarrow> sockets" where
  "store_created i vars r = (case r of (Inl _, fds) \<Rightarrow> (vars, fds) | (Inr h, fds) \<Rightarrow> assign_temporary i h (vars, fds))"

text \<open>An adopted descriptor was opened by another process and is open from then on.\<close>

fun socket_step :: "socket_op \<Rightarrow> sockets \<Rightarrow> sockets" where
  "socket_step (Op_Listen i answers host) (vars, fds) = store_created i vars (socket_listen_on answers host fds)"
| "socket_step (Op_Connect i answers host port) (vars, fds) = store_created i vars (socket_connect_to answers host port fds)"
| "socket_step (Op_Accept i j answer) (vars, fds) =
     (case socket_accept answer (vars ! j) fds of
        (Inl _, fds') \<Rightarrow> (vars, fds')
      | (Inr (h, peer), fds') \<Rightarrow> assign_temporary i h (vars, fds'))"
| "socket_step (Op_Adopt i n) (vars, fds) = assign_temporary i (from_native n) (vars, n # fds)"
| "socket_step (Op_Move i j) s = move_assign i j s"
| "socket_step (Op_Close i) s = close_object i s"

text \<open>The operating system never returns a descriptor that is already open, and the program names objects
  that it has.\<close>

fun op_possible :: "socket_op \<Rightarrow> sockets \<Rightarrow> bool" where
  "op_possible (Op_Listen i answers host) (vars, fds) \<longleftrightarrow>
     i < length vars \<and> (case na_resolved answers of None \<Rightarrow> True | Some cs \<Rightarrow> list_all (\<lambda>c. cand_native c \<notin> set fds) cs)"
| "op_possible (Op_Connect i answers host port) (vars, fds) \<longleftrightarrow>
     i < length vars \<and> (case na_resolved answers of None \<Rightarrow> True | Some cs \<Rightarrow> list_all (\<lambda>c. cand_native c \<notin> set fds) cs)"
| "op_possible (Op_Accept i j answer) (vars, fds) \<longleftrightarrow> i < length vars \<and> j < length vars \<and> aa_native answer \<notin> set fds"
| "op_possible (Op_Adopt i n) (vars, fds) \<longleftrightarrow> i < length vars \<and> n \<notin> set fds \<and> socket_valid n"
| "op_possible (Op_Move i j) (vars, fds) \<longleftrightarrow> i < length vars \<and> j < length vars"
| "op_possible (Op_Close i) (vars, fds) \<longleftrightarrow> i < length vars"

fun socket_run :: "socket_op list \<Rightarrow> sockets \<Rightarrow> sockets option" where
  "socket_run [] s = Some s"
| "socket_run (a # as) s = (if op_possible a s then socket_run as (socket_step a s) else None)"

section \<open>Ownership\<close>

lemma to_from_native [simp]: "to_native (from_native n) = n"
  by (rule bit_word_eqI) (simp add: to_native_def from_native_def bit_simps min_absorb2)

lemma from_native_valid [simp]: "valid (from_native n) \<longleftrightarrow> socket_valid n"
proof -
  have "from_native n = kInvalidHandle \<longleftrightarrow> n = kNativeInvalid"
    by (metis kInvalidHandle_def kNativeInvalid_def from_native_def signed_minus_1 to_from_native)
  then show ?thesis by (simp add: valid_def socket_valid_def)
qed

text \<open>The descriptors that an object, and that a list of objects, answers for.\<close>

definition own :: "handle \<Rightarrow> native multiset" where
  "own h = (if valid h then {#to_native h#} else {#})"

definition owned :: "handle list \<Rightarrow> native multiset" where
  "owned vars = sum_list (map own vars)"

definition handles_ok :: "sockets \<Rightarrow> bool" where
  "handles_ok s \<longleftrightarrow>
     (case s of (vars, fds) \<Rightarrow> mset fds = owned vars \<and> distinct fds
       \<and> list_all (\<lambda>h. valid h \<longrightarrow> socket_valid (to_native h)) vars)"

lemma own_invalid [simp]: "own kInvalidHandle = {#}"
  by (simp add: own_def valid_def)

lemma owned_update: "i < length vars \<Longrightarrow> owned (vars[i := h]) + own (vars ! i) = owned vars + own h"
  by (induction vars arbitrary: i) (auto simp: owned_def ac_simps split: nat.split)

lemma mset_handle_close:
  "(valid h \<Longrightarrow> socket_valid (to_native h)) \<Longrightarrow> mset (snd (handle_close h fds)) = mset fds - own h"
  by (simp add: handle_close_def close_native_def own_def)

lemma distinct_handle_close: "distinct fds \<Longrightarrow> distinct (snd (handle_close h fds))"
  by (simp add: handle_close_def close_native_def)

lemma valid_update:
  "\<lbrakk>list_all P vars; P h\<rbrakk> \<Longrightarrow> list_all P (vars[i := h])"
  by (auto simp: list_all_iff dest!: set_update_subset_insert [THEN subsetD])

lemma handles_ok_nth: "handles_ok (vars, fds) \<Longrightarrow> i < length vars \<Longrightarrow> valid (vars ! i) \<Longrightarrow> socket_valid (to_native (vars ! i))"
  by (auto simp: handles_ok_def list_all_length)

text \<open>An object takes over a descriptor that nobody has.\<close>

lemma assign_ok:
  assumes "handles_ok (vars, fds)" "i < length vars" "socket_valid n" "n \<notin> set fds"
  shows "handles_ok (assign_temporary i (from_native n) (vars, n # fds))"
proof -
  have "mset (snd (handle_close (vars ! i) (n # fds))) = add_mset n (mset fds) - own (vars ! i)"
    using mset_handle_close [of "vars ! i" "n # fds"] handles_ok_nth [OF assms(1,2)] by simp
  moreover have "owned (vars[i := from_native n]) + own (vars ! i) = add_mset n (mset fds)"
    using owned_update [OF assms(2), of "from_native n"] assms(1,3) by (simp add: handles_ok_def own_def)
  ultimately show ?thesis
    using assms(1,3,4)
    by (auto simp: assign_temporary_def handles_ok_def intro!: valid_update distinct_handle_close) (metis add_diff_cancel_right')
qed

lemma close_ok:
  assumes "handles_ok (vars, fds)" "i < length vars"
  shows "handles_ok (vars[i := kInvalidHandle], snd (handle_close (vars ! i) fds))"
proof -
  have "mset (snd (handle_close (vars ! i) fds)) = mset fds - own (vars ! i)"
    using mset_handle_close [of "vars ! i" fds] handles_ok_nth [OF assms] by simp
  moreover have "owned (vars[i := kInvalidHandle]) + own (vars ! i) = mset fds"
    using owned_update [OF assms(2), of kInvalidHandle] assms(1) by (simp add: handles_ok_def)
  ultimately show ?thesis
    using assms(1)
    by (auto simp: handles_ok_def valid_def intro!: valid_update distinct_handle_close) (metis add_diff_cancel_right')
qed

lemma close_object_ok:
  assumes "handles_ok (vars, fds)" "i < length vars"
  shows "handles_ok (close_object i (vars, fds))"
proof (cases "valid (vars ! i)")
  case True
  then show ?thesis using close_ok [OF assms] by (simp add: close_object_def handle_close_def)
next
  case False
  then show ?thesis using assms(1) by (simp add: close_object_def handle_close_def)
qed

lemma move_ok:
  assumes "handles_ok (vars, fds)" "i < length vars" "j < length vars"
  shows "handles_ok (move_assign i j (vars, fds))"
proof (cases "i = j")
  case False
  let ?vars = "vars[i := kInvalidHandle]"
  have moved: "owned (?vars[i := vars ! j]) = owned ?vars + own (vars ! j)"
    using owned_update [of i ?vars "vars ! j"] assms(2) by simp
  have "owned (?vars[i := vars ! j, j := kInvalidHandle]) + own (vars ! j) = owned ?vars + own (vars ! j)"
    using owned_update [of j "?vars[i := vars ! j]" kInvalidHandle] False assms(2,3) moved by simp
  then have "owned (vars[i := vars ! j, j := kInvalidHandle]) = owned ?vars" by simp
  then show ?thesis
    using close_ok [OF assms(1,2)] False assms
    by (auto simp: move_assign_def handles_ok_def valid_def list_all_length nth_list_update)
qed (use assms(1) in \<open>simp add: move_assign_def\<close>)

lemma try_candidates_ok:
  "\<lbrakk>list_all (\<lambda>c. cand_native c \<notin> set fds) cs; try_candidates cs fds = (n, fds')\<rbrakk> \<Longrightarrow>
   if socket_valid n then n \<notin> set fds \<and> fds' = n # fds else fds' = fds"
  by (induction cs fds rule: try_candidates.induct)
    (auto simp: close_native_def socket_valid_def split: if_splits)

lemma created_ok:
  assumes "handles_ok (vars, fds)" "i < length vars" "case r of (Inl _, fds') \<Rightarrow> fds' = fds | (Inr h, fds') \<Rightarrow> \<exists>n. socket_valid n \<and> h = from_native n \<and> n \<notin> set fds \<and> fds' = n # fds"
  shows "handles_ok (store_created i vars r)"
  using assms assign_ok [OF assms(1,2)] by (auto simp: store_created_def split: prod.splits sum.splits)

lemma creation_outcome:
  assumes "case na_resolved answers of None \<Rightarrow> True | Some cs \<Rightarrow> list_all (\<lambda>c. cand_native c \<notin> set fds) cs"
  shows "case socket_listen_on answers host fds of (Inl _, fds') \<Rightarrow> fds' = fds | (Inr h, fds') \<Rightarrow> \<exists>n. socket_valid n \<and> h = from_native n \<and> n \<notin> set fds \<and> fds' = n # fds"
    "case socket_connect_to answers host port fds of (Inl _, fds') \<Rightarrow> fds' = fds | (Inr h, fds') \<Rightarrow> \<exists>n. socket_valid n \<and> h = from_native n \<and> n \<notin> set fds \<and> fds' = n # fds"
  using assms
  by (auto simp: socket_listen_on_def socket_connect_to_def resolved_candidates_def
      dest!: try_candidates_ok [rotated] split: option.splits list.splits prod.splits if_splits)

lemma socket_step_ok:
  assumes "handles_ok s" "op_possible a s"
  shows "handles_ok (socket_step a s)"
proof -
  obtain vars fds where s: "s = (vars, fds)" by fastforce
  show ?thesis
  proof (cases a)
    case (Op_Listen i answers host)
    then show ?thesis using assms s created_ok creation_outcome(1) by simp
  next
    case (Op_Connect i answers host port)
    then show ?thesis using assms s created_ok creation_outcome(2) by simp
  next
    case (Op_Accept i j answer)
    then show ?thesis using assms s assign_ok [of vars fds i "aa_native answer"] by (auto simp: socket_accept_def)
  next
    case (Op_Adopt i n)
    then show ?thesis using assms s assign_ok [of vars fds i n] by simp
  next
    case (Op_Move i j)
    then show ?thesis using assms s move_ok by simp
  next
    case (Op_Close i)
    then show ?thesis using assms s close_object_ok by simp
  qed
qed

lemma socket_run_ok: "\<lbrakk>handles_ok s; socket_run as s = Some s'\<rbrakk> \<Longrightarrow> handles_ok s'"
proof (induction as arbitrary: s)
  case (Cons a as)
  then show ?case using socket_step_ok by (metis option.distinct(1) socket_run.simps(2))
qed simp

lemma owned_filter: "owned vars = mset (map to_native (filter valid vars))"
  by (induction vars) (simp_all add: owned_def own_def)

lemma owned_none [simp]: "owned (replicate n kInvalidHandle) = {#}"
  by (induction n) (simp_all add: owned_def)

lemma closing_all:
  "\<lbrakk>handles_ok (vars, fds); k \<le> length vars\<rbrakk> \<Longrightarrow>
   \<exists>fds'. fold close_object [0..<k] (vars, fds) = (replicate k kInvalidHandle @ drop k vars, fds')
     \<and> handles_ok (replicate k kInvalidHandle @ drop k vars, fds')"
proof (induction k)
  case (Suc k)
  then obtain fds' where fds': "fold close_object [0..<k] (vars, fds) = (replicate k kInvalidHandle @ drop k vars, fds')"
    "handles_ok (replicate k kInvalidHandle @ drop k vars, fds')" by auto
  let ?vars = "replicate k kInvalidHandle @ drop k vars"
  have "(?vars)[k := kInvalidHandle] = replicate (Suc k) kInvalidHandle @ drop (Suc k) vars"
    using Suc.prems(2) by (simp add: list_update_append Cons_nth_drop_Suc [symmetric] replicate_append_same)
  moreover have "close_object k (?vars, fds') = ((?vars)[k := kInvalidHandle], snd (handle_close (?vars ! k) fds'))"
    by (auto simp: close_object_def handle_close_def valid_def list_update_id split: prod.split)
  moreover have "handles_ok ((?vars)[k := kInvalidHandle], snd (handle_close (?vars ! k) fds'))"
    using close_ok [OF fds'(2), of k] Suc.prems(2) by simp
  ultimately show ?case using fds'(1) by simp
qed simp

section \<open>Properties\<close>

text \<open>C34: Sockets never leak and never share. In every program over socket objects, whatever the operating system
  answers (failed resolutions, refused candidates, failed accepts), the open descriptors are exactly
  those of the valid objects, each owned by one object; closing the objects closes them all.\<close>

theorem sockets_never_leak:
  assumes "socket_run as (replicate n kInvalidHandle, []) = Some (vars, fds)"
  shows "mset fds = mset (map to_native (filter valid vars)) \<and> distinct fds
    \<and> snd (fold close_object [0..<length vars] (vars, fds)) = []"
proof -
  have "handles_ok (replicate n kInvalidHandle, [])"
    by (simp add: handles_ok_def valid_def list_all_length)
  then have ok: "handles_ok (vars, fds)" using socket_run_ok assms by blast
  from closing_all [OF ok, of "length vars"] obtain fds' where
    "fold close_object [0..<length vars] (vars, fds) = (replicate (length vars) kInvalidHandle, fds')"
    "handles_ok (replicate (length vars) kInvalidHandle, fds')" by auto
  then have "fold close_object [0..<length vars] (vars, fds) = (replicate (length vars) kInvalidHandle, [])"
    by (simp add: handles_ok_def)
  then show ?thesis using ok by (simp add: handles_ok_def owned_filter)
qed

lemma invalid_handle [simp]: "\<not> valid kInvalidHandle"
  by (simp add: valid_def)

lemma small_natives [simp]: "socket_valid 3" "socket_valid 4" "socket_valid 5"
  by (simp_all add: socket_valid_def kNativeInvalid_def)

theorem sockets_never_leak_witness:
  "\<exists>vars. socket_run [Op_Listen 0 \<lparr>na_resolved = Some [Candidate 4 False, Candidate 3 True], na_error = []\<rparr> ''h'',
       Op_Accept 1 0 \<lparr>aa_native = 5, aa_peer = None, aa_error = []\<rparr>, Op_Move 0 1]
       (replicate 2 kInvalidHandle, []) = Some (vars, [5]) \<and> snd (fold close_object [0..<length vars] (vars, [5])) = []"
proof -
  let ?listen = "Op_Listen 0 \<lparr>na_resolved = Some [Candidate 4 False, Candidate 3 True], na_error = []\<rparr> ''h''"
  let ?accept = "Op_Accept 1 0 \<lparr>aa_native = 5, aa_peer = None, aa_error = []\<rparr>"
  have "op_possible ?listen ([kInvalidHandle, kInvalidHandle], [])
      \<and> socket_step ?listen ([kInvalidHandle, kInvalidHandle], []) = ([from_native 3, kInvalidHandle], [3])"
    by (simp add: socket_listen_on_def resolved_candidates_def store_created_def assign_temporary_def handle_close_def close_native_def)
  moreover have "op_possible ?accept ([from_native 3, kInvalidHandle], [3])
      \<and> socket_step ?accept ([from_native 3, kInvalidHandle], [3]) = ([from_native 3, from_native 5], [5, 3])"
    by (simp add: socket_accept_def assign_temporary_def handle_close_def)
  moreover have "op_possible (Op_Move 0 1) ([from_native 3, from_native 5], [5, 3])
      \<and> socket_step (Op_Move 0 1) ([from_native 3, from_native 5], [5, 3]) = ([from_native 5, kInvalidHandle], [5])"
    by (simp add: move_assign_def handle_close_def close_native_def)
  ultimately have "socket_run [?listen, ?accept, Op_Move 0 1] (replicate 2 kInvalidHandle, []) = Some ([from_native 5, kInvalidHandle], [5])"
    by (simp only: numeral_2_eq_2 replicate.simps socket_run.simps if_True simp_thms)
  from this sockets_never_leak [OF this] show ?thesis by blast
qed

text \<open>A handle is cut to 32 bits before it reaches the operating system: adopting a number above the range of
  descriptors gives an object that is valid and closes the descriptor of another.\<close>

theorem adopted_handle_truncated:
  "valid 0x100000003 \<and> snd (handle_close 0x100000003 [3, 4]) = [4]"
  by (simp add: valid_def kInvalidHandle_def handle_close_def close_native_def socket_valid_def kNativeInvalid_def to_native_def)

end
