(* ===== verification/Protocol.thy ===== *)
theory Protocol
  imports Segment_Bytes Limits
begin

text \<open>
  The frames of the observation transport (\<^verbatim>\<open>src/transport/Protocol.cpp\<close>): a header of sixteen
  bytes with magic, version, type, flags, payload length and checksum, then the payload. The
  header is stored into and loaded from a byte buffer at fixed offsets, as the source does. The
  reader of a connection reassembles frames from the chunks a socket delivers.
\<close>

unbundle bit_operations_syntax

section \<open>Frames\<close>

definition kFrameMagic :: u32 where "kFrameMagic = 0x514F4253"

definition kFrameVersion :: u16 where "kFrameVersion = 1"

definition kFrameHeaderBytes :: nat where "kFrameHeaderBytes = 16"

datatype frame_type =
    Hello | Welcome | Batch | BatchResult | StatusRequest | StatusReply | Bye | Frame_Error

record net_frame =
  nf_type :: frame_type
  nf_flags :: u8
  nf_payload :: string

definition empty_frame :: net_frame where
  "empty_frame = \<lparr>nf_type = Hello, nf_flags = 0, nf_payload = []\<rparr>"

definition frame_of :: "frame_type \<Rightarrow> string \<Rightarrow> net_frame" where
  "frame_of type payload = empty_frame\<lparr>nf_type := type, nf_payload := payload\<rparr>"

fun frame_type_code :: "frame_type \<Rightarrow> u8" where
  "frame_type_code Hello = 1"
| "frame_type_code Welcome = 2"
| "frame_type_code Batch = 3"
| "frame_type_code BatchResult = 4"
| "frame_type_code StatusRequest = 5"
| "frame_type_code StatusReply = 6"
| "frame_type_code Bye = 7"
| "frame_type_code Frame_Error = 8"

fun frame_type_text :: "frame_type \<Rightarrow> string" where
  "frame_type_text Hello = ''hello''"
| "frame_type_text Welcome = ''welcome''"
| "frame_type_text Batch = ''batch''"
| "frame_type_text BatchResult = ''batch_result''"
| "frame_type_text StatusRequest = ''status_request''"
| "frame_type_text StatusReply = ''status_reply''"
| "frame_type_text Bye = ''bye''"
| "frame_type_text Frame_Error = ''error''"

definition is_known_frame_type :: "u8 \<Rightarrow> bool" where
  "is_known_frame_type raw \<longleftrightarrow> raw \<ge> frame_type_code Hello \<and> raw \<le> frame_type_code Frame_Error"

text \<open>The cast of a byte that is known to be a frame type.\<close>

definition frame_type_of :: "u8 \<Rightarrow> frame_type" where
  "frame_type_of raw =
     [Hello, Welcome, Batch, BatchResult, StatusRequest, StatusReply, Bye, Frame_Error] ! (unat raw - 1)"

section \<open>Integers in a buffer\<close>

definition store_u16 :: "nat \<Rightarrow> u16 \<Rightarrow> u8 list \<Rightarrow> u8 list" where
  "store_u16 at v out = out[at := ucast (v AND 0xFF), at + 1 := ucast (drop_bit 8 v AND 0xFF)]"

definition store_u32 :: "nat \<Rightarrow> u32 \<Rightarrow> u8 list \<Rightarrow> u8 list" where
  "store_u32 at v out =
     foldl (\<lambda>out index. out[at + index := ucast (drop_bit (8 * index) v AND 0xFF)]) out [0..<4]"

definition load_u16 :: "nat \<Rightarrow> u8 list \<Rightarrow> u16" where
  "load_u16 at buffer = ucast (buffer ! at) OR push_bit 8 (ucast (buffer ! (at + 1)))"

definition load_u32 :: "nat \<Rightarrow> u8 list \<Rightarrow> u32" where
  "load_u32 at buffer =
     foldl (\<lambda>v index. v OR push_bit (8 * index) (ucast (buffer ! (at + index)))) 0 [0..<4]"

section \<open>Encoding and decoding\<close>

definition frame_crc :: "u8 list \<Rightarrow> u8 list \<Rightarrow> u32" where
  "frame_crc covered payload = crc_value (crc_update (crc_update crc_init covered) payload)"

definition frame_header :: "net_frame \<Rightarrow> u8 list" where
  "frame_header frame =
     (let header = replicate kFrameHeaderBytes 0;
          header = store_u32 0 kFrameMagic header;
          header = store_u16 4 kFrameVersion header;
          header = header[6 := frame_type_code (nf_type frame)];
          header = header[7 := nf_flags frame];
          header = store_u32 8 (of_nat (length (nf_payload frame))) header
      in store_u32 12 (frame_crc (take 8 (drop 4 header)) (bytes_of_text (nf_payload frame))) header)"

definition encode_frame :: "net_frame \<Rightarrow> transport_limits \<Rightarrow> u8 list result" where
  "encode_frame frame limits =
     (if \<not> status_ok (validate_transport_limits limits) then Inl (validate_transport_limits limits)
      else if length (nf_payload frame) > max_frame_bytes limits
      then Inl (failure LimitExceeded ''the frame payload exceeds the configured frame size'')
      else Inr (frame_header frame @ bytes_of_text (nf_payload frame)))"

record decode_frame_result =
  df_complete :: bool
  df_consumed :: u64
  df_frame :: net_frame
  df_diagnostic :: string

definition empty_decode_result :: decode_frame_result where
  "empty_decode_result = \<lparr>df_complete = False, df_consumed = 0, df_frame = empty_frame, df_diagnostic = []\<rparr>"

definition decode_refusal :: "error_code \<Rightarrow> string \<Rightarrow> status \<times> decode_frame_result" where
  "decode_refusal code text = (failure code text, empty_decode_result\<lparr>df_diagnostic := text\<rparr>)"

definition decoded_frame :: "u8 list \<Rightarrow> nat \<Rightarrow> u64 \<Rightarrow> decode_frame_result" where
  "decoded_frame buffer len needed =
     empty_decode_result\<lparr>df_complete := True, df_consumed := needed,
       df_frame := \<lparr>nf_type = frame_type_of (buffer ! 6), nf_flags = buffer ! 7,
         nf_payload = text_of_bytes (take len (drop kFrameHeaderBytes buffer))\<rparr>\<rparr>"

definition decode_frame :: "u8 list \<Rightarrow> transport_limits \<Rightarrow> status \<times> decode_frame_result" where
  "decode_frame buffer limits =
     (if \<not> status_ok (validate_transport_limits limits)
      then (validate_transport_limits limits, empty_decode_result)
      else if length buffer < kFrameHeaderBytes then (success, empty_decode_result)
      else if load_u32 0 buffer \<noteq> kFrameMagic
      then decode_refusal IntegrityFailure ''the frame magic does not match''
      else if load_u16 4 buffer \<noteq> kFrameVersion
      then decode_refusal VersionMismatch ''the frame was written in an unsupported protocol version''
      else if \<not> is_known_frame_type (buffer ! 6)
      then decode_refusal NotSupported ''the frame declares an unknown type''
      else let len = unat (load_u32 8 buffer) in
        if len > max_frame_bytes limits
        then decode_refusal LimitExceeded ''the frame declares a payload larger than the configured limit''
        else case add_u64 (of_nat kFrameHeaderBytes) (of_nat len) of
          None \<Rightarrow> decode_refusal Overflow ''the frame length overflows''
        | Some needed \<Rightarrow>
            if length buffer < unat needed then (success, empty_decode_result)
            else if frame_crc (take 8 (drop 4 buffer)) (take len (drop kFrameHeaderBytes buffer))
                \<noteq> load_u32 12 buffer
            then decode_refusal IntegrityFailure ''the frame checksum does not match its contents''
            else (success, decoded_frame buffer len needed))"

section \<open>The frame reader\<close>

record frame_reader =
  fr_limits :: transport_limits
  fr_buffer :: "u8 list"

definition new_frame_reader :: "transport_limits \<Rightarrow> frame_reader" where
  "new_frame_reader limits = \<lparr>fr_limits = limits, fr_buffer = []\<rparr>"

definition reader_append :: "u8 list \<Rightarrow> frame_reader \<Rightarrow> status \<times> frame_reader" where
  "reader_append bytes r =
     (case add_u64 (of_nat (length (fr_buffer r))) (of_nat (length bytes)) of
        None \<Rightarrow> (failure LimitExceeded ''the connection buffer would exceed its configured bound'', r)
      | Some projected \<Rightarrow>
          if unat projected > max_connection_buffer_bytes (fr_limits r)
          then (failure LimitExceeded ''the connection buffer would exceed its configured bound'', r)
          else (success, r\<lparr>fr_buffer := fr_buffer r @ bytes\<rparr>))"

text \<open>The frame that was produced, if any.\<close>

definition reader_next :: "frame_reader \<Rightarrow> status \<times> net_frame option \<times> frame_reader" where
  "reader_next r =
     (if fr_buffer r = [] then (success, None, r)
      else case decode_frame (fr_buffer r) (fr_limits r) of (status, decoded) \<Rightarrow>
        if \<not> status_ok status then (status, None, r)
        else if \<not> df_complete decoded then (success, None, r)
        else (success, Some (df_frame decoded),
          r\<lparr>fr_buffer := drop (unat (df_consumed decoded)) (fr_buffer r)\<rparr>))"

section \<open>What is stored is loaded\<close>

lemma store_u32_at:
  "length pre = at \<Longrightarrow> length old = 4 \<Longrightarrow> store_u32 at v (pre @ old @ post) = pre @ le_bytes 4 v @ post"
  by (auto simp: store_u32_def le_bytes_def upt_rec list_update_append numeral_eq_Suc length_Suc_conv)

lemma store_u16_at:
  "length pre = at \<Longrightarrow> length old = 2 \<Longrightarrow> store_u16 at v (pre @ old @ post) = pre @ le_bytes 2 v @ post"
  by (auto simp: store_u16_def le_bytes_def upt_rec list_update_append numeral_eq_Suc length_Suc_conv)

lemma load_u32_of_le: "at + 4 \<le> length buffer \<Longrightarrow> load_u32 at buffer = of_le (take 4 (drop at buffer))"
proof -
  assume "at + 4 \<le> length buffer"
  then have "take 4 (drop at buffer) = map (\<lambda>i. buffer ! (at + i)) [0..<4]"
    by (intro nth_equalityI) (auto simp: add.commute)
  then show ?thesis by (simp add: load_u32_def of_le_def upt_rec)
qed

lemma load_u32_at [simp]: "length pre = at \<Longrightarrow> load_u32 at (pre @ le_bytes 4 v @ post) = v"
  by (subst load_u32_of_le) (simp_all add: of_le_bytes)

lemma load_u16_at [simp]: "length pre = at \<Longrightarrow> load_u16 at (pre @ le_bytes 2 v @ post) = v"
  using rd_u16_back [of v post]
  by (auto simp: load_u16_def rd_u16_def read_then_def rd_bytes_def read_return_def nth_append split: if_splits)

lemma frame_type_code_known [simp]: "is_known_frame_type (frame_type_code t)"
  by (cases t) (simp_all add: is_known_frame_type_def)

lemma frame_type_code_back [simp]: "frame_type_of (frame_type_code t) = t"
  by (cases t) (simp_all add: frame_type_of_def)

lemma frame_type_of_back: "is_known_frame_type raw \<Longrightarrow> frame_type_code (frame_type_of raw) = raw"
proof -
  assume "is_known_frame_type raw"
  then have "unat raw \<in> {1..8}" by (simp add: is_known_frame_type_def word_le_nat_alt)
  then have "unat raw \<in> {1, 2, 3, 4, 5, 6, 7, 8}" by auto
  then have "raw \<in> {1, 2, 3, 4, 5, 6, 7, 8}" by (auto simp: word_unat_eq_iff)
  then show ?thesis by (auto simp: frame_type_of_def)
qed

end
