(* ===== verification/Protocol_Properties.thy ===== *)
theory Protocol_Properties
  imports Protocol
begin

text \<open>
  What the frames of the transport promise: a frame is decoded as it was encoded, a part of a frame
  is waited for and never refused, damage is never accepted, and the buffer of a connection is
  bounded.
\<close>

unbundle bit_operations_syntax

section \<open>The layout of a frame\<close>

definition covered_part :: "net_frame \<Rightarrow> u8 list" where
  "covered_part f =
     le_bytes 2 kFrameVersion @ [frame_type_code (nf_type f), nf_flags f] @
     le_bytes 4 (of_nat (length (nf_payload f)) :: u32)"

definition frame_bytes :: "net_frame \<Rightarrow> u8 list" where
  "frame_bytes f =
     le_bytes 4 kFrameMagic @ covered_part f @
     le_bytes 4 (crc32c (covered_part f @ bytes_of_text (nf_payload f))) @ bytes_of_text (nf_payload f)"

lemma length_covered_part [simp]: "length (covered_part f) = 8"
  by (simp add: covered_part_def)

lemma length_frame_bytes [simp]: "length (frame_bytes f) = kFrameHeaderBytes + length (nf_payload f)"
  by (simp add: frame_bytes_def kFrameHeaderBytes_def)

lemma frame_crc_eq: "frame_crc covered payload = crc32c (covered @ payload)"
  by (simp add: frame_crc_def crc_value_def crc_update_def crc_init_def crc32c_def)

lemma frame_header_layout:
  "frame_header f @ bytes_of_text (nf_payload f) = frame_bytes f"
proof -
  let ?z = "replicate :: nat \<Rightarrow> u8 \<Rightarrow> u8 list"
  let ?n = "of_nat (length (nf_payload f)) :: u32"
  have zeros: "replicate kFrameHeaderBytes 0 = [] @ ?z 4 0 @ ?z 2 0 @ ?z 2 0 @ ?z 4 0 @ ?z 4 0"
    by (simp add: kFrameHeaderBytes_def numeral_eq_Suc)
  have one: "store_u16 4 kFrameVersion (store_u32 0 kFrameMagic (replicate kFrameHeaderBytes 0)) =
      le_bytes 4 kFrameMagic @ le_bytes 2 kFrameVersion @ ?z 2 0 @ ?z 4 0 @ ?z 4 0"
    unfolding zeros by (simp add: store_u32_at [of "[]", simplified] store_u16_at)
  have two: "(le_bytes 4 kFrameMagic @ le_bytes 2 kFrameVersion @ ?z 2 0 @ ?z 4 0 @ ?z 4 0)
      [6 := frame_type_code (nf_type f), 7 := nf_flags f] =
      (le_bytes 4 kFrameMagic @ le_bytes 2 kFrameVersion @ [frame_type_code (nf_type f), nf_flags f])
        @ ?z 4 0 @ ?z 4 0"
    by (simp add: list_update_append numeral_eq_Suc)
  have three: "store_u32 8 ?n ((le_bytes 4 kFrameMagic @ le_bytes 2 kFrameVersion @
      [frame_type_code (nf_type f), nf_flags f]) @ ?z 4 0 @ ?z 4 0) =
      (le_bytes 4 kFrameMagic @ covered_part f) @ ?z 4 0 @ []"
    by (subst store_u32_at) (simp_all add: covered_part_def)
  have four: "store_u32 12 v ((le_bytes 4 kFrameMagic @ covered_part f) @ ?z 4 0 @ []) =
      (le_bytes 4 kFrameMagic @ covered_part f) @ le_bytes 4 v @ []" for v
    by (rule store_u32_at) simp_all
  show ?thesis
    unfolding frame_header_def Let_def one two three four by (simp add: frame_bytes_def frame_crc_eq)
qed

lemma encode_frame_ok:
  "encode_frame f limits = Inr bs \<longleftrightarrow>
     status_ok (validate_transport_limits limits) \<and> length (nf_payload f) \<le> max_frame_bytes limits
     \<and> bs = frame_bytes f"
  by (auto simp: encode_frame_def frame_header_layout)

section \<open>Reading a frame back\<close>

text \<open>A frame that the reader can receive.\<close>

definition frame_fits :: "transport_limits \<Rightarrow> net_frame \<Rightarrow> bool" where
  "frame_fits limits f \<longleftrightarrow>
     status_ok (validate_transport_limits limits) \<and> length (nf_payload f) \<le> max_frame_bytes limits
     \<and> length (nf_payload f) < 2 ^ 32"

lemma header_loads:
  assumes "length (nf_payload f) < 2 ^ 32" "take 16 buffer = take 16 (frame_bytes f)" "16 \<le> length buffer"
  shows "load_u32 0 buffer = kFrameMagic" "load_u16 4 buffer = kFrameVersion"
    "buffer ! 6 = frame_type_code (nf_type f)" "buffer ! 7 = nf_flags f"
    "unat (load_u32 8 buffer) = length (nf_payload f)"
    "take 8 (drop 4 buffer) = covered_part f"
    "load_u32 12 buffer = crc32c (covered_part f @ bytes_of_text (nf_payload f))"
proof -
  let ?n = "of_nat (length (nf_payload f)) :: u32"
  let ?c = "le_bytes 4 (crc32c (covered_part f @ bytes_of_text (nf_payload f)))"
  obtain rest where split: "buffer = le_bytes 4 kFrameMagic @ covered_part f @ ?c @ rest"
    using assms(2,3) append_take_drop_id [of 16 buffer] by (simp add: frame_bytes_def) metis
  have "buffer = [] @ le_bytes 4 kFrameMagic @ covered_part f @ ?c @ rest" using split by simp
  then show "load_u32 0 buffer = kFrameMagic" by (simp only: load_u32_at list.size)
  have "buffer = le_bytes 4 kFrameMagic @ le_bytes 2 kFrameVersion @
      [frame_type_code (nf_type f), nf_flags f] @ le_bytes 4 ?n @ ?c @ rest"
    using split by (simp add: covered_part_def)
  then show "load_u16 4 buffer = kFrameVersion" by (simp only: load_u16_at length_le_bytes)
  show "buffer ! 6 = frame_type_code (nf_type f)" "buffer ! 7 = nf_flags f"
    by (simp_all add: split covered_part_def nth_append)
  have "buffer = (le_bytes 4 kFrameMagic @ le_bytes 2 kFrameVersion @
      [frame_type_code (nf_type f), nf_flags f]) @ le_bytes 4 ?n @ ?c @ rest"
    using split by (simp add: covered_part_def)
  then have "load_u32 8 buffer = ?n" by (simp only: load_u32_at length_append length_le_bytes list.size)
  then show "unat (load_u32 8 buffer) = length (nf_payload f)"
    using assms(1) by (simp add: unat_of_nat)
  show "take 8 (drop 4 buffer) = covered_part f" by (simp add: split)
  have "buffer = (le_bytes 4 kFrameMagic @ covered_part f) @ ?c @ rest" using split by simp
  then show "load_u32 12 buffer = crc32c (covered_part f @ bytes_of_text (nf_payload f))"
    by (simp only: load_u32_at length_append length_le_bytes length_covered_part)
qed

lemma needed_total:
  "n < 2 ^ 32 \<Longrightarrow> add_u64 (of_nat kFrameHeaderBytes) (of_nat n) = Some (of_nat (kFrameHeaderBytes + n))
     \<and> unat (of_nat (kFrameHeaderBytes + n) :: u64) = kFrameHeaderBytes + n"
proof (intro conjI)
  assume n: "n < 2 ^ 32"
  then show "add_u64 (of_nat kFrameHeaderBytes) (of_nat n) = Some (of_nat (kFrameHeaderBytes + n))"
    by (simp add: add_u64_eq kFrameHeaderBytes_def unat_of_nat)
  from n show "unat (of_nat (kFrameHeaderBytes + n) :: u64) = kFrameHeaderBytes + n"
    by (simp add: kFrameHeaderBytes_def unat_of_nat del: of_nat_add)
qed

lemma decode_frame_back:
  assumes "frame_fits limits f"
  shows "decode_frame (frame_bytes f @ rest) limits =
    (success, \<lparr>df_complete = True, df_consumed = of_nat (length (frame_bytes f)), df_frame = f, df_diagnostic = []\<rparr>)"
proof -
  define b where "b = frame_bytes f @ rest"
  have n: "length (nf_payload f) < 2 ^ 32" using assms by (simp add: frame_fits_def)
  have long: "16 \<le> length b" "kFrameHeaderBytes + length (nf_payload f) \<le> length b"
    by (simp_all add: b_def kFrameHeaderBytes_def)
  have "take 16 b = take 16 (frame_bytes f)" by (simp add: b_def kFrameHeaderBytes_def)
  note loads = header_loads [OF n this long(1)]
  have payload: "take (length (nf_payload f)) (drop kFrameHeaderBytes b) = bytes_of_text (nf_payload f)"
    by (simp add: b_def frame_bytes_def kFrameHeaderBytes_def)
  have "decode_frame b limits = (success, decoded_frame b (length (nf_payload f)) (of_nat (length (frame_bytes f))))"
    using assms long needed_total [OF n]
    by (simp add: decode_frame_def loads payload frame_crc_eq frame_fits_def Let_def)
  then show ?thesis by (simp add: b_def [symmetric] decoded_frame_def loads payload empty_decode_result_def)
qed

lemma decode_frame_waits:
  assumes "frame_fits limits f" "frame_bytes f = p @ q" "q \<noteq> []"
  shows "decode_frame p limits = (success, empty_decode_result)"
proof (cases "length p < kFrameHeaderBytes")
  case False
  have n: "length (nf_payload f) < 2 ^ 32" using assms by (simp add: frame_fits_def)
  have long: "16 \<le> length p" using False by (simp add: kFrameHeaderBytes_def)
  then have "take 16 p = take 16 (frame_bytes f)" by (simp add: assms(2))
  note loads = header_loads [OF n this long]
  have "length p < kFrameHeaderBytes + length (nf_payload f)"
    using arg_cong [OF assms(2), of length] assms(3) by simp
  then show ?thesis
    using assms(1) False needed_total [OF n] by (simp add: decode_frame_def loads frame_fits_def)
qed (use assms in \<open>simp add: decode_frame_def frame_fits_def\<close>)

section \<open>Damage\<close>

lemma decode_frame_complete:
  assumes "df_complete (snd (decode_frame buffer limits))"
  defines "n \<equiv> unat (load_u32 8 buffer)"
  shows "load_u32 0 buffer = kFrameMagic" "kFrameHeaderBytes + n \<le> length buffer"
    "crc32c (take 8 (drop 4 buffer) @ take n (drop kFrameHeaderBytes buffer)) = load_u32 12 buffer"
    "unat (df_consumed (snd (decode_frame buffer limits))) = kFrameHeaderBytes + n"
proof -
  have "n < 2 ^ 32" unfolding n_def by (rule order_less_le_trans [OF unsigned_less]) simp
  note total = needed_total [OF this]
  show "load_u32 0 buffer = kFrameMagic" "kFrameHeaderBytes + n \<le> length buffer"
    "crc32c (take 8 (drop 4 buffer) @ take n (drop kFrameHeaderBytes buffer)) = load_u32 12 buffer"
    "unat (df_consumed (snd (decode_frame buffer limits))) = kFrameHeaderBytes + n"
    using assms(1) total
    by (auto simp: decode_frame_def n_def [symmetric] Let_def decode_refusal_def empty_decode_result_def
        decoded_frame_def frame_crc_eq not_less split: if_splits)
qed

lemma list_update_differs: "i < length xs \<Longrightarrow> c \<noteq> xs ! i \<Longrightarrow> xs[i := c] \<noteq> xs"
  by (metis nth_list_update_eq)

text \<open>The parts of a buffer whose byte \<open>i\<close> was changed.\<close>

lemma changed_parts:
  "take n (drop m (bs[i := c] @ rest)) =
     (if i < m \<or> m + n \<le> i then take n (drop m (bs @ rest)) else (take n (drop m (bs @ rest)))[i - m := c])"
  if "i < length bs" for bs :: "u8 list"
proof -
  have "bs[i := c] @ rest = (bs @ rest)[i := c]" using that by (simp add: list_update_append)
  moreover have "take n (drop m (xs[i := c])) =
      (if i < m \<or> m + n \<le> i then take n (drop m xs) else (take n (drop m xs))[i - m := c])" for xs :: "u8 list"
  proof (cases "i < m")
    case False
    then have "m + n \<le> i \<Longrightarrow> length (take n (drop m xs)) \<le> i - m" by simp
    with False show ?thesis by (auto simp: drop_update_swap take_update_swap list_update_beyond)
  qed simp
  ultimately show ?thesis by simp
qed

lemma damaged_frame_refused:
  assumes fits: "frame_fits limits f" and i: "i < length (frame_bytes f)" "i \<notin> {8..<12}" "c \<noteq> frame_bytes f ! i"
  shows "\<not> df_complete (snd (decode_frame ((frame_bytes f)[i := c] @ rest) limits))"
proof
  define b where "b = (frame_bytes f)[i := c] @ rest"
  define b0 where "b0 = frame_bytes f @ rest"
  define n where "n = length (nf_payload f)"
  define crc where "crc = crc32c (covered_part f @ bytes_of_text (nf_payload f))"
  assume "df_complete (snd (decode_frame ((frame_bytes f)[i := c] @ rest) limits))"
  note complete = decode_frame_complete [OF this, folded b_def]
  have part: "take k (drop m b) = (if i < m \<or> m + k \<le> i then take k (drop m b0) else (take k (drop m b0))[i - m := c])"
    for k m using changed_parts [OF i(1)] by (simp add: b_def b0_def)
  have at: "c \<noteq> b0 ! i" using i by (simp add: b0_def nth_append)
  have short: "n < 2 ^ 32" using fits by (simp add: frame_fits_def n_def)
  have long: "16 + n \<le> length b" "16 + n \<le> length b0" "length b = length b0" "i < 16 + n"
    using i(1) by (simp_all add: b_def b0_def n_def kFrameHeaderBytes_def)
  have "take 16 b0 = take 16 (frame_bytes f)" by (simp add: b0_def kFrameHeaderBytes_def)
  note loads = header_loads [OF short [unfolded n_def] this, folded n_def crc_def]
  have same: "load_u32 m b = load_u32 m b0" if "i < m \<or> m + 4 \<le> i" "m + 4 \<le> length b0" for m
    using that long part [of 4 m] by (simp add: load_u32_of_le)
  have payload: "take n (drop 16 b0) = bytes_of_text (nf_payload f)"
    by (simp add: b0_def frame_bytes_def n_def)
  have len: "unat (load_u32 8 b) = n" using same [of 8] loads(5) i(2) long by (cases "i < 8") auto
  have sum: "crc32c (take 8 (drop 4 b) @ take n (drop 16 b)) = load_u32 12 b"
    using complete(3) by (simp add: len kFrameHeaderBytes_def)
  consider "i < 4" | "4 \<le> i" "i < 12" | "12 \<le> i" "i < 16" | "16 \<le> i" by linarith
  then show False
  proof cases
    case 1
    have "le_bytes 4 (load_u32 0 b) = (take 4 b0)[i := c]" "le_bytes 4 (load_u32 0 b0) = take 4 b0"
      using long part [of 4 0] 1 by (simp_all add: load_u32_of_le le_bytes_of_le)
    then have "(take 4 b0)[i := c] = take 4 b0" using complete(1) loads(1) long by simp
    then show False using list_update_differs [of i "take 4 b0" c] 1 at long by simp
  next
    case 2
    then have off: "i - 4 < 8" "take 8 (drop 4 b0) ! (i - 4) = b0 ! i" using long by simp_all
    have "crc32c ((take 8 (drop 4 b0) @ take n (drop 16 b0))[i - 4 := c]) = crc"
      using sum same [of 12] part [of 8 4] part [of n 16] 2 long loads(7) off
      by (simp add: list_update_append)
    then show False
      using crc32c_update [of "i - 4" "take 8 (drop 4 b0) @ take n (drop 16 b0)" c] 2 at long loads(6) payload off
      by (simp add: nth_append crc_def)
  next
    case 3
    have "le_bytes 4 (load_u32 12 b) = (take 4 (drop 12 b0))[i - 12 := c]"
      "le_bytes 4 (load_u32 12 b0) = take 4 (drop 12 b0)"
      using long part [of 4 12] 3 by (simp_all add: load_u32_of_le le_bytes_of_le)
    moreover have "load_u32 12 b = load_u32 12 b0"
      using sum part [of 8 4] part [of n 16] 3 long loads(6,7) payload by (simp add: crc_def)
    ultimately have "(take 4 (drop 12 b0))[i - 12 := c] = take 4 (drop 12 b0)" by simp
    then show False using list_update_differs [of "i - 12" "take 4 (drop 12 b0)" c] 3 at long by simp
  next
    case 4
    then obtain j where j: "i = 16 + j" "j < n" using long(4) less_eqE by auto
    then have byte: "take n (drop 16 b0) ! j = b0 ! i" "j < length b0 - 16" using long by simp_all
    have "crc32c ((take 8 (drop 4 b0) @ take n (drop 16 b0))[8 + j := c]) = crc"
      using sum same [of 12] part [of 8 4] part [of n 16] long loads(7) j
      by (simp add: list_update_append)
    then show False
      using crc32c_update [of "8 + j" "take 8 (drop 4 b0) @ take n (drop 16 b0)" c] at long loads(6) payload j byte
      by (simp add: nth_append crc_def n_def)
  qed
qed

section \<open>The reader of a connection\<close>

lemma reader_next_back:
  assumes "frame_fits (fr_limits r) f" "fr_buffer r = frame_bytes f @ rest"
  shows "reader_next r = (success, Some f, r\<lparr>fr_buffer := rest\<rparr>)"
proof -
  have "unat (of_nat (length (frame_bytes f)) :: u64) = length (frame_bytes f)"
    using assms(1) by (simp add: frame_fits_def unat_of_nat kFrameHeaderBytes_def del: of_nat_add)
  moreover have "frame_bytes f \<noteq> []" by (simp add: frame_bytes_def le_bytes_def)
  ultimately show ?thesis
    using decode_frame_back [OF assms(1), of rest] by (simp add: reader_next_def assms(2) del: length_frame_bytes)
qed

lemma reader_next_waits:
  assumes "frame_fits (fr_limits r) f" "frame_bytes f = fr_buffer r @ q" "q \<noteq> []"
  shows "reader_next r = (success, None, r)"
  using decode_frame_waits [OF assms] by (simp add: reader_next_def empty_decode_result_def)

lemma reader_next_limits: "reader_next r = (status, produced, r') \<Longrightarrow> fr_limits r' = fr_limits r"
  by (auto simp: reader_next_def split: if_splits prod.splits)

lemma reader_next_shrinks:
  assumes "reader_next r = (status, Some f, r')"
  shows "length (fr_buffer r') < length (fr_buffer r)"
proof -
  obtain st dec where dec: "decode_frame (fr_buffer r) (fr_limits r) = (st, dec)" by fastforce
  then have "fr_buffer r \<noteq> []" "df_complete dec" "fr_buffer r' = drop (unat (df_consumed dec)) (fr_buffer r)"
    using assms by (auto simp: reader_next_def split: if_splits)
  then show ?thesis using decode_frame_complete(4) [of "fr_buffer r" "fr_limits r"] dec
    by (simp add: kFrameHeaderBytes_def)
qed

lemma projected_size:
  "a + b < 2 ^ 64 \<Longrightarrow> \<exists>w. add_u64 (of_nat a) (of_nat b) = Some w \<and> unat w = a + b"
  by (simp add: add_u64_eq unat_of_nat unat_word_ariths)

lemma reader_append_eq:
  assumes "length (fr_buffer r) + length bytes < 2 ^ 64"
  shows "reader_append bytes r =
    (if length (fr_buffer r) + length bytes > max_connection_buffer_bytes (fr_limits r)
     then (failure LimitExceeded ''the connection buffer would exceed its configured bound'', r)
     else (success, r\<lparr>fr_buffer := fr_buffer r @ bytes\<rparr>))"
  using projected_size [OF assms] by (auto simp: reader_append_def)

section \<open>Properties\<close>

text \<open>A frame that the encoder accepts is decoded to the same frame, whatever follows it in the buffer,
  and consumes exactly its own bytes. As long as a byte of it is missing the decoder asks for more and
  consumes nothing.\<close>

theorem frame_round_trip:
  assumes "encode_frame f limits = Inr bs" "length (nf_payload f) < 2 ^ 32"
  shows "decode_frame (bs @ rest) limits =
      (success, \<lparr>df_complete = True, df_consumed = of_nat (length bs), df_frame = f, df_diagnostic = []\<rparr>)
    \<and> (\<forall>p q. bs = p @ q \<and> q \<noteq> [] \<longrightarrow> decode_frame p limits = (success, empty_decode_result))"
proof -
  have fits: "frame_fits limits f" and bs: "bs = frame_bytes f"
    using assms by (simp_all add: encode_frame_ok frame_fits_def)
  show ?thesis using decode_frame_back [OF fits] decode_frame_waits [OF fits] unfolding bs by blast
qed

text \<open>C18: No damaged frame is accepted: when one byte of a frame outside its length field is changed, the
  decoder never produces a frame from it, and it never consumes a byte.\<close>

theorem damaged_frame_never_accepted:
  assumes "encode_frame f limits = Inr bs" "length (nf_payload f) < 2 ^ 32"
    and "i < length bs" "i < 8 \<or> 12 \<le> i" "c \<noteq> bs ! i"
    and "fr_limits r = limits" "fr_buffer r = bs[i := c] @ rest" "reader_next r = (status, produced, r')"
  shows "produced = None \<and> r' = r"
proof -
  have fits: "frame_fits limits f" and bs: "bs = frame_bytes f"
    using assms(1,2) by (simp_all add: encode_frame_ok frame_fits_def)
  have "\<not> df_complete (snd (decode_frame (fr_buffer r) limits))"
    using damaged_frame_refused [OF fits, of i c rest] assms(3-5,7) by (auto simp: bs)
  then show ?thesis
    using assms(8) by (auto simp: reader_next_def assms(6) split: if_splits prod.splits)
qed

section \<open>Witnesses\<close>

lemma default_encodes:
  assumes "length payload < 1024"
  shows "encode_frame (frame_of type payload) default_transport_limits = Inr (frame_bytes (frame_of type payload))"
proof -
  have "max_frame_bytes default_transport_limits = 8 * 1024 * 1024" by (simp add: default_transport_limits_def)
  then show ?thesis
    using assms default_limits_valid(6) by (simp add: encode_frame_ok frame_of_def)
qed

theorem frame_round_trip_witness:
  "\<exists>bs. encode_frame (frame_of Bye ''x'') default_transport_limits = Inr bs
    \<and> df_frame (snd (decode_frame (bs @ [7]) default_transport_limits)) = frame_of Bye ''x''"
proof -
  have ok: "encode_frame (frame_of Bye ''x'') default_transport_limits = Inr (frame_bytes (frame_of Bye ''x''))"
    by (rule default_encodes) simp
  show ?thesis using ok frame_round_trip [OF ok] by (simp add: frame_of_def)
qed

theorem damaged_frame_never_accepted_witness:
  "\<exists>bs. encode_frame (frame_of Bye ''x'') default_transport_limits = Inr bs
    \<and> fst (snd (reader_next \<lparr>fr_limits = default_transport_limits, fr_buffer = bs[0 := 0]\<rparr>)) = None"
proof -
  let ?bs = "frame_bytes (frame_of Bye ''x'')"
  let ?r = "\<lparr>fr_limits = default_transport_limits, fr_buffer = ?bs[0 := 0]\<rparr>"
  have ok: "encode_frame (frame_of Bye ''x'') default_transport_limits = Inr ?bs"
    by (rule default_encodes) simp
  obtain st p r' where "reader_next ?r = (st, p, r')" by (metis prod_cases3)
  moreover have "?bs ! 0 = 0x53" by (simp add: frame_bytes_def le_bytes_def kFrameMagic_def upt_rec)
  ultimately show ?thesis
    using ok damaged_frame_never_accepted [OF ok, of 0 0 ?r "[]" st p r']
    by (simp add: frame_of_def kFrameHeaderBytes_def)
qed

end
