(* ===== verification/Server.thy ===== *)
theory Server
  imports Socket Protocol_Properties Observatory
begin

text \<open>
  The ingest server (\<^verbatim>\<open>src/transport/Server.cpp\<close>): the answers to the frames of a connection, the
  loop that reassembles and answers them, and the accept loop with its bounded queue. The runtime,
  the statistics and the ticket counter are the state of the server; a connection is a socket. The
  connections of different workers meet in the runtime only, so a connection is modelled on its own.
\<close>

section \<open>State\<close>

definition kVersionString :: string where "kVersionString = ''1.0.0''"

definition kWireFormatVersion :: u64 where "kWireFormatVersion = 1"

record server_stats =
  ss_connections_accepted :: u64
  ss_connections_rejected :: u64
  ss_frames_received :: u64
  ss_frames_rejected :: u64
  ss_batches_applied :: u64
  ss_batch_failures :: u64

record server =
  sv_runtime :: observatory
  sv_limits :: transport_limits
  sv_listening :: bool
  sv_stop_requested :: bool
  sv_next_batch_ticket :: u64
  sv_stop_after_batches :: nat
  sv_stats :: server_stats

definition zero_server_stats :: server_stats where
  "zero_server_stats =
     \<lparr>ss_connections_accepted = 0, ss_connections_rejected = 0, ss_frames_received = 0,
      ss_frames_rejected = 0, ss_batches_applied = 0, ss_batch_failures = 0\<rparr>"

definition new_server :: "observatory \<Rightarrow> transport_limits \<Rightarrow> server" where
  "new_server runtime limits =
     \<lparr>sv_runtime = runtime, sv_limits = limits, sv_listening = False, sv_stop_requested = False,
      sv_next_batch_ticket = 1, sv_stop_after_batches = 0, sv_stats = zero_server_stats\<rparr>"

definition count_accepted :: "server \<Rightarrow> server" where
  "count_accepted sv = sv\<lparr>sv_stats := (sv_stats sv)\<lparr>ss_connections_accepted := ss_connections_accepted (sv_stats sv) + 1\<rparr>\<rparr>"

definition count_rejected_connection :: "server \<Rightarrow> server" where
  "count_rejected_connection sv =
     sv\<lparr>sv_stats := (sv_stats sv)\<lparr>ss_connections_rejected := ss_connections_rejected (sv_stats sv) + 1\<rparr>\<rparr>"

definition count_frame :: "server \<Rightarrow> server" where
  "count_frame sv = sv\<lparr>sv_stats := (sv_stats sv)\<lparr>ss_frames_received := ss_frames_received (sv_stats sv) + 1\<rparr>\<rparr>"

definition count_rejected_frame :: "server \<Rightarrow> server" where
  "count_rejected_frame sv =
     sv\<lparr>sv_stats := (sv_stats sv)\<lparr>ss_frames_rejected := ss_frames_rejected (sv_stats sv) + 1\<rparr>\<rparr>"

definition count_batch :: "bool \<Rightarrow> server \<Rightarrow> server" where
  "count_batch applied sv =
     sv\<lparr>sv_stats :=
       (if applied then (sv_stats sv)\<lparr>ss_batches_applied := ss_batches_applied (sv_stats sv) + 1\<rparr>
        else (sv_stats sv)\<lparr>ss_batch_failures := ss_batch_failures (sv_stats sv) + 1\<rparr>)\<rparr>"

section \<open>Payloads\<close>

text \<open>The buffer of a writer whose calls all succeeded, \<^verbatim>\<open>{}\<close> otherwise.\<close>

definition written_or_empty :: "write_op \<Rightarrow> string" where
  "written_or_empty op = (case written op of Inl _ \<Rightarrow> ''{}'' | Inr text \<Rightarrow> text)"

definition status_calls :: "runtime_status \<Rightarrow> write_op list" where
  "status_calls status =
     (let c = ru_counters status in
      [member_string ''state'' (runtime_state_text (ru_state status)),
       member_string ''runtime_id'' (ru_runtime_id status),
       member_u64 ''queues'' (of_nat (ru_queues status)),
       member_u64 ''history_bytes'' (ru_history_bytes status),
       member_u64 ''samples_presented'' (c_samples_presented c),
       member_u64 ''samples_accepted'' (c_samples_accepted c),
       member_u64 ''samples_fenced'' (c_samples_fenced c),
       member_u64 ''samples_rejected'' (c_samples_rejected c),
       member_u64 ''duplicates_suppressed'' (c_duplicates_suppressed c),
       member_u64 ''counter_wraps'' (c_counter_wraps c),
       member_u64 ''counter_resets'' (c_counter_resets c),
       member_u64 ''counter_ambiguous'' (c_counter_ambiguous c),
       member_u64 ''wire_version'' kWireFormatVersion,
       member_string ''runtime_version'' kVersionString])"

definition encode_status_payload :: "runtime_status \<Rightarrow> string" where
  "encode_status_payload status = written_or_empty (write_object (status_calls status))"

record batch_reply =
  br_ticket :: u64
  br_report :: ingest_report
  br_error_code :: string
  br_error_message :: string

definition empty_reply :: batch_reply where
  "empty_reply = \<lparr>br_ticket = 0, br_report = empty_report, br_error_code = [], br_error_message = []\<rparr>"

definition error_calls :: "batch_reply \<Rightarrow> write_op" where
  "error_calls reply =
     (if br_error_code reply \<noteq> []
      then write_seq [member_string ''error_code'' (br_error_code reply),
        member_string ''error_message'' (br_error_message reply)]
      else Pair success)"

definition batch_result_calls :: "batch_reply \<Rightarrow> write_op list" where
  "batch_result_calls reply =
     (let d = ir_decode (br_report reply); a = ir_admission (br_report reply) in
      [member_u64 ''ticket'' (br_ticket reply),
       error_calls reply,
       member_u64 ''lines'' (of_nat (do_lines d)),
       member_u64 ''samples_decoded'' (of_nat (do_sample_count d)),
       member_u64 ''metadata_records'' (of_nat (do_metadata_records d)),
       member_u64 ''malformed'' (of_nat (do_malformed d)),
       member_u64 ''unsupported'' (of_nat (do_unsupported d)),
       member_u64 ''version_mismatches'' (of_nat (do_version_mismatches d)),
       member_u64 ''presented'' (of_nat (ba_presented a)),
       member_u64 ''accepted'' (of_nat (ba_accepted a)),
       member_u64 ''rejected'' (of_nat (ba_rejected a)),
       member_u64 ''fenced'' (of_nat (ba_fenced a)),
       member_u64 ''duplicates'' (of_nat (ba_duplicates a)),
       member_u64 ''queues_created'' (of_nat (ba_queues_created a)),
       member_bool ''applied'' (ir_accepted (br_report reply))])"

definition encode_batch_result :: "batch_reply \<Rightarrow> string" where
  "encode_batch_result reply = written_or_empty (write_object (batch_result_calls reply))"

definition welcome_calls :: "server \<Rightarrow> write_op list" where
  "welcome_calls sv =
     [member_string ''server'' ''queue-observatory'',
      member_string ''runtime_version'' kVersionString,
      member_u64 ''wire_version'' kWireFormatVersion,
      member_string ''runtime_id'' (se_runtime_id (session (ob_store (sv_runtime sv)))),
      member_string ''boundary''
        ''observation only: this endpoint accepts evidence and never changes device configuration'']"

section \<open>One frame\<close>

definition send_reply :: "frame_type \<Rightarrow> string \<Rightarrow> server \<Rightarrow> socket \<Rightarrow> status \<times> socket" where
  "send_reply type payload sv conn =
     (case encode_frame (frame_of type payload) (sv_limits sv) of
        Inl status \<Rightarrow> (status, conn)
      | Inr encoded \<Rightarrow> send_all encoded conn)"

definition handle_hello :: "socket \<Rightarrow> server \<Rightarrow> status \<times> bool \<times> socket \<times> server" where
  "handle_hello conn sv =
     (case written (write_object (welcome_calls sv)) of
        Inl status \<Rightarrow> (status, True, conn, sv)
      | Inr payload \<Rightarrow>
          case send_reply Welcome payload sv conn of (status, conn') \<Rightarrow> (status, True, conn', sv))"

definition apply_batch :: "'d doubles \<Rightarrow> string \<Rightarrow> server \<Rightarrow> batch_reply \<times> server" where
  "apply_batch lib payload sv =
     (case ingest_document_now lib payload (sv_runtime sv) of (status, report, runtime) \<Rightarrow>
        (let reply = empty_reply\<lparr>br_ticket := sv_next_batch_ticket sv, br_report := report\<rparr>;
             reply = (if \<not> status_ok status
               then reply\<lparr>br_error_code := error_code_text (st_code status), br_error_message := st_message status\<rparr>
               else reply)
         in (reply, count_batch (status_ok status)
           (sv\<lparr>sv_runtime := runtime, sv_next_batch_ticket := sv_next_batch_ticket sv + 1\<rparr>))))"

definition handle_batch :: "'d doubles \<Rightarrow> string \<Rightarrow> socket \<Rightarrow> server \<Rightarrow> status \<times> bool \<times> socket \<times> server" where
  "handle_batch lib payload conn sv =
     (case apply_batch lib payload sv of (reply, sv') \<Rightarrow>
        case send_reply BatchResult (encode_batch_result reply) sv' conn of (status, conn') \<Rightarrow>
          (status, True, conn', sv'))"

definition handle_status_request :: "socket \<Rightarrow> server \<Rightarrow> status \<times> bool \<times> socket \<times> server" where
  "handle_status_request conn sv =
     (case send_reply StatusReply (encode_status_payload (observatory_status (sv_runtime sv))) sv conn of
        (status, conn') \<Rightarrow> (status, True, conn', sv))"

definition unexpected_payload :: "frame_type \<Rightarrow> string" where
  "unexpected_payload type =
     ''{'' @ [CHR 0x22] @ ''code'' @ [CHR 0x22] @ '':'' @ [CHR 0x22] @ ''unexpected_frame'' @ [CHR 0x22] @ '','' @
     [CHR 0x22] @ ''message'' @ [CHR 0x22] @ '':'' @ [CHR 0x22] @ ''the server does not accept '' @
     frame_type_text type @ '' frames'' @ [CHR 0x22] @ ''}''"

definition handle_unexpected :: "frame_type \<Rightarrow> socket \<Rightarrow> server \<Rightarrow> status \<times> bool \<times> socket \<times> server" where
  "handle_unexpected type conn sv =
     (case send_reply Frame_Error (unexpected_payload type) sv conn of (status, conn') \<Rightarrow> (status, True, conn', sv))"

text \<open>The answer to a frame. The flag becomes false when the client takes its leave and is left
  as it is by every other frame; here the flag is whether the frame leaves it.\<close>

fun handle_frame :: "'d doubles \<Rightarrow> net_frame \<Rightarrow> socket \<Rightarrow> server \<Rightarrow> status \<times> bool \<times> socket \<times> server" where
  "handle_frame lib frame conn sv =
     (case nf_type frame of
        Hello \<Rightarrow> handle_hello conn sv
      | Batch \<Rightarrow> handle_batch lib (nf_payload frame) conn sv
      | StatusRequest \<Rightarrow> handle_status_request conn sv
      | Bye \<Rightarrow> (success, False, conn, sv)
      | type \<Rightarrow> handle_unexpected type conn sv)"

declare handle_frame.simps [simp del]

lemma send_reply_keeps: "send_reply type payload sv conn = (status, conn') \<Longrightarrow> so_recvs conn' = so_recvs conn \<and> so_open conn' = so_open conn"
  by (auto simp: send_reply_def dest: send_all_keeps split: sum.splits)

lemma handle_frame_keeps:
  "handle_frame lib frame conn sv = (status, keep, conn', sv') \<Longrightarrow> so_recvs conn' = so_recvs conn \<and> so_open conn' = so_open conn"
  by (auto simp: handle_frame.simps handle_hello_def handle_batch_def handle_status_request_def
      handle_unexpected_def dest: send_reply_keeps split: frame_type.splits sum.splits prod.splits)

section \<open>One connection\<close>

definition integrity_payload :: "status \<Rightarrow> string" where
  "integrity_payload status =
     ''{'' @ [CHR 0x22] @ ''code'' @ [CHR 0x22] @ '':'' @ [CHR 0x22] @ ''integrity_failure'' @ [CHR 0x22] @ '','' @
     [CHR 0x22] @ ''message'' @ [CHR 0x22] @ '':'' @ [CHR 0x22] @ escape_json (st_message status) @ [CHR 0x22] @ ''}''"

text \<open>A frame that does not decode ends the connection with an error frame, if that can be sent.\<close>

definition reject_frame :: "status \<Rightarrow> socket \<Rightarrow> server \<Rightarrow> status \<times> socket \<times> server" where
  "reject_frame status conn sv =
     (let sv' = count_rejected_frame sv
      in (success, snd (send_reply Frame_Error (integrity_payload status) sv' conn), sv'))"

text \<open>The inner loop: the frames that the buffer holds. The result is the end of the connection on
  the left, the state after the last complete frame on the right.\<close>

function drain_frames ::
    "'d doubles \<Rightarrow> bool \<Rightarrow> frame_reader \<Rightarrow> socket \<Rightarrow> server
     \<Rightarrow> (status \<times> socket \<times> server) + (bool \<times> frame_reader \<times> socket \<times> server)" where
  "drain_frames lib keep_going reader conn sv =
     (case reader_next reader of (next_status, produced, reader') \<Rightarrow>
        if \<not> status_ok next_status then Inl (reject_frame next_status conn sv)
        else case produced of
          None \<Rightarrow> Inr (keep_going, reader', conn, sv)
        | Some frame \<Rightarrow>
            case handle_frame lib frame conn (count_frame sv) of (frame_status, keep, conn', sv') \<Rightarrow>
              if \<not> status_ok frame_status then Inl (frame_status, conn', sv')
              else drain_frames lib (keep_going \<and> keep) reader' conn' sv')"
  by pat_completeness auto
termination
  by (relation "measure (\<lambda>(lib, keep_going, reader, conn, sv). length (fr_buffer reader))")
    (auto dest!: sym [of _ "reader_next _"] reader_next_shrinks)

declare drain_frames.simps [simp del]

lemma drain_frames_keeps:
  "drain_frames lib keep_going reader conn sv = Inr (keep, reader', conn', sv') \<Longrightarrow>
     so_recvs conn' = so_recvs conn \<and> so_open conn' = so_open conn"
proof (induction lib keep_going reader conn sv rule: drain_frames.induct)
  case (1 lib keep_going reader conn sv)
  then show ?case
    by (auto simp: drain_frames.simps [of lib keep_going reader] dest!: handle_frame_keeps
        split: prod.splits if_splits option.splits)
qed

lemma connection_step_shrinks:
  assumes "receive n conn = (status, bytes, conn1)" "bytes \<noteq> []"
    "drain_frames lib keep_going reader conn1 sv = Inr (keep, reader', conn2, sv')"
  shows "recv_load conn2 < recv_load conn"
  using receive_shrinks [OF assms(1,2)] drain_frames_keeps [OF assms(3)] by (simp add: recv_load_def)

definition kReceiveBytes :: nat where "kReceiveBytes = 64 * 1024"

function connection_loop ::
    "'d doubles \<Rightarrow> bool \<Rightarrow> frame_reader \<Rightarrow> socket \<Rightarrow> server \<Rightarrow> status \<times> socket \<times> server" where
  "connection_loop lib keep_going reader conn sv =
     (if \<not> keep_going then (success, conn, sv)
      else case receive kReceiveBytes conn of (receive_status, bytes, conn1) \<Rightarrow>
        if \<not> status_ok receive_status then (receive_status, conn1, sv)
        else if bytes = [] then (success, conn1, sv)
        else case reader_append bytes reader of (append_status, reader1) \<Rightarrow>
          if \<not> status_ok append_status then (append_status, conn1, sv)
          else case drain_frames lib keep_going reader1 conn1 sv of
            Inl result \<Rightarrow> result
          | Inr (keep, reader2, conn2, sv2) \<Rightarrow> connection_loop lib keep reader2 conn2 sv2)"
  by pat_completeness auto
termination
  by (relation "measure (\<lambda>(lib, keep_going, reader, conn, sv). recv_load conn)")
    (auto dest!: sym [of _ "receive _ _"] sym [of _ "drain_frames _ _ _ _ _"] dest: connection_step_shrinks)

declare connection_loop.simps [simp del]

definition handle_connection :: "'d doubles \<Rightarrow> socket \<Rightarrow> server \<Rightarrow> status \<times> socket \<times> server" where
  "handle_connection lib conn sv =
     connection_loop lib True (new_frame_reader (sv_limits sv)) conn (count_accepted sv)"

section \<open>Listening\<close>

text \<open>The outcome of creating the listening socket is external; an adopted one is open or not.\<close>

definition listen_on :: "status \<Rightarrow> server \<Rightarrow> status \<times> server" where
  "listen_on created sv =
     (if \<not> status_ok (validate_transport_limits (sv_limits sv)) then (validate_transport_limits (sv_limits sv), sv)
      else if \<not> status_ok created then (created, sv)
      else (success, sv\<lparr>sv_listening := True\<rparr>))"

definition adopt :: "bool \<Rightarrow> server \<Rightarrow> status \<times> server" where
  "adopt valid sv =
     (if \<not> status_ok (validate_transport_limits (sv_limits sv)) then (validate_transport_limits (sv_limits sv), sv)
      else if \<not> valid then (failure InvalidArgument ''the adopted socket is not open'', sv)
      else (success, sv\<lparr>sv_listening := True\<rparr>))"

definition server_request_stop :: "server \<Rightarrow> server" where
  "server_request_stop sv = sv\<lparr>sv_stop_requested := True\<rparr>"

definition set_stop_after_batches :: "nat \<Rightarrow> server \<Rightarrow> server" where
  "set_stop_after_batches batches sv = sv\<lparr>sv_stop_after_batches := batches\<rparr>"

section \<open>The accept loop and its workers\<close>

text \<open>What a round of the accept loop finds: the poll failed, nobody called, a call was lost (and
  whether a stop is then requested), or a connection.\<close>

datatype poll_answer =
    Poll_Failed string
  | Poll_Idle
  | Poll_Lost bool
  | Poll_Connection socket

record pool =
  po_size :: nat
  po_queue :: "socket list"
  po_active :: "socket list"
  po_closing :: bool
  po_result :: status

definition pool_size :: "transport_limits \<Rightarrow> nat" where
  "pool_size limits = (if max_connections limits = 0 then 1 else max_connections limits)"

definition start_serving :: "server \<Rightarrow> status \<times> pool" where
  "start_serving sv =
     (if \<not> sv_listening sv
      then (failure NotRunning ''the transport server is not listening on any socket'',
        \<lparr>po_size = 0, po_queue = [], po_active = [], po_closing = True, po_result = success\<rparr>)
      else (success, \<lparr>po_size = pool_size (sv_limits sv), po_queue = [], po_active = [], po_closing = False,
        po_result = success\<rparr>))"

definition busy_payload :: string where
  "busy_payload =
     ''{'' @ [CHR 0x22] @ ''code'' @ [CHR 0x22] @ '':'' @ [CHR 0x22] @ ''busy'' @ [CHR 0x22] @ '','' @
     [CHR 0x22] @ ''message'' @ [CHR 0x22] @ '':'' @ [CHR 0x22] @ ''the server is at its connection limit'' @
     [CHR 0x22] @ ''}''"

definition reject_connection :: "socket \<Rightarrow> server \<Rightarrow> socket \<times> server" where
  "reject_connection conn sv =
     (let sv' = count_rejected_connection sv
      in (close_socket (snd (send_reply Frame_Error busy_payload sv' conn)), sv'))"

fun accept_round :: "poll_answer \<Rightarrow> server \<Rightarrow> pool \<Rightarrow> server \<times> pool" where
  "accept_round (Poll_Failed error) sv p =
     (sv, p\<lparr>po_closing := True,
       po_result := failure IoError (''the listening socket became unreadable: '' @ error)\<rparr>)"
| "accept_round Poll_Idle sv p =
     (if sv_stop_after_batches sv > 0 \<and> unat (ss_batches_applied (sv_stats sv)) \<ge> sv_stop_after_batches sv
      then (sv, p\<lparr>po_closing := True\<rparr>) else (sv, p))"
| "accept_round (Poll_Lost stop) sv p = (if stop then (sv, p\<lparr>po_closing := True\<rparr>) else (sv, p))"
| "accept_round (Poll_Connection conn) sv p =
     (if length (po_queue p) \<ge> po_size p then (snd (reject_connection conn sv), p)
      else (sv, p\<lparr>po_queue := po_queue p @ [conn]\<rparr>))"

text \<open>The front of the queue, for a worker that is free.\<close>

definition take_connection :: "pool \<Rightarrow> (socket \<times> pool) option" where
  "take_connection p =
     (case po_queue p of
        [] \<Rightarrow> None
      | conn # queue \<Rightarrow>
          if length (po_active p) < po_size p
          then Some (conn, p\<lparr>po_queue := queue, po_active := conn # po_active p\<rparr>) else None)"

definition finish_connection :: "socket \<Rightarrow> pool \<Rightarrow> pool" where
  "finish_connection conn p = p\<lparr>po_active := remove1 conn (po_active p)\<rparr>"

datatype pool_action = Round poll_answer | Stop_Seen | Took socket | Finished socket

inductive pool_step :: "server \<times> pool \<Rightarrow> pool_action \<Rightarrow> server \<times> pool \<Rightarrow> bool" where
  pool_round: "\<not> po_closing p \<Longrightarrow> accept_round answer sv p = (sv', p') \<Longrightarrow>
    pool_step (sv, p) (Round answer) (sv', p')"
| pool_stop: "\<not> po_closing p \<Longrightarrow> pool_step (sv, p) Stop_Seen (sv, p\<lparr>po_closing := True\<rparr>)"
| pool_take: "take_connection p = Some (conn, p') \<Longrightarrow> pool_step (sv, p) (Took conn) (sv, p')"
| pool_finish: "conn \<in> set (po_active p) \<Longrightarrow>
    pool_step (sv, p) (Finished conn) (sv, finish_connection conn p)"

inductive pool_run :: "server \<times> pool \<Rightarrow> pool_action list \<Rightarrow> server \<times> pool \<Rightarrow> bool" where
  pool_nil: "pool_run s [] s"
| pool_snoc: "pool_run s as s' \<Longrightarrow> pool_step s' a s'' \<Longrightarrow> pool_run s (as @ [a]) s''"

inductive_cases pool_stepE: "pool_step s a s'"

end
