(* ===== verification/Client.thy ===== *)
theory Client
  imports Server
begin

text \<open>
  The ingest client (\<^verbatim>\<open>src/transport/Client.cpp\<close>): the handshake, the exchange of a batch for a reply,
  the status request and the farewell. Whether the connection is established is external.
\<close>

record client =
  cl_limits :: transport_limits
  cl_connection :: socket
  cl_reader :: frame_reader
  cl_welcome :: string

definition new_client :: client where
  "new_client =
     \<lparr>cl_limits = default_transport_limits, cl_connection = close_socket (new_socket [] [] []),
      cl_reader = new_frame_reader default_transport_limits, cl_welcome = []\<rparr>"

definition send_frame :: "frame_type \<Rightarrow> string \<Rightarrow> client \<Rightarrow> status \<times> client" where
  "send_frame type payload c =
     (case encode_frame (frame_of type payload) (cl_limits c) of
        Inl status \<Rightarrow> (status, c)
      | Inr encoded \<Rightarrow>
          case send_all encoded (cl_connection c) of (status, conn) \<Rightarrow> (status, c\<lparr>cl_connection := conn\<rparr>))"

function receive_loop :: "frame_reader \<Rightarrow> socket \<Rightarrow> net_frame result \<times> frame_reader \<times> socket" where
  "receive_loop reader conn =
     (case reader_next reader of (status, produced, reader1) \<Rightarrow>
        if \<not> status_ok status then (Inl status, reader1, conn)
        else case produced of
          Some frame \<Rightarrow> (Inr frame, reader1, conn)
        | None \<Rightarrow>
            case receive kReceiveBytes conn of (status, bytes, conn1) \<Rightarrow>
              if \<not> status_ok status then (Inl status, reader1, conn1)
              else if bytes = []
              then (Inl (failure IoError ''the server closed the connection before sending a complete frame''),
                reader1, conn1)
              else case reader_append bytes reader1 of (status, reader2) \<Rightarrow>
                if \<not> status_ok status then (Inl status, reader2, conn1)
                else receive_loop reader2 conn1)"
  by pat_completeness auto
termination
  by (relation "measure (\<lambda>(reader, conn). recv_load conn)")
    (auto dest!: sym [of _ "receive _ _"] dest: receive_shrinks)

declare receive_loop.simps [simp del]

definition receive_frame :: "client \<Rightarrow> net_frame result \<times> client" where
  "receive_frame c =
     (case receive_loop (cl_reader c) (cl_connection c) of (r, reader, conn) \<Rightarrow>
        (r, c\<lparr>cl_reader := reader, cl_connection := conn\<rparr>))"

definition hello_calls :: "string \<Rightarrow> write_op list" where
  "hello_calls client_name =
     [member_string ''client'' client_name,
      member_u64 ''wire_version'' kWireFormatVersion,
      member_string ''client_version'' kVersionString]"

text \<open>A request and the frame that answers it.\<close>

definition exchange :: "frame_type \<Rightarrow> string \<Rightarrow> client \<Rightarrow> net_frame result \<times> client" where
  "exchange type payload c =
     (case send_frame type payload c of (status, c1) \<Rightarrow>
        if \<not> status_ok status then (Inl status, c1) else receive_frame c1)"

definition connect_to :: "socket result \<Rightarrow> string \<Rightarrow> client \<Rightarrow> status \<times> client" where
  "connect_to outcome client_name c =
     (if \<not> status_ok (validate_transport_limits (cl_limits c)) then (validate_transport_limits (cl_limits c), c)
      else case outcome of
        Inl status \<Rightarrow> (status, c)
      | Inr connection \<Rightarrow>
          (let c1 = c\<lparr>cl_connection := connection, cl_reader := new_frame_reader (cl_limits c)\<rparr> in
           case written (write_object (hello_calls client_name)) of
             Inl status \<Rightarrow> (status, c1)
           | Inr payload \<Rightarrow>
               case exchange Hello payload c1 of
                 (Inl status, c2) \<Rightarrow> (status, c2)
               | (Inr welcome, c2) \<Rightarrow>
                   if nf_type welcome \<noteq> Welcome
                   then (failure Internal ''the server did not answer the handshake with a welcome frame'', c2)
                   else (success, c2\<lparr>cl_welcome := nf_payload welcome\<rparr>)))"

section \<open>Batches\<close>

definition read_u64 :: "'d json \<Rightarrow> string \<Rightarrow> u64" where
  "read_u64 object key =
     (case json_find object key of
        Some (JUint v) \<Rightarrow> v
      | Some (JInt v) \<Rightarrow> if v \<ge> 0 then u64_of_i64 v else 0
      | _ \<Rightarrow> 0)"

definition read_size :: "'d json \<Rightarrow> string \<Rightarrow> nat" where
  "read_size object key = unat (read_u64 object key)"

definition read_text :: "'d json \<Rightarrow> string \<Rightarrow> string" where
  "read_text object key = (case json_find object key of Some (JString t) \<Rightarrow> t | _ \<Rightarrow> [])"

definition reply_of_json :: "'d json \<Rightarrow> batch_reply" where
  "reply_of_json object =
     \<lparr>br_ticket = read_u64 object ''ticket'',
      br_report =
        \<lparr>ir_decode = empty_outcome\<lparr>do_lines := read_size object ''lines'',
           do_sample_count := read_size object ''samples_decoded'',
           do_metadata_records := read_size object ''metadata_records'',
           do_malformed := read_size object ''malformed'',
           do_unsupported := read_size object ''unsupported'',
           do_version_mismatches := read_size object ''version_mismatches''\<rparr>,
         ir_admission = empty_batch\<lparr>ba_presented := read_size object ''presented'',
           ba_accepted := read_size object ''accepted'',
           ba_rejected := read_size object ''rejected'',
           ba_fenced := read_size object ''fenced'',
           ba_duplicates := read_size object ''duplicates'',
           ba_queues_created := read_size object ''queues_created''\<rparr>,
         ir_accepted = (case json_find object ''applied'' of Some (JBool b) \<Rightarrow> b | _ \<Rightarrow> False)\<rparr>,
      br_error_code = read_text object ''error_code'',
      br_error_message = read_text object ''error_message''\<rparr>"

definition read_batch_result :: "'d doubles \<Rightarrow> net_frame \<Rightarrow> batch_reply result" where
  "read_batch_result lib response =
     (if nf_type response = Frame_Error
      then Inl (failure Internal (''the server rejected the batch frame: '' @ nf_payload response))
      else if nf_type response \<noteq> BatchResult
      then Inl (failure Internal ''the server answered a batch frame with an unexpected frame type'')
      else case parse_json (nf_payload response) default_json_limits lib of
        Inl _ \<Rightarrow> Inl (failure ParseError ''the batch result frame carries an unreadable payload'')
      | Inr object \<Rightarrow> Inr (reply_of_json object))"

definition send_batch :: "'d doubles \<Rightarrow> string \<Rightarrow> client \<Rightarrow> status \<times> batch_reply \<times> client" where
  "send_batch lib document c =
     (if length document > max_frame_bytes (cl_limits c)
      then (failure LimitExceeded ''the document exceeds the configured frame size'', empty_reply, c)
      else case exchange Batch document c of
        (Inl status, c1) \<Rightarrow> (status, empty_reply, c1)
      | (Inr response, c1) \<Rightarrow>
          case read_batch_result lib response of
            Inl status \<Rightarrow> (status, empty_reply, c1)
          | Inr reply \<Rightarrow> (success, reply, c1))"

definition request_status :: "client \<Rightarrow> string result \<times> client" where
  "request_status c =
     (case exchange StatusRequest [] c of
        (Inl status, c1) \<Rightarrow> (Inl status, c1)
      | (Inr response, c1) \<Rightarrow>
          if nf_type response \<noteq> StatusReply
          then (Inl (failure Internal ''the server answered a status request with an unexpected frame type''), c1)
          else (Inr (nf_payload response), c1))"

definition close_client :: "client \<Rightarrow> client" where
  "close_client c =
     (if \<not> so_open (cl_connection c) then c
      else case send_frame Bye [] c of (ignored, c1) \<Rightarrow> c1\<lparr>cl_connection := close_socket (cl_connection c1)\<rparr>)"

end
