(* ===== verification/Transport_Properties.thy ===== *)
theory Transport_Properties
  imports Client Observatory_Properties "HOL-Library.Sublist"
begin

text \<open>
  What the transport promises: the server answers the frames of a stream in their order, however the
  network cuts the stream into pieces; the client reads the reply that the server wrote; the queue of
  connections is bounded and loses nobody.
\<close>

section \<open>The stream of a connection\<close>

definition stream_of :: "net_frame list \<Rightarrow> u8 list" where
  "stream_of fs = concat (map frame_bytes fs)"

lemma stream_of_simps [simp]:
  "stream_of [] = []" "stream_of (f # fs) = frame_bytes f @ stream_of fs"
  by (simp_all add: stream_of_def)

text \<open>The frames one after the other, until one of them ends the connection.\<close>

fun serve_frames ::
    "'d doubles \<Rightarrow> net_frame list \<Rightarrow> socket \<Rightarrow> server \<Rightarrow> (status \<times> socket \<times> server) + (socket \<times> server)" where
  "serve_frames lib [] conn sv = Inr (conn, sv)"
| "serve_frames lib (f # fs) conn sv =
     (case handle_frame lib f conn (count_frame sv) of (status, keep, conn', sv') \<Rightarrow>
        if \<not> status_ok status then Inl (status, conn', sv') else serve_frames lib fs conn' sv')"

lemma serve_frames_append:
  "serve_frames lib (fs @ gs) conn sv =
     (case serve_frames lib fs conn sv of Inl r \<Rightarrow> Inl r | Inr (conn', sv') \<Rightarrow> serve_frames lib gs conn' sv')"
  by (induction fs arbitrary: conn sv) (auto split: prod.splits)

lemma handle_frame_bye: "handle_frame lib f conn sv = (status, keep, conn', sv') \<Longrightarrow> keep \<longleftrightarrow> nf_type f \<noteq> Bye"
  by (auto simp: handle_frame.simps handle_hello_def handle_batch_def handle_status_request_def
      handle_unexpected_def split: frame_type.splits sum.splits prod.splits)

text \<open>What remains in the buffer once its complete frames are taken: a part of the next frame.\<close>

definition waiting_for :: "net_frame list \<Rightarrow> u8 list \<Rightarrow> bool" where
  "waiting_for fs b \<longleftrightarrow> (case fs of [] \<Rightarrow> b = [] | f # _ \<Rightarrow> length b < length (frame_bytes f))"

lemma prefix_split:
  assumes "b @ rest = c @ d"
  shows "(length b < length c \<and> (\<exists>q. c = b @ q \<and> q \<noteq> [])) \<or> (\<exists>b'. b = c @ b' \<and> b' @ rest = d)"
  using assms by (fastforce simp: append_eq_append_conv2)

lemma reader_rebuffer: "r\<lparr>fr_buffer := a, fr_buffer := b\<rparr> = r\<lparr>fr_buffer := b\<rparr>"
  by simp

lemma drain_frames_stream:
  assumes "fr_buffer reader @ rest = stream_of fs" "\<forall>f\<in>set fs. frame_fits (fr_limits reader) f"
  shows "\<exists>fs1 fs2 b. fs = fs1 @ fs2 \<and> b @ rest = stream_of fs2 \<and> waiting_for fs2 b \<and>
    drain_frames lib keep_going reader conn sv =
      (case serve_frames lib fs1 conn sv of
         Inl r \<Rightarrow> Inl r
       | Inr (conn', sv') \<Rightarrow>
           Inr (keep_going \<and> Bye \<notin> nf_type ` set fs1, reader\<lparr>fr_buffer := b\<rparr>, conn', sv'))"
  using assms
proof (induction fs arbitrary: reader keep_going conn sv)
  case Nil
  then have "fr_buffer reader = []" by simp
  then have "drain_frames lib keep_going reader conn sv = Inr (keep_going, reader\<lparr>fr_buffer := []\<rparr>, conn, sv)"
    by (simp add: drain_frames.simps reader_next_def)
  then show ?case using Nil by (auto intro!: exI [of _ "[]"] simp: waiting_for_def)
next
  case (Cons f fs)
  have fits: "frame_fits (fr_limits reader) f" using Cons.prems by simp
  have split: "fr_buffer reader @ rest = frame_bytes f @ stream_of fs" using Cons.prems(1) by simp
  from prefix_split [OF split] show ?case
  proof
    assume "length (fr_buffer reader) < length (frame_bytes f) \<and> (\<exists>q. frame_bytes f = fr_buffer reader @ q \<and> q \<noteq> [])"
    then obtain q where q: "frame_bytes f = fr_buffer reader @ q" "q \<noteq> []" by blast
    have "drain_frames lib keep_going reader conn sv = Inr (keep_going, reader\<lparr>fr_buffer := fr_buffer reader\<rparr>, conn, sv)"
      by (simp add: drain_frames.simps reader_next_waits [OF fits q])
    then show ?thesis
      using Cons.prems(1) q
      by (intro exI [of _ "[]"] exI [of _ "f # fs"] exI [of _ "fr_buffer reader"]) (simp add: waiting_for_def)
  next
    assume "\<exists>b'. fr_buffer reader = frame_bytes f @ b' \<and> b' @ rest = stream_of fs"
    then obtain b' where b': "fr_buffer reader = frame_bytes f @ b'" "b' @ rest = stream_of fs" by blast
    obtain status keep conn1 sv1 where
      handled: "handle_frame lib f conn (count_frame sv) = (status, keep, conn1, sv1)" by (metis prod_cases4)
    have keep: "keep \<longleftrightarrow> nf_type f \<noteq> Bye" by (rule handle_frame_bye [OF handled])
    have step: "drain_frames lib keep_going reader conn sv =
        (if \<not> status_ok status then Inl (status, conn1, sv1)
         else drain_frames lib (keep_going \<and> keep) (reader\<lparr>fr_buffer := b'\<rparr>) conn1 sv1)"
      by (simp add: drain_frames.simps [of lib keep_going reader] reader_next_back [OF fits b'(1)] handled)
    have "\<forall>f\<in>set fs. frame_fits (fr_limits (reader\<lparr>fr_buffer := b'\<rparr>)) f" using Cons.prems(2) by simp
    from Cons.IH [of "reader\<lparr>fr_buffer := b'\<rparr>" "keep_going \<and> keep" conn1 sv1, OF _ this] b'(2) obtain fs1 fs2 b where
      ih: "fs = fs1 @ fs2" "b @ rest = stream_of fs2" "waiting_for fs2 b"
        "drain_frames lib (keep_going \<and> keep) (reader\<lparr>fr_buffer := b'\<rparr>) conn1 sv1 =
          (case serve_frames lib fs1 conn1 sv1 of
             Inl r \<Rightarrow> Inl r
           | Inr (conn', sv') \<Rightarrow>
               Inr ((keep_going \<and> keep) \<and> Bye \<notin> nf_type ` set fs1, reader\<lparr>fr_buffer := b\<rparr>, conn', sv'))"
      unfolding reader_rebuffer by auto
    show ?thesis
      by (rule exI [of _ "f # fs1"], rule exI [of _ fs2], rule exI [of _ b])
        (use ih in \<open>simp add: step handled keep eq_commute [of Bye] split: sum.splits\<close>)
  qed
qed

section \<open>Answers do not depend on what is still to come\<close>

text \<open>A socket without its future: what it sent and how it will answer a send.\<close>

abbreviation quiet :: "socket \<Rightarrow> socket" where
  "quiet s \<equiv> s\<lparr>so_recvs := []\<rparr>"

definition quiet_end :: "status \<times> socket \<times> server \<Rightarrow> status \<times> socket \<times> server" where
  "quiet_end r = (case r of (status, conn, sv) \<Rightarrow> (status, quiet conn, sv))"

lemma os_send_quiet: "os_send chunk (quiet s) = (case os_send chunk s of (r, s') \<Rightarrow> (r, quiet s'))"
  by (auto simp: os_send_def Let_def split: list.splits send_answer.splits)

lemma send_loop_quiet: "send_loop bytes (quiet s) = (case send_loop bytes s of (r, s') \<Rightarrow> (r, quiet s'))"
proof (induction bytes s rule: send_loop.induct)
  case (1 bytes s)
  obtain r s1 where r: "os_send (take kMaxTransfer bytes) s = (r, s1)" by fastforce
  show ?case
    using 1 r by (auto simp: send_loop.simps [of bytes s] send_loop.simps [of bytes "quiet s"] os_send_quiet
        split: option.splits)
qed

lemma send_reply_quiet:
  "send_reply type payload sv (quiet s) = (case send_reply type payload sv s of (r, s') \<Rightarrow> (r, quiet s'))"
  by (auto simp: send_reply_def send_all_def send_loop_quiet split: sum.splits)

lemma handle_frame_quiet:
  "handle_frame lib f (quiet conn) sv =
     (case handle_frame lib f conn sv of (status, keep, conn', sv') \<Rightarrow> (status, keep, quiet conn', sv'))"
  by (auto simp: handle_frame.simps handle_hello_def handle_batch_def handle_status_request_def
      handle_unexpected_def send_reply_quiet split: frame_type.splits sum.splits prod.splits)

lemma serve_frames_quiet:
  "serve_frames lib fs (quiet conn) sv =
     (case serve_frames lib fs conn sv of
        Inl r \<Rightarrow> Inl (quiet_end r)
      | Inr (conn', sv') \<Rightarrow> Inr (quiet conn', sv'))"
  by (induction fs arbitrary: conn sv) (auto simp: handle_frame_quiet quiet_end_def split: prod.splits)

lemma serve_frames_keeps:
  "serve_frames lib fs conn sv = Inr (conn', sv') \<Longrightarrow> so_recvs conn' = so_recvs conn \<and> so_open conn' = so_open conn"
  by (induction fs arbitrary: conn sv) (auto dest!: handle_frame_keeps split: prod.splits if_splits)

text \<open>The end of a connection whose stream was served.\<close>

definition served :: "(status \<times> socket \<times> server) + (socket \<times> server) \<Rightarrow> status \<times> socket \<times> server" where
  "served r = (case r of Inl done \<Rightarrow> done | Inr (conn, sv) \<Rightarrow> (success, conn, sv))"

definition bye_last :: "net_frame list \<Rightarrow> bool" where
  "bye_last fs \<longleftrightarrow> Bye \<notin> nf_type ` set (butlast fs)"

lemma bye_last_append: "bye_last (fs @ gs) \<Longrightarrow> bye_last gs \<and> (gs = [] \<or> Bye \<notin> nf_type ` set fs)"
  by (auto simp: bye_last_def butlast_append split: if_splits)

text \<open>The buffer has room for a frame and one more receive.\<close>

definition frame_room :: "transport_limits \<Rightarrow> net_frame \<Rightarrow> bool" where
  "frame_room limits f \<longleftrightarrow> frame_fits limits f \<and> length (frame_bytes f) + kReceiveBytes \<le> max_connection_buffer_bytes limits"

lemma append_room:
  assumes "frame_room (fr_limits reader) f" "length (fr_buffer reader) < length (frame_bytes f)" "length bytes \<le> kReceiveBytes"
  shows "reader_append bytes reader = (success, reader\<lparr>fr_buffer := fr_buffer reader @ bytes\<rparr>)"
proof -
  have "length (frame_bytes f) < 2 ^ 33" "kReceiveBytes < 2 ^ 20"
    using assms(1) by (simp_all add: frame_room_def frame_fits_def kFrameHeaderBytes_def kReceiveBytes_def)
  then have "length (fr_buffer reader) + length bytes < 2 ^ 64" using assms(2,3) by simp
  then show ?thesis using assms by (simp add: reader_append_eq frame_room_def)
qed

lemma connection_loop_stream:
  assumes "healthy conn" "fr_buffer reader @ incoming (so_recvs conn) = stream_of fs" "waiting_for fs (fr_buffer reader)"
    and "\<forall>f\<in>set fs. frame_room (fr_limits reader) f" "bye_last fs"
  shows "quiet_end (connection_loop lib True reader conn sv) = served (serve_frames lib fs (quiet conn) sv)"
  using assms
proof (induction "recv_load conn" arbitrary: reader conn sv fs rule: less_induct)
  case less
  obtain status bytes conn1 where rec: "receive kReceiveBytes conn = (status, bytes, conn1)" by (metis prod_cases3)
  have pos: "kReceiveBytes > 0" by (simp add: kReceiveBytes_def)
  note r = receive_healthy [OF less.prems(1) pos rec]
  have same: "quiet conn1 = quiet conn" using receive_keeps [OF rec] by simp
  show ?case
  proof (cases "bytes = []")
    case True
    then have "fr_buffer reader = stream_of fs" using r(3) less.prems(2) by simp
    then have "fs = []" using less.prems(3) by (auto simp: waiting_for_def split: list.splits)
    then show ?thesis
      using True r(1) same by (simp add: connection_loop.simps [of lib True] rec served_def quiet_end_def)
  next
    case False
    then have inc: "incoming (so_recvs conn) = bytes @ incoming (so_recvs conn1)" by (rule r(4))
    then obtain f fs' where fs: "fs = f # fs'" using less.prems(2) False by (cases fs) auto
    let ?reader = "reader\<lparr>fr_buffer := fr_buffer reader @ bytes\<rparr>"
    have app: "reader_append bytes reader = (success, ?reader)"
      using less.prems(3,4) receive_bounded [OF rec] by (intro append_room [of _ f]) (simp_all add: fs waiting_for_def)
    have "\<forall>f\<in>set fs. frame_fits (fr_limits ?reader) f" using less.prems(4) by (simp add: frame_room_def)
    moreover have "fr_buffer ?reader @ incoming (so_recvs conn1) = stream_of fs" using less.prems(2) inc by simp
    ultimately obtain fs1 fs2 b where split: "fs = fs1 @ fs2" "b @ incoming (so_recvs conn1) = stream_of fs2"
      "waiting_for fs2 b" and
      drain: "drain_frames lib True ?reader conn1 sv =
        (case serve_frames lib fs1 conn1 sv of
           Inl r \<Rightarrow> Inl r
         | Inr (conn', sv') \<Rightarrow>
             Inr (True \<and> Bye \<notin> nf_type ` set fs1, ?reader\<lparr>fr_buffer := b\<rparr>, conn', sv'))"
      using drain_frames_stream [of ?reader "incoming (so_recvs conn1)" fs lib True conn1 sv] by blast
    have loop: "connection_loop lib True reader conn sv =
        (case drain_frames lib True ?reader conn1 sv of
           Inl result \<Rightarrow> result
         | Inr (keep, reader2, conn2, sv2) \<Rightarrow> connection_loop lib keep reader2 conn2 sv2)"
      using False r(1) by (simp add: connection_loop.simps [of lib True reader conn] rec app)
    have start: "serve_frames lib fs (quiet conn) sv =
        (case serve_frames lib fs1 conn1 sv of
           Inl r \<Rightarrow> Inl (quiet_end r)
         | Inr (conn2, sv2) \<Rightarrow> serve_frames lib fs2 (quiet conn2) sv2)"
      by (simp add: split(1) serve_frames_append same [symmetric] serve_frames_quiet [of lib fs1] split: sum.splits prod.splits)
    show ?thesis
    proof (cases "serve_frames lib fs1 conn1 sv")
      case (Inl e)
      then show ?thesis by (simp add: loop drain start served_def)
    next
      case (Inr p)
      then obtain conn2 sv2 where p: "serve_frames lib fs1 conn1 sv = Inr (conn2, sv2)" by (cases p) auto
      note keeps = serve_frames_keeps [OF p]
      show ?thesis
      proof (cases "Bye \<in> nf_type ` set fs1")
        case True
        then have "fs2 = []" using bye_last_append less.prems(5) by (auto simp: split(1))
        then show ?thesis
          using True by (simp add: loop drain start p served_def quiet_end_def connection_loop.simps [of lib False])
      next
        case False
        have "recv_load conn2 < recv_load conn"
          using receive_shrinks [OF rec \<open>bytes \<noteq> []\<close>] keeps by (simp add: recv_load_def)
        moreover have "healthy conn2" "bye_last fs2"
          using r(2) keeps less.prems(5) bye_last_append by (auto simp: healthy_def split(1))
        ultimately have "quiet_end (connection_loop lib True (?reader\<lparr>fr_buffer := b\<rparr>) conn2 sv2) =
            served (serve_frames lib fs2 (quiet conn2) sv2)"
          using split less.prems(4) keeps by (intro less.hyps) (auto simp: split(1))
        then show ?thesis using False by (simp add: loop drain start p)
      qed
    qed
  qed
qed

lemma handle_connection_stream:
  assumes "healthy conn" "incoming (so_recvs conn) = stream_of fs" "\<forall>f\<in>set fs. frame_room (sv_limits sv) f" "bye_last fs"
  shows "quiet_end (handle_connection lib conn sv) = served (serve_frames lib fs (quiet conn) (count_accepted sv))"
  unfolding handle_connection_def
  by (rule connection_loop_stream)
    (use assms in \<open>simp_all add: new_frame_reader_def waiting_for_def frame_bytes_def le_bytes_def split: list.splits\<close>)

text \<open>A piece that holds complete frames only.\<close>

lemma drain_frames_all:
  assumes "fr_buffer reader = stream_of fs" "\<forall>f\<in>set fs. frame_fits (fr_limits reader) f"
  shows "drain_frames lib keep_going reader conn sv =
    (case serve_frames lib fs conn sv of
       Inl r \<Rightarrow> Inl r
     | Inr (conn', sv') \<Rightarrow> Inr (keep_going \<and> Bye \<notin> nf_type ` set fs, reader\<lparr>fr_buffer := []\<rparr>, conn', sv'))"
proof -
  have "fr_buffer reader @ [] = stream_of fs" using assms(1) by simp
  from drain_frames_stream [OF this assms(2), of lib keep_going conn sv] obtain fs1 fs2 b where
    part: "fs = fs1 @ fs2" "b = stream_of fs2" "waiting_for fs2 b" and
    drain: "drain_frames lib keep_going reader conn sv =
      (case serve_frames lib fs1 conn sv of
         Inl r \<Rightarrow> Inl r
       | Inr (conn', sv') \<Rightarrow> Inr (keep_going \<and> Bye \<notin> nf_type ` set fs1, reader\<lparr>fr_buffer := b\<rparr>, conn', sv'))"
    by auto
  have "fs2 = []" using part(2,3) by (auto simp: waiting_for_def split: list.splits)
  then have "b = []" "fs1 = fs" using part by simp_all
  then show ?thesis using drain by (simp only:)
qed

lemma connection_loop_piece:
  assumes "so_open conn" "so_recvs conn = Recv_Bytes (stream_of fs) # later" "stream_of fs \<noteq> []"
    and "length (stream_of fs) \<le> kReceiveBytes" "length (stream_of fs) \<le> max_connection_buffer_bytes (fr_limits reader)"
    and "fr_buffer reader = []" "\<forall>f\<in>set fs. frame_fits (fr_limits reader) f"
  shows "connection_loop lib True reader conn sv =
    (case serve_frames lib fs (conn\<lparr>so_recvs := later\<rparr>) sv of
       Inl r \<Rightarrow> r
     | Inr (conn', sv') \<Rightarrow> connection_loop lib (Bye \<notin> nf_type ` set fs) reader conn' sv')"
proof -
  let ?reader = "reader\<lparr>fr_buffer := stream_of fs\<rparr>"
  have "receive kReceiveBytes conn = (success, stream_of fs, conn\<lparr>so_recvs := later\<rparr>)"
    using assms(1,2,4) by (simp add: receive_def os_recv_def kReceiveBytes_def kMaxTransfer_def)
  moreover have "reader_append (stream_of fs) reader = (success, ?reader)"
    using assms(4,5,6) by (simp add: reader_append_eq kReceiveBytes_def)
  moreover have "?reader\<lparr>fr_buffer := []\<rparr> = reader" using assms(6) by simp
  ultimately show ?thesis
    using assms(3,7) drain_frames_all [of ?reader fs lib True]
    by (simp add: connection_loop.simps [of lib True reader conn] split: sum.splits)
qed

section \<open>The client waits for a frame\<close>

lemma receive_loop_stream:
  assumes "healthy conn" "fr_buffer reader @ incoming (so_recvs conn) = frame_bytes f @ rest" "frame_room (fr_limits reader) f"
  shows "\<exists>reader' conn'. receive_loop reader conn = (Inr f, reader', conn')
    \<and> fr_buffer reader' @ incoming (so_recvs conn') = rest \<and> fr_limits reader' = fr_limits reader
    \<and> healthy conn' \<and> so_sent conn' = so_sent conn \<and> so_sends conn' = so_sends conn"
  using assms
proof (induction "recv_load conn" arbitrary: reader conn rule: less_induct)
  case less
  have fits: "frame_fits (fr_limits reader) f" using less.prems(3) by (simp add: frame_room_def)
  from prefix_split [OF less.prems(2)] show ?case
  proof
    assume "\<exists>b'. fr_buffer reader = frame_bytes f @ b' \<and> b' @ incoming (so_recvs conn) = rest"
    then obtain b' where b': "fr_buffer reader = frame_bytes f @ b'" "b' @ incoming (so_recvs conn) = rest" by blast
    have "receive_loop reader conn = (Inr f, reader\<lparr>fr_buffer := b'\<rparr>, conn)"
      by (simp add: receive_loop.simps reader_next_back [OF fits b'(1)])
    then show ?thesis using b'(2) less.prems(1) by simp
  next
    assume "length (fr_buffer reader) < length (frame_bytes f) \<and> (\<exists>q. frame_bytes f = fr_buffer reader @ q \<and> q \<noteq> [])"
    then obtain q where q: "frame_bytes f = fr_buffer reader @ q" "q \<noteq> []"
      and short: "length (fr_buffer reader) < length (frame_bytes f)" by blast
    obtain status bytes conn1 where rec: "receive kReceiveBytes conn = (status, bytes, conn1)" by (metis prod_cases3)
    have pos: "kReceiveBytes > 0" by (simp add: kReceiveBytes_def)
    note r = receive_healthy [OF less.prems(1) pos rec]
    have "incoming (so_recvs conn) = q @ rest" using less.prems(2) by (simp add: q(1))
    then have some: "bytes \<noteq> []" using r(3) q(2) by simp
    let ?reader = "reader\<lparr>fr_buffer := fr_buffer reader @ bytes\<rparr>"
    have loop: "receive_loop reader conn = receive_loop ?reader conn1"
      using r(1) some append_room [OF less.prems(3) short receive_bounded [OF rec]]
      by (simp add: receive_loop.simps [of reader conn] reader_next_waits [OF fits q] rec)
    have "\<exists>reader' conn'. receive_loop ?reader conn1 = (Inr f, reader', conn')
        \<and> fr_buffer reader' @ incoming (so_recvs conn') = rest \<and> fr_limits reader' = fr_limits ?reader
        \<and> healthy conn' \<and> so_sent conn' = so_sent conn1 \<and> so_sends conn' = so_sends conn1"
      using less.prems r(2) r(4) [OF some] receive_shrinks [OF rec some] by (intro less.hyps) simp_all
    then show ?thesis unfolding loop using receive_keeps [OF rec] by simp
  qed
qed

section \<open>The queue of connections\<close>

definition offered :: "pool_action list \<Rightarrow> socket list" where
  "offered as = concat (map (\<lambda>a. case a of Round (Poll_Connection c) \<Rightarrow> [c] | _ \<Rightarrow> []) as)"

definition taken :: "pool_action list \<Rightarrow> socket list" where
  "taken as = concat (map (\<lambda>a. case a of Took c \<Rightarrow> [c] | _ \<Rightarrow> []) as)"

definition pool_ok :: "server \<Rightarrow> pool_action list \<Rightarrow> server \<times> pool \<Rightarrow> bool" where
  "pool_ok sv0 as s \<longleftrightarrow>
     (case s of (sv, p) \<Rightarrow>
        po_size p = pool_size (sv_limits sv0) \<and> length (po_queue p) \<le> po_size p \<and> length (po_active p) \<le> po_size p
        \<and> subseq (taken as @ po_queue p) (offered as)
        \<and> ss_connections_rejected (sv_stats sv) + of_nat (length (taken as)) + of_nat (length (po_queue p)) =
          ss_connections_rejected (sv_stats sv0) + of_nat (length (offered as)))"

lemma subseq_append_one: "subseq xs ys \<Longrightarrow> subseq (xs @ [c]) (ys @ [c])" "subseq xs ys \<Longrightarrow> subseq xs (ys @ [c])"
  by (simp_all add: subseq_rev_drop_many)

lemma pool_ok_step:
  assumes "pool_ok sv0 as s" "pool_step s a s'"
  shows "pool_ok sv0 (as @ [a]) s'"
  using assms(2)
proof (cases rule: pool_step.cases)
  case (pool_round p answer sv sv' p')
  then show ?thesis
    using assms(1) subseq_append_one(1) [of "taken as @ po_queue p" "offered as"]
    by (cases answer) (auto simp: pool_ok_def offered_def taken_def reject_connection_def
        count_rejected_connection_def Let_def algebra_simps split: if_splits)
next
  case (pool_take p conn p' sv)
  then show ?thesis
    using assms(1) by (auto simp: pool_ok_def offered_def taken_def take_connection_def algebra_simps
        split: list.splits if_splits)
next
  case (pool_finish conn p sv)
  then show ?thesis
    using assms(1) by (auto simp: pool_ok_def offered_def taken_def finish_connection_def length_remove1)
qed (use assms(1) in \<open>auto simp: pool_ok_def offered_def taken_def\<close>)

lemma pool_ok_run: "pool_run s as s' \<Longrightarrow> pool_ok sv0 [] s \<Longrightarrow> pool_ok sv0 as s'"
  by (induction rule: pool_run.induct) (auto intro: pool_ok_step)

section \<open>Properties\<close>

text \<open>C17: The server is indifferent to the network. However a stream of frames in which nothing follows a
  farewell is cut into pieces, the server answers its frames one after the other in their order, as if
  each had arrived alone: the same replies are sent, and the same batches are applied to the runtime. The
  connection is open and its receives do not fail, and the connection buffer has room for each frame and
  one more receive.\<close>

theorem connection_serves_in_order:
  assumes "healthy conn" "list_all2 (\<lambda>f bs. encode_frame f (sv_limits sv) = Inr bs) fs encoded"
    and "incoming (so_recvs conn) = concat encoded" "bye_last fs"
    and "\<forall>f\<in>set fs. length (nf_payload f) < 2 ^ 32
      \<and> length (nf_payload f) + kFrameHeaderBytes + kReceiveBytes \<le> max_connection_buffer_bytes (sv_limits sv)"
  shows "quiet_end (handle_connection lib conn sv) = served (serve_frames lib fs (quiet conn) (count_accepted sv))"
proof -
  have "concat encoded = stream_of fs" "\<forall>f\<in>set fs. frame_room (sv_limits sv) f"
    using assms(2,5)
    by (induction fs encoded rule: list_all2_induct)
      (auto simp: encode_frame_ok frame_room_def frame_fits_def)
  then show ?thesis using assms(1,3,4) by (intro handle_connection_stream) simp_all
qed

text \<open>What follows a farewell depends on the network. When the frame after a \<^verbatim>\<open>Bye\<close> arrives in the same
  piece it is still answered; when it arrives in the next piece it is ignored.\<close>

theorem frame_after_bye_depends_on_pieces:
  assumes "encode_frame bye (sv_limits sv) = Inr bs" "encode_frame f (sv_limits sv) = Inr cs"
    and "nf_type bye = Bye" "length (bs @ cs) \<le> kReceiveBytes" "length (bs @ cs) \<le> max_connection_buffer_bytes (sv_limits sv)"
    and "so_open conn" "so_recvs conn = [Recv_Bytes (bs @ cs)]" "so_open conn'" "so_recvs conn' = [Recv_Bytes bs, Recv_Bytes cs]"
  shows "snd (snd (handle_connection lib conn sv)) =
      snd (snd (served (serve_frames lib [bye, f] (quiet conn) (count_accepted sv))))
    \<and> snd (snd (handle_connection lib conn' sv)) = count_frame (count_accepted sv)"
proof -
  let ?r = "new_frame_reader (sv_limits sv)"
  have small: "length (nf_payload bye) < 2 ^ 32" "length (nf_payload f) < 2 ^ 32"
    using assms(1,2,4) by (auto simp: encode_frame_ok kReceiveBytes_def)
  have fits: "frame_fits (sv_limits sv) bye" "frame_fits (sv_limits sv) f" "bs = frame_bytes bye" "cs = frame_bytes f"
    using assms(1,2) small by (simp_all add: encode_frame_ok frame_fits_def)
  have some: "frame_bytes bye \<noteq> []" by (simp add: frame_bytes_def le_bytes_def)
  have "connection_loop lib True ?r conn (count_accepted sv) = served (serve_frames lib [bye, f] (quiet conn) (count_accepted sv))"
    using assms(3-7) fits some
    by (subst connection_loop_piece [of conn "[bye, f]" "[]"])
      (simp_all add: new_frame_reader_def served_def connection_loop.simps [of lib False] del: serve_frames.simps split: sum.splits)
  moreover have "connection_loop lib True ?r conn' (count_accepted sv) =
      (success, conn'\<lparr>so_recvs := [Recv_Bytes cs]\<rparr>, count_frame (count_accepted sv))"
    using assms(3-5,8,9) fits some
    by (subst connection_loop_piece [of conn' "[bye]" "[Recv_Bytes cs]"])
      (simp_all add: new_frame_reader_def connection_loop.simps [of lib False] handle_frame.simps)
  ultimately show ?thesis by (simp add: handle_connection_def)
qed

text \<open>C19: The queue of connections never grows past the size of the pool, and never more connections are
  served at once than that. Connections are served in the order in which they arrived, and each of them
  was served, is still in the queue, or was refused and counted.\<close>

theorem connections_bounded_and_accounted:
  assumes "start_serving sv = (success, p)" "sv_listening sv" "pool_run (sv, p) as (sv', p')"
  shows "length (po_queue p') \<le> pool_size (sv_limits sv) \<and> length (po_active p') \<le> pool_size (sv_limits sv)
    \<and> subseq (taken as @ po_queue p') (offered as)
    \<and> ss_connections_rejected (sv_stats sv') + of_nat (length (taken as)) + of_nat (length (po_queue p')) =
      ss_connections_rejected (sv_stats sv) + of_nat (length (offered as))"
proof -
  have "pool_ok sv [] (sv, p)"
    using assms(1,2) by (auto simp: start_serving_def pool_ok_def offered_def taken_def)
  then show ?thesis using pool_ok_run [OF assms(3)] by (fastforce simp: pool_ok_def)
qed

section \<open>Witnesses\<close>

definition demo_server :: server where
  "demo_server = new_server (demo_observatory 0) default_transport_limits"

lemma demo_server_limits: "sv_limits demo_server = default_transport_limits"
  by (simp add: demo_server_def new_server_def)

lemma default_sizes:
  "max_frame_bytes default_transport_limits = 8 * 1024 * 1024"
  "max_connection_buffer_bytes default_transport_limits = 16 * 1024 * 1024"
  by (simp_all add: default_transport_limits_def)

lemma default_frame_room:
  assumes "length payload \<le> 32768"
  shows "frame_room default_transport_limits (frame_of type payload)"
  using assms default_sizes default_limits_valid(6)
  by (simp add: frame_room_def frame_fits_def frame_of_def kFrameHeaderBytes_def kReceiveBytes_def)

lemma demo_encodes:
  "encode_frame (frame_of type []) (sv_limits demo_server) = Inr (frame_bytes (frame_of type []))"
  unfolding demo_server_limits by (rule default_encodes) simp

theorem connection_serves_in_order_witness:
  "\<exists>conn. incoming (so_recvs conn) = frame_bytes (frame_of Hello []) @ frame_bytes (frame_of Bye [])
    \<and> quiet_end (handle_connection no_doubles conn demo_server) =
      served (serve_frames no_doubles [frame_of Hello [], frame_of Bye []] (quiet conn) (count_accepted demo_server))"
proof -
  let ?s = "frame_bytes (frame_of Hello []) @ frame_bytes (frame_of Bye [])"
  define conn where "conn = new_socket [] (map (\<lambda>b. Recv_Bytes [b]) ?s) []"
  have single: "incoming (map (\<lambda>b. Recv_Bytes [b]) bs) = bs" for bs by (induction bs) simp_all
  have ok: "healthy conn" by (auto simp: conn_def new_socket_def healthy_def)
  have inc: "incoming (so_recvs conn) = concat [frame_bytes (frame_of Hello []), frame_bytes (frame_of Bye [])]"
    using single [of ?s] by (simp add: conn_def new_socket_def)
  have last: "bye_last [frame_of Hello [], frame_of Bye []]" by (simp add: bye_last_def frame_of_def empty_frame_def)
  have enc: "list_all2 (\<lambda>f bs. encode_frame f (sv_limits demo_server) = Inr bs)
      [frame_of Hello [], frame_of Bye []] [frame_bytes (frame_of Hello []), frame_bytes (frame_of Bye [])]"
    by (simp add: demo_encodes)
  have "quiet_end (handle_connection no_doubles conn demo_server) =
      served (serve_frames no_doubles [frame_of Hello [], frame_of Bye []] (quiet conn) (count_accepted demo_server))"
    by (rule connection_serves_in_order [OF ok enc inc last])
      (use default_sizes in \<open>simp add: demo_server_limits frame_of_def kFrameHeaderBytes_def kReceiveBytes_def\<close>)
  then show ?thesis using inc by auto
qed

theorem frame_after_bye_depends_on_pieces_witness:
  "\<exists>conn conn'. incoming (so_recvs conn) = incoming (so_recvs conn')
    \<and> ss_frames_received (sv_stats (snd (snd (handle_connection no_doubles conn demo_server)))) = 2
    \<and> ss_frames_received (sv_stats (snd (snd (handle_connection no_doubles conn' demo_server)))) = 1"
proof -
  let ?b = "frame_bytes (frame_of Bye [])"
  define conn where "conn = new_socket [] [Recv_Bytes (?b @ ?b)] []"
  define conn' where "conn' = new_socket [] [Recv_Bytes ?b, Recv_Bytes ?b] []"
  have "length (?b @ ?b) \<le> kReceiveBytes" "length (?b @ ?b) \<le> max_connection_buffer_bytes (sv_limits demo_server)"
    using default_sizes by (simp_all add: demo_server_limits frame_of_def kFrameHeaderBytes_def kReceiveBytes_def)
  from frame_after_bye_depends_on_pieces [OF demo_encodes demo_encodes _ this, of conn conn' no_doubles]
  have "snd (snd (handle_connection no_doubles conn demo_server)) =
      snd (snd (served (serve_frames no_doubles [frame_of Bye [], frame_of Bye []] (quiet conn) (count_accepted demo_server))))
    \<and> snd (snd (handle_connection no_doubles conn' demo_server)) = count_frame (count_accepted demo_server)"
    by (simp add: conn_def conn'_def new_socket_def frame_of_def)
  moreover have "incoming (so_recvs conn) = incoming (so_recvs conn')"
    by (simp add: conn_def conn'_def new_socket_def frame_bytes_def le_bytes_def)
  ultimately show ?thesis
    by (intro exI [of _ conn] exI [of _ conn'])
      (simp add: served_def handle_frame.simps frame_of_def empty_frame_def count_frame_def count_accepted_def
        demo_server_def new_server_def zero_server_stats_def)
qed

theorem connections_bounded_and_accounted_witness:
  "\<exists>p p'. start_serving (demo_server\<lparr>sv_listening := True\<rparr>) = (success, p)
    \<and> pool_run (demo_server\<lparr>sv_listening := True\<rparr>, p)
        [Round (Poll_Connection (new_socket [] [] []))] (demo_server\<lparr>sv_listening := True\<rparr>, p')
    \<and> length (po_queue p') \<le> 32 \<and> length (po_queue p') = 1"
proof -
  let ?sv = "demo_server\<lparr>sv_listening := True\<rparr>"
  have size: "pool_size (sv_limits ?sv) = 32"
    by (simp add: demo_server_limits pool_size_def default_transport_limits_def)
  define p where "p = \<lparr>po_size = 32, po_queue = [], po_active = [], po_closing = False, po_result = success\<rparr>"
  define p' where "p' = p\<lparr>po_queue := [new_socket [] [] []]\<rparr>"
  have start: "start_serving ?sv = (success, p)" using size by (simp add: start_serving_def p_def)
  have "pool_step (?sv, p) (Round (Poll_Connection (new_socket [] [] []))) (?sv, p')"
    by (rule pool_round) (simp_all add: p_def p'_def)
  from pool_snoc [OF pool_nil this] have "pool_run (?sv, p) [Round (Poll_Connection (new_socket [] [] []))] (?sv, p')" by simp
  from connections_bounded_and_accounted [OF start _ this] start this show ?thesis
    unfolding size by (auto simp: p'_def)
qed

end
