(* ===== verification/Exchange_Properties.thy ===== *)
theory Exchange_Properties
  imports Transport_Properties Observatory_Properties Recovery_Properties
begin

text \<open>
  The exchange of a batch for its reply: the frame that the client sends, the document the server
  applies, the payload it answers with, and what the client makes of it.
\<close>

section \<open>The payload of a reply\<close>

definition error_members :: "batch_reply \<Rightarrow> (string \<times> 'd json) list" where
  "error_members r =
     (if br_error_code r \<noteq> []
      then [(''error_code'', JString (br_error_code r)), (''error_message'', JString (br_error_message r))] else [])"

definition reply_members :: "batch_reply \<Rightarrow> (string \<times> 'd json) list" where
  "reply_members r =
     (let d = ir_decode (br_report r); a = ir_admission (br_report r) in
      (''ticket'', JUint (br_ticket r)) # error_members r @
      [(''lines'', JUint (of_nat (do_lines d))),
       (''samples_decoded'', JUint (of_nat (do_sample_count d))),
       (''metadata_records'', JUint (of_nat (do_metadata_records d))),
       (''malformed'', JUint (of_nat (do_malformed d))),
       (''unsupported'', JUint (of_nat (do_unsupported d))),
       (''version_mismatches'', JUint (of_nat (do_version_mismatches d))),
       (''presented'', JUint (of_nat (ba_presented a))),
       (''accepted'', JUint (of_nat (ba_accepted a))),
       (''rejected'', JUint (of_nat (ba_rejected a))),
       (''fenced'', JUint (of_nat (ba_fenced a))),
       (''duplicates'', JUint (of_nat (ba_duplicates a))),
       (''queues_created'', JUint (of_nat (ba_queues_created a))),
       (''applied'', JBool (ir_accepted (br_report r)))])"

lemma writes_member_bool: "writes_members (member_bool k b) [(k, JBool b)]"
  unfolding member_bool_def by (rule writes_member [OF writes_scalars(3)])

lemma writes_error: "writes_members (error_calls r) (error_members r)"
proof (cases "br_error_code r = []")
  case False
  have "writes_members (write_seq [member_string ''error_code'' (br_error_code r),
      member_string ''error_message'' (br_error_message r)]) (error_members r)"
    by (rule writes_members_eq, (rule writes_members_Cons writes_member_calls writes_members_Nil)+)
      (simp add: error_members_def False)
  then show ?thesis using False by (simp only: error_calls_def if_True not_False_eq_True)
qed (simp add: error_calls_def error_members_def writes_members_skip)

lemma writes_reply: "writes_members (write_seq (batch_result_calls r)) (reply_members r :: (string \<times> 'd json) list)"
  unfolding batch_result_calls_def Let_def
  by (rule writes_members_eq,
      (rule writes_members_Cons writes_member_calls writes_member_bool writes_error writes_members_Nil)+)
    (simp add: reply_members_def Let_def)

lemma encode_batch_result_eq: "encode_batch_result r = render (JObject (reply_members r) :: 'd json)"
  using written_object [OF writes_reply [of r, where 'd = 'd]] by (simp add: encode_batch_result_def written_or_empty_def)

section \<open>Its size\<close>

fun json_weight :: "'d json \<Rightarrow> nat" where
  "json_weight (JString s) = 2 + 6 * length s"
| "json_weight (JUint n) = 20"
| "json_weight (JBool b) = 5"
| "json_weight v = length (render v)"

lemma dec_nat_length: "n < 10 ^ k \<Longrightarrow> 0 < k \<Longrightarrow> length (dec_nat n) \<le> k"
proof (induction n arbitrary: k rule: dec_nat.induct)
  case (1 n)
  show ?case
  proof (cases "n < 10")
    case False
    then obtain j where j: "k = Suc j" "0 < j" using 1(2,3) by (cases k) (auto, cases "k - 1", auto)
    then have "n div 10 < 10 ^ j" using 1(2) by (simp add: less_mult_imp_div_less mult.commute)
    then show ?thesis using 1(1) [of j] False j by (simp add: dec_nat.simps [of n])
  qed (use 1 in \<open>simp add: dec_nat.simps [of n]\<close>)
qed

lemma dec_u64_length: "length (dec_u64 n) \<le> 20"
proof -
  have "unat n < 10 ^ 20" by (rule less_trans [OF unat_u64_bound]) simp
  then show ?thesis unfolding dec_u64_def by (rule dec_nat_length) simp
qed

lemma escape_json_length: "length (escape_json s) \<le> 6 * length s"
proof (induction s)
  case (Cons c s)
  have "length (escape_char c) \<le> 6" by (simp add: escape_char_def)
  then show ?case using Cons by (simp add: escape_json_def)
qed (simp add: escape_json_def)

lemma quoted_length: "length (quoted s) \<le> 2 + 6 * length s"
  using escape_json_length [of s] by (simp add: quoted_def)

lemma render_weight: "length (render v) \<le> json_weight v"
  using quoted_length dec_u64_length by (cases v) simp_all

lemma comma_separated_bound: "length (comma_separated ts) \<le> sum_list (map (\<lambda>t. Suc (length t)) ts)"
  by (induction ts rule: comma_separated.induct) simp_all

lemma render_object_bound:
  "length (render (JObject ms)) \<le> 2 + (\<Sum>m\<leftarrow>ms. 4 + 6 * length (fst m) + json_weight (snd m))"
proof -
  have "length (render_member m) < 4 + 6 * length (fst m) + json_weight (snd m)" for m :: "string \<times> 'a json"
    using quoted_length [of "fst m"] render_weight [of "snd m"] by (simp add: render_member_def)
  then have "(\<Sum>t\<leftarrow>map render_member ms. Suc (length t)) \<le> (\<Sum>m\<leftarrow>ms. 4 + 6 * length (fst m) + json_weight (snd m))"
    unfolding map_map comp_def by (intro sum_list_mono) (simp add: Suc_le_eq)
  then show ?thesis using comma_separated_bound [of "map render_member ms"] by (simp add: render_object)
qed

lemma reply_length: "length (encode_batch_result r) \<le> 2048 + 6 * (length (br_error_code r) + length (br_error_message r))"
  using render_object_bound [of "reply_members r :: (string \<times> unit json) list"]
  unfolding encode_batch_result_eq [where 'd = unit]
  by (simp add: reply_members_def error_members_def Let_def split: if_splits)

section \<open>What the client reads\<close>

text \<open>A size as the 64-bit number it is on the wire, and the part of a reply that is sent.\<close>

definition wire_size :: "nat \<Rightarrow> nat" where
  "wire_size n = unat (of_nat n :: u64)"

definition reported :: "batch_reply \<Rightarrow> batch_reply" where
  "reported r =
     (let d = ir_decode (br_report r); a = ir_admission (br_report r) in
      \<lparr>br_ticket = br_ticket r,
       br_report =
         \<lparr>ir_decode = empty_outcome\<lparr>do_lines := wire_size (do_lines d), do_sample_count := wire_size (do_sample_count d),
            do_metadata_records := wire_size (do_metadata_records d), do_malformed := wire_size (do_malformed d),
            do_unsupported := wire_size (do_unsupported d), do_version_mismatches := wire_size (do_version_mismatches d)\<rparr>,
          ir_admission = empty_batch\<lparr>ba_presented := wire_size (ba_presented a), ba_accepted := wire_size (ba_accepted a),
            ba_rejected := wire_size (ba_rejected a), ba_fenced := wire_size (ba_fenced a),
            ba_duplicates := wire_size (ba_duplicates a), ba_queues_created := wire_size (ba_queues_created a)\<rparr>,
          ir_accepted = ir_accepted (br_report r)\<rparr>,
       br_error_code = br_error_code r,
       br_error_message = (if br_error_code r = [] then [] else br_error_message r)\<rparr>)"

lemma reply_readable:
  assumes "length (br_error_code r) \<le> 4096" "length (br_error_message r) \<le> 4096"
  shows "readable default_json_limits (JObject (reply_members r) :: 'd json)"
proof -
  have "length (render (JObject (reply_members r) :: 'd json)) \<le> max_document_bytes default_json_limits"
    using reply_length [of r] assms unfolding encode_batch_result_eq [where 'd = 'd]
    by (simp add: default_json_limits_def)
  moreover have "fits default_json_limits (JObject (reply_members r) :: 'd json)"
    "json_height (JObject (reply_members r) :: 'd json) \<le> max_depth default_json_limits"
    "json_nodes (JObject (reply_members r) :: 'd json) \<le> max_nodes default_json_limits"
    using assms by (cases "br_error_code r = []",
        simp_all add: reply_members_def error_members_def default_json_limits_def Let_def)
  ultimately show ?thesis by (simp add: readable_def)
qed

lemma reply_of_members: "reply_of_json (JObject (reply_members r)) = reported r"
  by (simp add: reply_of_json_def reported_def read_u64_def read_size_def read_text_def reply_members_def
      error_members_def Let_def wire_size_def)

lemma read_back_reply:
  fixes lib :: "'d doubles"
  assumes "length (br_error_code r) \<le> 4096" "length (br_error_message r) \<le> 4096"
  shows "read_batch_result lib (frame_of BatchResult (encode_batch_result r)) = Inr (reported r)"
  using parse_json_render [OF reply_readable [OF assms], of lib]
  by (simp add: read_batch_result_def frame_of_def empty_frame_def encode_batch_result_eq [where 'd = 'd] reply_of_members)

section \<open>The two ends\<close>

text \<open>Frames of the size of a reply are within the limits.\<close>

definition reply_room :: "transport_limits \<Rightarrow> bool" where
  "reply_room limits \<longleftrightarrow> status_ok (validate_transport_limits limits) \<and> 32768 \<le> max_frame_bytes limits
     \<and> 32768 + kFrameHeaderBytes + kReceiveBytes \<le> max_connection_buffer_bytes limits"

definition client_ready :: "client \<Rightarrow> bool" where
  "client_ready c \<longleftrightarrow>
     fr_limits (cl_reader c) = cl_limits c \<and> fr_buffer (cl_reader c) = [] \<and> reply_room (cl_limits c)
     \<and> healthy (cl_connection c) \<and> sends_well (cl_connection c)"

definition reply_small :: "batch_reply \<Rightarrow> bool" where
  "reply_small r \<longleftrightarrow> length (br_error_code r) \<le> 1024 \<and> length (br_error_message r) \<le> 4000"

lemma reply_frame_room:
  assumes "reply_room limits" "reply_small r"
  shows "frame_room limits (frame_of BatchResult (encode_batch_result r))"
proof -
  have "length (encode_batch_result r) \<le> 32768" using reply_length [of r] assms(2) by (simp add: reply_small_def)
  then show ?thesis using assms(1) by (simp add: frame_room_def frame_fits_def reply_room_def frame_of_def)
qed

lemma send_reply_sends:
  assumes "sends_well conn" "frame_fits (sv_limits sv) (frame_of type payload)"
  obtains conn' where "send_reply type payload sv conn = (success, conn')"
    "so_sent conn' = so_sent conn @ frame_bytes (frame_of type payload)"
proof -
  have "encode_frame (frame_of type payload) (sv_limits sv) = Inr (frame_bytes (frame_of type payload))"
    using assms(2) by (simp add: encode_frame_ok frame_fits_def)
  moreover obtain status conn' where "send_all (frame_bytes (frame_of type payload)) conn = (status, conn')" by fastforce
  ultimately show thesis using that send_all_delivers [OF assms(1)] by (simp add: send_reply_def)
qed

lemma apply_batch_counts:
  "fst (apply_batch lib document (count_frame (count_accepted sv))) = fst (apply_batch lib document sv)"
  "sv_runtime (snd (apply_batch lib document (count_frame (count_accepted sv)))) = sv_runtime (snd (apply_batch lib document sv))"
  "sv_limits (snd (apply_batch lib document sv)) = sv_limits sv"
  by (auto simp: apply_batch_def count_frame_def count_accepted_def count_batch_def Let_def split: prod.splits)

lemma server_answers_batch:
  assumes "healthy conn" "sends_well conn" "incoming (so_recvs conn) = frame_bytes (frame_of Batch document)"
    and "frame_room (sv_limits sv) (frame_of Batch document)" "reply_room (sv_limits sv)"
    and "reply_small (fst (apply_batch lib document sv))" "handle_connection lib conn sv = (status, conn', sv')"
  shows "so_sent conn' = so_sent conn @ frame_bytes (frame_of BatchResult (encode_batch_result (fst (apply_batch lib document sv))))"
    "sv_runtime sv' = sv_runtime (snd (apply_batch lib document sv))"
proof -
  let ?sv = "count_frame (count_accepted sv)"
  let ?reply = "fst (apply_batch lib document sv)"
  have room: "frame_fits (sv_limits (snd (apply_batch lib document ?sv))) (frame_of BatchResult (encode_batch_result ?reply))"
    using reply_frame_room [OF assms(5,6)]
    by (simp add: frame_room_def apply_batch_counts(3)) (simp add: count_frame_def count_accepted_def)
  have "sends_well (quiet conn)" using assms(2) by (simp add: sends_well_def)
  from send_reply_sends [OF this room] obtain conn1 where
    sent: "send_reply BatchResult (encode_batch_result ?reply) (snd (apply_batch lib document ?sv)) (quiet conn) = (success, conn1)"
      "so_sent conn1 = so_sent conn @ frame_bytes (frame_of BatchResult (encode_batch_result ?reply))" by auto
  have "handle_frame lib (frame_of Batch document) (quiet conn) ?sv = (success, True, conn1, snd (apply_batch lib document ?sv))"
    using sent(1) apply_batch_counts(1) [of lib document sv]
    by (simp add: handle_frame.simps handle_batch_def frame_of_def empty_frame_def case_prod_beta)
  moreover have "quiet_end (handle_connection lib conn sv) = served (serve_frames lib [frame_of Batch document] (quiet conn) (count_accepted sv))"
    using assms(1,3,4) by (intro handle_connection_stream) (simp_all add: bye_last_def)
  ultimately have "quiet_end (status, conn', sv') = (success, conn1, snd (apply_batch lib document ?sv))"
    by (simp add: assms(7) served_def)
  then have "so_sent conn' = so_sent conn1" "sv' = snd (apply_batch lib document ?sv)" by (auto simp: quiet_end_def)
  then show "so_sent conn' = so_sent conn @ frame_bytes (frame_of BatchResult (encode_batch_result ?reply))"
    "sv_runtime sv' = sv_runtime (snd (apply_batch lib document sv))"
    using sent(2) by (simp_all add: apply_batch_counts)
qed

lemma receive_loop_sent: "so_sent (snd (snd (receive_loop reader conn))) = so_sent conn"
proof (induction reader conn rule: receive_loop.induct)
  case (1 reader conn)
  then show ?case
    by (auto simp: receive_loop.simps [of reader conn] dest: receive_keeps split: prod.splits option.splits)
qed

lemma client_sends_batch:
  assumes "client_ready c" "frame_fits (cl_limits c) (frame_of Batch document)"
  obtains conn where "send_frame Batch document c = (success, c\<lparr>cl_connection := conn\<rparr>)" "sends_well conn"
    "so_sent conn = so_sent (cl_connection c) @ frame_bytes (frame_of Batch document)"
    "so_recvs conn = so_recvs (cl_connection c)" "healthy conn"
proof -
  have "encode_frame (frame_of Batch document) (cl_limits c) = Inr (frame_bytes (frame_of Batch document))"
    using assms(2) by (simp add: encode_frame_ok frame_fits_def)
  moreover obtain status conn where
    sent: "send_all (frame_bytes (frame_of Batch document)) (cl_connection c) = (status, conn)" by fastforce
  ultimately show thesis
    using that send_all_delivers [OF _ sent] send_all_keeps [OF sent] assms(1)
    by (simp add: send_frame_def client_ready_def healthy_def)
qed

lemma send_batch_sends:
  assumes "client_ready c" "frame_fits (cl_limits c) (frame_of Batch document)"
    "send_batch lib document c = (status, reply, c')"
  shows "so_sent (cl_connection c') = so_sent (cl_connection c) @ frame_bytes (frame_of Batch document)"
proof -
  obtain conn where conn: "send_frame Batch document c = (success, c\<lparr>cl_connection := conn\<rparr>)"
    "so_sent conn = so_sent (cl_connection c) @ frame_bytes (frame_of Batch document)"
    using client_sends_batch [OF assms(1,2)] by metis
  have "length document \<le> max_frame_bytes (cl_limits c)" using assms(2) by (simp add: frame_fits_def frame_of_def)
  then have "so_sent (cl_connection c') = so_sent conn"
    using assms(3) conn(1) receive_loop_sent [of "cl_reader c" conn]
    by (auto simp: send_batch_def exchange_def receive_frame_def split: prod.splits sum.splits)
  then show ?thesis using conn(2) by simp
qed

lemma client_reads_reply:
  assumes "client_ready c" "frame_fits (cl_limits c) (frame_of Batch document)" "reply_small r"
    and "incoming (so_recvs (cl_connection c)) = frame_bytes (frame_of BatchResult (encode_batch_result r))"
    and "send_batch lib document c = (status, reply, c')"
  shows "status = success" "reply = reported r"
proof -
  obtain conn where conn: "send_frame Batch document c = (success, c\<lparr>cl_connection := conn\<rparr>)" "healthy conn"
    "so_recvs conn = so_recvs (cl_connection c)"
    using client_sends_batch [OF assms(1,2)] by metis
  have "frame_room (fr_limits (cl_reader c)) (frame_of BatchResult (encode_batch_result r))"
    using reply_frame_room [OF _ assms(3)] assms(1) by (simp add: client_ready_def)
  moreover have "fr_buffer (cl_reader c) @ incoming (so_recvs conn) = frame_bytes (frame_of BatchResult (encode_batch_result r)) @ []"
    using assms(1,4) conn(3) by (simp add: client_ready_def)
  ultimately obtain reader' conn' where
    "receive_loop (cl_reader c) conn = (Inr (frame_of BatchResult (encode_batch_result r)), reader', conn')"
    using receive_loop_stream [OF conn(2)] by metis
  moreover have "length document \<le> max_frame_bytes (cl_limits c)" using assms(2) by (simp add: frame_fits_def frame_of_def)
  moreover have "read_batch_result lib (frame_of BatchResult (encode_batch_result r)) = Inr (reported r)"
    using assms(3) by (intro read_back_reply) (simp_all add: reply_small_def)
  ultimately show "status = success" "reply = reported r"
    using assms(5) conn(1) by (auto simp: send_batch_def exchange_def receive_frame_def)
qed

section \<open>Properties\<close>

text \<open>C16: A batch travels end to end. When what the client sends is what the server receives, and the other
  way round, then whatever the pieces the network cuts both streams into and however little each send
  takes, the server applies exactly the document that the client sent, and the client reports exactly
  what the store made of it, failures included.\<close>

theorem batch_exchange:
  assumes "client_ready c" "length document < 2 ^ 32" "length document \<le> max_frame_bytes (cl_limits c)"
    and "frame_room (sv_limits sv) (frame_of Batch document)" "reply_room (sv_limits sv)"
    and "healthy conn" "sends_well conn" "so_sent conn = []"
    and "length (st_message (fst (ingest_document_now lib document (sv_runtime sv)))) \<le> 4000"
    and "send_batch lib document c = (status, reply, c')" "handle_connection lib conn sv = (status', conn', sv')"
    and "so_sent (cl_connection c') = so_sent (cl_connection c) @ incoming (so_recvs conn)"
    and "incoming (so_recvs (cl_connection c)) = so_sent conn'"
  shows "status = success \<and> reply = reported (fst (apply_batch lib document sv))
    \<and> sv_runtime sv' = snd (snd (ingest_document_now lib document (sv_runtime sv)))"
proof -
  let ?r = "fst (apply_batch lib document sv)"
  have fits: "frame_fits (cl_limits c) (frame_of Batch document)"
    using assms(1-3) by (simp add: client_ready_def reply_room_def frame_fits_def frame_of_def)
  have code: "length (error_code_text code) \<le> 1024" for code by (cases code) simp_all
  have small: "reply_small ?r"
    using assms(9) code
    by (auto simp: reply_small_def apply_batch_def empty_reply_def Let_def split: prod.splits)
  have "incoming (so_recvs conn) = frame_bytes (frame_of Batch document)"
    using send_batch_sends [OF assms(1) fits assms(10)] assms(12) by simp
  note server = server_answers_batch [OF assms(6,7) this assms(4,5) small assms(11)]
  have "incoming (so_recvs (cl_connection c)) = frame_bytes (frame_of BatchResult (encode_batch_result ?r))"
    using server(1) assms(8,13) by simp
  note client = client_reads_reply [OF assms(1) fits small this assms(10)]
  have "sv_runtime (snd (apply_batch lib document sv)) = snd (snd (ingest_document_now lib document (sv_runtime sv)))"
    by (auto simp: apply_batch_def count_batch_def Let_def split: prod.splits)
  then show ?thesis using client server(2) by simp
qed

section \<open>Witnesses\<close>

lemma default_reply_room: "reply_room default_transport_limits"
  using default_sizes default_limits_valid(6) by (simp add: reply_room_def kFrameHeaderBytes_def kReceiveBytes_def)

lemma created_state:
  "create_observatory c n clock d = Inr ob \<Longrightarrow>
     ob_config ob = c \<and> ob_store ob = new_store (oc_policy c) (oc_history c) (oc_query c) n clock"
  by (auto simp: create_observatory_def split: if_splits)

lemma demo_server_facts:
  "sv_limits demo_server = default_transport_limits" "sv_next_batch_ticket demo_server = 1"
  "ob_store (sv_runtime demo_server) = demo_store" "oc_ingest (ob_config (sv_runtime demo_server)) = default_ingest_limits"
proof -
  obtain ob where "create_observatory (demo_config 0) 600 sample_clock \<lparr>dk_exists = False, dk_entries = [], dk_passed = []\<rparr> = Inr ob"
    and demo: "demo_observatory 0 = ob" using demo_created [of 0] by auto
  then have "ob_store ob = demo_store" "oc_ingest (ob_config ob) = default_ingest_limits"
    using created_state by (fastforce simp: demo_store_def demo_config_def)+
  then show "sv_limits demo_server = default_transport_limits" "sv_next_batch_ticket demo_server = 1"
    "ob_store (sv_runtime demo_server) = demo_store" "oc_ingest (ob_config (sv_runtime demo_server)) = default_ingest_limits"
    by (simp_all add: demo_server_def new_server_def demo)
qed

lemma demo_empty_document:
  "fst (ingest_document_now no_doubles [] (sv_runtime demo_server)) = success"
proof -
  have "decode_document [] default_ingest_limits no_doubles = (success, decode_lines default_ingest_limits no_doubles 0 (split [] (CHR 0x0A)) empty_outcome)"
    using default_limits_valid(1) by (simp add: decode_document_def)
  moreover have "do_samples (decode_lines default_ingest_limits no_doubles 0 (split [] (CHR 0x0A)) empty_outcome) = []"
    "do_metadata (decode_lines default_ingest_limits no_doubles 0 (split [] (CHR 0x0A)) empty_outcome) = []"
    by (simp_all add: split.simps [of "[]"] decode_line_def empty_outcome_def trim_def strip_return_def)
  ultimately show ?thesis
    using demo_store_configured
    by (simp add: ingest_document_now_def ingest_document_def demo_server_facts ingest_batch_def case_prod_beta)
qed

theorem batch_exchange_witness:
  "\<exists>c conn reply c' status' conn' sv'. send_batch no_doubles [] c = (success, reply, c')
    \<and> handle_connection no_doubles conn demo_server = (status', conn', sv')
    \<and> br_ticket reply = 1"
proof -
  let ?lib = no_doubles
  let ?sv = demo_server
  let ?r = "fst (apply_batch ?lib [] ?sv)"
  define conn where "conn = new_socket [] [Recv_Bytes (frame_bytes (frame_of Batch []))] []"
  define c where "c = new_client\<lparr>cl_connection :=
    new_socket [Send_Taken 1] [Recv_Bytes (frame_bytes (frame_of BatchResult (encode_batch_result ?r)))] []\<rparr>"
  have some: "frame_bytes f \<noteq> []" for f by (simp add: frame_bytes_def le_bytes_def)
  have limits: "sv_limits ?sv = default_transport_limits" by (rule demo_server_facts)
  have ready: "client_ready c"
    using default_reply_room
    by (simp add: client_ready_def c_def new_client_def new_frame_reader_def healthy_def sends_well_def new_socket_def)
  have conn: "healthy conn" "sends_well conn" "so_sent conn = []" "incoming (so_recvs conn) = frame_bytes (frame_of Batch [])"
    using some by (simp_all add: conn_def new_socket_def healthy_def sends_well_def)
  have clean: "fst (ingest_document_now ?lib [] (sv_runtime ?sv)) = success" by (rule demo_empty_document)
  obtain status reply c' where batch: "send_batch ?lib [] c = (status, reply, c')" by (metis prod_cases3)
  obtain status' conn' sv' where served: "handle_connection ?lib conn ?sv = (status', conn', sv')" by (metis prod_cases3)
  have fits: "frame_fits (cl_limits c) (frame_of Batch [])" "frame_room (sv_limits ?sv) (frame_of Batch [])"
    using default_frame_room [of "[]" Batch] by (simp_all add: limits c_def new_client_def frame_room_def)
  have small: "reply_small ?r"
    using clean by (simp add: reply_small_def apply_batch_def empty_reply_def Let_def case_prod_beta)
  have "so_sent conn' = frame_bytes (frame_of BatchResult (encode_batch_result ?r))"
    using server_answers_batch(1) [OF conn(1,2,4) fits(2) _ small served] default_reply_room conn(3) by (simp add: limits)
  moreover have "incoming (so_recvs (cl_connection c)) = frame_bytes (frame_of BatchResult (encode_batch_result ?r))"
    using some by (simp add: c_def new_socket_def)
  ultimately have "status = success \<and> reply = reported ?r"
    using batch_exchange [OF ready _ _ fits(2) _ conn(1-3) _ batch served] send_batch_sends [OF ready fits(1) batch]
      default_reply_room conn(4) clean by (simp add: limits success_def)
  moreover have "br_ticket ?r = 1"
    by (simp add: apply_batch_def demo_server_facts empty_reply_def Let_def case_prod_beta)
  ultimately have "send_batch ?lib [] c = (success, reply, c')" "br_ticket reply = 1"
    using batch by (simp_all add: reported_def Let_def)
  then show ?thesis using served by blast
qed

end
