(* ===== verification/Lock_Audit.thy ===== *)
theory Lock_Audit
  imports Prelude
begin

text \<open>
  The audit of lock ranks (\<^verbatim>\<open>src/core/LockAudit.cpp\<close>): every thread keeps a stack of the ranks it
  entered, in an array of 64 places, and violations of the order are counted. Whether the audit was
  compiled in is the parameter \<open>enabled\<close>. Reading the array past its end is undefined in C++; an
  operation that does so has no result. The counters are shared by the threads and every operation
  on them is atomic, so a run of the program is a sequence of operations of threads.
\<close>

section \<open>Ranks\<close>

type_synonym rank = int

definition kRankNone :: rank where "kRankNone = 0"

definition kRankLeaf :: rank where "kRankLeaf = 1"

definition kRankSources :: rank where "kRankSources = 10"

definition kRankStore :: rank where "kRankStore = 20"

definition kRankPersistence :: rank where "kRankPersistence = 30"

definition kRankTransport :: rank where "kRankTransport = 40"

definition kRankWorker :: rank where "kRankWorker = 50"

definition lock_rank_name :: "rank \<Rightarrow> string" where
  "lock_rank_name r =
     (if r = kRankNone then ''none''
      else if r = kRankLeaf then ''leaf''
      else if r = kRankSources then ''sources''
      else if r = kRankStore then ''store''
      else if r = kRankPersistence then ''persistence''
      else if r = kRankTransport then ''transport''
      else if r = kRankWorker then ''worker''
      else ''unranked'')"

definition is_leaf :: "rank \<Rightarrow> bool" where
  "is_leaf r \<longleftrightarrow> r = kRankLeaf"

section \<open>State\<close>

definition kMaxTrackedDepth :: nat where "kMaxTrackedDepth = 64"

record thread_state =
  ts_stack :: "rank list"
  ts_depth :: nat

definition new_thread_state :: thread_state where
  "new_thread_state = \<lparr>ts_stack = replicate kMaxTrackedDepth 0, ts_depth = 0\<rparr>"

record audit_counters =
  g_descending :: u64
  g_same_rank :: u64
  g_callback_under_lock :: u64
  g_unbalanced :: u64

definition zero_audit :: audit_counters where
  "zero_audit = \<lparr>g_descending = 0, g_same_rank = 0, g_callback_under_lock = 0, g_unbalanced = 0\<rparr>"

definition record_descending :: "audit_counters \<Rightarrow> audit_counters" where
  "record_descending g = g\<lparr>g_descending := g_descending g + 1\<rparr>"

definition record_same_rank :: "audit_counters \<Rightarrow> audit_counters" where
  "record_same_rank g = g\<lparr>g_same_rank := g_same_rank g + 1\<rparr>"

definition record_unbalanced :: "audit_counters \<Rightarrow> audit_counters" where
  "record_unbalanced g = g\<lparr>g_unbalanced := g_unbalanced g + 1\<rparr>"

definition record_callback :: "audit_counters \<Rightarrow> audit_counters" where
  "record_callback g = g\<lparr>g_callback_under_lock := g_callback_under_lock g + 1\<rparr>"

section \<open>Operations\<close>

text \<open>The loop over the ranks that are held: whether the same rank is among them, and the highest
  that is not a leaf. Its index is bounded by the depth alone.\<close>

function scan_held :: "rank \<Rightarrow> thread_state \<Rightarrow> nat \<Rightarrow> bool \<Rightarrow> rank \<Rightarrow> (bool \<times> rank) option" where
  "scan_held r st index same highest =
     (if index \<ge> ts_depth st then Some (same, highest)
      else if index \<ge> length (ts_stack st) then None
      else let held = ts_stack st ! index in
        if is_leaf held then scan_held r st (index + 1) same highest
        else scan_held r st (index + 1) (same \<or> held = r) (if held > highest then held else highest))"
  by pat_completeness auto
termination
  by (relation "measure (\<lambda>(r, st, index, same, highest). ts_depth st - index)") auto

declare scan_held.simps [simp del]

definition push_rank :: "rank \<Rightarrow> thread_state \<Rightarrow> thread_state" where
  "push_rank r st =
     (let st' = (if ts_depth st < kMaxTrackedDepth then st\<lparr>ts_stack := (ts_stack st)[ts_depth st := r]\<rparr> else st)
      in st'\<lparr>ts_depth := ts_depth st + 1\<rparr>)"

definition enter :: "bool \<Rightarrow> rank \<Rightarrow> thread_state \<Rightarrow> audit_counters \<Rightarrow> (thread_state \<times> audit_counters) option" where
  "enter enabled r st g =
     (if \<not> enabled \<or> r = kRankNone then Some (st, g)
      else if is_leaf r then Some (push_rank r st, g)
      else case scan_held r st 0 False kRankNone of
        None \<Rightarrow> None
      | Some (same, highest) \<Rightarrow>
          (let g1 = (if same then record_same_rank g else g);
               g2 = (if highest \<noteq> kRankNone \<and> r < highest then record_descending g1 else g1)
           in Some (push_rank r st, g2)))"

definition leave :: "bool \<Rightarrow> rank \<Rightarrow> thread_state \<Rightarrow> audit_counters \<Rightarrow> thread_state \<times> audit_counters" where
  "leave enabled r st g =
     (if \<not> enabled \<or> r = kRankNone then (st, g)
      else if ts_depth st = 0 then (st, record_unbalanced g)
      else (let top = (if ts_depth st - 1 < kMaxTrackedDepth then ts_stack st ! (ts_depth st - 1) else kRankNone)
            in (st\<lparr>ts_depth := ts_depth st - 1\<rparr>, if top \<noteq> r then record_unbalanced g else g)))"

text \<open>The part of the stack that the bounded loops see.\<close>

definition tracked :: "thread_state \<Rightarrow> rank list" where
  "tracked st = take (min (ts_depth st) kMaxTrackedDepth) (ts_stack st)"

definition holds_any :: "bool \<Rightarrow> thread_state \<Rightarrow> bool" where
  "holds_any enabled st \<longleftrightarrow> enabled \<and> list_ex (\<lambda>r. \<not> is_leaf r) (tracked st)"

definition note_callback :: "bool \<Rightarrow> thread_state \<Rightarrow> audit_counters \<Rightarrow> audit_counters" where
  "note_callback enabled st g =
     (if enabled \<and> list_ex (\<lambda>r. \<not> is_leaf r) (tracked st) then record_callback g else g)"

definition highest_rank :: "bool \<Rightarrow> thread_state \<Rightarrow> rank" where
  "highest_rank enabled st =
     (if enabled then foldl (\<lambda>highest held. if held > highest then held else highest) kRankNone (tracked st)
      else kRankNone)"

definition audit_depth :: "bool \<Rightarrow> thread_state \<Rightarrow> nat" where
  "audit_depth enabled st = (if enabled then ts_depth st else 0)"

definition total_violations :: "audit_counters \<Rightarrow> u64" where
  "total_violations g = g_descending g + g_same_rank g + g_callback_under_lock g + g_unbalanced g"

definition audit_reset :: "audit_counters \<Rightarrow> audit_counters" where
  "audit_reset g = zero_audit"

definition audit_snapshot :: "bool \<Rightarrow> audit_counters \<Rightarrow> string" where
  "audit_snapshot enabled g =
     ''lock_audit{enabled='' @ (if enabled then ''true'' else ''false'') @
     '', descending='' @ dec_u64 (g_descending g) @
     '', same_rank='' @ dec_u64 (g_same_rank g) @
     '', callback_under_lock='' @ dec_u64 (g_callback_under_lock g) @
     '', unbalanced='' @ dec_u64 (g_unbalanced g) @ ''}''"

section \<open>Runs\<close>

datatype audit_op = Enter rank | Leave rank | Callback

type_synonym 't audit = "('t \<Rightarrow> thread_state) \<times> audit_counters"

definition new_audit :: "'t audit" where
  "new_audit = ((\<lambda>_. new_thread_state), zero_audit)"

fun audit_step :: "'t \<times> audit_op \<Rightarrow> 't audit \<Rightarrow> 't audit option" where
  "audit_step (t, Enter r) (ts, g) =
     (case enter True r (ts t) g of None \<Rightarrow> None | Some (st, g') \<Rightarrow> Some (ts(t := st), g'))"
| "audit_step (t, Leave r) (ts, g) = (case leave True r (ts t) g of (st, g') \<Rightarrow> Some (ts(t := st), g'))"
| "audit_step (t, Callback) (ts, g) = Some (ts, note_callback True (ts t) g)"

fun audit_run :: "('t \<times> audit_op) list \<Rightarrow> 't audit \<Rightarrow> 't audit option" where
  "audit_run [] a = Some a"
| "audit_run (op # ops) a = (case audit_step op a of None \<Rightarrow> None | Some a' \<Rightarrow> audit_run ops a')"

section \<open>The stack of a thread\<close>

text \<open>The ranks that a thread has entered and not left, when they are all tracked.\<close>

definition held :: "thread_state \<Rightarrow> rank list" where
  "held st = take (ts_depth st) (ts_stack st)"

definition thread_ok :: "thread_state \<Rightarrow> bool" where
  "thread_ok st \<longleftrightarrow> length (ts_stack st) = kMaxTrackedDepth"

definition shallow :: "thread_state \<Rightarrow> bool" where
  "shallow st \<longleftrightarrow> thread_ok st \<and> ts_depth st \<le> kMaxTrackedDepth"

lemma scan_held_spec:
  assumes "thread_ok st" "ts_depth st \<le> kMaxTrackedDepth"
  shows "scan_held r st index same highest =
    (let rest = filter (\<lambda>h. \<not> is_leaf h) (drop index (held st))
     in Some (same \<or> r \<in> set rest, foldl (\<lambda>m h. if h > m then h else m) highest rest))"
  using assms
proof (induction r st index same highest rule: scan_held.induct)
  case (1 r st index same highest)
  show ?case
  proof (cases "index \<ge> ts_depth st")
    case True
    then show ?thesis by (simp add: scan_held.simps [of r st index] held_def)
  next
    case False
    then have len: "index < length (held st)" "index < length (ts_stack st)"
      using 1(3,4) by (simp_all add: held_def thread_ok_def)
    then have "drop index (held st) = ts_stack st ! index # drop (index + 1) (held st)"
      using False by (simp add: Cons_nth_drop_Suc [symmetric]) (simp add: held_def)
    then show ?thesis
      using 1 False len by (auto simp: scan_held.simps [of r st index] Let_def)
  qed
qed

lemma scan_held_overrun:
  "thread_ok st \<Longrightarrow> kMaxTrackedDepth < ts_depth st \<Longrightarrow> index \<le> kMaxTrackedDepth \<Longrightarrow>
     scan_held r st index same highest = None"
proof (induction r st index same highest rule: scan_held.induct)
  case (1 r st index same highest)
  then show ?case
    by (cases "index = kMaxTrackedDepth")
      (auto simp: scan_held.simps [of r st index] scan_held.simps [of r st kMaxTrackedDepth] thread_ok_def Let_def)
qed

lemma foldl_max_ge: "foldl (\<lambda>m h. if h > m then h else m) m hs = fold max hs (m :: rank)"
  by (induction hs arbitrary: m) (auto simp: max_def)

lemma fold_max_bound: "fold max hs (m :: rank) \<le> k \<longleftrightarrow> m \<le> k \<and> (\<forall>h\<in>set hs. h \<le> k)"
  by (induction hs arbitrary: m) auto

lemma held_push:
  "shallow st \<Longrightarrow> ts_depth st < kMaxTrackedDepth \<Longrightarrow> held (push_rank r st) = held st @ [r]"
  by (simp add: held_def push_rank_def shallow_def thread_ok_def take_Suc_conv_app_nth)

lemma push_ok [simp]: "thread_ok st \<Longrightarrow> thread_ok (push_rank r st)"
  by (simp add: push_rank_def thread_ok_def Let_def)

text \<open>What an entry into a rank above the leaves counts.\<close>

lemma enter_shallow:
  assumes "shallow st" "r \<noteq> kRankNone" "\<not> is_leaf r"
  shows "enter True r st g = Some (push_rank r st,
    (let g1 = (if r \<in> set (held st) then record_same_rank g else g);
         highest = fold max (filter (\<lambda>h. \<not> is_leaf h) (held st)) 0
     in if highest \<noteq> 0 \<and> r < highest then record_descending g1 else g1))"
  using assms scan_held_spec [of st r 0 False kRankNone]
  by (auto simp: enter_def shallow_def Let_def foldl_max_ge kRankNone_def)

lemma enter_ok: "enter True r st g = Some (st', g') \<Longrightarrow> thread_ok st \<Longrightarrow> thread_ok st'"
  by (auto simp: enter_def Let_def split: if_splits option.splits)

lemma audit_step_ok:
  "audit_step op a = Some a' \<Longrightarrow> (\<And>t. thread_ok (fst a t)) \<Longrightarrow> thread_ok (fst a' t)"
  by (cases "(op, a)" rule: audit_step.cases)
    (auto simp: leave_def Let_def thread_ok_def dest: enter_ok [unfolded thread_ok_def] split: option.splits if_splits)

lemma audit_run_ok:
  "audit_run ops a = Some a' \<Longrightarrow> (\<And>t. thread_ok (fst a t)) \<Longrightarrow> thread_ok (fst a' t)"
proof (induction ops arbitrary: a)
  case (Cons op ops)
  then obtain a1 where a1: "audit_step op a = Some a1" "audit_run ops a1 = Some a'" by (auto split: option.splits)
  have "thread_ok (fst a1 u)" for u by (rule audit_step_ok [OF a1(1) Cons.prems(2)])
  then show ?case by (rule Cons.IH [OF a1(2)])
qed simp

lemma new_audit_ok: "thread_ok (fst new_audit t)"
  by (simp add: new_audit_def new_thread_state_def thread_ok_def)

lemma counted_differs: "record_same_rank g \<noteq> g" "record_descending g \<noteq> g" "record_descending (record_same_rank g) \<noteq> g"
  by (cases g; simp add: record_same_rank_def record_descending_def)+

text \<open>An entry that counts nothing is above everything that is held.\<close>

lemma silent_enter_above:
  assumes "shallow st" "0 < r" "\<not> is_leaf r" "enter True r st g = Some (st', g)" "h \<in> set (held st)" "\<not> is_leaf h"
  shows "h < r"
proof -
  let ?hs = "filter (\<lambda>h. \<not> is_leaf h) (held st)"
  have "r \<noteq> kRankNone" using assms(2) by (simp add: kRankNone_def)
  then have "r \<notin> set (held st)" "\<not> (fold max ?hs 0 \<noteq> 0 \<and> r < fold max ?hs 0)"
    using assms(4) counted_differs [of g] by (auto simp: enter_shallow [OF assms(1) _ assms(3)] Let_def split: if_splits)
  moreover have "h \<le> fold max ?hs 0" using fold_max_bound [of ?hs 0 "fold max ?hs 0"] assms(5,6) by auto
  ultimately show ?thesis using assms(2,5) by (cases "h = r") (auto simp: not_less)
qed

section \<open>Properties\<close>

text \<open>C31: Locks that the audit has nothing to say about do not deadlock. Take any state that a program
  reaches and any finite set of threads, each of which asks for a rank above the leaves such that
  entering it would count no violation. Then one of them asks for a rank that none of them holds, so
  they do not all wait for each other.\<close>

theorem silent_audit_no_deadlock:
  assumes "audit_run ops new_audit = Some (ts, g)" "finite D" "D \<noteq> {}"
    and "\<forall>t\<in>D. ts_depth (ts t) \<le> kMaxTrackedDepth \<and> 0 < req t \<and> \<not> is_leaf (req t)
      \<and> (\<exists>st. enter True (req t) (ts t) g = Some (st, g))"
  shows "\<exists>t\<in>D. \<forall>t'\<in>D. req t \<notin> set (held (ts t'))"
proof -
  have ok: "shallow (ts t)" if "t \<in> D" for t
    using audit_run_ok [OF assms(1) new_audit_ok] assms(4) that by (simp add: shallow_def)
  obtain t where t: "t \<in> D" "\<And>t'. t' \<in> D \<Longrightarrow> req t' \<le> req t"
    using assms(2,3) Max_ge [of "req ` D"] Max_in [of "req ` D"] by (metis (no_types, lifting) finite_imageI imageE image_eqI image_is_empty)
  have "req t \<notin> set (held (ts t'))" if "t' \<in> D" for t'
    using silent_enter_above [OF ok [OF that]] assms(4) that t by (metis leD)
  then show ?thesis using t(1) by blast
qed

text \<open>The audit does not see a deadlock through a leaf lock: a thread that holds a leaf and asks for a
  rank, and a thread that holds the rank and asks for the leaf, wait for each other without a count.\<close>

theorem leaf_deadlock_not_counted:
  assumes "a \<noteq> b" "0 < r" "\<not> is_leaf r"
  shows "\<exists>ts. audit_run [(a, Enter kRankLeaf), (b, Enter r)] new_audit = Some (ts, zero_audit)
    \<and> (\<exists>st. enter True r (ts a) zero_audit = Some (st, zero_audit)) \<and> r \<in> set (held (ts b))
    \<and> (\<exists>st. enter True kRankLeaf (ts b) zero_audit = Some (st, zero_audit)) \<and> kRankLeaf \<in> set (held (ts a))"
proof -
  let ?ts = "(\<lambda>_. new_thread_state)(a := push_rank kRankLeaf new_thread_state, b := push_rank r new_thread_state)"
  have none: "r \<noteq> kRankNone" "kRankLeaf \<noteq> kRankNone" "is_leaf kRankLeaf"
    using assms(2) by (simp_all add: kRankNone_def kRankLeaf_def is_leaf_def)
  have new: "shallow new_thread_state" "held new_thread_state = []" "ts_depth new_thread_state < kMaxTrackedDepth"
    by (simp_all add: shallow_def thread_ok_def new_thread_state_def held_def kMaxTrackedDepth_def)
  have pushed: "held (push_rank x new_thread_state) = [x]" "shallow (push_rank x new_thread_state)" for x
    using held_push [OF new(1,3)] new(2)
    by (simp_all add: shallow_def thread_ok_def new_thread_state_def push_rank_def kMaxTrackedDepth_def)
  have leaf: "enter True kRankLeaf st g = Some (push_rank kRankLeaf st, g)" for st g
    using none by (simp add: enter_def)
  have "audit_run [(a, Enter kRankLeaf), (b, Enter r)] new_audit = Some (?ts, zero_audit)"
    using assms(1) by (simp add: new_audit_def leaf enter_shallow [OF new(1) none(1) assms(3)] new(2) Let_def)
  moreover have "enter True r (?ts a) zero_audit = Some (push_rank r (?ts a), zero_audit)"
    using assms(1,3) none by (auto simp: enter_shallow [OF pushed(2) none(1) assms(3)] pushed Let_def)
  ultimately show ?thesis using assms(1) pushed(1) leaf by (intro exI [of _ ?ts]) (simp add: fun_upd_def)
qed

text \<open>The loop of \<^verbatim>\<open>enter\<close> is not bounded by the size of the array, as the other loops are. After more
  than 64 nested locks the entry into a rank above the leaves reads past the end.\<close>

theorem deep_nesting_reads_past_stack:
  "audit_run (replicate n (t, Enter kRankLeaf) @ [(t, Enter kRankStore)]) new_audit = None \<longleftrightarrow> 64 < n"
proof -
  have leaf: "enter True kRankLeaf st g = Some (push_rank kRankLeaf st, g)" for st g
    by (simp add: enter_def kRankNone_def kRankLeaf_def is_leaf_def)
  have start: "audit_run (replicate n (t, Enter kRankLeaf) @ ops) (ts, g) =
      audit_run ops (ts(t := (push_rank kRankLeaf ^^ n) (ts t)), g)" for ops ts and g :: audit_counters
    by (induction n arbitrary: ts) (simp_all add: leaf funpow_swap1 fun_upd_idem)
  have deep: "thread_ok ((push_rank kRankLeaf ^^ n) new_thread_state)
      \<and> ts_depth ((push_rank kRankLeaf ^^ n) new_thread_state) = n"
    by (induction n) (auto simp: new_thread_state_def thread_ok_def push_rank_def Let_def)
  have store: "kRankStore \<noteq> kRankNone" "\<not> is_leaf kRankStore"
    by (simp_all add: kRankStore_def kRankNone_def is_leaf_def kRankLeaf_def)
  show ?thesis
  proof (cases "64 < n")
    case True
    then have "scan_held kRankStore ((push_rank kRankLeaf ^^ n) new_thread_state) 0 False kRankNone = None"
      using deep by (intro scan_held_overrun) (simp_all add: kMaxTrackedDepth_def)
    then show ?thesis using True store by (simp add: start new_audit_def enter_def)
  next
    case False
    then have "shallow ((push_rank kRankLeaf ^^ n) new_thread_state)"
      using deep by (simp add: shallow_def kMaxTrackedDepth_def)
    then show ?thesis using False enter_shallow [OF _ store] by (simp add: start new_audit_def)
  qed
qed

section \<open>Witnesses\<close>

theorem silent_audit_no_deadlock_witness:
  "\<exists>ts. audit_run [(0 :: nat, Enter kRankStore), (1, Enter kRankPersistence)] new_audit = Some (ts, zero_audit)
    \<and> (\<exists>t\<in>{0, 1 :: nat}. \<forall>t'\<in>{0, 1}. (if t = 0 then kRankPersistence else kRankWorker) \<notin> set (held (ts t')))"
proof -
  let ?req = "\<lambda>t :: nat. if t = 0 then kRankPersistence else kRankWorker"
  let ?run = "audit_run [(0 :: nat, Enter kRankStore), (1, Enter kRankPersistence)] new_audit"
  obtain ts where ts: "?run = Some (ts, zero_audit)" "ts 0 = push_rank kRankStore new_thread_state"
      "ts 1 = push_rank kRankPersistence new_thread_state"
    by (simp add: new_audit_def enter_def scan_held.simps new_thread_state_def kRankStore_def kRankPersistence_def
        kRankNone_def is_leaf_def kRankLeaf_def)
  have "\<forall>t\<in>{0, 1}. ts_depth (ts t) \<le> kMaxTrackedDepth \<and> 0 < ?req t \<and> \<not> is_leaf (?req t)
      \<and> (\<exists>st. enter True (?req t) (ts t) zero_audit = Some (st, zero_audit))"
    by (simp add: ts(2) ts(3) [simplified] enter_def scan_held.simps push_rank_def new_thread_state_def kRankStore_def
        kRankPersistence_def kRankWorker_def kRankNone_def is_leaf_def kRankLeaf_def kMaxTrackedDepth_def)
  from silent_audit_no_deadlock [OF ts(1) _ _ this] ts(1) show ?thesis by auto
qed

theorem leaf_deadlock_not_counted_witness:
  "\<exists>ts. audit_run [(0 :: nat, Enter kRankLeaf), (1, Enter kRankStore)] new_audit = Some (ts, zero_audit)
    \<and> kRankStore \<in> set (held (ts 1)) \<and> kRankLeaf \<in> set (held (ts 0))"
  using leaf_deadlock_not_counted [of "0 :: nat" 1 kRankStore]
  by (auto simp: kRankStore_def is_leaf_def kRankLeaf_def)

end
