(* ===== verification/Report.thy ===== *)
theory Report
  imports Observatory Store_Query
begin

text \<open>
  The text reports of the command line (\<^verbatim>\<open>src/runtime/Export.cpp\<close>): a renderer for every query result,
  for the outcome of an ingest, for the status of the runtime and for a recovery. A report is the
  concatenation of what the source appends to its buffer.
\<close>

section \<open>Parts\<close>

abbreviation eol :: string where
  "eol \<equiv> [CHR 0x0A]"

definition truth :: "bool \<Rightarrow> string" where
  "truth b = (if b then ''true'' else ''false'')"

definition state_column :: "pressure_state \<Rightarrow> string" where
  "state_column state = pressure_state_text state"

text \<open>The cells of a row, each padded to its width, with a space between them.\<close>

fun append_cells :: "string list \<Rightarrow> nat list \<Rightarrow> string" where
  "append_cells [] widths = []"
| "append_cells (c # cs) widths =
     pad_right c (hd widths) @ concat (map2 (\<lambda>cell width. '' '' @ pad_right cell width) cs (tl widths))"

definition append_row :: "string list \<Rightarrow> nat list \<Rightarrow> string" where
  "append_row cells widths = append_cells cells widths @ eol"

definition page_footer :: "'a page \<Rightarrow> string" where
  "page_footer p =
     ''matched='' @ dec_nat (pg_total_matched p) @ '' returned='' @ dec_nat (length (pg_rows p)) @
     '' truncated='' @ truth (pg_truncated p) @ eol"

section \<open>Tables\<close>

definition inspect_widths :: "nat list" where
  "inspect_widths = [28, 8, 12, 12, 10, 8, 8, 8, 8, 8]"

definition inspect_cells :: "inspect_row \<Rightarrow> string list" where
  "inspect_cells row =
     [sanitize_for_display (queue_path_to_string (ir_queue row)) 28, state_column (ir_state row),
      freshness_text (ea_freshness (ir_assessment row)), quality_text (ea_quality (ir_assessment row)),
      dec_nat (ir_history_records row), dec_u64 (ir_counter_wraps row), dec_u64 (ir_counter_resets row),
      dec_u64 (ir_counter_ambiguous row), dec_u64 (ir_counter_discontinuous row), dec_u64 (ir_row_accepted row)]"

definition inspect_header :: "string list" where
  "inspect_header =
     [''QUEUE'', ''STATE'', ''FRESHNESS'', ''QUALITY'', ''RECORDS'', ''WRAPS'', ''RESETS'', ''AMBIG'', ''DISCONT'', ''ACCEPTED'']"

definition render_inspect_table :: "inspect_row page \<Rightarrow> bool \<Rightarrow> string" where
  "render_inspect_table result header =
     (if header then append_row inspect_header inspect_widths else []) @
     concat (map (\<lambda>row. append_row (inspect_cells row) inspect_widths) (pg_rows result)) @
     page_footer result"

definition pressure_widths :: "nat list" where
  "pressure_widths = [28, 12, 22, 14, 14, 16]"

definition pressure_cells :: "pressure_row \<Rightarrow> string list" where
  "pressure_cells row =
     [sanitize_for_display (queue_path_to_string (pr_queue row)) 28, state_column (pr_state row),
      sanitize_for_display (pb_label (pr_basis row)) 22, reported_text (pb_value (pr_basis row)),
      reported_text (pb_limit (pr_basis row)), rule_name (pr_deciding_rule row)]"

definition pressure_header :: "string list" where
  "pressure_header = [''QUEUE'', ''STATE'', ''BASIS'', ''VALUE'', ''LIMIT'', ''DECIDING_RULE'']"

definition render_pressure_table :: "pressure_row page \<Rightarrow> bool \<Rightarrow> string" where
  "render_pressure_table result header =
     (if header then append_row pressure_header pressure_widths else []) @
     concat (map (\<lambda>row. append_row (pressure_cells row) pressure_widths) (pg_rows result)) @
     page_footer result"

section \<open>History\<close>

definition default_aggregate :: window_aggregate where
  "default_aggregate =
     \<lparr>wa_spec = \<lparr>ws_name = [], ws_duration = 0, ws_bucket = 0, ws_min_covered_buckets = 1, ws_max_buckets = 64\<rparr>,
      wa_window_start = 0, wa_window_end = 0, wa_bucket_count = 0, wa_covered_buckets = 0, wa_sample_count = 0,
      wa_occupancy_max = None, wa_occupancy_min = None, wa_occupancy_last = None, wa_occupancy_excursion = 0,
      wa_drops = 0, wa_marks = 0, wa_pause_frames = 0, wa_pause_nanos = 0, wa_enqueues = 0, wa_dequeues = 0,
      wa_unknown_delta_samples = 0, wa_non_current_samples = 0, wa_saturation_events = 0, wa_newest_received = 0,
      wa_coverage_sufficient = False, wa_assessment = empty_assessment\<rparr>"

definition render_aggregate :: "window_aggregate \<Rightarrow> string" where
  "render_aggregate g =
     ''window='' @ ws_name (wa_spec g) @ '' buckets='' @ dec_nat (wa_bucket_count g) @
     '' covered='' @ dec_nat (wa_covered_buckets g) @
     '' coverage_sufficient='' @ truth (wa_coverage_sufficient g) @ eol @
     ''samples='' @ dec_nat (wa_sample_count g) @
     '' occupancy_max='' @ reported_text (wa_occupancy_max g) @
     '' occupancy_min='' @ reported_text (wa_occupancy_min g) @
     '' occupancy_last='' @ reported_text (wa_occupancy_last g) @
     '' excursion='' @ dec_u64 (wa_occupancy_excursion g) @ eol @
     ''drops='' @ dec_u64 (wa_drops g) @ '' marks='' @ dec_u64 (wa_marks g) @
     '' pause_frames='' @ dec_u64 (wa_pause_frames g) @ '' pause_nanos='' @ dec_u64 (wa_pause_nanos g) @
     '' unknown_delta_samples='' @ dec_u64 (wa_unknown_delta_samples g) @ eol @
     ''assessment='' @ describe_assessment (wa_assessment g) @ eol"

definition history_line :: "history_record \<Rightarrow> string" where
  "history_line r =
     ''  '' @ format_wall_utc (rt_wall (hr_received r)) @ '' state='' @ pressure_state_text (hr_state r) @
     '' freshness='' @ freshness_text (hr_freshness r) @ '' quality='' @ quality_text (hr_quality r) @
     '' source='' @ sanitize_for_display (hr_source r) 32 @
     '' sequence='' @ strong_id_to_string (hr_sequence r) @
     (case history_value r OccupancyCells of None \<Rightarrow> [] | Some cells \<Rightarrow> '' occupancy_cells='' @ dec_u64 cells) @
     (let drops = history_delta r DropPackets
      in if cd_known drops then '' drop_delta='' @ dec_u64 (cd_delta drops) else []) @ eol"

definition render_history_report :: "history_result \<Rightarrow> string" where
  "render_history_report result =
     ''queue='' @ queue_path_to_string (hs_queue result) @ '' found='' @ truth (hs_found result) @ eol @
     (if \<not> hs_found result then []
      else render_aggregate (case hs_aggregate result of None \<Rightarrow> default_aggregate | Some g \<Rightarrow> g) @
        ''records_retained='' @ dec_nat (hs_records_retained result) @
        '' records_evicted='' @ dec_u64 (hs_records_evicted result) @
        '' records_returned='' @ dec_nat (length (hs_records result)) @
        '' truncated='' @ truth (hs_truncated result) @ eol @
        concat (map history_line (hs_records result)))"

section \<open>Bursts and contention\<close>

definition microburst_line :: "microburst_record \<Rightarrow> string" where
  "microburst_line r =
     sanitize_for_display (queue_path_to_string (mbr_queue r)) 28 @
     '' detected='' @ truth (mbr_detected r) @ '' excursion='' @ dec_u64 (mbr_excursion r) @
     '' required='' @ dec_u64 (mbr_required_excursion r) @ '' peak='' @ dec_u64 (mbr_peak r) @
     '' trough='' @ dec_u64 (mbr_trough r) @ '' covered_buckets='' @ dec_nat (mbr_covered_buckets r) @
     ''/'' @ dec_nat (mbr_required_buckets r) @
     '' coverage_sufficient='' @ truth (mbr_coverage_sufficient r) @ '' sub_sample_reconstructed=false'' @ eol"

definition render_microburst_report :: "microburst_result \<Rightarrow> string" where
  "render_microburst_report result =
     ''queues_examined='' @ dec_nat (ms_queues_examined result) @
     '' queues_insufficient_coverage='' @ dec_nat (ms_queues_insufficient result) @
     '' records='' @ dec_nat (length (pg_rows (ms_page result))) @
     '' truncated='' @ truth (pg_truncated (ms_page result)) @ eol @
     concat (map microburst_line (pg_rows (ms_page result)))"

definition contention_line :: "contention_record \<Rightarrow> string" where
  "contention_line r =
     port_path_to_string (cor_port r) @ '' class='' @ sanitize_for_display (cor_scheduling_class r) 16 @
     '' a='' @ queue_path_to_string (cor_queue_a r) @ '' b='' @ queue_path_to_string (cor_queue_b r) @
     '' ratio='' @ dec_u64 (cor_ratio_numerator r) @ ''/'' @ dec_u64 (cor_ratio_denominator r) @
     '' simultaneous='' @ dec_nat (cor_simultaneous_buckets r) @ '' covered='' @ dec_nat (cor_covered_buckets r) @ eol"

definition render_contention_report :: "contention_result \<Rightarrow> string" where
  "render_contention_report result =
     ''ports_examined='' @ dec_nat (cs_ports_examined result) @
     '' pairs_examined='' @ dec_nat (cs_pairs_examined result) @
     '' pairs_insufficient_coverage='' @ dec_nat (cs_pairs_insufficient_coverage result) @
     '' records='' @ dec_nat (length (pg_rows (cs_page result))) @
     '' truncated='' @ truth (pg_truncated (cs_page result)) @ eol @
     concat (map contention_line (pg_rows (cs_page result)))"

section \<open>Events, sources and conflicts\<close>

definition render_events_report :: "event_record page \<Rightarrow> string" where
  "render_events_report result =
     concat (map (\<lambda>e. render_event e @ eol) (pg_rows result)) @ page_footer result"

definition source_line :: "source_record \<Rightarrow> string" where
  "source_line s =
     sanitize_for_display (s_id s) 32 @ '' authority='' @ authority_text (s_authority s) @
     '' incarnation='' @ sanitize_for_display (s_incarnation s) 32 @
     '' ordinal='' @ dec_u64 (s_incarnation_ordinal s) @
     '' generation='' @ strong_id_to_string (s_generation s) @
     '' last_sequence='' @ strong_id_to_string (s_last_sequence s) @
     '' accepted='' @ dec_u64 (s_accepted s) @ '' fenced='' @ dec_u64 (s_fenced s) @
     '' duplicates='' @ dec_u64 (s_duplicates s) @ eol"

definition render_sources_report :: "source_record list \<Rightarrow> string" where
  "render_sources_report ss = concat (map source_line ss) @ ''sources='' @ dec_nat (length ss) @ eol"

definition conflict_line :: "conflict_record \<Rightarrow> string" where
  "conflict_line c =
     format_wall_utc (rt_wall (co_detected c)) @ '' queue='' @ queue_path_to_string (co_queue c) @
     '' a='' @ sanitize_for_display (co_source_a c) 32 @ '' b='' @ sanitize_for_display (co_source_b c) 32 @
     '' value_a='' @ dec_u64 (co_value_a c) @ '' value_b='' @ dec_u64 (co_value_b c) @
     '' difference='' @ dec_u64 (co_difference c) @ '' tolerance='' @ dec_u64 (co_tolerance c) @
     '' active='' @ truth (co_active c) @ eol"

definition render_conflicts_report :: "conflict_record list \<Rightarrow> string" where
  "render_conflicts_report cs = concat (map conflict_line cs) @ ''conflicts='' @ dec_nat (length cs) @ eol"

section \<open>Ingest, status and recovery\<close>

definition diagnostic_line :: "decode_diagnostic \<Rightarrow> string" where
  "diagnostic_line d =
     ''  line='' @ dec_nat (dd_line d) @ '' status='' @ decode_status_text (dd_status d) @
     '' reason='' @ sanitize_for_display (dd_reason d) 256 @ eol"

definition failure_line :: "admission_failure \<Rightarrow> string" where
  "failure_line f =
     ''  index='' @ dec_nat (af_index f) @ '' outcome='' @ admission_outcome_text (af_outcome f) @
     '' queue='' @ queue_path_to_string (af_queue f) @
     '' reason='' @ sanitize_for_display (af_reason f) 256 @ eol"

definition decode_counts :: "decode_outcome \<Rightarrow> string" where
  "decode_counts d =
     ''lines='' @ dec_nat (do_lines d) @ '' records='' @ dec_nat (do_records d) @
     '' samples='' @ dec_nat (do_sample_count d) @ '' metadata_records='' @ dec_nat (do_metadata_records d) @
     '' skipped='' @ dec_nat (do_skipped d) @ '' malformed='' @ dec_nat (do_malformed d) @
     '' unsupported='' @ dec_nat (do_unsupported d) @
     '' version_mismatches='' @ dec_nat (do_version_mismatches d) @
     '' unknown_keys='' @ dec_nat (do_unknown_keys d) @ eol"

definition admission_counts :: "batch_admission \<Rightarrow> string" where
  "admission_counts a =
     ''presented='' @ dec_nat (ba_presented a) @ '' accepted='' @ dec_nat (ba_accepted a) @
     '' rejected='' @ dec_nat (ba_rejected a) @ '' fenced='' @ dec_nat (ba_fenced a) @
     '' duplicates='' @ dec_nat (ba_duplicates a) @ '' conflicts='' @ dec_nat (ba_conflicts a) @
     '' state_changes='' @ dec_nat (ba_state_changes a) @
     '' queues_created='' @ dec_nat (ba_queues_created a) @ eol"

definition render_ingest_report :: "ingest_report \<Rightarrow> string" where
  "render_ingest_report report =
     decode_counts (ir_decode report) @ admission_counts (ir_admission report) @
     concat (map diagnostic_line (do_diagnostics (ir_decode report))) @
     (if do_diagnostics_truncated (ir_decode report) then ''  diagnostics_truncated=true'' @ eol else []) @
     concat (map failure_line (ba_failures (ir_admission report))) @
     (if ba_failures_truncated (ir_admission report) then ''  admission_failures_truncated=true'' @ eol else [])"

definition render_runtime_status :: "runtime_status \<Rightarrow> string" where
  "render_runtime_status s =
     (let c = ru_counters s in
      ''state='' @ runtime_state_text (ru_state s) @ '' runtime_id='' @ sanitize_for_display (ru_runtime_id s) 32 @
      '' workers='' @ dec_nat (ru_worker_threads s) @ '' queued_documents='' @ dec_nat (ru_queued_documents s) @
      '' queued_samples='' @ dec_nat (ru_queued_samples s) @
      '' applied_documents='' @ dec_nat (ru_applied_documents s) @
      '' dropped_documents='' @ dec_nat (ru_dropped_documents s) @
      '' decode_failures='' @ dec_nat (ru_decode_failures s) @
      '' apply_order_violations='' @ dec_u64 (ru_apply_order_violations s) @ eol @
      ''queues='' @ dec_nat (ru_queues s) @ '' history_bytes='' @ dec_u64 (ru_history_bytes s) @
      '' samples_presented='' @ dec_u64 (c_samples_presented c) @
      '' samples_accepted='' @ dec_u64 (c_samples_accepted c) @
      '' samples_rejected='' @ dec_u64 (c_samples_rejected c) @
      '' samples_fenced='' @ dec_u64 (c_samples_fenced c) @
      '' duplicates_suppressed='' @ dec_u64 (c_duplicates_suppressed c) @
      '' counter_wraps='' @ dec_u64 (c_counter_wraps c) @ '' counter_resets='' @ dec_u64 (c_counter_resets c) @
      '' counter_ambiguous='' @ dec_u64 (c_counter_ambiguous c) @
      '' counter_discontinuous='' @ dec_u64 (c_counter_discontinuous c) @ eol @
      ''recovered_on_start='' @ truth (ru_recovered_on_start s) @
      (if ru_recovery_diagnostic s \<noteq> []
       then '' recovery_diagnostic='' @ sanitize_for_display (ru_recovery_diagnostic s) 256 else []) @ eol)"

definition render_recovery_summary :: "recovery_summary \<Rightarrow> string" where
  "render_recovery_summary s =
     ''attempted='' @ truth (rs_attempted s) @ '' recovered='' @ truth (rs_recovered s) @
     '' queues='' @ dec_nat (rs_queues s) @ '' samples='' @ dec_nat (rs_samples s) @
     '' presented='' @ dec_nat (rs_samples_presented s) @ '' rejected='' @ dec_nat (rs_samples_rejected s) @
     '' fenced='' @ dec_nat (rs_samples_fenced s) @ '' events='' @ dec_nat (rs_events s) @
     '' metadata_present='' @ truth (rs_metadata_present s) @
     '' evidence_marked_stale='' @ truth (rs_evidence_marked_stale s) @ eol @
     ''format_version='' @ dec_nat (unat (dp_format_version (rs_report s))) @
     '' header_crc_valid='' @ truth (dp_header_crc_valid (rs_report s)) @
     '' payload_crc_valid='' @ truth (dp_payload_crc_valid (rs_report s)) @
     '' truncated='' @ truth (dp_truncated (rs_report s)) @
     '' integrity_failed='' @ truth (dp_integrity_failed (rs_report s)) @
     '' records_parsed='' @ dec_u64 (dp_records_parsed (rs_report s)) @
     '' records_declared='' @ dec_u64 (dp_records_declared (rs_report s)) @ eol @
     (if rs_diagnostic s \<noteq> [] then ''diagnostic='' @ sanitize_for_display (rs_diagnostic s) 256 @ eol else [])"

section \<open>Lines\<close>

definition line_count :: "string \<Rightarrow> nat" where
  "line_count s = length (filter (\<lambda>c. c = CHR 0x0A) s)"

named_theorems line_simps \<open>how many line ends a part of a report has\<close>

lemma line_count_simps [line_simps]:
  "line_count [] = 0" "line_count (c # s) = (if c = CHR 0x0A then 1 else 0) + line_count s"
  "line_count (s @ t) = line_count s + line_count t"
  by (simp_all add: line_count_def)

lemma line_count_concat: "line_count (concat (map f xs)) = (\<Sum>x\<leftarrow>xs. line_count (f x))"
  by (induction xs) (simp_all add: line_simps)

lemma line_count_rows: "(\<And>x. line_count (f x) = 1) \<Longrightarrow> line_count (concat (map f xs)) = length xs"
  by (induction xs) (simp_all add: line_simps)

lemma line_count_dec_nat [line_simps]: "line_count (dec_nat n) = 0"
proof (induction n rule: dec_nat.induct)
  case (1 n)
  have "digit_char d \<noteq> CHR 0x0A" if "d < 10" for d
    using that by (simp add: digit_char_def char_of_eq_iff take_bit_eq_mod)
  then show ?case using 1 by (simp add: dec_nat.simps [of n] line_simps)
qed

lemma line_count_numbers [line_simps]:
  "line_count (dec_u64 w) = 0" "line_count (strong_id_to_string v) = 0"
  "line_count (reported_text x) = 0" "line_count (truth b) = 0"
  by (simp_all add: dec_u64_def strong_id_to_string_def reported_text_def truth_def line_simps split: option.splits)

lemma line_count_sanitized [line_simps]: "line_count (sanitize_for_display s n) = 0"
  by (auto simp: line_count_def sanitize_for_display_def filter_empty_conv)

lemma line_count_pad [line_simps]: "line_count (pad_right s n) = line_count s"
  by (simp add: pad_right_def line_count_def filter_empty_conv)

lemma line_count_state [line_simps]: "line_count (state_column v) = 0"
  by (cases v) (simp_all add: state_column_def line_simps)

lemma line_count_freshness [line_simps]: "line_count (freshness_text v) = 0"
  by (cases v) (simp_all add: line_simps)

lemma line_count_quality [line_simps]: "line_count (quality_text v) = 0"
  by (cases v) (simp_all add: line_simps)

lemma line_count_authority [line_simps]: "line_count (authority_text v) = 0"
  by (cases v) (simp_all add: line_simps)

lemma line_count_rule [line_simps]: "line_count (rule_name v) = 0"
  by (cases v) (simp_all add: line_simps)

lemma line_count_runtime [line_simps]: "line_count (runtime_state_text v) = 0"
  by (cases v) (simp_all add: line_simps)

lemma line_count_decode_status [line_simps]: "line_count (decode_status_text v) = 0"
  by (cases v) (simp_all add: line_simps)

lemma line_count_footer: "line_count (page_footer p) = 1"
  by (simp add: page_footer_def line_simps)

text \<open>The lines of the reports whose values are numbers, enumerators and sanitized text.\<close>

lemma plain_lines:
  "line_count (append_row (inspect_cells row) inspect_widths) = 1"
  "line_count (append_row (pressure_cells prow) pressure_widths) = 1"
  "line_count (microburst_line mb) = 1" "line_count (source_line src) = 1" "line_count (diagnostic_line d) = 1"
  by (simp_all add: append_row_def inspect_cells_def inspect_widths_def pressure_cells_def pressure_widths_def
      microburst_line_def source_line_def diagnostic_line_def line_simps)

lemma header_lines:
  "line_count (append_row inspect_header inspect_widths) = 1"
  "line_count (append_row pressure_header pressure_widths) = 1"
  by (simp_all add: append_row_def inspect_header_def inspect_widths_def pressure_header_def pressure_widths_def line_simps)

text \<open>A report has one line per record, whatever the names in it contain: nothing a device or an agent
  sends can forge a row of the tables, of the list of sources, of the bursts, or of the status.\<close>

theorem reports_one_line_per_record:
  "line_count (render_inspect_table result header) = length (pg_rows result) + (if header then 2 else 1)
   \<and> line_count (render_pressure_table presult header) = length (pg_rows presult) + (if header then 2 else 1)
   \<and> line_count (render_microburst_report mresult) = length (pg_rows (ms_page mresult)) + 1
   \<and> line_count (render_sources_report ss) = length ss + 1
   \<and> line_count (render_runtime_status rstatus) = 3
   \<and> line_count (render_recovery_summary summary) = (if rs_diagnostic summary = [] then 2 else 3)"
proof (intro conjI)
  show "line_count (render_inspect_table result header) = length (pg_rows result) + (if header then 2 else 1)"
    by (simp add: render_inspect_table_def line_count_rows plain_lines header_lines line_count_footer line_simps)
  show "line_count (render_pressure_table presult header) = length (pg_rows presult) + (if header then 2 else 1)"
    by (simp add: render_pressure_table_def line_count_rows plain_lines header_lines line_count_footer line_simps)
  show "line_count (render_microburst_report mresult) = length (pg_rows (ms_page mresult)) + 1"
    by (simp add: render_microburst_report_def line_count_rows plain_lines line_simps)
  show "line_count (render_sources_report ss) = length ss + 1"
    by (simp add: render_sources_report_def line_count_rows plain_lines line_simps)
  show "line_count (render_runtime_status rstatus) = 3"
    by (simp add: render_runtime_status_def Let_def line_simps)
  show "line_count (render_recovery_summary summary) = (if rs_diagnostic summary = [] then 2 else 3)"
    by (simp add: render_recovery_summary_def line_simps)
qed

text \<open>The history report prints the name of the window as the caller gave it, so a name with a line
  end adds a line to the report.\<close>

theorem window_name_forges_line:
  assumes "hs_found result" "hs_aggregate result = Some g"
  shows "line_count (render_history_report (result\<lparr>hs_aggregate := Some (g\<lparr>wa_spec := (wa_spec g)\<lparr>ws_name := n @ eol @ m\<rparr>\<rparr>)\<rparr>))
    = line_count (render_history_report (result\<lparr>hs_aggregate := Some (g\<lparr>wa_spec := (wa_spec g)\<lparr>ws_name := n @ m\<rparr>\<rparr>)\<rparr>)) + 1"
  using assms by (simp add: render_history_report_def render_aggregate_def line_simps)

end
