(* ===== verification/Documents.thy ===== *)
theory Documents
  imports Ingest
begin

text \<open>
  Reading a document from a file (\<^verbatim>\<open>read_document_file\<close> of \<^verbatim>\<open>src/ingest/Ingest.cpp\<close>). What the
  operating system answers about a path is a parameter.
\<close>

text \<open>What a C function prints of a string that it gets by its first character.\<close>

definition c_string :: "string \<Rightarrow> string" where
  "c_string s = takeWhile (\<lambda>c. c \<noteq> CHR 0x00) s"

text \<open>What the system answers about a path: the size, or an error; whether the file opens, and the bytes
  a single read can deliver, which may be more or fewer than the size said.\<close>

record document_file =
  df_size :: "nat option"
  df_bytes :: "string option"

type_synonym file_system = "string \<Rightarrow> document_file"

definition read_document_file :: "file_system \<Rightarrow> string \<Rightarrow> nat \<Rightarrow> string result" where
  "read_document_file fs path max_bytes =
     (case df_size (fs path) of
        None \<Rightarrow> Inl (failure IoError (''the document size could not be read: '' @ path))
      | Some bytes_there \<Rightarrow>
          if bytes_there > max_bytes
          then Inl (failure LimitExceeded (''the document is larger than the configured read limit: '' @ path))
          else case df_bytes (fs path) of
            None \<Rightarrow> Inl (failure IoError (''the document could not be opened: '' @ path))
          | Some bytes \<Rightarrow>
              let buffer = take bytes_there bytes in
              if length buffer \<noteq> bytes_there
              then Inl (failure IoError (''the document could not be read completely: '' @ path))
              else Inr buffer)"


text \<open>A document that was read is never longer than the limit, and every shorter file that can be read
  is read whole.\<close>

lemma read_document_file_bounded: "read_document_file fs path n = Inr document \<Longrightarrow> length document \<le> n"
  by (auto simp: read_document_file_def Let_def split: option.splits if_splits)

lemma read_document_file_whole:
  "\<lbrakk>df_size (fs path) = Some (length document); df_bytes (fs path) = Some document; length document \<le> n\<rbrakk>
   \<Longrightarrow> read_document_file fs path n = Inr document"
  by (simp add: read_document_file_def)

text \<open>A file that grew after its size was taken is read up to that size, and nobody is told.\<close>

lemma read_document_file_grown:
  "\<lbrakk>df_size (fs path) = Some (length document); df_bytes (fs path) = Some (document @ rest); length document \<le> n\<rbrakk>
   \<Longrightarrow> read_document_file fs path n = Inr document"
  by (simp add: read_document_file_def)

end
