(* ===== verification/Command.thy ===== *)
theory Command
  imports Documents Report Query_Properties Server
begin

text \<open>
  The command line (\<^verbatim>\<open>apps/qobs/main.cpp\<close>): the options, the queries that are built from them, and
  the commands. A command gives an exit code and what it writes to the two output streams. What the
  operating system says of a document file is a parameter, as are the facts that the compiler fixes
  when the program is built (\<^verbatim>\<open>core/Version.cpp\<close>).
\<close>

section \<open>Options\<close>

record options =
  op_command :: string
  op_values :: "(string \<times> string) list"
  op_positional :: "string list"

definition no_options :: options where
  "no_options = \<lparr>op_command = [], op_values = [], op_positional = []\<rparr>"

definition opt_get :: "options \<Rightarrow> string \<Rightarrow> string option" where
  "opt_get opts name = map_of (op_values opts) name"

definition opt_get_or :: "options \<Rightarrow> string \<Rightarrow> string \<Rightarrow> string" where
  "opt_get_or opts name fallback = (case opt_get opts name of None \<Rightarrow> fallback | Some v \<Rightarrow> v)"

definition opt_has :: "options \<Rightarrow> string \<Rightarrow> bool" where
  "opt_has opts name \<longleftrightarrow> opt_get opts name \<noteq> None"

definition opt_get_all :: "options \<Rightarrow> string \<Rightarrow> string list" where
  "opt_get_all opts name = map snd (filter (\<lambda>e. fst e = name) (op_values opts))"

definition kFlags :: "string list" where
  "kFlags =
     [''no-recover'', ''persist-on-stop'', ''trace'', ''json'', ''no-header'', ''summary-only'', ''history'',
      ''sufficient-only'', ''help'']"

definition is_boolean_flag :: "string \<Rightarrow> bool" where
  "is_boolean_flag name \<longleftrightarrow> name \<in> set kFlags"

definition is_option :: "string \<Rightarrow> bool" where
  "is_option token \<longleftrightarrow> length token > 2 \<and> take 2 token = ''--''"

definition add_word :: "string \<Rightarrow> options \<Rightarrow> options" where
  "add_word token opts =
     (if op_command opts = [] then opts\<lparr>op_command := token\<rparr> else opts\<lparr>op_positional := op_positional opts @ [token]\<rparr>)"

definition add_value :: "string \<Rightarrow> string \<Rightarrow> options \<Rightarrow> options" where
  "add_value name v opts = opts\<lparr>op_values := op_values opts @ [(name, v)]\<rparr>"

text \<open>The name and the value of a token of the form \<^verbatim>\<open>--name=value\<close>.\<close>

definition split_equals :: "string \<Rightarrow> string \<times> string" where
  "split_equals name = (takeWhile (\<lambda>c. c \<noteq> CHR ''='') name, tl (dropWhile (\<lambda>c. c \<noteq> CHR ''='') name))"

fun parse_tokens :: "string list \<Rightarrow> options \<Rightarrow> string + options" where
  "parse_tokens [] opts = Inr opts"
| "parse_tokens (token # rest) opts =
     (if \<not> is_option token then parse_tokens rest (add_word token opts)
      else let name = drop 2 token in
        if CHR ''='' \<in> set name
        then parse_tokens rest (add_value (fst (split_equals name)) (snd (split_equals name)) opts)
        else if is_boolean_flag name then parse_tokens rest (add_value name [] opts)
        else if rest = [] then Inl (''option --'' @ name @ '' requires a value'')
        else parse_tokens (tl rest) (add_value name (hd rest) opts))"

definition parse_options :: "string list \<Rightarrow> string + options" where
  "parse_options args =
     (if args = [] then Inl ''a command is required''
      else case parse_tokens args no_options of
        Inl error \<Rightarrow> Inl error
      | Inr opts \<Rightarrow> if op_command opts = [] then Inl ''a command is required'' else Inr opts)"

section \<open>Option values\<close>

definition parse_size_option :: "options \<Rightarrow> string \<Rightarrow> string + u64 option" where
  "parse_size_option opts name =
     (case opt_get opts name of
        None \<Rightarrow> Inr None
      | Some v \<Rightarrow>
          case parse_u64 v of
            None \<Rightarrow> Inl (''option --'' @ name @ '' requires a non-negative integer'')
          | Some n \<Rightarrow> Inr (Some n))"

definition parse_nanos_option :: "options \<Rightarrow> string \<Rightarrow> string + nanos option" where
  "parse_nanos_option opts name =
     (case opt_get opts name of
        None \<Rightarrow> Inr None
      | Some v \<Rightarrow>
          case parse_i64 v of
            None \<Rightarrow> Inl (''option --'' @ name @ '' requires a positive nanosecond duration'')
          | Some n \<Rightarrow>
              if n \<le> 0 then Inl (''option --'' @ name @ '' requires a positive nanosecond duration'')
              else Inr (Some n))"

text \<open>A step that may refuse the options, and the rest.\<close>

definition cli_try :: "string + 'a \<Rightarrow> ('a \<Rightarrow> string + 'b) \<Rightarrow> string + 'b" where
  "cli_try r f = (case r of Inl error \<Rightarrow> Inl error | Inr x \<Rightarrow> f x)"

definition parse_name_option :: "options \<Rightarrow> string \<Rightarrow> name_tag \<Rightarrow> string \<Rightarrow> string + string option" where
  "parse_name_option opts name tag error =
     (case opt_get opts name of
        None \<Rightarrow> Inr None
      | Some v \<Rightarrow> case strong_name_create tag v of Inl _ \<Rightarrow> Inl error | Inr n \<Rightarrow> Inr (Some n))"

definition parse_narrow_option :: "options \<Rightarrow> string \<Rightarrow> string \<Rightarrow> string + 'w::len word option" where
  "parse_narrow_option opts name error =
     cli_try (parse_size_option opts name) (\<lambda>v.
       case v of
         None \<Rightarrow> Inr None
       | Some n \<Rightarrow> case narrow_u n of None \<Rightarrow> Inl error | Some w \<Rightarrow> Inr (Some w))"

definition parse_state_option :: "options \<Rightarrow> string + pressure_state option" where
  "parse_state_option opts =
     (case opt_get opts ''state'' of
        None \<Rightarrow> Inr None
      | Some v \<Rightarrow>
          case parse_pressure_state v of
            None \<Rightarrow> Inl (''unknown pressure state '' @ [CHR 0x27] @ v @ [CHR 0x27])
          | Some s \<Rightarrow> Inr (Some s))"

definition build_filter :: "options \<Rightarrow> string + queue_filter" where
  "build_filter opts =
     cli_try (parse_name_option opts ''device'' DeviceTag ''the device filter is not a usable identity'') (\<lambda>device.
     cli_try (parse_name_option opts ''port'' PortTag ''the port filter is not a usable identity'') (\<lambda>port.
     cli_try (parse_narrow_option opts ''queue'' ''the queue filter does not fit in 32 bits'') (\<lambda>queue.
     cli_try (parse_name_option opts ''class'' SchedulingClassTag ''the class filter is not a usable identity'') (\<lambda>scheduling.
     cli_try (parse_narrow_option opts ''traffic-class'' ''the traffic class filter does not fit in 16 bits'') (\<lambda>traffic.
     cli_try (parse_state_option opts) (\<lambda>state.
       Inr \<lparr>qf_device = device, qf_port = port, qf_queue = queue, qf_traffic_class = traffic,
         qf_scheduling_class = scheduling, qf_state = state\<rparr>))))))"

definition size_or :: "nat \<Rightarrow> u64 option \<Rightarrow> nat" where
  "size_or fallback v = (case v of None \<Rightarrow> fallback | Some n \<Rightarrow> unat n)"

definition build_pagination :: "options \<Rightarrow> string + query_pagination" where
  "build_pagination opts =
     cli_try (parse_size_option opts ''limit'') (\<lambda>limit.
     cli_try (parse_size_option opts ''offset'') (\<lambda>offset.
       Inr \<lparr>pg_offset = size_or 0 offset, pg_limit = size_or 0 limit\<rparr>))"

definition default_window :: window_spec where
  "default_window = \<lparr>ws_name = [], ws_duration = 0, ws_bucket = 0, ws_min_covered_buckets = 1, ws_max_buckets = 64\<rparr>"

definition check_min_buckets :: "u64 option \<Rightarrow> window_spec \<Rightarrow> string + window_spec" where
  "check_min_buckets v window =
     (case v of
        None \<Rightarrow> Inr window
      | Some n \<Rightarrow>
          if n = 0 \<or> n > 0xFFFFFFFF then Inl ''option --min-buckets must be between 1 and 4294967295''
          else Inr (window\<lparr>ws_min_covered_buckets := ucast n\<rparr>))"

definition build_window :: "options \<Rightarrow> string + window_spec" where
  "build_window opts =
     cli_try (parse_nanos_option opts ''window-ns'') (\<lambda>duration.
     cli_try (parse_nanos_option opts ''bucket-ns'') (\<lambda>bucket.
     cli_try (parse_size_option opts ''min-buckets'') (\<lambda>min_buckets.
     cli_try (check_min_buckets min_buckets
         (default_window\<lparr>ws_name := opt_get_or opts ''window-name'' ''1s'',
           ws_duration := (case duration of None \<Rightarrow> ws_duration default_window | Some d \<Rightarrow> d),
           ws_bucket := (case bucket of None \<Rightarrow> ws_bucket default_window | Some b \<Rightarrow> b)\<rparr>)) (\<lambda>window.
       let window = window\<lparr>ws_max_buckets := 4096\<rparr>; status = validate_window_spec window
       in if \<not> status_ok status then Inl (error_to_string status) else Inr window))))"

definition parse_queue_path_option :: "options \<Rightarrow> string + queue_path" where
  "parse_queue_path_option opts =
     (case opt_get opts ''queue-path'' of
        None \<Rightarrow> Inl ''this command requires --queue-path device|port|queue''
      | Some v \<Rightarrow> case queue_path_parse v of Inl status \<Rightarrow> Inl (st_message status) | Inr path \<Rightarrow> Inr path)"

section \<open>Commands\<close>

record run_result =
  rr_exit :: int
  rr_out :: string
  rr_err :: string

definition finished :: "int \<Rightarrow> string \<Rightarrow> run_result" where
  "finished code text = \<lparr>rr_exit = code, rr_out = text, rr_err = []\<rparr>"

definition cli_fail :: "string \<Rightarrow> run_result" where
  "cli_fail message = \<lparr>rr_exit = 2, rr_out = [], rr_err = ''qobs: '' @ c_string message @ eol\<rparr>"

definition fail_status :: "status \<Rightarrow> run_result" where
  "fail_status status = \<lparr>rr_exit = 1, rr_out = [], rr_err = ''qobs: '' @ c_string (error_to_string status) @ eol\<rparr>"

type_synonym command = "observatory \<Rightarrow> run_result \<times> observatory"

text \<open>What has been written before a command fails stays written.\<close>

definition after_output :: "string \<Rightarrow> run_result \<Rightarrow> run_result" where
  "after_output text r = r\<lparr>rr_out := text @ rr_out r\<rparr>"

record ingest_totals =
  it_accepted :: nat
  it_rejected :: nat
  it_malformed :: nat

fun ingest_files ::
    "file_system \<Rightarrow> 'd doubles \<Rightarrow> string list \<Rightarrow> ingest_totals \<Rightarrow> string \<Rightarrow> command" where
  "ingest_files fs lib [] tally text ob =
     (finished (if it_rejected tally = 0 \<and> it_malformed tally = 0 then 0 else 3)
       (text @ ''total_accepted='' @ dec_nat (it_accepted tally) @ '' total_rejected='' @ dec_nat (it_rejected tally) @
        '' total_malformed='' @ dec_nat (it_malformed tally) @ eol), ob)"
| "ingest_files fs lib (path # paths) tally text ob =
     (case read_document_file fs path (max_payload_bytes (oc_ingest (ob_config ob))) of
        Inl status \<Rightarrow> (after_output text (fail_status status), ob)
      | Inr document \<Rightarrow>
          case ingest_document_now lib document ob of (status, report, ob') \<Rightarrow>
            if \<not> status_ok status then (after_output text (fail_status status), ob')
            else ingest_files fs lib paths
              \<lparr>it_accepted = it_accepted tally + ba_accepted (ir_admission report),
               it_rejected = it_rejected tally + ba_rejected (ir_admission report),
               it_malformed = it_malformed tally + do_malformed (ir_decode report)\<rparr>
              (text @ c_string (render_ingest_report report)) ob')"

definition run_ingest :: "file_system \<Rightarrow> 'd doubles \<Rightarrow> options \<Rightarrow> command" where
  "run_ingest fs lib opts ob =
     (if opt_get_all opts ''file'' = [] then (cli_fail ''ingest requires at least one --file'', ob)
      else ingest_files fs lib (opt_get_all opts ''file'') \<lparr>it_accepted = 0, it_rejected = 0, it_malformed = 0\<rparr> [] ob)"

text \<open>A query that leaves the runtime as it is, and one that reads the clock of its store.\<close>

definition answer :: "status \<times> 'r \<Rightarrow> ('r \<Rightarrow> run_result) \<Rightarrow> run_result" where
  "answer q show_result = (case q of (status, r) \<Rightarrow> if \<not> status_ok status then fail_status status else show_result r)"

definition answer_ticking :: "status \<times> 'r \<times> store \<Rightarrow> ('r \<Rightarrow> run_result) \<Rightarrow> command" where
  "answer_ticking q show_result ob =
     (case q of (status, r, st) \<Rightarrow>
        (if \<not> status_ok status then fail_status status else show_result r, ob\<lparr>ob_store := st\<rparr>))"

text \<open>The query or the complaint about the options.\<close>

definition with_query :: "string + 'q \<Rightarrow> ('q \<Rightarrow> command) \<Rightarrow> command" where
  "with_query q run ob = (case q of Inl error \<Rightarrow> (cli_fail error, ob) | Inr query \<Rightarrow> run query ob)"

definition filter_and_page :: "options \<Rightarrow> string + (queue_filter \<times> query_pagination)" where
  "filter_and_page opts = cli_try (build_filter opts) (\<lambda>f. cli_try (build_pagination opts) (\<lambda>p. Inr (f, p)))"

definition run_inspect :: "options \<Rightarrow> command" where
  "run_inspect opts =
     with_query (filter_and_page opts) (\<lambda>(f, p) ob.
       (answer (inspect \<lparr>iq_filter = f, iq_page = p\<rparr> (ob_store ob))
          (\<lambda>result. finished 0 (c_string (render_inspect_table result (\<not> opt_has opts ''no-header'')))), ob))"

definition run_history :: "options \<Rightarrow> command" where
  "run_history opts =
     with_query
       (cli_try (parse_queue_path_option opts) (\<lambda>queue.
        cli_try (build_window opts) (\<lambda>window.
        cli_try (build_pagination opts) (\<lambda>page.
          Inr \<lparr>hq_queue = queue, hq_window = window, hq_page = page,
            hq_include_records = (\<not> opt_has opts ''summary-only'')\<rparr>))))
       (\<lambda>query ob. answer_ticking (history query (ob_store ob))
         (\<lambda>result. finished (if hs_found result then 0 else 4) (c_string (render_history_report result))) ob)"

definition trace_text :: "trace_entry \<Rightarrow> string" where
  "trace_text e =
     ''  rule='' @ rule_name (te_rule e) @ '' matched='' @ truth (te_matched e) @ '' operand='' @ dec_u64 (te_operand e) @
     '' threshold='' @ dec_u64 (te_threshold e) @ '' detail='' @ c_string (te_detail e) @ eol"

definition render_traces :: "pressure_row list \<Rightarrow> string" where
  "render_traces rows =
     concat (map (\<lambda>row. ''trace '' @ c_string (queue_path_to_string (pr_queue row)) @ eol @ concat (map trace_text (pr_trace row))) rows)"

definition run_pressure :: "options \<Rightarrow> command" where
  "run_pressure opts =
     with_query (filter_and_page opts) (\<lambda>(f, p) ob.
       (answer (pressure \<lparr>pq_filter = f, pq_page = p, pq_include_trace = opt_has opts ''trace''\<rparr> (ob_store ob))
          (\<lambda>result. finished 0 (c_string (render_pressure_table result (\<not> opt_has opts ''no-header'')) @
            (if opt_has opts ''trace'' then render_traces (pg_rows result) else []))), ob))"

definition run_explain :: "options \<Rightarrow> command" where
  "run_explain opts =
     with_query (parse_queue_path_option opts) (\<lambda>queue ob.
       (answer (explain \<lparr>xq_queue = queue, xq_policy = None\<rparr> (ob_store ob))
          (\<lambda>result.
             if \<not> xr_found result
             then finished 4 (''queue='' @ c_string (queue_path_to_string queue) @ '' found=false'' @ eol)
             else finished 0 (c_string (xr_explanation result) @ ''explanation_digest='' @
               dec_u64 (cr_explanation_digest (xr_classification result)) @ eol)), ob))"

definition export_window :: "options \<Rightarrow> string + window_spec" where
  "export_window opts = (if opt_has opts ''history'' then build_window opts else Inr default_window)"

definition export_format_option :: "options \<Rightarrow> string + export_format" where
  "export_format_option opts =
     (let format = opt_get_or opts ''format'' ''ndjson'' in
      case parse_export_format format of
        None \<Rightarrow> Inl (''unknown export format '' @ [CHR 0x27] @ format @ [CHR 0x27])
      | Some f \<Rightarrow> Inr f)"

definition run_export :: "options \<Rightarrow> command" where
  "run_export opts =
     with_query
       (cli_try (filter_and_page opts) (\<lambda>(f, p).
        cli_try (export_format_option opts) (\<lambda>format.
        cli_try (export_window opts) (\<lambda>window.
          Inr \<lparr>oq_filter = f, oq_page = p, oq_format = format, oq_include_history = opt_has opts ''history'', oq_window = window\<rparr>))))
       (\<lambda>query ob. answer_ticking (export_data query (ob_store ob))
         (\<lambda>result. \<lparr>rr_exit = 0, rr_out = c_string (or_document result),
            rr_err = ''rows='' @ dec_nat (or_rows result) @ '' history_records='' @ dec_nat (or_history_records result) @
              '' truncated='' @ truth (or_truncated result) @ eol\<rparr>) ob)"

definition run_status :: command where
  "run_status ob = (finished 0 (c_string (render_runtime_status (observatory_status ob))), ob)"

definition run_recover :: "io_faults \<Rightarrow> observatory \<Rightarrow> (run_result \<times> observatory) option" where
  "run_recover io ob =
     (case recover_observatory io ob of
        None \<Rightarrow> None
      | Some (status, summary, ob') \<Rightarrow>
          Some (if \<not> status_ok status then fail_status status
            else finished (if rs_recovered summary then 0 else 4) (c_string (render_recovery_summary summary)), ob'))"

definition parse_kind_option :: "options \<Rightarrow> string + event_kind option" where
  "parse_kind_option opts =
     (case opt_get opts ''kind'' of
        None \<Rightarrow> Inr None
      | Some v \<Rightarrow>
          case List.find (\<lambda>k. event_kind_text k = v) all_kinds of
            None \<Rightarrow> Inl (''unknown event kind '' @ [CHR 0x27] @ v @ [CHR 0x27])
          | Some k \<Rightarrow> Inr (Some k))"

definition parse_severity_option :: "options \<Rightarrow> string + severity option" where
  "parse_severity_option opts =
     (case opt_get opts ''min-severity'' of
        None \<Rightarrow> Inr None
      | Some v \<Rightarrow>
          case List.find (\<lambda>s. severity_text s = v) [Sev_Debug, Sev_Info, Sev_Notice, Sev_Warning, Sev_Error] of
            None \<Rightarrow> Inl (''unknown severity '' @ [CHR 0x27] @ v @ [CHR 0x27])
          | Some s \<Rightarrow> Inr (Some s))"

definition run_events :: "options \<Rightarrow> command" where
  "run_events opts =
     with_query
       (cli_try (parse_kind_option opts) (\<lambda>kind.
        cli_try (parse_severity_option opts) (\<lambda>severity.
        cli_try (build_pagination opts) (\<lambda>page.
          Inr \<lparr>eq_kind = kind, eq_queue = None, eq_min_severity = severity, eq_page = page\<rparr>))))
       (\<lambda>query ob. (answer (events query (ob_store ob)) (\<lambda>result. finished 0 (c_string (render_events_report result))), ob))"

definition run_sources :: command where
  "run_sources ob = (answer (sources (ob_store ob)) (\<lambda>r. finished 0 (c_string (render_sources_report r))), ob)"

definition run_conflicts :: command where
  "run_conflicts ob = (answer (conflicts (ob_store ob)) (\<lambda>r. finished 0 (c_string (render_conflicts_report r))), ob)"

definition run_burst :: "options \<Rightarrow> command" where
  "run_burst opts =
     with_query (filter_and_page opts) (\<lambda>(f, p) ob.
       answer_ticking
         (microburst \<lparr>mq_filter = f, mq_page = p, mq_include_insufficient = (\<not> opt_has opts ''sufficient-only'')\<rparr> (ob_store ob))
         (\<lambda>result. finished 0 (c_string (render_microburst_report result))) ob)"

definition port_selector :: "options \<Rightarrow> string + port_path option" where
  "port_selector opts =
     (if \<not> opt_has opts ''device'' \<and> \<not> opt_has opts ''port'' then Inr None
      else case (opt_get opts ''device'', opt_get opts ''port'') of
        (Some d, Some p) \<Rightarrow>
          (case (strong_name_create DeviceTag d, strong_name_create PortTag p) of
             (Inr device, Inr port) \<Rightarrow> Inr (Some (PortPath device port))
           | _ \<Rightarrow> Inl ''the port selector is not a usable identity'')
      | _ \<Rightarrow> Inl ''--device and --port must be supplied together for a contention query'')"

definition run_contend :: "options \<Rightarrow> command" where
  "run_contend opts =
     with_query
       (cli_try (port_selector opts) (\<lambda>port.
        cli_try (parse_name_option opts ''class'' SchedulingClassTag ''the class filter is not a usable identity'') (\<lambda>scheduling.
        cli_try (build_pagination opts) (\<lambda>page.
          Inr \<lparr>cq_port = port, cq_scheduling_class = scheduling, cq_page = page\<rparr>))))
       (\<lambda>query ob. answer_ticking (contention query (ob_store ob))
         (\<lambda>result. finished 0 (c_string (render_contention_report result))) ob)"

section \<open>The program\<close>

definition usage_lines :: "string list" where
  "usage_lines =
     [''Queue Observatory -- observation and historical interpretation of network queue state'',
      [],
      ''usage: qobs <command> [options]'',
      [],
      ''commands:'',
      ''  ingest     decode and apply observation documents'',
      ''  inspect    list tracked queues with their current state'',
      ''  history    show the bounded history and an aggregated window of one queue'',
      ''  pressure   show the deterministic pressure classification of every queue'',
      ''  explain    show the full decision trace that produced one queue state'',
      ''  export     write a deterministic machine-readable export'',
      ''  status     show runtime counters and persistence statistics'',
      ''  recover    re-read the newest persistence segment and report what was usable'',
      ''  events     show the bounded event log'',
      ''  sources    show the source registry and its fencing counters'',
      ''  conflicts  show recorded peer disagreements'',
      ''  burst      show observed microburst evidence'',
      ''  contend    show sibling contention correlation'',
      ''  version    show build information'',
      [],
      ''common options:'',
      ''  --file <path>            document to ingest (repeatable)'',
      ''  --persist-dir <path>     enable persistence in this directory'',
      ''  --no-recover             do not recover persisted evidence on start'',
      ''  --persist-on-stop        write a snapshot when the run ends'',
      ''  --workers <n>            background applier threads (default 0: synchronous)'',
      ''  --device <name>          filter by device'',
      ''  --port <name>            filter by port'',
      ''  --queue <index>          filter by queue index'',
      ''  --class <name>           filter by scheduling class'',
      ''  --traffic-class <n>      filter by traffic class'',
      ''  --state <name>           filter by pressure state'',
      ''  --limit <n>              page size (default 100)'',
      ''  --offset <n>             page offset'',
      ''  --window-name <name>     window label (default 1s)'',
      ''  --window-ns <n>          window duration in nanoseconds (default 1000000000)'',
      ''  --bucket-ns <n>          window bucket in nanoseconds (default 125000000)'',
      ''  --min-buckets <n>        covered buckets required for a claim (default 1)'',
      ''  --trace                  include the full decision trace'',
      ''  --json                   emit JSON where the command supports it'']"

definition usage_text :: string where
  "usage_text = concat (map (\<lambda>l. l @ eol) usage_lines)"

definition with_usage :: "run_result \<Rightarrow> run_result" where
  "with_usage r = r\<lparr>rr_err := usage_text @ rr_err r\<rparr>"

definition run_command ::
    "file_system \<Rightarrow> 'd doubles \<Rightarrow> io_faults \<Rightarrow> options \<Rightarrow> observatory
     \<Rightarrow> (run_result \<times> observatory) option" where
  "run_command fs lib io opts ob =
     (let c = op_command opts in
      if c = ''ingest'' then Some (run_ingest fs lib opts ob)
      else if c = ''inspect'' then Some (run_inspect opts ob)
      else if c = ''history'' then Some (run_history opts ob)
      else if c = ''pressure'' then Some (run_pressure opts ob)
      else if c = ''explain'' then Some (run_explain opts ob)
      else if c = ''export'' then Some (run_export opts ob)
      else if c = ''status'' then Some (run_status ob)
      else if c = ''recover'' then run_recover io ob
      else if c = ''events'' then Some (run_events opts ob)
      else if c = ''sources'' then Some (run_sources ob)
      else if c = ''conflicts'' then Some (run_conflicts ob)
      else if c = ''burst'' then Some (run_burst opts ob)
      else if c = ''contend'' then Some (run_contend opts ob)
      else Some (with_usage (cli_fail (''unknown command '' @ [CHR 0x27] @ c @ [CHR 0x27])), ob))"

definition default_observatory_config :: observatory_config where
  "default_observatory_config =
     \<lparr>oc_policy = default_pressure_policy, oc_ingest = default_ingest_limits, oc_history = default_history_limits,
      oc_query = default_query_limits, oc_persistence = default_persistence_limits,
      oc_runtime = default_runtime_limits, oc_transport = default_transport_limits,
      oc_persistence_directory = None, oc_recover_on_start = True, oc_persist_on_stop = False\<rparr>"

definition cli_config :: "options \<Rightarrow> string + observatory_config" where
  "cli_config opts =
     cli_try (parse_size_option opts ''workers'') (\<lambda>workers.
       Inr (default_observatory_config
         \<lparr>oc_runtime := default_runtime_limits\<lparr>worker_threads := size_or 0 workers\<rparr>,
          oc_persistence_directory := opt_get opts ''persist-dir'',
          oc_recover_on_start := (\<not> opt_has opts ''no-recover''),
          oc_persist_on_stop := opt_has opts ''persist-on-stop''\<rparr>))"

definition stop_after ::
    "io_faults \<Rightarrow> run_result \<times> observatory \<Rightarrow> run_result \<times> observatory" where
  "stop_after io r =
     (case r of (result, ob) \<Rightarrow>
        case stop_observatory io ob of (stopped, ob') \<Rightarrow>
          (if \<not> status_ok stopped \<and> rr_exit result = 0
           then (fail_status stopped)\<lparr>rr_out := rr_out result, rr_err := rr_err result @ rr_err (fail_status stopped)\<rparr>
           else result, ob'))"

text \<open>The destructor of the runtime stops it.\<close>

definition destroy_observatory :: "io_faults \<Rightarrow> observatory \<Rightarrow> observatory" where
  "destroy_observatory io ob = snd (stop_observatory io ob)"

text \<open>The program after the options were read: what it prints, and the runtime when there was one.\<close>

definition run_options ::
    "file_system \<Rightarrow> 'd doubles \<Rightarrow> io_faults \<Rightarrow> nat \<Rightarrow> (nat \<Rightarrow> receive_time) \<Rightarrow> disk
     \<Rightarrow> options \<Rightarrow> (run_result \<times> observatory option) option" where
  "run_options fs lib io record_size clock d opts =
     (case cli_config opts of
        Inl error \<Rightarrow> Some (cli_fail error, None)
      | Inr config \<Rightarrow>
          case create_observatory config record_size clock d of
            Inl status \<Rightarrow> Some (fail_status status, None)
          | Inr ob \<Rightarrow>
              case start_observatory io ob of
                None \<Rightarrow> None
              | Some (started, ob1) \<Rightarrow>
                  if \<not> status_ok started then Some (fail_status started, Some (destroy_observatory io ob1))
                  else case run_command fs lib io opts ob1 of
                    None \<Rightarrow> None
                  | Some r \<Rightarrow> (case stop_after io r of (result, ob2) \<Rightarrow> Some (result, Some (destroy_observatory io ob2))))"

text \<open>What the compiler said of itself while the program was built.\<close>

datatype compiler = Msvc | Clang | Gnuc | Other_Compiler

record build_facts =
  bf_compiler :: compiler
  bf_ndebug :: bool
  bf_address_sanitizer :: bool
  bf_lock_audit :: bool

definition kPersistenceFormatVersion :: nat where "kPersistenceFormatVersion = 1"

definition kPolicyVersion :: nat where "kPolicyVersion = 1"

fun build_compiler :: "compiler \<Rightarrow> string" where
  "build_compiler Msvc = ''msvc''"
| "build_compiler Clang = ''clang''"
| "build_compiler Gnuc = ''gcc''"
| "build_compiler Other_Compiler = ''unknown''"

definition build_configuration :: "build_facts \<Rightarrow> string" where
  "build_configuration b = (if bf_ndebug b then ''release'' else ''debug'')"

definition version_text :: "build_facts \<Rightarrow> string" where
  "version_text b =
     ''qobs '' @ kVersionString @ '' compiler='' @ build_compiler (bf_compiler b) @
     '' configuration='' @ build_configuration b @
     '' sanitizer='' @ (if bf_address_sanitizer b then ''yes'' else ''no'') @
     '' lock_audit='' @ (if bf_lock_audit b then ''enabled'' else ''disabled'') @ eol @
     ''persistence_format='' @ dec_nat kPersistenceFormatVersion @ '' wire_format='' @ dec_u64 kWireFormatVersion @
     '' policy='' @ dec_nat kPolicyVersion @ eol"

definition is_help :: "string \<Rightarrow> bool" where
  "is_help command \<longleftrightarrow> command = ''help'' \<or> command = ''--help'' \<or> command = ''-h''"

definition qobs_main ::
    "file_system \<Rightarrow> 'd doubles \<Rightarrow> io_faults \<Rightarrow> nat \<Rightarrow> (nat \<Rightarrow> receive_time) \<Rightarrow> disk
     \<Rightarrow> build_facts \<Rightarrow> string list \<Rightarrow> (run_result \<times> observatory option) option" where
  "qobs_main fs lib io record_size clock d build args =
     (case parse_options args of
        Inl error \<Rightarrow> Some (with_usage (cli_fail error), None)
      | Inr opts \<Rightarrow>
          if is_help (op_command opts) then Some (finished 0 usage_text, None)
          else if op_command opts = ''version'' then Some (finished 0 (version_text build), None)
          else run_options fs lib io record_size clock d opts)"

end
