(* ===== verification/Command_Properties.thy ===== *)
theory Command_Properties
  imports Command Observatory_Properties
begin

text \<open>
  Properties of the command line: the options that reach a command, what a command may change, and what
  the exit code says.
\<close>

section \<open>Options\<close>

text \<open>Tokens that are options with their values, and nothing else.\<close>

fun complete_options :: "string list \<Rightarrow> bool" where
  "complete_options [] = True"
| "complete_options (token # rest) \<longleftrightarrow>
     is_option token \<and>
     (if CHR ''='' \<in> set (drop 2 token) \<or> is_boolean_flag (drop 2 token) then complete_options rest
      else rest \<noteq> [] \<and> complete_options (tl rest))"

lemma add_word_value: "add_word w (add_value name v opts) = add_value name v (add_word w opts)"
  by (simp add: add_word_def add_value_def)

lemma parse_tokens_word: "\<not> is_option w \<Longrightarrow> parse_tokens (w # rest) opts = parse_tokens rest (add_word w opts)"
  by simp

lemma parse_tokens_shift:
  "\<lbrakk>complete_options pre; \<not> is_option w\<rbrakk> \<Longrightarrow>
   parse_tokens (pre @ w # post) opts = parse_tokens (pre @ post) (add_word w opts)"
proof (induction pre arbitrary: opts rule: complete_options.induct)
  case (2 token rest)
  then show ?case by (cases rest) (auto simp: Let_def add_word_value split: if_splits)
qed simp

text \<open>An option in the form \<^verbatim>\<open>--name=value\<close>.\<close>

definition shown_option :: "string \<times> string \<Rightarrow> string" where
  "shown_option e = ''--'' @ fst e @ ''='' @ snd e"

definition shown_options :: "options \<Rightarrow> string list" where
  "shown_options opts = op_command opts # map shown_option (op_values opts) @ op_positional opts"

lemma split_equals_print: "CHR ''='' \<notin> set n \<Longrightarrow> split_equals (n @ CHR ''='' # v) = (n, v)"
  by (induction n) (auto simp: split_equals_def)

lemma parse_tokens_values:
  "list_all (\<lambda>e. CHR ''='' \<notin> set (fst e)) es \<Longrightarrow>
   parse_tokens (map shown_option es @ rest) opts = parse_tokens rest (opts\<lparr>op_values := op_values opts @ es\<rparr>)"
proof (induction es arbitrary: opts)
  case (Cons e es)
  then show ?case
    by (cases e) (simp add: shown_option_def is_option_def split_equals_print add_value_def Let_def)
qed simp

lemma parse_tokens_positional:
  "\<lbrakk>list_all (\<lambda>w. \<not> is_option w) ws; op_command opts \<noteq> []\<rbrakk> \<Longrightarrow>
   parse_tokens ws opts = Inr (opts\<lparr>op_positional := op_positional opts @ ws\<rparr>)"
  by (induction ws arbitrary: opts) (simp_all add: add_word_def)

lemma parse_tokens_plain:
  "\<lbrakk>parse_tokens ts opts = Inr opts'; \<not> is_option (op_command opts); list_all (\<lambda>w. \<not> is_option w) (op_positional opts)\<rbrakk>
   \<Longrightarrow> \<not> is_option (op_command opts') \<and> list_all (\<lambda>w. \<not> is_option w) (op_positional opts')"
  by (induction ts opts rule: parse_tokens.induct)
    (auto simp: add_word_def add_value_def Let_def split: if_splits)

text \<open>Options may stand before or after the command. Moving a command behind the complete options that
  precede it changes nothing of what is parsed, nor of the complaint when the rest is refused.\<close>

theorem command_position_irrelevant:
  assumes "complete_options pre" "\<not> is_option command"
  shows "parse_options (pre @ command # post) = parse_options (command # pre @ post)"
  using parse_tokens_shift [OF assms] assms(2) by (simp add: parse_options_def)

theorem command_position_irrelevant_witness:
  "parse_options ([''--limit'', ''5'', ''--trace''] @ ''pressure'' # [''--device=a'']) =
   parse_options (''pressure'' # [''--limit'', ''5'', ''--trace''] @ [''--device=a''])"
  by (rule command_position_irrelevant) (simp_all add: is_option_def is_boolean_flag_def kFlags_def)

text \<open>Every value can be handed to a command. Printing options as \<^verbatim>\<open>--name=value\<close> and parsing the
  result gives the options back in order, whatever the values hold, dashes, equal signs and empty values
  included.\<close>

theorem options_round_trip:
  assumes "op_command opts \<noteq> []" "\<not> is_option (op_command opts)"
    and "list_all (\<lambda>e. CHR ''='' \<notin> set (fst e)) (op_values opts)"
    and "list_all (\<lambda>w. \<not> is_option w) (op_positional opts)"
  shows "parse_options (shown_options opts) = Inr opts"
  using assms
  by (simp add: parse_options_def shown_options_def parse_tokens_values parse_tokens_positional add_word_def no_options_def)

theorem options_round_trip_witness:
  "\<exists>opts. op_values opts = [(''kind'', ''--=a=''), (''limit'', [])] \<and> parse_options (shown_options opts) = Inr opts"
  using options_round_trip [of "\<lparr>op_command = ''events'', op_values = [(''kind'', ''--=a=''), (''limit'', [])], op_positional = [''x'']\<rparr>"]
  by (intro exI [of _ "\<lparr>op_command = ''events'', op_values = [(''kind'', ''--=a=''), (''limit'', [])], op_positional = [''x'']\<rparr>"])
    (simp add: is_option_def)

text \<open>The options that are accepted never have an option as their command: the comparison of the command
  with \<^verbatim>\<open>--help\<close> in \<^verbatim>\<open>main\<close> never succeeds, and \<^verbatim>\<open>qobs --help\<close> is refused as a missing command.\<close>

theorem help_option_refused:
  "(parse_options args = Inr opts \<longrightarrow> op_command opts \<noteq> ''--help'')
   \<and> parse_options [''--help''] = Inl ''a command is required''"
proof -
  have "\<not> is_option (op_command opts)" if "parse_options args = Inr opts"
    using that parse_tokens_plain [of args no_options opts]
    by (auto simp: parse_options_def no_options_def is_option_def split: if_splits sum.splits)
  then show ?thesis
    by (auto simp: is_option_def parse_options_def is_boolean_flag_def kFlags_def add_value_def no_options_def Let_def)
qed

section \<open>Windows\<close>

lemma cli_try_Inr [simp]: "cli_try (Inr x) f = f x"
  by (simp add: cli_try_def)

lemma cli_try_Inl [simp]: "cli_try (Inl e) f = Inl e"
  by (simp add: cli_try_def)

lemma cli_try_eq_Inr: "cli_try r f = Inr y \<longleftrightarrow> (\<exists>x. r = Inr x \<and> f x = Inr y)"
  by (cases r) simp_all

lemma build_window_valid:
  "build_window opts = Inr window \<Longrightarrow> status_ok (validate_window_spec window)"
  by (auto simp: build_window_def cli_try_eq_Inr Let_def split: if_splits)

lemma build_window_sizes:
  assumes "build_window opts = Inr window"
  shows "opt_get opts ''window-ns'' = None \<Longrightarrow> ws_duration window = 0"
    "opt_get opts ''bucket-ns'' = None \<Longrightarrow> ws_bucket window = 0"
  using assms
  by (auto simp: build_window_def cli_try_eq_Inr Let_def parse_nanos_option_def check_min_buckets_def default_window_def
      split: if_splits option.splits)

lemma build_window_given:
  assumes "build_window opts = Inr window"
  shows "opt_get opts ''window-ns'' \<noteq> None" "opt_get opts ''bucket-ns'' \<noteq> None"
proof -
  have "ws_duration window > 0" "ws_bucket window > 0"
    using build_window_valid [OF assms] by (simp_all add: validate_window_spec_def not_le)
  then show "opt_get opts ''window-ns'' \<noteq> None" "opt_get opts ''bucket-ns'' \<noteq> None"
    using build_window_sizes [OF assms] by auto
qed

text \<open>A history needs an explicit window. The defaults of one second in buckets of an eighth that the help
  text promises do not exist: without a window size, or without a bucket size, the command refuses its
  options, whatever the runtime holds, and leaves the runtime as it was.\<close>

theorem history_needs_window:
  assumes "opt_get opts ''window-ns'' = None \<or> opt_get opts ''bucket-ns'' = None"
  shows "\<exists>complaint. run_history opts ob = (cli_fail complaint, ob)"
proof -
  obtain complaint where "build_window opts = Inl complaint"
    using build_window_given [of opts] assms by (cases "build_window opts") fastforce+
  then show ?thesis
    by (cases "parse_queue_path_option opts") (auto simp: run_history_def with_query_def)
qed

theorem history_needs_window_witness:
  "\<exists>complaint. run_history \<lparr>op_command = ''history'', op_values = [(''queue-path'', ''d|p|1'')], op_positional = []\<rparr> (demo_observatory 0) =
     (cli_fail complaint, demo_observatory 0)"
  by (rule history_needs_window) (simp add: opt_get_def)

section \<open>Commands\<close>

text \<open>A command that leaves everything of the runtime but the reading of the clock.\<close>

definition observes :: "command \<Rightarrow> bool" where
  "observes c \<longleftrightarrow> (\<forall>ob. \<exists>r st. c ob = (r, ob\<lparr>ob_store := st\<rparr>) \<and> only_ticks (ob_store ob) st)"

lemma observes_idle: "(\<And>ob. \<exists>r. c ob = (r, ob)) \<Longrightarrow> observes c"
  unfolding observes_def by (metis observatory.surjective observatory.update_convs(2) only_ticks_refl)

lemma observes_ticking:
  "(\<And>st. only_ticks st (snd (snd (q st)))) \<Longrightarrow> observes (\<lambda>ob. answer_ticking (q (ob_store ob)) f ob)"
  unfolding observes_def answer_ticking_def case_prod_beta by (intro allI exI conjI, rule refl, simp)

lemma observes_query: "(\<And>query. observes (run query)) \<Longrightarrow> observes (with_query q run)"
  by (cases q) (simp_all add: with_query_def [abs_def] observes_idle)

lemma observing_commands:
  "observes (run_inspect opts)" "observes (run_history opts)" "observes (run_pressure opts)"
  "observes (run_explain opts)" "observes (run_export opts)" "observes (run_events opts)"
  "observes (run_burst opts)" "observes (run_contend opts)"
  unfolding run_inspect_def run_history_def run_pressure_def run_explain_def run_export_def
    run_events_def run_burst_def run_contend_def
  by (rule observes_query; (simp only: split_paired_all prod.case)?;
      (rule observes_ticking observes_idle; simp add: queries_only_read_clock))+

lemma observing_lists: "observes run_status" "observes run_sources" "observes run_conflicts"
  by (simp_all add: observes_idle run_status_def run_sources_def run_conflicts_def)

text \<open>C32: Commands only observe. Whatever the options, every command but \<^verbatim>\<open>ingest\<close> and \<^verbatim>\<open>recover\<close>, an
  unknown one included, returns and leaves the runtime as it was: its evidence, its counters, its documents and
  its files; queries with a window read the clock, and that is all that changes.\<close>

theorem commands_only_observe:
  assumes "op_command opts \<noteq> ''ingest''" "op_command opts \<noteq> ''recover''"
  shows "\<exists>r st. run_command fs lib io opts ob = Some (r, ob\<lparr>ob_store := st\<rparr>) \<and> only_ticks (ob_store ob) st"
proof -
  have step: "\<exists>r st. Some (c ob) = Some (r, ob\<lparr>ob_store := st\<rparr>) \<and> only_ticks (ob_store ob) st" if "observes c" for c
    using that by (simp add: observes_def)
  have unknown: "observes (\<lambda>ob. (r, ob))" for r by (simp add: observes_idle)
  show ?thesis
    using assms observing_commands [of opts, THEN step] observing_lists [THEN step] step [OF unknown]
    by (auto simp: run_command_def Let_def)
qed

theorem commands_only_observe_witness:
  "\<exists>r st. run_command (\<lambda>_. \<lparr>df_size = None, df_bytes = None\<rparr>) no_doubles no_faults
      \<lparr>op_command = ''status'', op_values = [], op_positional = []\<rparr> (demo_observatory 0) =
      Some (r, (demo_observatory 0)\<lparr>ob_store := st\<rparr>) \<and> only_ticks (ob_store (demo_observatory 0)) st"
  by (rule commands_only_observe) simp_all

section \<open>Exit codes\<close>

text \<open>A result whose failures are explained on the error stream.\<close>

definition explained :: "run_result \<Rightarrow> bool" where
  "explained r \<longleftrightarrow> rr_exit r \<in> {0, 1, 2, 3, 4} \<and> (rr_exit r \<in> {1, 2} \<longrightarrow> rr_err r \<noteq> [])"

lemma explained_outcomes [simp]:
  "explained (finished 0 t)" "explained (finished 3 t)" "explained (finished 4 t)"
  "explained (cli_fail m)" "explained (fail_status s)" "explained \<lparr>rr_exit = 0, rr_out = t, rr_err = e\<rparr>"
  by (simp_all add: explained_def finished_def cli_fail_def fail_status_def)

lemma explained_more [simp]:
  "explained r \<Longrightarrow> explained (after_output t r)" "explained r \<Longrightarrow> explained (with_usage r)"
  by (auto simp: explained_def after_output_def with_usage_def)

lemma explained_if: "(b \<Longrightarrow> explained x) \<Longrightarrow> (\<not> b \<Longrightarrow> explained y) \<Longrightarrow> explained (if b then x else y)"
  by simp

lemma explained_answers:
  "(\<And>x. explained (f x)) \<Longrightarrow> explained (answer q f)"
  "(\<And>x. explained (f x)) \<Longrightarrow> explained (fst (answer_ticking p f ob))"
  "(\<And>x. explained (fst (run x ob))) \<Longrightarrow> explained (fst (with_query w run ob))"
  by (auto simp: answer_def answer_ticking_def with_query_def split: prod.splits sum.splits)

lemma ingest_files_explained: "explained (fst (ingest_files fs lib files tally t ob))"
  by (induction fs lib files tally t ob rule: ingest_files.induct)
    (auto split: sum.splits prod.splits)

lemma commands_explained:
  "explained (fst (run_ingest fs lib opts ob))" "explained (fst (run_inspect opts ob))"
  "explained (fst (run_history opts ob))" "explained (fst (run_pressure opts ob))" "explained (fst (run_explain opts ob))"
  "explained (fst (run_export opts ob))" "explained (fst (run_status ob))" "explained (fst (run_events opts ob))"
  "explained (fst (run_sources ob))" "explained (fst (run_conflicts ob))" "explained (fst (run_burst opts ob))"
  "explained (fst (run_contend opts ob))"
  by (auto simp: run_ingest_def run_inspect_def run_history_def run_pressure_def run_explain_def run_export_def
      run_status_def run_events_def run_sources_def run_conflicts_def run_burst_def run_contend_def ingest_files_explained
      intro!: explained_answers split: prod.splits)

lemma run_command_explained:
  assumes "run_command fs lib io opts ob = Some r"
  shows "explained (fst r)"
proof -
  have "explained (fst r)" if "run_recover io ob = Some r"
    using that by (auto simp: run_recover_def split: option.splits)
  then show ?thesis
    using assms commands_explained(1) [of fs lib opts ob] commands_explained(2-6,8,11,12) [of opts ob] commands_explained(7,9,10) [of ob]
    by (auto simp: run_command_def Let_def split: if_splits)
qed

lemma stop_after_explained: "explained (fst r) \<Longrightarrow> explained (fst (stop_after io r))"
  by (auto simp: stop_after_def explained_def fail_status_def split: prod.splits)

text \<open>No failure is silent. Whatever the arguments, the files, the evidence and the faults of the disk, the
  exit code of a run that returns is one of 0 to 4, and a run that ends with 1 or 2 has said why on the error stream.\<close>

theorem failures_are_explained:
  assumes "qobs_main fs lib io record_size clock d build args = Some (r, ob)"
  shows "rr_exit r \<in> {0, 1, 2, 3, 4} \<and> (rr_exit r \<in> {1, 2} \<longrightarrow> rr_err r \<noteq> [])"
proof -
  have "explained r" if "run_options fs lib io record_size clock d opts = Some (r, ob)" for opts
  proof -
    have "explained (fst (stop_after io x))" if "run_command fs lib io opts ob1 = Some x" for x ob1
      using that by (intro stop_after_explained run_command_explained)
    then show ?thesis
      using that by (fastforce simp: run_options_def split: sum.splits option.splits prod.splits if_splits)
  qed
  then have "explained r"
    using assms by (auto simp: qobs_main_def split: sum.splits if_splits)
  then show ?thesis by (simp add: explained_def)
qed

theorem failures_are_explained_witness:
  "\<exists>r. qobs_main (\<lambda>_. \<lparr>df_size = None, df_bytes = None\<rparr>) no_doubles no_faults 600 sample_clock
      \<lparr>dk_exists = False, dk_entries = [], dk_passed = []\<rparr>
      \<lparr>bf_compiler = Gnuc, bf_ndebug = True, bf_address_sanitizer = False, bf_lock_audit = False\<rparr>
      [''--workers'', ''many'', ''status''] = Some (r, None) \<and> rr_exit r = 2 \<and> rr_err r \<noteq> []"
proof -
  let ?opts = "\<lparr>op_command = ''status'', op_values = [(''workers'', ''many'')], op_positional = []\<rparr>"
  have "parse_options [''--workers'', ''many'', ''status''] = Inr ?opts"
    by (simp add: parse_options_def is_option_def is_boolean_flag_def kFlags_def add_value_def add_word_def no_options_def Let_def)
  moreover have "parse_u64 ''many'' = None" by code_simp
  ultimately have run: "qobs_main (\<lambda>_. \<lparr>df_size = None, df_bytes = None\<rparr>) no_doubles no_faults 600 sample_clock
      \<lparr>dk_exists = False, dk_entries = [], dk_passed = []\<rparr>
      \<lparr>bf_compiler = Gnuc, bf_ndebug = True, bf_address_sanitizer = False, bf_lock_audit = False\<rparr>
      [''--workers'', ''many'', ''status''] = Some (cli_fail ''option --workers requires a non-negative integer'', None)"
    by (simp add: qobs_main_def is_help_def run_options_def cli_config_def parse_size_option_def opt_get_def)
  then show ?thesis using failures_are_explained [OF run] by (simp add: cli_fail_def)
qed

end
