(* ===== verification/Transport_Apps.thy ===== *)
theory Transport_Apps
  imports Command Client
begin

text \<open>
  The two transport programs (\<^verbatim>\<open>apps/qobs_transport_client/main.cpp\<close> and
  \<^verbatim>\<open>apps/qobs_transport_server/main.cpp\<close>): their arguments, what they do and their exit codes. The
  outcome of a connection attempt, of creating the listening socket and of opening the port file is
  external; what the threads of the accept loop make of the server is an argument of the server
  program.
\<close>

section \<open>The client program\<close>

record client_arguments =
  ca_host :: string
  ca_port :: u16
  ca_document_path :: string
  ca_document_text :: string
  ca_repeat :: nat
  ca_request_status :: bool
  ca_expect_accept :: bool
  ca_expect_accepted :: u64

definition no_client_arguments :: client_arguments where
  "no_client_arguments =
     \<lparr>ca_host = ''127.0.0.1'', ca_port = 0, ca_document_path = [], ca_document_text = [], ca_repeat = 1,
      ca_request_status = False, ca_expect_accept = False, ca_expect_accepted = 0\<rparr>"

definition parse_port :: "string \<Rightarrow> u16 option" where
  "parse_port v = (case parse_u64 v of None \<Rightarrow> None | Some n \<Rightarrow> if n > 65535 then None else Some (ucast n))"

definition parse_positive :: "string \<Rightarrow> u64 option" where
  "parse_positive v = (case parse_u64 v of None \<Rightarrow> None | Some n \<Rightarrow> if n = 0 then None else Some n)"

definition unknown_option :: "string \<Rightarrow> string \<Rightarrow> string" where
  "unknown_option program token = program @ '': unknown option '' @ [CHR 0x27] @ token @ [CHR 0x27] @ eol"

text \<open>The arguments, or what has been written to the error stream about them.\<close>

fun client_parse :: "string list \<Rightarrow> client_arguments \<Rightarrow> string + client_arguments" where
  "client_parse [] a = Inr a"
| "client_parse (token # rest) a =
     (if token = ''--host'' then
        (case rest of [] \<Rightarrow> Inl [] | v # rest' \<Rightarrow> client_parse rest' (a\<lparr>ca_host := v\<rparr>))
      else if token = ''--port'' then
        (case rest of [] \<Rightarrow> Inl [] | v # rest' \<Rightarrow>
           (case parse_port v of None \<Rightarrow> Inl [] | Some n \<Rightarrow> client_parse rest' (a\<lparr>ca_port := n\<rparr>)))
      else if token = ''--document'' then
        (case rest of [] \<Rightarrow> Inl [] | v # rest' \<Rightarrow> client_parse rest' (a\<lparr>ca_document_path := v\<rparr>))
      else if token = ''--document-text'' then
        (case rest of [] \<Rightarrow> Inl [] | v # rest' \<Rightarrow> client_parse rest' (a\<lparr>ca_document_text := v\<rparr>))
      else if token = ''--repeat'' then
        (case rest of [] \<Rightarrow> Inl [] | v # rest' \<Rightarrow>
           (case parse_positive v of None \<Rightarrow> Inl [] | Some n \<Rightarrow> client_parse rest' (a\<lparr>ca_repeat := unat n\<rparr>)))
      else if token = ''--status'' then client_parse rest (a\<lparr>ca_request_status := True\<rparr>)
      else if token = ''--expect-accept'' then client_parse rest (a\<lparr>ca_expect_accept := True\<rparr>)
      else if token = ''--expect-accepted'' then
        (case rest of [] \<Rightarrow> Inl [] | v # rest' \<Rightarrow>
           (case parse_u64 v of None \<Rightarrow> Inl [] | Some n \<Rightarrow> client_parse rest' (a\<lparr>ca_expect_accepted := n\<rparr>)))
      else Inl (unknown_option ''qobs-transport-client'' token))"

definition client_usage :: string where
  "client_usage =
     ''usage: qobs-transport-client --port N [--host H] [--document P | --document-text T]'' @ eol @
     ''                             [--repeat N] [--status] [--expect-accept]'' @ eol @
     ''                             [--expect-accepted N]'' @ eol"

definition app_fail :: "string \<Rightarrow> string \<Rightarrow> string \<Rightarrow> run_result" where
  "app_fail program out message = \<lparr>rr_exit = 1, rr_out = out, rr_err = program @ '': '' @ c_string message @ eol\<rparr>"

definition client_fail :: "string \<Rightarrow> status \<Rightarrow> run_result" where
  "client_fail out status = app_fail ''qobs-transport-client'' out (error_to_string status)"

definition client_document :: "file_system \<Rightarrow> client_arguments \<Rightarrow> string result" where
  "client_document fs a =
     (if ca_document_path a \<noteq> [] then read_document_file fs (ca_document_path a) (2 ^ 20)
      else Inr (ca_document_text a))"

definition reply_line :: "batch_reply \<Rightarrow> string" where
  "reply_line reply =
     (let d = ir_decode (br_report reply); m = ir_admission (br_report reply) in
      ''ticket='' @ dec_u64 (br_ticket reply) @ '' lines='' @ dec_nat (do_lines d) @
      '' samples='' @ dec_nat (do_sample_count d) @ '' accepted='' @ dec_nat (ba_accepted m) @
      '' rejected='' @ dec_nat (ba_rejected m) @ '' fenced='' @ dec_nat (ba_fenced m) @
      '' duplicates='' @ dec_nat (ba_duplicates m) @ '' applied='' @ truth (ir_accepted (br_report reply)) @ eol)"

text \<open>The batches: the failure, or the total, what was printed and the client.\<close>

fun send_batches ::
    "'d doubles \<Rightarrow> string \<Rightarrow> nat \<Rightarrow> u64 \<Rightarrow> string \<Rightarrow> client \<Rightarrow> run_result + (u64 \<times> string \<times> client)" where
  "send_batches lib document 0 accepted out c = Inr (accepted, out, c)"
| "send_batches lib document (Suc n) accepted out c =
     (case send_batch lib document c of (sent, reply, c') \<Rightarrow>
        if \<not> status_ok sent then Inl (client_fail out sent)
        else send_batches lib document n (accepted + of_nat (ba_accepted (ir_admission (br_report reply))))
          (out @ reply_line reply) c')"

definition client_status :: "client_arguments \<Rightarrow> string \<Rightarrow> client \<Rightarrow> run_result + (string \<times> client)" where
  "client_status a out c =
     (if \<not> ca_request_status a then Inr (out, c)
      else case request_status c of
        (Inl status, c') \<Rightarrow> Inl (client_fail out status)
      | (Inr payload, c') \<Rightarrow> Inr (out @ ''status='' @ c_string payload @ eol, c'))"

definition client_verdict :: "client_arguments \<Rightarrow> u64 \<Rightarrow> string \<Rightarrow> run_result" where
  "client_verdict a accepted out =
     (if ca_expect_accept a \<and> accepted = 0
      then \<lparr>rr_exit = 6, rr_out = out, rr_err = ''qobs-transport-client: expected at least one accepted sample'' @ eol\<rparr>
      else if ca_expect_accepted a \<noteq> 0 \<and> accepted \<noteq> ca_expect_accepted a
      then \<lparr>rr_exit = 7, rr_out = out, rr_err = ''qobs-transport-client: expected '' @ dec_u64 (ca_expect_accepted a) @
        '' accepted samples, saw '' @ dec_u64 accepted @ eol\<rparr>
      else finished 0 out)"

text \<open>What follows the handshake.\<close>

definition client_session :: "'d doubles \<Rightarrow> client_arguments \<Rightarrow> string \<Rightarrow> client \<Rightarrow> run_result" where
  "client_session lib a document c =
     (case send_batches lib document (if document = [] then 0 else ca_repeat a) 0
          (''welcome='' @ c_string (cl_welcome c) @ eol) c of
        Inl r \<Rightarrow> r
      | Inr (accepted, out, c1) \<Rightarrow>
          case client_status a out c1 of
            Inl r \<Rightarrow> r
          | Inr (out', c2) \<Rightarrow> (let closed = close_client c2 in client_verdict a accepted out'))"

definition client_run ::
    "file_system \<Rightarrow> 'd doubles \<Rightarrow> (string \<Rightarrow> u16 \<Rightarrow> socket result) \<Rightarrow> client_arguments \<Rightarrow> run_result" where
  "client_run fs lib net a =
     (if ca_port a = 0 \<and> ca_document_path a = []
      then \<lparr>rr_exit = 2, rr_out = [], rr_err = ''qobs-transport-client: --port is required'' @ eol\<rparr>
      else case client_document fs a of
        Inl status \<Rightarrow> client_fail [] status
      | Inr document \<Rightarrow>
          case connect_to (net (ca_host a) (ca_port a)) ''qobs-transport-client'' new_client of (connected, c) \<Rightarrow>
            if \<not> status_ok connected then client_fail [] connected
            else client_session lib a document c)"

definition client_main ::
    "file_system \<Rightarrow> 'd doubles \<Rightarrow> (string \<Rightarrow> u16 \<Rightarrow> socket result) \<Rightarrow> string list \<Rightarrow> run_result" where
  "client_main fs lib net args =
     (case client_parse args no_client_arguments of
        Inl complaint \<Rightarrow> \<lparr>rr_exit = 2, rr_out = [], rr_err = complaint @ client_usage\<rparr>
      | Inr a \<Rightarrow> client_run fs lib net a)"

section \<open>The server program\<close>

record server_arguments =
  sa_host :: string
  sa_port :: u16
  sa_port_given :: bool
  sa_listen_handle :: u64
  sa_handle_given :: bool
  sa_port_file :: string
  sa_workers :: nat
  sa_max_connections :: nat
  sa_exit_after_batches :: nat
  sa_persist_dir :: string

definition no_server_arguments :: server_arguments where
  "no_server_arguments =
     \<lparr>sa_host = ''127.0.0.1'', sa_port = 0, sa_port_given = False, sa_listen_handle = 0, sa_handle_given = False,
      sa_port_file = [], sa_workers = 0, sa_max_connections = 32, sa_exit_after_batches = 0, sa_persist_dir = []\<rparr>"

fun server_parse :: "string list \<Rightarrow> server_arguments \<Rightarrow> string + server_arguments" where
  "server_parse [] a = Inr a"
| "server_parse (token # rest) a =
     (if token = ''--host'' then
        (case rest of [] \<Rightarrow> Inl [] | v # rest' \<Rightarrow> server_parse rest' (a\<lparr>sa_host := v\<rparr>))
      else if token = ''--port'' then
        (case rest of [] \<Rightarrow> Inl [] | v # rest' \<Rightarrow>
           (case parse_port v of None \<Rightarrow> Inl []
            | Some n \<Rightarrow> server_parse rest' (a\<lparr>sa_port := n, sa_port_given := True\<rparr>)))
      else if token = ''--listen-handle'' \<or> token = ''--listen-fd'' then
        (case rest of [] \<Rightarrow> Inl [] | v # rest' \<Rightarrow>
           (case parse_u64 v of None \<Rightarrow> Inl []
            | Some n \<Rightarrow> server_parse rest' (a\<lparr>sa_listen_handle := n, sa_handle_given := True\<rparr>)))
      else if token = ''--port-file'' then
        (case rest of [] \<Rightarrow> Inl [] | v # rest' \<Rightarrow> server_parse rest' (a\<lparr>sa_port_file := v\<rparr>))
      else if token = ''--workers'' then
        (case rest of [] \<Rightarrow> Inl [] | v # rest' \<Rightarrow>
           (case parse_u64 v of None \<Rightarrow> Inl [] | Some n \<Rightarrow> server_parse rest' (a\<lparr>sa_workers := unat n\<rparr>)))
      else if token = ''--max-connections'' then
        (case rest of [] \<Rightarrow> Inl [] | v # rest' \<Rightarrow>
           (case parse_positive v of None \<Rightarrow> Inl [] | Some n \<Rightarrow> server_parse rest' (a\<lparr>sa_max_connections := unat n\<rparr>)))
      else if token = ''--exit-after-batches'' then
        (case rest of [] \<Rightarrow> Inl [] | v # rest' \<Rightarrow>
           (case parse_u64 v of None \<Rightarrow> Inl [] | Some n \<Rightarrow> server_parse rest' (a\<lparr>sa_exit_after_batches := unat n\<rparr>)))
      else if token = ''--persist-dir'' then
        (case rest of [] \<Rightarrow> Inl [] | v # rest' \<Rightarrow> server_parse rest' (a\<lparr>sa_persist_dir := v\<rparr>))
      else Inl (unknown_option ''qobs-transport-server'' token))"

definition server_usage :: string where
  "server_usage =
     ''usage: qobs-transport-server [--host H] [--port N] [--listen-handle H] [--port-file P]'' @ eol @
     ''                             [--workers N] [--max-connections N]'' @ eol @
     ''                             [--exit-after-batches N] [--persist-dir P]'' @ eol"

definition server_fail :: "string \<Rightarrow> status \<Rightarrow> run_result" where
  "server_fail out status = app_fail ''qobs-transport-server'' out (error_to_string status)"

definition server_config :: "server_arguments \<Rightarrow> observatory_config" where
  "server_config a =
     (let config = default_observatory_config
          \<lparr>oc_runtime := default_runtime_limits\<lparr>worker_threads := sa_workers a\<rparr>,
           oc_transport := default_transport_limits\<lparr>max_connections := sa_max_connections a\<rparr>\<rparr>
      in if sa_persist_dir a \<noteq> [] then config\<lparr>oc_persistence_directory := Some (sa_persist_dir a), oc_recover_on_start := True\<rparr>
         else config)"

text \<open>What the system answers to the server program: whether an adopted handle is open, the outcome of
  listening, the port that was bound, and whether the port file opens.\<close>

record server_system =
  sy_handle_open :: "u64 \<Rightarrow> bool"
  sy_listen :: "string \<Rightarrow> u16 \<Rightarrow> status"
  sy_local_port :: u16
  sy_port_file_opens :: bool

definition server_listen :: "server_system \<Rightarrow> server_arguments \<Rightarrow> server \<Rightarrow> status \<times> server" where
  "server_listen sys a sv =
     (if sa_handle_given a then adopt (sy_handle_open sys (sa_listen_handle a)) sv
      else listen_on (sy_listen sys (sa_host a) (sa_port a)) sv)"

definition listening_line :: "server_system \<Rightarrow> server_arguments \<Rightarrow> server \<Rightarrow> string" where
  "listening_line sys a sv =
     ''listening host='' @ sa_host a @ '' port='' @ dec_nat (unat (sy_local_port sys)) @ '' runtime='' @
     c_string (se_runtime_id (session (ob_store (sv_runtime sv)))) @ eol"

definition stats_line :: "server_stats \<Rightarrow> string" where
  "stats_line s =
     ''connections='' @ dec_u64 (ss_connections_accepted s) @ '' frames='' @ dec_u64 (ss_frames_received s) @
     '' batches='' @ dec_u64 (ss_batches_applied s) @ '' rejected_frames='' @ dec_u64 (ss_frames_rejected s) @
     '' failures='' @ dec_u64 (ss_batch_failures s) @ eol"

text \<open>After the accept loop: the statistics, the end of the runtime, the exit code.\<close>

definition server_finish :: "io_faults \<Rightarrow> server_arguments \<Rightarrow> string \<Rightarrow> status \<Rightarrow> server \<Rightarrow> run_result \<times> observatory" where
  "server_finish io a out served sv =
     (let out' = out @ stats_line (sv_stats sv) in
      case stop_observatory io (sv_runtime sv) of (stopped, ob) \<Rightarrow>
        (if \<not> status_ok stopped then server_fail out' stopped
         else if \<not> status_ok served then server_fail out' served
         else finished (if sa_exit_after_batches a > 0 \<and> unat (ss_batches_applied (sv_stats sv)) < sa_exit_after_batches a
           then 5 else 0) out', ob))"

text \<open>From the runtime on. The argument \<^term>\<open>serve\<close> is what the accept loop and its workers make of the
  server.\<close>

definition server_run ::
    "server_system \<Rightarrow> (server \<Rightarrow> status \<times> server) \<Rightarrow> io_faults \<Rightarrow> server_arguments \<Rightarrow> observatory
     \<Rightarrow> run_result \<times> observatory" where
  "server_run sys serve io a ob =
     (case server_listen sys a (new_server ob (oc_transport (server_config a))) of (status, sv) \<Rightarrow>
        if \<not> status_ok status then (server_fail [] status, ob)
        else let out = listening_line sys a sv in
          if sa_port_file a \<noteq> [] \<and> \<not> sy_port_file_opens sys
          then (app_fail ''qobs-transport-server'' out ''cannot write the port file'', ob)
          else case serve (set_stop_after_batches (sa_exit_after_batches a) sv) of (served, sv') \<Rightarrow>
            server_finish io a out served sv')"

definition server_main ::
    "server_system \<Rightarrow> (server \<Rightarrow> status \<times> server) \<Rightarrow> io_faults \<Rightarrow> nat \<Rightarrow> (nat \<Rightarrow> receive_time) \<Rightarrow> disk
     \<Rightarrow> string list \<Rightarrow> (run_result \<times> observatory option) option" where
  "server_main sys serve io record_size clock d args =
     (case server_parse args no_server_arguments of
        Inl complaint \<Rightarrow> Some (\<lparr>rr_exit = 2, rr_out = [], rr_err = complaint @ server_usage\<rparr>, None)
      | Inr a \<Rightarrow>
          case create_observatory (server_config a) record_size clock d of
            Inl status \<Rightarrow> Some (server_fail [] status, None)
          | Inr ob \<Rightarrow>
              case start_observatory io ob of
                None \<Rightarrow> None
              | Some (started, ob1) \<Rightarrow>
                  if \<not> status_ok started then Some (server_fail [] started, Some (destroy_observatory io ob1))
                  else case server_run sys serve io a ob1 of (r, ob2) \<Rightarrow> Some (r, Some (destroy_observatory io ob2)))"

end
