(* ===== verification/Transport_Apps_Properties.thy ===== *)
theory Transport_Apps_Properties
  imports Transport_Apps Exchange_Properties
begin

text \<open>
  Properties of the two transport programs: what an exit code of zero promises, and a check that does not
  do what its message says.
\<close>

section \<open>The client program\<close>

text \<open>The answers to a document that is sent a number of times.\<close>

fun batch_replies :: "'d doubles \<Rightarrow> string \<Rightarrow> nat \<Rightarrow> client \<Rightarrow> (status \<times> batch_reply) list" where
  "batch_replies lib document 0 c = []"
| "batch_replies lib document (Suc n) c =
     (case send_batch lib document c of (sent, reply, c') \<Rightarrow> (sent, reply) # batch_replies lib document n c')"

definition accepted_of :: "status \<times> batch_reply \<Rightarrow> u64" where
  "accepted_of x = of_nat (ba_accepted (ir_admission (br_report (snd x))))"

lemma send_batches_replies:
  "send_batches lib document n acc out c = Inr (acc', out', c') \<Longrightarrow>
     list_all (\<lambda>x. status_ok (fst x)) (batch_replies lib document n c)
     \<and> acc' = acc + sum_list (map accepted_of (batch_replies lib document n c))
     \<and> length (batch_replies lib document n c) = n"
  by (induction lib document n acc out c rule: send_batches.induct)
    (auto simp: accepted_of_def split: prod.splits if_splits)

lemma send_batches_fails: "send_batches lib document n acc out c = Inl r \<Longrightarrow> rr_exit r = 1"
  by (induction lib document n acc out c rule: send_batches.induct)
    (auto simp: client_fail_def app_fail_def split: prod.splits if_splits)

text \<open>C33: An exit code of zero is a promise about the server's answers. When the client program ends with 0, the
  document was sent as often as asked, every exchange succeeded, and the accepted samples that the server
  reported sum up to the expected number, where one was asked for.\<close>

theorem client_success_counts:
  assumes "rr_exit (client_session lib a document c) = 0" "document \<noteq> []"
  shows "length (batch_replies lib document (ca_repeat a) c) = ca_repeat a
    \<and> list_all (\<lambda>x. status_ok (fst x)) (batch_replies lib document (ca_repeat a) c)
    \<and> (ca_expect_accepted a \<noteq> 0 \<longrightarrow> sum_list (map accepted_of (batch_replies lib document (ca_repeat a) c)) = ca_expect_accepted a)
    \<and> (ca_expect_accept a \<longrightarrow> sum_list (map accepted_of (batch_replies lib document (ca_repeat a) c)) \<noteq> 0)"
proof -
  let ?sent = "send_batches lib document (ca_repeat a) 0 (''welcome='' @ c_string (cl_welcome c) @ eol) c"
  obtain acc out c1 where sent: "?sent = Inr (acc, out, c1)"
    using assms(1,2) send_batches_fails by (cases ?sent) (force simp: client_session_def)+
  have "rr_exit (client_verdict a acc out') = 0" if "client_status a out c1 = Inr (out', c2)" for out' c2
    using assms(1,2) sent that by (simp add: client_session_def)
  moreover obtain out' c2 where "client_status a out c1 = Inr (out', c2)"
    using assms(1,2) sent
    by (auto simp: client_session_def client_status_def client_fail_def app_fail_def split: sum.splits prod.splits if_splits)
  ultimately have "rr_exit (client_verdict a acc out') = 0" by blast
  then have "ca_expect_accepted a \<noteq> 0 \<longrightarrow> acc = ca_expect_accepted a" "ca_expect_accept a \<longrightarrow> acc \<noteq> 0"
    by (auto simp: client_verdict_def finished_def split: if_splits)
  then show ?thesis using send_batches_replies [OF sent] by simp
qed

definition accepting_reply :: batch_reply where
  "accepting_reply = empty_reply\<lparr>br_report := empty_report\<lparr>ir_admission := empty_batch\<lparr>ba_accepted := 1\<rparr>\<rparr>\<rparr>"

theorem client_success_counts_witness:
  "\<exists>c. length (batch_replies no_doubles ''x'' 1 c) = 1 \<and> sum_list (map accepted_of (batch_replies no_doubles ''x'' 1 c)) = 1"
proof -
  let ?a = "no_client_arguments\<lparr>ca_port := 7, ca_document_text := ''x'', ca_expect_accepted := 1\<rparr>"
  define c where "c = new_client\<lparr>cl_connection :=
    new_socket [Send_Taken 1] [Recv_Bytes (frame_bytes (frame_of BatchResult (encode_batch_result accepting_reply)))] []\<rparr>"
  have some: "frame_bytes f \<noteq> []" for f by (simp add: frame_bytes_def le_bytes_def)
  have small: "reply_small accepting_reply" by (simp add: reply_small_def accepting_reply_def empty_reply_def)
  have ready: "client_ready c"
    using default_reply_room
    by (simp add: client_ready_def c_def new_client_def new_frame_reader_def healthy_def sends_well_def new_socket_def)
  have fits: "frame_fits (cl_limits c) (frame_of Batch ''x'')"
    using default_frame_room [of "''x''" Batch] by (simp add: c_def new_client_def frame_room_def)
  obtain status reply c' where batch: "send_batch no_doubles ''x'' c = (status, reply, c')" by (metis prod_cases3)
  have "incoming (so_recvs (cl_connection c)) = frame_bytes (frame_of BatchResult (encode_batch_result accepting_reply))"
    using some by (simp add: c_def new_socket_def)
  note client_reads_reply [OF ready fits small this batch]
  then have "send_batch no_doubles ''x'' c = (success, reported accepting_reply, c')" using batch by simp
  moreover have "ba_accepted (ir_admission (br_report (reported accepting_reply))) = 1"
    by (simp add: reported_def accepting_reply_def wire_size_def Let_def)
  ultimately have "rr_exit (client_session no_doubles ?a ''x'' c) = 0"
    by (simp add: client_session_def client_status_def client_verdict_def no_client_arguments_def finished_def Let_def)
  from client_success_counts [OF this] show ?thesis by (auto simp: no_client_arguments_def)
qed

text \<open>The check for a missing port does not apply when a document file is named: the client then reads the
  file and asks for a connection to port 0.\<close>

theorem port_not_required:
  "client_main fs lib net [''--document'', ''d''] =
    (case read_document_file fs ''d'' (2 ^ 20) of
       Inl status \<Rightarrow> client_fail [] status
     | Inr document \<Rightarrow>
         case connect_to (net ''127.0.0.1'' 0) ''qobs-transport-client'' new_client of (connected, c) \<Rightarrow>
           if \<not> status_ok connected then client_fail [] connected
           else client_session lib (no_client_arguments\<lparr>ca_document_path := ''d''\<rparr>) document c)"
  by (simp add: client_main_def client_run_def client_document_def no_client_arguments_def split: sum.split prod.split)

section \<open>The server program\<close>

text \<open>The server program's exit code of zero is a promise too. When it was asked to end after a number of
  batches and ends with 0, then it listened, the accept loop ended without an error having applied at
  least that many batches, and the runtime stopped cleanly.\<close>

theorem server_success_counts:
  assumes "server_main sys serve io record_size clock d args = Some (r, ob)" "rr_exit r = 0"
    and "server_parse args no_server_arguments = Inr a" "sa_exit_after_batches a > 0"
  shows "\<exists>sv. sv_listening sv \<and> status_ok (fst (serve sv))
    \<and> sa_exit_after_batches a \<le> unat (ss_batches_applied (sv_stats (snd (serve sv))))
    \<and> status_ok (fst (stop_observatory io (sv_runtime (snd (serve sv)))))"
proof -
  have failing: "rr_exit (server_fail out status) = 1" "rr_exit (app_fail program out message) = 1" for out status program message
    by (simp_all add: server_fail_def app_fail_def)
  obtain ob1 where run: "r = fst (server_run sys serve io a ob1)"
    using assms(1-3) failing
    by (fastforce simp: server_main_def split: sum.splits option.splits prod.splits if_splits dest: arg_cong [of _ "(r, _)" fst])
  obtain status sv where listen: "server_listen sys a (new_server ob1 (oc_transport (server_config a))) = (status, sv)"
    by fastforce
  let ?sv = "set_stop_after_batches (sa_exit_after_batches a) sv"
  have "status_ok status" using run listen assms(2) failing by (auto simp: server_run_def split: if_splits)
  then have "sv_listening ?sv"
    using listen by (auto simp: server_listen_def adopt_def listen_on_def set_stop_after_batches_def failure_def status_ok_def split: if_splits)
  moreover have "rr_exit (fst (server_finish io a out (fst (serve ?sv)) (snd (serve ?sv)))) = 0" if "out = listening_line sys a sv" for out
    using run listen assms(2) failing that by (auto simp: server_run_def case_prod_beta Let_def split: if_splits)
  ultimately show ?thesis
    using assms(4) failing
    by (intro exI [of _ ?sv]) (auto simp: server_finish_def finished_def Let_def split: prod.splits if_splits)
qed

end
