(* ===== verification/Spec2Isabelle.thy ===== *)
theory Spec2Isabelle
  imports Prelude Ordered_Map Ring Checked Crc32c Text Identity Limits Time Counter Evidence
    Sample Metadata Event Policy Explanation Classification History Window Window_Properties Correlation
    Store_State Store_Ingest Store_Invariants Store_Properties
    Json Json_Render Json_Writer Decode Encode Wire_Roundtrip Wire_Properties Ingest
    Store_Query Query_Properties
    Field_Mask Segment_Bytes Segment Segment_Decode Segment_Roundtrip Segment_Frames Segment_Encode
    Segment_Properties Segment_Files Persistence_Properties Recovery Recovery_Properties
    Observatory Observatory_Properties
    Socket Socket_Handles Protocol Protocol_Properties Server Client Transport_Properties Exchange_Properties
    Lock_Audit Report Documents Command Command_Properties Transport_Apps Transport_Apps_Properties
begin

text \<open>
  Queue Observatory: a verification library.

  The program (C++20, under \<^verbatim>\<open>src/\<close>) observes the queues of network devices. Agents send
  samples of queue measurements; the store checks who sent them, derives what happened
  since the last sample, classifies the pressure each queue is under, and keeps a bounded
  history that queries explain. The rule behind the design is that a report never claims
  more than the evidence supports: unknown, stale and conflicting evidence is reported as
  such, and memory is bounded by configuration.

  \<^bold>\<open>The parts and their theories.\<close> Each theory models one part of the source, in the order
  of the source, with the state as a record, enumerations as datatypes, one definition per
  function or per section of a long function, and errors as values.

  \<^item> \<open>Prelude\<close>: machine integers at their width, C++ division, \<^verbatim>\<open>Status\<close> and \<^verbatim>\<open>Result\<close>
    (\<^verbatim>\<open>core/Result\<close>), decimal text. \<open>Ordered_Map\<close> and \<open>Ring\<close> hold the two interfaces the
    components rely on, as locales: an ordered finite map (\<^verbatim>\<open>std::map\<close>), and a log that
    keeps its newest entries. The association list, the history ring and the event log of
    the store are their interpretations.
  \<^item> \<open>Checked\<close>, \<open>Crc32c\<close>, \<open>Text\<close>, \<open>Identity\<close>, \<open>Limits\<close>, \<open>Time\<close>: the core utilities
    (\<^verbatim>\<open>core/*.cpp\<close>, \<^verbatim>\<open>model/Identity.cpp\<close>). Checked operations are exact or absent; the
    table-driven checksum equals a bitwise reference and sees every damaged byte; integer
    parsing accepts exactly the numerals in range; queue paths round trip.
  \<^item> \<open>Counter\<close>, \<open>Evidence\<close>, \<open>Sample\<close>, \<open>Metadata\<close>, \<open>Event\<close>: the model (\<^verbatim>\<open>model/*.cpp\<close>). Counter
    updates account for every reading and, for readings within the counter's width of a device that
    never resets, never invent progress; freshness is monotone in
    age; a validated metadata table has unique keys and never overrides what was observed.
  \<^item> \<open>Policy\<close>, \<open>Explanation\<close>, \<open>Classification\<close>: the verdict (\<^verbatim>\<open>policy/*.cpp\<close>). Thirteen rules
    run in order; they refine a first-match decision table whose path is the trace. Live
    states need live evidence, severity is monotone in occupancy, every state is reachable.
  \<^item> \<open>History\<close>, \<open>Window\<close>, \<open>Correlation\<close>: bounded storage and windows (\<^verbatim>\<open>store/History.cpp\<close>,
    \<^verbatim>\<open>store/Window.cpp\<close>, \<^verbatim>\<open>store/Correlation.cpp\<close>). The rings refine the list of their
    newest entries; the window refines a list of buckets at any times, and \<open>Window_Properties\<close>: for
    observations in the order of time it holds exactly the newest buckets within its length;
    ratios are in lowest terms.
  \<^item> \<open>Store_State\<close>, \<open>Store_Ingest\<close>: the evidence store (\<^verbatim>\<open>store/Store.cpp\<close>): its records and
    constructor, the event log, assessment, conflict detection, and the admission handler
    \<^verbatim>\<open>ingest_locked\<close> with the operations around it. \<open>Store_Invariants\<close> has the invariant, its
    preservation by every operation, and the reachable states; \<open>Store_Properties\<close> has what
    the store promises: bounds, the admission decision table, replay protection, sources
    that only grow, recovered evidence that never becomes live, forward-moving metadata.

  \<^item> \<open>Json\<close>, \<open>Json_Writer\<close>: the JSON parser and writer (\<^verbatim>\<open>core/Json.cpp\<close>). \<open>Json_Render\<close> has a
    reference text for documents without doubles, which is what the writer produces and what the
    parser reads; so the calls of the writer for a document give a text that parses back to it.
    What the parser accepts is within every limit.
  \<^item> \<open>Decode\<close>, \<open>Encode\<close>: the line-oriented wire format (\<^verbatim>\<open>ingest/Decode.cpp\<close>). \<open>Wire_Roundtrip\<close>
    and \<open>Wire_Properties\<close> show that what is encoded is decoded again, that every line of a
    document is accounted for, and where the encoder and the decoder disagree. \<open>Ingest\<close>
    (\<^verbatim>\<open>ingest/Ingest.cpp\<close>) composes the decoder with the store.
  \<^item> \<open>Store_Query\<close>: the queries of the store. The paging loop they share is the locale
    \<open>pager\<close>. \<open>Query_Properties\<close>: pages are exact, queries change nothing, an explanation
    reproduces its verdict, a contention claim rests on both queues, an export has a line per
    record.

  \<^item> \<open>Segment_Bytes\<close>, \<open>Segment\<close>, \<open>Segment_Decode\<close>: the persistence segment (\<^verbatim>\<open>persist/Format.cpp\<close>),
    a header and framed records with checksums. The reader of each kind of entry is an
    interpretation of the locale \<open>codec\<close> (\<open>Segment_Roundtrip\<close>); \<open>Segment_Frames\<close> reads the payload
    as a list of records; \<open>Segment_Encode\<close> says when the encoder succeeds. \<open>Segment_Properties\<close>:
    a snapshot within the bounds of the decoder round trips, a cut segment gives back a part and is never reported clean, and
    neither is a segment with a damaged byte. Enumerators that the decoder does not check
    are held as the bytes they are. \<open>Field_Mask\<close> is shared with the wire format.
  \<^item> \<open>Segment_Files\<close>: the directory of segments (\<^verbatim>\<open>persist/Persistence.cpp\<close>) as names and contents,
    with the failures of the file system as an argument and every directory state that a write
    passes through kept, so that a crash is the choice of one of them. \<open>Persistence_Properties\<close>: as
    long as the numbering is ahead of the directory, a write is atomic at every crash point, what it
    published is recovered, and rotation without faults keeps the newest segments.
  \<^item> \<open>Recovery\<close>: \<^verbatim>\<open>build_snapshot\<close> and \<^verbatim>\<open>apply_recovered_snapshot\<close> (\<^verbatim>\<open>persist/Format.cpp\<close>,
    \<^verbatim>\<open>runtime/Engine.cpp\<close>). \<open>Recovery_Properties\<close>: the bytes of a snapshot of a store are
    enumerators and give its newest records back in full, restoring keeps the store sound and makes no
    queue live; samples and classes that recovery loses.
  \<^item> \<open>Observatory\<close>: the runtime (\<^verbatim>\<open>runtime/Observatory.cpp\<close>). Each critical section of a worker is
    one definition, and the relation \<open>runtime_step\<close> interleaves them with submissions.
    \<open>Observatory_Properties\<close>: every interleaving applies the documents in the order of submission,
    the queue drains, a stop discards what is queued.
  \<^item> \<open>Socket\<close>, \<open>Protocol\<close>, \<open>Server\<close>, \<open>Client\<close>: the transport (\<^verbatim>\<open>transport/*.cpp\<close>). A socket carries the
    answers the operating system will give, so short writes, failures and the cutting of a stream
    into pieces are choices of these answers. \<open>Socket_Handles\<close> follows the descriptors behind the
    socket objects: none leaks and none has two owners. \<open>Protocol_Properties\<close>: frames round trip and damage is
    refused. \<open>Transport_Properties\<close>: the server answers the frames of a stream in order whatever the
    pieces, unless frames follow a farewell; the queue of connections is bounded and accounted for. \<open>Exchange_Properties\<close>: a batch
    travels from the client to the store and its report back.
  \<^item> \<open>Lock_Audit\<close>: the lock ranks and their audit (\<^verbatim>\<open>core/LockAudit.cpp\<close>), with the threads of a program as
    a sequence of acquisitions and releases. Acquisitions that the audit does not count never form a
    deadlock among ranks above the leaves; what it does not see is stated too.
  \<^item> \<open>Report\<close>: the reports (\<^verbatim>\<open>runtime/Export.cpp\<close>). A report has one line per record whatever the names
    in it.
  \<^item> \<open>Documents\<close>, \<open>Command\<close>: document files (\<^verbatim>\<open>ingest/Ingest.cpp\<close>) and the command line
    (\<^verbatim>\<open>apps/qobs/main.cpp\<close>). A run is an exit code, two output streams and the runtime it leaves.
    \<open>Command_Properties\<close>: options round trip and may stand on either side of the command, commands
    only observe, failures are explained.
  \<^item> \<open>Transport_Apps\<close>: the client and the server program (\<^verbatim>\<open>apps/qobs_transport_*/main.cpp\<close>).
    \<open>Transport_Apps_Properties\<close>: what their exit codes promise.

  \<^bold>\<open>Choices.\<close> Unsigned integers are words of their width and wrap; signed integers are \<open>int\<close>
  with the wrap written out (\<open>wrap_i64\<close>); sizes are \<open>nat\<close>. Strings are lists of characters,
  one per byte. A clock reading is external input: the store carries the sequence of
  readings it will make. The size of a history record in bytes, chosen by the compiler, is a
  field of the store. A stop token is the sequence of its polls. All loops are structural
  recursions or have a termination proof, except the JSON parser, whose fuel is the
  length of the text plus one and is shown never to run out. The conversion of a decimal
  fraction to a double belongs to the standard library and is a parameter. The defects the proofs showed
  are stated as theorems about the code as it is.

  \<^bold>\<open>Not modelled.\<close> Mutexes and condition variables (each store operation is one critical section, and
  a worker step is enabled when its wait predicate holds), the system clock, the network
  and the reading of files by the operating system are I/O around the model: their outcomes are
  arguments. The atomic flag behind a stop token, the hash functions of identifiers, and the
  threads of the accept loop inside the server program (their steps are in \<open>Server\<close>) are left out.
\<close>

end
